(* ===== verification/Regexp.thy ===== *)
theory Regexp
  imports GoBase
begin

text \<open>
  The regular expressions the program uses, with the leftmost-first semantics of
  Go's package regexp. An expression is matched at a position, given by the
  character before it and the text after it; \<open>ends\<close> lists the positions where
  a match can end, in the order of preference of a backtracking search, so that its
  first element is the match that Go reports. \<open>lang\<close> is the language of an
  expression as a relation between positions; \<open>ends\<close> computes exactly it.
  The classes are ASCII, so that matching bytes is matching runes. Under \<open>(?i)\<close> the
  classes that hold k or s also hold the Kelvin sign and the long s, which fold to them; these are
  alternatives of several bytes, with first bytes of their own.
\<close>

datatype re = Cls "char \<Rightarrow> bool" | WordB | Empty | Cat re re | Alt re re | Star re

type_synonym pos = "char option \<times> string"

definition word_char :: "char \<Rightarrow> bool" where
  "word_char c \<longleftrightarrow> is_alnum c \<or> c = CHR ''_''"

definition word_boundary :: "pos \<Rightarrow> bool" where
  "word_boundary q =
     ((case fst q of None \<Rightarrow> False | Some c \<Rightarrow> word_char c)
      \<noteq> (case snd q of [] \<Rightarrow> False | c # _ \<Rightarrow> word_char c))"

fun step_char :: "(char \<Rightarrow> bool) \<Rightarrow> pos \<Rightarrow> pos list" where
  "step_char p (b, []) = []"
| "step_char p (b, c # s) = (if p c then [(Some c, s)] else [])"

fun star_ends :: "(pos \<Rightarrow> pos list) \<Rightarrow> nat \<Rightarrow> pos \<Rightarrow> pos list" where
  "star_ends f 0 q = [q]"
| "star_ends f (Suc n) q =
     concat (map (star_ends f n) (filter (\<lambda>q'. length (snd q') < length (snd q)) (f q))) @ [q]"

primrec ends :: "re \<Rightarrow> pos \<Rightarrow> pos list" where
  "ends (Cls p) q = step_char p q"
| "ends WordB q = (if word_boundary q then [q] else [])"
| "ends Empty q = [q]"
| "ends (Cat r1 r2) q = concat (map (ends r2) (ends r1 q))"
| "ends (Alt r1 r2) q = ends r1 q @ ends r2 q"
| "ends (Star r) q = star_ends (ends r) (length (snd q)) q"

fun cats :: "re list \<Rightarrow> re" where
  "cats [] = Empty"
| "cats [r] = r"
| "cats (r # rs) = Cat r (cats rs)"

fun power_re :: "re \<Rightarrow> nat \<Rightarrow> re" where
  "power_re r 0 = Empty"
| "power_re r (Suc n) = Cat r (power_re r n)"

fun upto_re :: "re \<Rightarrow> nat \<Rightarrow> re" where
  "upto_re r 0 = Empty"
| "upto_re r (Suc n) = Alt (Cat r (upto_re r n)) Empty"

definition rep :: "re \<Rightarrow> nat \<Rightarrow> nat \<Rightarrow> re" where
  "rep r lo hi = Cat (power_re r lo) (upto_re r (hi - lo))"

definition rep_from :: "re \<Rightarrow> nat \<Rightarrow> re" where
  "rep_from r lo = Cat (power_re r lo) (Star r)"

definition plus :: "re \<Rightarrow> re" where
  "plus r = Cat r (Star r)"

definition opt :: "re \<Rightarrow> re" where
  "opt r = Alt r Empty"

definition chr :: "char \<Rightarrow> re" where
  "chr c = Cls (\<lambda>x. x = c)"

definition lit :: "string \<Rightarrow> re" where
  "lit s = cats (map chr s)"

definition kelvin_re :: re where "kelvin_re = lit [CHR 0xE2, CHR 0x84, CHR 0xAA]"

definition long_s_re :: re where "long_s_re = lit [CHR 0xC5, CHR 0xBF]"

definition chr_fold :: "char \<Rightarrow> re" where
  "chr_fold c =
     (let r = Cls (\<lambda>x. lower_char x = lower_char c) in
      if lower_char c = CHR ''k'' then Alt r kelvin_re
      else if lower_char c = CHR ''s'' then Alt r long_s_re else r)"

definition lit_fold :: "string \<Rightarrow> re" where
  "lit_fold s = cats (map chr_fold s)"

text \<open>A class with all letters under \<open>(?i)\<close>.\<close>

definition class_fold :: "(char \<Rightarrow> bool) \<Rightarrow> re" where
  "class_fold p = Alt (Cls p) (Alt kelvin_re long_s_re)"

definition digit :: re where "digit = Cls is_digit"

text \<open>A search tries every start from left to right.\<close>

fun match_from :: "re \<Rightarrow> char option \<Rightarrow> string \<Rightarrow> bool" where
  "match_from r b [] = (ends r (b, []) \<noteq> [])"
| "match_from r b (c # s) = (ends r (b, c # s) \<noteq> [] \<or> match_from r (Some c) s)"

definition match_string :: "re \<Rightarrow> string \<Rightarrow> bool" where
  "match_string r s = match_from r None s"

text \<open>
  \<open>FindAllStringIndex\<close>: the successive non-overlapping matches as index pairs. The
  argument skip is the number of characters the last match still covers.
  The expressions of the program match no empty text.
\<close>

fun find_all_from :: "re \<Rightarrow> char option \<Rightarrow> nat \<Rightarrow> nat \<Rightarrow> string \<Rightarrow> (nat \<times> nat) list" where
  "find_all_from r b i skip [] = []"
| "find_all_from r b i (Suc k) (c # s) = find_all_from r (Some c) (Suc i) k s"
| "find_all_from r b i 0 (c # s) =
     (case ends r (b, c # s) of
        [] \<Rightarrow> find_all_from r (Some c) (Suc i) 0 s
      | (q # _) \<Rightarrow>
          (let n = length (c # s) - length (snd q)
           in (i, i + n) # find_all_from r (Some c) (Suc i) (n - 1) s))"

definition find_all_index :: "re \<Rightarrow> string \<Rightarrow> (nat \<times> nat) list" where
  "find_all_index r s = find_all_from r None 0 0 s"

definition slice :: "string \<Rightarrow> nat \<Rightarrow> nat \<Rightarrow> string" where
  "slice s i j = take (j - i) (drop i s)"

definition find_all :: "re \<Rightarrow> string \<Rightarrow> string list" where
  "find_all r s = map (\<lambda>(i, j). slice s i j) (find_all_index r s)"

section \<open>The language of an expression\<close>

inductive lang :: "re \<Rightarrow> pos \<Rightarrow> pos \<Rightarrow> bool" where
  lang_Cls: "p c \<Longrightarrow> lang (Cls p) (b, c # s) (Some c, s)"
| lang_WordB: "word_boundary q \<Longrightarrow> lang WordB q q"
| lang_Empty: "lang Empty q q"
| lang_Cat: "lang r1 q q' \<Longrightarrow> lang r2 q' q'' \<Longrightarrow> lang (Cat r1 r2) q q''"
| lang_Alt1: "lang r1 q q' \<Longrightarrow> lang (Alt r1 r2) q q'"
| lang_Alt2: "lang r2 q q' \<Longrightarrow> lang (Alt r1 r2) q q'"
| lang_Star0: "lang (Star r) q q"
| lang_Star: "lang r q q' \<Longrightarrow> lang (Star r) q' q'' \<Longrightarrow> lang (Star r) q q''"

inductive_simps lang_Cls_iff: "lang (Cls p) q q'"
inductive_simps lang_WordB_iff: "lang WordB q q'"
inductive_simps lang_Empty_iff: "lang Empty q q'"
inductive_simps lang_Cat_iff: "lang (Cat r1 r2) q q'"
inductive_simps lang_Alt_iff: "lang (Alt r1 r2) q q'"
inductive_cases lang_StarE: "lang (Star r) q q'"

lemma lang_advance: "lang r q q' \<Longrightarrow> q' = q \<or> length (snd q') < length (snd q)"
proof (induction rule: lang.induct)
  case (lang_Cat r1 q q' r2 q'')
  then show ?case by (metis less_trans)
next
  case (lang_Star r q q' q'')
  then show ?case by (metis less_trans)
qed simp_all

lemma lang_length: "lang r q q' \<Longrightarrow> length (snd q') \<le> length (snd q)"
  by (drule lang_advance) (elim disjE; simp)

lemma star_ends_sound:
  assumes "\<And>q q'. q' \<in> set (f q) \<Longrightarrow> lang r q q'"
  shows "q' \<in> set (star_ends f n q) \<Longrightarrow> lang (Star r) q q'"
proof (induction n arbitrary: q)
  case 0
  then show ?case by (simp add: lang_Star0)
next
  case (Suc n)
  then consider "q' = q"
    | q1 where "q1 \<in> set (f q)" "q' \<in> set (star_ends f n q1)"
    by (auto simp del: split_paired_Ex)
  then show ?case
    by cases (simp add: lang_Star0, blast intro: lang_Star assms Suc.IH)
qed

lemma star_ends_complete:
  assumes "\<And>q q'. lang r q q' \<Longrightarrow> q' \<in> set (f q)"
    and "lang r' q q'" "r' = Star r" "length (snd q) \<le> n"
  shows "q' \<in> set (star_ends f n q)"
  using assms(2-4)
proof (induction arbitrary: n rule: lang.induct)
  case (lang_Star0 r'' q)
  then show ?case by (cases n) auto
next
  case (lang_Star r'' q q1 q2)
  then have step: "lang r q q1" by simp
  show ?case
  proof (cases "q1 = q")
    case True
    then show ?thesis using lang_Star by simp
  next
    case False
    then have less: "length (snd q1) < length (snd q)"
      using lang_advance [OF step] by simp
    then obtain m where n: "n = Suc m"
      using lang_Star.prems by (cases n) auto
    then have "q2 \<in> set (star_ends f m q1)"
      using lang_Star less by simp
    moreover have "q1 \<in> set (f q)"
      using assms(1) [OF step] .
    ultimately show ?thesis
      unfolding n using less by (simp del: split_paired_Ex) blast
  qed
qed auto

theorem ends_lang: "q' \<in> set (ends r q) \<longleftrightarrow> lang r q q'"
proof (induction r arbitrary: q q')
  case (Cls p)
  show ?case
    by (cases q; cases "snd q") (auto simp: lang_Cls_iff)
next
  case (Star r)
  show ?case
  proof
    assume "q' \<in> set (ends (Star r) q)"
    then show "lang (Star r) q q'"
      using star_ends_sound [of "ends r" r] Star by simp
  next
    assume "lang (Star r) q q'"
    then show "q' \<in> set (ends (Star r) q)"
      using star_ends_complete [of r "ends r" "Star r" q q' "length (snd q)"] Star by simp
  qed
next
  case WordB
  show ?case by (auto simp: lang_WordB_iff)
next
  case Empty
  show ?case by (auto simp: lang_Empty_iff)
next
  case (Cat r1 r2)
  have "lang (Cat r1 r2) q q' \<longleftrightarrow> (\<exists>q1. lang r1 q q1 \<and> lang r2 q1 q')"
    by (simp add: lang_Cat_iff)
  then show ?case
    unfolding ends.simps set_concat set_map UN_iff image_iff Bex_def Cat [symmetric]
    by blast
next
  case (Alt r1 r2)
  then show ?case by (simp add: lang_Alt_iff)
qed

definition last_char :: "string \<Rightarrow> char option" where
  "last_char s = (if s = [] then None else Some (last s))"

lemma ends_ne: "ends r q \<noteq> [] \<longleftrightarrow> (\<exists>q'. lang r q q')"
  using ends_lang [of _ r q] by (cases "ends r q") (simp_all del: split_paired_Ex, blast+)

lemma match_from_iff:
  "match_from r b s \<longleftrightarrow>
     (\<exists>u v q. s = u @ v \<and> lang r (orElse (last_char u) b, v) q)"
proof (induction s arbitrary: b)
  case Nil
  then show ?case
    by (simp add: ends_ne last_char_def del: split_paired_Ex)
next
  case (Cons c s)
  have here: "ends r (b, c # s) \<noteq> [] \<longleftrightarrow> (\<exists>q. lang r (b, c # s) q)"
    by (rule ends_ne)
  have later: "(\<exists>u v q. c # s = u @ v \<and> u \<noteq> [] \<and> lang r (orElse (last_char u) b, v) q) \<longleftrightarrow>
      (\<exists>u v q. s = u @ v \<and> lang r (orElse (last_char u) (Some c), v) q)"
    (is "?L \<longleftrightarrow> ?R")
  proof
    assume ?L
    then obtain u v q where "c # s = u @ v" "u \<noteq> []" "lang r (orElse (last_char u) b, v) q"
      by blast
    then show ?R
      by (intro exI [of _ "tl u"] exI [of _ v] exI [of _ q])
        (cases u; auto simp: last_char_def)
  next
    assume ?R
    then obtain u v q where "s = u @ v" "lang r (orElse (last_char u) (Some c), v) q"
      by blast
    then show ?L
      by (intro exI [of _ "c # u"] exI [of _ v] exI [of _ q]) (auto simp: last_char_def)
  qed
  have both: "(\<exists>u v q. c # s = u @ v \<and> lang r (orElse (last_char u) b, v) q) \<longleftrightarrow>
      (\<exists>q. lang r (b, c # s) q) \<or>
      (\<exists>u v q. c # s = u @ v \<and> u \<noteq> [] \<and> lang r (orElse (last_char u) b, v) q)"
    by (auto simp: last_char_def)
  show ?case
    unfolding both later using here Cons.IH [of "Some c"] by (simp del: split_paired_Ex)
qed

theorem match_string_iff:
  "match_string r s \<longleftrightarrow> (\<exists>u v q. s = u @ v \<and> lang r (last_char u, v) q)"
  by (simp add: match_string_def match_from_iff)

lemma lang_text: "lang r q q' \<Longrightarrow> \<exists>u. snd q = u @ snd q'"
  by (induction rule: lang.induct) auto

end
