(* ===== verification/GoFloat.thy ===== *)
theory GoFloat
  imports GoBase
begin

text \<open>
  Go's float64: exact rationals with the two infinities and NaN. Every arithmetic
  operation computes the exact rational and rounds it to the nearest double,
  ties to even, with gradual underflow and overflow to infinity, as IEEE 754 does.
  Comparisons with NaN are false. The sign of zero is not kept: a division by
  zero is taken as a division by +0.
\<close>

datatype f64 = NaN | NInf | PInf | Fin rat

definition pow2 :: "int \<Rightarrow> rat" where
  "pow2 e = (if 0 \<le> e then 2 ^ nat e else 1 / 2 ^ nat (- e))"

definition round_even :: "rat \<Rightarrow> int" where
  "round_even x = (let n = \<lfloor>x\<rfloor>; d = x - of_int n in
     if d < 1 / 2 then n else if 1 / 2 < d then n + 1 else if even n then n else n + 1)"

definition flog2 :: "rat \<Rightarrow> int" where
  "flog2 x = (let (n, d) = quotient_of x;
                  k = int (floorlog 2 (nat n)) - int (floorlog 2 (nat d))
              in if pow2 k \<le> x then k else k - 1)"

definition fround :: "rat \<Rightarrow> f64" where
  "fround x =
     (if x = 0 then Fin 0
      else let e = max (flog2 \<bar>x\<bar> - 52) (- 1074);
               r = of_int (round_even (x / pow2 e)) * pow2 e
           in if pow2 1024 \<le> \<bar>r\<bar> then (if 0 < x then PInf else NInf) else Fin r)"

definition flt :: "f64 \<Rightarrow> f64 \<Rightarrow> bool" where
  "flt a b = (case a of NaN \<Rightarrow> False
     | NInf \<Rightarrow> (case b of NaN \<Rightarrow> False | NInf \<Rightarrow> False | _ \<Rightarrow> True)
     | PInf \<Rightarrow> False
     | Fin x \<Rightarrow> (case b of PInf \<Rightarrow> True | Fin y \<Rightarrow> x < y | _ \<Rightarrow> False))"

definition feq :: "f64 \<Rightarrow> f64 \<Rightarrow> bool" where
  "feq a b \<longleftrightarrow> a = b \<and> a \<noteq> NaN"

definition fle :: "f64 \<Rightarrow> f64 \<Rightarrow> bool" where
  "fle a b \<longleftrightarrow> flt a b \<or> feq a b"

abbreviation fgt :: "f64 \<Rightarrow> f64 \<Rightarrow> bool" where "fgt a b \<equiv> flt b a"
abbreviation fge :: "f64 \<Rightarrow> f64 \<Rightarrow> bool" where "fge a b \<equiv> fle b a"

definition fneg :: "f64 \<Rightarrow> f64" where
  "fneg a = (case a of NaN \<Rightarrow> NaN | NInf \<Rightarrow> PInf | PInf \<Rightarrow> NInf | Fin x \<Rightarrow> Fin (- x))"

definition fadd :: "f64 \<Rightarrow> f64 \<Rightarrow> f64" where
  "fadd a b = (case (a, b) of (Fin x, Fin y) \<Rightarrow> fround (x + y)
     | (NaN, _) \<Rightarrow> NaN | (_, NaN) \<Rightarrow> NaN
     | (PInf, NInf) \<Rightarrow> NaN | (NInf, PInf) \<Rightarrow> NaN
     | (Fin _, _) \<Rightarrow> b | (_, _) \<Rightarrow> a)"

definition fsub :: "f64 \<Rightarrow> f64 \<Rightarrow> f64" where
  "fsub a b = fadd a (fneg b)"

definition fsgn :: "f64 \<Rightarrow> int" where
  "fsgn a = (case a of NaN \<Rightarrow> 0 | NInf \<Rightarrow> -1 | PInf \<Rightarrow> 1 | Fin x \<Rightarrow> \<lfloor>sgn x\<rfloor>)"

definition finf :: "int \<Rightarrow> f64" where
  "finf s = (if s = 0 then NaN else if 0 < s then PInf else NInf)"

definition fmul :: "f64 \<Rightarrow> f64 \<Rightarrow> f64" where
  "fmul a b = (case (a, b) of (Fin x, Fin y) \<Rightarrow> fround (x * y)
     | (NaN, _) \<Rightarrow> NaN | (_, NaN) \<Rightarrow> NaN
     | (_, _) \<Rightarrow> finf (fsgn a * fsgn b))"

definition fdiv :: "f64 \<Rightarrow> f64 \<Rightarrow> f64" where
  "fdiv a b = (case (a, b) of
       (Fin x, Fin y) \<Rightarrow> (if y = 0 then finf (fsgn a) else fround (x / y))
     | (NaN, _) \<Rightarrow> NaN | (_, NaN) \<Rightarrow> NaN
     | (Fin x, _) \<Rightarrow> Fin 0
     | (_, Fin y) \<Rightarrow> (if y < 0 then fneg a else a)
     | (_, _) \<Rightarrow> NaN)"

definition f_of_int :: "int \<Rightarrow> f64" where
  "f_of_int i = fround (of_int i)"

text \<open>The conversion to an integer truncates; out of range it gives the smallest
  int64, as on amd64.\<close>

definition f_to_int :: "f64 \<Rightarrow> int" where
  "f_to_int a = (case a of
       Fin x \<Rightarrow> (let t = (if 0 \<le> x then \<lfloor>x\<rfloor> else - \<lfloor>- x\<rfloor>)
                 in if in_int64 t then t else min_int64)
     | _ \<Rightarrow> min_int64)"

text \<open>\<open>fmt.Sprintf\<close> with \<open>%.<p>f\<close>: the exact value rounded half to even.\<close>

definition fmt_fixed :: "nat \<Rightarrow> f64 \<Rightarrow> string" where
  "fmt_fixed p a = (case a of NaN \<Rightarrow> ''NaN'' | PInf \<Rightarrow> ''+Inf'' | NInf \<Rightarrow> ''-Inf''
     | Fin x \<Rightarrow>
        (let m = nat (round_even (\<bar>x\<bar> * 10 ^ p));
             ip = nat_str (m div 10 ^ p);
             fp = nat_str (10 ^ p + m mod 10 ^ p)
         in (if x < 0 then ''-'' else '''') @ ip @ (if p = 0 then '''' else ''.'' @ tl fp)))"

section \<open>strconv.ParseFloat\<close>

fun span_digits :: "string \<Rightarrow> string \<times> string" where
  "span_digits [] = ([], [])"
| "span_digits (c # s) =
     (if is_digit c then (let (a, b) = span_digits s in (c # a, b)) else ([], c # s))"

definition parse_exp :: "string \<Rightarrow> int option" where
  "parse_exp s = (case s of [] \<Rightarrow> Some 0 | c # t \<Rightarrow>
     (if c \<noteq> CHR ''e'' \<and> c \<noteq> CHR ''E'' then None
      else let neg = (t \<noteq> [] \<and> hd t = CHR ''-'');
               u = (if t \<noteq> [] \<and> (hd t = CHR ''-'' \<or> hd t = CHR ''+'') then tl t else t);
               (ds, rest) = span_digits u
           in if ds = [] \<or> rest \<noteq> [] then None
              else (let e = int (min 99999 (parse_nat_acc 0 ds)) in Some (if neg then - e else e))))"

text \<open>
  Decimal notation, infinities and NaN; None is a syntax or range error. The
  hexadecimal notation of ParseFloat is not read.
\<close>

definition pow10 :: "int \<Rightarrow> rat" where
  "pow10 e = (if 0 \<le> e then 10 ^ nat e else 1 / 10 ^ nat (- e))"

definition parse_float :: "string \<Rightarrow> f64 option" where
  "parse_float s =
     (let neg = (s \<noteq> [] \<and> hd s = CHR ''-'');
          t = (if s \<noteq> [] \<and> (hd s = CHR ''-'' \<or> hd s = CHR ''+'') then tl s else s);
          l = to_lower t
      in if l = ''inf'' \<or> l = ''infinity'' then Some (if neg then NInf else PInf)
         else if to_lower s = ''nan'' then Some NaN
         else let (ip, r1) = span_digits t;
                  (fp, r2) = (if r1 \<noteq> [] \<and> hd r1 = CHR ''.'' then span_digits (tl r1) else ([], r1))
              in if ip = [] \<and> fp = [] then None
                 else (case parse_exp r2 of None \<Rightarrow> None
                   | Some e \<Rightarrow>
                     (let m = of_nat (parse_nat_acc 0 (ip @ fp)) * pow10 (e - int (length fp));
                          f = fround (if neg then - m else m)
                      in if f = PInf \<or> f = NInf then None else Some f)))"

lemma flt_irrefl [simp]: "\<not> flt a a"
  by (cases a) (auto simp: flt_def)

lemma flt_trans: "flt a b \<Longrightarrow> flt b c \<Longrightarrow> flt a c"
  by (cases a; cases b; cases c) (auto simp: flt_def)

lemma fle_lt_trans: "fle a b \<Longrightarrow> flt b c \<Longrightarrow> flt a c"
  by (auto simp: fle_def feq_def intro: flt_trans)

lemma flt_le_trans: "flt a b \<Longrightarrow> fle b c \<Longrightarrow> flt a c"
  by (auto simp: fle_def feq_def intro: flt_trans)

lemma fle_trans: "fle a b \<Longrightarrow> fle b c \<Longrightarrow> fle a c"
  by (auto simp: fle_def feq_def intro: flt_trans)

lemma flt_asym: "flt a b \<Longrightarrow> \<not> fle b a"
  by (cases a; cases b) (auto simp: flt_def fle_def feq_def)

lemma fle_total: "a \<noteq> NaN \<Longrightarrow> b \<noteq> NaN \<Longrightarrow> fle a b \<or> flt b a"
  by (cases a; cases b) (auto simp: flt_def fle_def feq_def)

lemma flt_Fin [simp]: "flt (Fin x) (Fin y) \<longleftrightarrow> x < y"
  by (simp add: flt_def)

lemma fle_Fin [simp]: "fle (Fin x) (Fin y) \<longleftrightarrow> x \<le> y"
  by (auto simp: fle_def feq_def)

lemma flt_NaN [simp]: "\<not> flt NaN a" "\<not> flt a NaN" "\<not> fle NaN a" "\<not> fle a NaN"
  by (cases a; simp add: flt_def fle_def feq_def)+

section \<open>Rounding is monotone\<close>

lemma round_even_mono: "x \<le> y \<Longrightarrow> round_even x \<le> round_even y"
proof -
  assume le: "x \<le> y"
  have fl: "\<lfloor>x\<rfloor> \<le> \<lfloor>y\<rfloor>" using le by (rule floor_mono)
  show ?thesis
  proof (cases "\<lfloor>x\<rfloor> = \<lfloor>y\<rfloor>")
    case True
    then show ?thesis using le by (auto simp: round_even_def Let_def)
  next
    case False
    have "round_even x \<le> \<lfloor>x\<rfloor> + 1" "\<lfloor>y\<rfloor> \<le> round_even y"
      by (auto simp: round_even_def Let_def)
    then show ?thesis using fl False by linarith
  qed
qed

lemma round_even_int [simp]: "round_even (of_int n) = n"
  by (simp add: round_even_def)

lemma pow2_pos [simp]: "0 < pow2 e"
  by (simp add: pow2_def)

lemma pow2_nonneg [simp]: "0 \<le> pow2 e"
  using pow2_pos [of e] by linarith

lemma pow2_ne [simp]: "pow2 e \<noteq> 0"
  using pow2_pos [of e] by linarith

lemma pow2_add: "pow2 (a + b) = pow2 a * pow2 b"
proof -
  have pi: "pow2 e = 2 powi e" for e by (simp add: pow2_def power_int_def field_simps)
  show ?thesis unfolding pi by (simp add: power_int_add)
qed

lemma pow2_mono: "a \<le> b \<Longrightarrow> pow2 a \<le> pow2 b"
proof -
  assume "a \<le> b"
  then have "pow2 b = pow2 a * pow2 (b - a)" "1 \<le> pow2 (b - a)"
    using pow2_add [of a "b - a"] by (simp_all add: pow2_def)
  then show ?thesis using mult_left_mono [of 1 "pow2 (b - a)" "pow2 a"] pow2_pos [of a] by simp
qed

lemma pow2_less_imp: "pow2 a < pow2 b \<Longrightarrow> a < b"
  using pow2_mono [of b a] by linarith

lemma pow2_nat: "pow2 (int n) = 2 ^ n"
  by (simp add: pow2_def)

lemma floorlog_bounds:
  "0 < n \<Longrightarrow> (2::nat) ^ (floorlog 2 n - 1) \<le> n \<and> n < 2 ^ floorlog 2 n"
  using floorlog_bounds [of n 2] by simp

lemma floorlog_pos: "0 < n \<Longrightarrow> 0 < floorlog 2 n"
  by (simp add: floorlog_def)

lemma flog2_bounds:
  assumes "0 < x"
  shows "pow2 (flog2 x) \<le> x" "x < pow2 (flog2 x + 1)"
proof -
  obtain n d where q: "quotient_of x = (n, d)" by (cases "quotient_of x")
  have d: "0 < d" using q quotient_of_denom_pos by blast
  have x: "x = of_int n / of_int d" using q quotient_of_div by blast
  have n: "0 < n" using assms x d by (simp add: zero_less_divide_iff)
  define a b where "a = floorlog 2 (nat n)" and "b = floorlog 2 (nat d)"
  have pos: "0 < a" "0 < b" using n d floorlog_pos by (simp_all add: a_def b_def)
  have bn: "2 ^ (a - 1) \<le> nat n \<and> nat n < 2 ^ a" and bd: "2 ^ (b - 1) \<le> nat d \<and> nat d < 2 ^ b"
    using floorlog_bounds [of "nat n"] floorlog_bounds [of "nat d"] n d by (simp_all add: a_def b_def)
  have nn: "rat_of_int n = of_nat (nat n)" "rat_of_int d = of_nat (nat d)" using n d by simp_all
  have N: "pow2 (int a - 1) \<le> of_int n" "of_int n < pow2 (int a)"
    using bn pos pow2_nat [of "a - 1"] pow2_nat [of a] unfolding nn
    by (simp_all add: of_nat_diff flip: of_nat_power_le_of_nat_cancel_iff of_nat_less_of_nat_power_cancel_iff)
  have D: "pow2 (int b - 1) \<le> of_int d" "of_int d < pow2 (int b)"
    using bd pos pow2_nat [of "b - 1"] pow2_nat [of b] unfolding nn
    by (simp_all add: of_nat_diff flip: of_nat_power_le_of_nat_cancel_iff of_nat_less_of_nat_power_cancel_iff)
  have dd: "0 < rat_of_int d" using d by simp
  have up: "x < pow2 (int a - int b + 1)"
  proof -
    have "of_int n < pow2 (int a - int b + 1) * pow2 (int b - 1)"
      using N(2) pow2_add [of "int a - int b + 1" "int b - 1"] by simp
    also have "\<dots> \<le> pow2 (int a - int b + 1) * of_int d"
      using D(1) by (intro mult_left_mono) simp_all
    finally show ?thesis using dd by (simp add: x pos_divide_less_eq)
  qed
  have low: "pow2 (int a - int b - 1) \<le> x"
  proof -
    have "pow2 (int a - int b - 1) * of_int d \<le> pow2 (int a - int b - 1) * pow2 (int b)"
      using D(2) by (intro mult_left_mono) simp_all
    also have "\<dots> \<le> of_int n" using N(1) pow2_add [of "int a - int b - 1" "int b"] by simp
    finally show ?thesis using dd by (simp add: x pos_le_divide_eq)
  qed
  show "pow2 (flog2 x) \<le> x" "x < pow2 (flog2 x + 1)"
    using up low by (auto simp: flog2_def q Let_def a_def [symmetric] b_def [symmetric])
qed

lemma flog2_mono: "0 < x \<Longrightarrow> x \<le> y \<Longrightarrow> flog2 x \<le> flog2 y"
  using flog2_bounds(1) [of x] flog2_bounds(2) [of y] pow2_less_imp [of "flog2 x" "flog2 y + 1"] by simp

definition ulp_exp :: "rat \<Rightarrow> int" where
  "ulp_exp x = max (flog2 x - 52) (- 1074)"

definition nearest :: "rat \<Rightarrow> rat" where
  "nearest x = of_int (round_even (x / pow2 (ulp_exp x))) * pow2 (ulp_exp x)"

lemma fround_nearest:
  "0 < x \<Longrightarrow> fround x = (if pow2 1024 \<le> \<bar>nearest x\<bar> then PInf else Fin (nearest x))"
  by (simp add: fround_def nearest_def ulp_exp_def Let_def)

lemma nearest_nonneg: "0 < x \<Longrightarrow> 0 \<le> nearest x"
proof -
  assume "0 < x"
  then have "0 \<le> x / pow2 (ulp_exp x)" by (simp add: less_imp_le)
  then have "0 \<le> round_even (x / pow2 (ulp_exp x))"
    using round_even_mono [of 0 "x / pow2 (ulp_exp x)"] round_even_int [of 0] by simp
  then show ?thesis by (simp add: nearest_def less_imp_le)
qed

lemma nearest_mono:
  assumes "0 < x" "x \<le> y"
  shows "nearest x \<le> nearest y"
proof -
  have y: "0 < y" using assms by simp
  have e: "ulp_exp x \<le> ulp_exp y"
    using flog2_mono [OF assms] by (simp add: ulp_exp_def)
  show ?thesis
  proof (cases "ulp_exp x = ulp_exp y")
    case True
    then have "round_even (x / pow2 (ulp_exp x)) \<le> round_even (y / pow2 (ulp_exp y))"
      using assms by (intro round_even_mono) (simp add: divide_right_mono less_imp_le)
    then show ?thesis
      unfolding nearest_def True by (intro mult_right_mono) (simp_all add: less_imp_le)
  next
    case False
    then have ey: "ulp_exp y = flog2 y - 52" "ulp_exp x < ulp_exp y"
      using e by (auto simp: ulp_exp_def)
    have "2 ^ 52 * pow2 (ulp_exp y) \<le> y"
      using flog2_bounds(1) [OF y] pow2_add [of 52 "flog2 y - 52"] ey(1) pow2_nat [of 52] by simp
    then have "2 ^ 52 \<le> round_even (y / pow2 (ulp_exp y))"
      using round_even_mono [of "of_int (2 ^ 52)" "y / pow2 (ulp_exp y)"] round_even_int [of "2 ^ 52"]
      by (simp add: pos_le_divide_eq)
    then have "rat_of_int (2 ^ 52) \<le> of_int (round_even (y / pow2 (ulp_exp y)))"
      by (simp only: of_int_le_iff)
    then have ry: "2 ^ 52 * pow2 (ulp_exp y) \<le> nearest y"
      unfolding nearest_def by (intro mult_right_mono) (simp_all add: less_imp_le)
    have "flog2 x + 1 \<le> ulp_exp x + 53" by (simp add: ulp_exp_def)
    then have "x \<le> pow2 (ulp_exp x + 53)"
      using flog2_bounds(2) [OF assms(1)] pow2_mono [of "flog2 x + 1" "ulp_exp x + 53"] by linarith
    then have "x / pow2 (ulp_exp x) \<le> of_int (2 ^ 53)"
      using pow2_add [of "ulp_exp x" 53] pow2_nat [of 53] by (simp add: pos_divide_le_eq mult.commute)
    then have "round_even (x / pow2 (ulp_exp x)) \<le> 2 ^ 53"
      using round_even_mono round_even_int by metis
    then have "rat_of_int (round_even (x / pow2 (ulp_exp x))) \<le> of_int (2 ^ 53)"
      by (simp only: of_int_le_iff)
    then have "nearest x \<le> of_int (2 ^ 53) * pow2 (ulp_exp x)"
      unfolding nearest_def by (intro mult_right_mono) (simp_all add: less_imp_le)
    also have "\<dots> = 2 ^ 52 * pow2 (ulp_exp x + 1)"
      using pow2_add [of "ulp_exp x" 1] pow2_nat [of 1] by simp
    also have "\<dots> \<le> 2 ^ 52 * pow2 (ulp_exp y)"
      using pow2_mono [of "ulp_exp x + 1" "ulp_exp y"] ey(2) by simp
    finally show ?thesis using ry by linarith
  qed
qed

lemma fround_mono:
  assumes "0 \<le> x" "x \<le> y"
  shows "fle (fround x) (fround y)"
proof (cases "x = 0")
  case True
  show ?thesis
  proof (cases "y = 0")
    case False
    then have "0 < y" using assms by simp
    then show ?thesis using True nearest_nonneg [of y]
      by (auto simp: fround_nearest fround_def [of 0] fle_def flt_def feq_def)
  qed (use True in \<open>simp add: fround_def fle_def feq_def\<close>)
next
  case False
  then have x: "0 < x" "0 < y" using assms by simp_all
  then show ?thesis
    using nearest_mono [OF x(1) assms(2)] nearest_nonneg [of x] nearest_nonneg [of y]
    by (auto simp: fround_nearest fle_def flt_def feq_def)
qed

lemma fround_int: "0 \<le> n \<Longrightarrow> n < 2 ^ 53 \<Longrightarrow> fround (of_int n) = Fin (of_int n)"
proof (cases "n = 0")
  case False
  assume n: "0 \<le> n" "n < 2 ^ 53"
  then have pos: "0 < rat_of_int n" using False by simp
  have "pow2 (flog2 (of_int n)) < pow2 53"
    using flog2_bounds(1) [OF pos] n(2) pow2_nat [of 53]
    by (metis le_less_trans of_int_less_iff of_int_numeral of_int_power of_nat_numeral)
  then have e: "ulp_exp (of_int n) \<le> 0" using pow2_less_imp [of "flog2 (of_int n)" 53] by (simp add: ulp_exp_def)
  define k where "k = nat (- ulp_exp (of_int n))"
  have u: "pow2 (ulp_exp (of_int n)) = 1 / 2 ^ k" using e by (auto simp: pow2_def k_def)
  have "round_even (of_int n / pow2 (ulp_exp (of_int n))) = n * 2 ^ k"
    using round_even_int [of "n * 2 ^ k"] by (simp add: u)
  then have "nearest (of_int n) = of_int n" by (simp add: nearest_def u)
  moreover have "\<not> pow2 1024 \<le> rat_of_int n"
  proof -
    have "rat_of_int n < of_int (2 ^ 53)" using n(2) by (simp only: of_int_less_iff)
    also have "\<dots> = pow2 53" using pow2_nat [of 53] by simp
    also have "\<dots> \<le> pow2 1024" by (rule pow2_mono) simp
    finally show ?thesis by simp
  qed
  ultimately show ?thesis using pos by (simp add: fround_nearest)
qed (simp add: fround_def)

end
