(* ===== verification/DataClass.thy ===== *)
theory DataClass
  imports Regexp GoFloat "HOL-Library.Multiset"
begin

text \<open>
  pkg/dataclass/dataclass.go: the deterministic detectors of personal, financial
  and credential data classes, the check digit routines (Luhn, Verhoeff, IBAN
  mod 97), and the budgeted walk over a JSON-like value (\<open>Scan\<close>).

  A Go value of type any is \<open>gany\<close>; a map is an association list with distinct
  keys, walked in the order of its keys as the source sorts them.
\<close>

section \<open>Classes\<close>

datatype data_class = Email | Phone | Aadhaar | PAN | IBAN | Card | Credential

fun class_name :: "data_class \<Rightarrow> string" where
  "class_name Email = ''email''"
| "class_name Phone = ''phone''"
| "class_name Aadhaar = ''aadhaar''"
| "class_name PAN = ''pan''"
| "class_name IBAN = ''iban''"
| "class_name Card = ''card''"
| "class_name Credential = ''credential''"

lemma class_name_inj: "class_name a = class_name b \<longleftrightarrow> a = b"
  by (cases a; cases b) simp_all

instantiation data_class :: linorder
begin

definition less_eq_data_class :: "data_class \<Rightarrow> data_class \<Rightarrow> bool" where
  "less_eq_data_class a b \<longleftrightarrow> class_name a \<le> class_name b"

definition less_data_class :: "data_class \<Rightarrow> data_class \<Rightarrow> bool" where
  "less_data_class a b \<longleftrightarrow> class_name a < class_name b"

instance
  by standard
    (auto simp: less_eq_data_class_def less_data_class_def class_name_inj [symmetric] less_le)

end

definition MaxDepth :: nat where "MaxDepth = 8"
definition MaxStringBytes :: int where "MaxStringBytes = 65536"
definition MaxTotalBytes :: int where "MaxTotalBytes = 1048576"
definition MaxNodes :: int where "MaxNodes = 10000"

definition IsPersonal :: "string \<Rightarrow> bool" where
  "IsPersonal name \<longleftrightarrow>
     to_lower name \<in> set (map class_name [Email, Phone, Aadhaar, PAN, IBAN, Card])"

definition Strings :: "data_class list \<Rightarrow> string list" where
  "Strings cs = map class_name cs"

section \<open>Check digits\<close>

definition verhoeffD :: "nat list list" where
  "verhoeffD =
    [[0, 1, 2, 3, 4, 5, 6, 7, 8, 9],
     [1, 2, 3, 4, 0, 6, 7, 8, 9, 5],
     [2, 3, 4, 0, 1, 7, 8, 9, 5, 6],
     [3, 4, 0, 1, 2, 8, 9, 5, 6, 7],
     [4, 0, 1, 2, 3, 9, 5, 6, 7, 8],
     [5, 9, 8, 7, 6, 0, 4, 3, 2, 1],
     [6, 5, 9, 8, 7, 1, 0, 4, 3, 2],
     [7, 6, 5, 9, 8, 2, 1, 0, 4, 3],
     [8, 7, 6, 5, 9, 3, 2, 1, 0, 4],
     [9, 8, 7, 6, 5, 4, 3, 2, 1, 0]]"

definition verhoeffP :: "nat list list" where
  "verhoeffP =
    [[0, 1, 2, 3, 4, 5, 6, 7, 8, 9],
     [1, 5, 7, 6, 2, 8, 3, 0, 9, 4],
     [5, 8, 0, 3, 7, 9, 6, 1, 4, 2],
     [8, 9, 1, 6, 0, 4, 3, 5, 2, 7],
     [9, 4, 5, 3, 1, 2, 6, 8, 7, 0],
     [4, 2, 8, 6, 5, 7, 3, 9, 0, 1],
     [2, 7, 9, 3, 8, 0, 6, 4, 1, 5],
     [7, 0, 4, 6, 9, 1, 3, 2, 5, 8]]"

fun verhoeff_loop :: "nat \<Rightarrow> nat \<Rightarrow> string \<Rightarrow> nat" where
  "verhoeff_loop c i [] = c"
| "verhoeff_loop c i (d # ds) =
     verhoeff_loop (verhoeffD ! c ! (verhoeffP ! (i mod 8) ! digit_val d)) (i + 1) ds"

definition verhoeffValid :: "string \<Rightarrow> bool" where
  "verhoeffValid d \<longleftrightarrow> length d = 12 \<and> verhoeff_loop 0 0 (rev d) = 0"

fun luhn_loop :: "int \<Rightarrow> bool \<Rightarrow> string \<Rightarrow> int" where
  "luhn_loop acc double [] = acc"
| "luhn_loop acc double (d # ds) =
     (let n = int (digit_val d);
          n = (if double then (if 2 * n > 9 then 2 * n - 9 else 2 * n) else n)
      in luhn_loop (acc + n) (\<not> double) ds)"

definition luhnValid :: "string \<Rightarrow> bool" where
  "luhnValid d \<longleftrightarrow> 13 \<le> length d \<and> length d \<le> 19 \<and> luhn_loop 0 False (rev d) mod 10 = 0"

fun iban_rem :: "nat \<Rightarrow> string \<Rightarrow> nat option" where
  "iban_rem r [] = Some r"
| "iban_rem r (c # s) =
     (if is_digit c then iban_rem ((r * 10 + digit_val c) mod 97) s
      else if is_upper c then iban_rem ((r * 100 + (byte c - 65 + 10)) mod 97) s
      else None)"

definition ibanValid :: "string \<Rightarrow> bool" where
  "ibanValid s \<longleftrightarrow> 15 \<le> length s \<and> length s \<le> 34 \<and>
     iban_rem 0 (drop 4 s @ take 4 s) = Some 1"

section \<open>The expressions\<close>

definition local_char :: re where
  "local_char = Cls (\<lambda>c. is_alnum c \<or> has_byte ''._%+-'' c)"
definition dom_char :: re where
  "dom_char = Cls (\<lambda>c. is_alnum c \<or> c = CHR ''-'')"
definition sep_opt :: re where
  "sep_opt = opt (Cls (\<lambda>c. has_byte '' -'' c))"

definition emailRe :: re where
  "emailRe = cats [plus local_char, chr CHR ''@'', plus dom_char,
     Star (Cat (chr CHR ''.'') (plus dom_char)), chr CHR ''.'', rep_from (Cls is_alpha) 2]"

definition phoneIntlRe :: re where
  "phoneIntlRe = cats [chr CHR ''+'', digit, rep (Cat sep_opt digit) 7 14]"

definition phoneINRe :: re where
  "phoneINRe = cats [WordB, Cls (\<lambda>c. has_byte ''6789'' c), power_re digit 9, WordB]"

definition phoneUSRe :: re where
  "phoneUSRe = cats [chr CHR ''('', power_re digit 3, chr CHR '')'', opt (chr CHR '' ''),
     power_re digit 3, chr CHR ''-'', power_re digit 4]"

definition aadhaarRe :: re where
  "aadhaarRe = cats [WordB, Cls (\<lambda>c. has_byte ''23456789'' c), power_re digit 3, sep_opt,
     power_re digit 4, sep_opt, power_re digit 4, WordB]"

definition panRe :: re where
  "panRe = cats [WordB, power_re (Cls is_upper) 5, power_re digit 4, Cls is_upper, WordB]"

definition ibanRe :: re where
  "ibanRe = cats [WordB, power_re (Cls is_upper) 2, power_re digit 2,
     rep (Cat (opt (chr CHR '' '')) (Cls (\<lambda>c. is_upper c \<or> is_digit c))) 11 30, WordB]"

definition cardRe :: re where
  "cardRe = cats [WordB, digit, rep (Cat sep_opt digit) 12 18, WordB]"

definition tok_char :: re where
  "tok_char = Cls (\<lambda>c. is_alnum c \<or> has_byte ''_-'' c)"

definition credentialRes :: "re list" where
  "credentialRes =
    [cats [WordB, lit ''AKIA'', power_re (Cls (\<lambda>c. is_digit c \<or> is_upper c)) 16, WordB],
     cats [lit ''-----BEGIN '', Star (Cls (\<lambda>c. is_upper c \<or> is_digit c \<or> c = CHR '' '')),
           lit ''PRIVATE KEY-----''],
     cats [WordB, lit ''eyJ'', rep_from tok_char 4, lit ''.eyJ'', rep_from tok_char 4],
     cats [WordB, lit_fold ''bearer'',
           plus (Cls (\<lambda>c. c \<in> {CHR 0x09, CHR 0x0A, CHR 0x0C, CHR 0x0D, CHR 0x20})),
           rep_from (class_fold (\<lambda>c. is_alnum c \<or> has_byte ''._~+/-'' c)) 20],
     cats [WordB, lit ''ghp_'', power_re (Cls is_alnum) 36, WordB],
     cats [WordB, lit ''github_pat_'', rep_from (Cls (\<lambda>c. is_alnum c \<or> c = CHR ''_'')) 22]]"

section \<open>Detection in a string\<close>

definition digitsOnly :: "string \<Rightarrow> string" where
  "digitsOnly s = filter is_digit s"

definition isolated :: "string \<Rightarrow> nat \<Rightarrow> nat \<Rightarrow> bool" where
  "isolated s start stop \<longleftrightarrow>
     \<not> (0 < start \<and>
        (is_digit (s ! (start - 1)) \<or>
         (has_byte '' -'' (s ! (start - 1)) \<and> 1 < start \<and> is_digit (s ! (start - 2))))) \<and>
     \<not> (stop < length s \<and>
        (is_digit (s ! stop) \<or>
         (has_byte '' -'' (s ! stop) \<and> stop + 1 < length s \<and> is_digit (s ! (stop + 1)))))"

definition anyIsolated :: "string \<Rightarrow> re \<Rightarrow> (string \<Rightarrow> bool) \<Rightarrow> bool" where
  "anyIsolated s r check =
     list_ex (\<lambda>(i, j). isolated s i j \<and> check (digitsOnly (slice s i j))) (find_all_index r s)"

function iban_cuts :: "string \<Rightarrow> bool" where
  "iban_cuts m =
     (if m = [] then False
      else if ibanValid (filter (\<lambda>c. c \<noteq> CHR '' '') m) then True
      else (case last_index_byte m CHR '' '' of
              None \<Rightarrow> False
            | Some i \<Rightarrow> (if i < length m then iban_cuts (take i m) else False)))"
  by pat_completeness auto
termination
  by (relation "measure length") auto

declare iban_cuts.simps [simp del]

definition anyIBAN :: "string \<Rightarrow> bool" where
  "anyIBAN s = list_ex iban_cuts (find_all ibanRe s)"

definition detect_class :: "string \<Rightarrow> data_class \<Rightarrow> bool" where
  "detect_class s c = (case c of
     Email \<Rightarrow> match_string emailRe s
   | Phone \<Rightarrow> match_string phoneIntlRe s \<or> match_string phoneUSRe s
              \<or> anyIsolated s phoneINRe (\<lambda>_. True)
   | Aadhaar \<Rightarrow> anyIsolated s aadhaarRe verhoeffValid
   | PAN \<Rightarrow> match_string panRe s
   | IBAN \<Rightarrow> anyIBAN s
   | Card \<Rightarrow> anyIsolated s cardRe luhnValid
   | Credential \<Rightarrow> list_ex (\<lambda>r. match_string r s) credentialRes)"

definition all_classes :: "data_class list" where
  "all_classes = [Email, Phone, Aadhaar, PAN, IBAN, Card, Credential]"

text \<open>The set of classes and whether s was scanned in full.\<close>

definition detectInto :: "string \<Rightarrow> data_class set \<Rightarrow> data_class set \<times> bool" where
  "detectInto s S =
     (let (t, complete) = (if MaxStringBytes < int (length s)
                             then (take (nat MaxStringBytes) s, False) else (s, True))
      in (S \<union> set (filter (detect_class t) all_classes), complete))"

definition sorted_classes :: "data_class set \<Rightarrow> data_class list" where
  "sorted_classes S = sorted_list_of_set S"

definition Detect :: "string \<Rightarrow> data_class list" where
  "Detect s = sorted_classes (fst (detectInto s {}))"

section \<open>The walk over a value\<close>

datatype gany = GNil | GBool bool | GStr string | GNumber string | GInt int | GFloat f64
  | GList "gany list" | GStrs "string list"
  | GMap "(string \<times> gany) list" | GStrMap "(string \<times> string) list" | GOther

record budget =
  b_bytes :: int
  b_nodes :: int
  b_truncated :: bool

type_synonym wst = "budget \<times> data_class set"

definition exhausted :: "nat \<Rightarrow> budget \<Rightarrow> bool" where
  "exhausted depth b \<longleftrightarrow> MaxDepth < depth \<or> b_nodes b \<le> 0 \<or> b_bytes b \<le> 0"

definition take_node :: "budget \<Rightarrow> budget" where
  "take_node b = b\<lparr>b_nodes := b_nodes b - 1\<rparr>"

definition scan_leaf :: "string \<Rightarrow> wst \<Rightarrow> wst" where
  "scan_leaf t w =
     (let b = fst w;
          cut = b_bytes b < int (length t);
          t = (if cut then take (nat (b_bytes b)) t else t);
          (S, complete) = detectInto t (snd w)
      in (b\<lparr>b_bytes := b_bytes b - int (length t),
            b_truncated := b_truncated b \<or> cut \<or> \<not> complete\<rparr>, S))"

definition walk_str :: "string \<Rightarrow> nat \<Rightarrow> wst \<Rightarrow> wst" where
  "walk_str t depth w =
     (if exhausted depth (fst w) then ((fst w)\<lparr>b_truncated := True\<rparr>, snd w)
      else scan_leaf t (take_node (fst w), snd w))"

lemma size_list_perm: "mset xs = mset ys \<Longrightarrow> size_list f xs = size_list f ys"
proof -
  assume "mset xs = mset ys"
  then have "mset (map f xs) = mset (map f ys)" by simp
  then have "sum_list (map f xs) = sum_list (map f ys)" by (metis sum_mset_sum_list)
  moreover have "length xs = length ys"
    using \<open>mset xs = mset ys\<close> by (rule mset_eq_length)
  ultimately show ?thesis by (simp add: size_list_conv_sum_list)
qed

lemma size_sorted_values:
  "size_list size (map snd (sort_key fst m)) \<le> size_list (size_prod g size) (m :: ('a::linorder \<times> gany) list)"
proof -
  have "size_list size (map snd (sort_key fst m)) = size_list (\<lambda>p. size (snd p)) (sort_key fst m)"
    by (simp add: comp_def)
  also have "\<dots> = size_list (\<lambda>p. size (snd p)) m"
    by (rule size_list_perm) simp
  also have "\<dots> \<le> size_list (size_prod g size) m"
    by (rule size_list_pointwise) (auto simp: size_prod_simp)
  finally show ?thesis .
qed

function walk :: "gany \<Rightarrow> nat \<Rightarrow> wst \<Rightarrow> wst"
  and walks :: "gany list \<Rightarrow> nat \<Rightarrow> wst \<Rightarrow> wst" where
  "walk v depth w =
     (if exhausted depth (fst w) then ((fst w)\<lparr>b_truncated := True\<rparr>, snd w)
      else let w1 = (take_node (fst w), snd w) in
        (case v of
           GNil \<Rightarrow> w1
         | GBool _ \<Rightarrow> w1
         | GStr t \<Rightarrow> scan_leaf t w1
         | GNumber t \<Rightarrow> walk_str t depth w1
         | GInt i \<Rightarrow> walk_str (itoa i) depth w1
         | GFloat f \<Rightarrow> walk_str (fmt_fixed 0 f) depth w1
         | GList vs \<Rightarrow> walks vs (Suc depth) w1
         | GStrs ts \<Rightarrow> fold (\<lambda>t. walk_str t (Suc depth)) ts w1
         | GMap m \<Rightarrow> walks (map snd (sort_key fst m)) (Suc depth) w1
         | GStrMap m \<Rightarrow> fold (\<lambda>t. walk_str t (Suc depth)) (map snd (sort_key fst m)) w1
         | GOther \<Rightarrow> ((fst w1)\<lparr>b_truncated := True\<rparr>, snd w1)))"
| "walks [] depth w = w"
| "walks (v # vs) depth w = walks vs depth (walk v depth w)"
  by pat_completeness auto
termination
  apply (relation "measure (\<lambda>x. case x of Inl (v, _, _) \<Rightarrow> 2 * size v
      | Inr (vs, _, _) \<Rightarrow> 1 + 2 * size_list size vs)")
      apply (simp_all add: less_Suc_eq_le)
  by (rule order_trans [OF eq_refl size_sorted_values]) simp

declare walk.simps [simp del]

definition init_budget :: budget where
  "init_budget = \<lparr>b_bytes = MaxTotalBytes, b_nodes = MaxNodes, b_truncated = False\<rparr>"

definition Scan :: "gany \<Rightarrow> data_class list \<times> bool" where
  "Scan v = (let (b, S) = walk v 0 (init_budget, {}) in (sorted_classes S, \<not> b_truncated b))"

definition DetectValue :: "gany \<Rightarrow> data_class list" where
  "DetectValue v = fst (Scan v)"

section \<open>Check digits detect single errors\<close>

definition digit_string :: "string \<Rightarrow> bool" where
  "digit_string s \<longleftrightarrow> (\<forall>c\<in>set s. is_digit c)"

definition vD :: "nat \<Rightarrow> nat \<Rightarrow> nat" where
  "vD a b = verhoeffD ! a ! b"

definition vP :: "nat \<Rightarrow> nat \<Rightarrow> nat" where
  "vP i a = verhoeffP ! (i mod 8) ! a"

lemma vD_table:
  "list_all (\<lambda>a. distinct (verhoeffD ! a) \<and> length (verhoeffD ! a) = 10
      \<and> distinct (map (\<lambda>c. verhoeffD ! c ! a) [0..<10])
      \<and> list_all (\<lambda>x. x < 10) (verhoeffD ! a)) [0..<10]"
  by code_simp

lemma vP_table:
  "list_all (\<lambda>i. distinct (verhoeffP ! i) \<and> length (verhoeffP ! i) = 10
      \<and> list_all (\<lambda>x. x < 10) (verhoeffP ! i)) [0..<8]"
  by code_simp

lemma vD_assoc_table:
  "list_all (\<lambda>a. list_all (\<lambda>b. list_all (\<lambda>c.
      vD (vD a b) c = vD a (vD b c)) [0..<10]) [0..<10]) [0..<10]"
  by code_simp

lemma v_transpose_table:
  "list_all (\<lambda>(r, r'). list_all (\<lambda>a. list_all (\<lambda>b. a = b \<or>
      vD (r ! a) (r' ! b) \<noteq> vD (r ! b) (r' ! a)) [0..<10]) [0..<10])
    (zip verhoeffP (rotate1 verhoeffP))"
  by code_simp

lemma all_upto: "list_all P [0..<n] \<longleftrightarrow> (\<forall>i<n. P i)"
  by (auto simp: list_all_iff)

lemma vD_less: "a < 10 \<Longrightarrow> b < 10 \<Longrightarrow> vD a b < 10"
  using vD_table unfolding all_upto vD_def by (metis list_all_length)

lemma vD_cancel_left: "a < 10 \<Longrightarrow> b < 10 \<Longrightarrow> c < 10 \<Longrightarrow> vD a b = vD a c \<longleftrightarrow> b = c"
  using vD_table unfolding all_upto vD_def by (metis nth_eq_iff_index_eq)

lemma vD_cancel_right:
  assumes "a < 10" "b < 10" "c < 10"
  shows "vD b a = vD c a \<longleftrightarrow> b = c"
proof -
  have "distinct (map (\<lambda>c. verhoeffD ! c ! a) [0..<10])"
    using vD_table assms unfolding all_upto by blast
  then show ?thesis
    using assms by (auto simp: vD_def distinct_map inj_on_def)
qed

lemma vD_assoc: "a < 10 \<Longrightarrow> b < 10 \<Longrightarrow> c < 10 \<Longrightarrow> vD (vD a b) c = vD a (vD b c)"
  using vD_assoc_table unfolding all_upto by blast

lemma vP_less: "a < 10 \<Longrightarrow> vP i a < 10"
  using vP_table unfolding all_upto vP_def by (metis list_all_length mod_less_divisor zero_less_numeral)

lemma vP_inj: "a < 10 \<Longrightarrow> b < 10 \<Longrightarrow> vP i a = vP i b \<longleftrightarrow> a = b"
  using vP_table unfolding all_upto vP_def
  by (metis mod_less_divisor nth_eq_iff_index_eq zero_less_numeral)

lemma v_transpose:
  assumes "a < 10" "b < 10" "a \<noteq> b"
  shows "vD (vP i a) (vP (i + 1) b) \<noteq> vD (vP i b) (vP (i + 1) a)"
proof -
  have len: "length verhoeffP = 8" by (simp add: verhoeffP_def)
  have "(verhoeffP ! (i mod 8), verhoeffP ! (Suc i mod 8)) = zip verhoeffP (rotate1 verhoeffP) ! (i mod 8)"
    by (simp add: len nth_rotate1 mod_Suc_eq)
  moreover have "\<dots> \<in> set (zip verhoeffP (rotate1 verhoeffP))"
    by (rule nth_mem) (simp add: len)
  ultimately have "(verhoeffP ! (i mod 8), verhoeffP ! (Suc i mod 8)) \<in> set (zip verhoeffP (rotate1 verhoeffP))"
    by simp
  then have "a = b \<or> vD (verhoeffP ! (i mod 8) ! a) (verhoeffP ! (Suc i mod 8) ! b)
      \<noteq> vD (verhoeffP ! (i mod 8) ! b) (verhoeffP ! (Suc i mod 8) ! a)"
    using v_transpose_table assms(1,2) unfolding list_all_iff [of _ "zip _ _"] all_upto
    by (auto dest!: bspec)
  then show ?thesis
    using assms(3) by (simp add: vP_def)
qed

lemma verhoeff_loop_Cons [simp]:
  "verhoeff_loop c i (d # ds) = verhoeff_loop (vD c (vP i (digit_val d))) (i + 1) ds"
  by (simp add: vD_def vP_def)

declare verhoeff_loop.simps(2) [simp del]

lemma verhoeff_loop_less: "c < 10 \<Longrightarrow> digit_string s \<Longrightarrow> verhoeff_loop c i s < 10"
  by (induction s arbitrary: c i) (auto simp: digit_string_def vD_less vP_less digit_val_less)

lemma verhoeff_loop_inj:
  "c < 10 \<Longrightarrow> c' < 10 \<Longrightarrow> digit_string s \<Longrightarrow>
   verhoeff_loop c i s = verhoeff_loop c' i s \<longleftrightarrow> c = c'"
  by (induction s arbitrary: c c' i)
    (auto simp: digit_string_def vD_less vP_less digit_val_less vD_cancel_right)

lemma verhoeff_loop_append:
  "verhoeff_loop c i (s @ t) = verhoeff_loop (verhoeff_loop c i s) (i + length s) t"
  by (induction s arbitrary: c i) auto

lemma verhoeff_substitution:
  assumes "digit_string (xs @ a # ys)" "is_digit b" "a \<noteq> b"
  shows "verhoeff_loop 0 0 (xs @ a # ys) \<noteq> verhoeff_loop 0 0 (xs @ b # ys)"
proof -
  have "digit_val a \<noteq> digit_val b"
    using assms digit_val_inj [of a b] by (auto simp: digit_string_def)
  then show ?thesis
    using assms by (simp add: verhoeff_loop_append verhoeff_loop_inj digit_string_def vD_less
        vP_less digit_val_less vD_cancel_left vP_inj verhoeff_loop_less)
qed

lemma verhoeff_transposition:
  assumes "digit_string (xs @ a # b # ys)" "a \<noteq> b"
  shows "verhoeff_loop 0 0 (xs @ a # b # ys) \<noteq> verhoeff_loop 0 0 (xs @ b # a # ys)"
proof -
  have "digit_val a \<noteq> digit_val b"
    using assms digit_val_inj [of a b] by (auto simp: digit_string_def)
  then have "vD (vP (length xs) (digit_val a)) (vP (length xs + 1) (digit_val b))
      \<noteq> vD (vP (length xs) (digit_val b)) (vP (length xs + 1) (digit_val a))"
    using assms by (intro v_transpose) (simp_all add: digit_string_def digit_val_less)
  then show ?thesis
    using assms by (simp add: verhoeff_loop_append verhoeff_loop_inj digit_string_def vD_less
        vP_less digit_val_less vD_assoc vD_cancel_left verhoeff_loop_less)
qed

lemma rev_update_split:
  assumes "i < length s"
  shows "rev (s[i := x]) = rev (drop (Suc i) s) @ x # rev (take i s)"
  using assms by (simp add: upd_conv_take_nth_drop)

lemma rev_split:
  assumes "i < length s"
  shows "rev s = rev (drop (Suc i) s) @ s ! i # rev (take i s)"
  using rev_update_split [OF assms, of "s ! i"] by simp

text \<open>The Luhn weights.\<close>

definition luhn_weight :: "bool \<Rightarrow> int \<Rightarrow> int" where
  "luhn_weight double n = (if double then (if 2 * n > 9 then 2 * n - 9 else 2 * n) else n)"

lemma luhn_loop_Cons [simp]:
  "luhn_loop acc double (d # ds) =
     luhn_loop (acc + luhn_weight double (int (digit_val d))) (\<not> double) ds"
  by (simp add: luhn_weight_def Let_def)

declare luhn_loop.simps(2) [simp del]

lemma luhn_loop_acc: "luhn_loop acc double s = acc + luhn_loop 0 double s"
proof (induction s arbitrary: acc double)
  case (Cons d ds)
  let ?w = "luhn_weight double (int (digit_val d))"
  show ?case
    using Cons.IH [of "acc + ?w" "\<not> double"] Cons.IH [of ?w "\<not> double"] by simp
qed simp

lemma luhn_loop_append:
  "luhn_loop acc double (s @ t) =
     luhn_loop acc double s + luhn_loop 0 (double \<noteq> odd (length s)) t"
proof (induction s arbitrary: acc double)
  case Nil
  show ?case by (simp add: luhn_loop_acc [of acc])
next
  case (Cons d ds)
  then show ?case by (cases double) simp_all
qed

lemma luhn_weight_table:
  "list_all (\<lambda>m. list_all (\<lambda>n. m = n \<or>
      ((luhn_weight True (int m) - luhn_weight True (int n)) mod 10 \<noteq> 0 \<and>
       (luhn_weight False (int m) - luhn_weight False (int n)) mod 10 \<noteq> 0)) [0..<10]) [0..<10]"
  by code_simp

lemma luhn_weight_inj:
  assumes "m < 10" "n < 10" "m \<noteq> n"
  shows "(luhn_weight double (int m) - luhn_weight double (int n)) mod 10 \<noteq> 0"
proof -
  have "m = n \<or> ((luhn_weight True (int m) - luhn_weight True (int n)) mod 10 \<noteq> 0 \<and>
       (luhn_weight False (int m) - luhn_weight False (int n)) mod 10 \<noteq> 0)"
    using luhn_weight_table assms(1,2) unfolding all_upto by (elim allE [of _ m] allE [of _ n]) simp
  then show ?thesis
    using assms(3) by (cases double) simp_all
qed

lemma luhn_substitution:
  assumes "is_digit a" "is_digit b" "a \<noteq> b"
    and "luhn_loop 0 False (xs @ a # ys) mod 10 = 0"
  shows "luhn_loop 0 False (xs @ b # ys) mod 10 \<noteq> 0"
proof
  let ?w = "\<lambda>c. luhn_weight (odd (length xs)) (int (digit_val c))"
  assume b0: "luhn_loop 0 False (xs @ b # ys) mod 10 = 0"
  have "luhn_loop 0 False (xs @ a # ys) - luhn_loop 0 False (xs @ b # ys) = ?w a - ?w b"
    by (simp add: luhn_loop_append luhn_loop_acc [of "?w a"] luhn_loop_acc [of "?w b"])
  moreover have "(luhn_loop 0 False (xs @ a # ys) - luhn_loop 0 False (xs @ b # ys)) mod 10 = 0"
    using assms(4) b0 by presburger
  moreover have "digit_val a \<noteq> digit_val b"
    using assms digit_val_inj by blast
  ultimately show False
    using luhn_weight_inj [of "digit_val a" "digit_val b"] assms by (simp add: digit_val_less)
qed

section \<open>The walk against the leaves of the value\<close>

fun leaves :: "gany \<Rightarrow> string list" where
  "leaves (GStr t) = [t]"
| "leaves (GNumber t) = [t]"
| "leaves (GInt i) = [itoa i]"
| "leaves (GFloat f) = [fmt_fixed 0 f]"
| "leaves (GList vs) = concat (map leaves vs)"
| "leaves (GStrs ts) = ts"
| "leaves (GMap m) = concat (map (\<lambda>p. leaves (snd p)) m)"
| "leaves (GStrMap m) = map snd m"
| "leaves _ = []"

fun supported :: "gany \<Rightarrow> bool" where
  "supported GOther = False"
| "supported (GList vs) = list_all supported vs"
| "supported (GMap m) = list_all (\<lambda>p. supported (snd p)) m"
| "supported _ = True"

text \<open>What a step of the walk that ends untruncated has done with the texts ts.\<close>

definition scanned :: "string set \<Rightarrow> wst \<Rightarrow> wst \<Rightarrow> bool" where
  "scanned ts w w' \<longleftrightarrow> \<not> b_truncated (fst w) \<and>
     snd w' = snd w \<union> {c. \<exists>t\<in>ts. detect_class t c} \<and>
     (\<forall>t\<in>ts. int (length t) \<le> MaxStringBytes)"

lemma scanned_refl: "\<not> b_truncated (fst w) \<Longrightarrow> scanned {} w w"
  by (simp add: scanned_def)

lemma scanned_trans: "scanned ts w w1 \<Longrightarrow> scanned us w1 w2 \<Longrightarrow> scanned (ts \<union> us) w w2"
  by (auto simp: scanned_def)

lemma in_all_classes [simp]: "c \<in> set all_classes"
  by (cases c) (simp_all add: all_classes_def)

lemma scan_leaf_scanned:
  "\<not> b_truncated (fst (scan_leaf t w)) \<Longrightarrow> scanned {t} w (scan_leaf t w)"
  by (auto simp: scan_leaf_def scanned_def Let_def detectInto_def
      split: if_splits)

lemma scanned_take_node [simp]: "scanned ts (take_node b, S) w' \<longleftrightarrow> scanned ts (b, S) w'"
  by (simp add: scanned_def take_node_def)

lemma scanned_take_node_pair [simp]:
  "scanned ts (take_node (fst w), snd w) w' \<longleftrightarrow> scanned ts w w'"
  by (simp add: scanned_def take_node_def)

lemma walk_str_scanned:
  "\<not> b_truncated (fst (walk_str t d w)) \<Longrightarrow> scanned {t} w (walk_str t d w)"
  using scan_leaf_scanned [of t "(take_node (fst w), snd w)"]
  by (auto simp: walk_str_def split: if_splits)

lemma walk_strs_scanned:
  "\<not> b_truncated (fst (fold (\<lambda>t. walk_str t d) ts w)) \<Longrightarrow>
   scanned (set ts) w (fold (\<lambda>t. walk_str t d) ts w)"
proof (induction ts arbitrary: w)
  case (Cons t ts)
  let ?w1 = "walk_str t d w"
  have rest: "scanned (set ts) ?w1 (fold (\<lambda>t. walk_str t d) ts ?w1)"
    using Cons by simp
  then have "\<not> b_truncated (fst ?w1)"
    by (simp add: scanned_def)
  from scanned_trans [OF walk_str_scanned [OF this] rest] show ?case
    by simp
qed (simp add: scanned_refl)

lemma set_leaves_sorted:
  "(\<Union>v\<in>set (map snd (sort_key fst m)). set (leaves v)) = set (leaves (GMap m))"
  by auto

lemma walk_scanned:
  "\<not> b_truncated (fst (walk v d w)) \<Longrightarrow> scanned (set (leaves v)) w (walk v d w) \<and> supported v"
  "\<not> b_truncated (fst (walks vs d w)) \<Longrightarrow>
     scanned (\<Union>v\<in>set vs. set (leaves v)) w (walks vs d w) \<and> list_all supported vs"
proof (induction v d w and vs d w rule: walk_walks.induct)
  case (1 v d w)
  show ?case
  proof (cases "exhausted d (fst w)")
    case True
    then show ?thesis using "1.prems" by (simp add: walk.simps)
  next
    case False
    note unf = walk.simps [of _ d w] False
    let ?w1 = "(take_node (fst w), snd w)"
    have empty: "\<not> b_truncated (take_node (fst w)) \<Longrightarrow> scanned {} w ?w1"
      using scanned_refl [of ?w1] by simp
    note leaf = scan_leaf_scanned [of _ ?w1, simplified]
    note leaf1 = walk_str_scanned [of _ _ ?w1, simplified]
    note leafs = walk_strs_scanned [of _ _ ?w1, simplified]
    show ?thesis
    proof (cases v)
      case (GList vs)
      then show ?thesis
        using "1.prems" "1.IH"(1) [OF False refl GList] by (simp add: unf)
    next
      case (GMap m)
      then show ?thesis
        using "1.prems" "1.IH"(2) [OF False refl GMap]
        by (simp add: unf set_leaves_sorted list_all_iff)
    next
      case (GStrMap m)
      then show ?thesis
        using "1.prems" leafs [where ts = "map snd (sort_key fst m)"] by (simp add: unf)
    qed (use "1.prems" in \<open>simp_all add: unf empty leaf leaf1 leafs\<close>)
  qed
next
  case (2 d w)
  then show ?case by (simp add: scanned_refl)
next
  case (3 v vs d w)
  have rest: "scanned (\<Union>v\<in>set vs. set (leaves v)) (walk v d w) (walks vs d (walk v d w))"
    and "list_all supported vs"
    using 3 by simp_all
  then have "\<not> b_truncated (fst (walk v d w))"
    by (simp add: scanned_def)
  then show ?case
    using "3.IH"(1) scanned_trans [OF _ rest] \<open>list_all supported vs\<close> by simp
qed

section \<open>Properties\<close>

text \<open>C8: a scan that reports itself complete has looked at every leaf in full. The
  classes it returns, sorted and without repetition, are exactly the classes of which
  some leaf of the value shows an instance; no leaf has an unsupported type or is
  longer than the per-string limit. So the budget never hides a class
  behind a complete result.\<close>

theorem Scan_complete:
  assumes "Scan v = (cs, True)"
  shows "sorted cs \<and> distinct cs \<and> supported v
    \<and> (\<forall>c. c \<in> set cs \<longleftrightarrow> (\<exists>t\<in>set (leaves v). detect_class t c))
    \<and> (\<forall>t\<in>set (leaves v). int (length t) \<le> MaxStringBytes)"
proof -
  obtain b S where w: "walk v 0 (init_budget, {}) = (b, S)" by force
  then have cs: "cs = sorted_classes S" and "\<not> b_truncated b"
    using assms by (simp_all add: Scan_def)
  then have "scanned (set (leaves v)) (init_budget, {}) (b, S)" "supported v"
    using walk_scanned(1) [of v 0 "(init_budget, {})"] w by simp_all
  moreover have "finite S"
    by (rule finite_subset [of _ "set all_classes"]) auto
  ultimately show ?thesis
    by (auto simp: cs sorted_classes_def scanned_def)
qed

theorem Scan_complete_witness:
  "sorted (fst (Scan (GList [GStr ''a@b.co'', GInt 7])))
    \<and> Email \<in> set (fst (Scan (GList [GStr ''a@b.co'', GInt 7])))"
proof -
  have scan: "Scan (GList [GStr ''a@b.co'', GInt 7]) = ([Email], True)"
    by code_simp
  show ?thesis
    using Scan_complete [OF scan] scan by simp
qed

text \<open>The Aadhaar check digit (Verhoeff) rejects every number that differs from a
  valid one in a single digit, and every number in which two different neighbouring
  digits of a valid one are swapped.\<close>

lemma verhoeff_detects:
  assumes "verhoeffValid d" "digit_string d" "i < length d"
  shows "(is_digit x \<longrightarrow> x \<noteq> d ! i \<longrightarrow> \<not> verhoeffValid (d[i := x]))
    \<and> (Suc i < length d \<longrightarrow> d ! i \<noteq> d ! Suc i \<longrightarrow>
         \<not> verhoeffValid (d[i := d ! Suc i, Suc i := d ! i]))"
proof (intro conjI impI)
  have len: "length d = 12" and zero: "verhoeff_loop 0 0 (rev d) = 0"
    using assms(1) by (simp_all add: verhoeffValid_def)
  have digits: "digit_string (rev d)"
    using assms(2) by (simp add: digit_string_def)
  show "\<not> verhoeffValid (d[i := x])" if "is_digit x" "x \<noteq> d ! i"
    using that verhoeff_substitution [of "rev (drop (Suc i) d)" "d ! i" "rev (take i d)" x]
      rev_split [OF assms(3)] rev_update_split [OF assms(3)] digits zero
    by (simp add: verhoeffValid_def)
  assume j: "Suc i < length d" "d ! i \<noteq> d ! Suc i"
  define xs ys where "xs = take i d" and "ys = drop (Suc (Suc i)) d"
  have d: "d = xs @ d ! i # d ! Suc i # ys" and n: "length xs = i"
    using j by (simp_all add: xs_def ys_def Cons_nth_drop_Suc)
  obtain a b where ab: "d ! i = a" "d ! Suc i = b" by blast
  have d': "d = xs @ a # b # ys"
    using d unfolding ab .
  have sw: "d[i := b, Suc i := a] = xs @ b # a # ys"
    unfolding d' using n by (simp add: list_update_append)
  show "\<not> verhoeffValid (d[i := d ! Suc i, Suc i := d ! i])"
    using verhoeff_transposition [of "rev ys" b a "rev xs"] digits zero j(2) ab
    unfolding ab sw by (simp add: verhoeffValid_def d')
qed

theorem verhoeff_detects_witness:
  "\<not> verhoeffValid (''234123412346''[3 := CHR ''9''])
   \<and> \<not> verhoeffValid (''234123412346''[3 := ''234123412346'' ! Suc 3, Suc 3 := ''234123412346'' ! 3])"
proof -
  have v: "verhoeffValid ''234123412346''" by code_simp
  have ds: "digit_string ''234123412346''" by (simp add: digit_string_def is_digit_def)
  show ?thesis
    using verhoeff_detects [OF v ds, of 3 "CHR ''9''"] by (simp add: is_digit_def)
qed

text \<open>The card check digit (Luhn) rejects every number that differs from a valid one
  in a single digit.\<close>

lemma luhn_detects:
  assumes "luhnValid d" "digit_string d" "i < length d" "is_digit x" "x \<noteq> d ! i"
  shows "\<not> luhnValid (d[i := x])"
proof -
  have "is_digit (d ! i)"
    using assms(2,3) by (simp add: digit_string_def)
  then show ?thesis
    using luhn_substitution [of "d ! i" x "rev (drop (Suc i) d)" "rev (take i d)"] assms
      rev_split [OF assms(3)] rev_update_split [OF assms(3)]
    by (simp add: luhnValid_def)
qed

theorem luhn_detects_witness: "\<not> luhnValid (''4111111111111111''[5 := CHR ''7''])"
proof -
  have v: "luhnValid ''4111111111111111''" by code_simp
  have ds: "digit_string ''4111111111111111''" by (simp add: digit_string_def is_digit_def)
  show ?thesis
    by (rule luhn_detects [OF v ds]) (simp_all add: is_digit_def)
qed

end
