(* ===== verification/GoUrl.thy ===== *)
theory GoUrl
  imports GoBase
begin

text \<open>
  The parts of Go's net and net/url the program uses to find the host of a
  destination: \<open>url.Parse\<close> followed by \<open>Hostname\<close>, and
  \<open>net.SplitHostPort\<close>, as of Go 1.25, with the IPv6 parser of net/netip that
  checks a bracketed host. A failing parse is None; only the host is kept.
\<close>

section \<open>Escapes\<close>

definition is_hex :: "char \<Rightarrow> bool" where
  "is_hex c \<longleftrightarrow> is_digit c \<or> (97 \<le> byte c \<and> byte c \<le> 102) \<or> (65 \<le> byte c \<and> byte c \<le> 70)"

definition unhex :: "char \<Rightarrow> nat" where
  "unhex c = (if is_digit c then digit_val c
     else if 97 \<le> byte c then byte c - 97 + 10 else byte c - 65 + 10)"

datatype emode = EncodePath | EncodeUser | EncodeHost | EncodeZone

text \<open>\<open>shouldEscape\<close> for the host modes; the path and user modes never reject a byte.\<close>

definition host_char :: "char \<Rightarrow> bool" where
  "host_char c \<longleftrightarrow> is_alnum c
     \<or> c \<in> set [CHR ''!'', CHR ''$'', CHR ''&'', CHR 0x27, CHR ''('', CHR '')'', CHR ''*'',
         CHR ''+'', CHR '','', CHR '';'', CHR ''='', CHR '':'', CHR ''['', CHR '']'',
         CHR ''<'', CHR ''>'', CHR 0x22, CHR ''-'', CHR ''_'', CHR ''.'', CHR ''~'']"

definition host_mode :: "emode \<Rightarrow> bool" where
  "host_mode m \<longleftrightarrow> m = EncodeHost \<or> m = EncodeZone"

definition escape_ok :: "emode \<Rightarrow> char \<Rightarrow> char \<Rightarrow> bool" where
  "escape_ok m a b = (let v = char_of (16 * unhex a + unhex b) in
     case m of
       EncodeHost \<Rightarrow> 8 \<le> unhex a \<or> (a = CHR ''2'' \<and> b = CHR ''5'')
     | EncodeZone \<Rightarrow> (a = CHR ''2'' \<and> b = CHR ''5'') \<or> v = CHR '' '' \<or> host_char v \<or> 128 \<le> byte v
     | _ \<Rightarrow> True)"

fun unescape :: "emode \<Rightarrow> string \<Rightarrow> string option" where
  "unescape m [] = Some []"
| "unescape m (c # s) =
     (if c = CHR ''%'' then
        (case s of
           a # b # t \<Rightarrow>
             (if is_hex a \<and> is_hex b \<and> escape_ok m a b
              then map_option (Cons (char_of (16 * unhex a + unhex b))) (unescape m t) else None)
         | _ \<Rightarrow> None)
      else if host_mode m \<and> byte c < 128 \<and> \<not> host_char c then None
      else map_option (Cons c) (unescape m s))"

section \<open>IPv6 addresses (netip.ParseAddr)\<close>

fun span_hex :: "string \<Rightarrow> string \<times> string" where
  "span_hex [] = ([], [])"
| "span_hex (c # s) = (if is_hex c then (let (a, b) = span_hex s in (c # a, b)) else ([], c # s))"

definition ipv4_octet :: "string \<Rightarrow> bool" where
  "ipv4_octet s \<longleftrightarrow> s \<noteq> [] \<and> length s \<le> 3 \<and> list_all is_digit s
     \<and> parse_nat_acc 0 s \<le> 255 \<and> \<not> (1 < length s \<and> hd s = CHR ''0'')"

definition ipv4_fields :: "string \<Rightarrow> bool" where
  "ipv4_fields s = (let fs = split_byte CHR ''.'' s in length fs = 4 \<and> list_all ipv4_octet fs)"

text \<open>
  The loop of parseIPv6 over at most eight groups: i counts the bytes of the address
  already read and ell says whether the double colon was seen. The eight
  groups bound the fuel.
\<close>

fun ipv6_groups :: "nat \<Rightarrow> nat \<Rightarrow> bool \<Rightarrow> string \<Rightarrow> bool" where
  "ipv6_groups 0 i ell s = (s = [] \<and> (i < 16) = ell)"
| "ipv6_groups (Suc n) i ell s =
     (if 16 \<le> i then s = [] \<and> \<not> ell
      else let (hex, rest) = span_hex s in
        if hex = [] \<or> 4 < length hex then False
        else if rest \<noteq> [] \<and> hd rest = CHR ''.'' then
          (ell \<or> i = 12) \<and> i + 4 \<le> 16 \<and> ipv4_fields s \<and> (i + 4 < 16) = ell
        else (case rest of
            [] \<Rightarrow> (i + 2 < 16) = ell
          | c # t \<Rightarrow>
              (if c \<noteq> CHR '':'' \<or> t = [] then False
               else if hd t = CHR '':'' then
                 (if ell then False
                  else if tl t = [] then i + 2 < 16
                  else ipv6_groups n (i + 2) True (tl t))
               else ipv6_groups n (i + 2) ell t)))"

definition ipv6_body :: "string \<Rightarrow> bool" where
  "ipv6_body s = (if has_prefix s ''::'' then s = ''::'' \<or> ipv6_groups 9 0 True (drop 2 s)
     else ipv6_groups 9 0 False s)"

definition ipv6_valid :: "string \<Rightarrow> bool" where
  "ipv6_valid s =
     (contains s '':'' \<and>
      (case index_byte s CHR ''%'' of
         None \<Rightarrow> ipv6_body s
       | Some i \<Rightarrow> Suc i < length s \<and> ipv6_body (take i s)))"

section \<open>url.Parse and Hostname\<close>

datatype scheme_result = NoScheme | BadScheme | Scheme string string

fun get_scheme :: "nat \<Rightarrow> string \<Rightarrow> string \<Rightarrow> scheme_result" where
  "get_scheme i acc [] = NoScheme"
| "get_scheme i acc (c # s) =
     (if is_alpha c then get_scheme (Suc i) (acc @ [c]) s
      else if is_digit c \<or> has_byte ''+-.'' c then
        (if i = 0 then NoScheme else get_scheme (Suc i) (acc @ [c]) s)
      else if c = CHR '':'' then (if i = 0 then BadScheme else Scheme acc s)
      else NoScheme)"

definition ctl_byte :: "char \<Rightarrow> bool" where
  "ctl_byte c \<longleftrightarrow> byte c < 32 \<or> byte c = 127"

definition valid_optional_port :: "string \<Rightarrow> bool" where
  "valid_optional_port p \<longleftrightarrow> p = [] \<or> (hd p = CHR '':'' \<and> list_all is_digit (tl p))"

definition valid_userinfo :: "string \<Rightarrow> bool" where
  "valid_userinfo s \<longleftrightarrow> list_all (\<lambda>c. is_alnum c \<or>
     c \<in> set [CHR ''-'', CHR ''.'', CHR ''_'', CHR '':'', CHR ''~'', CHR ''!'', CHR ''$'',
       CHR ''&'', CHR 0x27, CHR ''('', CHR '')'', CHR ''*'', CHR ''+'', CHR '','', CHR '';'',
       CHR ''='', CHR ''%'', CHR ''@'']) s"

definition parse_zone :: "string \<Rightarrow> string option" where
  "parse_zone h = (case index_of h ''%25'' of
       None \<Rightarrow> unescape EncodeHost h
     | Some i \<Rightarrow> (case (unescape EncodeHost (take i h), unescape EncodeZone (drop i h)) of
           (Some a, Some b) \<Rightarrow> Some (a @ b) | _ \<Rightarrow> None))"

definition parse_host :: "string \<Rightarrow> string option" where
  "parse_host h = (case last_index_byte h CHR ''['' of
       Some o1 \<Rightarrow> (case last_index_byte h CHR '']'' of
           None \<Rightarrow> None
         | Some c1 \<Rightarrow>
             (if c1 \<le> o1 \<or> \<not> valid_optional_port (drop (Suc c1) h) then None
              else (case parse_zone (take (c1 - Suc o1) (drop (Suc o1) h)) of
                  None \<Rightarrow> None
                | Some a \<Rightarrow> (if ipv6_valid a then Some (''['' @ a @ '']'' @ drop (Suc c1) h)
                             else None))))
     | None \<Rightarrow> (case last_index_byte h CHR '':'' of
           Some i \<Rightarrow> (if valid_optional_port (drop i h) then unescape EncodeHost h else None)
         | None \<Rightarrow> unescape EncodeHost h))"

definition userinfo_ok :: "string \<Rightarrow> bool" where
  "userinfo_ok u \<longleftrightarrow> valid_userinfo u \<and>
     (case cut u '':'' of
        None \<Rightarrow> unescape EncodeUser u \<noteq> None
      | Some (a, b) \<Rightarrow> unescape EncodeUser a \<noteq> None \<and> unescape EncodeUser b \<noteq> None)"

definition parse_authority :: "string \<Rightarrow> string option" where
  "parse_authority a = (case last_index_byte a CHR ''@'' of
       None \<Rightarrow> parse_host a
     | Some i \<Rightarrow> (case parse_host (drop (Suc i) a) of
           None \<Rightarrow> None
         | Some h \<Rightarrow> (if userinfo_ok (take i a) then Some h else None)))"

definition count_byte :: "string \<Rightarrow> char \<Rightarrow> nat" where
  "count_byte s c = length (filter (\<lambda>x. x = c) s)"

definition drop_query :: "string \<Rightarrow> string" where
  "drop_query s = (case cut s ''?'' of None \<Rightarrow> s | Some (a, _) \<Rightarrow> a)"

text \<open>The host of a parsed URL: None is a parse error, an absent host is the empty text.\<close>

definition parse_rest :: "bool \<Rightarrow> string \<Rightarrow> string option" where
  "parse_rest has_scheme rest0 =
     (let rest = drop_query rest0 in
      if \<not> has_prefix rest ''/'' \<and> has_scheme then Some []
      else if \<not> has_prefix rest ''/''
        \<and> contains (case cut rest ''/'' of None \<Rightarrow> rest | Some (a, _) \<Rightarrow> a) '':'' then None
      else if has_prefix rest ''//'' \<and> (has_scheme \<or> \<not> has_prefix rest ''///'') then
        (let authority = drop 2 rest;
             (auth, path) = (case index_byte authority CHR ''/'' of
                 None \<Rightarrow> (authority, []) | Some i \<Rightarrow> (take i authority, drop i authority))
         in case parse_authority auth of
              None \<Rightarrow> None
            | Some h \<Rightarrow> (if unescape EncodePath path = None then None else Some h))
      else if unescape EncodePath rest = None then None else Some [])"

definition url_host :: "string \<Rightarrow> string option" where
  "url_host raw =
     (let (u, frag) = (case cut raw ''#'' of None \<Rightarrow> (raw, []) | Some (a, b) \<Rightarrow> (a, b)) in
      if list_ex ctl_byte u then None
      else if u = ''*'' then (if unescape EncodePath frag = None then None else Some [])
      else
        (let host = (case get_scheme 0 [] u of
             BadScheme \<Rightarrow> None
           | NoScheme \<Rightarrow> parse_rest False u
           | Scheme _ rest \<Rightarrow> parse_rest True rest)
         in case host of None \<Rightarrow> None
              | Some h \<Rightarrow> (if unescape EncodePath frag = None then None else Some h)))"

definition strip_port :: "string \<Rightarrow> string" where
  "strip_port h = (case last_index_byte h CHR '':'' of
       None \<Rightarrow> h | Some i \<Rightarrow> (if valid_optional_port (drop i h) then take i h else h))"

definition hostname :: "string \<Rightarrow> string" where
  "hostname h = (let h = strip_port h in
     if has_prefix h ''['' \<and> has_suffix h '']'' then take (length h - 2) (tl h) else h)"

section \<open>net.SplitHostPort\<close>

definition split_host_port :: "string \<Rightarrow> (string \<times> string) option" where
  "split_host_port hp = (case last_index_byte hp CHR '':'' of
       None \<Rightarrow> None
     | Some i \<Rightarrow>
         (if has_prefix hp ''['' then
            (case index_byte hp CHR '']'' of
               None \<Rightarrow> None
             | Some e \<Rightarrow>
                 (if Suc e \<noteq> i then None
                  else if has_byte (tl hp) CHR ''['' \<or> has_byte (drop (Suc e) hp) CHR '']'' then None
                  else Some (take (e - 1) (tl hp), drop (Suc i) hp)))
          else if has_byte (take i hp) CHR '':'' \<or> has_byte hp CHR ''['' \<or> has_byte hp CHR '']''
          then None
          else Some (take i hp, drop (Suc i) hp)))"

definition trim_brackets :: "string \<Rightarrow> string" where
  "trim_brackets s =
     (let p = (\<lambda>c. c = CHR ''['' \<or> c = CHR '']'')
      in rev (dropWhile p (rev (dropWhile p s))))"

end
