(* ===== verification/Crd.thy ===== *)
theory Crd
  imports GoFloat
begin

text \<open>
  api/v1alpha1/agentworkload_types.go: the AgentWorkload resource. A Go pointer
  or an omitted value is an option, a slice a list, a map a partial function, a
  metav1.Time the nanoseconds since the epoch. Deep copies and JSON tags are not modelled.
\<close>

record workflow_template_ref =
  wtr_name :: "string option"
  wtr_namespace :: "string option"

record orchestration_spec =
  orc_type :: "string option"
  orc_template :: "workflow_template_ref option"

record resource_requirements =
  rr_cpu :: "string option"
  rr_memory :: "string option"

record resource_spec =
  rs_requests :: "resource_requirements option"
  rs_limits :: "resource_requirements option"

record timeout_spec =
  to_execution :: "int option"
  to_suspend_gate :: "int option"

record secret_key_ref =
  sk_name :: string
  sk_key :: "string option"

record llm_provider =
  lp_name :: string
  lp_type :: string
  lp_endpoint :: "string option"
  lp_secret :: "secret_key_ref option"
  lp_custom :: "string \<Rightarrow> string option"

record agent_persona =
  pe_role :: string
  pe_tone :: string
  pe_memory_scope :: string
  pe_prompt_append :: string
  pe_tool_profile :: "string list"

record agent_ref =
  ar_name :: string
  ar_role :: "string option"

record declared_intent =
  di_purpose :: string
  di_decision_type :: string
  di_data_classes :: "string list"
  di_destinations :: "string list"

record decision_model_spec =
  dm_mode :: string
  dm_threshold :: "int option"

record approval_capture =
  ac_content :: string

record workload_spec =
  sp_workload_type :: "string option"
  sp_mcp_endpoint :: "string option"
  sp_objective :: "string option"
  sp_agents :: "string list"
  sp_auto_approve :: "string option"
  sp_opa_policy :: "string option"
  sp_workflow_name :: "string option"
  sp_job_id :: "string option"
  sp_target_urls :: "string list"
  sp_target_bucket :: "string option"
  sp_target_prefix :: "string option"
  sp_script_url :: "string option"
  sp_orchestration :: "orchestration_spec option"
  sp_resources :: "resource_spec option"
  sp_timeouts :: "timeout_spec option"
  sp_model_strategy :: "string option"
  sp_task_classifier :: "string option"
  sp_providers :: "llm_provider list"
  sp_model_mapping :: "string \<Rightarrow> string option"
  sp_collaboration_mode :: "string option"
  sp_agent_refs :: "agent_ref list"
  sp_persona :: "agent_persona option"
  sp_declared_intent :: "declared_intent option"
  sp_policy_packs :: "string list"
  sp_approval_capture :: "approval_capture option"
  sp_decision_model :: "decision_model_spec option"

definition DecisionModelMode :: "workload_spec \<Rightarrow> string" where
  "DecisionModelMode s = (case sp_decision_model s of None \<Rightarrow> ''shadow''
     | Some d \<Rightarrow> (if dm_mode d = '''' then ''shadow'' else dm_mode d))"

definition CaptureMode :: "workload_spec \<Rightarrow> string" where
  "CaptureMode s = (case sp_approval_capture s of None \<Rightarrow> ''redacted''
     | Some a \<Rightarrow> (if ac_content a = '''' then ''redacted'' else ac_content a))"

record action =
  a_name :: string
  a_description :: string
  a_confidence :: string
  a_timestamp :: "int option"
  a_approved :: "bool option"

record workflow_ref =
  wr_runtime :: string
  wr_name :: string
  wr_namespace :: string
  wr_uid :: string
  wr_created_at :: "int option"

record condition =
  c_type :: string
  c_status :: string
  c_reason :: string
  c_message :: string
  c_generation :: int

record agent_instance_status =
  ai_name :: string
  ai_phase :: string
  ai_tasks :: int
  ai_last_activity :: "int option"
  ai_message :: "string option"

record pending_approval =
  pa_id :: string
  pa_action :: string
  pa_description :: string
  pa_confidence :: string
  pa_cluster_health :: string
  pa_claimed_health :: string
  pa_proposal :: string
  pa_record :: string
  pa_receipt_seq :: int
  pa_receipt_hash :: string
  pa_proposed_at :: int
  pa_state :: string
  pa_decision :: string

record approval_outcome =
  ao_id :: string
  ao_decision :: string
  ao_outcome :: string
  ao_approver :: string
  ao_receipt_seq :: int
  ao_decided_at :: int

record workload_status =
  st_phase :: string
  st_ready_agents :: int
  st_last_reconcile :: "int option"
  st_proposed :: "action list"
  st_executed :: "action list"
  st_workflow :: "workflow_ref option"
  st_argo_phase :: string
  st_artifacts :: "string \<Rightarrow> string option"
  st_routing_op :: string
  st_sandbox_uid :: string
  st_conditions :: "condition list"
  st_agent_statuses :: "agent_instance_status list"
  st_pending :: "pending_approval option"
  st_last_approval :: "approval_outcome option"
  st_consumed :: "string list"

definition PhasePendingApproval :: string where
  "PhasePendingApproval = ''PendingApproval''"
definition PhaseRejected :: string where
  "PhaseRejected = ''Rejected''"
definition ApprovalStateRecording :: string where
  "ApprovalStateRecording = ''Recording''"
definition ApprovalStateExecuting :: string where
  "ApprovalStateExecuting = ''Executing''"

record agent_workload =
  w_name :: string
  w_namespace :: string
  w_uid :: string
  w_generation :: int
  w_annotations :: "string \<Rightarrow> string option"
  w_finalizers :: "string list"
  w_deleting :: bool
  w_spec :: workload_spec
  w_status :: workload_status

definition empty_spec :: workload_spec where
  "empty_spec = \<lparr>sp_workload_type = None, sp_mcp_endpoint = None, sp_objective = None,
     sp_agents = [], sp_auto_approve = None, sp_opa_policy = None, sp_workflow_name = None,
     sp_job_id = None, sp_target_urls = [], sp_target_bucket = None, sp_target_prefix = None,
     sp_script_url = None, sp_orchestration = None, sp_resources = None, sp_timeouts = None,
     sp_model_strategy = None, sp_task_classifier = None, sp_providers = [],
     sp_model_mapping = Map.empty, sp_collaboration_mode = None, sp_agent_refs = [],
     sp_persona = None, sp_declared_intent = None, sp_policy_packs = [],
     sp_approval_capture = None, sp_decision_model = None\<rparr>"

definition empty_status :: workload_status where
  "empty_status = \<lparr>st_phase = '''', st_ready_agents = 0, st_last_reconcile = None,
     st_proposed = [], st_executed = [], st_workflow = None, st_argo_phase = '''',
     st_artifacts = Map.empty, st_routing_op = '''', st_sandbox_uid = '''', st_conditions = [],
     st_agent_statuses = [], st_pending = None, st_last_approval = None, st_consumed = []\<rparr>"

end
