(* ===== verification/DecisionInput.thy ===== *)
theory DecisionInput
  imports DataClass GoUrl Crd
begin

text \<open>
  pkg/decision/input/input.go and pkg/decision/observe/observe.go: the decision
  input, split by trust into what a human declared, what the platform observed
  and what the agent claims, the host of a destination, and the two violations
  (data classes and destination) of a declared intent.
\<close>

section \<open>The records\<close>

record declared =
  d_purpose :: string
  d_decision_type :: string
  d_classes :: "string list"
  d_dests :: "string list"

record observed =
  o_destination :: string
  o_classes :: "string list"
  o_tool :: string
  o_caller :: string
  o_prior_actions :: int
  o_prior_denied :: int
  o_scan_incomplete :: bool

record agent_claimed =
  cl_confidence :: "f64 option"
  cl_health :: "f64 option"
  cl_intent :: string

record input =
  in_declared :: declared
  in_observed :: observed
  in_claimed :: agent_claimed

definition zero_declared :: declared where
  "zero_declared = \<lparr>d_purpose = '''', d_decision_type = '''', d_classes = [], d_dests = []\<rparr>"

definition zero_observed :: observed where
  "zero_observed = \<lparr>o_destination = '''', o_classes = [], o_tool = '''', o_caller = '''',
     o_prior_actions = 0, o_prior_denied = 0, o_scan_incomplete = False\<rparr>"

definition zero_claimed :: agent_claimed where
  "zero_claimed = \<lparr>cl_confidence = None, cl_health = None, cl_intent = ''''\<rparr>"

definition IsZero :: "declared \<Rightarrow> bool" where
  "IsZero d \<longleftrightarrow> d_purpose d = '''' \<and> d_decision_type d = '''' \<and> d_classes d = [] \<and> d_dests d = []"

section \<open>Host\<close>

definition Host :: "string \<Rightarrow> string" where
  "Host dest0 =
     (let dest = trim_space dest0 in
      if dest = '''' then ''''
      else if contains dest ''://'' then
        (case url_host dest of None \<Rightarrow> '''' | Some h \<Rightarrow> to_lower (hostname h))
      else (case split_host_port dest of
          Some (h, _) \<Rightarrow> to_lower h
        | None \<Rightarrow> to_lower (trim_brackets dest)))"

definition pattern_allows :: "string \<Rightarrow> string \<Rightarrow> bool" where
  "pattern_allows host p0 =
     (let p = to_lower (trim_space p0) in
      if p = '''' then False
      else if has_prefix p ''*.'' then
        has_suffix host (tl p) \<and> length (tl p) < length host
      else host = p)"

definition hostAllowed :: "string \<Rightarrow> string list \<Rightarrow> bool" where
  "hostAllowed host ps = list_ex (pattern_allows host) ps"

section \<open>Violations\<close>

definition norm_class :: "string \<Rightarrow> string" where
  "norm_class c = to_lower (trim_space c)"

definition UndeclaredDataClasses :: "input \<Rightarrow> string list" where
  "UndeclaredDataClasses i =
     (if IsZero (in_declared i) then []
      else sort (filter (\<lambda>c. to_lower c \<notin> set (map norm_class (d_classes (in_declared i))))
                   (o_classes (in_observed i))))"

definition DataClassViolation :: "input \<Rightarrow> string" where
  "DataClassViolation i =
     (let u = UndeclaredDataClasses i in
      if u \<noteq> [] then ''observed data classes not declared: '' @ join '','' u else '''')"

definition DestinationDeclared :: "input \<Rightarrow> bool" where
  "DestinationDeclared i =
     (let host = Host (o_destination (in_observed i))
      in host = '''' \<or> hostAllowed host (d_dests (in_declared i)))"

definition DestinationViolation :: "input \<Rightarrow> string" where
  "DestinationViolation i =
     (if IsZero (in_declared i) \<or> DestinationDeclared i then ''''
      else ''observed destination '' @ quote (Host (o_destination (in_observed i)))
           @ '' not declared'')"

definition Violations :: "input \<Rightarrow> string list" where
  "Violations i =
     (if IsZero (in_declared i) then []
      else filter (\<lambda>v. v \<noteq> '''') [DataClassViolation i, DestinationViolation i])"

section \<open>Observation\<close>

record facts =
  f_endpoint :: string
  f_tool :: string
  f_caller :: string
  f_payload :: gany
  f_prior_actions :: int
  f_prior_denied :: int

definition Observe :: "facts \<Rightarrow> observed" where
  "Observe f =
     (let (classes, complete) = Scan (f_payload f)
      in \<lparr>o_destination = Host (f_endpoint f), o_classes = Strings classes, o_tool = f_tool f,
          o_caller = f_caller f, o_prior_actions = f_prior_actions f,
          o_prior_denied = f_prior_denied f, o_scan_incomplete = \<not> complete\<rparr>)"

definition History :: "action list \<Rightarrow> action list \<Rightarrow> int \<times> int" where
  "History executed proposed =
     (int (length executed + length proposed),
      int (length (filter (\<lambda>a. a_approved a = Some False) proposed)))"

definition Declared :: "declared_intent option \<Rightarrow> declared" where
  "Declared d = (case d of None \<Rightarrow> zero_declared
     | Some di \<Rightarrow> \<lparr>d_purpose = di_purpose di, d_decision_type = di_decision_type di,
         d_classes = di_data_classes di, d_dests = di_destinations di\<rparr>)"

section \<open>Lemmas\<close>

lemma DataClassViolation_empty:
  "DataClassViolation i = '''' \<longleftrightarrow>
     IsZero (in_declared i) \<or>
     (\<forall>c\<in>set (o_classes (in_observed i)).
        to_lower c \<in> norm_class ` set (d_classes (in_declared i)))"
proof -
  have "sort xs = [] \<longleftrightarrow> xs = []" for xs :: "string list"
    by (metis length_0_conv length_sort)
  then show ?thesis
    by (auto simp: DataClassViolation_def UndeclaredDataClasses_def Let_def filter_empty_conv)
qed

lemma DestinationViolation_empty:
  "DestinationViolation i = '''' \<longleftrightarrow> IsZero (in_declared i) \<or> DestinationDeclared i"
  by (simp add: DestinationViolation_def)

lemma Violations_empty:
  "Violations i = [] \<longleftrightarrow> DataClassViolation i = '''' \<and> DestinationViolation i = ''''"
  by (auto simp: Violations_def DataClassViolation_empty DestinationViolation_empty)

lemma pattern_allows_iff:
  "pattern_allows host p \<longleftrightarrow>
     (let q = norm_class p in q \<noteq> '''' \<and>
       (if has_prefix q ''*.'' then (\<exists>l. l \<noteq> '''' \<and> host = l @ tl q) else host = q))"
proof -
  have suf: "has_suffix host s \<and> length s < length host \<longleftrightarrow> (\<exists>l. l \<noteq> [] \<and> host = l @ s)" for s
    by (auto simp: has_suffix_suffix suffix_def)
  then show ?thesis
    by (simp add: pattern_allows_def norm_class_def Let_def suf del: length_tl)
qed

lemma hostAllowed_empty [simp]: "\<not> hostAllowed h []"
  by (simp add: hostAllowed_def)

end
