(* ===== verification/Invariants.thy ===== *)
theory Invariants
  imports DecisionInput
begin

text \<open>
  pkg/invariants/invariants.go: the ordered set of invariants that deny an action
  on their own. A check returns its reason, the empty text when it holds.
\<close>

record inv_result =
  ir_id :: string
  ir_reason :: string

definition inv_string :: "inv_result \<Rightarrow> string" where
  "inv_string r = ir_id r @ '': '' @ ir_reason r"

record inv_context =
  ctx_receipts_required :: bool
  ctx_writer_available :: bool

definition credentials :: "input \<Rightarrow> inv_context \<Rightarrow> string" where
  "credentials i ctx =
     (if list_ex (\<lambda>c. equal_fold c (class_name Credential)) (o_classes (in_observed i))
      then ''credential-shaped value in observed action'' else '''')"

definition egress :: "input \<Rightarrow> inv_context \<Rightarrow> string" where
  "egress i ctx = DestinationViolation i"

definition personalDest :: "input \<Rightarrow> inv_context \<Rightarrow> string" where
  "personalDest i ctx =
     (if IsZero (in_declared i) \<or> DestinationDeclared i then ''''
      else let personal = map to_lower (filter IsPersonal (o_classes (in_observed i))) in
        if personal = [] then ''''
        else ''personal data ('' @ join '','' (sort personal) @ '') to undeclared destination ''
             @ quote (Host (o_destination (in_observed i))))"

definition dataClassSubset :: "input \<Rightarrow> inv_context \<Rightarrow> string" where
  "dataClassSubset i ctx = DataClassViolation i"

definition receipts :: "input \<Rightarrow> inv_context \<Rightarrow> string" where
  "receipts i ctx =
     (if ctx_receipts_required ctx \<and> \<not> ctx_writer_available ctx
      then ''receipts required but no receipt writer available'' else '''')"

definition scanComplete :: "input \<Rightarrow> inv_context \<Rightarrow> string" where
  "scanComplete i ctx =
     (if o_scan_incomplete (in_observed i)
      then ''payload exceeds data class scan limits; not fully scanned'' else '''')"

definition all_invariants :: "(string \<times> (input \<Rightarrow> inv_context \<Rightarrow> string)) list" where
  "all_invariants =
    [(''INV-01'', credentials), (''INV-02'', egress), (''INV-03'', personalDest),
     (''INV-04'', dataClassSubset), (''INV-05'', receipts), (''INV-06'', scanComplete)]"

definition IDs :: "string list" where
  "IDs = map fst all_invariants"

definition Check :: "input \<Rightarrow> inv_context \<Rightarrow> inv_result list" where
  "Check i ctx =
     map (\<lambda>(n, r). \<lparr>ir_id = n, ir_reason = r\<rparr>)
       (filter (\<lambda>(n, r). r \<noteq> '''') (map (\<lambda>(n, check). (n, check i ctx)) all_invariants))"

section \<open>Lemmas\<close>

lemma Check_empty:
  "Check i ctx = [] \<longleftrightarrow> (\<forall>(n, check)\<in>set all_invariants. check i ctx = '''')"
  by (auto simp: Check_def filter_empty_conv)

lemma personalDest_empty:
  "DestinationViolation i = '''' \<Longrightarrow> personalDest i ctx = ''''"
  by (simp add: personalDest_def DestinationViolation_empty)

text \<open>The invariants in terms of what they protect.\<close>

lemma Check_clear:
  "Check i ctx = [] \<longleftrightarrow>
     (\<forall>c\<in>set (o_classes (in_observed i)). \<not> equal_fold c ''credential'') \<and>
     \<not> o_scan_incomplete (in_observed i) \<and>
     (ctx_receipts_required ctx \<longrightarrow> ctx_writer_available ctx) \<and>
     Violations i = []"
proof -
  have "Check i ctx = [] \<longleftrightarrow> credentials i ctx = '''' \<and> egress i ctx = ''''
      \<and> personalDest i ctx = '''' \<and> dataClassSubset i ctx = '''' \<and> receipts i ctx = ''''
      \<and> scanComplete i ctx = ''''"
    by (simp add: Check_empty all_invariants_def)
  then show ?thesis
    using personalDest_empty [of i ctx]
    by (auto simp: credentials_def egress_def dataClassSubset_def receipts_def scanComplete_def
        Violations_empty list_ex_iff)
qed

section \<open>Properties\<close>

text \<open>Egress only to declared destinations. When no invariant denies an action and
  anything was declared, an observed host is in the declared list: it equals an entry, or the
  entry is a wildcard and the host is a non-empty label in front of its suffix.
  Every observed data class is in the declared list too.\<close>

lemma Check_egress_declared:
  assumes "Check i ctx = []" "\<not> IsZero (in_declared i)"
    and "Host (o_destination (in_observed i)) \<noteq> ''''"
  shows "(\<exists>p\<in>set (d_dests (in_declared i)).
            let q = norm_class p; h = Host (o_destination (in_observed i)) in
            if has_prefix q ''*.'' then \<exists>l. l \<noteq> '''' \<and> h = l @ tl q else h = q)
       \<and> (\<forall>c\<in>set (o_classes (in_observed i)).
            to_lower c \<in> norm_class ` set (d_classes (in_declared i)))"
proof -
  have "Violations i = []"
    using assms(1) by (simp add: Check_clear)
  then have viol: "DestinationDeclared i"
    "\<forall>c\<in>set (o_classes (in_observed i)). to_lower c \<in> norm_class ` set (d_classes (in_declared i))"
    using assms(2)
    by (simp_all add: Violations_empty DataClassViolation_empty DestinationViolation_empty)
  then obtain p where "p \<in> set (d_dests (in_declared i))"
      "pattern_allows (Host (o_destination (in_observed i))) p"
    using assms(3) by (auto simp: DestinationDeclared_def hostAllowed_def list_ex_iff Let_def)
  then show ?thesis
    using viol by (auto simp: pattern_allows_iff Let_def intro!: bexI [of _ p] split: if_splits)
qed

definition wit_input :: input where
  "wit_input = \<lparr>in_declared = zero_declared\<lparr>d_dests := [''*.Example.com''], d_classes := ['' Email'']\<rparr>,
     in_observed = zero_observed\<lparr>o_destination := ''https://api.example.com/v1'',
       o_classes := [''email'']\<rparr>,
     in_claimed = zero_claimed\<rparr>"

definition wit_context :: inv_context where
  "wit_context = \<lparr>ctx_receipts_required = True, ctx_writer_available = True\<rparr>"

theorem Check_egress_declared_witness:
  "to_lower ''email'' \<in> norm_class ` set (d_classes (in_declared wit_input))"
proof -
  have c: "Check wit_input wit_context = []" by code_simp
  have z: "\<not> IsZero (in_declared wit_input)" by code_simp
  have h: "Host (o_destination (in_observed wit_input)) \<noteq> ''''" by code_simp
  show ?thesis
    using Check_egress_declared [OF c z h] by (simp add: wit_input_def zero_observed_def)
qed


end
