(* ===== verification/Digest.thy ===== *)
theory Digest
  imports GoBase
begin

unbundle bit_operations_syntax

text \<open>
  The digests of the program: SHA-256 (crypto/sha256), HMAC-SHA256 (crypto/hmac),
  hexadecimal text (encoding/hex) and the big and little endian encodings of an
  integer. The theorems that rest on a digest never unfold it: they say that
  two texts with one digest are equal or a collision, which they exhibit.
\<close>

section \<open>SHA-256\<close>

type_synonym word32 = "32 word"

definition sha_k :: "word32 list" where
  "sha_k =
    [1116352408, 1899447441, 3049323471, 3921009573, 961987163, 1508970993, 2453635748, 2870763221,
     3624381080, 310598401, 607225278, 1426881987, 1925078388, 2162078206, 2614888103, 3248222580,
     3835390401, 4022224774, 264347078, 604807628, 770255983, 1249150122, 1555081692, 1996064986,
     2554220882, 2821834349, 2952996808, 3210313671, 3336571891, 3584528711, 113926993, 338241895,
     666307205, 773529912, 1294757372, 1396182291, 1695183700, 1986661051, 2177026350, 2456956037,
     2730485921, 2820302411, 3259730800, 3345764771, 3516065817, 3600352804, 4094571909, 275423344,
     430227734, 506948616, 659060556, 883997877, 958139571, 1322822218, 1537002063, 1747873779,
     1955562222, 2024104815, 2227730452, 2361852424, 2428436474, 2756734187, 3204031479, 3329325298]"

definition sha_h0 :: "word32 list" where
  "sha_h0 =
    [1779033703, 3144134277, 1013904242, 2773480762,
     1359893119, 2600822924, 528734635, 1541459225]"

definition rotr :: "nat \<Rightarrow> word32 \<Rightarrow> word32" where
  "rotr n x = drop_bit n x OR push_bit (32 - n) x"

definition word_of_bytes :: "string \<Rightarrow> word32" where
  "word_of_bytes bs = foldl (\<lambda>w c. push_bit 8 w OR of_nat (byte c)) 0 bs"

definition bytes_of_word :: "word32 \<Rightarrow> string" where
  "bytes_of_word w = map (\<lambda>n. char_of (unat (drop_bit n w))) [24, 16, 8, 0]"

fun chunks :: "nat \<Rightarrow> string \<Rightarrow> string list" where
  "chunks n [] = []"
| "chunks n (c # s) =
     (if n = 0 then [c # s] else take n (c # s) # chunks n (drop (n - 1) s))"

definition be64 :: "nat \<Rightarrow> string" where
  "be64 n = map (\<lambda>k. char_of (n div 256 ^ k)) [7, 6, 5, 4, 3, 2, 1, 0]"

definition le64 :: "nat \<Rightarrow> string" where
  "le64 n = rev (be64 n)"

definition sha_pad :: "string \<Rightarrow> string" where
  "sha_pad m = m @ [CHR 0x80] @ replicate ((119 - length m mod 64) mod 64) CHR 0x00
     @ be64 (8 * length m)"

fun sha_schedule :: "nat \<Rightarrow> word32 list \<Rightarrow> word32 list" where
  "sha_schedule 0 w = w"
| "sha_schedule (Suc n) w =
     (let i = length w;
          x = w ! (i - 15); y = w ! (i - 2);
          s0 = rotr 7 x XOR rotr 18 x XOR drop_bit 3 x;
          s1 = rotr 17 y XOR rotr 19 y XOR drop_bit 10 y
      in sha_schedule n (w @ [w ! (i - 16) + s0 + w ! (i - 7) + s1]))"

type_synonym sha_state = "word32 \<times> word32 \<times> word32 \<times> word32 \<times> word32 \<times> word32 \<times> word32 \<times> word32"

definition sha_round :: "word32 \<times> word32 \<Rightarrow> sha_state \<Rightarrow> sha_state" where
  "sha_round kw st = (case st of (a, b, c, d, e, f, g, h) \<Rightarrow>
     let s1 = rotr 6 e XOR rotr 11 e XOR rotr 25 e;
         ch = (e AND f) XOR (NOT e AND g);
         t1 = h + s1 + ch + fst kw + snd kw;
         s0 = rotr 2 a XOR rotr 13 a XOR rotr 22 a;
         maj = (a AND b) XOR (a AND c) XOR (b AND c)
     in (t1 + s0 + maj, a, b, c, d + t1, e, f, g))"

definition sha_block :: "string \<Rightarrow> sha_state \<Rightarrow> sha_state" where
  "sha_block b st =
     (let w = sha_schedule 48 (map word_of_bytes (chunks 4 b));
          r = fold sha_round (zip sha_k w) st
      in (case (st, r) of ((a, b, c, d, e, f, g, h), (a', b', c', d', e', f', g', h')) \<Rightarrow>
            (a + a', b + b', c + c', d + d', e + e', f + f', g + g', h + h')))"

definition sha_init :: sha_state where
  "sha_init = (sha_h0 ! 0, sha_h0 ! 1, sha_h0 ! 2, sha_h0 ! 3,
               sha_h0 ! 4, sha_h0 ! 5, sha_h0 ! 6, sha_h0 ! 7)"

definition sha256 :: "string \<Rightarrow> string" where
  "sha256 m = (case fold sha_block (chunks 64 (sha_pad m)) sha_init of
     (a, b, c, d, e, f, g, h) \<Rightarrow> concat (map bytes_of_word [a, b, c, d, e, f, g, h]))"

lemma length_bytes_of_word [simp]: "length (bytes_of_word w) = 4"
  by (simp add: bytes_of_word_def)

lemma length_sha256 [simp]: "length (sha256 m) = 32"
  by (simp add: sha256_def split: prod.splits)

section \<open>HMAC\<close>

definition hmac_key :: "string \<Rightarrow> string" where
  "hmac_key k = (let k = (if 64 < length k then sha256 k else k)
                 in k @ replicate (64 - length k) CHR 0x00)"

definition xor_pad :: "nat \<Rightarrow> string \<Rightarrow> string" where
  "xor_pad p k = map (\<lambda>c. char_of (byte c XOR p)) k"

definition hmac_sha256 :: "string \<Rightarrow> string \<Rightarrow> string" where
  "hmac_sha256 key m =
     (let k = hmac_key key in sha256 (xor_pad 0x5C k @ sha256 (xor_pad 0x36 k @ m)))"

lemma length_hmac [simp]: "length (hmac_sha256 k m) = 32"
  by (simp add: hmac_sha256_def Let_def)

section \<open>Hexadecimal text\<close>

definition hex_byte :: "char \<Rightarrow> string" where
  "hex_byte c = [hex_digit (byte c div 16), hex_digit (byte c mod 16)]"

definition hex :: "string \<Rightarrow> string" where
  "hex s = concat (map hex_byte s)"

definition hex_val :: "char \<Rightarrow> nat option" where
  "hex_val c = (if is_digit c then Some (digit_val c)
     else if 97 \<le> byte c \<and> byte c \<le> 102 then Some (byte c - 87)
     else if 65 \<le> byte c \<and> byte c \<le> 70 then Some (byte c - 55) else None)"

fun unhex_string :: "string \<Rightarrow> string option" where
  "unhex_string [] = Some []"
| "unhex_string [c] = None"
| "unhex_string (a # b # s) =
     (case (hex_val a, hex_val b, unhex_string s) of
        (Some x, Some y, Some t) \<Rightarrow> Some (char_of (16 * x + y) # t)
      | _ \<Rightarrow> None)"

definition sha256_hex :: "string \<Rightarrow> string" where
  "sha256_hex m = hex (sha256 m)"

lemma length_hex [simp]: "length (hex s) = 2 * length s"
  by (induction s) (simp_all add: hex_def hex_byte_def)

lemma length_sha256_hex [simp]: "length (sha256_hex m) = 64"
  by (simp add: sha256_hex_def)

lemma hex_val_digit: "n < 16 \<Longrightarrow> hex_val (hex_digit n) = Some n"
  by (auto simp: hex_val_def hex_digit_def is_digit_def digit_val_def of_char_of)

lemma hex_ascii: "c \<in> set (hex s) \<Longrightarrow> 48 \<le> byte c \<and> byte c < 128"
proof -
  have d: "48 \<le> byte (hex_digit n) \<and> byte (hex_digit n) < 128" if "n < 16" for n
    using that by (auto simp: hex_digit_def of_char_of)
  assume "c \<in> set (hex s)"
  then obtain b where "c \<in> set (hex_byte b)" by (auto simp: hex_def)
  then show ?thesis
    using nat_of_char_less_256 [of b] d [of "byte b div 16"] d [of "byte b mod 16"]
    by (auto simp: hex_byte_def less_mult_imp_div_less)
qed

lemma unhex_hex: "unhex_string (hex s) = Some s"
proof (induction s)
  case (Cons c s)
  have "byte c div 16 < 16" "byte c mod 16 < 16"
    using nat_of_char_less_256 [of c] by (simp_all add: less_mult_imp_div_less)
  then show ?case
    using Cons by (simp add: hex_def hex_byte_def hex_val_digit)
qed (simp add: hex_def)

lemma hex_inj: "hex a = hex b \<longleftrightarrow> a = b"
  by (metis option.inject unhex_hex)

lemma sha256_hex_eq: "sha256_hex a = sha256_hex b \<longleftrightarrow> sha256 a = sha256 b"
  by (simp add: sha256_hex_def hex_inj)

section \<open>Collisions\<close>

definition collides :: "('a \<Rightarrow> 'b) \<Rightarrow> 'a \<Rightarrow> 'a \<Rightarrow> bool" where
  "collides f a b \<longleftrightarrow> a \<noteq> b \<and> f a = f b"

lemma eq_or_collides: "f a = f b \<Longrightarrow> a = b \<or> collides f a b"
  by (auto simp: collides_def)

text \<open>
  The interface of a digest as its clients use it: results of one size. A record
  of fields of known sizes then determines its digest input.
\<close>

locale digest =
  fixes D :: "string \<Rightarrow> string" and n :: nat
  assumes digest_length: "length (D m) = n"
begin

lemma digest_append_eq:
  "D a @ x = D b @ y \<longleftrightarrow> D a = D b \<and> x = y"
  by (simp add: digest_length)

lemma digest_pair_binds:
  assumes "D (D a @ x) = D (D b @ y)"
  shows "(a = b \<and> x = y) \<or> collides D a b \<or> collides D (D a @ x) (D b @ y)"
proof (cases "D a @ x = D b @ y")
  case True
  then show ?thesis
    using digest_append_eq eq_or_collides [of D a b] by blast
next
  case False
  then show ?thesis
    using assms by (simp add: collides_def)
qed

end

interpretation sha: digest sha256 32
  by unfold_locales simp

interpretation sha_hex: digest sha256_hex 64
  by unfold_locales simp

end
