(* ===== verification/Decision.thy ===== *)
theory Decision
  imports Invariants Digest
begin

text \<open>
  pkg/decision: the merge of the decision layers (decision.go), the feature
  vector (features.go) and the escalate-only decision model (model.go).
\<close>

section \<open>Outcomes and layers (decision.go)\<close>

datatype outcome = Allow | RequireApproval | Deny | OtherOutcome string

record layers =
  ly_invariants :: "string list"
  ly_pack_err :: "string option"
  ly_pack_deny :: "string list"
  ly_pack_approval :: "string list"
  ly_threshold_allowed :: bool
  ly_threshold_reasons :: "string list"

record decision_result =
  r_outcome :: outcome
  r_layer :: string
  r_reasons :: "string list"

definition Combine :: "bool \<Rightarrow> bool \<Rightarrow> bool" where
  "Combine rulesDenied thresholdAllowed \<longleftrightarrow> \<not> rulesDenied \<and> thresholdAllowed"

definition Decide :: "layers \<Rightarrow> decision_result" where
  "Decide l =
     (let reasons = ly_invariants l
            @ (case ly_pack_err l of None \<Rightarrow> [] | Some e \<Rightarrow> [''policy pack error: '' @ e])
            @ ly_pack_deny l @ ly_pack_approval l @ ly_threshold_reasons l;
          (outcome, layer) =
            (if ly_invariants l \<noteq> [] then (Deny, ''invariant'')
             else if ly_pack_err l \<noteq> None \<or> ly_pack_deny l \<noteq> [] then (Deny, ''pack'')
             else if \<not> ly_threshold_allowed l then (Deny, ''threshold'')
             else if ly_pack_approval l \<noteq> [] then (RequireApproval, ''pack'')
             else (Allow, ''threshold''))
      in \<lparr>r_outcome = outcome, r_layer = layer, r_reasons = reasons\<rparr>)"

definition Strictness :: "outcome \<Rightarrow> nat" where
  "Strictness o1 = (case o1 of Allow \<Rightarrow> 0 | RequireApproval \<Rightarrow> 1 | _ \<Rightarrow> 2)"

section \<open>Features (features.go)\<close>

definition FeatureSpecVersion :: string where
  "FeatureSpecVersion = ''v1''"

definition FeatureNames :: "string list" where
  "FeatureNames =
    [''dc_personal_count'', ''dc_credential'', ''dc_undeclared_count'',
     ''personal_to_undeclared'', ''dest_present'', ''dest_declared'', ''declared_present'',
     ''decision_automated'', ''action_destructive'', ''prior_actions_bucket'',
     ''prior_denied'', ''conf_absent'', ''conf_low'', ''conf_mid'', ''health_absent'',
     ''health_low'', ''health_mid'', ''pack_any'', ''pack_dpdp_in'', ''pack_gdpr_eu'',
     ''esc_invariant'', ''esc_rules'', ''esc_threshold'', ''esc_model'']"

definition DestructiveKeywords :: "string list" where
  "DestructiveKeywords = [''cleanup'', ''clear'', ''delete'', ''destroy'', ''drop'', ''purge'',
     ''remove'', ''reset'', ''truncate'', ''wipe'']"

record feature_input =
  fi_input :: input
  fi_action :: string
  fi_packs :: "string list"
  fi_escalated_by :: string

record features =
  f_spec :: string
  f_values :: "int list"

text \<open>The non-empty fields between separators (\<open>strings.FieldsFunc\<close>).\<close>

fun fields_acc :: "(char \<Rightarrow> bool) \<Rightarrow> string \<Rightarrow> string \<Rightarrow> string list" where
  "fields_acc p acc [] = (if acc = [] then [] else [acc])"
| "fields_acc p acc (c # s) =
     (if p c then (if acc = [] then [] else [acc]) @ fields_acc p [] s
      else fields_acc p (acc @ [c]) s)"

definition name_separator :: "char \<Rightarrow> bool" where
  "name_separator c \<longleftrightarrow> has_byte ''_-./ '' c"

definition IsDestructive :: "string \<Rightarrow> bool" where
  "IsDestructive name \<longleftrightarrow>
     list_ex (\<lambda>tok. tok \<in> set DestructiveKeywords) (fields_acc name_separator [] (to_lower name))"

definition bucketCount :: "int \<Rightarrow> int" where
  "bucketCount n = (if n \<le> 0 then 0 else if n < 10 then 1 else if n < 100 then 2 else 3)"

definition capInt :: "int \<Rightarrow> int \<Rightarrow> int" where
  "capInt n m = (if n < 0 then 0 else if m < n then m else n)"

definition bool_int :: "bool \<Rightarrow> int" where
  "bool_int x = (if x then 1 else 0)"

definition declared_present :: "declared \<Rightarrow> bool" where
  "declared_present d \<longleftrightarrow> d_decision_type d \<noteq> '''' \<or> d_classes d \<noteq> [] \<or> d_dests d \<noteq> []"

definition personal_classes :: "observed \<Rightarrow> string list" where
  "personal_classes ob = remdups (filter IsPersonal (map norm_class (o_classes ob)))"

definition undeclared_count :: "declared \<Rightarrow> observed \<Rightarrow> nat" where
  "undeclared_count d ob =
     (if declared_present d
      then length (remdups (filter (\<lambda>l. l \<notin> set (map norm_class (d_classes d)))
                                   (map norm_class (o_classes ob))))
      else 0)"

definition conf_low_edge :: f64 where
  "conf_low_edge = Fin (1 / 2)"
definition conf_mid_edge :: f64 where
  "conf_mid_edge = Fin (3602879701896397 / 4503599627370496)"

definition pack_name :: "string \<Rightarrow> string" where
  "pack_name p = (let l = to_lower p in case cut l ''@'' of None \<Rightarrow> l | Some (n, _) \<Rightarrow> n)"

definition confidence_band :: "f64 option \<Rightarrow> string" where
  "confidence_band c = (case c of None \<Rightarrow> ''conf_absent''
     | Some x \<Rightarrow> (if flt x conf_low_edge then ''conf_low''
                  else if flt x conf_mid_edge then ''conf_mid'' else ''''))"

definition health_band :: "f64 option \<Rightarrow> string" where
  "health_band h = (case h of None \<Rightarrow> ''health_absent''
     | Some x \<Rightarrow> (if flt x (Fin 50) then ''health_low''
                  else if flt x (Fin 80) then ''health_mid'' else ''''))"

definition escalated_feature :: "string \<Rightarrow> string" where
  "escalated_feature e =
     (if e = ''invariant'' then ''esc_invariant''
      else if e = ''rules'' \<or> e = ''pack'' then ''esc_rules''
      else if e = ''threshold'' then ''esc_threshold''
      else if e = ''model'' then ''esc_model'' else '''')"

definition dest_declared :: "declared \<Rightarrow> string \<Rightarrow> bool" where
  "dest_declared d host \<longleftrightarrow> host \<noteq> '''' \<and>
     DestinationDeclared
       \<lparr>in_declared = zero_declared\<lparr>d_dests := d_dests d\<rparr>,
        in_observed = zero_observed\<lparr>o_destination := host\<rparr>, in_claimed = zero_claimed\<rparr>"

definition feature_value :: "feature_input \<Rightarrow> string \<Rightarrow> int" where
  "feature_value fi n =
     (let d = in_declared (fi_input fi); ob = in_observed (fi_input fi);
          c = in_claimed (fi_input fi);
          personal = personal_classes ob; host = Host (o_destination ob) in
      if n = ''dc_personal_count'' then capInt (int (length personal)) 6
      else if n = ''dc_credential'' then
        bool_int (class_name Credential \<in> set (map norm_class (o_classes ob)))
      else if n = ''dc_undeclared_count'' then capInt (int (undeclared_count d ob)) 6
      else if n = ''personal_to_undeclared'' then
        bool_int (personal \<noteq> [] \<and> host \<noteq> '''' \<and> \<not> dest_declared d host)
      else if n = ''dest_present'' then bool_int (host \<noteq> '''')
      else if n = ''dest_declared'' then bool_int (dest_declared d host)
      else if n = ''declared_present'' then bool_int (declared_present d)
      else if n = ''decision_automated'' then
        bool_int (equal_fold (trim_space (d_decision_type d)) ''automated'')
      else if n = ''action_destructive'' then bool_int (IsDestructive (fi_action fi))
      else if n = ''prior_actions_bucket'' then bucketCount (o_prior_actions ob)
      else if n = ''prior_denied'' then capInt (o_prior_denied ob) 10
      else if n = confidence_band (cl_confidence c) then 1
      else if n = health_band (cl_health c) then 1
      else if n = ''pack_any'' then bool_int (fi_packs fi \<noteq> [])
      else if n = ''pack_dpdp_in'' then
        bool_int (list_ex (\<lambda>p. pack_name p = ''dpdp-in'') (fi_packs fi))
      else if n = ''pack_gdpr_eu'' then
        bool_int (list_ex (\<lambda>p. pack_name p = ''gdpr-eu'') (fi_packs fi))
      else if n = escalated_feature (fi_escalated_by fi) then 1
      else 0)"

definition ExtractFeatures :: "feature_input \<Rightarrow> features" where
  "ExtractFeatures fi =
     \<lparr>f_spec = FeatureSpecVersion, f_values = map (feature_value fi) FeatureNames\<rparr>"

definition feature_text :: "features \<Rightarrow> string" where
  "feature_text f = ''clawdlinux-features/'' @ f_spec f @ [CHR 0x0A]
     @ concat (map (\<lambda>(n, v). n @ ''='' @ itoa v @ [CHR 0x0A]) (zip FeatureNames (f_values f)))"

definition Hash :: "features \<Rightarrow> string" where
  "Hash f = sha256_hex (feature_text f)"

definition Value :: "features \<Rightarrow> string \<Rightarrow> int" where
  "Value f name = (case map_of (zip FeatureNames (f_values f)) name of None \<Rightarrow> 0 | Some v \<Rightarrow> v)"

section \<open>The decision model (model.go)\<close>

definition MicroScale :: int where "MicroScale = 1000000"

datatype model_mode = ModelOff | ModelShadow | ModelEscalate | OtherMode string

record score =
  s_model_id :: string
  s_version :: string
  s_artifact :: string
  s_feature_spec :: string
  s_feature_hash :: string
  s_risk :: int
  s_option :: "(string \<times> int) list"
  s_reasons :: "string list"
  s_threshold :: int
  s_calibration :: string
  s_claimed_risk :: int
  s_baseline_risk :: int
  s_baseline_hash :: string

definition NeutralClaims :: "input \<Rightarrow> input" where
  "NeutralClaims i =
     i\<lparr>in_claimed := (in_claimed i)\<lparr>cl_confidence := None, cl_health := None\<rparr>\<rparr>"

definition ClampMicro :: "int \<Rightarrow> int" where
  "ClampMicro v = (if v < 0 then 0 else if MicroScale < v then MicroScale else v)"

definition Options :: "int \<Rightarrow> (string \<times> int) list" where
  "Options risk = (let r = ClampMicro risk
     in [(''allow'', MicroScale - r), (''require_approval'', r)])"

definition ScoreClaimSafe ::
  "(features \<Rightarrow> score err) \<Rightarrow> feature_input \<Rightarrow> score err" where
  "ScoreClaimSafe sc fi =
     (case sc (ExtractFeatures fi) of
        Inl e \<Rightarrow> Inl e
      | Inr claimed \<Rightarrow>
          (let baseFeatures = ExtractFeatures (fi\<lparr>fi_input := NeutralClaims (fi_input fi)\<rparr>)
           in case sc baseFeatures of
             Inl e \<Rightarrow> Inl e
           | Inr base \<Rightarrow>
               (let out = (if s_risk claimed < s_risk base
                           then claimed\<lparr>s_risk := s_risk base, s_option := Options (s_risk base),
                                        s_reasons := s_reasons base\<rparr>
                           else claimed)
                in Inr (out\<lparr>s_claimed_risk := s_risk claimed, s_baseline_risk := s_risk base,
                            s_baseline_hash := Hash baseFeatures\<rparr>))))"

definition EffectiveThreshold :: "int \<Rightarrow> int option \<Rightarrow> int" where
  "EffectiveThreshold artifact override =
     (let t = ClampMicro artifact in
      case override of None \<Rightarrow> t | Some v \<Rightarrow> (if 0 \<le> v \<and> v < t then v else t))"

definition ApplyModel ::
  "decision_result \<Rightarrow> score \<Rightarrow> string option \<Rightarrow> model_mode \<Rightarrow> decision_result" where
  "ApplyModel base s scoreErr mode =
     (if mode \<noteq> ModelEscalate \<or> r_outcome base \<noteq> Allow then base
      else let out = \<lparr>r_outcome = RequireApproval, r_layer = ''model'', r_reasons = r_reasons base\<rparr> in
        (case scoreErr of
           Some e \<Rightarrow> out\<lparr>r_reasons := r_reasons out @ [''model:error: '' @ e]\<rparr>
         | None \<Rightarrow>
             (if s_threshold s \<le> ClampMicro (s_risk s)
              then out\<lparr>r_reasons := r_reasons out
                     @ [''model:escalate: risk '' @ itoa (ClampMicro (s_risk s))
                        @ '' >= threshold '' @ itoa (s_threshold s) @ '' micro'']\<rparr>
              else base)))"

section \<open>Lemmas on the layers\<close>

lemma Decide_outcome:
  "r_outcome (Decide l) =
     (if ly_invariants l \<noteq> [] \<or> ly_pack_err l \<noteq> None \<or> ly_pack_deny l \<noteq> []
          \<or> \<not> ly_threshold_allowed l then Deny
      else if ly_pack_approval l \<noteq> [] then RequireApproval else Allow)"
  by (simp add: Decide_def Let_def)

definition layer_votes :: "layers \<Rightarrow> outcome list" where
  "layer_votes l =
     [if ly_invariants l \<noteq> [] then Deny else Allow,
      if ly_pack_err l \<noteq> None \<or> ly_pack_deny l \<noteq> [] then Deny
      else if ly_pack_approval l \<noteq> [] then RequireApproval else Allow,
      if ly_threshold_allowed l then Allow else Deny]"

lemma Strictness_simps [simp]:
  "Strictness Allow = 0" "Strictness RequireApproval = 1" "Strictness Deny = 2"
  "Strictness (OtherOutcome s) = 2"
  by (simp_all add: Strictness_def)

lemma ClampMicro_range: "0 \<le> ClampMicro v \<and> ClampMicro v \<le> MicroScale"
  by (simp add: ClampMicro_def MicroScale_def)

lemma ClampMicro_mono: "a \<le> b \<Longrightarrow> ClampMicro a \<le> ClampMicro b"
  by (simp add: ClampMicro_def MicroScale_def)

lemma ClampMicro_id: "0 \<le> v \<Longrightarrow> v \<le> MicroScale \<Longrightarrow> ClampMicro v = v"
  by (simp add: ClampMicro_def)

lemma ApplyModel_outcome:
  "r_outcome (ApplyModel base s e m) =
     (if m = ModelEscalate \<and> r_outcome base = Allow
         \<and> (e \<noteq> None \<or> s_threshold s \<le> ClampMicro (s_risk s))
      then RequireApproval else r_outcome base)"
  by (auto simp: ApplyModel_def Let_def split: option.splits)

section \<open>Lemmas on the features\<close>

lemma length_ExtractFeatures [simp]: "length (f_values (ExtractFeatures fi)) = 24"
  by (simp add: ExtractFeatures_def FeatureNames_def)

lemma capInt_range: "0 \<le> m \<Longrightarrow> 0 \<le> capInt n m \<and> capInt n m \<le> m"
  by (simp add: capInt_def)

lemma bool_int_range: "0 \<le> bool_int b \<and> bool_int b \<le> 1"
  by (simp add: bool_int_def)

lemma bucketCount_range: "0 \<le> bucketCount n \<and> bucketCount n \<le> 3"
  by (simp add: bucketCount_def)

lemma feature_value_range: "0 \<le> feature_value fi n \<and> feature_value fi n \<le> 10"
proof -
  have bi: "0 \<le> bool_int b \<and> bool_int b \<le> 10" for b
    using bool_int_range [of b] by linarith
  have ci: "0 \<le> capInt k 6 \<and> capInt k 6 \<le> 10" for k
    using capInt_range [of 6 k] by linarith
  have cj: "0 \<le> capInt k 10 \<and> capInt k 10 \<le> 10" for k
    using capInt_range [of 10 k] by linarith
  have bk: "0 \<le> bucketCount k \<and> bucketCount k \<le> 10" for k
    using bucketCount_range [of k] by linarith
  show ?thesis
    unfolding feature_value_def Let_def by (simp add: bi ci cj bk)
qed

lemma ExtractFeatures_range:
  "v \<in> set (f_values (ExtractFeatures fi)) \<Longrightarrow> 0 \<le> v \<and> v \<le> 10"
  using feature_value_range by (auto simp: ExtractFeatures_def)

lemma NeutralClaims_idem [simp]: "NeutralClaims (NeutralClaims i) = NeutralClaims i"
  by (simp add: NeutralClaims_def)

text \<open>Two inputs that differ in what the agent claims only.\<close>

definition same_but_claims :: "feature_input \<Rightarrow> feature_input \<Rightarrow> bool" where
  "same_but_claims a b \<longleftrightarrow>
     in_declared (fi_input a) = in_declared (fi_input b) \<and>
     in_observed (fi_input a) = in_observed (fi_input b) \<and>
     fi_action a = fi_action b \<and> fi_packs a = fi_packs b \<and>
     fi_escalated_by a = fi_escalated_by b"

lemma neutral_features_eq:
  assumes "same_but_claims a b"
  shows "ExtractFeatures (a\<lparr>fi_input := NeutralClaims (fi_input a)\<rparr>)
       = ExtractFeatures (b\<lparr>fi_input := NeutralClaims (fi_input b)\<rparr>)"
  using assms
  by (simp add: same_but_claims_def ExtractFeatures_def feature_value_def NeutralClaims_def
      Let_def cong: if_cong)

section \<open>The interface of a scorer\<close>

text \<open>
  What a scorer promises: its risk is in the scale and its threshold does not depend
  on the features. The claim safety of a score rests on these laws alone.
\<close>

locale scorer =
  fixes sc :: "features \<Rightarrow> score err"
  assumes risk_range: "sc f = Inr s \<Longrightarrow> 0 \<le> s_risk s \<and> s_risk s \<le> MicroScale"
    and options_risk: "sc f = Inr s \<Longrightarrow> s_option s = Options (s_risk s)"
    and threshold_const: "sc f = Inr s \<Longrightarrow> sc g = Inr t \<Longrightarrow> s_threshold s = s_threshold t"
begin

lemma claim_safe_obtain:
  assumes "ScoreClaimSafe sc fi = Inr s"
  obtains claimed base where
    "sc (ExtractFeatures fi) = Inr claimed"
    "sc (ExtractFeatures (fi\<lparr>fi_input := NeutralClaims (fi_input fi)\<rparr>)) = Inr base"
    "s_risk s = max (s_risk claimed) (s_risk base)"
    "s_threshold s = s_threshold claimed" "s_option s = Options (s_risk s)"
    "s_claimed_risk s = s_risk claimed" "s_baseline_risk s = s_risk base"
  using assms options_risk
  by (auto simp: ScoreClaimSafe_def Let_def max_def split: sum.splits if_splits)

lemma claim_safe_range:
  "ScoreClaimSafe sc fi = Inr s \<Longrightarrow> 0 \<le> s_risk s \<and> s_risk s \<le> MicroScale"
  by (erule claim_safe_obtain) (auto dest!: risk_range simp: max_def)

lemma claim_safe_baseline:
  assumes "ScoreClaimSafe sc fi = Inr s" "ScoreClaimSafe sc fi' = Inr s'"
    and "same_but_claims fi fi'"
  shows "s_baseline_risk s = s_baseline_risk s' \<and> s_baseline_risk s \<le> s_risk s'
      \<and> s_threshold s = s_threshold s'"
proof -
  obtain c b where a: "sc (ExtractFeatures fi) = Inr c"
      "sc (ExtractFeatures (fi\<lparr>fi_input := NeutralClaims (fi_input fi)\<rparr>)) = Inr b"
      "s_baseline_risk s = s_risk b" "s_threshold s = s_threshold c"
    using assms(1) by (elim claim_safe_obtain) auto
  obtain c' b' where a': "sc (ExtractFeatures fi') = Inr c'"
      "sc (ExtractFeatures (fi'\<lparr>fi_input := NeutralClaims (fi_input fi')\<rparr>)) = Inr b'"
      "s_baseline_risk s' = s_risk b'" "s_risk s' = max (s_risk c') (s_risk b')"
      "s_threshold s' = s_threshold c'"
    using assms(2) by (elim claim_safe_obtain) auto
  have "b = b'"
    using a(2) a'(2) neutral_features_eq [OF assms(3)] by simp
  then show ?thesis
    using a a' threshold_const [OF a(1) a'(1)] by simp
qed

text \<open>
  If the action is escalated when the agent claims nothing, it is escalated whatever
  the agent claims.
\<close>

lemma claims_cannot_avoid_escalation:
  assumes "same_but_claims fi fi'"
    and "cl_confidence (in_claimed (fi_input fi)) = None"
    and "cl_health (in_claimed (fi_input fi)) = None"
    and "ScoreClaimSafe sc fi = Inr s" "ScoreClaimSafe sc fi' = Inr s'"
    and "r_outcome (ApplyModel base s None m) \<noteq> Allow"
  shows "r_outcome (ApplyModel base s' None m) \<noteq> Allow"
proof -
  have neutral: "fi\<lparr>fi_input := NeutralClaims (fi_input fi)\<rparr> = fi"
    using assms(2,3) by (simp add: NeutralClaims_def)
  have "s_risk s = s_baseline_risk s"
    using assms(4) neutral by (elim claim_safe_obtain) auto
  then have le: "s_risk s \<le> s_risk s'" and th: "s_threshold s = s_threshold s'"
    using claim_safe_baseline [OF assms(4,5,1)] by auto
  show ?thesis
    using assms(6) ClampMicro_mono [OF le] th
    by (auto simp: ApplyModel_outcome split: if_splits)
qed

end

section \<open>Properties\<close>

text \<open>C5: the strictest layer decides. The outcome of a decision is as strict as the strictest
  vote of the three layers (invariants, policy packs, threshold), and no stricter, so
  no layer loosens what another asks for.\<close>

theorem Decide_strictest:
  "Strictness (r_outcome (Decide l)) = Max (set (map Strictness (layer_votes l)))"
  by (simp add: Decide_outcome layer_votes_def)

text \<open>C6: an allowed action is clean in every respect the platform observes. When the
  invariant results are those of the check and the decision is allow, the action
  carries no credential, was scanned in full, stays within its declared data classes and
  destinations, has a receipt writer if one is required, and the policy packs neither failed
  nor objected nor asked for approval.\<close>

theorem Decide_allow_sound:
  assumes "ly_invariants l = map inv_string (Check i ctx)" "r_outcome (Decide l) = Allow"
  shows "(\<forall>c\<in>set (o_classes (in_observed i)). \<not> equal_fold c ''credential'')
    \<and> \<not> o_scan_incomplete (in_observed i) \<and> Violations i = []
    \<and> (ctx_receipts_required ctx \<longrightarrow> ctx_writer_available ctx)
    \<and> ly_pack_err l = None \<and> ly_pack_deny l = [] \<and> ly_pack_approval l = []
    \<and> ly_threshold_allowed l"
  using assms by (auto simp: Decide_outcome Check_clear split: if_splits)

definition wit_layers :: layers where
  "wit_layers = \<lparr>ly_invariants = [], ly_pack_err = None, ly_pack_deny = [], ly_pack_approval = [],
     ly_threshold_allowed = True, ly_threshold_reasons = [''high confidence'']\<rparr>"

theorem Decide_allow_sound_witness:
  "Violations wit_input = [] \<and> ly_threshold_allowed wit_layers"
proof -
  have c: "ly_invariants wit_layers = map inv_string (Check wit_input wit_context)" by code_simp
  have d: "r_outcome (Decide wit_layers) = Allow" by code_simp
  show ?thesis
    using Decide_allow_sound [OF c d] by simp
qed

text \<open>The model only tightens. Applying a score never lowers the strictness of the outcome;
  it changes the outcome only in escalate mode, only from allow to require_approval,
  and a failed scorer escalates like a high risk does.\<close>

lemma ApplyModel_escalate_only:
  "Strictness (r_outcome base) \<le> Strictness (r_outcome (ApplyModel base s err m))
   \<and> (r_outcome (ApplyModel base s err m) = r_outcome base \<or>
       m = ModelEscalate \<and> r_outcome base = Allow \<and>
       r_outcome (ApplyModel base s err m) = RequireApproval)
   \<and> (r_outcome (ApplyModel base s err ModelEscalate) = Allow \<longleftrightarrow>
       r_outcome base = Allow \<and> err = None \<and> ClampMicro (s_risk s) < s_threshold s)"
  by (cases "r_outcome base") (auto simp: ApplyModel_outcome)

text \<open>A workload override can only make the model stricter. The threshold in force is in
  the scale, never above the artifact's, and equals the override exactly when that is a
  valid stricter value.\<close>

theorem EffectiveThreshold_stricter:
  "0 \<le> EffectiveThreshold a ov \<and> EffectiveThreshold a ov \<le> ClampMicro a
   \<and> EffectiveThreshold a (Some v) = (if 0 \<le> v \<and> v < ClampMicro a then v else ClampMicro a)
   \<and> EffectiveThreshold a None = ClampMicro a"
  using ClampMicro_range [of a] by (auto simp: EffectiveThreshold_def Let_def split: option.splits)

definition wit_features :: feature_input where
  "wit_features = \<lparr>fi_input = wit_input\<lparr>in_claimed := zero_claimed\<lparr>cl_confidence := Some (Fin (1/4))\<rparr>\<rparr>,
     fi_action = ''Delete_bucket'', fi_packs = [''gdpr-eu@v0.1.0''], fi_escalated_by = []\<rparr>"

end
