(* ===== verification/Scorers.thy ===== *)
theory Scorers
  imports Decision
begin

text \<open>
  The two scorers of pkg/decision: the additive baseline (baseline/baseline.go) and
  the logistic regression with integer inference (learned/learned.go), both
  interpreted as the scorer interface. Every int64 operation of the inference
  is written with its wrap-around; the lemmas show that none wraps.

  The JSON text of an artifact is decoded by encoding/json; \<open>ParseArtifact\<close> starts
  from the decoded artifact and the canonical digest of the text.
\<close>

section \<open>The reason codes of a score\<close>

definition contrib_before :: "string \<times> int \<Rightarrow> string \<times> int \<Rightarrow> bool" where
  "contrib_before a b \<longleftrightarrow> snd b < snd a \<or> (snd a = snd b \<and> fst a < fst b)"

fun insert_contrib :: "string \<times> int \<Rightarrow> (string \<times> int) list \<Rightarrow> (string \<times> int) list" where
  "insert_contrib c [] = [c]"
| "insert_contrib c (d # ds) =
     (if contrib_before c d then c # d # ds else d # insert_contrib c ds)"

definition sort_contribs :: "(string \<times> int) list \<Rightarrow> (string \<times> int) list" where
  "sort_contribs cs = fold insert_contrib cs []"

definition reason_codes :: "(string \<times> int) list \<Rightarrow> string list" where
  "reason_codes cs =
     map (\<lambda>c. ''feature:'' @ fst c) (take 3 (sort_contribs (filter (\<lambda>c. 0 < snd c) cs)))"

section \<open>The baseline\<close>

definition baseline_ID :: string where
  "baseline_ID = ''clawdlinux-baseline-additive''"
definition baseline_Version :: string where
  "baseline_Version = ''1''"
definition baseline_ThresholdMicro :: int where
  "baseline_ThresholdMicro = 500000"

definition baseline_Weights :: "(string \<times> int) list" where
  "baseline_Weights =
    [(''dc_credential'', 1000000), (''personal_to_undeclared'', 700000),
     (''dc_undeclared_count'', 200000), (''dc_personal_count'', 50000),
     (''decision_automated'', 150000), (''action_destructive'', 300000),
     (''prior_denied'', 60000), (''conf_absent'', 150000), (''conf_low'', 300000),
     (''conf_mid'', 100000), (''health_low'', 150000), (''health_mid'', 50000),
     (''declared_present'', -100000), (''dest_declared'', -50000)]"

definition baseline_weight :: "string \<Rightarrow> int" where
  "baseline_weight n = (case map_of baseline_Weights n of None \<Rightarrow> 0 | Some w \<Rightarrow> w)"

definition baseline_SHA256 :: string where
  "baseline_SHA256 = sha256_hex (baseline_ID @ ''/'' @ baseline_Version @ [CHR 0x0A]
     @ concat (map (\<lambda>(n, w). n @ ''='' @ itoa w @ [CHR 0x0A]) (sort_key fst baseline_Weights)))"

definition baseline_contribs :: "features \<Rightarrow> (string \<times> int) list" where
  "baseline_contribs f =
     map (\<lambda>(n, v). (n, wrap64 (baseline_weight n * v))) (zip FeatureNames (f_values f))"

definition baseline_Score :: "features \<Rightarrow> score err" where
  "baseline_Score f =
     (let cs = baseline_contribs f;
          risk = ClampMicro (fold (\<lambda>c acc. wrap64 (acc + snd c)) cs 0)
      in Inr \<lparr>s_model_id = baseline_ID, s_version = baseline_Version,
              s_artifact = baseline_SHA256, s_feature_spec = f_spec f, s_feature_hash = Hash f,
              s_risk = risk, s_option = Options risk, s_reasons = reason_codes cs,
              s_threshold = baseline_ThresholdMicro,
              s_calibration = ''uncalibrated: hand-set additive weights, not a probability'',
              s_claimed_risk = 0, s_baseline_risk = 0, s_baseline_hash = ''''\<rparr>)"

interpretation base_scorer: scorer baseline_Score
  by unfold_locales
    (auto simp: baseline_Score_def Let_def ClampMicro_range)

section \<open>Fixed point arithmetic (learned.go)\<close>

definition expScale :: int where "expScale = 1000000000"
definition eInv :: int where "eInv = 367879441"
definition maxLogitMicro :: int where "maxLogitMicro = 30 * MicroScale"

fun taylor :: "nat \<Rightarrow> int \<Rightarrow> int \<Rightarrow> int \<Rightarrow> int \<Rightarrow> int" where
  "taylor 0 k f acc term = acc"
| "taylor (Suc n) k f acc term =
     (let t = tdiv (wrap64 (term * f)) (wrap64 (expScale * k)) in
      if t = 0 then acc
      else taylor n (k + 1) f (if k mod 2 = 1 then wrap64 (acc - t) else wrap64 (acc + t)) t)"

fun decay :: "nat \<Rightarrow> int \<Rightarrow> int" where
  "decay 0 acc = acc"
| "decay (Suc n) acc = decay n (tdiv (wrap64 (acc * eInv)) expScale)"

definition expNeg :: "int \<Rightarrow> int" where
  "expNeg x =
     (let n = tdiv x MicroScale; f = wrap64 (tmod x MicroScale * 1000)
      in decay (nat n) (taylor 25 1 f expScale expScale))"

definition SigmoidMicro :: "int \<Rightarrow> int" where
  "SigmoidMicro z0 =
     (let z1 = (if maxLogitMicro < z0 then maxLogitMicro else z0);
          z2 = (if z1 < - maxLogitMicro then - maxLogitMicro else z1);
          e = expNeg (if z2 < 0 then - z2 else z2);
          den = wrap64 (expScale + e)
      in if z2 < 0 then tdiv (wrap64 (wrap64 (e * MicroScale) + tdiv den 2)) den
         else tdiv (wrap64 (wrap64 (expScale * MicroScale) + tdiv den 2)) den)"

definition ParseMicro :: "string \<Rightarrow> int err" where
  "ParseMicro s =
     (let neg = has_prefix s ''-''; body = trim_prefix s ''-'';
          (ip, fr, hasDot) = (case cut body ''.'' of None \<Rightarrow> (body, '''', False)
                                | Some (a, b) \<Rightarrow> (a, b, True))
      in if ip = '''' \<or> (hasDot \<and> fr = '''') \<or> 6 < length fr \<or> 4 < length ip
           \<or> \<not> list_all is_digit (ip @ fr)
         then Inl (''bad decimal '' @ quote s)
         else let whole = int (parse_nat_acc 0 ip);
                  frac = int (parse_nat_acc 0 (fr @ replicate (6 - length fr) CHR ''0''));
                  v = wrap64 (wrap64 (whole * MicroScale) + frac)
              in if 1000 * MicroScale < v then Inl (''decimal '' @ quote s @ '' out of range'')
                 else Inr (if neg then - v else v))"

section \<open>The artifact and the model\<close>

record cal_bin =
  cb_lower :: int
  cb_upper :: int
  cb_count :: int
  cb_mean_predicted :: int
  cb_observed :: int

record calibration =
  ca_method :: string
  ca_split :: string
  ca_bins :: "cal_bin list"
  ca_ece :: int

record trained_on =
  tr_data_source :: string
  tr_dataset_sha :: string
  tr_total :: int
  tr_train :: int
  tr_holdout :: int
  tr_positives :: int
  tr_negatives :: int
  tr_synthetic :: int
  tr_human :: int

record artifact =
  ar_schema :: int
  ar_model_id :: string
  ar_version :: string
  ar_model_type :: string
  ar_spec :: string
  ar_features :: "string list"
  ar_weights :: "string list"
  ar_bias :: string
  ar_threshold :: int
  ar_calibration :: calibration
  ar_trained_on :: trained_on
  ar_training :: "string \<Rightarrow> string option"
  ar_sha256 :: string

record model =
  m_art :: artifact
  m_weights :: "int list"
  m_bias :: int

definition SchemaVersion :: int where "SchemaVersion = 1"
definition ModelType :: string where "ModelType = ''logistic_regression''"

fun parse_weights :: "string list \<Rightarrow> string list \<Rightarrow> int list err" where
  "parse_weights (n # ns) (w # ws) =
     (case ParseMicro w of
        Inl e \<Rightarrow> Inl (''learned: invalid artifact: weight '' @ n @ '': '' @ e)
      | Inr v \<Rightarrow> (case parse_weights ns ws of Inl e \<Rightarrow> Inl e | Inr vs \<Rightarrow> Inr (v # vs)))"
| "parse_weights _ _ = Inr []"

definition ParseArtifact :: "string \<Rightarrow> artifact \<Rightarrow> model err" where
  "ParseArtifact canonical a =
     (let invalid = (\<lambda>m. Inl (''learned: invalid artifact: '' @ m));
          mismatch = (\<lambda>m. Inl (''learned: artifact feature spec does not match this operator: '' @ m)) in
      if ar_sha256 a \<noteq> canonical then
        Inl ''learned: artifact_sha256 does not match the artifact''
      else if ar_schema a \<noteq> SchemaVersion then invalid (''schema_version '' @ itoa (ar_schema a))
      else if ar_model_type a \<noteq> ModelType then invalid (''model_type '' @ quote (ar_model_type a))
      else if ar_model_id a = '''' \<or> ar_version a = '''' then
        invalid ''model_id and version are required''
      else if ar_spec a \<noteq> FeatureSpecVersion then
        mismatch (''artifact '' @ quote (ar_spec a) @ '', operator '' @ quote FeatureSpecVersion)
      else if ar_features a \<noteq> FeatureNames then mismatch ''feature names or order differ''
      else if length (ar_weights a) \<noteq> length (ar_features a) then
        invalid (itoa (int (length (ar_weights a))) @ '' weights for ''
                 @ itoa (int (length (ar_features a))) @ '' features'')
      else if ar_threshold a < 1 \<or> MicroScale < ar_threshold a then
        invalid (''threshold_micro '' @ itoa (ar_threshold a))
      else (case parse_weights (ar_features a) (ar_weights a) of
          Inl e \<Rightarrow> Inl e
        | Inr ws \<Rightarrow> (case ParseMicro (ar_bias a) of
              Inl e \<Rightarrow> invalid (''bias: '' @ e)
            | Inr b \<Rightarrow> Inr \<lparr>m_art = a, m_weights = ws, m_bias = b\<rparr>)))"

definition Logit :: "model \<Rightarrow> features \<Rightarrow> int err" where
  "Logit m f =
     (if f_spec f \<noteq> ar_spec (m_art m) \<or> length (f_values f) \<noteq> length (m_weights m)
      then Inl (''learned: artifact feature spec does not match this operator: features ''
             @ f_spec f @ ''/'' @ itoa (int (length (f_values f))) @ '', model ''
             @ ar_spec (m_art m) @ ''/'' @ itoa (int (length (m_weights m))))
      else Inr (fold (\<lambda>(w, v) z. wrap64 (z + wrap64 (w * v))) (zip (m_weights m) (f_values f))
                  (m_bias m)))"

definition nonEmpty :: "string \<Rightarrow> string \<Rightarrow> string" where
  "nonEmpty s d = (if s = '''' then d else s)"

definition learned_Score :: "model \<Rightarrow> features \<Rightarrow> score err" where
  "learned_Score m f =
     (case Logit m f of
        Inl e \<Rightarrow> Inl e
      | Inr z \<Rightarrow>
          (let risk = SigmoidMicro z;
               cs = zip (ar_features (m_art m))
                      (map (\<lambda>(w, v). wrap64 (w * v)) (zip (m_weights m) (f_values f)));
               cal = ar_calibration (m_art m)
           in Inr \<lparr>s_model_id = ar_model_id (m_art m), s_version = ar_version (m_art m),
                s_artifact = ar_sha256 (m_art m), s_feature_spec = f_spec f,
                s_feature_hash = Hash f, s_risk = risk, s_option = Options risk,
                s_reasons = reason_codes cs, s_threshold = ar_threshold (m_art m),
                s_calibration = nonEmpty (ca_method cal) ''none'' @ ''; ''
                  @ nonEmpty (ca_split cal) ''holdout'' @ '' ECE '' @ itoa (ca_ece cal)
                  @ '' micro over '' @ itoa (int (length (ca_bins cal))) @ '' bins; trained on ''
                  @ nonEmpty (tr_data_source (ar_trained_on (m_art m))) ''unknown'' @ '' data'',
                s_claimed_risk = 0, s_baseline_risk = 0, s_baseline_hash = ''''\<rparr>))"

section \<open>Bounds of the inference\<close>

lemma tdiv_bounds: "0 \<le> a \<Longrightarrow> 0 < b \<Longrightarrow> 0 \<le> tdiv a b \<and> tdiv a b \<le> a"
  by (simp add: tdiv_nonneg pos_imp_zdiv_nonneg_iff)
    (metis div_by_1 int_one_le_iff_zero_less zdiv_mono2 zero_less_one)

lemma mult_int64:
  assumes "0 \<le> a" "a \<le> 10 ^ 9" "0 \<le> b" "b \<le> (10 ^ 9 :: int)"
  shows "in_int64 (a * b) \<and> 0 \<le> a * b \<and> a * b \<le> 10 ^ 9 * a"
proof -
  have "a * b \<le> a * 10 ^ 9"
    using assms by (intro mult_left_mono) auto
  moreover have "a * 10 ^ 9 \<le> 10 ^ 9 * 10 ^ 9"
    using assms by (intro mult_right_mono) auto
  moreover have "0 \<le> a * b" using assms by simp
  ultimately show ?thesis by (simp add: in_int64_def mult.commute)
qed

text \<open>
  The Taylor terms decrease and alternate, so the partial sums stay between zero
  and one: acc is at most 1 after a subtraction plus the next term, at least the
  term after an addition.
\<close>

lemma taylor_range:
  assumes "0 \<le> f" "f \<le> expScale" "0 \<le> term" "term \<le> expScale" "1 \<le> k" "k + int n \<le> 26"
    and "if k mod 2 = 1 then term \<le> acc \<and> acc \<le> expScale else 0 \<le> acc \<and> acc + term \<le> expScale"
  shows "0 \<le> taylor n k f acc term \<and> taylor n k f acc term \<le> expScale"
  using assms
proof (induction n arbitrary: k acc "term")
  case 0
  then show ?case by (auto split: if_splits)
next
  case (Suc n)
  define t where "t = tdiv (wrap64 (term * f)) (wrap64 (expScale * k))"
  have prod: "in_int64 (term * f)" "0 \<le> term * f" "term * f \<le> 10 ^ 9 * term"
    using mult_int64 [of "term" f] Suc.prems by (simp_all add: expScale_def)
  have den: "wrap64 (expScale * k) = expScale * k" "0 < expScale * k"
    using Suc.prems by (auto intro!: wrap64_id simp: in_int64_def expScale_def)
  have t_eq: "t = (term * f) div (expScale * k)"
    using prod den by (simp add: t_def wrap64_id tdiv_nonneg)
  have t0: "0 \<le> t"
    using t_eq prod den by (simp add: pos_imp_zdiv_nonneg_iff)
  have t1: "t \<le> term"
  proof -
    have "(term * f) div (expScale * k) \<le> (10 ^ 9 * term) div (expScale * k)"
      using prod den by (intro zdiv_mono1) auto
    also have "\<dots> \<le> (10 ^ 9 * term) div expScale"
      using Suc.prems by (intro zdiv_mono2) (auto simp: expScale_def)
    also have "\<dots> = term" by (simp add: expScale_def)
    finally show ?thesis using t_eq by simp
  qed
  show ?case
  proof (cases "t = 0")
    case True
    then show ?thesis
      using Suc.prems t_def by (auto split: if_splits)
  next
    case False
    have small: "x \<le> 2 * expScale \<Longrightarrow> 0 \<le> x \<Longrightarrow> wrap64 x = x" for x
      by (rule wrap64_id) (auto simp: in_int64_def expScale_def)
    define acc' where "acc' = (if k mod 2 = 1 then wrap64 (acc - t) else wrap64 (acc + t))"
    have acc': "acc' = (if k mod 2 = 1 then acc - t else acc + t)"
      using Suc.prems t0 t1 by (auto simp: acc'_def intro!: small)
    have "0 \<le> taylor n (k + 1) f acc' t \<and> taylor n (k + 1) f acc' t \<le> expScale"
    proof (rule Suc.IH)
      show "if (k + 1) mod 2 = 1 then t \<le> acc' \<and> acc' \<le> expScale
          else 0 \<le> acc' \<and> acc' + t \<le> expScale"
        using Suc.prems(7) t0 t1 acc' by (cases "k mod 2 = 1") (simp_all, presburger+)
    qed (use Suc.prems t0 t1 in auto)
    moreover have "taylor (Suc n) k f acc term = (if t = 0 then acc else taylor n (k + 1) f acc' t)"
      unfolding taylor.simps Let_def t_def acc'_def by (rule refl)
    ultimately show ?thesis
      using False by simp
  qed
qed

lemma decay_range: "0 \<le> acc \<Longrightarrow> acc \<le> expScale \<Longrightarrow> 0 \<le> decay n acc \<and> decay n acc \<le> expScale"
proof (induction n arbitrary: acc)
  case (Suc n)
  have m: "in_int64 (acc * eInv)" "0 \<le> acc * eInv" "acc * eInv \<le> 10 ^ 9 * acc"
    using mult_int64 [of acc eInv] Suc.prems by (simp_all add: expScale_def eInv_def)
  then have "(acc * eInv) div expScale \<le> (10 ^ 9 * acc) div expScale"
    by (intro zdiv_mono1) (auto simp: expScale_def)
  then have "(acc * eInv) div expScale \<le> acc"
    by (simp add: expScale_def)
  moreover have "0 \<le> (acc * eInv) div expScale"
    using m by (simp add: expScale_def pos_imp_zdiv_nonneg_iff)
  ultimately show ?case
    using Suc m by (simp add: wrap64_id tdiv_nonneg expScale_def)
qed simp

lemma expNeg_range:
  assumes "0 \<le> x" "x \<le> maxLogitMicro"
  shows "0 \<le> expNeg x \<and> expNeg x \<le> expScale"
proof -
  have mod: "tmod x MicroScale = x mod MicroScale"
    using assms by (simp add: tmod_def tdiv_nonneg MicroScale_def minus_mult_div_eq_mod)
  have r: "0 \<le> x mod MicroScale" "x mod MicroScale < MicroScale"
    by (simp_all add: MicroScale_def)
  then have "wrap64 (tmod x MicroScale * 1000) = x mod MicroScale * 1000"
    unfolding mod by (intro wrap64_id) (simp add: in_int64_def, simp add: MicroScale_def)
  then have f: "0 \<le> wrap64 (tmod x MicroScale * 1000)" "wrap64 (tmod x MicroScale * 1000) \<le> expScale"
    using r by (simp_all add: MicroScale_def expScale_def)
  then have "0 \<le> taylor 25 1 (wrap64 (tmod x MicroScale * 1000)) expScale expScale
      \<and> taylor 25 1 (wrap64 (tmod x MicroScale * 1000)) expScale expScale \<le> expScale"
    by (intro taylor_range) (auto simp: expScale_def)
  then show ?thesis
    by (simp add: expNeg_def Let_def decay_range del: taylor.simps)
qed

text \<open>The sigmoid as exact rounded division.\<close>

definition clamp_logit :: "int \<Rightarrow> int" where
  "clamp_logit z = max (- maxLogitMicro) (min maxLogitMicro z)"

lemma SigmoidMicro_exact:
  "SigmoidMicro z =
     (let c = clamp_logit z; e = expNeg \<bar>c\<bar>; den = expScale + e
      in ((if c < 0 then e else expScale) * MicroScale + den div 2) div den)"
proof -
  define c where "c = clamp_logit z"
  define e where "e = expNeg \<bar>c\<bar>"
  have e: "0 \<le> e" "e \<le> expScale"
    unfolding e_def by (rule conjunct1 [OF expNeg_range] conjunct2 [OF expNeg_range];
      simp add: c_def clamp_logit_def maxLogitMicro_def MicroScale_def)+
  have w: "x \<le> 2 * 10 ^ 15 + 2 * 10 ^ 9 \<Longrightarrow> 0 \<le> x \<Longrightarrow> wrap64 x = x" for x
    by (rule wrap64_id) (auto simp: in_int64_def)
  have z2: "(if (if maxLogitMicro < z then maxLogitMicro else z) < - maxLogitMicro
      then - maxLogitMicro else (if maxLogitMicro < z then maxLogitMicro else z)) = c"
    by (auto simp: c_def clamp_logit_def maxLogitMicro_def MicroScale_def)
  have abs: "(if c < 0 then - c else c) = \<bar>c\<bar>" by simp
  have den: "wrap64 (expScale + e) = expScale + e" "tdiv (expScale + e) 2 = (expScale + e) div 2"
    using e by (auto intro!: w tdiv_nonneg simp: expScale_def)
  have half: "0 \<le> (expScale + e) div 2" "(expScale + e) div 2 \<le> 10 ^ 9"
    using e by (auto simp: expScale_def)
  have fin: "tdiv (wrap64 (wrap64 (a * MicroScale) + (expScale + e) div 2)) (expScale + e)
      = (a * MicroScale + (expScale + e) div 2) div (expScale + e)"
    if "0 \<le> a" "a \<le> expScale" for a
    using that half e by (simp add: w MicroScale_def expScale_def tdiv_nonneg)
  show ?thesis
    unfolding SigmoidMicro_def Let_def z2 abs c_def [symmetric] e_def [symmetric] den
    using fin [of e] fin [of expScale] e by (simp add: expScale_def)
qed

lemma SigmoidMicro_range: "0 \<le> SigmoidMicro z \<and> SigmoidMicro z \<le> MicroScale"
proof -
  define c where "c = clamp_logit z"
  define e where "e = expNeg \<bar>c\<bar>"
  define den where "den = expScale + e"
  have e: "0 \<le> e" "e \<le> expScale"
    unfolding e_def by (rule conjunct1 [OF expNeg_range] conjunct2 [OF expNeg_range];
      simp add: c_def clamp_logit_def maxLogitMicro_def MicroScale_def)+
  have a: "0 \<le> a \<Longrightarrow> a \<le> den \<Longrightarrow> 0 \<le> (a * MicroScale + den div 2) div den
      \<and> (a * MicroScale + den div 2) div den \<le> MicroScale" for a
  proof -
    assume a: "0 \<le> a" "a \<le> den"
    have pos: "0 < den" using e by (simp add: den_def expScale_def)
    have "a * MicroScale \<le> den * MicroScale"
      using a by (simp add: MicroScale_def)
    then have "a * MicroScale + den div 2 \<le> (den - 1) + MicroScale * den"
      using pos by (simp add: mult.commute)
    then have "(a * MicroScale + den div 2) div den \<le> ((den - 1) + MicroScale * den) div den"
      using pos by (intro zdiv_mono1)
    also have "\<dots> = MicroScale"
      using pos by simp
    finally have "(a * MicroScale + den div 2) div den \<le> MicroScale" .
    moreover have "0 \<le> (a * MicroScale + den div 2) div den"
      using a pos by (simp add: pos_imp_zdiv_nonneg_iff MicroScale_def)
    ultimately show ?thesis by simp
  qed
  show ?thesis
    unfolding SigmoidMicro_exact Let_def c_def [symmetric] e_def [symmetric] den_def [symmetric]
    using a e by (simp add: den_def)
qed

interpretation learned: scorer "learned_Score m" for m
  by unfold_locales
    (auto simp: learned_Score_def Let_def SigmoidMicro_range split: sum.splits)

section \<open>The inference without wrap-around\<close>

fun taylor_ideal :: "nat \<Rightarrow> int \<Rightarrow> int \<Rightarrow> int \<Rightarrow> int \<Rightarrow> int" where
  "taylor_ideal 0 k f acc term = acc"
| "taylor_ideal (Suc n) k f acc term =
     (let t = term * f div (expScale * k) in
      taylor_ideal n (k + 1) f (if odd k then acc - t else acc + t) t)"

definition expNeg_ideal :: "int \<Rightarrow> int" where
  "expNeg_ideal x =
     ((\<lambda>s. s * eInv div expScale) ^^ nat (x div MicroScale))
       (taylor_ideal 25 1 (x mod MicroScale * 1000) expScale expScale)"

lemma taylor_ideal_zero: "taylor_ideal n k f acc 0 = acc"
  by (induction n arbitrary: k acc) simp_all

lemma taylor_eq_ideal:
  assumes "0 \<le> f" "f \<le> expScale" "0 \<le> term" "term \<le> expScale" "1 \<le> k" "k + int n \<le> 26"
    and "if k mod 2 = 1 then term \<le> acc \<and> acc \<le> expScale else 0 \<le> acc \<and> acc + term \<le> expScale"
  shows "taylor n k f acc term = taylor_ideal n k f acc term"
  using assms
proof (induction n arbitrary: k acc "term")
  case (Suc n)
  define t where "t = term * f div (expScale * k)"
  have prod: "in_int64 (term * f)" "0 \<le> term * f" "term * f \<le> 10 ^ 9 * term"
    using mult_int64 [of "term" f] Suc.prems by (simp_all add: expScale_def)
  have den: "wrap64 (expScale * k) = expScale * k" "0 < expScale * k"
    using Suc.prems by (auto intro!: wrap64_id simp: in_int64_def expScale_def)
  have t: "tdiv (wrap64 (term * f)) (wrap64 (expScale * k)) = t"
    using prod den by (simp add: t_def wrap64_id tdiv_nonneg)
  have t0: "0 \<le> t"
    using prod den by (simp add: t_def pos_imp_zdiv_nonneg_iff)
  have "term * f div (expScale * k) \<le> (10 ^ 9 * term) div (expScale * k)"
    using prod den by (intro zdiv_mono1) auto
  also have "\<dots> \<le> (10 ^ 9 * term) div expScale"
    using Suc.prems by (intro zdiv_mono2) (auto simp: expScale_def)
  also have "\<dots> = term" by (simp add: expScale_def)
  finally have t1: "t \<le> term" by (simp add: t_def)
  have small: "x \<le> 2 * expScale \<Longrightarrow> 0 \<le> x \<Longrightarrow> wrap64 x = x" for x
    by (rule wrap64_id) (auto simp: in_int64_def expScale_def)
  have acc': "(if k mod 2 = 1 then wrap64 (acc - t) else wrap64 (acc + t))
      = (if odd k then acc - t else acc + t)"
    using Suc.prems t0 t1 by (auto simp: odd_iff_mod_2_eq_one intro!: small)
  have "taylor n (k + 1) f (if odd k then acc - t else acc + t) t
      = taylor_ideal n (k + 1) f (if odd k then acc - t else acc + t) t"
  proof (rule Suc.IH)
    show "if (k + 1) mod 2 = 1 then t \<le> (if odd k then acc - t else acc + t)
          \<and> (if odd k then acc - t else acc + t) \<le> expScale
        else 0 \<le> (if odd k then acc - t else acc + t)
          \<and> (if odd k then acc - t else acc + t) + t \<le> expScale"
      using Suc.prems(7) t0 t1 by (cases "k mod 2 = 1") (simp_all add: odd_iff_mod_2_eq_one, presburger+)
  qed (use Suc.prems t0 t1 in auto)
  then show ?case
    unfolding taylor.simps taylor_ideal.simps Let_def t t_def [symmetric] acc'
    by (cases "t = 0") (simp_all add: taylor_ideal_zero)
qed simp

lemma decay_eq_ideal:
  "0 \<le> acc \<Longrightarrow> acc \<le> expScale \<Longrightarrow> decay n acc = ((\<lambda>s. s * eInv div expScale) ^^ n) acc"
proof (induction n arbitrary: acc)
  case (Suc n)
  have m: "in_int64 (acc * eInv)" "0 \<le> acc * eInv"
    using mult_int64 [of acc eInv] Suc.prems by (simp_all add: expScale_def eInv_def)
  then have step: "tdiv (wrap64 (acc * eInv)) expScale = acc * eInv div expScale"
    by (simp add: wrap64_id tdiv_nonneg expScale_def)
  have "0 \<le> decay 1 acc \<and> decay 1 acc \<le> expScale"
    by (rule decay_range) (use Suc.prems in auto)
  then have "decay n (acc * eInv div expScale)
      = ((\<lambda>s. s * eInv div expScale) ^^ n) (acc * eInv div expScale)"
    using Suc.IH step by simp
  then show ?case
    using step by (simp add: funpow_Suc_right del: funpow.simps)
qed simp

lemma expNeg_eq_ideal:
  assumes "0 \<le> x" "x \<le> maxLogitMicro"
  shows "expNeg x = expNeg_ideal x"
proof -
  have mod: "tmod x MicroScale = x mod MicroScale" "tdiv x MicroScale = x div MicroScale"
    using assms by (simp_all add: tmod_def tdiv_nonneg MicroScale_def minus_mult_div_eq_mod)
  have r: "0 \<le> x mod MicroScale" "x mod MicroScale < MicroScale"
    by (simp_all add: MicroScale_def)
  then have w: "wrap64 (x mod MicroScale * 1000) = x mod MicroScale * 1000"
    by (intro wrap64_id) (simp add: in_int64_def, simp add: MicroScale_def)
  have f: "0 \<le> x mod MicroScale * 1000" "x mod MicroScale * 1000 \<le> expScale"
    using r by (simp_all add: MicroScale_def expScale_def)
  have t: "taylor 25 1 (x mod MicroScale * 1000) expScale expScale
      = taylor_ideal 25 1 (x mod MicroScale * 1000) expScale expScale"
    using f by (intro taylor_eq_ideal) (auto simp: expScale_def)
  have "0 \<le> taylor 25 1 (x mod MicroScale * 1000) expScale expScale
      \<and> taylor 25 1 (x mod MicroScale * 1000) expScale expScale \<le> expScale"
    using f by (intro taylor_range) (auto simp: expScale_def)
  then show ?thesis
    by (simp add: expNeg_def expNeg_ideal_def Let_def mod w decay_eq_ideal t
        del: taylor.simps taylor_ideal.simps)
qed

section \<open>The weights of an accepted artifact\<close>

lemma parse_nat_acc_bound:
  "list_all is_digit t \<Longrightarrow> parse_nat_acc a t < (a + 1) * 10 ^ length t"
proof (induction t arbitrary: a)
  case (Cons c t)
  have "parse_nat_acc (10 * a + digit_val c) t < (10 * a + digit_val c + 1) * 10 ^ length t"
    using Cons by simp
  also have "\<dots> \<le> (10 * a + 10) * 10 ^ length t"
    using Cons.prems digit_val_less [of c] by (intro mult_right_mono) auto
  finally show ?case by (simp add: algebra_simps)
qed simp

lemma ParseMicro_bound: 
  assumes p: "ParseMicro s = Inr v"
  shows "\<bar>v\<bar> \<le> 10 ^ 9"
proof -
  obtain ip fr h where parts: "(case cut (trim_prefix s ''-'') ''.'' of
        None \<Rightarrow> (trim_prefix s ''-'', '''', False) | Some (a, b) \<Rightarrow> (a, b, True)) = (ip, fr, h)"
    by (metis prod_cases3)
  define x where "x = int (parse_nat_acc 0 (fr @ replicate (6 - length fr) CHR ''0''))"
  define w where "w = int (parse_nat_acc 0 ip)"
  note u = p [unfolded ParseMicro_def Let_def parts prod.case, folded x_def w_def]
  have ok: "length fr \<le> 6" "length ip \<le> 4" "list_all is_digit ip" "list_all is_digit fr"
    using u by (auto split: if_splits)
  have z: "is_digit CHR ''0''" by (simp add: is_digit_def)
  have "parse_nat_acc 0 ip < 1 * 10 ^ length ip"
    using parse_nat_acc_bound [of ip 0] ok by simp
  also have "\<dots> \<le> 10 ^ 4"
    using ok(2) power_increasing [of "length ip" 4 "10::nat"] by simp
  finally have "w < 10 ^ 4" by (simp add: w_def)
  moreover have "parse_nat_acc 0 (fr @ replicate (6 - length fr) CHR ''0'') < 10 ^ 6"
    using parse_nat_acc_bound [of "fr @ replicate (6 - length fr) CHR ''0''" 0] ok z
    by (simp add: list_all_iff set_replicate_conv_if)
  then have "x < 10 ^ 6" by (simp add: x_def)
  moreover have "0 \<le> w" "0 \<le> x" by (simp_all add: w_def x_def)
  ultimately have "wrap64 (w * MicroScale) = w * MicroScale"
    "wrap64 (w * MicroScale + x) = w * MicroScale + x" "0 \<le> w * MicroScale + x"
    by (auto intro!: wrap64_id simp: in_int64_def MicroScale_def)
  then show ?thesis
    using u by (auto simp: MicroScale_def split: if_splits)
qed

lemma parse_weights_bound:
  "parse_weights ns ws = Inr vs \<Longrightarrow> (\<forall>v\<in>set vs. \<bar>v\<bar> \<le> 10 ^ 9) \<and>
   (length ns = length ws \<longrightarrow> length vs = length ws)"
proof (induction ns ws arbitrary: vs rule: parse_weights.induct)
  case (1 n ns w ws)
  then obtain v us where "ParseMicro w = Inr v" "parse_weights ns ws = Inr us" "vs = v # us"
    by (auto split: sum.splits)
  then show ?case
    using "1.IH" [of v us] ParseMicro_bound [of w v] by simp
qed auto

lemma logit_fold:
  assumes "\<forall>p\<in>set ps. \<bar>fst p\<bar> \<le> 10 ^ 9 \<and> 0 \<le> snd p \<and> snd p \<le> (10::int)"
    and "\<bar>z\<bar> \<le> 10 ^ 15" "length ps \<le> 1000"
  shows "fold (\<lambda>(w, v) z. wrap64 (z + wrap64 (w * v))) ps z = z + (\<Sum>(w, v)\<leftarrow>ps. w * v)
    \<and> \<bar>z + (\<Sum>(w, v)\<leftarrow>ps. w * v)\<bar> \<le> \<bar>z\<bar> + 10 ^ 10 * int (length ps)"
  using assms
proof (induction ps rule: rev_induct)
  case (snoc p ps)
  obtain w v where p: "p = (w, v)" by (cases p)
  have wv: "\<bar>w\<bar> \<le> 10 ^ 9" "0 \<le> v" "v \<le> 10" using snoc.prems p by auto
  have "\<bar>w * v\<bar> = \<bar>w\<bar> * v" using wv by (simp add: abs_mult)
  also have "\<dots> \<le> 10 ^ 9 * 10" using wv by (intro mult_mono) auto
  finally have b: "\<bar>w * v\<bar> \<le> 10 ^ 10" by simp
  define S where "S = (\<Sum>(w, v)\<leftarrow>ps. w * v)"
  have IH: "fold (\<lambda>(w, v) z. wrap64 (z + wrap64 (w * v))) ps z = z + S"
    "\<bar>z + S\<bar> \<le> \<bar>z\<bar> + 10 ^ 10 * int (length ps)"
    using snoc by (auto simp: S_def)
  have "wrap64 (w * v) = w * v" "wrap64 (z + S + w * v) = z + S + w * v"
    using b IH(2) snoc.prems(2,3) by (auto intro!: wrap64_id simp: in_int64_def)
  then show ?case
    using IH b by (simp add: p S_def [symmetric])
qed simp

lemma ParseArtifact_shape:
  assumes "ParseArtifact h a = Inr m"
  shows "m_art m = a" "ar_spec a = FeatureSpecVersion" "ar_features a = FeatureNames"
    "length (m_weights m) = 24" "\<forall>w\<in>set (m_weights m). \<bar>w\<bar> \<le> 10 ^ 9" "\<bar>m_bias m\<bar> \<le> 10 ^ 9"
    "1 \<le> ar_threshold a" "ar_threshold a \<le> MicroScale" "ar_sha256 a = h"
  using assms
  by (auto simp: ParseArtifact_def Let_def FeatureNames_def split: if_splits sum.splits
      dest!: parse_weights_bound ParseMicro_bound)

lemma learned_total:
  assumes "ParseArtifact h a = Inr m"
  shows "\<exists>s. ScoreClaimSafe (learned_Score m) fi = Inr s"
  using ParseArtifact_shape [OF assms]
  by (auto simp: ScoreClaimSafe_def learned_Score_def Logit_def Let_def
      ExtractFeatures_def FeatureNames_def)

section \<open>Properties\<close>

text \<open>C7: no agent claim avoids an escalation. With either scorer, if an action would be escalated
  when the agent claims neither confidence nor cluster health, then it is escalated whatever the
  agent claims; and the risk is never below the claim-independent baseline.\<close>

theorem claims_only_tighten:
  assumes "sc = baseline_Score \<or> sc = learned_Score m"
    and "same_but_claims fi fi'"
    and "cl_confidence (in_claimed (fi_input fi)) = None" "cl_health (in_claimed (fi_input fi)) = None"
    and "ScoreClaimSafe sc fi = Inr s" "ScoreClaimSafe sc fi' = Inr s'"
  shows "(r_outcome (ApplyModel base s None mode) \<noteq> Allow \<longrightarrow>
          r_outcome (ApplyModel base s' None mode) \<noteq> Allow)
       \<and> s_risk s \<le> s_risk s' \<and> s_baseline_risk s' = s_risk s"
proof -
  have neutral: "fi\<lparr>fi_input := NeutralClaims (fi_input fi)\<rparr> = fi"
    using assms(3,4) by (simp add: NeutralClaims_def)
  show ?thesis
    using assms(1)
  proof
    assume sc: "sc = baseline_Score"
    have "s_risk s = s_baseline_risk s"
      using assms(5) neutral unfolding sc by (elim base_scorer.claim_safe_obtain) auto
    then show ?thesis
      using base_scorer.claims_cannot_avoid_escalation base_scorer.claim_safe_baseline assms
      unfolding sc by metis
  next
    assume sc: "sc = learned_Score m"
    have "s_risk s = s_baseline_risk s"
      using assms(5) neutral unfolding sc by (elim learned.claim_safe_obtain) auto
    then show ?thesis
      using learned.claims_cannot_avoid_escalation learned.claim_safe_baseline assms
      unfolding sc by metis
  qed
qed

definition wit_artifact :: artifact where
  "wit_artifact = \<lparr>ar_schema = 1, ar_model_id = ''m'', ar_version = ''1'',
     ar_model_type = ''logistic_regression'', ar_spec = ''v1'', ar_features = FeatureNames,
     ar_weights = replicate 24 ''-0.250000'', ar_bias = ''0.500000'', ar_threshold = 300000,
     ar_calibration = \<lparr>ca_method = '''', ca_split = '''', ca_bins = [], ca_ece = 0\<rparr>,
     ar_trained_on = \<lparr>tr_data_source = '''', tr_dataset_sha = '''', tr_total = 0, tr_train = 0,
       tr_holdout = 0, tr_positives = 0, tr_negatives = 0, tr_synthetic = 0, tr_human = 0\<rparr>,
     ar_training = Map.empty, ar_sha256 = ''''\<rparr>"

definition wit_model :: model where
  "wit_model = \<lparr>m_art = wit_artifact, m_weights = replicate 24 (-250000), m_bias = 500000\<rparr>"

lemma replicate_24: "replicate 24 x = [x,x,x,x,x,x,x,x,x,x,x,x,x,x,x,x,x,x,x,x,x,x,x,x]"
  by (simp add: eval_nat_numeral)

lemma wit_model_parse: "ParseArtifact '''' wit_artifact = Inr wit_model"
proof -
  have w: "ParseMicro ''-0.250000'' = Inr (-250000)" and b: "ParseMicro ''0.500000'' = Inr 500000"
    by (simp_all add: ParseMicro_def trim_prefix_def has_prefix_def cut_def wrap64_def
        MicroScale_def is_digit_def digit_val_def Let_def)
  show ?thesis
    by (simp add: ParseArtifact_def wit_artifact_def wit_model_def Let_def SchemaVersion_def
        ModelType_def FeatureSpecVersion_def FeatureNames_def MicroScale_def w b
        replicate_24)
qed

theorem claims_only_tighten_witness:
  "s_baseline_risk (projr (ScoreClaimSafe (learned_Score wit_model) wit_features))
   = s_risk (projr (ScoreClaimSafe (learned_Score wit_model)
       (wit_features\<lparr>fi_input := NeutralClaims (fi_input wit_features)\<rparr>)))"
proof -
  let ?n = "wit_features\<lparr>fi_input := NeutralClaims (fi_input wit_features)\<rparr>"
  have tot: "ScoreClaimSafe (learned_Score wit_model) fi = Inr (projr (ScoreClaimSafe (learned_Score wit_model) fi))" for fi
    using learned_total [OF wit_model_parse, of fi] by auto
  have same: "same_but_claims ?n wit_features"
    by (simp add: same_but_claims_def NeutralClaims_def)
  have none: "cl_confidence (in_claimed (fi_input ?n)) = None"
    "cl_health (in_claimed (fi_input ?n)) = None"
    by (simp_all add: NeutralClaims_def)
  show ?thesis
    using claims_only_tighten [OF disjI2 [OF refl] same none tot tot] by blast
qed

text \<open>C14: the integer sigmoid is exact and bounded. No int64 operation in it wraps around: it equals the
  formula over the unbounded integers, the rounded quotient of e^-z at the fixed scale. Its result is in
  the scale, and the risks of opposite logits add up to the whole scale up to one unit.\<close>

theorem SigmoidMicro_correct:
  "SigmoidMicro z = (let c = max (- maxLogitMicro) (min maxLogitMicro z); e = expNeg_ideal \<bar>c\<bar>;
                         den = expScale + e
                     in ((if c < 0 then e else expScale) * MicroScale + den div 2) div den)
   \<and> 0 \<le> SigmoidMicro z \<and> SigmoidMicro z \<le> MicroScale
   \<and> \<bar>SigmoidMicro z + SigmoidMicro (- z) - MicroScale\<bar> \<le> 1"
proof -
  define c where "c = clamp_logit z"
  define e where "e = expNeg \<bar>c\<bar>"
  define den where "den = expScale + e"
  have cr: "0 \<le> \<bar>c\<bar>" "\<bar>c\<bar> \<le> maxLogitMicro"
    by (simp_all add: c_def clamp_logit_def maxLogitMicro_def MicroScale_def)
  have e: "0 \<le> e" "e \<le> expScale"
    unfolding e_def using expNeg_range [OF cr] by simp_all
  have pos: "0 < den" using e by (simp add: den_def expScale_def)
  define A where "A = (e * MicroScale + den div 2) div den"
  define B where "B = (expScale * MicroScale + den div 2) div den"
  have whole: "e * MicroScale + expScale * MicroScale = den * MicroScale"
    by (simp add: den_def algebra_simps)
  have dv: "x div den * den \<le> x \<and> x < x div den * den + den" for x
    using pos pos_mod_bound [of den x] pos_mod_sign [of den x] div_mult_mod_eq [of x den] by linarith
  have h: "2 * (den div 2) \<le> den" "den \<le> 2 * (den div 2) + 1" by linarith+
  have "(A + B) * den \<le> (MicroScale + 1) * den" "(MicroScale - 1) * den < (A + B + 1) * den"
    using dv [of "e * MicroScale + den div 2"] dv [of "expScale * MicroScale + den div 2"] h whole
    unfolding A_def [symmetric] B_def [symmetric]
    by (simp_all add: algebra_simps)
  then have sum: "A + B \<le> MicroScale + 1" "MicroScale - 1 \<le> A + B"
    using pos by (simp_all add: mult_le_cancel_right mult_less_cancel_right)
  have z: "SigmoidMicro z = (if c < 0 then A else B)"
    unfolding SigmoidMicro_exact Let_def c_def [symmetric] e_def [symmetric] den_def [symmetric]
      A_def B_def by simp
  have neg: "clamp_logit (- z) = - c"
    by (auto simp: c_def clamp_logit_def maxLogitMicro_def MicroScale_def)
  have mz: "SigmoidMicro (- z) = (if 0 < c then A else B)"
    unfolding SigmoidMicro_exact Let_def neg abs_minus_cancel e_def [symmetric]
      den_def [symmetric] A_def B_def by simp
  have at0: "c = 0 \<Longrightarrow> A = B"
  proof -
    assume "c = 0"
    moreover have "expNeg 0 = expScale" by code_simp
    ultimately have "e = expScale" by (simp add: e_def)
    then show "A = B" by (simp add: A_def B_def)
  qed
  have sym: "\<bar>SigmoidMicro z + SigmoidMicro (- z) - MicroScale\<bar> \<le> 1"
    using sum at0 by (cases c "0::int" rule: linorder_cases) (simp_all add: z mz)
  have ideal: "expNeg_ideal \<bar>c\<bar> = e"
    using expNeg_eq_ideal [OF cr] by (simp add: e_def)
  have "SigmoidMicro z = ((if c < 0 then e else expScale) * MicroScale + den div 2) div den"
    using z by (simp add: A_def B_def)
  then show ?thesis
    using SigmoidMicro_range [of z] sym
    unfolding Let_def c_def [unfolded clamp_logit_def, symmetric] ideal den_def [symmetric]
    by blast
qed

text \<open>The logit of an accepted artifact is the exact weighted sum of the features. The caps on
  the weights and on the features keep every int64 sum far from overflow.\<close>

lemma Logit_exact:
  assumes "ParseArtifact h a = Inr m"
  shows "Logit m (ExtractFeatures fi) =
      Inr (m_bias m + (\<Sum>(w, v)\<leftarrow>zip (m_weights m) (f_values (ExtractFeatures fi)). w * v))
    \<and> \<bar>m_bias m + (\<Sum>(w, v)\<leftarrow>zip (m_weights m) (f_values (ExtractFeatures fi)). w * v)\<bar> \<le> 241 * 10 ^ 9"
proof -
  note sh = ParseArtifact_shape [OF assms]
  let ?ps = "zip (m_weights m) (f_values (ExtractFeatures fi))"
  have names: "length FeatureNames = 24"
    by (simp add: FeatureNames_def)
  have ps: "\<forall>p\<in>set ?ps. \<bar>fst p\<bar> \<le> 10 ^ 9 \<and> 0 \<le> snd p \<and> snd p \<le> (10::int)"
    using sh(5) ExtractFeatures_range [of _ fi]
    by (metis prod.collapse set_zip_leftD set_zip_rightD)
  have "fold (\<lambda>(w, v) z. wrap64 (z + wrap64 (w * v))) ?ps (m_bias m)
      = m_bias m + (\<Sum>(w, v)\<leftarrow>?ps. w * v)
    \<and> \<bar>m_bias m + (\<Sum>(w, v)\<leftarrow>?ps. w * v)\<bar> \<le> \<bar>m_bias m\<bar> + 10 ^ 10 * int (length ?ps)"
    by (rule logit_fold [OF ps]) (use sh(4,6) in auto)
  then show ?thesis
    using sh by (simp add: Logit_def ExtractFeatures_def names)
qed

theorem Logit_exact_witness:
  "\<bar>m_bias wit_model + (\<Sum>(w, v)\<leftarrow>zip (m_weights wit_model) (f_values (ExtractFeatures wit_features)). w * v)\<bar>
     \<le> 241 * 10 ^ 9"
  using Logit_exact [OF wit_model_parse, of wit_features] by simp

end
