(* ===== verification/AuditChain.thy ===== *)
theory AuditChain
  imports Digest
begin

text \<open>
  pkg/audit: the hash-chained ledger. The hashing of an entry and its canonical
  encoding (chain.go), the recorder over a storage backend and the in-memory
  backend (recorder.go), the verifier that walks a ledger and compares published
  checkpoints (verifier.go).

  The backend is an interface of the code: its laws are the locale
  \<open>audit_backend\<close>, the recorder is proved correct inside it, and the in-memory
  backend interprets it. Sequence numbers and timestamps are 64-bit words.
\<close>

section \<open>Entries and their hashes (chain.go)\<close>

type_synonym uint64 = "64 word"

type_synonym audit_action = "8 word"

definition ActionUnknown :: audit_action where
  "ActionUnknown = 0"

definition ActionLLMCall :: audit_action where
  "ActionLLMCall = 1"

definition ActionToolCall :: audit_action where
  "ActionToolCall = 2"

definition ActionHITLApprove :: audit_action where
  "ActionHITLApprove = 3"

definition ActionHITLReject :: audit_action where
  "ActionHITLReject = 4"

definition ActionManifestEmit :: audit_action where
  "ActionManifestEmit = 5"

definition ActionStateChange :: audit_action where
  "ActionStateChange = 6"

definition ActionReplay :: audit_action where
  "ActionReplay = 7"

definition action_String :: "audit_action \<Rightarrow> string" where
  "action_String a =
     (if a = ActionLLMCall then ''llm_call''
     else if a = ActionToolCall then ''tool_call''
     else if a = ActionHITLApprove then ''hitl_approve''
     else if a = ActionHITLReject then ''hitl_reject''
     else if a = ActionManifestEmit then ''manifest_emit''
     else if a = ActionStateChange then ''state_change''
     else if a = ActionReplay then ''replay''
     else ''unknown'')"

record entry =
  e_seq :: uint64
  e_ts :: uint64
  e_tenant :: string
  e_workload :: string
  e_actor :: string
  e_action :: audit_action
  e_subject :: string
  e_payload :: string
  e_psha :: string
  e_prev :: string
  e_hash :: string
  e_kid :: string
  e_sig :: string

record hasher =
  h_kid :: string
  h_key :: string

definition zero32 :: string where
  "zero32 = replicate 32 CHR 0x00"

definition le_bytes :: "nat \<Rightarrow> nat \<Rightarrow> string" where
  "le_bytes k n = map (\<lambda>i. char_of (n div 256 ^ i)) [0..<k]"

definition lp :: "string \<Rightarrow> string" where
  "lp b = le_bytes 4 (length b mod 2 ^ 32) @ b"

definition entry_bytes :: "entry \<Rightarrow> string" where
  "entry_bytes e =
     le_bytes 8 (unat (e_seq e)) @ le_bytes 8 (unat (e_ts e)) @ lp (e_tenant e)
     @ lp (e_workload e) @ lp (e_actor e) @ [char_of (unat (e_action e))]
     @ lp (e_subject e) @ e_psha e @ e_prev e"

definition computeEntryHash :: "entry \<Rightarrow> string" where
  "computeEntryHash e = sha256 (entry_bytes e)"

definition NewChainHasher :: "string \<Rightarrow> string \<Rightarrow> hasher err" where
  "NewChainHasher kid key =
     (if kid = '''' then Inl ''audit: signer kid required''
      else if length key < 32 then
        Inl (''audit: signing key too short ('' @ itoa (int (length key)) @ '' bytes, need >= 32)'')
      else Inr \<lparr>h_kid = kid, h_key = key\<rparr>)"

definition hash_entry :: "hasher \<Rightarrow> entry \<Rightarrow> entry" where
  "hash_entry h e =
     (let e1 = e\<lparr>e_psha := sha256 (e_payload e), e_kid := h_kid h\<rparr>;
          e2 = e1\<lparr>e_hash := computeEntryHash e1\<rparr>
      in e2\<lparr>e_sig := hmac_sha256 (h_key h) (e_hash e2)\<rparr>)"

definition seq_text :: "entry \<Rightarrow> string" where
  "seq_text e = ''audit: seq='' @ itoa (int (unat (e_seq e)))"

definition Verify :: "hasher \<Rightarrow> entry \<Rightarrow> string \<Rightarrow> string option" where
  "Verify h e prev =
     (if e_prev e \<noteq> prev then
        Some (seq_text e @ '' prev_hash mismatch: have='' @ hex (take 8 (e_prev e))
              @ '' want='' @ hex (take 8 prev))
      else if e_psha e \<noteq> sha256 (e_payload e) then
        Some (seq_text e @ '' payload_sha256 does not match payload_canonical'')
      else if e_hash e \<noteq> computeEntryHash e then
        Some (seq_text e @ '' entry_hash mismatch: have='' @ hex (take 8 (e_hash e))
              @ '' want='' @ hex (take 8 (computeEntryHash e)))
      else if e_kid e \<noteq> h_kid h then
        Some (seq_text e @ '' signed by unknown kid='' @ quote (e_kid e))
      else if hmac_sha256 (h_key h) (e_hash e) \<noteq> e_sig e then
        Some (seq_text e @ '' HMAC signature invalid'')
      else None)"

section \<open>The recorder (recorder.go)\<close>

record recorder =
  rec_hasher :: hasher
  rec_seq :: uint64
  rec_hash :: string

definition NewRecorder :: "('b \<Rightarrow> (uint64 \<times> string) err) \<Rightarrow> hasher \<Rightarrow> 'b \<Rightarrow> recorder err" where
  "NewRecorder head h b = (case head b of
       Inl e \<Rightarrow> Inl (''audit: load head: '' @ e)
     | Inr (n, x) \<Rightarrow> Inr \<lparr>rec_hasher = h, rec_seq = n, rec_hash = x\<rparr>)"

definition next_entry :: "recorder \<Rightarrow> uint64 \<Rightarrow> entry \<Rightarrow> entry" where
  "next_entry r now e =
     hash_entry (rec_hasher r) (e\<lparr>e_seq := rec_seq r + 1, e_ts := now, e_prev := rec_hash r\<rparr>)"

text \<open>The entry or the error, with the recorder and the backend after the call.\<close>

definition Append ::
  "(entry \<Rightarrow> 'b \<Rightarrow> 'b err) \<Rightarrow> uint64 \<Rightarrow> entry \<Rightarrow> recorder \<Rightarrow> 'b \<Rightarrow> entry err \<times> recorder \<times> 'b" where
  "Append store now e r b =
     (let e1 = next_entry r now e in
      (case store e1 b of
         Inl m \<Rightarrow> (Inl (''audit: backend append seq='' @ itoa (int (unat (e_seq e1))) @ '': '' @ m), r, b)
       | Inr b1 \<Rightarrow> (Inr e1, r\<lparr>rec_seq := e_seq e1, rec_hash := e_hash e1\<rparr>, b1)))"

definition Head :: "recorder \<Rightarrow> uint64 \<times> string" where
  "Head r = (rec_seq r, rec_hash r)"

text \<open>The in-memory backend is the list of its entries.\<close>

type_synonym memory_backend = "entry list"

definition mem_Append :: "entry \<Rightarrow> memory_backend \<Rightarrow> memory_backend err" where
  "mem_Append e b =
     (let expected = of_nat (length b + 1) in
      if e_seq e \<noteq> expected then
        Inl (''audit/memory: seq out of order: got '' @ itoa (int (unat (e_seq e))) @ '', want ''
             @ itoa (int (unat (expected :: uint64))))
      else Inr (b @ [e]))"

definition mem_Head :: "memory_backend \<Rightarrow> (uint64 \<times> string) err" where
  "mem_Head b = Inr (if b = [] then (0, zero32) else (e_seq (last b), e_hash (last b)))"

definition mem_All :: "memory_backend \<Rightarrow> entry list" where
  "mem_All b = b"

definition mem_Tamper :: "nat \<Rightarrow> (entry \<Rightarrow> entry) \<Rightarrow> memory_backend \<Rightarrow> memory_backend" where
  "mem_Tamper i f b = (if i < length b then b[i := f (b ! i)] else b)"

section \<open>The verifier (verifier.go)\<close>

type_synonym verifier = "string \<Rightarrow> hasher option"

fun add_hashers :: "hasher option list \<Rightarrow> verifier \<Rightarrow> verifier err" where
  "add_hashers [] m = Inr m"
| "add_hashers (None # hs) m = Inl ''audit: nil hasher''"
| "add_hashers (Some h # hs) m =
     (if m (h_kid h) \<noteq> None then Inl (''audit: duplicate signer kid '' @ quote (h_kid h))
      else add_hashers hs (m(h_kid h \<mapsto> h)))"

definition NewVerifier :: "hasher option list \<Rightarrow> verifier err" where
  "NewVerifier hs = (if hs = [] then Inl ''audit: verifier needs at least one hasher''
     else add_hashers hs Map.empty)"

record report =
  rp_total :: nat
  rp_ok :: nat
  rp_error :: "string option"
  rp_error_seq :: uint64
  rp_head_seq :: uint64
  rp_head_hash :: string
  rp_head_kid :: string
  rp_cp_ok :: nat
  rp_cp_bad :: nat

text \<open>The context's error at the iteration i is an argument.\<close>

fun walk_loop ::
  "verifier \<Rightarrow> (nat \<Rightarrow> string option) \<Rightarrow> nat \<Rightarrow> string \<Rightarrow> entry list \<Rightarrow> report \<Rightarrow> report" where
  "walk_loop v ctx i prev [] r = r"
| "walk_loop v ctx i prev (e # es) r =
     (case ctx i of
        Some m \<Rightarrow> r\<lparr>rp_error := Some m\<rparr>
      | None \<Rightarrow>
          (if e_seq e \<noteq> of_nat (i + 1) then
             r\<lparr>rp_error := Some (''audit: entry '' @ itoa (int i) @ '' has seq=''
                  @ itoa (int (unat (e_seq e))) @ '', want '' @ itoa (int (i + 1))),
               rp_error_seq := e_seq e\<rparr>
           else (case v (e_kid e) of
               None \<Rightarrow> r\<lparr>rp_error := Some (seq_text e @ '' unknown signer kid '' @ quote (e_kid e)),
                         rp_error_seq := e_seq e\<rparr>
             | Some h \<Rightarrow> (case Verify h e prev of
                   Some m \<Rightarrow> r\<lparr>rp_error := Some m, rp_error_seq := e_seq e\<rparr>
                 | None \<Rightarrow> walk_loop v ctx (i + 1) (e_hash e) es
                     (r\<lparr>rp_ok := rp_ok r + 1, rp_head_seq := e_seq e, rp_head_hash := e_hash e,
                        rp_head_kid := e_kid e\<rparr>)))))"

definition empty_report :: "nat \<Rightarrow> report" where
  "empty_report n = \<lparr>rp_total = n, rp_ok = 0, rp_error = None, rp_error_seq = 0, rp_head_seq = 0,
     rp_head_hash = zero32, rp_head_kid = '''', rp_cp_ok = 0, rp_cp_bad = 0\<rparr>"

definition Walk :: "verifier \<Rightarrow> (nat \<Rightarrow> string option) \<Rightarrow> entry list \<Rightarrow> report" where
  "Walk v ctx es = walk_loop v ctx 0 zero32 es (empty_report (length es))"

record checkpoint =
  ck_seq :: uint64
  ck_hash :: string
  ck_kid :: string
  ck_sig :: string
  ck_published :: string

definition bad_checkpoint :: "checkpoint \<Rightarrow> string \<Rightarrow> report \<Rightarrow> report" where
  "bad_checkpoint cp m r =
     (let r1 = r\<lparr>rp_cp_bad := rp_cp_bad r + 1\<rparr>
      in if rp_error r = None then r1\<lparr>rp_error := Some m, rp_error_seq := ck_seq cp\<rparr> else r1)"

definition check_checkpoint :: "(uint64 \<Rightarrow> entry option) \<Rightarrow> checkpoint \<Rightarrow> report \<Rightarrow> report" where
  "check_checkpoint bySeq cp r =
     (let n = itoa (int (unat (ck_seq cp))) in
      case bySeq (ck_seq cp) of
        None \<Rightarrow> bad_checkpoint cp (''audit: checkpoint seq='' @ n @ '' missing from ledger'') r
      | Some e \<Rightarrow>
          (if e_hash e \<noteq> ck_hash cp then
             bad_checkpoint cp (''audit: checkpoint seq='' @ n @ '' hash mismatch: cp=''
               @ hex (take 8 (ck_hash cp)) @ '' actual='' @ hex (take 8 (e_hash e))) r
           else r\<lparr>rp_cp_ok := rp_cp_ok r + 1\<rparr>))"

definition VerifyCheckpoints :: "entry list \<Rightarrow> checkpoint list \<Rightarrow> report \<Rightarrow> report" where
  "VerifyCheckpoints es cps r =
     (let bySeq = map_of (rev (map (\<lambda>e. (e_seq e, e)) es)) in fold (check_checkpoint bySeq) cps r)"

section \<open>The canonical encoding determines the entry\<close>

lemma length_le_bytes [simp]: "length (le_bytes k n) = k"
  by (simp add: le_bytes_def)

lemma le_bytes_Suc: "le_bytes (Suc k) n = char_of n # le_bytes k (n div 256)"
proof -
  have "[0..<Suc k] = 0 # map Suc [0..<k]"
    by (metis map_Suc_upt upt_conv_Cons zero_less_Suc)
  then show ?thesis
    by (simp add: le_bytes_def div_mult2_eq comp_def del: upt_Suc)
qed

lemma le_bytes_inj:
  "m < 256 ^ k \<Longrightarrow> n < 256 ^ k \<Longrightarrow> le_bytes k m = le_bytes k n \<longleftrightarrow> m = n"
proof (induction k arbitrary: m n)
  case (Suc k)
  have "char_of m = char_of n \<longleftrightarrow> m mod 256 = n mod 256"
    by simp
  moreover have "m div 256 < 256 ^ k" "n div 256 < 256 ^ k"
    using Suc.prems by (simp_all add: less_mult_imp_div_less mult.commute)
  then have "le_bytes k (m div 256) = le_bytes k (n div 256) \<longleftrightarrow> m div 256 = n div 256"
    by (rule Suc.IH)
  moreover have "m = n \<longleftrightarrow> m mod 256 = n mod 256 \<and> m div 256 = n div 256"
    by (metis div_mult_mod_eq)
  ultimately show ?case
    by (auto simp: le_bytes_Suc)
qed (simp add: le_bytes_def)

lemma le_bytes_append_eq:
  "m < 256 ^ k \<Longrightarrow> n < 256 ^ k \<Longrightarrow>
   le_bytes k m @ x = le_bytes k n @ y \<longleftrightarrow> m = n \<and> x = y"
  by (simp add: le_bytes_inj)

lemma lp_append_eq:
  assumes "length a < 2 ^ 32" "length b < 2 ^ 32"
  shows "lp a @ x = lp b @ y \<longleftrightarrow> a = b \<and> x = y"
proof -
  have "lp a @ x = lp b @ y \<longleftrightarrow> length a = length b \<and> a @ x = b @ y"
    using assms le_bytes_append_eq [of "length a" 4 "length b" "a @ x" "b @ y"]
    by (simp add: lp_def)
  then show ?thesis by auto
qed

definition short_entry :: "entry \<Rightarrow> bool" where
  "short_entry e \<longleftrightarrow> length (e_tenant e) < 2 ^ 32 \<and> length (e_workload e) < 2 ^ 32
     \<and> length (e_actor e) < 2 ^ 32 \<and> length (e_subject e) < 2 ^ 32
     \<and> length (e_psha e) = 32 \<and> length (e_prev e) = 32"

definition same_content :: "entry \<Rightarrow> entry \<Rightarrow> bool" where
  "same_content a b \<longleftrightarrow> e_seq a = e_seq b \<and> e_ts a = e_ts b \<and> e_tenant a = e_tenant b
     \<and> e_workload a = e_workload b \<and> e_actor a = e_actor b \<and> e_action a = e_action b
     \<and> e_subject a = e_subject b \<and> e_payload a = e_payload b"

lemma lp_eq: "length a < 2 ^ 32 \<Longrightarrow> length b < 2 ^ 32 \<Longrightarrow> lp a = lp b \<longleftrightarrow> a = b"
  using lp_append_eq [of a b "[]" "[]"] by simp

lemma action_code_inj:
  "unat (a :: 8 word) mod 256 = unat (b :: 8 word) mod 256 \<longleftrightarrow> a = b"
  using unsigned_less [of a, where 'a = nat] unsigned_less [of b, where 'a = nat] by (simp add: word_unat_eq_iff)

lemma le_bytes_word: "le_bytes 8 (unat (v :: uint64)) = le_bytes 8 (unat w) \<longleftrightarrow> v = w"
  using le_bytes_inj [of "unat v" 8 "unat w"] unsigned_less [of v, where 'a = nat]
    unsigned_less [of w, where 'a = nat] by (simp add: word_unat_eq_iff)

lemma entry_bytes_eq:
  assumes "short_entry a" "short_entry b" "entry_bytes a = entry_bytes b"
  shows "e_seq a = e_seq b \<and> e_ts a = e_ts b \<and> e_tenant a = e_tenant b
     \<and> e_workload a = e_workload b \<and> e_actor a = e_actor b \<and> e_action a = e_action b
     \<and> e_subject a = e_subject b \<and> e_psha a = e_psha b \<and> e_prev a = e_prev b"
  using assms
  by (simp add: entry_bytes_def short_entry_def le_bytes_word lp_append_eq lp_eq
      action_code_inj)

text \<open>A pair of texts with one digest, among the texts the two entries hash.\<close>

definition entry_collision :: "entry \<Rightarrow> entry \<Rightarrow> bool" where
  "entry_collision a b \<longleftrightarrow> collides sha256 (entry_bytes a) (entry_bytes b)
     \<or> collides sha256 (e_payload a) (e_payload b)"

lemma equal_hash_content:
  assumes "Verify h a p = None" "Verify h' b q = None" "e_hash a = e_hash b"
    and "short_entry a" "short_entry b"
  shows "entry_collision a b \<or> (same_content a b \<and> p = q)"
proof -
  have a: "e_prev a = p" "e_psha a = sha256 (e_payload a)" "e_hash a = sha256 (entry_bytes a)"
    using assms(1) by (auto simp: Verify_def computeEntryHash_def split: if_splits)
  have b: "e_prev b = q" "e_psha b = sha256 (e_payload b)" "e_hash b = sha256 (entry_bytes b)"
    using assms(2) by (auto simp: Verify_def computeEntryHash_def split: if_splits)
  show ?thesis
  proof (cases "entry_bytes a = entry_bytes b")
    case True
    then show ?thesis
      using entry_bytes_eq [OF assms(4,5) True] a b eq_or_collides [of sha256 "e_payload a" "e_payload b"]
      by (auto simp: same_content_def entry_collision_def)
  next
    case False
    then show ?thesis
      using a b assms(3) by (simp add: entry_collision_def collides_def)
  qed
qed

section \<open>Walking a chain\<close>

fun chain :: "verifier \<Rightarrow> nat \<Rightarrow> string \<Rightarrow> entry list \<Rightarrow> bool" where
  "chain v i prev [] = True"
| "chain v i prev (e # es) =
     (e_seq e = of_nat (i + 1) \<and>
      (case v (e_kid e) of None \<Rightarrow> False | Some h \<Rightarrow> Verify h e prev = None) \<and>
      chain v (i + 1) (e_hash e) es)"

definition last_hash :: "string \<Rightarrow> entry list \<Rightarrow> string" where
  "last_hash p es = (if es = [] then p else e_hash (last es))"

lemma last_hash_simps [simp]:
  "last_hash p [] = p" "last_hash p (e # es) = last_hash (e_hash e) es"
  "last_hash p (es @ [e]) = e_hash e"
  by (auto simp: last_hash_def)

lemma chain_append:
  "chain v i p (es @ fs) \<longleftrightarrow> chain v i p es \<and> chain v (i + length es) (last_hash p es) fs"
  by (induction es arbitrary: i p) auto

lemma walk_loop_chain:
  assumes "\<And>i. ctx i = None"
  shows "(rp_error r = None \<and> chain v i p es \<longrightarrow>
           rp_error (walk_loop v ctx i p es r) = None
           \<and> rp_ok (walk_loop v ctx i p es r) = rp_ok r + length es
           \<and> (es \<noteq> [] \<longrightarrow> rp_head_hash (walk_loop v ctx i p es r) = e_hash (last es)
                \<and> rp_head_seq (walk_loop v ctx i p es r) = e_seq (last es)))
       \<and> (rp_error (walk_loop v ctx i p es r) = None \<longrightarrow> chain v i p es)"
proof (induction es arbitrary: i p r)
  case (Cons e es)
  show ?case
    using Cons.IH [of "r\<lparr>rp_ok := rp_ok r + 1, rp_head_seq := e_seq e, rp_head_hash := e_hash e,
        rp_head_kid := e_kid e\<rparr>" "i + 1" "e_hash e"] assms
    by (auto split: option.splits if_splits)
qed simp

lemma Walk_chain:
  assumes "\<And>i. ctx i = None"
  shows "rp_error (Walk v ctx es) = None \<longleftrightarrow> chain v 0 zero32 es"
    and "chain v 0 zero32 es \<Longrightarrow> rp_ok (Walk v ctx es) = length es"
    and "chain v 0 zero32 es \<Longrightarrow> es \<noteq> [] \<Longrightarrow>
      (rp_head_seq (Walk v ctx es), rp_head_hash (Walk v ctx es)) = (e_seq (last es), e_hash (last es))"
  using walk_loop_chain [OF assms, of "empty_report (length es)" v 0 zero32 es]
  by (auto simp: Walk_def empty_report_def)

lemma chain_lengths:
  "chain v i p es \<Longrightarrow> length p = 32 \<Longrightarrow> e \<in> set es \<Longrightarrow>
   length (e_prev e) = 32 \<and> length (e_psha e) = 32 \<and> length (e_hash e) = 32"
proof (induction v i p es rule: chain.induct)
  case (2 v i prev f es)
  then have "length (e_prev f) = 32 \<and> length (e_psha f) = 32 \<and> length (e_hash f) = 32"
    by (auto simp: Verify_def computeEntryHash_def split: option.splits if_splits)
  then show ?case
    using 2 by auto
qed simp

text \<open>Two chains with one head are one chain, from the head backwards.\<close>

lemma chains_equal:
  assumes "length es = length fs"
  shows "chain v 0 zero32 es \<Longrightarrow> chain v' 0 zero32 fs \<Longrightarrow>
    \<forall>e\<in>set es \<union> set fs. short_entry e \<Longrightarrow> last_hash zero32 es = last_hash zero32 fs \<Longrightarrow>
    (\<exists>(a, b)\<in>set (zip es fs). entry_collision a b) \<or> list_all2 same_content es fs"
  using assms
proof (induction es fs rule: rev_induct2)
  case (4 a as b bs)
  have ca: "chain v 0 zero32 as" "case v (e_kid a) of None \<Rightarrow> False
      | Some h \<Rightarrow> Verify h a (last_hash zero32 as) = None"
    and cb: "chain v' 0 zero32 bs" "case v' (e_kid b) of None \<Rightarrow> False
      | Some h \<Rightarrow> Verify h b (last_hash zero32 bs) = None"
    using 4 by (simp_all add: chain_append)
  then obtain h h' where "Verify h a (last_hash zero32 as) = None" "Verify h' b (last_hash zero32 bs) = None"
    by (auto split: option.splits)
  then have "entry_collision a b \<or> (same_content a b \<and> last_hash zero32 as = last_hash zero32 bs)"
    using 4 by (intro equal_hash_content) auto
  then show ?case
    using 4 ca cb by (fastforce simp: list_all2_appendI)
qed auto

section \<open>The recorder over a backend\<close>

text \<open>
  What the recorder relies on: a backend that accepts an entry appends it to its ledger,
  one that refuses it keeps its ledger, and the head is that of the last entry.
\<close>

locale audit_backend =
  fixes store :: "entry \<Rightarrow> 'b \<Rightarrow> 'b err"
    and head :: "'b \<Rightarrow> (uint64 \<times> string) err"
    and ledger :: "'b \<Rightarrow> entry list"
  assumes append_ledger: "store e b = Inr b' \<Longrightarrow> ledger b' = ledger b @ [e]"
    and head_ledger: "head b = Inr (n, x) \<Longrightarrow>
      (n, x) = (if ledger b = [] then (0, zero32) else (e_seq (last (ledger b)), e_hash (last (ledger b))))"
begin

text \<open>The recorder r is at the end of a chain stored in b.\<close>

definition linked :: "verifier \<Rightarrow> recorder \<Rightarrow> 'b \<Rightarrow> bool" where
  "linked v r b \<longleftrightarrow> chain v 0 zero32 (ledger b)
     \<and> rec_seq r = of_nat (length (ledger b)) \<and> rec_hash r = last_hash zero32 (ledger b)
     \<and> v (h_kid (rec_hasher r)) = Some (rec_hasher r)"

lemma chain_last_seq:
  "chain v i p es \<Longrightarrow> es \<noteq> [] \<Longrightarrow> e_seq (last es) = of_nat (i + length es)"
  by (induction v i p es rule: chain.induct) (auto split: if_splits)

lemma linked_new:
  assumes "chain v 0 zero32 (ledger b)" "v (h_kid h) = Some h" "NewRecorder head h b = Inr r"
  shows "linked v r b"
proof -
  obtain n x where "head b = Inr (n, x)" "r = \<lparr>rec_hasher = h, rec_seq = n, rec_hash = x\<rparr>"
    using assms(3) by (auto simp: NewRecorder_def split: sum.splits)
  then show ?thesis
    using assms head_ledger [of b n x] chain_last_seq [OF assms(1)]
    by (auto simp: linked_def last_hash_def split: if_splits)
qed

lemma next_entry_verifies:
  "Verify (rec_hasher r) (next_entry r now e) (rec_hash r) = None
   \<and> e_seq (next_entry r now e) = rec_seq r + 1 \<and> e_kid (next_entry r now e) = h_kid (rec_hasher r)"
  by (simp add: next_entry_def hash_entry_def Verify_def Let_def computeEntryHash_def entry_bytes_def)

lemma linked_append:
  assumes "linked v r b" "Append store now e r b = (res, r', b')"
  shows "linked v r' b' \<and>
    (case res of Inl m \<Rightarrow> b' = b \<and> r' = r | Inr e' \<Rightarrow> ledger b' = ledger b @ [e'])"
proof (cases "store (next_entry r now e) b")
  case (Inl m)
  then show ?thesis using assms by (auto simp: Append_def Let_def)
next
  case (Inr b1)
  let ?e = "next_entry r now e"
  have eqs: "res = Inr ?e" "b' = b1" "r' = r\<lparr>rec_seq := e_seq ?e, rec_hash := e_hash ?e\<rparr>"
    using assms(2) Inr by (auto simp: Append_def Let_def)
  have led: "ledger b1 = ledger b @ [?e]"
    using append_ledger [OF Inr] .
  have "chain v (length (ledger b)) (last_hash zero32 (ledger b)) [?e]"
    using assms(1) next_entry_verifies [of r now e] by (simp add: linked_def add.commute)
  then show ?thesis
    using assms(1) next_entry_verifies [of r now e] led
    by (simp add: eqs linked_def chain_append add.commute)
qed

end

interpretation memory: audit_backend mem_Append mem_Head "\<lambda>b. b"
  by unfold_locales (auto simp: mem_Append_def mem_Head_def Let_def split: if_splits)

section \<open>A life of the ledger\<close>

text \<open>The operator appends entries and restarts with one of its keys.\<close>

datatype audit_event = EvAppend uint64 entry | EvRestart hasher

fun audit_step :: "audit_event \<Rightarrow> recorder \<times> memory_backend \<Rightarrow> recorder \<times> memory_backend" where
  "audit_step (EvAppend now e) (r, b) = snd (Append mem_Append now e r b)"
| "audit_step (EvRestart h) (r, b) =
     (case NewRecorder mem_Head h b of Inl _ \<Rightarrow> (r, b) | Inr r' \<Rightarrow> (r', b))"

definition audit_run :: "hasher \<Rightarrow> audit_event list \<Rightarrow> recorder \<times> memory_backend" where
  "audit_run h evs = fold audit_step evs (\<lparr>rec_hasher = h, rec_seq = 0, rec_hash = zero32\<rparr>, [])"

lemma audit_step_linked:
  assumes "memory.linked v r b" "\<forall>h. ev = EvRestart h \<longrightarrow> v (h_kid h) = Some h"
  shows "memory.linked v (fst (audit_step ev (r, b))) (snd (audit_step ev (r, b)))"
proof (cases ev)
  case (EvAppend now e)
  obtain res r' b' where "Append mem_Append now e r b = (res, r', b')"
    by (metis prod_cases3)
  then show ?thesis
    using memory.linked_append [OF assms(1)] EvAppend by simp
next
  case (EvRestart h)
  have "chain v 0 zero32 b" using assms(1) by (simp add: memory.linked_def)
  then show ?thesis
    using EvRestart assms memory.linked_new [of v b h] by (auto split: sum.splits)
qed

lemma audit_run_linked:
  assumes "v (h_kid h) = Some h" "\<forall>k. EvRestart k \<in> set evs \<longrightarrow> v (h_kid k) = Some k"
  shows "memory.linked v (fst (audit_run h evs)) (snd (audit_run h evs))"
  using assms(2)
proof (induction evs rule: rev_induct)
  case Nil
  then show ?case using assms(1) by (simp add: audit_run_def memory.linked_def)
next
  case (snoc ev evs)
  then have "memory.linked v (fst (audit_run h evs)) (snd (audit_run h evs))" by simp
  from audit_step_linked [OF this, of ev] snoc.prems show ?case
    by (simp add: audit_run_def)
qed

lemma audit_append_ok:
  assumes "memory.linked v r b"
  shows "\<exists>e'. fst (Append mem_Append now e r b) = Inr e'"
  using assms by (simp add: Append_def Let_def mem_Append_def memory.linked_def
      next_entry_def hash_entry_def)

section \<open>Properties\<close>

text \<open>C13: what the recorder writes, the verifier accepts. After any sequence of appends and
  restarts, with any keys the verifier knows, the walk over the ledger finds no
  error, counts every entry, and its head is the recorder's. No append is ever refused, so the
  ledger holds one entry per append.\<close>

theorem recorder_verifies:
  assumes "v (h_kid h) = Some h" "\<forall>k. EvRestart k \<in> set evs \<longrightarrow> v (h_kid k) = Some k"
  shows "let (r, b) = audit_run h evs; rp = Walk v (\<lambda>_. None) (mem_All b) in
     rp_error rp = None \<and> rp_ok rp = length b
     \<and> length b = length (filter (\<lambda>ev. \<exists>now e. ev = EvAppend now e) evs)
     \<and> (b \<noteq> [] \<longrightarrow> Head r = (rp_head_seq rp, rp_head_hash rp))"
proof -
  let ?r = "fst (audit_run h evs)" and ?b = "snd (audit_run h evs)"
  have l: "memory.linked v ?r ?b"
    using audit_run_linked [of v h evs] assms by simp
  then have c: "chain v 0 zero32 ?b" by (simp add: memory.linked_def)
  have len: "length (snd (audit_run h evs)) = length (filter (\<lambda>ev. \<exists>now e. ev = EvAppend now e) evs)"
    using assms(2)
  proof (induction evs rule: rev_induct)
    case Nil
    then show ?case by (simp add: audit_run_def)
  next
    case (snoc ev evs)
    obtain r b where rb: "audit_run h evs = (r, b)" by force
    then have lk: "memory.linked v r b"
      using audit_run_linked [of v h evs] assms(1) snoc.prems rb by simp
    have b: "length b = length (filter (\<lambda>ev. \<exists>now e. ev = EvAppend now e) evs)"
      using snoc rb by simp
    have step: "audit_run h (evs @ [ev]) = audit_step ev (r, b)"
      using rb by (simp add: audit_run_def)
    show ?case
    proof (cases ev)
      case (EvAppend now e)
      obtain res r' b' where ap: "Append mem_Append now e r b = (res, r', b')"
        by (metis prod_cases3)
      then show ?thesis
        using memory.linked_append [OF lk ap] audit_append_ok [OF lk, of now e] EvAppend b step
        by auto
    qed (use b step in \<open>auto split: sum.splits\<close>)
  qed
  show ?thesis
    using Walk_chain [of "\<lambda>_. None" v ?b] c len l memory.chain_last_seq [OF c]
    by (auto simp: split_def Let_def mem_All_def Head_def memory.linked_def last_hash_def)
qed

definition wit_hasher :: hasher where
  "wit_hasher = \<lparr>h_kid = ''k1'', h_key = replicate 32 CHR ''x''\<rparr>"

definition wit_entry :: entry where
  "wit_entry = \<lparr>e_seq = 0, e_ts = 0, e_tenant = ''t'', e_workload = ''w'', e_actor = ''system'',
     e_action = ActionToolCall, e_subject = ''s'', e_payload = ''{}'', e_psha = '''', e_prev = '''',
     e_hash = '''', e_kid = '''', e_sig = ''''\<rparr>"

theorem recorder_verifies_witness:
  "rp_error (Walk [''k1'' \<mapsto> wit_hasher] (\<lambda>_. None)
      (snd (audit_run wit_hasher [EvAppend 5 wit_entry, EvRestart wit_hasher, EvAppend 6 wit_entry]))) = None"
proof -
  have "\<forall>k. EvRestart k \<in> set [EvAppend 5 wit_entry, EvRestart wit_hasher, EvAppend 6 wit_entry] \<longrightarrow>
      [''k1'' \<mapsto> wit_hasher] (h_kid k) = Some k"
    by (simp add: wit_hasher_def)
  then show ?thesis
    using recorder_verifies [of "[''k1'' \<mapsto> wit_hasher]" wit_hasher]
    by (simp add: wit_hasher_def split_def Let_def mem_All_def)
qed

text \<open>The ledger is tamper-evident. If two ledgers of one length both pass the walk and have
  the same head hash, for example the ledger as it was when its head was published and the
  ledger presented later, then they agree entry by entry in every recorded field, or a SHA-256
  collision is among the texts of a pair of entries. (The four texts of an entry are
  shorter than 4 GiB, the range of their length prefix.)\<close>

lemma tamper_evident:
  assumes "rp_error (Walk v (\<lambda>_. None) es) = None" "rp_error (Walk v' (\<lambda>_. None) fs) = None"
    and "length es = length fs"
    and "rp_head_hash (Walk v (\<lambda>_. None) es) = rp_head_hash (Walk v' (\<lambda>_. None) fs)"
    and "\<forall>e\<in>set es \<union> set fs. length (e_tenant e) < 2 ^ 32 \<and> length (e_workload e) < 2 ^ 32
           \<and> length (e_actor e) < 2 ^ 32 \<and> length (e_subject e) < 2 ^ 32"
  shows "list_all2 same_content es fs \<or> (\<exists>(a, b)\<in>set (zip es fs). entry_collision a b)"
proof -
  have c: "chain v 0 zero32 es" "chain v' 0 zero32 fs"
    using assms(1,2) Walk_chain(1) [of "\<lambda>_. None"] by auto
  have "last_hash zero32 es = last_hash zero32 fs"
    using assms(3,4) Walk_chain(3) [of "\<lambda>_. None" v es] Walk_chain(3) [of "\<lambda>_. None" v' fs] c
    by (cases "es = []") (auto simp: last_hash_def)
  moreover have "\<forall>e\<in>set es \<union> set fs. short_entry e"
    using assms(5) chain_lengths c by (fastforce simp: short_entry_def zero32_def)
  ultimately show ?thesis
    using chains_equal [OF assms(3) c] by blast
qed

theorem tamper_evident_witness:
  "list_all2 same_content (snd (audit_run wit_hasher [EvAppend 5 wit_entry]))
     (snd (audit_run wit_hasher [EvAppend 5 wit_entry]))
   \<or> (\<exists>(a, b)\<in>set (zip (snd (audit_run wit_hasher [EvAppend 5 wit_entry]))
        (snd (audit_run wit_hasher [EvAppend 5 wit_entry]))). entry_collision a b)"
proof -
  let ?es = "snd (audit_run wit_hasher [EvAppend 5 wit_entry])"
  have "memory.linked [''k1'' \<mapsto> wit_hasher] (fst (audit_run wit_hasher [EvAppend 5 wit_entry])) ?es"
    by (rule audit_run_linked) (simp_all add: wit_hasher_def)
  then have "rp_error (Walk [''k1'' \<mapsto> wit_hasher] (\<lambda>_. None) ?es) = None"
    using Walk_chain(1) [of "\<lambda>_. None"] by (simp add: memory.linked_def)
  moreover have "\<forall>e\<in>set ?es \<union> set ?es. length (e_tenant e) < 2 ^ 32 \<and> length (e_workload e) < 2 ^ 32
      \<and> length (e_actor e) < 2 ^ 32 \<and> length (e_subject e) < 2 ^ 32"
    by (simp add: audit_run_def Append_def mem_Append_def Let_def next_entry_def hash_entry_def wit_entry_def)
  ultimately show ?thesis
    using tamper_evident [of "[''k1'' \<mapsto> wit_hasher]" ?es "[''k1'' \<mapsto> wit_hasher]" ?es] by simp
qed

text \<open>A checkpoint passes exactly when the ledger has an entry of its sequence number with
  its hash; the counters of the report are exact, and the signature and the key id of
  the checkpoint are not looked at.\<close>

lemma VerifyCheckpoints_counts:
  "let ok = (\<lambda>cp. \<exists>e. map_of (rev (map (\<lambda>e. (e_seq e, e)) es)) (ck_seq cp) = Some e
                       \<and> e_hash e = ck_hash cp);
       r' = VerifyCheckpoints es cps r in
   rp_cp_ok r' = rp_cp_ok r + length (filter ok cps)
   \<and> rp_cp_bad r' = rp_cp_bad r + length (filter (\<lambda>cp. \<not> ok cp) cps)
   \<and> VerifyCheckpoints es (map (\<lambda>cp. cp\<lparr>ck_sig := s, ck_kid := k\<rparr>) cps) r = r'"
proof -
  let ?m = "map_of (rev (map (\<lambda>e. (e_seq e, e)) es))"
  let ?ok = "\<lambda>cp. \<exists>e. ?m (ck_seq cp) = Some e \<and> e_hash e = ck_hash cp"
  have step: "rp_cp_ok (check_checkpoint ?m cp r) = rp_cp_ok r + (if ?ok cp then 1 else 0)"
    "rp_cp_bad (check_checkpoint ?m cp r) = rp_cp_bad r + (if ?ok cp then 0 else 1)"
    "check_checkpoint ?m (cp\<lparr>ck_sig := s, ck_kid := k\<rparr>) r = check_checkpoint ?m cp r" for cp r
    by (auto simp: check_checkpoint_def bad_checkpoint_def Let_def split: option.splits)
  have "rp_cp_ok (fold (check_checkpoint ?m) cps r) = rp_cp_ok r + length (filter ?ok cps)
    \<and> rp_cp_bad (fold (check_checkpoint ?m) cps r) = rp_cp_bad r + length (filter (\<lambda>cp. \<not> ?ok cp) cps)
    \<and> fold (check_checkpoint ?m) (map (\<lambda>cp. cp\<lparr>ck_sig := s, ck_kid := k\<rparr>) cps) r
      = fold (check_checkpoint ?m) cps r" for r
    by (induction cps arbitrary: r) (simp_all add: step)
  then show ?thesis
    by (simp add: VerifyCheckpoints_def Let_def)
qed

end
