(* ===== verification/Json.thy ===== *)
theory Json
  imports GoFloat
begin

text \<open>
  The part of encoding/json (and of unicode/utf8) the program relies on: the strict
  parser of JSON text into values, and the compact encoder of
  values and strings with the escapes of json.Marshal. Numbers are kept as
  written (UseNumber). The nesting limit of the decoder (10000) is not modelled; the fuel
  of the parser is the length of the text, which bounds its recursion.
\<close>

section \<open>UTF-8\<close>

definition cont_byte :: "char \<Rightarrow> bool" where
  "cont_byte c \<longleftrightarrow> 128 \<le> byte c \<and> byte c \<le> 191"

definition between :: "nat \<Rightarrow> nat \<Rightarrow> char \<Rightarrow> bool" where
  "between a b c \<longleftrightarrow> a \<le> byte c \<and> byte c \<le> b"

text \<open>The length of the valid encoding at the head of a text, zero if there is none.\<close>

definition utf8_two :: "char \<Rightarrow> char \<Rightarrow> bool" where
  "utf8_two c d \<longleftrightarrow> between 0xC2 0xDF c \<and> cont_byte d"

definition utf8_three :: "char \<Rightarrow> char \<Rightarrow> char \<Rightarrow> bool" where
  "utf8_three c d e \<longleftrightarrow> between 0xE0 0xEF c \<and> cont_byte e \<and>
     (if byte c = 0xE0 then between 0xA0 0xBF d
      else if byte c = 0xED then between 0x80 0x9F d else cont_byte d)"

definition utf8_four :: "char \<Rightarrow> char \<Rightarrow> char \<Rightarrow> char \<Rightarrow> bool" where
  "utf8_four c d e f \<longleftrightarrow> between 0xF0 0xF4 c \<and> cont_byte e \<and> cont_byte f \<and>
     (if byte c = 0xF0 then between 0x90 0xBF d
      else if byte c = 0xF4 then between 0x80 0x8F d else cont_byte d)"

fun utf8_len :: "string \<Rightarrow> nat" where
  "utf8_len [] = 0"
| "utf8_len [c] = (if byte c < 128 then 1 else 0)"
| "utf8_len [c, d] = (if byte c < 128 then 1 else if utf8_two c d then 2 else 0)"
| "utf8_len [c, d, e] = (if byte c < 128 then 1 else if utf8_two c d then 2
     else if utf8_three c d e then 3 else 0)"
| "utf8_len (c # d # e # f # s) = (if byte c < 128 then 1 else if utf8_two c d then 2
     else if utf8_three c d e then 3 else if utf8_four c d e f then 4 else 0)"

function valid_utf8 :: "string \<Rightarrow> bool" where
  "valid_utf8 s = (if s = [] then True
     else if utf8_len s = 0 then False else valid_utf8 (drop (utf8_len s) s))"
  by pat_completeness auto
termination
  by (relation "measure length") auto

declare valid_utf8.simps [simp del]

lemma valid_utf8_ascii: "(\<And>c. c \<in> set s \<Longrightarrow> byte c < 128) \<Longrightarrow> valid_utf8 s"
proof (induction s)
  case (Cons c s)
  have "utf8_len (c # s) = 1" using Cons.prems [of c] by (cases s rule: utf8_len.cases) simp_all
  then show ?case using Cons by (simp add: valid_utf8.simps [of "c # s"] del: utf8_len.simps)
qed (simp add: valid_utf8.simps)

definition rune_error :: string where
  "rune_error = [CHR 0xEF, CHR 0xBF, CHR 0xBD]"

definition encode_rune :: "nat \<Rightarrow> string" where
  "encode_rune r =
     (if r < 128 then [char_of r]
      else if r < 2048 then [char_of (192 + r div 64), char_of (128 + r mod 64)]
      else if 0xD800 \<le> r \<and> r \<le> 0xDFFF \<or> 0x10FFFF < r then rune_error
      else if r < 65536 then
        [char_of (224 + r div 4096), char_of (128 + r div 64 mod 64), char_of (128 + r mod 64)]
      else [char_of (240 + r div 262144), char_of (128 + r div 4096 mod 64),
            char_of (128 + r div 64 mod 64), char_of (128 + r mod 64)])"

section \<open>Encoding\<close>

datatype json = JNull | JBool bool | JNum string | JStr string
  | JArr "json list" | JObj "(string \<times> json) list"

definition u_escape :: "nat \<Rightarrow> string" where
  "u_escape n = [CHR 0x5C, CHR ''u'', hex_digit (n div 4096 mod 16), hex_digit (n div 256 mod 16),
     hex_digit (n div 16 mod 16), hex_digit (n mod 16)]"

definition escape_ascii :: "char \<Rightarrow> string" where
  "escape_ascii c =
     (if c = CHR 0x22 \<or> c = CHR 0x5C then [CHR 0x5C, c]
      else if c = CHR 0x08 then [CHR 0x5C, CHR ''b'']
      else if c = CHR 0x0C then [CHR 0x5C, CHR ''f'']
      else if c = CHR 0x0A then [CHR 0x5C, CHR ''n'']
      else if c = CHR 0x0D then [CHR 0x5C, CHR ''r'']
      else if c = CHR 0x09 then [CHR 0x5C, CHR ''t'']
      else if byte c < 32 \<or> c = CHR ''<'' \<or> c = CHR ''>'' \<or> c = CHR ''&'' then u_escape (byte c)
      else [c])"

function enc_chars :: "string \<Rightarrow> string" where
  "enc_chars s = (case s of
       [] \<Rightarrow> []
     | c # t \<Rightarrow>
         (if byte c < 128 then escape_ascii c @ enc_chars t
          else if utf8_len s = 0 then u_escape 0xFFFD @ enc_chars t
          else if has_prefix s [CHR 0xE2, CHR 0x80, CHR 0xA8] then u_escape 0x2028 @ enc_chars (drop 3 s)
          else if has_prefix s [CHR 0xE2, CHR 0x80, CHR 0xA9] then u_escape 0x2029 @ enc_chars (drop 3 s)
          else take (utf8_len s) s @ enc_chars (drop (utf8_len s) s)))"
  by pat_completeness auto
termination
  by (relation "measure length") auto

declare enc_chars.simps [simp del]

definition enc_string :: "string \<Rightarrow> string" where
  "enc_string s = [CHR 0x22] @ enc_chars s @ [CHR 0x22]"

fun enc_json :: "json \<Rightarrow> string" where
  "enc_json JNull = ''null''"
| "enc_json (JBool b) = (if b then ''true'' else ''false'')"
| "enc_json (JNum n) = n"
| "enc_json (JStr s) = enc_string s"
| "enc_json (JArr vs) = ''['' @ join '','' (map enc_json vs) @ '']''"
| "enc_json (JObj m) = ''{'' @ join '','' (map (\<lambda>p. enc_string (fst p) @ '':'' @ enc_json (snd p)) m) @ ''}''"

section \<open>Parsing\<close>

definition json_space :: "char \<Rightarrow> bool" where
  "json_space c \<longleftrightarrow> c = CHR '' '' \<or> c = CHR 0x09 \<or> c = CHR 0x0A \<or> c = CHR 0x0D"

definition skip_ws :: "string \<Rightarrow> string" where
  "skip_ws s = dropWhile json_space s"

definition hex_nibble :: "char \<Rightarrow> nat option" where
  "hex_nibble c = (if is_digit c then Some (digit_val c)
     else if 97 \<le> byte c \<and> byte c \<le> 102 then Some (byte c - 87)
     else if 65 \<le> byte c \<and> byte c \<le> 70 then Some (byte c - 55) else None)"

fun hex4 :: "string \<Rightarrow> (nat \<times> string) option" where
  "hex4 (a # b # c # d # s) =
     (case (hex_nibble a, hex_nibble b, hex_nibble c, hex_nibble d) of
        (Some w, Some x, Some y, Some z) \<Rightarrow> Some (4096 * w + 256 * x + 16 * y + z, s)
      | _ \<Rightarrow> None)"
| "hex4 _ = None"

definition simple_escape :: "char \<Rightarrow> char option" where
  "simple_escape c =
     (if c = CHR 0x22 \<or> c = CHR 0x5C \<or> c = CHR ''/'' then Some c
      else if c = CHR ''b'' then Some CHR 0x08
      else if c = CHR ''f'' then Some CHR 0x0C
      else if c = CHR ''n'' then Some CHR 0x0A
      else if c = CHR ''r'' then Some CHR 0x0D
      else if c = CHR ''t'' then Some CHR 0x09 else None)"

text \<open>A unicode escape, after its letter u; a surrogate pair is one rune.\<close>

definition parse_u :: "string \<Rightarrow> (string \<times> string) option" where
  "parse_u s = (case hex4 s of
       None \<Rightarrow> None
     | Some (r, t) \<Rightarrow>
         (if 0xD800 \<le> r \<and> r \<le> 0xDBFF \<and> has_prefix t [CHR 0x5C, CHR ''u''] then
            (case hex4 (drop 2 t) of
               Some (r2, t2) \<Rightarrow>
                 (if 0xDC00 \<le> r2 \<and> r2 \<le> 0xDFFF
                  then Some (encode_rune (65536 + (r - 0xD800) * 1024 + (r2 - 0xDC00)), t2)
                  else Some (rune_error, t))
             | None \<Rightarrow> Some (rune_error, t))
          else Some (encode_rune r, t)))"

fun parse_chars :: "nat \<Rightarrow> string \<Rightarrow> (string \<times> string) option" where
  "parse_chars 0 s = None"
| "parse_chars (Suc n) [] = None"
| "parse_chars (Suc n) (c # s) =
     (if c = CHR 0x22 then Some ([], s)
      else if c = CHR 0x5C then
        (case s of
           [] \<Rightarrow> None
         | d # t \<Rightarrow>
             (if d = CHR ''u'' then
                (case parse_u t of None \<Rightarrow> None
                 | Some (r, u) \<Rightarrow> map_option (\<lambda>(a, b). (r @ a, b)) (parse_chars n u))
              else (case simple_escape d of None \<Rightarrow> None
                 | Some e \<Rightarrow> map_option (\<lambda>(a, b). (e # a, b)) (parse_chars n t))))
      else if byte c < 32 then None
      else if utf8_len (c # s) = 0 then
        map_option (\<lambda>(a, b). (rune_error @ a, b)) (parse_chars n s)
      else map_option (\<lambda>(a, b). (take (utf8_len (c # s)) (c # s) @ a, b))
             (parse_chars n (drop (utf8_len (c # s)) (c # s))))"

definition digits1 :: "string \<Rightarrow> (string \<times> string) option" where
  "digits1 s = (let (a, b) = span_digits s in if a = [] then None else Some (a, b))"

definition parse_int_part :: "string \<Rightarrow> (string \<times> string) option" where
  "parse_int_part s = (case s of
       [] \<Rightarrow> None
     | c # t \<Rightarrow> (if c = CHR ''0'' then Some (''0'', t) else digits1 s))"

definition parse_frac :: "string \<Rightarrow> (string \<times> string) option" where
  "parse_frac s = (case s of
       [] \<Rightarrow> Some ([], [])
     | c # t \<Rightarrow> (if c = CHR ''.'' then map_option (\<lambda>(a, b). (c # a, b)) (digits1 t) else Some ([], s)))"

definition parse_expo :: "string \<Rightarrow> (string \<times> string) option" where
  "parse_expo s = (case s of
       [] \<Rightarrow> Some ([], [])
     | c # t \<Rightarrow>
         (if c = CHR ''e'' \<or> c = CHR ''E'' then
            (case t of
               d # u \<Rightarrow> (if d = CHR ''+'' \<or> d = CHR ''-''
                         then map_option (\<lambda>(a, b). (c # d # a, b)) (digits1 u)
                         else map_option (\<lambda>(a, b). (c # a, b)) (digits1 t))
             | [] \<Rightarrow> None)
          else Some ([], s)))"

definition parse_num :: "string \<Rightarrow> (string \<times> string) option" where
  "parse_num s =
     (let (sg, t) = (if has_prefix s ''-'' then (''-'', tl s) else ([], s)) in
      case parse_int_part t of None \<Rightarrow> None
      | Some (ip, u) \<Rightarrow> (case parse_frac u of None \<Rightarrow> None
        | Some (fp, v) \<Rightarrow> (case parse_expo v of None \<Rightarrow> None
          | Some (ep, w) \<Rightarrow> Some (sg @ ip @ fp @ ep, w))))"

definition parse_key :: "nat \<Rightarrow> string \<Rightarrow> (string \<times> string) option" where
  "parse_key n s = (case skip_ws s of
       [] \<Rightarrow> None
     | c # t \<Rightarrow> (if c \<noteq> CHR 0x22 then None
         else (case parse_chars n t of None \<Rightarrow> None
           | Some (k, u) \<Rightarrow> (case skip_ws u of
                 [] \<Rightarrow> None
               | d # w \<Rightarrow> (if d = CHR '':'' then Some (k, w) else None)))))"

fun parse_value :: "nat \<Rightarrow> string \<Rightarrow> (json \<times> string) option"
  and parse_elems :: "nat \<Rightarrow> string \<Rightarrow> (json list \<times> string) option"
  and parse_members :: "nat \<Rightarrow> string \<Rightarrow> ((string \<times> json) list \<times> string) option" where
  "parse_value 0 s = None"
| "parse_value (Suc n) s0 =
     (let s = skip_ws s0 in
      case s of
        [] \<Rightarrow> None
      | c # t \<Rightarrow>
          (if c = CHR 0x22 then map_option (\<lambda>(a, b). (JStr a, b)) (parse_chars n t)
           else if c = CHR ''{'' then
             (if has_prefix (skip_ws t) ''}'' then Some (JObj [], tl (skip_ws t))
              else map_option (\<lambda>(m, b). (JObj m, b)) (parse_members n t))
           else if c = CHR ''['' then
             (if has_prefix (skip_ws t) '']'' then Some (JArr [], tl (skip_ws t))
              else map_option (\<lambda>(vs, b). (JArr vs, b)) (parse_elems n t))
           else if has_prefix s ''null'' then Some (JNull, drop 4 s)
           else if has_prefix s ''true'' then Some (JBool True, drop 4 s)
           else if has_prefix s ''false'' then Some (JBool False, drop 5 s)
           else map_option (\<lambda>(a, b). (JNum a, b)) (parse_num s)))"
| "parse_elems 0 s = None"
| "parse_elems (Suc n) s =
     (case parse_value n s of
        None \<Rightarrow> None
      | Some (v, t) \<Rightarrow> (case skip_ws t of
            [] \<Rightarrow> None
          | c # u \<Rightarrow>
              (if c = CHR '']'' then Some ([v], u)
               else if c = CHR '','' then map_option (\<lambda>(vs, b). (v # vs, b)) (parse_elems n u)
               else None)))"
| "parse_members 0 s = None"
| "parse_members (Suc n) s =
     (case parse_key n s of
        None \<Rightarrow> None
      | Some (k, t) \<Rightarrow> (case parse_value n t of
            None \<Rightarrow> None
          | Some (v, u) \<Rightarrow> (case skip_ws u of
                [] \<Rightarrow> None
              | c # w \<Rightarrow>
                  (if c = CHR ''}'' then Some ([(k, v)], w)
                   else if c = CHR '','' then map_option (\<lambda>(m, b). ((k, v) # m, b)) (parse_members n w)
                   else None))))"

text \<open>One value and nothing else but white space.\<close>

definition json_fuel :: "string \<Rightarrow> nat" where
  "json_fuel s = 2 * length s + 2"

definition parse_json :: "string \<Rightarrow> json option" where
  "parse_json s = (case parse_value (json_fuel s) s of
       None \<Rightarrow> None
     | Some (v, t) \<Rightarrow> (if skip_ws t = [] then Some v else None))"

section \<open>Struct fields\<close>

text \<open>
  The member of an object that sets a struct field: the last member whose key is the
  field's name up to case; null leaves the field.
\<close>

definition field_matches :: "string \<Rightarrow> string \<times> json \<Rightarrow> bool" where
  "field_matches name p \<longleftrightarrow> equal_fold (fst p) name"

definition known_fields :: "string list \<Rightarrow> (string \<times> json) list \<Rightarrow> bool" where
  "known_fields names m \<longleftrightarrow> list_all (\<lambda>p. list_ex (\<lambda>n. field_matches n p) names) m"

text \<open>The text a string field gets; None is a type error.\<close>

definition string_field :: "string \<Rightarrow> (string \<times> json) list \<Rightarrow> string option" where
  "string_field name m =
     fold (\<lambda>p acc. if field_matches name p
                   then (case (snd p, acc) of (JStr s, Some _) \<Rightarrow> Some s
                         | (JNull, Some a) \<Rightarrow> Some a | _ \<Rightarrow> None)
                   else acc) m (Some '''')"

section \<open>Strings round trip\<close>

lemma utf8_len_bounds: "utf8_len s \<le> length s" "utf8_len s \<le> 4"
  by (cases s rule: utf8_len.cases; simp)+

lemma utf8_len_append: "utf8_len s \<noteq> 0 \<Longrightarrow> utf8_len (s @ t) = utf8_len s"
  by (cases s rule: utf8_len.cases; cases t rule: utf8_len.cases) (auto split: if_splits)

lemma utf8_len_take: "utf8_len (take (utf8_len s) s) = utf8_len s"
  by (cases s rule: utf8_len.cases) simp_all

lemma utf8_len_separator:
  "cont_byte e \<Longrightarrow> utf8_len (CHR 0xE2 # CHR 0x80 # e # r) = 3"
  by (cases r) (simp_all add: utf8_two_def utf8_three_def between_def cont_byte_def)

lemma cont_separators [simp]: "cont_byte CHR 0xA8" "cont_byte CHR 0xA9"
  by (simp_all add: cont_byte_def)

lemma utf8_len_ascii: "byte c < 128 \<Longrightarrow> utf8_len (c # s) = 1"
  by (cases "c # s" rule: utf8_len.cases) simp_all

lemma utf8_len_pos_high: "\<not> byte c < 128 \<Longrightarrow> utf8_len (c # s) \<noteq> 0 \<Longrightarrow> 2 \<le> utf8_len (c # s)"
  by (cases "c # s" rule: utf8_len.cases) (auto split: if_splits)

lemma hex_nibble_digit: "n < 16 \<Longrightarrow> hex_nibble (hex_digit n) = Some n"
  by (auto simp: hex_nibble_def hex_digit_def is_digit_def digit_val_def of_char_of)

lemma hex4_u_escape:
  "n < 65536 \<Longrightarrow> hex4 (drop 2 (u_escape n) @ s) = Some (n, s)"
proof -
  assume n: "n < 65536"
  have d: "n div 16 div 16 = n div 256" "n div 256 div 16 = n div 4096"
    by (simp_all add: div_mult2_eq [symmetric])
  have "4096 * (n div 4096) + 256 * (n div 256 mod 16) + 16 * (n div 16 mod 16) + n mod 16 = n"
    using div_mult_mod_eq [of n 16] div_mult_mod_eq [of "n div 16" 16, unfolded d]
      div_mult_mod_eq [of "n div 256" 16, unfolded d] by linarith
  moreover have "n div 4096 < 16" using n by simp
  ultimately show ?thesis
    by (simp add: u_escape_def hex_nibble_digit)
qed

lemma parse_u_escape:
  assumes "n < 65536" "n < 0xD800 \<or> 0xDBFF < n"
  shows "parse_u (drop 2 (u_escape n) @ s) = Some (encode_rune n, s)"
  unfolding parse_u_def hex4_u_escape [OF assms(1)] using assms by auto

lemma u_escape_split: "u_escape n = CHR 0x5C # CHR ''u'' # drop 2 (u_escape n)"
  by (simp add: u_escape_def)

lemma parse_chars_u:
  assumes "n < 65536" "n < 0xD800 \<or> 0xDBFF < n"
  shows "parse_chars (Suc k) (u_escape n @ s)
    = map_option (\<lambda>(a, b). (encode_rune n @ a, b)) (parse_chars k s)"
  by (subst u_escape_split) (simp add: parse_u_escape [OF assms])

lemma parse_chars_ascii:
  assumes "byte c < 128"
  shows "parse_chars (Suc k) (escape_ascii c @ s)
    = map_option (\<lambda>(a, b). (c # a, b)) (parse_chars k s)"
proof -
  have low: "byte c < 65536" "byte c < 0xD800 \<or> 0xDBFF < byte c"
    using assms by auto
  have rune: "encode_rune (byte c) = [c]"
    using assms by (simp add: encode_rune_def)
  show ?thesis
  proof (cases "c \<in> {CHR 0x22, CHR 0x5C, CHR 0x08, CHR 0x0C, CHR 0x0A, CHR 0x0D, CHR 0x09}")
    case True
    then show ?thesis by (auto simp: escape_ascii_def simple_escape_def)
  next
    case special: False
    show ?thesis
    proof (cases "byte c < 32 \<or> c = CHR ''<'' \<or> c = CHR ''>'' \<or> c = CHR ''&''")
      case True
      then have "escape_ascii c = u_escape (byte c)"
        using special by (auto simp: escape_ascii_def)
      then show ?thesis
        using parse_chars_u [OF low] rune by simp
    next
      case False
      then have "escape_ascii c = [c]"
        using special by (auto simp: escape_ascii_def)
      then show ?thesis
        using special False assms by (simp add: utf8_len_ascii)
    qed
  qed
qed

lemma enc_chars_Nil [simp]: "enc_chars [] = []"
  by (simp add: enc_chars.simps)

lemma enc_chars_high:
  assumes "s = c # u" "\<not> byte c < 128" "utf8_len s \<noteq> 0"
  shows "enc_chars s =
    (if has_prefix s [CHR 0xE2, CHR 0x80, CHR 0xA8] then u_escape 0x2028 @ enc_chars (drop 3 s)
     else if has_prefix s [CHR 0xE2, CHR 0x80, CHR 0xA9] then u_escape 0x2029 @ enc_chars (drop 3 s)
     else take (utf8_len s) s @ enc_chars (drop (utf8_len s) s))"
proof -
  have "enc_chars s = (case s of
       [] \<Rightarrow> []
     | c # t \<Rightarrow>
         (if byte c < 128 then escape_ascii c @ enc_chars t
          else if utf8_len s = 0 then u_escape 0xFFFD @ enc_chars t
          else if has_prefix s [CHR 0xE2, CHR 0x80, CHR 0xA8] then u_escape 0x2028 @ enc_chars (drop 3 s)
          else if has_prefix s [CHR 0xE2, CHR 0x80, CHR 0xA9] then u_escape 0x2029 @ enc_chars (drop 3 s)
          else take (utf8_len s) s @ enc_chars (drop (utf8_len s) s)))"
    by (rule enc_chars.simps)
  then show ?thesis
    using assms(2,3) unfolding assms(1) by (simp only: list.case if_False)
qed

lemma parse_enc_chars:
  "valid_utf8 s \<Longrightarrow> length s < n \<Longrightarrow> parse_chars n (enc_chars s @ CHR 0x22 # t) = Some (s, t)"
proof (induction s arbitrary: n rule: enc_chars.induct)
  case (1 s)
  show ?case
  proof (cases s)
    case Nil
    then show ?thesis using 1(7) by (cases n) auto
  next
    case (Cons c u)
    obtain k where n: "n = Suc k" "length u < k + 1" using 1(7) Cons by (cases n) auto
    let ?l = "utf8_len s"
    have ne: "s \<noteq> []" using Cons by simp
    have l: "?l \<noteq> 0" "valid_utf8 (drop ?l s)"
      using 1(6) ne valid_utf8.simps [of s] by (simp_all split: if_splits)
    show ?thesis
    proof (cases "byte c < 128")
      case True
      then have "?l = 1" using Cons utf8_len_ascii by simp
      then have "valid_utf8 u" using l Cons by simp
      then have IH: "parse_chars k (enc_chars u @ CHR 0x22 # t) = Some (u, t)"
        using 1(1) [OF Cons True] 1(7) n Cons by simp
      show ?thesis
        using True by (simp add: Cons enc_chars.simps [of "c # u"] n parse_chars_ascii IH)
    next
      case False
      then have two: "2 \<le> ?l" using utf8_len_pos_high l(1) Cons by simp
      have short: "length (drop ?l s) < k"
        using two utf8_len_bounds(1) [of s] 1(7) n Cons by simp
      consider (ls) "has_prefix s [CHR 0xE2, CHR 0x80, CHR 0xA8]"
        | (ps) "\<not> has_prefix s [CHR 0xE2, CHR 0x80, CHR 0xA8]" "has_prefix s [CHR 0xE2, CHR 0x80, CHR 0xA9]"
        | (raw) "\<not> has_prefix s [CHR 0xE2, CHR 0x80, CHR 0xA8]" "\<not> has_prefix s [CHR 0xE2, CHR 0x80, CHR 0xA9]"
        by blast
      then show ?thesis
      proof cases
        case ls
        then obtain r where s: "s = [CHR 0xE2, CHR 0x80, CHR 0xA8] @ r"
          by (auto simp: has_prefix_prefix prefix_def)
        have l3: "?l = 3" by (simp add: s utf8_len_separator)
        have IH: "parse_chars k (enc_chars (drop 3 s) @ CHR 0x22 # t) = Some (drop 3 s, t)"
          using 1(3) [OF Cons False l(1) ls] l(2) short l3 by simp
        have enc: "enc_chars s = u_escape 0x2028 @ enc_chars (drop 3 s)"
          unfolding enc_chars_high [OF Cons False l(1)] by (simp only: ls if_True)
        have sep: "(0x2028::nat) < 65536" "(0x2028::nat) < 0xD800 \<or> 0xDBFF < (0x2028::nat)"
          by simp_all
        have rune: "encode_rune 0x2028 = [CHR 0xE2, CHR 0x80, CHR 0xA8]"
          by (simp add: encode_rune_def char_of_eq_iff take_bit_eq_mod)
        show ?thesis
          unfolding n(1) enc append_assoc parse_chars_u [OF sep] IH rune
          by (simp add: s)
      next
        case ps
        then obtain r where s: "s = [CHR 0xE2, CHR 0x80, CHR 0xA9] @ r"
          by (auto simp: has_prefix_prefix prefix_def)
        have l3: "?l = 3" by (simp add: s utf8_len_separator)
        have IH: "parse_chars k (enc_chars (drop 3 s) @ CHR 0x22 # t) = Some (drop 3 s, t)"
          using 1(4) [OF Cons False l(1) ps] l(2) short l3 by simp
        have enc: "enc_chars s = u_escape 0x2029 @ enc_chars (drop 3 s)"
          unfolding enc_chars_high [OF Cons False l(1)] by (simp only: ps if_True if_False)
        have sep: "(0x2029::nat) < 65536" "(0x2029::nat) < 0xD800 \<or> 0xDBFF < (0x2029::nat)"
          by simp_all
        have rune: "encode_rune 0x2029 = [CHR 0xE2, CHR 0x80, CHR 0xA9]"
          by (simp add: encode_rune_def char_of_eq_iff take_bit_eq_mod)
        show ?thesis
          unfolding n(1) enc append_assoc parse_chars_u [OF sep] IH rune
          by (simp add: s)
      next
        case raw
        have IH: "parse_chars k (enc_chars (drop ?l s) @ CHR 0x22 # t) = Some (drop ?l s, t)"
          using 1(5) [OF Cons False l(1) raw] l(2) short by simp
        have enc: "enc_chars s = take ?l s @ enc_chars (drop ?l s)"
          unfolding enc_chars_high [OF Cons False l(1)] by (simp only: raw if_False)
        define w where "w = take ?l s"
        have w: "utf8_len w = ?l" "length w = ?l" "utf8_len (w @ x) = ?l" for x
          using utf8_len_take [of s] utf8_len_append [of w] l(1) utf8_len_bounds(1) [of s]
          by (simp_all add: w_def)
        obtain v where cw: "w = c # v"
          using Cons l(1) by (cases ?l) (simp_all add: w_def)
        have high: "c \<noteq> CHR 0x22" "c \<noteq> CHR 0x5C" "\<not> byte c < 32"
          using False by auto
        have cut: "take ?l (w @ x) = w" "drop ?l (w @ x) = x" for x
          using w(2) by simp_all
        have step: "parse_chars (Suc k) (w @ x) = map_option (\<lambda>(a, b). (w @ a, b)) (parse_chars k x)" for x
          using w(3) [of x] cut [of x] high l(1) unfolding cw append_Cons
          by (simp del: utf8_len.simps)
        show ?thesis
          unfolding n(1) enc append_assoc w_def [symmetric] step IH
          by (simp add: w_def)
      qed
    qed
  qed
qed

lemma length_enc_chars: "length s \<le> length (enc_chars s)"
proof (induction s rule: enc_chars.induct)
  case (1 s)
  show ?case
  proof (cases s)
    case (Cons c u)
    have esc: "1 \<le> length (escape_ascii c)" "length (u_escape n) = 6" for n
      by (auto simp: escape_ascii_def u_escape_def)
    consider (ascii) "byte c < 128" | (bad) "\<not> byte c < 128" "utf8_len s = 0"
      | (high) "\<not> byte c < 128" "utf8_len s \<noteq> 0"
      by blast
    then show ?thesis
    proof cases
      case ascii
      then show ?thesis
        using 1(1) [OF Cons] esc(1) by (simp add: Cons enc_chars.simps [of "c # u"])
    next
      case bad
      then show ?thesis
        using 1(2) [OF Cons] esc(2) Cons by (simp add: enc_chars.simps [of "c # u"] del: utf8_len.simps)
    next
      case high
      have le: "utf8_len s \<le> length s" "utf8_len s \<le> 4"
        by (rule utf8_len_bounds)+
      have IH: "has_prefix s [CHR 0xE2, CHR 0x80, CHR 0xA8] \<Longrightarrow> length s - 3 \<le> length (enc_chars (drop 3 s))"
        "\<not> has_prefix s [CHR 0xE2, CHR 0x80, CHR 0xA8] \<Longrightarrow> has_prefix s [CHR 0xE2, CHR 0x80, CHR 0xA9] \<Longrightarrow>
          length s - 3 \<le> length (enc_chars (drop 3 s))"
        "\<not> has_prefix s [CHR 0xE2, CHR 0x80, CHR 0xA8] \<Longrightarrow> \<not> has_prefix s [CHR 0xE2, CHR 0x80, CHR 0xA9] \<Longrightarrow>
          length s - utf8_len s \<le> length (enc_chars (drop (utf8_len s) s))"
        using 1(3-5) [OF Cons high] by (simp_all del: utf8_len.simps)
      consider (ls) "has_prefix s [CHR 0xE2, CHR 0x80, CHR 0xA8]"
        | (ps) "\<not> has_prefix s [CHR 0xE2, CHR 0x80, CHR 0xA8]" "has_prefix s [CHR 0xE2, CHR 0x80, CHR 0xA9]"
        | (raw) "\<not> has_prefix s [CHR 0xE2, CHR 0x80, CHR 0xA8]" "\<not> has_prefix s [CHR 0xE2, CHR 0x80, CHR 0xA9]"
        by blast
      then show ?thesis
      proof cases
        case ls
        then show ?thesis
          using IH(1) unfolding enc_chars_high [OF Cons high] by (simp add: esc(2))
      next
        case ps
        then show ?thesis
          using IH(2) unfolding enc_chars_high [OF Cons high] by (simp add: esc(2))
      next
        case raw
        then show ?thesis
          using IH(3) le unfolding enc_chars_high [OF Cons high] by (simp del: utf8_len.simps)
      qed
    qed
  qed simp
qed

section \<open>Objects of strings\<close>

lemma skip_ws_quote [simp]: "skip_ws (CHR 0x22 # s) = CHR 0x22 # s"
  by (simp add: skip_ws_def json_space_def)

lemma skip_ws_brace [simp]:
  "skip_ws (CHR ''{'' # s) = CHR ''{'' # s" "skip_ws (CHR ''}'' # s) = CHR ''}'' # s"
  "skip_ws (CHR '','' # s) = CHR '','' # s" "skip_ws (CHR '':'' # s) = CHR '':'' # s"
  by (simp_all add: skip_ws_def json_space_def)

lemma skip_ws_Nil [simp]: "skip_ws [] = []"
  by (simp add: skip_ws_def)

lemma parse_key_enc:
  "valid_utf8 k \<Longrightarrow> length k < n \<Longrightarrow> parse_key n (enc_string k @ CHR '':'' # t) = Some (k, t)"
  by (simp add: parse_key_def enc_string_def parse_enc_chars)

lemma parse_value_string:
  "valid_utf8 v \<Longrightarrow> length v < n \<Longrightarrow> parse_value (Suc n) (enc_string v @ t) = Some (JStr v, t)"
  by (simp add: enc_string_def parse_enc_chars)

definition enc_member :: "string \<times> string \<Rightarrow> string" where
  "enc_member p = enc_string (fst p) @ '':'' @ enc_string (snd p)"

definition utf8_member :: "nat \<Rightarrow> string \<times> string \<Rightarrow> bool" where
  "utf8_member n p \<longleftrightarrow> valid_utf8 (fst p) \<and> valid_utf8 (snd p) \<and> length (fst p) < n \<and> length (snd p) < n"

lemma parse_members_enc:
  "ms \<noteq> [] \<Longrightarrow> list_all (utf8_member n) ms \<Longrightarrow>
   parse_members (n + length ms + 1) (join '','' (map enc_member ms) @ CHR ''}'' # t)
     = Some (map (\<lambda>p. (fst p, JStr (snd p))) ms, t)"
proof (induction ms rule: induct_list012)
  case (2 p)
  have "parse_value (n + 1) (enc_string (snd p) @ CHR ''}'' # t) = Some (JStr (snd p), CHR ''}'' # t)"
    using 2 parse_value_string [of "snd p" n] by (simp add: utf8_member_def)
  then show ?case
    using 2 parse_key_enc [of "fst p" "n + 1"] by (simp add: enc_member_def utf8_member_def)
next
  case (3 p q ms)
  have "parse_value (n + length ms + 2) (enc_string (snd p) @ x) = Some (JStr (snd p), x)" for x
    using 3(4) parse_value_string [of "snd p" "n + length ms + 1"] by (simp add: utf8_member_def)
  moreover have "parse_members (n + length ms + 2) (join '','' (map enc_member (q # ms)) @ CHR ''}'' # t)
    = Some (map (\<lambda>p. (fst p, JStr (snd p))) (q # ms), t)"
    using 3(2,4) by (simp add: ac_simps)
  moreover have "n + length (p # q # ms) + 1 = Suc (n + length ms + 2)"
    by simp
  moreover have "parse_key (n + length ms + 2) (enc_string (fst p) @ CHR '':'' # x) = Some (fst p, x)" for x
    using 3(4) parse_key_enc [of "fst p" "n + length ms + 2"] by (simp add: utf8_member_def)
  ultimately show ?case
    by (simp add: enc_member_def [of p])
qed simp

lemma length_members: "length ms \<le> length (join '','' (map enc_member ms))"
  by (induction ms rule: induct_list012) (auto simp: enc_member_def enc_string_def)

lemma length_enc_members:
  "p \<in> set ms \<Longrightarrow> length (fst p) + length (snd p) + length ms \<le> length (join '','' (map enc_member ms))"
proof (induction ms rule: induct_list012)
  case (2 q)
  then show ?case
    using length_enc_chars [of "fst p"] length_enc_chars [of "snd p"]
    by (simp add: enc_member_def enc_string_def)
next
  case (3 q r ms)
  have long: "5 + length (fst q) + length (snd q) \<le> length (enc_member q)"
    using length_enc_chars [of "fst q"] length_enc_chars [of "snd q"]
    by (simp add: enc_member_def enc_string_def)
  have rest: "length (r # ms) \<le> length (join '','' (map enc_member (r # ms)))"
    using length_members [of "r # ms"] by simp
  then show ?case
    using 3 long by auto
qed simp

lemma parse_json_members:
  assumes "ms \<noteq> []" "list_all (\<lambda>p. valid_utf8 (fst p) \<and> valid_utf8 (snd p)) ms"
  shows "parse_json (''{'' @ join '','' (map enc_member ms) @ ''}'')
    = Some (JObj (map (\<lambda>p. (fst p, JStr (snd p))) ms))"
proof -
  let ?j = "join '','' (map enc_member ms)"
  define n where "n = 2 * length ?j + 4 - length ms"
  have ge: "length ms \<le> length ?j"
    using length_enc_members [of "hd ms" ms] assms(1) by simp
  have "list_all (utf8_member n) ms"
    using assms(2) length_enc_members [of _ ms] ge unfolding n_def utf8_member_def list_all_iff
    by fastforce
  then have "parse_members (n + length ms + 1) (?j @ CHR ''}'' # [])
      = Some (map (\<lambda>p. (fst p, JStr (snd p))) ms, [])"
    using assms(1) by (rule parse_members_enc [rotated])
  moreover have "json_fuel (''{'' @ ?j @ ''}'') = Suc (n + length ms + 1)"
    using ge by (simp add: json_fuel_def n_def)
  moreover have "skip_ws (?j @ ''}'') = ?j @ ''}''" "\<not> has_prefix (?j @ ''}'') ''}''"
  proof -
    obtain p ms' where "ms = p # ms'" using assms(1) by (cases ms) auto
    then obtain z where "?j @ ''}'' = CHR 0x22 # z"
      by (cases ms') (auto simp: enc_member_def enc_string_def)
    then show "skip_ws (?j @ ''}'') = ?j @ ''}''" "\<not> has_prefix (?j @ ''}'') ''}''"
      by (simp_all add: has_prefix_prefix)
  qed
  ultimately show ?thesis
    by (simp add: parse_json_def)
qed

section \<open>No NUL in a JSON text\<close>

text \<open>What a parser consumes holds no NUL byte: a NUL can separate JSON texts.\<close>

definition eats :: "string \<Rightarrow> string \<Rightarrow> bool" where
  "eats s t \<longleftrightarrow> (\<exists>p. s = p @ t \<and> CHR 0x00 \<notin> set p)"

named_theorems eats_rules "what the parsers consume"

lemma eats_refl [simp]: "eats s s"
  by (simp add: eats_def)

lemma eats_trans: "eats s t \<Longrightarrow> eats t u \<Longrightarrow> eats s u"
  by (fastforce simp: eats_def)

lemma eats_Cons: "c \<noteq> CHR 0x00 \<Longrightarrow> eats s t \<Longrightarrow> eats (c # s) t"
  by (fastforce simp: eats_def Cons_eq_append_conv)

lemma eats_prefix: "has_prefix s p \<Longrightarrow> CHR 0x00 \<notin> set p \<Longrightarrow> eats s (drop (length p) s)"
  by (auto simp: eats_def has_prefix_prefix prefix_def)

lemma eats_skip_ws: "eats s (skip_ws s)"
proof -
  have "\<not> json_space CHR 0x00" by (simp add: json_space_def)
  then have "CHR 0x00 \<notin> set (takeWhile json_space s)"
    using set_takeWhileD by fastforce
  moreover have "s = takeWhile json_space s @ skip_ws s"
    by (simp add: skip_ws_def)
  ultimately show ?thesis unfolding eats_def by blast
qed

lemma eats_skip: "eats s t \<Longrightarrow> eats s (skip_ws t)"
  using eats_trans eats_skip_ws by blast

lemma eats_skip_Cons: "skip_ws s = c # t \<Longrightarrow> c \<noteq> CHR 0x00 \<Longrightarrow> eats s t"
  by (metis eats_Cons eats_refl eats_skip_ws eats_trans)

lemma hex_nibble_nul: "hex_nibble c = Some n \<Longrightarrow> c \<noteq> CHR 0x00"
  by (auto simp: hex_nibble_def is_digit_def)

lemma hex4_eats: "hex4 s = Some (n, t) \<Longrightarrow> eats s t"
  by (cases s rule: hex4.cases) (auto split: option.splits intro!: eats_Cons dest: hex_nibble_nul)

lemma parse_u_eats: "parse_u s = Some (r, t) \<Longrightarrow> eats s t"
proof -
  assume p: "parse_u s = Some (r, t)"
  then obtain n u where h: "hex4 s = Some (n, u)"
    by (auto simp: parse_u_def split: option.splits)
  note su = hex4_eats [OF h]
  show ?thesis
  proof (cases "has_prefix u [CHR 0x5C, CHR ''u'']")
    case True
    have "eats u (drop 2 u)" using eats_prefix [OF True] by (simp add: numeral_2_eq_2)
    moreover have "eats (drop 2 u) t \<or> t = u"
      using p h True by (auto simp: parse_u_def split: option.splits if_splits dest: hex4_eats)
    ultimately show ?thesis using su eats_trans by blast
  next
    case False
    then show ?thesis using p h su by (simp add: parse_u_def)
  qed
qed

lemma utf8_take_nul:
  assumes "\<not> byte c < 32"
  shows "CHR 0x00 \<notin> set (take (utf8_len (c # s)) (c # s))"
proof -
  have "c \<noteq> CHR 0x00" using assms by auto
  then show ?thesis
    by (cases "c # s" rule: utf8_len.cases)
       (auto simp: utf8_two_def utf8_three_def utf8_four_def between_def cont_byte_def split: if_splits)
qed

lemma parse_chars_eats: "parse_chars n s = Some (r, t) \<Longrightarrow> eats s t"
proof (induction n s arbitrary: r rule: parse_chars.induct)
  case (3 n c s)
  consider (quote) "c = CHR 0x22" | (esc) "c = CHR 0x5C" | (ctl) "c \<noteq> CHR 0x22" "c \<noteq> CHR 0x5C" "byte c < 32"
    | (bad) "c \<noteq> CHR 0x22" "c \<noteq> CHR 0x5C" "\<not> byte c < 32" "utf8_len (c # s) = 0"
    | (raw) "c \<noteq> CHR 0x22" "c \<noteq> CHR 0x5C" "\<not> byte c < 32" "utf8_len (c # s) \<noteq> 0"
    by blast
  then show ?case
  proof cases
    case quote
    then show ?thesis using 3(5) by (auto intro: eats_Cons)
  next
    case esc
    then obtain d u where s: "s = d # u" using 3(5) by (cases s) auto
    show ?thesis
    proof (cases "d = CHR ''u''")
      case True
      obtain q v where u: "parse_u u = Some (q, v)"
        using 3(5) esc s True by (auto split: option.splits)
      then obtain a where "parse_chars n v = Some (a, t)"
        using 3(5) esc s True by auto
      then have "eats v t" using 3(1) esc s True u by simp
      then show ?thesis
        using parse_u_eats [OF u] esc s True by (auto intro!: eats_Cons intro: eats_trans)
    next
      case False
      obtain e where e: "simple_escape d = Some e"
        using 3(5) esc s False by (auto split: option.splits)
      then obtain a where "parse_chars n u = Some (a, t)"
        using 3(5) esc s False by auto
      then have "eats u t" using 3(2) esc s False e by simp
      moreover have "d \<noteq> CHR 0x00" using e by (auto simp: simple_escape_def)
      ultimately show ?thesis using esc s by (auto intro!: eats_Cons)
    qed
  next
    case ctl
    then show ?thesis using 3(5) by simp
  next
    case bad
    then obtain a where "parse_chars n s = Some (a, t)" using 3(5) by (auto simp del: utf8_len.simps)
    moreover have "c \<noteq> CHR 0x00" using bad by auto
    ultimately show ?thesis using 3(3) bad by (auto simp del: utf8_len.simps intro: eats_Cons)
  next
    case raw
    then obtain a where "parse_chars n (drop (utf8_len (c # s)) (c # s)) = Some (a, t)"
      using 3(5) by (auto simp del: utf8_len.simps)
    then have "eats (drop (utf8_len (c # s)) (c # s)) t"
      using 3(4) raw by (auto simp del: utf8_len.simps)
    moreover have "eats (c # s) (drop (utf8_len (c # s)) (c # s))"
      using utf8_take_nul [OF raw(3), of s] unfolding eats_def by (metis append_take_drop_id)
    ultimately show ?thesis using eats_trans by blast
  qed
qed simp_all

lemma span_digits_eats: "span_digits s = (a, t) \<Longrightarrow> eats s t"
  by (induction s arbitrary: a) (auto simp: is_digit_def split: if_splits prod.splits intro!: eats_Cons)

lemma digits1_eats: "digits1 s = Some (a, t) \<Longrightarrow> eats s t"
  by (auto simp: digits1_def split: if_splits prod.splits intro: span_digits_eats)

lemma sign_digits_eats:
  assumes "digits1 s = Some (a, t)" "c \<noteq> CHR 0x00"
  shows "eats (c # s) t" "d \<noteq> CHR 0x00 \<Longrightarrow> eats (c # d # s) t"
  using digits1_eats [OF assms(1)] assms(2) by (simp_all add: eats_Cons)

lemma parse_num_eats: "parse_num s = Some (a, t) \<Longrightarrow> eats s t"
proof -
  assume p: "parse_num s = Some (a, t)"
  define u where "u = (if has_prefix s ''-'' then tl s else s)"
  have su: "eats s u"
    by (cases s) (auto simp: u_def has_prefix_def intro: eats_Cons)
  obtain ip v where ip: "parse_int_part u = Some (ip, v)"
    using p by (auto simp: parse_num_def u_def split: option.splits if_splits)
  obtain fp w where fp: "parse_frac v = Some (fp, w)"
    using p ip by (auto simp: parse_num_def u_def split: option.splits if_splits)
  obtain ep where ep: "parse_expo w = Some (ep, t)"
    using p ip fp by (auto simp: parse_num_def u_def split: option.splits if_splits)
  have "eats u v"
    using ip by (auto simp: parse_int_part_def split: list.splits if_splits intro: eats_Cons digits1_eats)
  moreover have "eats v w"
    using fp by (auto simp: parse_frac_def split: list.splits if_splits intro: sign_digits_eats)
  moreover have "eats w t"
    using ep by (auto simp: parse_expo_def split: list.splits if_splits intro: sign_digits_eats)
  ultimately show ?thesis using su eats_trans by blast
qed

lemma parse_key_eats: "parse_key n s = Some (k, t) \<Longrightarrow> eats s t"
proof -
  assume p: "parse_key n s = Some (k, t)"
  then obtain u v w where "skip_ws s = CHR 0x22 # u" "parse_chars n u = Some (k, v)"
      "skip_ws v = CHR '':'' # t"
    by (auto simp: parse_key_def split: list.splits if_splits option.splits)
  moreover have "eats s u" by (rule eats_skip_Cons) (use calculation in auto)
  moreover have "eats v t" by (rule eats_skip_Cons) (use calculation in auto)
  ultimately show ?thesis using parse_chars_eats eats_trans by blast
qed

lemma eats_word:
  "skip_ws s = w \<Longrightarrow> has_prefix w p \<Longrightarrow> CHR 0x00 \<notin> set p \<Longrightarrow> eats s (drop (length p) w)"
  using eats_prefix eats_skip_ws eats_trans by blast

lemma parse_value_eats:
  "parse_value n s = Some (v, t) \<Longrightarrow> eats s t"
  "parse_elems n s = Some (vs, t) \<Longrightarrow> eats s t"
  "parse_members n s = Some (m, t) \<Longrightarrow> eats s t"
proof (induction n s and n s and n s arbitrary: v t and vs t and m t
    rule: parse_value_parse_elems_parse_members.induct)
  case (2 n s0)
  obtain c u where w: "skip_ws s0 = c # u"
    using 2(3) by (cases "skip_ws s0") auto
  have head: "c \<noteq> CHR 0x00 \<Longrightarrow> eats s0 u" using eats_skip_Cons [OF w] .
  consider (str) "c = CHR 0x22" | (obj) "c = CHR ''{''" | (arr) "c = CHR ''[''"
    | (rest) "c \<noteq> CHR 0x22" "c \<noteq> CHR ''{''" "c \<noteq> CHR ''[''"
    by blast
  then show ?case
  proof cases
    case str
    then show ?thesis using 2(3) w head by (auto dest!: parse_chars_eats intro: eats_trans)
  next
    case obj
    show ?thesis
    proof (cases "has_prefix (skip_ws u) ''}''")
      case True
      then have "eats u (drop 1 (skip_ws u))" using eats_word [OF refl True] by simp
      then show ?thesis using 2(3) w head obj True by (auto simp: drop_Suc intro: eats_trans)
    next
      case False
      then obtain m where "parse_members n u = Some (m, t)" using 2(3) w obj by auto
      then have "eats u t" using 2(1) w obj False by simp
      then show ?thesis using head obj by (auto intro: eats_trans)
    qed
  next
    case arr
    show ?thesis
    proof (cases "has_prefix (skip_ws u) '']''")
      case True
      then have "eats u (drop 1 (skip_ws u))" using eats_word [OF refl True] by simp
      then show ?thesis using 2(3) w head arr True by (auto simp: drop_Suc intro: eats_trans)
    next
      case False
      then obtain vs where "parse_elems n u = Some (vs, t)" using 2(3) w arr by auto
      then have "eats u t" using 2(2) w arr False by simp
      then show ?thesis using head arr by (auto intro: eats_trans)
    qed
  next
    case rest
    have words: "has_prefix (c # u) ''null'' \<Longrightarrow> eats s0 (drop 4 (c # u))"
      "has_prefix (c # u) ''true'' \<Longrightarrow> eats s0 (drop 4 (c # u))"
      "has_prefix (c # u) ''false'' \<Longrightarrow> eats s0 (drop 5 (c # u))"
      using eats_word [OF w, of "''null''"] eats_word [OF w, of "''true''"] eats_word [OF w, of "''false''"]
      by (simp_all add: eval_nat_numeral)
    have num: "parse_num (c # u) = Some (a, t) \<Longrightarrow> eats s0 t" for a
      using parse_num_eats eats_skip_ws [of s0] eats_trans w by metis
    show ?thesis
      using 2(3) w rest words num by (auto simp: Let_def split: if_splits)
  qed
next
  case (4 n s)
  obtain v u where v: "parse_value n s = Some (v, u)"
    using 4(3) by (auto split: option.splits)
  obtain c w where w: "skip_ws u = c # w" using 4(3) v by (auto split: list.splits)
  have "eats s u" using 4(1) v .
  moreover have "eats u w" by (rule eats_skip_Cons [OF w]) (use 4(3) v w in \<open>auto split: if_splits\<close>)
  moreover have "eats w t"
    using 4(2) [OF v _ w] 4(3) v w by (auto split: if_splits)
  ultimately show ?case using eats_trans by blast
next
  case (6 n s)
  obtain k u where k: "parse_key n s = Some (k, u)"
    using 6(3) by (auto split: option.splits)
  obtain v u' where v: "parse_value n u = Some (v, u')"
    using 6(3) k by (auto split: option.splits)
  obtain c w where w: "skip_ws u' = c # w" using 6(3) v k by (auto split: list.splits)
  have "eats s u" using parse_key_eats k .
  moreover have "eats u u'" using 6(1) [OF k refl] v .
  moreover have "eats u' w" by (rule eats_skip_Cons [OF w]) (use 6(3) v w k in \<open>auto split: if_splits\<close>)
  moreover have "eats w t"
    using 6(2) [OF k refl v] 6(3) v w k by (auto split: if_splits)
  ultimately show ?case using eats_trans by blast
qed simp_all

lemma parse_json_nul: "parse_json s = Some v \<Longrightarrow> CHR 0x00 \<notin> set s"
proof -
  assume "parse_json s = Some v"
  then obtain t where "parse_value (json_fuel s) s = Some (v, t)" "skip_ws t = []"
    by (auto simp: parse_json_def split: option.splits if_splits)
  then have "eats s []"
    using parse_value_eats(1) eats_skip by metis
  then show ?thesis by (auto simp: eats_def)
qed

section \<open>Round trip\<close>

definition delimited :: "string \<Rightarrow> bool" where
  "delimited t = (case t of [] \<Rightarrow> True | c # _ \<Rightarrow> c \<in> set [CHR '','', CHR '']'', CHR ''}'', CHR 0x0A])"

lemma delimited_num:
  assumes "delimited t"
  shows "span_digits t = ([], t)" "parse_frac t = Some ([], t)" "parse_expo t = Some ([], t)"
  using assms by (auto simp: delimited_def parse_frac_def parse_expo_def is_digit_def split: list.splits)

text \<open>A number as the decoder reads it back whole before a delimiter.\<close>

definition number_text :: "string \<Rightarrow> bool" where
  "number_text n \<longleftrightarrow> n \<noteq> [] \<and> (hd n = CHR ''-'' \<or> is_digit (hd n)) \<and>
     (\<forall>t. delimited t \<longrightarrow> parse_num (n @ t) = Some (n, t))"

fun wf_json :: "json \<Rightarrow> bool" where
  "wf_json JNull = True"
| "wf_json (JBool b) = True"
| "wf_json (JNum n) = number_text n"
| "wf_json (JStr s) = valid_utf8 s"
| "wf_json (JArr vs) = list_all wf_json vs"
| "wf_json (JObj m) = list_all (\<lambda>p. valid_utf8 (fst p) \<and> wf_json (snd p)) m"

definition reads_back :: "json \<Rightarrow> bool" where
  "reads_back v \<longleftrightarrow> (\<forall>n t. 2 * length (enc_json v) \<le> n \<longrightarrow> delimited t \<longrightarrow>
     parse_value n (enc_json v @ t) = Some (v, t))"

lemma skip_ws_close [simp]: "skip_ws (CHR '']'' # s) = CHR '']'' # s" "skip_ws (CHR ''['' # s) = CHR ''['' # s"
  by (simp_all add: skip_ws_def json_space_def)

lemma skip_ws_nospace: "\<not> json_space c \<Longrightarrow> skip_ws (c # s) = c # s"
  by (simp add: skip_ws_def)

lemma json_kw_space [simp]:
  "skip_ws (CHR ''n'' # s) = CHR ''n'' # s" "skip_ws (CHR ''t'' # s) = CHR ''t'' # s"
  "skip_ws (CHR ''f'' # s) = CHR ''f'' # s"
  by (simp_all add: skip_ws_def json_space_def)

lemma enc_json_ne: "reads_back v \<Longrightarrow> wf_json v \<Longrightarrow> enc_json v \<noteq> []"
  by (cases v) (auto simp: enc_string_def number_text_def)

text \<open>What starts a value neither closes a list nor an object, and is no space.\<close>

lemma enc_json_head:
  assumes "wf_json v"
  shows "\<exists>c s. enc_json v = c # s \<and> c \<noteq> CHR '']'' \<and> c \<noteq> CHR ''}'' \<and> \<not> json_space c"
proof (cases v)
  case (JNum n)
  then obtain c s where "n = c # s" "c = CHR ''-'' \<or> is_digit c"
    using assms by (cases n) (auto simp: number_text_def)
  then show ?thesis using JNum by (auto simp: is_digit_def json_space_def)
qed (auto simp: enc_string_def json_space_def)

lemma join_cons: "join sep (x # xs) = x @ (if xs = [] then [] else sep @ join sep xs)"
  by (cases xs) simp_all

lemma parse_elems_enc:
  "vs \<noteq> [] \<Longrightarrow> list_all reads_back vs \<Longrightarrow> list_all wf_json vs \<Longrightarrow>
   2 * length (join '','' (map enc_json vs)) + 1 \<le> n \<Longrightarrow>
   parse_elems n (join '','' (map enc_json vs) @ CHR '']'' # t) = Some (vs, t)"
proof (induction vs arbitrary: n)
  case (Cons v vs)
  obtain k where n: "n = Suc k" using Cons(5) by (cases n) simp_all
  have v: "reads_back v" using Cons(3) by simp
  show ?case
  proof (cases "vs = []")
    case True
    have "parse_value k (enc_json v @ CHR '']'' # t) = Some (v, CHR '']'' # t)"
      using v Cons(5) n True by (simp add: reads_back_def delimited_def)
    then show ?thesis using n True by simp
  next
    case False
    let ?r = "join '','' (map enc_json vs) @ CHR '']'' # t"
    have "parse_value k (enc_json v @ CHR '','' # ?r) = Some (v, CHR '','' # ?r)"
      using v Cons(5) n False by (simp add: reads_back_def delimited_def join_cons)
    moreover have "parse_elems k ?r = Some (vs, t)"
      using Cons(1) [OF False] Cons(3-5) n False by (simp add: join_cons)
    ultimately show ?thesis using n False by (simp add: join_cons)
  qed
qed simp

definition enc_pair :: "string \<times> json \<Rightarrow> string" where
  "enc_pair p = enc_string (fst p) @ '':'' @ enc_json (snd p)"

lemma enc_json_obj: "enc_json (JObj m) = ''{'' @ join '','' (map enc_pair m) @ ''}''"
  by (simp add: enc_pair_def [abs_def])

lemma parse_pairs_enc:
  "m \<noteq> [] \<Longrightarrow> list_all (\<lambda>p. reads_back (snd p)) m \<Longrightarrow> list_all (\<lambda>p. valid_utf8 (fst p)) m \<Longrightarrow>
   2 * length (join '','' (map enc_pair m)) + 1 \<le> n \<Longrightarrow>
   parse_members n (join '','' (map enc_pair m) @ CHR ''}'' # t) = Some (m, t)"
proof (induction m arbitrary: n)
  case (Cons p m)
  obtain k where n: "n = Suc k" using Cons(5) by (cases n) simp_all
  have p: "reads_back (snd p)" "valid_utf8 (fst p)" using Cons(3,4) by simp_all
  have len: "length (fst p) < k" "2 * length (enc_json (snd p)) \<le> k"
    using Cons(5) n length_enc_chars [of "fst p"] by (auto simp: join_cons enc_pair_def enc_string_def)
  have key: "parse_key k (enc_string (fst p) @ CHR '':'' # x) = Some (fst p, x)" for x
    using parse_key_enc p len by blast
  show ?case
  proof (cases "m = []")
    case True
    have "parse_value k (enc_json (snd p) @ CHR ''}'' # t) = Some (snd p, CHR ''}'' # t)"
      using p len by (simp add: reads_back_def delimited_def)
    then show ?thesis using n True key by (simp add: enc_pair_def)
  next
    case False
    let ?r = "join '','' (map enc_pair m) @ CHR ''}'' # t"
    have "parse_value k (enc_json (snd p) @ CHR '','' # ?r) = Some (snd p, CHR '','' # ?r)"
      using p len by (simp add: reads_back_def delimited_def)
    moreover have "parse_members k ?r = Some (m, t)"
      using Cons(1) [OF False] Cons(3-5) n False by (simp add: join_cons)
    ultimately show ?thesis using n False key by (simp add: join_cons enc_pair_def [of p])
  qed
qed simp

lemma reads_back_Suc:
  assumes "\<And>k t. parse_value (Suc k) (enc_json v @ t) = Some (v, t)" "enc_json v \<noteq> []"
  shows "reads_back v"
  unfolding reads_back_def
proof (intro allI impI)
  fix n t
  assume "2 * length (enc_json v) \<le> n"
  then obtain k where "n = Suc k" using assms(2) by (cases n) auto
  then show "parse_value n (enc_json v @ t) = Some (v, t)" using assms(1) by simp
qed

lemma reads_backD:
  "reads_back v \<Longrightarrow> 2 * length (enc_json v) \<le> n \<Longrightarrow> delimited t \<Longrightarrow> parse_value n (enc_json v @ t) = Some (v, t)"
  by (simp only: reads_back_def)

lemma wf_reads_back: "wf_json v \<Longrightarrow> reads_back v"
proof (induction v)
  case JNull
  have "parse_value (Suc k) (enc_json JNull @ t) = Some (JNull, t)" for k t
    by (simp add: has_prefix_def)
  then show ?case by (rule reads_back_Suc) simp
next
  case (JBool b)
  have "parse_value (Suc k) (enc_json (JBool b) @ t) = Some (JBool b, t)" for k t
    by (cases b) (simp_all add: has_prefix_def)
  then show ?case by (rule reads_back_Suc) simp
next
  case (JNum x)
  then obtain c s where x: "x = c # s" "c = CHR ''-'' \<or> is_digit c"
    by (cases x) (auto simp: number_text_def)
  have c: "\<not> json_space c" "c \<noteq> CHR 0x22" "c \<noteq> CHR ''{''" "c \<noteq> CHR ''[''" "c \<noteq> CHR ''n''"
    "c \<noteq> CHR ''t''" "c \<noteq> CHR ''f''"
    using x(2) by (auto simp: json_space_def is_digit_def)
  have "parse_value (Suc k) (x @ t) = Some (JNum x, t)" if "delimited t" for k t
    using JNum that c x(1) by (simp add: number_text_def skip_ws_def has_prefix_def)
  moreover have "n = Suc (n - 1)" if "2 * length x \<le> n" for n using that x(1) by simp
  ultimately show ?case unfolding reads_back_def by (metis enc_json.simps(3))
next
  case (JStr s)
  have "parse_value (Suc (n - 1)) (enc_string s @ t) = Some (JStr s, t)" "n = Suc (n - 1)"
    if "2 * length (enc_string s) \<le> n" for n t
    using parse_value_string [of s "n - 1" t] JStr that length_enc_chars [of s]
    by (simp_all add: enc_string_def)
  then show ?case unfolding reads_back_def by (metis enc_json.simps(4))
next
  case (JArr vs)
  then have all: "list_all reads_back vs" "list_all wf_json vs" by (auto simp: list_all_iff)
  let ?j = "join '','' (map enc_json vs)"
  show ?case
    unfolding reads_back_def
  proof (intro allI impI)
    fix n t
    assume n: "2 * length (enc_json (JArr vs)) \<le> n"
    then obtain k where k: "n = Suc k" by (cases n) simp_all
    show "parse_value n (enc_json (JArr vs) @ t) = Some (JArr vs, t)"
    proof (cases "vs = []")
      case True
      then show ?thesis using k by (simp add: has_prefix_def)
    next
      case False
      then obtain c s where "?j = c # s" "c \<noteq> CHR '']''" "\<not> json_space c"
        using enc_json_head [of "hd vs"] all(2) by (cases vs) (auto simp: join_cons)
      moreover have "parse_elems k (?j @ CHR '']'' # t) = Some (vs, t)"
        using parse_elems_enc [OF False all, of k t] n k by simp
      ultimately show ?thesis using k by (simp add: has_prefix_def skip_ws_nospace)
    qed
  qed
next
  case (JObj m)
  then have all: "list_all (\<lambda>p. reads_back (snd p)) m" "list_all (\<lambda>p. valid_utf8 (fst p)) m"
    by (fastforce simp: list_all_iff snds.simps)+
  let ?j = "join '','' (map enc_pair m)"
  show ?case
    unfolding reads_back_def enc_json_obj
  proof (intro allI impI)
    fix n t
    assume n: "2 * length (''{'' @ ?j @ ''}'') \<le> n"
    then obtain k where k: "n = Suc k" by (cases n) simp_all
    show "parse_value n ((''{'' @ ?j @ ''}'') @ t) = Some (JObj m, t)"
    proof (cases "m = []")
      case True
      then show ?thesis using k by (simp add: has_prefix_def)
    next
      case False
      then obtain s where "?j = CHR 0x22 # s"
        by (cases m) (auto simp: join_cons enc_pair_def enc_string_def)
      moreover have "parse_members k (?j @ CHR ''}'' # t) = Some (m, t)"
        using parse_pairs_enc [OF False all, of k t] n k by simp
      ultimately show ?thesis using k by (simp add: has_prefix_def)
    qed
  qed
qed

lemma parse_enc_json: "wf_json v \<Longrightarrow> parse_json (enc_json v) = Some v"
proof -
  assume "wf_json v"
  then have "parse_value (json_fuel (enc_json v)) (enc_json v @ []) = Some (v, [])"
    by (intro reads_backD wf_reads_back) (simp_all add: json_fuel_def delimited_def)
  then show ?thesis by (simp add: parse_json_def)
qed

lemma parse_enc_json_line: "wf_json v \<Longrightarrow> parse_json (enc_json v @ [CHR 0x0A]) = Some v"
proof -
  assume "wf_json v"
  then have "parse_value (json_fuel (enc_json v @ [CHR 0x0A])) (enc_json v @ [CHR 0x0A]) = Some (v, [CHR 0x0A])"
    by (intro reads_backD wf_reads_back) (simp_all add: json_fuel_def delimited_def)
  then show ?thesis by (simp add: parse_json_def skip_ws_def json_space_def)
qed

end
