(* ===== verification/GoValue.thy ===== *)
theory GoValue
  imports Json DataClass Digest "HOL-Library.AList"
begin

text \<open>
  The dynamic values of the program (a Go any, \<^typ>\<open>gany\<close>) as encoding/json writes and
  reads them: the shortest decimal that reads back as a given double
  (strconv.FormatFloat with precision -1), the value json.Marshal writes, and the
  value json.Unmarshal makes of a text, with numbers as float64 or as written (UseNumber).
  The members of a Go map have distinct keys; json.Marshal writes them sorted.
\<close>

lemma sha256_hex_utf8 [simp]: "valid_utf8 (sha256_hex m)"
  unfolding sha256_hex_def using hex_ascii by (intro valid_utf8_ascii) blast

section \<open>The shortest decimal\<close>

text \<open>The decimal exponent of a positive number: \<open>10 ^ e \<le> x < 10 ^ (e + 1)\<close>.\<close>

definition exp10 :: "rat \<Rightarrow> int" where
  "exp10 x = (let (n, d) = quotient_of x;
                  k = int (length (nat_str (nat n))) - int (length (nat_str (nat d)))
              in if pow10 k \<le> x then k else k - 1)"

text \<open>
  The n-digit decimals around x that read back as x: the nearer one (ties to the even
  digit) if it does, else the other one.
\<close>

definition digits_at :: "rat \<Rightarrow> nat \<Rightarrow> (nat \<times> int) option" where
  "digits_at x n =
     (let q = exp10 x - int n + 1; y = x / pow10 q; near = round_even y;
          other = (if of_int near \<le> y then near + 1 else near - 1);
          ok = (\<lambda>m. fround (of_int m * pow10 q) = Fin x)
      in if ok near then Some (nat near, q) else if ok other then Some (nat other, q) else None)"

definition shortest :: "rat \<Rightarrow> nat \<times> int" where
  "shortest x = (case first_some (digits_at x) [1..<18] of
       Some r \<Rightarrow> r
     | None \<Rightarrow> (nat (round_even (x / pow10 (exp10 x - 16))), exp10 x - 16))"

function strip_zeros :: "nat \<times> int \<Rightarrow> nat \<times> int" where
  "strip_zeros (m, q) =
     (if m mod 10 = 0 \<and> m \<noteq> 0 then strip_zeros (m div 10, q + 1) else (m, q))"
  by pat_completeness auto
termination
  by (relation "measure fst") auto

declare strip_zeros.simps [simp del]

definition shortest_digits :: "rat \<Rightarrow> nat \<times> int" where
  "shortest_digits x = strip_zeros (shortest x)"

text \<open>A fraction in p places, and the two notations of a non-negative number.\<close>

definition in_places :: "nat \<Rightarrow> nat \<Rightarrow> string" where
  "in_places p m = nat_str (m div 10 ^ p)
     @ (if p = 0 then [] else ''.'' @ tl (nat_str (10 ^ p + m mod 10 ^ p)))"

definition fmt_plain :: "nat \<times> int \<Rightarrow> string" where
  "fmt_plain r = (let (m, q) = r in
     if 0 \<le> q then nat_str (m * 10 ^ nat q) else in_places (nat (- q)) m)"

definition fmt_expo :: "nat \<times> int \<Rightarrow> string" where
  "fmt_expo r = (let (m, q) = r; ds = nat_str m; e = q + int (length ds) - 1 in
     [hd ds] @ (if tl ds = [] then [] else ''.'' @ tl ds)
     @ ''e'' @ (if e < 0 then ''-'' else ''+'') @ nat_str (nat \<bar>e\<bar>))"

definition sign_text :: "rat \<Rightarrow> string" where
  "sign_text x = (if x < 0 then ''-'' else [])"

definition fmt_shortest :: "f64 \<Rightarrow> string" where
  "fmt_shortest a = (case a of NaN \<Rightarrow> ''NaN'' | PInf \<Rightarrow> ''+Inf'' | NInf \<Rightarrow> ''-Inf''
     | Fin x \<Rightarrow> (if x = 0 then ''0'' else sign_text x @ fmt_plain (shortest_digits \<bar>x\<bar>)))"

section \<open>json.Marshal\<close>

text \<open>Numbers below a millionth and from \<open>10 ^ 21\<close> on are written with an exponent.\<close>

definition json_float :: "f64 \<Rightarrow> string option" where
  "json_float a = (case a of
       Fin x \<Rightarrow> Some (if x = 0 then ''0''
                      else sign_text x @
                        (if flt (Fin \<bar>x\<bar>) (fround (pow10 (- 6))) \<or> pow10 21 \<le> \<bar>x\<bar>
                         then fmt_expo (shortest_digits \<bar>x\<bar>)
                         else fmt_plain (shortest_digits \<bar>x\<bar>)))
     | _ \<Rightarrow> None)"

definition valid_number :: "string \<Rightarrow> bool" where
  "valid_number s \<longleftrightarrow> parse_num s = Some (s, [])"

fun all_some :: "'a option list \<Rightarrow> 'a list option" where
  "all_some [] = Some []"
| "all_some (None # xs) = None"
| "all_some (Some x # xs) = map_option (\<lambda>ys. x # ys) (all_some xs)"

definition sort_members :: "(string \<times> 'a) list \<Rightarrow> (string \<times> 'a) list" where
  "sort_members m = sort_key fst m"

text \<open>None is the error of an unsupported value or an invalid number.\<close>

fun marshal :: "gany \<Rightarrow> json option" where
  "marshal GNil = Some JNull"
| "marshal (GBool b) = Some (JBool b)"
| "marshal (GStr s) = Some (JStr s)"
| "marshal (GNumber s) = (if s = [] then Some (JNum ''0'')
     else if valid_number s then Some (JNum s) else None)"
| "marshal (GInt i) = Some (JNum (itoa i))"
| "marshal (GFloat x) = map_option JNum (json_float x)"
| "marshal (GList vs) = map_option JArr (all_some (map marshal vs))"
| "marshal (GStrs ss) = Some (JArr (map JStr ss))"
| "marshal (GMap m) = map_option (\<lambda>vs. JObj (sort_members (zip (map fst m) vs)))
     (all_some (map (\<lambda>p. marshal (snd p)) m))"
| "marshal (GStrMap m) = Some (JObj (sort_members (map (\<lambda>p. (fst p, JStr (snd p))) m)))"
| "marshal GOther = None"

definition Marshal :: "gany \<Rightarrow> string option" where
  "Marshal v = map_option enc_json (marshal v)"

section \<open>json.Unmarshal\<close>

text \<open>A later member of one key wins.\<close>

definition last_wins :: "(string \<times> 'a) list \<Rightarrow> (string \<times> 'a) list" where
  "last_wins m = rev (AList.clearjunk (rev m))"

fun of_json :: "(string \<Rightarrow> gany option) \<Rightarrow> json \<Rightarrow> gany option" where
  "of_json num JNull = Some GNil"
| "of_json num (JBool b) = Some (GBool b)"
| "of_json num (JNum n) = num n"
| "of_json num (JStr s) = Some (GStr s)"
| "of_json num (JArr vs) = map_option GList (all_some (map (of_json num) vs))"
| "of_json num (JObj m) = map_option (\<lambda>vs. GMap (last_wins (zip (map fst m) vs)))
     (all_some (map (\<lambda>p. of_json num (snd p)) m))"

definition num_float :: "string \<Rightarrow> gany option" where
  "num_float n = map_option GFloat (parse_float n)"

definition num_text :: "string \<Rightarrow> gany option" where
  "num_text n = Some (GNumber n)"

definition Unmarshal :: "string \<Rightarrow> gany option" where
  "Unmarshal s = Option.bind (parse_json s) (of_json num_float)"

text \<open>
  The first value of a text into a map, numbers as written. A null leaves the map nil,
  which is the value GNil.
\<close>

definition decode_map :: "string \<Rightarrow> gany option" where
  "decode_map s = (case parse_value (json_fuel s) s of
       Some (JNull, _) \<Rightarrow> Some GNil
     | Some (JObj m, _) \<Rightarrow> of_json num_text (JObj m)
     | _ \<Rightarrow> None)"

section \<open>The shape of a number\<close>

definition no_digit :: "string \<Rightarrow> bool" where
  "no_digit t = (case t of [] \<Rightarrow> True | c # _ \<Rightarrow> \<not> is_digit c)"

definition digits :: "string \<Rightarrow> bool" where
  "digits ds \<longleftrightarrow> ds \<noteq> [] \<and> list_all is_digit ds"

definition int_shape :: "string \<Rightarrow> bool" where
  "int_shape ip \<longleftrightarrow> ip = ''0'' \<or> digits ip \<and> hd ip \<noteq> CHR ''0''"

definition frac_shape :: "string \<Rightarrow> bool" where
  "frac_shape fr \<longleftrightarrow> fr = [] \<or> hd fr = CHR ''.'' \<and> digits (tl fr)"

definition expo_shape :: "string \<Rightarrow> bool" where
  "expo_shape ex \<longleftrightarrow> ex = [] \<or>
     (\<exists>c sg ds. ex = c # sg @ ds \<and> c \<in> {CHR ''e'', CHR ''E''} \<and> sg \<in> {[], ''+'', ''-''} \<and> digits ds)"

definition number_shape :: "string \<Rightarrow> bool" where
  "number_shape n \<longleftrightarrow> (\<exists>sg ip fr ex. n = sg @ ip @ fr @ ex \<and> sg \<in> {[], ''-''} \<and>
     int_shape ip \<and> frac_shape fr \<and> expo_shape ex)"

lemma shape_Nil [simp]: "frac_shape []" "expo_shape []"
  by (simp_all add: frac_shape_def expo_shape_def)

lemma expo_shapeI:
  "c \<in> {CHR ''e'', CHR ''E''} \<Longrightarrow> sg \<in> {[], ''+'', ''-''} \<Longrightarrow> digits ds \<Longrightarrow>
     expo_shape (c # sg @ ds)"
  unfolding expo_shape_def by blast

lemma number_shapeI:
  "sg \<in> {[], ''-''} \<Longrightarrow> int_shape ip \<Longrightarrow> frac_shape fr \<Longrightarrow> expo_shape ex \<Longrightarrow>
     number_shape (sg @ ip @ fr @ ex)"
  unfolding number_shape_def by blast

lemma digit_bytes:
  "is_digit c \<Longrightarrow> c \<noteq> CHR ''.'' \<and> c \<noteq> CHR ''e'' \<and> c \<noteq> CHR ''E'' \<and> c \<noteq> CHR ''+'' \<and> c \<noteq> CHR ''-''"
  by (auto simp: is_digit_def)

lemma span_digits_append:
  "list_all is_digit a \<Longrightarrow> no_digit t \<Longrightarrow> span_digits (a @ t) = (a, t)"
  by (induction a) (auto simp: no_digit_def split: list.splits)

lemma span_digitsD:
  "span_digits s = (a, b) \<Longrightarrow> s = a @ b \<and> list_all is_digit a \<and> no_digit b"
  by (induction s arbitrary: a) (auto simp: no_digit_def split: if_splits prod.splits)

lemma digits1_iff:
  "digits1 s = Some (a, b) \<longleftrightarrow> s = a @ b \<and> digits a \<and> no_digit b"
  using span_digits_append [of a b]
  by (auto simp: digits1_def digits_def split: prod.splits if_splits dest: span_digitsD)

lemma delimited_stops: "delimited t \<Longrightarrow> no_digit t"
  by (auto simp: delimited_def no_digit_def is_digit_def split: list.splits)

lemma parse_int_shape:
  "int_shape ip \<Longrightarrow> no_digit t \<Longrightarrow> parse_int_part (ip @ t) = Some (ip, t)"
  using digits1_iff [of "ip @ t" ip t]
  by (cases ip) (auto simp: int_shape_def parse_int_part_def digits_def)

lemma parse_frac_shape:
  "frac_shape fr \<Longrightarrow> no_digit t \<Longrightarrow> (fr = [] \<Longrightarrow> t = [] \<or> hd t \<noteq> CHR ''.'') \<Longrightarrow>
     parse_frac (fr @ t) = Some (fr, t)"
  using digits1_iff [of "tl fr @ t" "tl fr" t]
  by (cases fr; cases t) (auto simp: frac_shape_def parse_frac_def)

lemma parse_expo_shape:
  assumes "expo_shape ex" "delimited t"
  shows "parse_expo (ex @ t) = Some (ex, t)"
proof (cases "ex = []")
  case True
  then show ?thesis using assms(2) by (simp add: delimited_num(3))
next
  case False
  then obtain c sg ds where ex: "ex = c # sg @ ds" "c \<in> {CHR ''e'', CHR ''E''}"
      "sg \<in> {[], ''+'', ''-''}" "digits ds"
    using assms(1) by (auto simp: expo_shape_def)
  then have d: "digits1 (ds @ t) = Some (ds, t)"
    using digits1_iff delimited_stops [OF assms(2)] by blast
  obtain x xs where xs: "ds = x # xs" "is_digit x" using ex(4) by (cases ds) (auto simp: digits_def)
  then show ?thesis
    using ex d digit_bytes [OF xs(2)] by (auto simp: parse_expo_def)
qed

lemma shape_head:
  assumes "frac_shape fr" "expo_shape ex" "delimited t"
  shows "no_digit (ex @ t)" "no_digit (fr @ ex @ t)" "fr = [] \<Longrightarrow> ex @ t = [] \<or> hd (ex @ t) \<noteq> CHR ''.''"
  using assms
  by (cases fr; cases ex; cases t;
      auto simp: frac_shape_def expo_shape_def no_digit_def delimited_def is_digit_def)+

lemma number_shape_parse:
  assumes "number_shape n" "delimited t"
  shows "parse_num (n @ t) = Some (n, t)"
proof -
  obtain sg ip fr ex where n: "n = sg @ ip @ fr @ ex" "sg \<in> {[], ''-''}"
      "int_shape ip" "frac_shape fr" "expo_shape ex"
    using assms(1) by (auto simp: number_shape_def)
  have p: "parse_int_part (ip @ fr @ ex @ t) = Some (ip, fr @ ex @ t)"
      "parse_frac (fr @ ex @ t) = Some (fr, ex @ t)" "parse_expo (ex @ t) = Some (ex, t)"
    using n parse_int_shape parse_frac_shape parse_expo_shape shape_head [OF n(4,5) assms(2)]
      assms(2) by blast+
  obtain c cs where ip: "ip = c # cs" "is_digit c"
    using n(3) by (cases ip) (auto simp: int_shape_def digits_def is_digit_def)
  then have "\<not> has_prefix (ip @ fr @ ex @ t) ''-''"
    using digit_bytes by (auto simp: has_prefix_def)
  then show ?thesis using n(1,2) p by (auto simp: parse_num_def has_prefix_def)
qed

lemma number_shape_text: "number_shape n \<Longrightarrow> number_text n"
  using number_shape_parse [of n]
  by (auto simp: number_text_def number_shape_def int_shape_def digits_def is_digit_def neq_Nil_conv)

lemma valid_number_shape: "valid_number n \<Longrightarrow> number_shape n"
proof -
  assume v: "valid_number n"
  define sg u where "sg = (if has_prefix n ''-'' then ''-'' else [])" and
    "u = (if has_prefix n ''-'' then tl n else n)"
  have nu: "n = sg @ u" by (cases n) (auto simp: sg_def u_def has_prefix_def)
  obtain ip a where ip: "parse_int_part u = Some (ip, a)"
    using v by (auto simp: valid_number_def parse_num_def u_def split: option.splits if_splits)
  obtain fr b where fr: "parse_frac a = Some (fr, b)"
    using v ip by (auto simp: valid_number_def parse_num_def u_def split: option.splits if_splits)
  obtain ex where ex: "parse_expo b = Some (ex, [])"
    using v ip fr by (auto simp: valid_number_def parse_num_def u_def split: option.splits if_splits)
  have "u = ip @ a \<and> int_shape ip"
    using ip by (cases ip) (auto simp: parse_int_part_def digits1_iff int_shape_def digits_def
        split: list.splits if_splits)
  moreover have "a = fr @ b \<and> frac_shape fr"
    using fr by (auto simp: parse_frac_def digits1_iff frac_shape_def split: list.splits if_splits)
  moreover have "b = ex \<and> expo_shape ex"
  proof (cases b)
    case Nil
    then show ?thesis using ex by (simp add: parse_expo_def expo_shape_def)
  next
    case (Cons c s)
    then show ?thesis
      using ex expo_shapeI [of c "[]" s] expo_shapeI [of c "''+''" "tl s"] expo_shapeI [of c "''-''" "tl s"]
      by (auto simp: parse_expo_def digits1_iff split: list.splits if_splits)
  qed
  ultimately show ?thesis
    using nu number_shapeI [of sg ip fr ex] by (simp add: sg_def)
qed

lemma valid_number_text: "valid_number n \<Longrightarrow> number_text n"
  using valid_number_shape number_shape_text by blast

section \<open>Written numbers have the shape of a number\<close>

lemma nat_str_digits1: "digits (nat_str n)"
  by (simp add: digits_def list_all_iff nat_str_digits)

lemma nat_str_hd: "n \<noteq> 0 \<Longrightarrow> hd (nat_str n) \<noteq> CHR ''0''"
proof (induction n rule: nat_str.induct)
  case (1 n)
  show ?case
  proof (cases "n < 10")
    case True
    then have "byte (char_of (48 + n)) = 48 + n" by (rule byte_digit)
    moreover have "byte CHR ''0'' = (48::nat)" by simp
    ultimately have "char_of (48 + n) \<noteq> CHR ''0''" using 1(2) by force
    then show ?thesis using True by (simp add: nat_str.simps [of n])
  next
    case False
    then show ?thesis using 1 by (simp add: nat_str.simps [of n] hd_append)
  qed
qed

lemma nat_str_int_shape: "int_shape (nat_str n)"
  using nat_str_digits1 [of n] nat_str_hd [of n]
  by (cases "n = 0") (auto simp: int_shape_def nat_str.simps [of 0])

text \<open>A number with p zeros in it is longer than p digits.\<close>

lemma length_nat_str: "10 ^ p \<le> n \<Longrightarrow> p < length (nat_str n)"
proof (induction p arbitrary: n)
  case (Suc p)
  have "10 * 1 \<le> 10 * (10::nat) ^ p" by (intro mult_le_mono2) simp
  moreover have le: "10 * 10 ^ p \<le> n" using Suc(2) by simp
  ultimately have "\<not> n < 10" by linarith
  moreover have "10 ^ p \<le> n div 10"
    using le by (simp add: less_eq_div_iff_mult_less_eq mult.commute)
  moreover note Suc(1) [of "n div 10"]
  ultimately show ?case by (simp add: nat_str.simps [of n])
qed simp

lemma tl_digits: "digits ds \<Longrightarrow> 1 < length ds \<Longrightarrow> digits (tl ds)"
  by (cases ds) (auto simp: digits_def)

lemma itoa_shape: "number_shape (itoa i)"
  using number_shapeI [OF _ nat_str_int_shape shape_Nil, of "[]"]
    number_shapeI [OF _ nat_str_int_shape shape_Nil, of "''-''"]
  by (simp add: itoa_def)

lemma in_places_shape:
  "\<exists>ip fr. in_places p m = ip @ fr \<and> int_shape ip \<and> frac_shape fr"
proof -
  have "p < length (nat_str (10 ^ p + m mod 10 ^ p))" by (rule length_nat_str) simp
  then have "frac_shape (if p = 0 then [] else ''.'' @ tl (nat_str (10 ^ p + m mod 10 ^ p)))"
    using nat_str_digits1 tl_digits by (simp add: frac_shape_def)
  then show ?thesis using nat_str_int_shape unfolding in_places_def by blast
qed

lemma fmt_plain_shape:
  "\<exists>ip fr. fmt_plain r = ip @ fr \<and> int_shape ip \<and> frac_shape fr"
proof -
  obtain m q where r: "r = (m, q)" by (cases r)
  have "\<exists>ip fr. nat_str k = ip @ fr \<and> int_shape ip \<and> frac_shape fr" for k
    using nat_str_int_shape [of k] shape_Nil by (metis append_Nil2)
  then show ?thesis using in_places_shape by (simp add: fmt_plain_def r)
qed

lemma fmt_expo_shape:
  "\<exists>ip fr ex. fmt_expo r = ip @ fr @ ex \<and> int_shape ip \<and> frac_shape fr \<and> expo_shape ex"
proof -
  obtain m q where r: "r = (m, q)" by (cases r)
  define ds e where "ds = nat_str m" and "e = q + int (length ds) - 1"
  have d: "digits ds" using nat_str_digits1 by (simp add: ds_def)
  then obtain c cs where ds: "ds = c # cs" "is_digit c" by (cases ds) (auto simp: digits_def)
  then have ip: "int_shape [hd ds]"
    by (cases "c = CHR ''0''") (simp_all add: int_shape_def digits_def)
  have fr: "frac_shape (if tl ds = [] then [] else ''.'' @ tl ds)"
    using d ds tl_digits [OF d] by (simp add: frac_shape_def)
  have ex: "expo_shape (''e'' @ (if e < 0 then ''-'' else ''+'') @ nat_str (nat \<bar>e\<bar>))"
    using expo_shapeI [of "CHR ''e''" "if e < 0 then ''-'' else ''+''", OF _ _ nat_str_digits1] by simp
  have "fmt_expo r = [hd ds] @ (if tl ds = [] then [] else ''.'' @ tl ds)
      @ (''e'' @ (if e < 0 then ''-'' else ''+'') @ nat_str (nat \<bar>e\<bar>))"
    by (simp add: r fmt_expo_def Let_def ds_def e_def)
  then show ?thesis using ip fr ex by blast
qed

lemma json_float_shape: "json_float x = Some n \<Longrightarrow> number_shape n"
proof -
  assume n: "json_float x = Some n"
  then obtain y where y: "x = Fin y" by (cases x) (auto simp: json_float_def)
  have z: "number_shape ''0''"
    using number_shapeI [of "[]" "''0''" "[]" "[]"] by (simp add: int_shape_def)
  have s: "sign_text y \<in> {[], ''-''}" by (simp add: sign_text_def)
  have "number_shape (sign_text y @ fmt_plain r)" for r
    using fmt_plain_shape [of r] number_shapeI [OF s _ _ shape_Nil(2)] by auto
  then have p: "number_shape (sign_text y @ fmt_plain (shortest_digits \<bar>y\<bar>))" .
  have "number_shape (sign_text y @ fmt_expo r)" for r
    using fmt_expo_shape [of r] number_shapeI [OF s] by metis
  then have "number_shape (sign_text y @ fmt_expo (shortest_digits \<bar>y\<bar>))" .
  then show ?thesis using n z p by (auto simp: json_float_def y split: if_splits)
qed

section \<open>A marshalled value is read back as written\<close>

fun wf_value :: "gany \<Rightarrow> bool" where
  "wf_value (GStr s) = valid_utf8 s"
| "wf_value (GList vs) = list_all wf_value vs"
| "wf_value (GStrs ss) = list_all valid_utf8 ss"
| "wf_value (GMap m) = (distinct (map fst m) \<and> list_all (\<lambda>p. valid_utf8 (fst p) \<and> wf_value (snd p)) m)"
| "wf_value (GStrMap m) = (distinct (map fst m) \<and> list_all (\<lambda>p. valid_utf8 (fst p) \<and> valid_utf8 (snd p)) m)"
| "wf_value _ = True"

fun sorted_json :: "json \<Rightarrow> bool" where
  "sorted_json (JArr vs) = list_all sorted_json vs"
| "sorted_json (JObj m) = (sorted (map fst m) \<and> distinct (map fst m) \<and> list_all (\<lambda>p. sorted_json (snd p)) m)"
| "sorted_json _ = True"

lemma all_some_iff: "all_some (map f xs) = Some ys \<longleftrightarrow> list_all2 (\<lambda>x y. f x = Some y) xs ys"
proof (induction xs arbitrary: ys)
  case (Cons x xs)
  show ?case
    by (cases "f x"; cases ys) (auto simp: Cons)
qed auto

lemma all_some_set: "all_some (map f xs) = Some ys \<Longrightarrow> y \<in> set ys \<Longrightarrow> \<exists>x\<in>set xs. f x = Some y"
  by (auto simp: all_some_iff list_all2_conv_all_nth in_set_conv_nth) (metis nth_mem)

lemma all_some_length: "all_some (map f xs) = Some ys \<Longrightarrow> length ys = length xs"
  by (auto simp: all_some_iff dest: list_all2_lengthD)

lemma all_some_map: "(\<And>x. x \<in> set xs \<Longrightarrow> f x = Some (g x)) \<Longrightarrow> all_some (map f xs) = Some (map g xs)"
  by (induction xs) auto

lemma map_insort_key: "map f (insort_key f x xs) = insort (f x) (map f xs)"
  by (induction xs) auto

lemma sort_members_keys: "map fst (sort_members m) = sort (map fst m)"
  by (induction m) (simp_all add: sort_members_def map_insort_key)

lemma sort_members_set: "set (sort_members m) = set m"
  by (simp add: sort_members_def)

lemma sort_members_id: "sorted (map fst m) \<Longrightarrow> sort_members m = m"
  unfolding sort_members_def by (rule sort_key_id_if_sorted)

lemma last_wins_id: "distinct (map fst m) \<Longrightarrow> last_wins m = m"
  by (simp add: last_wins_def rev_map [symmetric])

text \<open>What is written for a well-formed value is well formed, with sorted distinct keys.\<close>

lemma members_ok:
  assumes "all_some (map (\<lambda>p. marshal (snd p)) m) = Some vs" "distinct (map fst m)"
    and "\<And>p. p \<in> set m \<Longrightarrow> valid_utf8 (fst p) \<and> wf_value (snd p)"
    and "\<And>p j. p \<in> set m \<Longrightarrow> wf_value (snd p) \<Longrightarrow> marshal (snd p) = Some j \<Longrightarrow> wf_json j \<and> sorted_json j"
  shows "wf_json (JObj (sort_members (zip (map fst m) vs)))
    \<and> sorted_json (JObj (sort_members (zip (map fst m) vs)))"
proof -
  have len: "length vs = length m" using assms(1) by (rule all_some_length)
  have "valid_utf8 k \<and> wf_json j \<and> sorted_json j" if "(k, j) \<in> set (zip (map fst m) vs)" for k j
  proof -
    have "k \<in> fst ` set m" "j \<in> set vs" using that by (auto dest: set_zip_leftD set_zip_rightD)
    then show ?thesis using all_some_set [OF assms(1)] assms(3,4) by fastforce
  qed
  then show ?thesis
    using len assms(2) by (auto simp: sort_members_keys sort_members_set list_all_iff)
qed

lemma marshal_wf: "wf_value v \<Longrightarrow> marshal v = Some j \<Longrightarrow> wf_json j \<and> sorted_json j"
proof (induction v arbitrary: j)
  case (GNumber s)
  moreover have "number_text ''0''"
    using number_shape_text number_shapeI [of "[]" "''0''" "[]" "[]"] by (simp add: int_shape_def)
  ultimately show ?case using valid_number_text by (auto split: if_splits)
next
  case (GInt i)
  then show ?case using itoa_shape number_shape_text by auto
next
  case (GFloat x)
  then show ?case using json_float_shape number_shape_text by auto
next
  case (GList vs)
  then show ?case by (fastforce simp: list_all_iff dest: all_some_set)
next
  case (GStrs ss)
  then show ?case by (auto simp: list_all_iff)
next
  case (GMap m)
  then obtain vs where "all_some (map (\<lambda>p. marshal (snd p)) m) = Some vs"
      "j = JObj (sort_members (zip (map fst m) vs))" by auto
  then show ?case
    using members_ok [of m vs] GMap by (simp add: list_all_iff snds.simps)
next
  case (GStrMap m)
  then have "j = JObj (sort_members (map (\<lambda>p. (fst p, JStr (snd p))) m))" by simp
  then show ?case
    using GStrMap by (auto simp: sort_members_keys sort_members_set list_all_iff o_def)
qed auto

lemma number_text_valid: "number_text n \<Longrightarrow> valid_number n \<and> n \<noteq> []"
  unfolding number_text_def valid_number_def delimited_def
  by (metis append_Nil2 list.case(1))

text \<open>Read with the numbers as written, the value is marshalled to the same text.\<close>

lemma text_value_marshal:
  "wf_json j \<Longrightarrow> sorted_json j \<Longrightarrow> \<exists>w. of_json num_text j = Some w \<and> marshal w = Some j"
proof (induction j)
  case (JNum n)
  then show ?case using number_text_valid [of n] by (simp add: num_text_def)
next
  case (JArr vs)
  then have "\<forall>v\<in>set vs. \<exists>w. of_json num_text v = Some w \<and> marshal w = Some v"
    by (auto simp: list_all_iff)
  then obtain g where g: "\<And>v. v \<in> set vs \<Longrightarrow> of_json num_text v = Some (g v) \<and> marshal (g v) = Some v"
    by metis
  then have "all_some (map (of_json num_text) vs) = Some (map g vs)"
      "all_some (map marshal (map g vs)) = Some (map id vs)"
    using all_some_map [of vs "of_json num_text" g] all_some_map [of vs "marshal \<circ> g" id] by auto
  then show ?case by simp
next
  case (JObj m)
  then have "\<forall>p\<in>set m. \<exists>w. of_json num_text (snd p) = Some w \<and> marshal w = Some (snd p)"
    by (fastforce simp: list_all_iff snds.simps)
  then obtain g where g: "\<And>p. p \<in> set m \<Longrightarrow> of_json num_text (snd p) = Some (g p) \<and> marshal (g p) = Some (snd p)"
    by metis
  define w where "w = zip (map fst m) (map g m)"
  have k: "map fst w = map fst m" and v: "map snd w = map g m" by (simp_all add: w_def)
  have "all_some (map (\<lambda>p. of_json num_text (snd p)) m) = Some (map g m)"
    using all_some_map [of m "\<lambda>p. of_json num_text (snd p)" g] g by simp
  then have r: "of_json num_text (JObj m) = Some (GMap w)"
    using JObj.prems k by (simp add: w_def [symmetric] last_wins_id)
  have "map (\<lambda>p. marshal (snd p)) w = map marshal (map g m)"
    unfolding v [symmetric] by simp
  then have "all_some (map (\<lambda>p. marshal (snd p)) w) = Some (map snd m)"
    using all_some_map [of m "\<lambda>p. marshal (g p)" snd] g by (simp add: o_def)
  then have "marshal (GMap w) = Some (JObj m)"
    using JObj.prems by (simp add: k zip_map_fst_snd sort_members_id)
  then show ?case using r by blast
qed (simp_all)

lemma marshal_read_text:
  assumes "wf_value v" "marshal v = Some j"
  shows "\<exists>w. parse_json (enc_json j) = Some j \<and> of_json num_text j = Some w \<and> marshal w = Some j"
  using marshal_wf [OF assms] text_value_marshal [of j] parse_enc_json [of j] by blast

lemma decode_map_marshal:
  assumes "wf_value (GMap m)" "Marshal (GMap m) = Some s"
  shows "\<exists>w. decode_map s = Some w \<and> marshal w = marshal (GMap m)"
proof -
  obtain j where j: "marshal (GMap m) = Some j" "s = enc_json j"
    using assms(2) by (auto simp: Marshal_def)
  then obtain w where r: "parse_json s = Some j" "of_json num_text j = Some w" "marshal w = Some j"
    using marshal_read_text [OF assms(1)] by blast
  obtain m' where "j = JObj m'" using j by auto
  then have "decode_map s = Some w"
    using r(1,2) by (auto simp: decode_map_def parse_json_def split: option.splits if_splits prod.splits)
  then show ?thesis using r(3) j(1) by metis
qed

end
