(* ===== verification/Receipts.thy ===== *)
theory Receipts
  imports GoValue Decision
begin

text \<open>
  pkg/receipts/record.go: the decision record, its JSON form, the digests it carries, the
  record of a human decision, and the receipt fields made from a record.

  The receipt format (github.com/Clawdlinux/agentgate/pkg/receiptspec) is not in the
  repository: its canonical JSON, its hash of a record and its two decision
  words are the fields of \<open>receiptspec\<close>. A uint64 and an int64 are integers. The error
  texts of encoding/json are not kept.
\<close>

record receiptspec =
  rs_canonical :: "json \<Rightarrow> string err"
  rs_hash :: "json \<Rightarrow> string err"
  rs_allow :: string
  rs_deny :: string

section \<open>The record\<close>

definition SchemaVersion :: int where "SchemaVersion = 1"
definition Service :: string where "Service = ''clawdlinux''"
definition ReplayHint :: string where
  "ReplayHint = ''deterministic-v1: rerun invariants, policy_packs, and threshold_mode on an input matching input_hash''"
definition LayerInvariant :: string where "LayerInvariant = ''invariant''"
definition LayerRules :: string where "LayerRules = ''rules''"
definition LayerThreshold :: string where "LayerThreshold = ''threshold''"
definition LayerHuman :: string where "LayerHuman = ''human''"
definition LayerModel :: string where "LayerModel = ''model''"
definition OutcomeAllow :: string where "OutcomeAllow = ''allow''"
definition OutcomeDeny :: string where "OutcomeDeny = ''deny''"
definition OutcomeRequireApproval :: string where "OutcomeRequireApproval = ''require_approval''"
definition OutcomeApproved :: string where "OutcomeApproved = ''approved''"
definition OutcomeRejected :: string where "OutcomeRejected = ''rejected''"
definition OutcomeEdited :: string where "OutcomeEdited = ''edited''"
definition ModelBlockVersion :: int where "ModelBlockVersion = 2"

lemmas layer_names = LayerInvariant_def LayerRules_def LayerThreshold_def LayerHuman_def LayerModel_def
lemmas outcome_names = OutcomeAllow_def OutcomeDeny_def OutcomeRequireApproval_def
  OutcomeApproved_def OutcomeRejected_def OutcomeEdited_def

record rc_workload =
  wk_namespace :: string
  wk_name :: string
  wk_uid :: string

record rc_reason =
  rn_rule :: string
  rn_reason :: string

record declared_summary =
  ds_sha256 :: string
  ds_decision_type :: string
  ds_classes :: "string list"
  ds_dests :: "string list"

record observed_summary =
  os_sha256 :: string
  os_host :: string
  os_classes :: "string list"
  os_tool :: string
  os_prior_actions :: int
  os_prior_denied :: int

record claimed_summary =
  cs_sha256 :: string
  cs_confidence :: string
  cs_health :: string

record model_block =
  mb_version_schema :: int
  mb_mode :: string
  mb_id :: string
  mb_version :: string
  mb_artifact :: string
  mb_feature_spec :: string
  mb_feature_hash :: string
  mb_option_set :: "string list"
  mb_option_micro :: "int list"
  mb_risk :: int
  mb_claimed_risk :: int
  mb_baseline_risk :: int
  mb_baseline_hash :: string
  mb_threshold :: int
  mb_calibration :: string
  mb_reasons :: "string list"
  mb_base_outcome :: string
  mb_outcome :: string
  mb_error :: string

record approval_block =
  ab_label :: string
  ab_approver :: string
  ab_approver_sha256 :: string
  ab_reason_sha256 :: string
  ab_pending_id :: string
  ab_original_seq :: int
  ab_original_hash :: string
  ab_edited :: "string list"
  ab_payload_sha256 :: string
  ab_consumed_sha256 :: string

record decision_record =
  dr_schema :: int
  dr_workload :: rc_workload
  dr_action :: string
  dr_layer :: string
  dr_outcome :: string
  dr_reasons :: "rc_reason list"
  dr_input_hash :: string
  dr_payload_sha256 :: string
  dr_declared :: declared_summary
  dr_observed :: observed_summary
  dr_claimed :: claimed_summary
  dr_packs :: "string list"
  dr_mode :: string
  dr_model :: "model_block option"
  dr_approval :: "approval_block option"
  dr_hint :: string

text \<open>The JSON form, by the field tags; an empty omitempty field is left out.\<close>

definition jint :: "int \<Rightarrow> json" where "jint i = JNum (itoa i)"
definition jstrs :: "string list \<Rightarrow> json" where "jstrs xs = JArr (map JStr xs)"

definition opt_str :: "string \<Rightarrow> string \<Rightarrow> (string \<times> json) list" where
  "opt_str k s = (if s = [] then [] else [(k, JStr s)])"

definition workload_json :: "rc_workload \<Rightarrow> json" where
  "workload_json w = JObj [(''namespace'', JStr (wk_namespace w)), (''name'', JStr (wk_name w)),
     (''uid'', JStr (wk_uid w))]"

definition declared_json :: "declared_summary \<Rightarrow> json" where
  "declared_json d = JObj [(''sha256'', JStr (ds_sha256 d)), (''decision_type'', JStr (ds_decision_type d)),
     (''allowed_data_classes'', jstrs (ds_classes d)), (''allowed_destinations'', jstrs (ds_dests d))]"

definition observed_json :: "observed_summary \<Rightarrow> json" where
  "observed_json ob = JObj [(''sha256'', JStr (os_sha256 ob)), (''destination_host'', JStr (os_host ob)),
     (''data_classes'', jstrs (os_classes ob)), (''tool'', JStr (os_tool ob)),
     (''prior_action_count'', jint (os_prior_actions ob)), (''prior_denied_count'', jint (os_prior_denied ob))]"

definition claimed_json :: "claimed_summary \<Rightarrow> json" where
  "claimed_json c = JObj ([(''sha256'', JStr (cs_sha256 c))]
     @ opt_str ''confidence'' (cs_confidence c) @ opt_str ''cluster_health'' (cs_health c))"

definition model_json :: "model_block \<Rightarrow> json" where
  "model_json m = JObj ([(''schema_version'', jint (mb_version_schema m)), (''mode'', JStr (mb_mode m)),
     (''id'', JStr (mb_id m)), (''version'', JStr (mb_version m)), (''artifact_sha256'', JStr (mb_artifact m)),
     (''feature_spec'', JStr (mb_feature_spec m)), (''feature_hash'', JStr (mb_feature_hash m)),
     (''option_set'', jstrs (mb_option_set m)), (''option_micro'', JArr (map jint (mb_option_micro m))),
     (''risk_micro'', jint (mb_risk m)), (''claimed_risk_micro'', jint (mb_claimed_risk m)),
     (''baseline_risk_micro'', jint (mb_baseline_risk m)), (''baseline_feature_hash'', JStr (mb_baseline_hash m)),
     (''threshold_micro'', jint (mb_threshold m)), (''calibration'', JStr (mb_calibration m)),
     (''reason_codes'', jstrs (mb_reasons m)), (''base_outcome'', JStr (mb_base_outcome m)),
     (''outcome'', JStr (mb_outcome m))] @ opt_str ''error'' (mb_error m))"

definition approval_json :: "approval_block \<Rightarrow> json" where
  "approval_json a = JObj ([(''label'', JStr (ab_label a)), (''approver'', JStr (ab_approver a)),
     (''approver_sha256'', JStr (ab_approver_sha256 a)), (''reason_sha256'', JStr (ab_reason_sha256 a)),
     (''pending_id'', JStr (ab_pending_id a)), (''original_seq'', jint (ab_original_seq a)),
     (''original_input_hash'', JStr (ab_original_hash a)), (''edited_fields'', jstrs (ab_edited a))]
     @ opt_str ''pending_payload_sha256'' (ab_payload_sha256 a)
     @ [(''consumed_id_sha256'', JStr (ab_consumed_sha256 a))])"

definition opt_member :: "string \<Rightarrow> ('a \<Rightarrow> json) \<Rightarrow> 'a option \<Rightarrow> (string \<times> json) list" where
  "opt_member k f x = (case x of None \<Rightarrow> [] | Some v \<Rightarrow> [(k, f v)])"

definition record_json :: "decision_record \<Rightarrow> json" where
  "record_json r = JObj ([(''schema_version'', jint (dr_schema r)), (''workload'', workload_json (dr_workload r)),
     (''action'', JStr (dr_action r)), (''layer'', JStr (dr_layer r)), (''outcome'', JStr (dr_outcome r)),
     (''reasons'', JArr (map (\<lambda>x. JObj [(''rule_id'', JStr (rn_rule x)), (''reason'', JStr (rn_reason x))]) (dr_reasons r))),
     (''input_hash'', JStr (dr_input_hash r)), (''payload_sha256'', JStr (dr_payload_sha256 r)),
     (''declared'', declared_json (dr_declared r)), (''observed'', observed_json (dr_observed r)),
     (''claimed'', claimed_json (dr_claimed r)), (''policy_packs'', jstrs (dr_packs r)),
     (''threshold_mode'', JStr (dr_mode r))]
     @ opt_member ''model'' model_json (dr_model r) @ opt_member ''approval'' approval_json (dr_approval r)
     @ [(''replay_hint'', JStr (dr_hint r))])"

section \<open>Digests\<close>

definition identityDomain :: string where "identityDomain = ''clawdlinux.org/human-identity/v1''"
definition consumedDomain :: string where "consumedDomain = ''clawdlinux.org/approval-consumed/v1''"
definition PayloadDomain :: string where "PayloadDomain = ''clawdlinux.decision.payload.v1''"

definition IdentityDigest :: "string \<Rightarrow> string" where
  "IdentityDigest username = ''sha256:'' @ sha256_hex (identityDomain @ [CHR 0x00] @ username)"

definition ConsumedIDSHA256 :: "string \<Rightarrow> string \<Rightarrow> string" where
  "ConsumedIDSHA256 workloadUID pendingID =
     sha256_hex (consumedDomain @ [CHR 0x00] @ workloadUID @ [CHR 0x00] @ pendingID)"

definition ExecutionPayload :: "string \<Rightarrow> gany \<Rightarrow> string \<Rightarrow> gany" where
  "ExecutionPayload action params confidence =
     GMap [(''action'', GStr action), (''params'', params), (''confidence'', GStr confidence)]"

definition PayloadSHA256 :: "gany \<Rightarrow> string err" where
  "PayloadSHA256 payload =
     (case Marshal payload of
        None \<Rightarrow> Inl ''receipts: payload''
      | Some raw \<Rightarrow>
          (case Unmarshal raw of
             None \<Rightarrow> Inl ''receipts: payload''
           | Some normal \<Rightarrow>
               (case Marshal normal of
                  None \<Rightarrow> Inl ''receipts: payload''
                | Some canon \<Rightarrow> Inr (sha256_hex (PayloadDomain @ [CHR 0x00] @ canon)))))"

definition decimal :: "f64 option \<Rightarrow> string" where
  "decimal f = (case f of None \<Rightarrow> '''' | Some x \<Rightarrow> fmt_shortest x)"

definition sortedCopy :: "string list \<Rightarrow> string list" where
  "sortedCopy xs = sort xs"

definition canonDeclared :: "declared \<Rightarrow> json" where
  "canonDeclared d = JObj [(''purpose'', JStr (d_purpose d)), (''decision_type'', JStr (d_decision_type d)),
     (''allowed_data_classes'', jstrs (d_classes d)), (''allowed_destinations'', jstrs (d_dests d))]"

definition canonObserved :: "observed \<Rightarrow> json" where
  "canonObserved ob = JObj [(''destination'', JStr (o_destination ob)), (''data_classes'', jstrs (o_classes ob)),
     (''tool'', JStr (o_tool ob)), (''caller_identity'', JStr (o_caller ob)),
     (''prior_action_count'', jint (o_prior_actions ob)), (''prior_denied_count'', jint (o_prior_denied ob))]"

definition canonClaimed :: "agent_claimed \<Rightarrow> json" where
  "canonClaimed c = JObj [(''confidence'', JStr (decimal (cl_confidence c))),
     (''cluster_health'', JStr (decimal (cl_health c))), (''intent'', JStr (cl_intent c))]"

definition hashHex :: "receiptspec \<Rightarrow> json \<Rightarrow> string err" where
  "hashHex rs v = (case rs_hash rs v of Inl e \<Rightarrow> Inl e | Inr h \<Rightarrow> Inr (hex h))"

definition InputHash :: "receiptspec \<Rightarrow> input \<Rightarrow> string \<Rightarrow> string err" where
  "InputHash rs i payloadSHA = hashHex rs (JObj
     [(''declared'', canonDeclared (in_declared i)), (''observed'', canonObserved (in_observed i)),
      (''agent_claimed'', canonClaimed (in_claimed i)), (''payload_sha256'', JStr payloadSHA)])"

section \<open>Outcomes, layers and reasons\<close>

definition outcome_text :: "outcome \<Rightarrow> string" where
  "outcome_text oc = (case oc of Allow \<Rightarrow> ''allow'' | RequireApproval \<Rightarrow> ''require_approval''
     | Deny \<Rightarrow> ''deny'' | OtherOutcome s \<Rightarrow> s)"

definition mode_text :: "model_mode \<Rightarrow> string" where
  "mode_text m = (case m of ModelOff \<Rightarrow> ''off'' | ModelShadow \<Rightarrow> ''shadow''
     | ModelEscalate \<Rightarrow> ''escalate'' | OtherMode s \<Rightarrow> s)"

definition OptionSet :: "string list" where
  "OptionSet = [''allow'', ''require_approval'']"

definition option_value :: "score \<Rightarrow> string \<Rightarrow> int" where
  "option_value s k = (case map_of (s_option s) k of None \<Rightarrow> 0 | Some v \<Rightarrow> v)"

definition NewModelBlock ::
  "model_mode \<Rightarrow> score \<Rightarrow> string option \<Rightarrow> decision_result \<Rightarrow> decision_result \<Rightarrow> model_block" where
  "NewModelBlock mode s scoreErr base final =
     \<lparr>mb_version_schema = ModelBlockVersion, mb_mode = mode_text mode, mb_id = s_model_id s,
      mb_version = s_version s, mb_artifact = s_artifact s, mb_feature_spec = s_feature_spec s,
      mb_feature_hash = s_feature_hash s, mb_option_set = OptionSet,
      mb_option_micro = map (option_value s) OptionSet, mb_risk = s_risk s,
      mb_claimed_risk = s_claimed_risk s, mb_baseline_risk = s_baseline_risk s,
      mb_baseline_hash = s_baseline_hash s, mb_threshold = s_threshold s,
      mb_calibration = s_calibration s, mb_reasons = s_reasons s,
      mb_base_outcome = outcome_text (r_outcome base), mb_outcome = outcome_text (r_outcome final),
      mb_error = (case scoreErr of None \<Rightarrow> '''' | Some e \<Rightarrow> e)\<rparr>"

definition splitReason :: "string \<Rightarrow> string \<Rightarrow> rc_reason" where
  "splitReason s fallback = (case cut s '': '' of
       Some (rule, reason) \<Rightarrow>
         (if rule \<noteq> [] \<and> \<not> list_ex (\<lambda>c. c = CHR '' '' \<or> c = CHR 0x09) rule
          then \<lparr>rn_rule = rule, rn_reason = reason\<rparr> else \<lparr>rn_rule = fallback, rn_reason = s\<rparr>)
     | None \<Rightarrow> \<lparr>rn_rule = fallback, rn_reason = s\<rparr>)"

definition ReasonsFromLayers :: "layers \<Rightarrow> rc_reason list" where
  "ReasonsFromLayers l =
     map (\<lambda>s. splitReason s ''invariant'') (ly_invariants l)
     @ (case ly_pack_err l of None \<Rightarrow> [] | Some e \<Rightarrow> [\<lparr>rn_rule = ''pack-error'', rn_reason = e\<rparr>])
     @ map (\<lambda>s. splitReason s ''pack'') (ly_pack_deny l)
     @ map (\<lambda>s. splitReason s ''pack'') (ly_pack_approval l)
     @ map (\<lambda>s. \<lparr>rn_rule = ''threshold'', rn_reason = s\<rparr>) (ly_threshold_reasons l)"

definition map_outcome :: "outcome \<Rightarrow> string err" where
  "map_outcome oc = (case oc of Allow \<Rightarrow> Inr OutcomeAllow | Deny \<Rightarrow> Inr OutcomeDeny
     | RequireApproval \<Rightarrow> Inr OutcomeRequireApproval
     | OtherOutcome s \<Rightarrow> Inl (''receipts: unknown outcome '' @ quote s))"

definition map_layer :: "string \<Rightarrow> string err" where
  "map_layer l =
     (if l = ''invariant'' then Inr LayerInvariant
      else if l = ''pack'' then Inr LayerRules
      else if l = ''threshold'' then Inr LayerThreshold
      else if l = ''model'' then Inr LayerModel
      else Inl (''receipts: unknown layer '' @ quote l))"

definition mapResult :: "decision_result \<Rightarrow> (string \<times> string) err" where
  "mapResult r = (case map_outcome (r_outcome r) of
       Inl e \<Rightarrow> Inl e
     | Inr oc \<Rightarrow> (case map_layer (r_layer r) of Inl e \<Rightarrow> Inl e | Inr l \<Rightarrow> Inr (oc, l)))"

section \<open>The decision record\<close>

record rc_params =
  rp_workload :: rc_workload
  rp_action :: string
  rp_input :: input
  rp_payload :: gany
  rp_layers :: layers
  rp_result :: decision_result
  rp_packs :: "string list"
  rp_mode :: string
  rp_model :: "model_block option"

definition build_record ::
  "rc_params \<Rightarrow> string \<Rightarrow> string \<Rightarrow> string \<Rightarrow> string \<Rightarrow> string \<Rightarrow> string \<Rightarrow> string \<Rightarrow> decision_record" where
  "build_record p oc layer inputHash payloadSHA declHash obsHash claimHash =
     (let d = in_declared (rp_input p); ob = in_observed (rp_input p); c = in_claimed (rp_input p) in
      \<lparr>dr_schema = SchemaVersion, dr_workload = rp_workload p, dr_action = rp_action p,
       dr_layer = layer, dr_outcome = oc, dr_reasons = ReasonsFromLayers (rp_layers p),
       dr_input_hash = inputHash, dr_payload_sha256 = payloadSHA,
       dr_declared = \<lparr>ds_sha256 = declHash, ds_decision_type = d_decision_type d,
         ds_classes = sortedCopy (d_classes d), ds_dests = sortedCopy (d_dests d)\<rparr>,
       dr_observed = \<lparr>os_sha256 = obsHash, os_host = Host (o_destination ob),
         os_classes = sortedCopy (o_classes ob), os_tool = o_tool ob,
         os_prior_actions = o_prior_actions ob, os_prior_denied = o_prior_denied ob\<rparr>,
       dr_claimed = \<lparr>cs_sha256 = claimHash, cs_confidence = decimal (cl_confidence c),
         cs_health = decimal (cl_health c)\<rparr>,
       dr_packs = sortedCopy (rp_packs p), dr_mode = rp_mode p, dr_model = rp_model p,
       dr_approval = None, dr_hint = ReplayHint\<rparr>)"

definition bind_err :: "'a err \<Rightarrow> ('a \<Rightarrow> 'b err) \<Rightarrow> 'b err" where
  "bind_err x f = (case x of Inl e \<Rightarrow> Inl e | Inr v \<Rightarrow> f v)"

definition NewDecisionRecord :: "receiptspec \<Rightarrow> rc_params \<Rightarrow> decision_record err" where
  "NewDecisionRecord rs p =
     bind_err (mapResult (rp_result p)) (\<lambda>(oc, layer).
     bind_err (PayloadSHA256 (rp_payload p)) (\<lambda>payloadSHA.
     bind_err (InputHash rs (rp_input p) payloadSHA) (\<lambda>inputHash.
     bind_err (hashHex rs (canonDeclared (in_declared (rp_input p)))) (\<lambda>declHash.
     bind_err (hashHex rs (canonObserved (in_observed (rp_input p)))) (\<lambda>obsHash.
     bind_err (hashHex rs (canonClaimed (in_claimed (rp_input p)))) (\<lambda>claimHash.
       Inr (build_record p oc layer inputHash payloadSHA declHash obsHash claimHash)))))))"

section \<open>The record of a human decision\<close>

definition LabelApprove :: string where "LabelApprove = ''approve''"
definition LabelReject :: string where "LabelReject = ''reject''"
definition LabelEdit :: string where "LabelEdit = ''edit''"

definition OutcomeForLabel :: "string \<Rightarrow> string err" where
  "OutcomeForLabel label =
     (if label = LabelApprove then Inr OutcomeApproved
      else if label = LabelReject then Inr OutcomeRejected
      else if label = LabelEdit then Inr OutcomeEdited
      else Inl (''receipts: unknown approval label '' @ quote label))"

record human_params =
  hp_workload :: rc_workload
  hp_action :: string
  hp_input :: input
  hp_payload :: gany
  hp_packs :: "string list"
  hp_mode :: string
  hp_approval :: approval_block

definition empty_layers :: layers where
  "empty_layers = \<lparr>ly_invariants = [], ly_pack_err = None, ly_pack_deny = [], ly_pack_approval = [],
     ly_threshold_allowed = False, ly_threshold_reasons = []\<rparr>"

definition human_base :: "human_params \<Rightarrow> rc_params" where
  "human_base p = \<lparr>rp_workload = hp_workload p, rp_action = hp_action p, rp_input = hp_input p,
     rp_payload = hp_payload p, rp_layers = empty_layers,
     rp_result = \<lparr>r_outcome = Allow, r_layer = ''threshold'', r_reasons = []\<rparr>,
     rp_packs = hp_packs p, rp_mode = hp_mode p, rp_model = None\<rparr>"

definition NewHumanRecord :: "receiptspec \<Rightarrow> human_params \<Rightarrow> decision_record err" where
  "NewHumanRecord rs p =
     bind_err (OutcomeForLabel (ab_label (hp_approval p))) (\<lambda>oc.
       let a = hp_approval p in
       if ab_approver a = [] \<or> length (ab_approver_sha256 a) \<noteq> 64 \<or> ab_pending_id a = []
       then Inl ''receipts: human record needs approver, approver hash, and pending id''
       else bind_err (NewDecisionRecord rs (human_base p)) (\<lambda>rec.
         let a = a\<lparr>ab_edited := sortedCopy (ab_edited a),
                   ab_consumed_sha256 := ConsumedIDSHA256 (wk_uid (hp_workload p)) (ab_pending_id a),
                   ab_approver := IdentityDigest (ab_approver a)\<rparr>;
             reason = (if ab_reason_sha256 a = [] then ''none'' else ''sha256:'' @ ab_reason_sha256 a)
         in Inr (rec\<lparr>dr_layer := LayerHuman, dr_outcome := oc,
              dr_reasons := [\<lparr>rn_rule = ''approver'', rn_reason = ab_approver a\<rparr>,
                             \<lparr>rn_rule = ''approval-reason'', rn_reason = reason\<rparr>,
                             \<lparr>rn_rule = ''approval-of'', rn_reason = ab_pending_id a\<rparr>],
              dr_approval := Some a\<rparr>)))"

section \<open>The receipt fields\<close>

record receipt_fields =
  fl_principal :: string
  fl_agent :: string
  fl_service :: string
  fl_action :: string
  fl_params :: string
  fl_decision :: string
  fl_status :: int

definition PolicyDecision :: "receiptspec \<Rightarrow> string \<Rightarrow> string err" where
  "PolicyDecision rs oc =
     (if oc = OutcomeAllow \<or> oc = OutcomeApproved \<or> oc = OutcomeEdited then Inr (rs_allow rs)
      else if oc = OutcomeDeny \<or> oc = OutcomeRejected \<or> oc = OutcomeRequireApproval then Inr (rs_deny rs)
      else Inl (''receipts: unknown outcome '' @ quote oc))"

definition statusCode :: "string \<Rightarrow> int" where
  "statusCode oc =
     (if oc = OutcomeAllow \<or> oc = OutcomeApproved \<or> oc = OutcomeEdited then 200
      else if oc = OutcomeRequireApproval then 202 else 403)"

text \<open>strings.ToValidUTF8: every maximal run of invalid bytes becomes one replacement.\<close>

function to_valid_utf8 :: "bool \<Rightarrow> string \<Rightarrow> string \<Rightarrow> string" where
  "to_valid_utf8 inrun repl s =
     (if s = [] then []
      else if utf8_len s = 0
      then (if inrun then [] else repl) @ to_valid_utf8 True repl (tl s)
      else take (utf8_len s) s @ to_valid_utf8 False repl (drop (utf8_len s) s))"
  by pat_completeness auto
termination
  by (relation "measure (\<lambda>(b, r, s). length s)") auto

declare to_valid_utf8.simps [simp del]

text \<open>
  utf8.DecodeLastRuneInString: the size of the last rune, which starts at one of
  the last four bytes; 1 if no valid rune ends the text.
\<close>

definition last_rune_size :: "string \<Rightarrow> nat" where
  "last_rune_size s =
     (if s = [] then 0
      else case first_some (\<lambda>k. if k \<le> length s \<and> \<not> cont_byte (s ! (length s - k))
                                then Some (if utf8_len (drop (length s - k) s) = k then k else 1)
                                else None) [1, 2, 3, 4] of
             Some k \<Rightarrow> k | None \<Rightarrow> 1)"

function clip_loop :: "nat \<Rightarrow> string \<Rightarrow> string" where
  "clip_loop limit s =
     (if length s \<le> limit then s else clip_loop limit (take (length s - max 1 (last_rune_size s)) s))"
  by pat_completeness auto
termination
  by (relation "measure (\<lambda>(m, s). length s)") auto

declare clip_loop.simps [simp del]

definition clip :: "string \<Rightarrow> nat \<Rightarrow> string \<Rightarrow> string" where
  "clip s limit fallback =
     (let t = clip_loop limit (filter (\<lambda>c. c \<noteq> CHR 0x00) (to_valid_utf8 False ''?'' s)) in
      if t = [] \<or> t = ''decision:'' then fallback else t)"

definition Fields :: "receiptspec \<Rightarrow> decision_record \<Rightarrow> receipt_fields err" where
  "Fields rs r =
     bind_err (PolicyDecision rs (dr_outcome r)) (\<lambda>pd.
     bind_err (rs_hash rs (record_json r)) (\<lambda>h.
       let agent = (if wk_uid (dr_workload r) = []
                    then wk_namespace (dr_workload r) @ ''/'' @ wk_name (dr_workload r)
                    else wk_uid (dr_workload r));
           principal = ''system:clawdlinux-operator'';
           build = (\<lambda>pr. Inr \<lparr>fl_principal = pr, fl_agent = clip agent 128 ''unknown-workload'',
             fl_service = Service, fl_action = clip (''decision:'' @ dr_action r) 128 ''decision:unknown'',
             fl_params = h, fl_decision = pd, fl_status = statusCode (dr_outcome r)\<rparr>)
       in if dr_layer r = LayerHuman then
            (case dr_approval r of
               None \<Rightarrow> Inl ''receipts: human record without approver''
             | Some a \<Rightarrow> (if ab_approver a = [] then Inl ''receipts: human record without approver''
                         else build (clip (ab_approver a) 256 principal)))
          else build principal))"

section \<open>Lemmas on clip\<close>

text \<open>A text is valid when it is a sequence of runes.\<close>

definition is_rune :: "string \<Rightarrow> bool" where
  "is_rune r \<longleftrightarrow> r \<noteq> [] \<and> utf8_len r = length r"

lemma rune_head: "is_rune r \<Longrightarrow> utf8_len (r @ t) = length r"
  by (simp add: is_rune_def utf8_len_append)

lemma valid_utf8_rune: "is_rune r \<Longrightarrow> valid_utf8 (r @ t) = valid_utf8 t"
  using rune_head [of r t] by (simp add: valid_utf8.simps [of "r @ t"] is_rune_def)

lemma take_rune: "utf8_len s \<noteq> 0 \<Longrightarrow> is_rune (take (utf8_len s) s)"
  using utf8_len_take [of s] utf8_len_bounds [of s] by (auto simp: is_rune_def)

lemma valid_utf8_concat: "list_all is_rune rs \<Longrightarrow> valid_utf8 (concat rs)"
  by (induction rs) (simp_all add: valid_utf8_rune valid_utf8.simps [of "[]"])

lemma valid_utf8_runes: "valid_utf8 s \<Longrightarrow> \<exists>rs. list_all is_rune rs \<and> s = concat rs"
proof (induction s rule: valid_utf8.induct)
  case (1 s)
  show ?case
  proof (cases "s = []")
    case True
    then show ?thesis by (intro exI [of _ "[]"]) simp
  next
    case False
    then have n: "utf8_len s \<noteq> 0" "valid_utf8 (drop (utf8_len s) s)"
      using 1(2) by (auto simp: valid_utf8.simps [of s] split: if_splits)
    then obtain rs where "list_all is_rune rs" "drop (utf8_len s) s = concat rs"
      using 1(1) False by blast
    then show ?thesis
      using take_rune [OF n(1)] append_take_drop_id [of "utf8_len s" s]
      by (intro exI [of _ "take (utf8_len s) s # rs"]) simp
  qed
qed

lemma to_valid_utf8_valid: "valid_utf8 repl \<Longrightarrow> valid_utf8 (to_valid_utf8 b repl s)"
proof (induction b repl s rule: to_valid_utf8.induct)
  case (1 b repl s)
  obtain rs where rs: "list_all is_rune rs" "repl = concat rs" using valid_utf8_runes 1(3) by blast
  have app: "valid_utf8 t \<Longrightarrow> valid_utf8 (repl @ t)" for t
    using rs(1) unfolding rs(2) by (induction rs) (simp_all add: valid_utf8_rune)
  show ?case
    using 1 take_rune [of s] app
    by (auto simp: to_valid_utf8.simps [of b repl s] valid_utf8_rune valid_utf8.simps [of "[]"])
qed

lemma rune_cases:
  assumes "is_rune r"
  obtains c where "r = [c]" "byte c < 128"
  | c cs where "r = c # cs" "192 \<le> byte c" "list_all cont_byte cs" "length cs \<le> 3"
proof (cases r rule: utf8_len.cases)
  case (2 c)
  then show ?thesis using assms that(1) by (simp add: is_rune_def split: if_splits)
next
  case (3 c d)
  then have "utf8_two c d" using assms by (simp add: is_rune_def split: if_splits)
  then show ?thesis using 3 that(2) by (simp add: utf8_two_def between_def)
next
  case (4 c d e)
  then have "utf8_three c d e" using assms by (simp add: is_rune_def split: if_splits)
  then show ?thesis
    using 4 that(2) by (simp add: utf8_three_def between_def cont_byte_def split: if_splits)
next
  case (5 c d e f s)
  then have "utf8_four c d e f" "s = []" using assms by (simp_all add: is_rune_def split: if_splits)
  then show ?thesis
    using 5 that(2) by (simp add: utf8_four_def between_def cont_byte_def split: if_splits)
qed (use assms in \<open>simp add: is_rune_def\<close>)

lemma rune_bytes:
  assumes "is_rune r"
  shows "\<not> cont_byte (hd r) \<and> list_all cont_byte (tl r) \<and> length r \<le> 4
    \<and> (CHR 0x00 \<in> set r \<longrightarrow> r = [CHR 0x00])"
  using assms
proof (cases r rule: rune_cases)
  case (1 c)
  then show ?thesis by (simp add: cont_byte_def)
next
  case (2 c cs)
  have "\<not> cont_byte CHR 0x00" by (simp add: cont_byte_def)
  then have "CHR 0x00 \<notin> set cs" using 2(3) by (meson list_all_iff)
  moreover have "c \<noteq> CHR 0x00" using 2(2) by fastforce
  moreover have "\<not> cont_byte c" using 2(2) by (simp add: cont_byte_def)
  ultimately show ?thesis using 2 by simp
qed

lemma drop_nul_valid: "valid_utf8 s \<Longrightarrow> valid_utf8 (filter (\<lambda>c. c \<noteq> CHR 0x00) s)"
proof -
  assume "valid_utf8 s"
  then obtain rs where rs: "list_all is_rune rs" "s = concat rs" using valid_utf8_runes by blast
  have one: "filter (\<lambda>c. c \<noteq> CHR 0x00) r = (if r = [CHR 0x00] then [] else r)" if "is_rune r" for r
  proof (cases "r = [CHR 0x00]")
    case False
    then have "\<forall>c\<in>set r. c \<noteq> CHR 0x00" using rune_bytes [OF that] by blast
    then show ?thesis using False by (simp add: filter_id_conv)
  qed simp
  have "filter (\<lambda>c. c \<noteq> CHR 0x00) (concat rs) = concat (filter (\<lambda>r. r \<noteq> [CHR 0x00]) rs)"
    using rs(1) by (induction rs) (auto simp: one)
  moreover have "list_all is_rune (filter (\<lambda>r. r \<noteq> [CHR 0x00]) rs)"
    using rs(1) by (auto simp: list_all_iff)
  ultimately show ?thesis using valid_utf8_concat rs(2) by simp
qed

lemma last_rune_size_rune:
  assumes "is_rune r"
  shows "last_rune_size (s @ r) = length r"
proof -
  note b = rune_bytes [OF assms]
  have ne: "r \<noteq> []" "utf8_len r = length r" using assms by (simp_all add: is_rune_def)
  have c: "cont_byte ((s @ r) ! (length (s @ r) - k))" if "0 < k" "k < length r" for k
  proof -
    have "(s @ r) ! (length (s @ r) - k) = tl r ! (length r - k - 1)"
    proof -
      have "\<not> length (s @ r) - k < length s" "length (s @ r) - k - length s = Suc (length r - k - 1)"
        using that by auto
      then show ?thesis using that by (simp add: nth_append nth_tl)
    qed
    then show ?thesis using b that by (simp add: list_all_length)
  qed
  have h: "\<not> cont_byte ((s @ r) ! (length (s @ r) - length r))"
    using b ne by (simp add: nth_append hd_conv_nth)
  have d: "drop (length (s @ r) - length r) (s @ r) = r" by simp
  define f where "f = (\<lambda>k. if k \<le> length (s @ r) \<and> \<not> cont_byte ((s @ r) ! (length (s @ r) - k))
      then Some (if utf8_len (drop (length (s @ r) - k) (s @ r)) = k then k else 1) else None)"
  have less: "f k = None" if "0 < k" "k < length r" for k
    using c [OF that] by (simp add: f_def)
  have at: "f (length r) = Some (length r)"
    using h d ne by (simp add: f_def)
  have "0 < length r" "length r \<le> 4" using b ne by simp_all
  then have "length r = 1 \<or> length r = 2 \<or> length r = 3 \<or> length r = 4" by arith
  then have "first_some f [1, 2, 3, 4] = Some (length r)"
    using less at by (auto simp: orElse_def)
  moreover have "s @ r \<noteq> []" using ne by simp
  ultimately show ?thesis unfolding last_rune_size_def f_def [symmetric] by simp
qed

lemma clip_loop_ok:
  "valid_utf8 s \<Longrightarrow> valid_utf8 (clip_loop m s) \<and> length (clip_loop m s) \<le> m \<and> prefix (clip_loop m s) s"
proof (induction m s rule: clip_loop.induct)
  case (1 m s)
  show ?case
  proof (cases "length s \<le> m")
    case True
    then show ?thesis using 1 by (simp add: clip_loop.simps [of m s])
  next
    case False
    obtain rs where rs: "list_all is_rune rs" "s = concat rs" using valid_utf8_runes 1(2) by blast
    then obtain r rs' where r: "rs = rs' @ [r]" using False by (cases rs rule: rev_cases) auto
    then have r': "is_rune r" "list_all is_rune rs'" "s = concat rs' @ r" using rs by simp_all
    have t: "take (length s - max 1 (last_rune_size s)) s = concat rs'"
      using last_rune_size_rune [OF r'(1), of "concat rs'"] r'(1) unfolding r'(3)
      by (cases r) (simp_all add: is_rune_def)
    have p: "prefix (concat rs') s" using r'(3) by simp
    have e: "clip_loop m s = clip_loop m (concat rs')"
      unfolding clip_loop.simps [of m s] t using False by simp
    show ?thesis
      using 1(1) [OF False] valid_utf8_concat [OF r'(2)] p unfolding t e
      by (auto intro: prefix_order.trans)
  qed
qed

definition receipt_text :: "nat \<Rightarrow> string \<Rightarrow> bool" where
  "receipt_text limit s \<longleftrightarrow> s \<noteq> [] \<and> length s \<le> limit \<and> valid_utf8 s \<and> CHR 0x00 \<notin> set s"

lemma clip_text:
  assumes "receipt_text limit fallback"
  shows "receipt_text limit (clip s limit fallback)"
proof -
  define u where "u = filter (\<lambda>c. c \<noteq> CHR 0x00) (to_valid_utf8 False ''?'' s)"
  have "valid_utf8 ''?''" by (simp add: valid_utf8.simps)
  then have "valid_utf8 u" unfolding u_def by (intro drop_nul_valid to_valid_utf8_valid)
  then have l: "valid_utf8 (clip_loop limit u)" "length (clip_loop limit u) \<le> limit"
      "prefix (clip_loop limit u) u"
    using clip_loop_ok by simp_all
  have "CHR 0x00 \<notin> set (clip_loop limit u)"
    using set_mono_prefix [OF l(3)] by (auto simp: u_def)
  then show ?thesis
    using assms l by (simp add: clip_def Let_def u_def [symmetric] receipt_text_def)
qed

lemma to_valid_utf8_id: "valid_utf8 s \<Longrightarrow> to_valid_utf8 b repl s = s"
proof (induction b repl s rule: to_valid_utf8.induct)
  case (1 b repl s)
  then show ?case
    by (auto simp: to_valid_utf8.simps [of b repl s] valid_utf8.simps [of s] split: if_splits)
qed

lemma clip_id:
  assumes "receipt_text limit s" "s \<noteq> ''decision:''"
  shows "clip s limit fallback = s"
proof -
  have "\<forall>c\<in>set s. c \<noteq> CHR 0x00" using assms(1) unfolding receipt_text_def by blast
  then have "filter (\<lambda>c. c \<noteq> CHR 0x00) s = s" by (simp add: filter_id_conv)
  then show ?thesis
    using assms by (simp add: clip_def receipt_text_def to_valid_utf8_id clip_loop.simps [of limit s])
qed

section \<open>What records and receipts say\<close>

lemma bind_err_Inr [simp]: "bind_err x f = Inr y \<longleftrightarrow> (\<exists>v. x = Inr v \<and> f v = Inr y)"
  by (cases x) (simp_all add: bind_err_def)

lemma Fields_Inr:
  assumes "Fields rs r = Inr f"
  shows "PolicyDecision rs (dr_outcome r) = Inr (fl_decision f)"
    "fl_status f = statusCode (dr_outcome r)"
    "rs_hash rs (record_json r) = Inr (fl_params f)"
    "receipt_text 128 (fl_agent f)" "receipt_text 128 (fl_action f)" "receipt_text 256 (fl_principal f)"
    "dr_layer r = LayerHuman \<Longrightarrow> \<exists>a. dr_approval r = Some a \<and>
       fl_principal f = clip (ab_approver a) 256 ''system:clawdlinux-operator''"
proof -
  have ascii: "valid_utf8 ''unknown-workload''" "valid_utf8 ''decision:unknown''"
      "valid_utf8 ''system:clawdlinux-operator''"
    by (simp_all add: valid_utf8.simps)
  have fb: "receipt_text 128 ''unknown-workload''" "receipt_text 128 ''decision:unknown''"
      "receipt_text 256 ''system:clawdlinux-operator''"
    using ascii by (simp_all add: receipt_text_def)
  note c = fb clip_text [OF fb(1)] clip_text [OF fb(2)] clip_text [OF fb(3)]
  show "PolicyDecision rs (dr_outcome r) = Inr (fl_decision f)"
    "fl_status f = statusCode (dr_outcome r)"
    "rs_hash rs (record_json r) = Inr (fl_params f)"
    "receipt_text 128 (fl_agent f)" "receipt_text 128 (fl_action f)" "receipt_text 256 (fl_principal f)"
    "dr_layer r = LayerHuman \<Longrightarrow> \<exists>a. dr_approval r = Some a \<and>
       fl_principal f = clip (ab_approver a) 256 ''system:clawdlinux-operator''"
    using assms c by (auto simp: Fields_def Let_def split: if_splits option.splits)
qed

text \<open>The digest of a payload depends on its JSON text only.\<close>

lemma PayloadSHA256_text: "Marshal v = Marshal w \<Longrightarrow> PayloadSHA256 v = PayloadSHA256 w"
  by (simp add: PayloadSHA256_def)

lemma enc_json_marshal_cong:
  "marshal v = marshal w \<Longrightarrow> Marshal (ExecutionPayload a v c) = Marshal (ExecutionPayload a w c)"
  by (simp add: Marshal_def ExecutionPayload_def)

lemma digest_of_stored:
  assumes "wf_value (GMap m)" "Marshal (GMap m) = Some stored"
  shows "\<exists>w. decode_map stored = Some w \<and>
    (\<forall>a c. PayloadSHA256 (ExecutionPayload a w c) = PayloadSHA256 (ExecutionPayload a (GMap m) c))"
  using decode_map_marshal [OF assms] enc_json_marshal_cong PayloadSHA256_text by metis

lemma identity_text: "receipt_text 256 (IdentityDigest u) \<and> IdentityDigest u \<noteq> ''decision:''"
proof -
  define h where "h = sha256_hex (identityDomain @ [CHR 0x00] @ u)"
  have b: "48 \<le> byte c \<and> byte c < 128" if "c \<in> set h" for c
    using that hex_ascii unfolding h_def sha256_hex_def by blast
  have l: "length h = 64" by (simp add: h_def)
  have d: "IdentityDigest u = ''sha256:'' @ h" by (simp add: IdentityDigest_def h_def)
  have "byte c < 128" if "c \<in> set (''sha256:'' @ h)" for c
    using that b by auto
  then have "valid_utf8 (''sha256:'' @ h)" by (rule valid_utf8_ascii)
  moreover have "CHR 0x00 \<notin> set h" using b by fastforce
  ultimately show ?thesis unfolding d using l by (simp add: receipt_text_def)
qed

lemma NewHumanRecord_Inr:
  assumes "NewHumanRecord rs p = Inr r"
  shows "dr_layer r = LayerHuman" "OutcomeForLabel (ab_label (hp_approval p)) = Inr (dr_outcome r)"
    "PayloadSHA256 (hp_payload p) = Inr (dr_payload_sha256 r)"
    "dr_approval r = Some ((hp_approval p)
       \<lparr>ab_edited := sortedCopy (ab_edited (hp_approval p)),
        ab_consumed_sha256 := ConsumedIDSHA256 (wk_uid (hp_workload p)) (ab_pending_id (hp_approval p)),
        ab_approver := IdentityDigest (ab_approver (hp_approval p))\<rparr>)"
  using assms
  by (auto simp: NewHumanRecord_def NewDecisionRecord_def build_record_def human_base_def Let_def
      split: if_splits prod.splits)

lemma human_receipt:
  assumes "NewHumanRecord rs p = Inr r" "Fields rs r = Inr f"
  shows "fl_principal f = IdentityDigest (ab_approver (hp_approval p)) \<and>
    fl_decision f = (if ab_label (hp_approval p) = LabelReject then rs_deny rs else rs_allow rs) \<and>
    fl_status f = (if ab_label (hp_approval p) = LabelReject then 403 else 200)"
proof -
  have "fl_principal f = IdentityDigest (ab_approver (hp_approval p))"
    using Fields_Inr(7) [OF assms(2)] NewHumanRecord_Inr [OF assms(1)] identity_text
    by (auto intro!: clip_id)
  then show ?thesis
    using NewHumanRecord_Inr(2) [OF assms(1)] Fields_Inr(1,2) [OF assms(2)]
    by (auto simp: OutcomeForLabel_def PolicyDecision_def statusCode_def outcome_names
        LabelApprove_def LabelReject_def LabelEdit_def split: if_splits)
qed

section \<open>Properties\<close>

text \<open>The digest of an execution payload survives storage. A proposal with valid
  UTF-8 strings and distinct keys that json.Marshal stores can be decoded again with its
  numbers as written, and the payload built from the decoded proposal has the digest
  of the payload built from the original, under every action name and
  confidence: what is executed after an approval is what the first record digested.\<close>

lemma payload_digest_survives_storage:
  assumes "wf_value (GMap m)" "Marshal (GMap m) = Some stored"
  shows "\<exists>w. decode_map stored = Some w \<and>
    PayloadSHA256 (ExecutionPayload a w c) = PayloadSHA256 (ExecutionPayload a (GMap m) c)"
  using digest_of_stored [OF assms] by blast

definition wit_proposal :: "(string \<times> gany) list" where
  "wit_proposal = [(''replicas'', GNumber ''3''), (''action'', GStr ''scale'')]"

lemma payload_digest_survives_storage_witness:
  "\<exists>w. decode_map (the (Marshal (GMap wit_proposal))) = Some w \<and>
    PayloadSHA256 (ExecutionPayload ''scale'' w ''0.90'')
      = PayloadSHA256 (ExecutionPayload ''scale'' (GMap wit_proposal) ''0.90'')"
proof -
  have w: "wf_value (GMap wit_proposal)" by code_simp
  have m: "Marshal (GMap wit_proposal) = Some (the (Marshal (GMap wit_proposal)))" by code_simp
  show ?thesis by (rule payload_digest_survives_storage [OF w m])
qed

text \<open>Every receipt made from a record is well formed and says what the record says. Its
  principal, agent and action are non-empty valid UTF-8 without NUL and within 256, 128
  and 128 bytes whatever the names are; its parameter hash is the record's; its
  decision is the allow word and its status 200 exactly for the outcomes allow, approved
  and edited.\<close>

lemma Fields_well_formed:
  assumes "Fields rs r = Inr f" "rs_allow rs \<noteq> rs_deny rs"
  shows "receipt_text 256 (fl_principal f) \<and> receipt_text 128 (fl_agent f) \<and>
    receipt_text 128 (fl_action f) \<and> rs_hash rs (record_json r) = Inr (fl_params f) \<and>
    (fl_decision f = rs_allow rs) = (dr_outcome r \<in> {OutcomeAllow, OutcomeApproved, OutcomeEdited}) \<and>
    (fl_status f = 200) = (fl_decision f = rs_allow rs)"
  using Fields_Inr [OF assms(1)] assms(2)
  by (auto simp: PolicyDecision_def statusCode_def outcome_names split: if_splits)

definition wit_spec :: receiptspec where
  "wit_spec = \<lparr>rs_canonical = (\<lambda>j. Inr (enc_json j)), rs_hash = (\<lambda>j. Inr (take 32 (enc_json j))),
     rs_allow = ''allow'', rs_deny = ''deny''\<rparr>"

definition wit_record :: decision_record where
  "wit_record = build_record
     \<lparr>rp_workload = \<lparr>wk_namespace = ''ns'', wk_name = ''w'', wk_uid = ''u1''\<rparr>, rp_action = ''scale'',
      rp_input = \<lparr>in_declared = zero_declared, in_observed = zero_observed, in_claimed = zero_claimed\<rparr>,
      rp_payload = GMap wit_proposal, rp_layers = empty_layers,
      rp_result = \<lparr>r_outcome = Deny, r_layer = ''threshold'', r_reasons = []\<rparr>, rp_packs = [],
      rp_mode = ''strict'', rp_model = None\<rparr> OutcomeDeny LayerThreshold [] [] [] [] []"

lemma Fields_well_formed_witness:
  "\<exists>f. Fields wit_spec wit_record = Inr f \<and> fl_decision f \<noteq> rs_allow wit_spec"
proof -
  have o: "dr_outcome wit_record = OutcomeDeny" "dr_layer wit_record = LayerThreshold"
    by (simp_all add: wit_record_def build_record_def Let_def)
  have "\<exists>f. Fields wit_spec wit_record = Inr f"
    unfolding Fields_def Let_def
    by (simp add: o bind_err_def PolicyDecision_def wit_spec_def outcome_names layer_names)
  then obtain f where f: "Fields wit_spec wit_record = Inr f" by blast
  have d: "rs_allow wit_spec \<noteq> rs_deny wit_spec" by (simp add: wit_spec_def)
  show ?thesis
    using Fields_well_formed [OF f d] f by (simp add: o outcome_names)
qed

end
