(* ===== verification/ReceiptLog.thy ===== *)
theory ReceiptLog
  imports Receipts
begin

text \<open>
  pkg/receipts/local.go: the writer of one directory. The disk is the two files
  receipts.jsonl and records.jsonl. A write that fails, or in which the
  process stops, leaves a prefix of the line on the disk (\<open>Torn\<close>); a write
  that returned is synced (\<open>Done\<close>). Opening repairs the two files.

  The receipt format is a parameter (\<open>receipt_lib\<close>): the text of a receipt, its
  entry hash, and the signed next receipt of a chain. The library returns the canonical JSON of
  a record (RFC 8785, where <, > and & stand as they are). Inside the line of records.jsonl
  json.Marshal compacts that raw text and escapes <, >, &, U+2028 and U+2029 in its strings; as the
  other characters of canonical text are written the way encoding/json writes them, the result is
  the encoding of the value the text has.
\<close>

record receipt =
  rv_seq :: int
  rv_prev :: string
  rv_entry :: string
  rv_kid :: string
  rv_fields :: receipt_fields

record receipt_lib =
  rl_parse :: "string \<Rightarrow> receipt err"
  rl_line :: "receipt \<Rightarrow> string err"
  rl_entry :: "receipt \<Rightarrow> string err"
  rl_kid :: "string \<Rightarrow> string"
  rl_next :: "string \<Rightarrow> int \<Rightarrow> string \<Rightarrow> receipt_fields \<Rightarrow> receipt err"

section \<open>Files\<close>

abbreviation lf :: char where "lf \<equiv> CHR 0x0A"

record disk =
  dk_receipts :: string
  dk_records :: string

datatype io = Done | Torn nat

definition appendSync :: "io \<Rightarrow> string \<Rightarrow> string \<Rightarrow> string \<times> bool" where
  "appendSync i file line = (case i of
       Done \<Rightarrow> (file @ line @ [lf], True)
     | Torn n \<Rightarrow> (file @ take n (line @ [lf]), False))"

text \<open>The newline-terminated lines, and the number of bytes they cover.\<close>

definition completeLines :: "string \<Rightarrow> string list \<times> nat" where
  "completeLines data = (let parts = split_byte lf data
     in (butlast parts, length data - length (List.last parts)))"

definition truncateTo :: "bool \<Rightarrow> string \<Rightarrow> nat \<Rightarrow> string \<times> bool" where
  "truncateTo works file keep =
     (if length file \<le> keep then (file, True)
      else if works then (take keep file, True) else (file, False))"

section \<open>Record lines\<close>

definition record_line :: "int \<Rightarrow> string \<Rightarrow> string err" where
  "record_line seq canonical = (case parse_json canonical of
       None \<Rightarrow> Inl ''json: invalid raw message''
     | Some j \<Rightarrow> Inr (enc_json (JObj [(''seq'', jint seq), (''record'', j)])))"

text \<open>A uint64 field: decimal digits only.\<close>

definition uint_field :: "string \<Rightarrow> (string \<times> json) list \<Rightarrow> int option" where
  "uint_field name m =
     fold (\<lambda>p acc. if field_matches name p
                   then (case (snd p, acc) of
                           (JNum n, Some _) \<Rightarrow> (if n \<noteq> [] \<and> list_all is_digit n \<and> parse_nat_acc 0 n < 2 ^ 64
                                               then Some (int (parse_nat_acc 0 n)) else None)
                         | (JNull, Some a) \<Rightarrow> Some a | _ \<Rightarrow> None)
                   else acc) m (Some 0)"

definition raw_field :: "string \<Rightarrow> (string \<times> json) list \<Rightarrow> json" where
  "raw_field name m = fold (\<lambda>p acc. if field_matches name p then snd p else acc) m JNull"

definition decode_record_line :: "string \<Rightarrow> (int \<times> json) option" where
  "decode_record_line s = (case parse_json s of
       Some JNull \<Rightarrow> Some (0, JNull)
     | Some (JObj m) \<Rightarrow> map_option (\<lambda>q. (q, raw_field ''record'' m)) (uint_field ''seq'' m)
     | _ \<Rightarrow> None)"

section \<open>The writer\<close>

record writer =
  w_priv :: string
  w_kid :: string
  w_seq :: int
  w_head :: string
  w_broken :: bool
  w_closed :: bool

definition zero_hash :: string where
  "zero_hash = replicate 32 CHR 0x00"

definition inconsistent :: "nat \<Rightarrow> string" where
  "inconsistent i = ''receipts: receipts.jsonl line '' @ itoa (int i) @ '': chain inconsistent, refusing to resume''"

text \<open>The walk over the stored receipts: the last sequence number, its entry hash and its signer.\<close>

fun check_chain :: "receipt_lib \<Rightarrow> nat \<Rightarrow> int \<times> string \<times> string \<Rightarrow> string list \<Rightarrow> (int \<times> string \<times> string) err" where
  "check_chain lib i st [] = Inr st"
| "check_chain lib i (seq, head, kid) (line # ls) =
     (case rl_parse lib line of
        Inl e \<Rightarrow> Inl (''receipts: receipts.jsonl line '' @ itoa (int i) @ '': '' @ e)
      | Inr r \<Rightarrow>
          (if rl_entry lib r \<noteq> Inr (rv_entry r) \<or> rv_seq r \<noteq> seq + 1 \<or> rv_prev r \<noteq> head
           then Inl (inconsistent i)
           else check_chain lib (i + 1) (rv_seq r, rv_entry r, rv_kid r) ls))"

text \<open>The bytes of the record lines to keep: up to the first one past the last receipt.\<close>

fun keep_records :: "nat \<Rightarrow> int \<Rightarrow> nat \<Rightarrow> nat \<Rightarrow> string list \<Rightarrow> nat err" where
  "keep_records i seq recKeep offset [] = Inr recKeep"
| "keep_records i seq recKeep offset (line # ls) =
     (case decode_record_line line of
        None \<Rightarrow> Inl (''receipts: records.jsonl line '' @ itoa (int i) @ '': invalid'')
      | Some (q, _) \<Rightarrow>
          (if q > seq then Inr offset
           else keep_records (i + 1) seq recKeep (offset + length line + 1) ls))"

text \<open>Which of the file operations of an open succeed.\<close>

record open_io =
  oi_read_receipts :: bool
  oi_trunc_receipts :: bool
  oi_read_records :: bool
  oi_trunc_records :: bool
  oi_open_files :: bool

definition open_records :: "open_io \<Rightarrow> int \<Rightarrow> string \<Rightarrow> string \<times> string option" where
  "open_records ios seq recData =
     (if \<not> oi_read_records ios then (recData, Some ''read'')
      else let (recLines, recKeep0) = completeLines recData in
        (case keep_records 1 seq recKeep0 0 recLines of
           Inl e \<Rightarrow> (recData, Some e)
         | Inr recKeep \<Rightarrow>
             (let (file, good) = truncateTo (oi_trunc_records ios) recData recKeep
              in if \<not> good then (file, Some ''truncate'')
                 else if \<not> oi_open_files ios then (file, Some ''open'') else (file, None))))"

definition open_w :: "receipt_lib \<Rightarrow> open_io \<Rightarrow> string \<Rightarrow> disk \<Rightarrow> disk \<times> writer err" where
  "open_w lib ios priv dk =
     (if \<not> oi_read_receipts ios then (dk, Inl ''read'')
      else let data = dk_receipts dk; (ls, keep) = completeLines data; kid = rl_kid lib priv in
        (case check_chain lib 1 (0, zero_hash, []) ls of
           Inl e \<Rightarrow> (dk, Inl e)
         | Inr (seq, head, lastKID) \<Rightarrow>
             (if seq > 0 \<and> lastKID \<noteq> kid
              then (dk, Inl (''receipts: chain head signed by '' @ lastKID @ '', key is '' @ kid
                             @ '': key rotation is not supported''))
              else let (file, good) = truncateTo (oi_trunc_receipts ios) data keep;
                       dk1 = dk\<lparr>dk_receipts := file\<rparr>
                   in if \<not> good then (dk1, Inl ''truncate'')
                      else let (rfile, e) = open_records ios seq (dk_records dk1);
                               dk2 = dk1\<lparr>dk_records := rfile\<rparr>
                           in (case e of Some m \<Rightarrow> (dk2, Inl m)
                               | None \<Rightarrow> (dk2, Inr \<lparr>w_priv = priv, w_kid = kid, w_seq = seq, w_head = head,
                                                    w_broken = False, w_closed = False\<rparr>)))))"

definition OpenLocal :: "receipt_lib \<Rightarrow> open_io \<Rightarrow> bool \<Rightarrow> string \<Rightarrow> disk \<Rightarrow> disk \<times> writer err" where
  "OpenLocal lib ios locked priv dk =
     (if length priv \<noteq> 64 then (dk, Inl ''receipts: invalid ed25519 private key'')
      else if locked then (dk, Inl ''lock'')
      else open_w lib ios priv dk)"

definition ErrClosed :: string where "ErrClosed = ''receipts: writer closed''"
definition ErrWriterBroken :: string where
  "ErrWriterBroken = ''receipts: writer broken by an earlier write failure, reopen to repair''"

text \<open>
  Append, with the outcome of its two writes. A failure in or after the record line
  marks the writer broken; the chain has moved on in memory.
\<close>

definition store_lines ::
  "receipt_lib \<Rightarrow> io \<Rightarrow> io \<Rightarrow> string \<Rightarrow> receipt \<Rightarrow> disk \<Rightarrow> disk \<times> bool" where
  "store_lines lib i1 i2 canonical r dk =
     (case record_line (rv_seq r) canonical of
        Inl e \<Rightarrow> (dk, False)
      | Inr recLine \<Rightarrow>
          (let (recs, ok1) = appendSync i1 (dk_records dk) recLine; dk1 = dk\<lparr>dk_records := recs\<rparr>
           in if \<not> ok1 then (dk1, False)
              else (case rl_line lib r of
                  Inl e \<Rightarrow> (dk1, False)
                | Inr line \<Rightarrow>
                    (let (rfile, ok2) = appendSync i2 (dk_receipts dk1) line
                     in (dk1\<lparr>dk_receipts := rfile\<rparr>, ok2)))))"

definition Append ::
  "receiptspec \<Rightarrow> receipt_lib \<Rightarrow> io \<Rightarrow> io \<Rightarrow> decision_record \<Rightarrow> writer \<Rightarrow> disk
     \<Rightarrow> writer \<times> disk \<times> receipt err" where
  "Append rs lib i1 i2 rec w dk =
     (case rs_canonical rs (record_json rec) of
        Inl e \<Rightarrow> (w, dk, Inl e)
      | Inr canonical \<Rightarrow>
          (case Fields rs rec of
             Inl e \<Rightarrow> (w, dk, Inl e)
           | Inr flds \<Rightarrow>
               (if w_closed w then (w, dk, Inl ErrClosed)
                else if w_broken w then (w, dk, Inl ErrWriterBroken)
                else (case rl_next lib (w_priv w) (w_seq w) (w_head w) flds of
                    Inl e \<Rightarrow> (w, dk, Inl e)
                  | Inr r \<Rightarrow>
                      (let (dk1, good) = store_lines lib i1 i2 canonical r dk;
                           w1 = w\<lparr>w_seq := rv_seq r, w_head := rv_entry r\<rparr>
                       in if good then (w1, dk1, Inr r)
                          else (w1\<lparr>w_broken := True\<rparr>, dk1,
                                Inl (''receipts: store receipt seq '' @ itoa (rv_seq r) @ '': failed'')))))))"

definition Ready :: "writer \<Rightarrow> bool" where
  "Ready w \<longleftrightarrow> \<not> w_closed w \<and> \<not> w_broken w"

definition Head :: "writer \<Rightarrow> int \<times> string" where
  "Head w = (w_seq w, w_head w)"

definition ErrNoSuchReceipt :: string where
  "ErrNoSuchReceipt = ''receipts: no receipt with that seq''"

definition find_record :: "int \<Rightarrow> string list \<Rightarrow> json option" where
  "find_record seq ls = first_some (\<lambda>line. case decode_record_line line of
       Some (q, j) \<Rightarrow> (if q = seq then Some j else None) | None \<Rightarrow> None) ls"

text \<open>
  A lookup reads the two files; \<open>e1\<close> and \<open>e2\<close> are the errors of these reads, if any. A file that
  is missing reads as empty.
\<close>

definition Lookup :: "receipt_lib \<Rightarrow> string option \<Rightarrow> string option \<Rightarrow> int \<Rightarrow> writer \<Rightarrow> disk \<Rightarrow> (receipt \<times> json) err" where
  "Lookup lib e1 e2 seq w dk =
     (if w_closed w then Inl ErrClosed
      else if seq = 0 \<or> seq > w_seq w then Inl ErrNoSuchReceipt
      else case e1 of Some e \<Rightarrow> Inl e
      | None \<Rightarrow>
        let ls = fst (completeLines (dk_receipts dk)) in
        if seq > int (length ls) then Inl ErrNoSuchReceipt
        else (case rl_parse lib (ls ! nat (seq - 1)) of
            Inl e \<Rightarrow> Inl (''receipts: receipt seq '' @ itoa seq @ '' unreadable'')
          | Inr r \<Rightarrow>
              (if rv_seq r \<noteq> seq then Inl (''receipts: receipt seq '' @ itoa seq @ '' unreadable'')
               else case e2 of Some e \<Rightarrow> Inl e
               | None \<Rightarrow>
                 (case find_record seq (fst (completeLines (dk_records dk))) of
                   Some j \<Rightarrow> Inr (r, j)
                 | None \<Rightarrow> Inl (''receipts: record for seq '' @ itoa seq @ '' missing'')))))"

definition Close :: "writer \<Rightarrow> writer" where
  "Close w = w\<lparr>w_closed := True\<rparr>"

text \<open>The directory and the process that may hold a writer of it.\<close>

record log_state =
  ls_disk :: disk
  ls_writer :: "writer option"

definition empty_disk :: disk where
  "empty_disk = \<lparr>dk_receipts = [], dk_records = []\<rparr>"

inductive log_step :: "receiptspec \<Rightarrow> receipt_lib \<Rightarrow> log_state \<Rightarrow> log_state \<Rightarrow> bool" for rs lib where
  open_ok: "OpenLocal lib ios False priv dk = (dk', Inr w) \<Longrightarrow>
     log_step rs lib \<lparr>ls_disk = dk, ls_writer = None\<rparr> \<lparr>ls_disk = dk', ls_writer = Some w\<rparr>"
| open_fails: "OpenLocal lib ios False priv dk = (dk', Inl e) \<Longrightarrow>
     log_step rs lib \<lparr>ls_disk = dk, ls_writer = None\<rparr> \<lparr>ls_disk = dk', ls_writer = None\<rparr>"
| appended: "Append rs lib i1 i2 rec w dk = (w', dk', res) \<Longrightarrow>
     log_step rs lib \<lparr>ls_disk = dk, ls_writer = Some w\<rparr> \<lparr>ls_disk = dk', ls_writer = Some w'\<rparr>"
| stops: "log_step rs lib \<lparr>ls_disk = dk, ls_writer = Some w\<rparr> \<lparr>ls_disk = dk, ls_writer = None\<rparr>"

inductive log_reach :: "receiptspec \<Rightarrow> receipt_lib \<Rightarrow> log_state \<Rightarrow> log_state \<Rightarrow> bool" for rs lib s where
  start: "log_reach rs lib s s"
| more: "log_reach rs lib s t \<Longrightarrow> log_step rs lib t u \<Longrightarrow> log_reach rs lib s u"

section \<open>Lines\<close>

definition file_of :: "string list \<Rightarrow> string \<Rightarrow> string" where
  "file_of ls t = concat (map (\<lambda>l. l @ [lf]) ls) @ t"

lemma split_no_lf: "lf \<notin> set l \<Longrightarrow> split_byte lf (l @ lf # s) = l # split_byte lf s"
  by (induction l) auto

lemma split_tail: "lf \<notin> set t \<Longrightarrow> split_byte lf t = [t]"
  by (induction t) auto

lemma split_file:
  "list_all (\<lambda>l. lf \<notin> set l) ls \<Longrightarrow> lf \<notin> set t \<Longrightarrow> split_byte lf (file_of ls t) = ls @ [t]"
  by (induction ls) (simp_all add: file_of_def split_no_lf split_tail)

lemma completeLines_file:
  "list_all (\<lambda>l. lf \<notin> set l) ls \<Longrightarrow> lf \<notin> set t \<Longrightarrow>
     completeLines (file_of ls t) = (ls, length (file_of ls []))"
  by (simp add: completeLines_def split_file Let_def) (simp add: file_of_def)

lemma file_of_append: "file_of (ls @ ms) t = file_of ls [] @ file_of ms t"
  by (simp add: file_of_def)

lemma length_file_of: "length (file_of (l # ls) t) = length l + 1 + length (file_of ls t)"
  by (simp add: file_of_def)

lemma truncate_file:
  "truncateTo works (file_of (ls @ ms) t) (length (file_of ls [])) =
     (if works \<or> file_of ms t = [] then (file_of ls [], True) else (file_of (ls @ ms) t, False))"
  by (auto simp: truncateTo_def file_of_append)

lemma append_file:
  assumes "lf \<notin> set line"
  shows "\<exists>ms t. appendSync i (file_of ls []) line = (file_of (ls @ ms) t, i = Done) \<and>
     lf \<notin> set t \<and> (ms = [] \<or> ms = [line] \<and> t = []) \<and> (i = Done \<longrightarrow> ms = [line])"
proof (cases i)
  case Done
  then show ?thesis
    by (intro exI [of _ "[line]"] exI [of _ "[]"]) (simp add: appendSync_def file_of_def)
next
  case (Torn n)
  show ?thesis
  proof (cases "length line < n")
    case True
    then show ?thesis
      using Torn by (intro exI [of _ "[line]"] exI [of _ "[]"]) (simp add: appendSync_def file_of_def)
  next
    case False
    then have "take n (line @ [lf]) = take n line" "lf \<notin> set (take n line)"
      using assms by (auto dest: in_set_takeD)
    then show ?thesis
      using Torn by (intro exI [of _ "[]"] exI [of _ "take n line"]) (simp add: appendSync_def file_of_def)
  qed
qed

section \<open>Record lines decode to their sequence number\<close>

lemma hex_digit_lf: "n < 16 \<Longrightarrow> hex_digit n \<noteq> lf"
proof
  assume n: "n < 16" "hex_digit n = lf"
  then have "byte (hex_digit n) = (10::nat)" by simp
  then show False using n(1) by (auto simp: hex_digit_def of_char_of split: if_splits)
qed

lemma escape_lf: "lf \<notin> set (u_escape n)" "lf \<notin> set (escape_ascii c)"
proof -
  show u: "lf \<notin> set (u_escape n)" for n
    using hex_digit_lf [symmetric] by (simp add: u_escape_def)
  show "lf \<notin> set (escape_ascii c)" using u by (auto simp: escape_ascii_def)
qed

lemma rune_lf:
  assumes "is_rune r" "\<not> byte (hd r) < 128"
  shows "lf \<notin> set r"
  using assms(1)
proof (cases r rule: rune_cases)
  case (2 c cs)
  have "\<not> cont_byte lf" by (simp add: cont_byte_def)
  then have "lf \<notin> set cs" using 2(3) by (meson list_all_iff)
  then show ?thesis using 2 by auto
qed (use assms(2) in simp)

lemma enc_chars_no_lf: "lf \<notin> set (enc_chars s)"
proof (induction s rule: enc_chars.induct)
  case (1 s)
  show ?case
  proof (cases s)
    case (Cons c t)
    show ?thesis
    proof (cases "byte c < 128")
      case True
      then show ?thesis
        using 1(1) [OF Cons] escape_lf(2) [of c] by (simp add: Cons enc_chars.simps [of "c # t"])
    next
      case False
      show ?thesis
      proof (cases "utf8_len s = 0")
        case True
        then show ?thesis
          using 1(2) [OF Cons False] escape_lf(1) False
          by (simp add: Cons enc_chars.simps [of "c # t"] del: utf8_len.simps)
      next
        case ne: False
        have "is_rune (take (utf8_len s) s)" using ne by (rule take_rune)
        moreover have "hd (take (utf8_len s) s) = c" using ne by (simp add: Cons hd_take)
        ultimately have "lf \<notin> set (take (utf8_len s) s)" using rune_lf False by metis
        then show ?thesis
          using 1(3-5) [OF Cons False ne] escape_lf(1) unfolding enc_chars_high [OF Cons False ne]
          by simp
      qed
    qed
  qed (simp add: enc_chars.simps)
qed

lemma number_shape_no_lf: "number_shape n \<Longrightarrow> lf \<notin> set n"
proof -
  assume "number_shape n"
  then obtain sg ip fr ex where n: "n = sg @ ip @ fr @ ex" "sg \<in> {[], ''-''}"
      "int_shape ip" "frac_shape fr" "expo_shape ex"
    by (auto simp: number_shape_def)
  have d: "lf \<notin> set ds" if "digits ds" for ds
  proof
    assume "lf \<in> set ds"
    then have "is_digit lf" using that unfolding digits_def list_all_iff by blast
    then show False by (simp add: is_digit_def)
  qed
  have "lf \<notin> set ip" using n(3) d by (auto simp: int_shape_def)
  moreover have "lf \<notin> set fr" using n(4) d by (cases fr) (auto simp: frac_shape_def)
  moreover have "lf \<notin> set ex" using n(5) d by (auto simp: expo_shape_def)
  ultimately show ?thesis using n(1,2) by auto
qed

lemma join_no_lf: "(\<And>x. x \<in> set xs \<Longrightarrow> lf \<notin> set x) \<Longrightarrow> lf \<notin> set (join '','' xs)"
  by (induction "'',''" xs rule: join.induct) auto

lemma enc_json_no_lf: "wf_json j \<Longrightarrow> lf \<notin> set (enc_json j)"
proof (induction j)
  case (JNum n)
  then show ?case using number_text_valid valid_number_shape number_shape_no_lf by simp
next
  case (JStr s)
  then show ?case using enc_chars_no_lf by (simp add: enc_string_def)
next
  case (JArr vs)
  then have "lf \<notin> set (join '','' (map enc_json vs))"
    by (intro join_no_lf) (auto simp: list_all_iff)
  then show ?case by simp
next
  case (JObj m)
  have "lf \<notin> set (join '','' (map (\<lambda>p. enc_string (fst p) @ '':'' @ enc_json (snd p)) m))"
  proof (rule join_no_lf)
    fix x assume "x \<in> set (map (\<lambda>p. enc_string (fst p) @ '':'' @ enc_json (snd p)) m)"
    then obtain p where p: "p \<in> set m" "x = enc_string (fst p) @ '':'' @ enc_json (snd p)" by auto
    have "snd p \<in> Basic_BNFs.snds p" by (cases p) (simp add: snds.simps)
    moreover have "wf_json (snd p)" using JObj.prems p(1) by (simp add: list_all_iff)
    ultimately have "lf \<notin> set (enc_json (snd p))" using JObj.IH p(1) by blast
    then show "lf \<notin> set x" using p(2) enc_chars_no_lf by (simp add: enc_string_def)
  qed
  then show ?case by simp
qed simp_all

definition line_of :: "int \<Rightarrow> json \<Rightarrow> string" where
  "line_of q j = enc_json (JObj [(''seq'', jint q), (''record'', j)])"

lemma record_line_json: "parse_json c = Some j \<Longrightarrow> record_line q c = Inr (line_of q j)"
  by (simp add: record_line_def line_of_def)

lemma line_wf: "wf_json j \<Longrightarrow> wf_json (JObj [(''seq'', jint q), (''record'', j)])"
  using itoa_shape number_shape_text by (auto simp: jint_def intro!: valid_utf8_ascii)

lemma line_of_no_lf: "wf_json j \<Longrightarrow> lf \<notin> set (line_of q j)"
  unfolding line_of_def using line_wf by (rule enc_json_no_lf)

lemma decode_line_of:
  assumes "wf_json j" "0 \<le> q" "q < 2 ^ 64"
  shows "decode_record_line (line_of q j) = Some (q, j)"
proof -
  have "itoa q = nat_str (nat q)" using assms(2) by (simp add: itoa_def)
  moreover have "list_all is_digit (nat_str (nat q))" using nat_str_digits by (auto simp: list_all_iff)
  moreover have "nat q < 2 ^ 64" using assms(2,3) by (simp add: nat_less_iff)
  ultimately have "uint_field ''seq'' [(''seq'', jint q), (''record'', j)] = Some q"
    using assms(2) by (simp add: uint_field_def field_matches_def equal_fold_def jint_def parse_nat_str)
  moreover have "raw_field ''record'' [(''seq'', jint q), (''record'', j)] = j"
    by (simp add: raw_field_def field_matches_def equal_fold_def)
  ultimately show ?thesis
    using parse_enc_json [OF line_wf [OF assms(1), of q]]
    by (simp add: decode_record_line_def line_of_def)
qed

section \<open>The invariant of the directory\<close>

text \<open>
  What the receipt library documents: its lines read back, the next receipt of a chain extends it
  and carries its fields, and canonical text is JSON.
\<close>

definition chain_laws :: "receiptspec \<Rightarrow> receipt_lib \<Rightarrow> bool" where
  "chain_laws rs lib \<longleftrightarrow>
     (\<forall>r l. rl_line lib r = Inr l \<longrightarrow> rl_parse lib l = Inr r \<and> lf \<notin> set l) \<and>
     (\<forall>priv q h f r. rl_next lib priv q h f = Inr r \<longrightarrow> rv_seq r = q + 1 \<and> rv_seq r < 2 ^ 64 \<and>
        rv_prev r = h \<and> rl_entry lib r = Inr (rv_entry r) \<and> rv_kid r = rl_kid lib priv \<and> rv_fields r = f) \<and>
     (\<forall>v c. rs_canonical rs v = Inr c \<longrightarrow> (\<exists>j. wf_json j \<and> parse_json c = Some j))"

text \<open>The stored value is that of the canonical form of a record with the hash the receipt signs.\<close>

definition bound :: "receiptspec \<Rightarrow> receipt \<Rightarrow> json \<Rightarrow> bool" where
  "bound rs r j \<longleftrightarrow> (\<exists>rec c. rs_canonical rs (record_json rec) = Inr c \<and> parse_json c = Some j \<and>
     Fields rs rec = Inr (rv_fields r) \<and> rs_hash rs (record_json rec) = Inr (fl_params (rv_fields r)))"

fun chain_from :: "receipt_lib \<Rightarrow> int \<Rightarrow> string \<Rightarrow> receipt list \<Rightarrow> bool" where
  "chain_from lib q h [] = True"
| "chain_from lib q h (r # rcs) =
     (rv_seq r = q + 1 \<and> rv_seq r < 2 ^ 64 \<and> rv_prev r = h \<and> rl_entry lib r = Inr (rv_entry r) \<and>
      (\<exists>l. rl_line lib r = Inr l) \<and> chain_from lib (rv_seq r) (rv_entry r) rcs)"

definition head_of :: "receipt list \<Rightarrow> int \<times> string" where
  "head_of rcs = (int (length rcs), if rcs = [] then zero_hash else rv_entry (List.last rcs))"

fun rec_lines :: "int \<Rightarrow> json list \<Rightarrow> string list" where
  "rec_lines q [] = []"
| "rec_lines q (j # js) = line_of q j # rec_lines (q + 1) js"

definition rc_line :: "receipt_lib \<Rightarrow> receipt \<Rightarrow> string" where
  "rc_line lib r = (case rl_line lib r of Inr l \<Rightarrow> l | Inl e \<Rightarrow> [])"

text \<open>
  The files hold the receipts of a chain and a record for each, bound to it; there
  may be one record more, and a torn line at the end of either file.
\<close>

definition disk_ok :: "receiptspec \<Rightarrow> receipt_lib \<Rightarrow> disk \<Rightarrow> receipt list \<Rightarrow> json list \<Rightarrow> bool" where
  "disk_ok rs lib dk rcs js \<longleftrightarrow>
     (\<exists>t u. dk_receipts dk = file_of (map (rc_line lib) rcs) t \<and> lf \<notin> set t \<and>
            dk_records dk = file_of (rec_lines 1 js) u \<and> lf \<notin> set u) \<and>
     chain_from lib 0 zero_hash rcs \<and> length rcs \<le> length js \<and> length js \<le> length rcs + 1 \<and>
     int (length js) < 2 ^ 64 \<and> list_all wf_json js \<and> (\<forall>i<length rcs. bound rs (rcs ! i) (js ! i))"

definition clean :: "receipt_lib \<Rightarrow> disk \<Rightarrow> receipt list \<Rightarrow> json list \<Rightarrow> bool" where
  "clean lib dk rcs js \<longleftrightarrow> dk_receipts dk = file_of (map (rc_line lib) rcs) [] \<and>
     dk_records dk = file_of (rec_lines 1 js) [] \<and> length js = length rcs"

definition log_ok :: "receiptspec \<Rightarrow> receipt_lib \<Rightarrow> log_state \<Rightarrow> receipt list \<Rightarrow> json list \<Rightarrow> bool" where
  "log_ok rs lib s rcs js \<longleftrightarrow> disk_ok rs lib (ls_disk s) rcs js \<and>
     (\<forall>w. ls_writer s = Some w \<longrightarrow> \<not> w_broken w \<longrightarrow>
        clean lib (ls_disk s) rcs js \<and> (w_seq w, w_head w) = head_of rcs)"

text \<open>Receipts and their records are only added.\<close>

definition grows :: "receipt list \<Rightarrow> json list \<Rightarrow> receipt list \<Rightarrow> json list \<Rightarrow> bool" where
  "grows rcs js rcs' js' \<longleftrightarrow> prefix rcs rcs' \<and> take (length rcs) js' = take (length rcs) js"

lemma grows_refl [simp]: "grows rcs js rcs js"
  by (simp add: grows_def)

lemma grows_trans:
  "grows a x b y \<Longrightarrow> grows b y c z \<Longrightarrow> grows a x c z"
proof -
  assume g: "grows a x b y" "grows b y c z"
  then have m: "min (length a) (length b) = length a" and p: "prefix a c"
    by (auto simp: grows_def prefix_length_le)
  have "take (length a) z = take (length a) (take (length b) z)"
      "take (length a) y = take (length a) (take (length b) y)"
    by (simp_all only: take_take m)
  then show ?thesis using g p unfolding grows_def by metis
qed

lemma rec_lines_append: "rec_lines q (js @ ks) = rec_lines q js @ rec_lines (q + int (length js)) ks"
  by (induction js arbitrary: q) (simp_all add: algebra_simps)

lemma rec_lines_no_lf: "list_all wf_json js \<Longrightarrow> list_all (\<lambda>l. lf \<notin> set l) (rec_lines q js)"
  by (induction js arbitrary: q) (simp_all add: line_of_no_lf)

lemma length_rec_lines [simp]: "length (rec_lines q js) = length js"
  by (induction js arbitrary: q) simp_all

lemma nth_rec_lines: "i < length js \<Longrightarrow> rec_lines q js ! i = line_of (q + int i) (js ! i)"
  by (induction js arbitrary: q i) (auto simp: nth_Cons add.assoc split: nat.splits)

lemma chain_lines:
  assumes "chain_laws rs lib" "chain_from lib q h rcs"
  shows "list_all (\<lambda>r. rl_parse lib (rc_line lib r) = Inr r \<and> lf \<notin> set (rc_line lib r)) rcs"
  using assms(2)
proof (induction rcs arbitrary: q h)
  case (Cons r rcs)
  then show ?case using assms(1) by (auto simp: rc_line_def chain_laws_def)
qed simp

lemma chain_seq: "chain_from lib q h rcs \<Longrightarrow> i < length rcs \<Longrightarrow>
    rv_seq (rcs ! i) = q + 1 + int i \<and> rv_seq (rcs ! i) < 2 ^ 64"
  by (induction rcs arbitrary: q h i) (auto simp: nth_Cons split: nat.splits)

lemma log_chain_append:
  "chain_from lib q h (rcs @ [r]) \<longleftrightarrow> chain_from lib q h rcs \<and>
     (let (q', h') = (q + int (length rcs), if rcs = [] then h else rv_entry (List.last rcs))
      in chain_from lib q' h' [r])"
  by (induction rcs arbitrary: q h) (auto simp: algebra_simps)

section \<open>Opening\<close>

lemma check_chain_ok:
  assumes "chain_laws rs lib" "chain_from lib q h rcs"
  shows "\<exists>kid. check_chain lib i (q, h, k) (map (rc_line lib) rcs) =
    Inr (q + int (length rcs), if rcs = [] then h else rv_entry (List.last rcs), kid)"
  using assms(2)
proof (induction rcs arbitrary: i q h k)
  case (Cons r rcs)
  have "rl_parse lib (rc_line lib r) = Inr r" using chain_lines [OF assms(1) Cons.prems] by simp
  then have e: "check_chain lib i (q, h, k) (map (rc_line lib) (r # rcs)) =
      check_chain lib (i + 1) (rv_seq r, rv_entry r, rv_kid r) (map (rc_line lib) rcs)"
    using Cons.prems by simp
  have "chain_from lib (rv_seq r) (rv_entry r) rcs" "rv_seq r = q + 1" using Cons.prems by auto
  then show ?case
    using Cons.IH [of "rv_seq r" "rv_entry r" "i + 1" "rv_kid r"] unfolding e by (auto simp: algebra_simps)
qed simp

lemma keep_records_ok:
  assumes "list_all wf_json js" "0 \<le> q" "q \<le> n + 1" "q + int (length js) \<le> 2 ^ 64"
  shows "keep_records i n rk off (rec_lines q js) =
    Inr (if n < q - 1 + int (length js)
         then off + length (file_of (take (nat (n + 1 - q)) (rec_lines q js)) []) else rk)"
  using assms
proof (induction js arbitrary: i off q)
  case (Cons j js)
  have d: "decode_record_line (line_of q j) = Some (q, j)"
    using Cons.prems by (intro decode_line_of) auto
  show ?case
  proof (cases "q = n + 1")
    case True
    then show ?thesis using d by (simp add: file_of_def)
  next
    case False
    then have "nat (n + 1 - q) = Suc (nat (n + 1 - (q + 1)))" using Cons.prems(3) by simp
    then have "take (nat (n + 1 - q)) (rec_lines q (j # js))
        = line_of q j # take (nat (n + 1 - (q + 1))) (rec_lines (q + 1) js)" by simp
    then show ?thesis
      using Cons.IH [of "q + 1" "i + 1" "off + length (line_of q j) + 1"] Cons.prems False d
      by (simp add: length_file_of algebra_simps)
  qed
qed simp

lemma open_records_ok:
  assumes "dk_records dk = file_of (rec_lines 1 js) u" "lf \<notin> set u" "list_all wf_json js"
    "n \<le> length js" "length js \<le> n + 1" "int (length js) < 2 ^ 64"
    "open_records ios (int n) (dk_records dk) = (file, e)"
  shows "\<exists>js' u'. file = file_of (rec_lines 1 js') u' \<and> lf \<notin> set u' \<and> list_all wf_json js' \<and>
    take n js' = take n js \<and> n \<le> length js' \<and> length js' \<le> length js \<and>
    (e = None \<longrightarrow> u' = [] \<and> length js' = n)"
proof (cases "oi_read_records ios")
  case False
  then have "file = dk_records dk" "e \<noteq> None" using assms(7) by (auto simp: open_records_def)
  then show ?thesis using assms by blast
next
  case True
  let ?ls = "rec_lines 1 js"
  define k where "k = length (file_of (take n ?ls) [])"
  have cl: "completeLines (dk_records dk) = (?ls, length (file_of ?ls []))"
    unfolding assms(1) using completeLines_file rec_lines_no_lf [OF assms(3)] assms(2) by blast
  have all: "take n ?ls = ?ls" if "\<not> n < length js" using that by simp
  have kr: "keep_records 1 (int n) (length (file_of ?ls [])) 0 ?ls = Inr k"
    using keep_records_ok [of js 1 "int n"] assms(3,6) all by (auto simp: k_def)
  have tl: "take n ?ls = rec_lines 1 (take n js)" "?ls = take n ?ls @ drop n ?ls"
    using rec_lines_append [of 1 "take n js" "drop n js"] assms(4) by simp_all
  have tr: "truncateTo (oi_trunc_records ios) (dk_records dk) k =
      (if oi_trunc_records ios \<or> file_of (drop n ?ls) u = [] then (file_of (take n ?ls) [], True)
       else (dk_records dk, False))"
    using truncate_file [of _ "take n ?ls" "drop n ?ls" u] unfolding k_def assms(1) by simp
  have wf: "list_all wf_json (take n js)" using assms(3) by (metis append_take_drop_id list_all_append)
  show ?thesis
  proof (cases "oi_trunc_records ios \<or> file_of (drop n ?ls) u = []")
    case True
    then have "file = file_of (rec_lines 1 (take n js)) []"
      using assms(7) \<open>oi_read_records ios\<close> cl kr tr tl(1)
      by (simp add: open_records_def split: if_splits)
    then show ?thesis using wf assms(4) by (intro exI [of _ "take n js"] exI [of _ "[]"]) simp
  next
    case False
    then have "file = dk_records dk" "e \<noteq> None"
      using assms(7) \<open>oi_read_records ios\<close> cl kr tr by (auto simp: open_records_def)
    then show ?thesis using assms by blast
  qed
qed

lemma open_ok_grows:
  assumes laws: "chain_laws rs lib" and ok: "disk_ok rs lib dk rcs js"
    and op: "OpenLocal lib ios b priv dk = (dk', res)"
  shows "\<exists>js'. disk_ok rs lib dk' rcs js' \<and> grows rcs js rcs js' \<and>
    (\<forall>w. res = Inr w \<longrightarrow> clean lib dk' rcs js' \<and> (w_seq w, w_head w) = head_of rcs)"
proof (cases "dk' = dk \<and> isl res")
  case True
  then show ?thesis using ok by (intro exI [of _ js]) auto
next
  case changed: False
  obtain t u where d: "dk_receipts dk = file_of (map (rc_line lib) rcs) t" "lf \<notin> set t"
      "dk_records dk = file_of (rec_lines 1 js) u" "lf \<notin> set u"
    and c: "chain_from lib 0 zero_hash rcs" "length rcs \<le> length js" "length js \<le> length rcs + 1"
      "int (length js) < 2 ^ 64" "list_all wf_json js" "\<forall>i<length rcs. bound rs (rcs ! i) (js ! i)"
    using ok unfolding disk_ok_def by blast
  let ?ls = "map (rc_line lib) rcs"
  have "list_all (\<lambda>l. lf \<notin> set l) ?ls" using chain_lines [OF laws c(1)] by (simp add: list_all_iff)
  then have cl: "completeLines (dk_receipts dk) = (?ls, length (file_of ?ls []))"
    using completeLines_file d(1,2) by simp
  obtain kid where ch: "check_chain lib (Suc 0) (0, zero_hash, []) ?ls =
      Inr (int (length rcs), snd (head_of rcs), kid)"
    using check_chain_ok [OF laws c(1), of "Suc 0" "[]"] by (auto simp: head_of_def)
  have tr: "truncateTo works (dk_receipts dk) (length (file_of ?ls [])) =
      (if works \<or> t = [] then (file_of ?ls [], True) else (dk_receipts dk, False))" for works
    using truncate_file [of works ?ls "[]" t] by (simp add: d(1) file_of_def)
  have full: "length priv = 64" "\<not> b" "oi_read_receipts ios" "\<not> (int (length rcs) > 0 \<and> kid \<noteq> rl_kid lib priv)"
      "oi_trunc_receipts ios \<or> t = []"
    using op changed by (auto simp: OpenLocal_def open_w_def cl ch tr Let_def split: if_splits)
  obtain fl e where rf: "open_records ios (int (length rcs)) (dk_records dk) = (fl, e)"
    by fastforce
  have res: "dk' = \<lparr>dk_receipts = file_of ?ls [], dk_records = fl\<rparr>"
    "\<And>w. res = Inr w \<Longrightarrow> e = None \<and> w_seq w = int (length rcs) \<and> w_head w = snd (head_of rcs)"
    using op full rf by (auto simp: OpenLocal_def open_w_def cl ch tr Let_def split: if_splits option.splits)
  obtain js' u' where j: "fl = file_of (rec_lines 1 js') u'" "lf \<notin> set u'" "list_all wf_json js'"
      "take (length rcs) js' = take (length rcs) js" "length rcs \<le> length js'" "length js' \<le> length js"
      "e = None \<longrightarrow> u' = [] \<and> length js' = length rcs"
    using open_records_ok [OF d(3,4) c(5,2,3,4) rf] by blast
  have "bound rs (rcs ! i) (js' ! i)" if "i < length rcs" for i
    using c(6) that j(4) by (metis nth_take)
  then have "disk_ok rs lib dk' rcs js'"
    using c j(1,2,3,5,6) unfolding disk_ok_def res(1)
    by (intro conjI exI [of _ "[]"] exI [of _ u']) auto
  moreover have "clean lib dk' rcs js'" if "e = None"
    using that j by (simp add: clean_def res(1))
  ultimately show ?thesis
    using j(4) res(2) by (intro exI [of _ js']) (auto simp: grows_def head_of_def)
qed

section \<open>Appending\<close>

lemma chain_snoc:
  "chain_from lib 0 zero_hash (rcs @ [r]) \<longleftrightarrow>
     chain_from lib 0 zero_hash rcs \<and> chain_from lib (fst (head_of rcs)) (snd (head_of rcs)) [r]"
  by (simp add: log_chain_append head_of_def)

lemma store_lines_ok:
  assumes laws: "chain_laws rs lib" and ok: "disk_ok rs lib dk rcs js" and cl: "clean lib dk rcs js"
    and r: "chain_from lib (fst (head_of rcs)) (snd (head_of rcs)) [r] \<or> (\<forall>l. rl_line lib r \<noteq> Inr l)"
    and q: "rv_seq r = int (length rcs) + 1" "rv_seq r < 2 ^ 64"
    and j: "wf_json j" "bound rs r j" and pc: "parse_json cn = Some j"
    and st: "store_lines lib i1 i2 cn r dk = (dk', good)"
  shows "\<exists>rcs' js'. disk_ok rs lib dk' rcs' js' \<and> grows rcs js rcs' js' \<and>
    (good \<longrightarrow> rcs' = rcs @ [r] \<and> js' = js @ [j] \<and> clean lib dk' rcs' js')"
proof -
  let ?ls = "map (rc_line lib) rcs" and ?l = "line_of (rv_seq r) j"
  have c: "chain_from lib 0 zero_hash rcs" "length js = length rcs" "int (length js) < 2 ^ 64"
      "list_all wf_json js" "\<forall>i<length rcs. bound rs (rcs ! i) (js ! i)"
    using ok cl unfolding disk_ok_def clean_def by auto
  have files: "dk_receipts dk = file_of ?ls []" "dk_records dk = file_of (rec_lines 1 js) []"
    using cl by (simp_all add: clean_def)
  obtain ms t where a1: "appendSync i1 (dk_records dk) ?l = (file_of (rec_lines 1 js @ ms) t, i1 = Done)"
      "lf \<notin> set t" "ms = [] \<or> ms = [?l] \<and> t = []" "i1 = Done \<longrightarrow> ms = [?l]"
    using append_file [OF line_of_no_lf [OF j(1)], of i1 "rec_lines 1 js"] files(2) by metis
  have full: "rec_lines 1 js @ [?l] = rec_lines 1 (js @ [j])"
    using q c(2) by (simp add: rec_lines_append add.commute)
  define js1 where "js1 = (if ms = [] then js else js @ [j])"
  have j1: "rec_lines 1 js @ ms = rec_lines 1 js1" using a1(3) full by (auto simp: js1_def)
  have b: "bound rs ((rcs @ [r]) ! i) ((js @ [j]) ! i)" if "i < length (rcs @ [r])" for i
    using c(2,5) j(2) that by (auto simp: nth_append less_Suc_eq)
  have ok1: "disk_ok rs lib (dk\<lparr>dk_records := file_of (rec_lines 1 js1) t\<rparr>) rcs js1"
    using c files(1) a1(2) j(1) q unfolding disk_ok_def js1_def
    by (intro conjI exI [of _ "[]"] exI [of _ t]) (auto simp: nth_append)
  have g1: "grows rcs js rcs js1" using c(2) by (simp add: grows_def js1_def)
  have rl: "record_line (rv_seq r) cn = Inr ?l" using pc by (rule record_line_json)
  show ?thesis
  proof (cases "i1 = Done \<and> (\<exists>l. rl_line lib r = Inr l)")
    case False
    then have "dk' = dk\<lparr>dk_records := file_of (rec_lines 1 js1) t\<rparr>" "\<not> good"
      using st rl a1(1) unfolding store_lines_def j1 by (auto simp: Let_def split: sum.splits)
    then show ?thesis using ok1 g1 by blast
  next
    case True
    then obtain l where l: "rl_line lib r = Inr l" "lf \<notin> set l" "ms = [?l]" "t = []"
      using laws a1(3,4) by (auto simp: chain_laws_def)
    obtain ms2 t2 where a2: "appendSync i2 (file_of ?ls []) l = (file_of (?ls @ ms2) t2, i2 = Done)"
        "lf \<notin> set t2" "ms2 = [] \<or> ms2 = [l] \<and> t2 = []" "i2 = Done \<longrightarrow> ms2 = [l]"
      using append_file [OF l(2), of i2 ?ls] by metis
    have dk': "dk' = \<lparr>dk_receipts = file_of (?ls @ ms2) t2, dk_records = file_of (rec_lines 1 (js @ [j])) []\<rparr>"
        "good = (i2 = Done)"
      using st rl a1(1) True l a2(1) files(1) unfolding store_lines_def full [symmetric]
      by (auto simp: Let_def)
    have ch: "chain_from lib 0 zero_hash (rcs @ [r])" using r l(1) c(1) by (simp add: chain_snoc)
    define rcs2 where "rcs2 = (if ms2 = [] then rcs else rcs @ [r])"
    have r2: "?ls @ ms2 = map (rc_line lib) rcs2"
      using a2(3) l(1) by (auto simp: rcs2_def rc_line_def)
    have "disk_ok rs lib dk' rcs2 (js @ [j])"
      unfolding disk_ok_def dk'(1) r2 using c ch a2(2) b j(1) q
      by (intro conjI exI [of _ t2] exI [of _ "[]"]) (auto simp: rcs2_def nth_append)
    moreover have "grows rcs js rcs2 (js @ [j])" using c(2) by (simp add: grows_def rcs2_def)
    moreover have "rcs2 = rcs @ [r] \<and> clean lib dk' rcs2 (js @ [j])" if good
      using that a2(3,4) dk' c(2) unfolding clean_def dk'(1) r2 by (auto simp: rcs2_def)
    ultimately show ?thesis by blast
  qed
qed

lemma Append_ok:
  assumes laws: "chain_laws rs lib" and ok: "log_ok rs lib \<lparr>ls_disk = dk, ls_writer = Some w\<rparr> rcs js"
    and ap: "Append rs lib i1 i2 rec w dk = (w', dk', res)"
  shows "\<exists>rcs' js'. log_ok rs lib \<lparr>ls_disk = dk', ls_writer = Some w'\<rparr> rcs' js' \<and> grows rcs js rcs' js' \<and>
    (\<forall>r. res = Inr r \<longrightarrow> (\<exists>j. rcs' = rcs @ [r] \<and> js' = js @ [j]))"
proof (cases "w' = w \<and> dk' = dk \<and> isl res")
  case True
  then show ?thesis using ok by (intro exI [of _ rcs] exI [of _ js]) auto
next
  case changed: False
  obtain c where c: "rs_canonical rs (record_json rec) = Inr c"
    using ap changed by (cases "rs_canonical rs (record_json rec)") (auto simp: Append_def)
  obtain f where f: "Fields rs rec = Inr f"
    using ap changed c by (cases "Fields rs rec") (auto simp: Append_def)
  have w: "\<not> w_closed w" "\<not> w_broken w" using ap changed c f by (auto simp: Append_def split: if_splits)
  obtain r where r: "rl_next lib (w_priv w) (w_seq w) (w_head w) f = Inr r"
  proof (cases "rl_next lib (w_priv w) (w_seq w) (w_head w) f")
    case (Inl e)
    then have "Append rs lib i1 i2 rec w dk = (w, dk, Inl e)" using c f w by (simp add: Append_def)
    then show ?thesis using ap changed by auto
  qed (rule that)
  obtain dk1 good where st: "store_lines lib i1 i2 c r dk = (dk1, good)" by fastforce
  have res: "dk' = dk1" "w_seq w' = rv_seq r" "w_head w' = rv_entry r" "w_broken w' = (\<not> good)"
      "\<And>r'. res = Inr r' \<Longrightarrow> r' = r \<and> good"
    using ap c f w r st by (auto simp: Append_def Let_def split: if_splits)
  obtain j where j: "wf_json j" "parse_json c = Some j" using laws c unfolding chain_laws_def by blast
  have rl: "rv_seq r = w_seq w + 1" "rv_seq r < 2 ^ 64" "rv_prev r = w_head w"
      "rl_entry lib r = Inr (rv_entry r)" "rv_fields r = f"
    using laws r unfolding chain_laws_def by blast+
  have dk: "disk_ok rs lib dk rcs js" "clean lib dk rcs js" "(w_seq w, w_head w) = head_of rcs"
    using ok w(2) by (simp_all add: log_ok_def)
  then have h: "fst (head_of rcs) = w_seq w" "snd (head_of rcs) = w_head w" "w_seq w = int (length rcs)"
    by (simp_all add: head_of_def)
  have "bound rs r j"
    using c f Fields_Inr(3) [OF f] rl(5) j(2) unfolding bound_def by blast
  moreover have "chain_from lib (fst (head_of rcs)) (snd (head_of rcs)) [r] \<or> (\<forall>l. rl_line lib r \<noteq> Inr l)"
    using rl h by auto
  moreover have "rv_seq r = int (length rcs) + 1" using rl h by simp
  ultimately obtain rcs' js' where k: "disk_ok rs lib dk1 rcs' js'" "grows rcs js rcs' js'"
      "good \<longrightarrow> rcs' = rcs @ [r] \<and> js' = js @ [j] \<and> clean lib dk1 rcs' js'"
    using store_lines_ok [OF laws dk(1,2) _ _ rl(2) j(1) _ j(2) st] by blast
  have "log_ok rs lib \<lparr>ls_disk = dk', ls_writer = Some w'\<rparr> rcs' js'"
    using k res rl(1) h(3) by (auto simp: log_ok_def head_of_def)
  then show ?thesis using k res(5) by blast
qed

lemma log_step_ok:
  assumes "chain_laws rs lib" "log_step rs lib s t" "log_ok rs lib s rcs js"
  shows "\<exists>rcs' js'. log_ok rs lib t rcs' js' \<and> grows rcs js rcs' js'"
  using assms(2)
proof cases
  case (open_ok ios priv dk dk' w)
  have "disk_ok rs lib dk rcs js" using assms(3) open_ok by (simp add: log_ok_def)
  then show ?thesis
    using open_ok_grows [OF assms(1) _ open_ok(3)] open_ok by (fastforce simp: log_ok_def)
next
  case (open_fails ios priv dk dk' e)
  have "disk_ok rs lib dk rcs js" using assms(3) open_fails by (simp add: log_ok_def)
  then show ?thesis
    using open_ok_grows [OF assms(1) _ open_fails(3)] open_fails by (fastforce simp: log_ok_def)
next
  case (appended i1 i2 rec w dk w' dk' res)
  show ?thesis
    using Append_ok [OF assms(1) assms(3) [unfolded appended(1)] appended(3)]
    unfolding appended(2) by metis
next
  case (stops dk w)
  then have "log_ok rs lib t rcs js" using assms(3) by (simp add: log_ok_def)
  then show ?thesis using grows_refl by blast
qed

lemma log_reach_ok:
  assumes "chain_laws rs lib" "log_reach rs lib s t" "log_ok rs lib s rcs js"
  shows "\<exists>rcs' js'. log_ok rs lib t rcs' js' \<and> grows rcs js rcs' js'"
  using assms(2)
proof induction
  case start
  then show ?case using assms(3) grows_refl by blast
next
  case (more t u)
  then show ?case using log_step_ok [OF assms(1)] grows_trans by meson
qed

definition log_init :: log_state where
  "log_init = \<lparr>ls_disk = empty_disk, ls_writer = None\<rparr>"

lemma log_init_ok: "log_ok rs lib log_init [] []"
  by (simp add: log_init_def log_ok_def disk_ok_def empty_disk_def file_of_def)

section \<open>What the files hold\<close>

lemma disk_lines:
  assumes "chain_laws rs lib" "disk_ok rs lib dk rcs js"
  shows "fst (completeLines (dk_receipts dk)) = map (rc_line lib) rcs"
    "fst (completeLines (dk_records dk)) = rec_lines 1 js"
proof -
  have "list_all (\<lambda>l. lf \<notin> set l) (map (rc_line lib) rcs)" "list_all wf_json js"
    using assms chain_lines [OF assms(1)] unfolding disk_ok_def by (auto simp: list_all_iff)
  then show "fst (completeLines (dk_receipts dk)) = map (rc_line lib) rcs"
    "fst (completeLines (dk_records dk)) = rec_lines 1 js"
    using assms(2) completeLines_file rec_lines_no_lf unfolding disk_ok_def by fastforce+
qed

lemma stored_line:
  assumes "chain_laws rs lib" "disk_ok rs lib dk rcs js" "i < length rcs"
  shows "rl_parse lib (fst (completeLines (dk_receipts dk)) ! i) = Inr (rcs ! i) \<and>
    rv_seq (rcs ! i) = int i + 1 \<and> bound rs (rcs ! i) (js ! i) \<and>
    decode_record_line (fst (completeLines (dk_records dk)) ! i) = Some (int i + 1, js ! i)"
proof -
  have c: "chain_from lib 0 zero_hash rcs" "length rcs \<le> length js" "list_all wf_json js"
      "int (length js) < 2 ^ 64" "bound rs (rcs ! i) (js ! i)"
    using assms(2,3) by (simp_all add: disk_ok_def)
  have "decode_record_line (line_of (1 + int i) (js ! i)) = Some (1 + int i, js ! i)"
    using c assms(3) by (intro decode_line_of) (auto simp: list_all_length)
  then show ?thesis
    using chain_lines [OF assms(1) c(1)] chain_seq [OF c(1) assms(3)] c(2,5) assms(3)
    unfolding disk_lines [OF assms(1,2)]
    by (simp add: list_all_length nth_rec_lines add.commute)
qed

lemma find_record_stored:
  assumes "list_all wf_json js" "int (length js) < 2 ^ 64" "i < length js"
  shows "find_record (int i + 1) (rec_lines 1 js) = Some (js ! i)"
proof -
  have "find_record (q + int i) (rec_lines q js) = Some (js ! i)"
    if "0 \<le> q" "q + int (length js) \<le> 2 ^ 64" for q
    using assms(1,3) that
  proof (induction js arbitrary: q i)
    case (Cons j js)
    have d: "decode_record_line (line_of q j) = Some (q, j)"
      using Cons.prems by (intro decode_line_of) auto
    show ?case
    proof (cases i)
      case 0
      then show ?thesis using d by (simp add: find_record_def)
    next
      case (Suc k)
      then show ?thesis
        using Cons.IH [of k "q + 1"] Cons.prems d by (simp add: find_record_def algebra_simps)
    qed
  qed simp
  from this [of 1] show ?thesis using assms(2) by (simp add: add.commute)
qed

lemma Lookup_stored:
  assumes "chain_laws rs lib" "log_ok rs lib s rcs js" "ls_writer s = Some w" "Ready w" "i < length rcs"
  shows "Lookup lib e1 e2 (int i + 1) w (ls_disk s) = (case (e1, e2) of
      (Some e, _) \<Rightarrow> Inl e | (None, Some e) \<Rightarrow> Inl e | (None, None) \<Rightarrow> Inr (rcs ! i, js ! i))"
proof -
  have dk: "disk_ok rs lib (ls_disk s) rcs js" and w: "w_seq w = int (length rcs)" "\<not> w_closed w"
    using assms(2-4) by (auto simp: log_ok_def Ready_def head_of_def)
  have js: "list_all wf_json js" "int (length js) < 2 ^ 64" "i < length js"
    using dk assms(5) by (simp_all add: disk_ok_def)
  show ?thesis
    using stored_line [OF assms(1) dk assms(5)] find_record_stored [OF js] w assms(5)
    unfolding disk_lines [OF assms(1) dk]
    by (simp add: Lookup_def disk_lines [OF assms(1) dk] split: option.splits)
qed

section \<open>Properties\<close>

text \<open>C19: a receipt never stands without its record. Under the documented behaviour of the
  receipt library, in every state the directory reaches from empty by opens,
  appends, failed or torn writes, failed opens and crashes, each complete
  line of receipts.jsonl parses to the receipt of the next sequence number, and the line of
  the same number in records.jsonl decodes to that number and to the value of the canonical form of
  a record whose hash and fields the receipt carries.\<close>

theorem receipt_has_record:
  assumes "chain_laws rs lib" "log_reach rs lib log_init s"
    and "i < length (fst (completeLines (dk_receipts (ls_disk s))))"
  shows "\<exists>r j. rl_parse lib (fst (completeLines (dk_receipts (ls_disk s))) ! i) = Inr r \<and>
    rv_seq r = int i + 1 \<and> bound rs r j \<and>
    decode_record_line (fst (completeLines (dk_records (ls_disk s))) ! i) = Some (int i + 1, j)"
proof -
  obtain rcs js where "log_ok rs lib s rcs js" using log_reach_ok [OF assms(1,2) log_init_ok] by blast
  then have dk: "disk_ok rs lib (ls_disk s) rcs js" by (simp add: log_ok_def)
  then have "i < length rcs" using assms(3) disk_lines(1) [OF assms(1) dk] by simp
  then show ?thesis using stored_line [OF assms(1) dk] by blast
qed

text \<open>C20: an acknowledged receipt is durable. When Append returned a receipt, then after any
  later appends, failures, crashes and reopens, the Lookup of every ready writer returns
  that receipt with a record bound to it, or the error of reading one of the two files.\<close>

theorem acknowledged_receipt_durable:
  assumes "chain_laws rs lib" "log_reach rs lib log_init \<lparr>ls_disk = dk, ls_writer = Some w\<rparr>"
    and "Append rs lib i1 i2 rec w dk = (w', dk', Inr r)"
    and "log_reach rs lib \<lparr>ls_disk = dk', ls_writer = Some w'\<rparr> t" "ls_writer t = Some v" "Ready v"
  shows "\<exists>j. bound rs r j \<and> (\<forall>e1 e2. Lookup lib e1 e2 (rv_seq r) v (ls_disk t) = (case (e1, e2) of
      (Some e, _) \<Rightarrow> Inl e | (None, Some e) \<Rightarrow> Inl e | (None, None) \<Rightarrow> Inr (r, j)))"
proof -
  obtain rcs js where k: "log_ok rs lib \<lparr>ls_disk = dk, ls_writer = Some w\<rparr> rcs js"
    using log_reach_ok [OF assms(1,2) log_init_ok] by blast
  obtain j where ok: "log_ok rs lib \<lparr>ls_disk = dk', ls_writer = Some w'\<rparr> (rcs @ [r]) (js @ [j])"
    using Append_ok [OF assms(1) k assms(3)] by auto
  obtain rcs' js' where t: "log_ok rs lib t rcs' js'" "grows (rcs @ [r]) (js @ [j]) rcs' js'"
    using log_reach_ok [OF assms(1,4) ok] by blast
  then have i: "length rcs < length rcs'" "rcs' ! length rcs = r"
    by (auto simp: grows_def prefix_def nth_append)
  have "disk_ok rs lib (ls_disk t) rcs' js'" using t(1) by (simp add: log_ok_def)
  then have "rv_seq r = int (length rcs) + 1" "bound rs r (js' ! length rcs)"
    using stored_line [OF assms(1) _ i(1)] unfolding i(2) by simp_all
  then show ?thesis using Lookup_stored [OF assms(1) t(1) assms(5,6) i(1)] i(2) by metis
qed

text \<open>A library whose canonical text has a < as it is.\<close>

definition wit_canonical :: string where
  "wit_canonical = ''{'' @ quote ''a'' @ '':'' @ quote ''<'' @ ''}''"

definition wit_value :: json where
  "wit_value = JObj [(''a'', JStr ''<'')]"

lemma wit_canonical_value: "parse_json wit_canonical = Some wit_value" "wf_json wit_value"
proof -
  show "parse_json wit_canonical = Some wit_value" by code_simp
  show "wf_json wit_value" by (auto simp: wit_value_def intro!: valid_utf8_ascii)
qed

definition log_spec :: receiptspec where
  "log_spec = wit_spec\<lparr>rs_canonical := \<lambda>j. Inr wit_canonical\<rparr>"

definition wit_receipt :: receipt where
  "wit_receipt = \<lparr>rv_seq = 1, rv_prev = zero_hash, rv_entry = ''e1'', rv_kid = ''k'',
     rv_fields = (case Fields log_spec wit_record of Inr f \<Rightarrow> f
       | Inl e \<Rightarrow> \<lparr>fl_principal = [], fl_agent = [], fl_service = [], fl_action = [], fl_params = [],
                   fl_decision = [], fl_status = 0\<rparr>)\<rparr>"

definition wit_lib :: receipt_lib where
  "wit_lib = \<lparr>rl_parse = \<lambda>l. if l = ''x'' then Inr wit_receipt else Inl ''parse'',
     rl_line = \<lambda>r. if r = wit_receipt then Inr ''x'' else Inl ''line'',
     rl_entry = \<lambda>r. Inr (rv_entry r), rl_kid = \<lambda>_. ''k'',
     rl_next = \<lambda>priv q h f. if q = 0 \<and> h = zero_hash \<and> f = rv_fields wit_receipt
                            then Inr wit_receipt else Inl ''next''\<rparr>"

definition wit_writer :: writer where
  "wit_writer = \<lparr>w_priv = replicate 64 CHR ''p'', w_kid = ''k'', w_seq = 0, w_head = zero_hash,
     w_broken = False, w_closed = False\<rparr>"

definition wit_disk :: disk where
  "wit_disk = \<lparr>dk_receipts = ''x'' @ [lf], dk_records = line_of 1 wit_value @ [lf]\<rparr>"

lemma wit_receipt_simps:
  "rv_seq wit_receipt = 1" "rv_prev wit_receipt = zero_hash" "rv_entry wit_receipt = ''e1''"
  "rv_kid wit_receipt = ''k''"
  by (simp_all add: wit_receipt_def)

lemma wit_laws: "chain_laws log_spec wit_lib"
proof -
  have "\<exists>j. wf_json j \<and> parse_json wit_canonical = Some j" using wit_canonical_value by blast
  then show ?thesis
    by (auto simp: chain_laws_def wit_lib_def wit_receipt_simps log_spec_def split: if_splits)
qed

lemma wit_open: "log_reach log_spec wit_lib log_init \<lparr>ls_disk = empty_disk, ls_writer = Some wit_writer\<rparr>"
proof -
  have "OpenLocal wit_lib \<lparr>oi_read_receipts = True, oi_trunc_receipts = True, oi_read_records = True,
      oi_trunc_records = True, oi_open_files = True\<rparr> False (replicate 64 CHR ''p'') empty_disk
      = (empty_disk, Inr wit_writer)"
    by (simp add: OpenLocal_def open_w_def open_records_def completeLines_def truncateTo_def
        empty_disk_def wit_writer_def wit_lib_def)
  then show ?thesis unfolding log_init_def by (intro log_reach.more [OF log_reach.start] log_step.open_ok)
qed

lemma wit_append:
  "Append log_spec wit_lib Done Done wit_record wit_writer empty_disk
     = (wit_writer\<lparr>w_seq := 1, w_head := ''e1''\<rparr>, wit_disk, Inr wit_receipt)"
proof -
  have o: "dr_outcome wit_record = OutcomeDeny" "dr_layer wit_record = LayerThreshold"
    by (simp_all add: wit_record_def build_record_def Let_def)
  have "\<exists>f. Fields log_spec wit_record = Inr f"
    unfolding Fields_def Let_def
    by (simp add: o bind_err_def PolicyDecision_def log_spec_def wit_spec_def outcome_names layer_names)
  then have f: "Fields log_spec wit_record = Inr (rv_fields wit_receipt)"
    by (auto simp: wit_receipt_def)
  have r: "record_line 1 wit_canonical = Inr (line_of 1 wit_value)"
    by (rule record_line_json [OF wit_canonical_value(1)])
  have c: "rs_canonical log_spec (record_json wit_record) = Inr wit_canonical" by (simp add: log_spec_def)
  show ?thesis
    by (simp add: Append_def c f wit_writer_def wit_lib_def store_lines_def wit_receipt_simps r appendSync_def
        empty_disk_def wit_disk_def)
qed

lemma receipt_has_record_witness:
  "\<exists>r. rl_parse wit_lib (fst (completeLines (dk_receipts wit_disk)) ! 0) = Inr r \<and> rv_seq r = 1"
proof -
  have s: "log_reach log_spec wit_lib log_init
      \<lparr>ls_disk = wit_disk, ls_writer = Some (wit_writer\<lparr>w_seq := 1, w_head := ''e1''\<rparr>)\<rparr>"
    by (rule log_reach.more [OF wit_open log_step.appended [OF wit_append]])
  have "0 < length (fst (completeLines (dk_receipts wit_disk)))"
    by (simp add: wit_disk_def completeLines_def)
  then show ?thesis using receipt_has_record [OF wit_laws s, of 0] by auto
qed

lemma acknowledged_receipt_durable_witness:
  "\<exists>j. Lookup wit_lib None None 1 (wit_writer\<lparr>w_seq := 1, w_head := ''e1''\<rparr>) wit_disk = Inr (wit_receipt, j)"
proof -
  have "Ready (wit_writer\<lparr>w_seq := 1, w_head := ''e1''\<rparr>)" by (simp add: Ready_def wit_writer_def)
  then show ?thesis
    using acknowledged_receipt_durable [OF wit_laws wit_open wit_append log_reach.start]
    by (fastforce simp: wit_receipt_def)
qed

end
