(* ===== verification/Resilience.thy ===== *)
theory Resilience
  imports GoFloat
begin

text \<open>
  pkg/resilience: the circuit breaker and the retry loop. The clock is an argument of
  the operations that read it (nanoseconds); a Duration is an int64. The operation a
  retry runs is a function of the attempt, as is the context's error while it waits.
  The sanitizer is in Sanitizer.
\<close>

section \<open>The circuit breaker (circuit_breaker.go)\<close>

datatype circuit_state = CircuitClosed | CircuitOpen | CircuitHalfOpen

fun circuit_String :: "circuit_state \<Rightarrow> string" where
  "circuit_String CircuitClosed = ''closed''"
| "circuit_String CircuitOpen = ''open''"
| "circuit_String CircuitHalfOpen = ''half-open''"

definition ErrCircuitOpen :: string where
  "ErrCircuitOpen = ''circuit breaker is open '' @ [CHR 0xE2, CHR 0x80, CHR 0x94]
     @ '' provider temporarily unavailable''"

record breaker =
  cb_failures :: int
  cb_successes :: int
  cb_last :: int
  cb_state :: circuit_state
  cb_failure_threshold :: int
  cb_success_threshold :: int
  cb_reset :: int

definition NewCircuitBreaker :: "int \<Rightarrow> int \<Rightarrow> int \<Rightarrow> breaker" where
  "NewCircuitBreaker f s t = \<lparr>cb_failures = 0, cb_successes = 0, cb_last = 0,
     cb_state = CircuitClosed, cb_failure_threshold = f, cb_success_threshold = s, cb_reset = t\<rparr>"

definition DefaultCircuitBreaker :: breaker where
  "DefaultCircuitBreaker = NewCircuitBreaker 5 2 60000000000"

text \<open>The difference of two times is a Duration and stops at the ends of an int64.\<close>

definition time_Sub :: "int \<Rightarrow> int \<Rightarrow> int" where
  "time_Sub a b = max (- (2 ^ 63)) (min (2 ^ 63 - 1) (a - b))"

definition Allow :: "int \<Rightarrow> breaker \<Rightarrow> string option \<times> breaker" where
  "Allow now cb = (case cb_state cb of
       CircuitClosed \<Rightarrow> (None, cb)
     | CircuitOpen \<Rightarrow>
         (if time_Sub now (cb_last cb) > cb_reset cb
          then (None, cb\<lparr>cb_state := CircuitHalfOpen, cb_successes := 0\<rparr>)
          else (Some ErrCircuitOpen, cb))
     | CircuitHalfOpen \<Rightarrow> (None, cb))"

definition RecordSuccess :: "breaker \<Rightarrow> breaker" where
  "RecordSuccess cb = (case cb_state cb of
       CircuitHalfOpen \<Rightarrow>
         (let cb = cb\<lparr>cb_successes := wrap64 (cb_successes cb + 1)\<rparr> in
          if cb_successes cb \<ge> cb_success_threshold cb
          then cb\<lparr>cb_state := CircuitClosed, cb_failures := 0, cb_successes := 0\<rparr> else cb)
     | CircuitClosed \<Rightarrow> cb\<lparr>cb_failures := 0\<rparr>
     | CircuitOpen \<Rightarrow> cb)"

definition RecordFailure :: "int \<Rightarrow> breaker \<Rightarrow> breaker" where
  "RecordFailure now cb =
     (let cb = cb\<lparr>cb_failures := wrap64 (cb_failures cb + 1), cb_last := now\<rparr> in
      case cb_state cb of
        CircuitHalfOpen \<Rightarrow> cb\<lparr>cb_state := CircuitOpen\<rparr>
      | CircuitClosed \<Rightarrow>
          (if cb_failures cb \<ge> cb_failure_threshold cb then cb\<lparr>cb_state := CircuitOpen\<rparr> else cb)
      | CircuitOpen \<Rightarrow> cb)"

definition State :: "breaker \<Rightarrow> circuit_state" where
  "State cb = cb_state cb"

definition Failures :: "breaker \<Rightarrow> int" where
  "Failures cb = cb_failures cb"

text \<open>The calls a client makes, and what a sequence of them returns.\<close>

datatype breaker_event = EvAllow int | EvSuccess | EvFailure int

fun breaker_step :: "breaker_event \<Rightarrow> breaker \<Rightarrow> string option \<times> breaker" where
  "breaker_step (EvAllow now) cb = Allow now cb"
| "breaker_step EvSuccess cb = (None, RecordSuccess cb)"
| "breaker_step (EvFailure now) cb = (None, RecordFailure now cb)"

fun breaker_run :: "breaker_event list \<Rightarrow> breaker \<Rightarrow> string option list \<times> breaker" where
  "breaker_run [] cb = ([], cb)"
| "breaker_run (e # es) cb =
     (let (r, cb1) = breaker_step e cb; (rs, cb2) = breaker_run es cb1 in (r # rs, cb2))"

section \<open>What a breaker promises\<close>

text \<open>
  The abstract breaker: the run of failures since the last success while closed, the time
  of the last failure while open, the run of successes while half-open. No counter is kept
  beyond the state it is for. The longest timeout never ends.
\<close>

datatype spec_state = Closed int | Opened int | Probing int

definition at_least_one :: "int \<Rightarrow> int" where
  "at_least_one n = max 1 n"

fun spec_step :: "int \<Rightarrow> int \<Rightarrow> int \<Rightarrow> breaker_event \<Rightarrow> spec_state \<Rightarrow> bool \<times> spec_state" where
  "spec_step f s t (EvAllow now) (Opened l) = (if now > l + t \<and> t < 2 ^ 63 - 1 then (True, Probing 0) else (False, Opened l))"
| "spec_step f s t (EvAllow now) x = (True, x)"
| "spec_step f s t EvSuccess (Closed n) = (True, Closed 0)"
| "spec_step f s t EvSuccess (Opened l) = (True, Opened l)"
| "spec_step f s t EvSuccess (Probing k) =
     (True, if k + 1 < at_least_one s then Probing (k + 1) else Closed 0)"
| "spec_step f s t (EvFailure now) (Closed n) =
     (True, if n + 1 < at_least_one f then Closed (n + 1) else Opened now)"
| "spec_step f s t (EvFailure now) (Opened l) = (True, Opened now)"
| "spec_step f s t (EvFailure now) (Probing k) = (True, Opened now)"

fun spec_run :: "int \<Rightarrow> int \<Rightarrow> int \<Rightarrow> breaker_event list \<Rightarrow> spec_state \<Rightarrow> bool list \<times> spec_state" where
  "spec_run f s t [] x = ([], x)"
| "spec_run f s t (e # es) x =
     (let (r, y) = spec_step f s t e x; (rs, z) = spec_run f s t es y in (r # rs, z))"

definition abs_breaker :: "breaker \<Rightarrow> spec_state" where
  "abs_breaker cb = (case cb_state cb of CircuitClosed \<Rightarrow> Closed (cb_failures cb)
     | CircuitOpen \<Rightarrow> Opened (cb_last cb) | CircuitHalfOpen \<Rightarrow> Probing (cb_successes cb))"

text \<open>The counter of the current state is below its threshold, so that it never wraps.\<close>

definition breaker_inv :: "breaker \<Rightarrow> bool" where
  "breaker_inv cb \<longleftrightarrow> in_int64 (cb_failure_threshold cb) \<and> in_int64 (cb_success_threshold cb) \<and>
     (cb_state cb = CircuitClosed \<longrightarrow> 0 \<le> cb_failures cb \<and> cb_failures cb < at_least_one (cb_failure_threshold cb)) \<and>
     (cb_state cb = CircuitHalfOpen \<longrightarrow> 0 \<le> cb_successes cb \<and> cb_successes cb < at_least_one (cb_success_threshold cb))"

lemma no_wrap: "0 \<le> n \<Longrightarrow> n < at_least_one k \<Longrightarrow> in_int64 k \<Longrightarrow> wrap64 (n + 1) = n + 1"
  by (rule wrap64_id) (auto simp: in_int64_def at_least_one_def split: if_splits)

text \<open>The interface of a breaker: an implementation that refines the abstract one step by step.\<close>

locale breaker_impl =
  fixes step :: "breaker_event \<Rightarrow> 'b \<Rightarrow> string option \<times> 'b"
    and abs :: "'b \<Rightarrow> spec_state"
    and inv :: "'b \<Rightarrow> bool"
    and f s t :: int
  assumes step_inv: "inv b \<Longrightarrow> inv (snd (step e b))"
    and step_abs: "inv b \<Longrightarrow> spec_step f s t e (abs b) = (fst (step e b) = None, abs (snd (step e b)))"
begin

fun run :: "breaker_event list \<Rightarrow> 'b \<Rightarrow> string option list \<times> 'b" where
  "run [] b = ([], b)"
| "run (e # es) b = (let (r, b1) = step e b; (rs, b2) = run es b1 in (r # rs, b2))"

lemma run_abs:
  "inv b \<Longrightarrow> spec_run f s t es (abs b) = (map (\<lambda>r. r = None) (fst (run es b)), abs (snd (run es b)))"
proof (induction es arbitrary: b)
  case (Cons e es)
  have "inv (snd (step e b))" using Cons(2) step_inv by blast
  from Cons(1) [OF this] step_abs [OF Cons(2), of e] show ?case
    by (simp add: case_prod_beta)
qed simp

lemma run_inv: "inv b \<Longrightarrow> inv (snd (run es b))"
proof (induction es arbitrary: b)
  case (Cons e es)
  show ?case
    using Cons(1) [OF step_inv [OF Cons(2), of e]] by (simp add: case_prod_beta)
qed simp

end

definition breaker_of :: "int \<Rightarrow> int \<Rightarrow> int \<Rightarrow> breaker \<Rightarrow> bool" where
  "breaker_of f s t cb \<longleftrightarrow> breaker_inv cb \<and> in_int64 t \<and> cb_failure_threshold cb = f \<and> cb_success_threshold cb = s
     \<and> cb_reset cb = t"

interpretation circuit: breaker_impl breaker_step abs_breaker "breaker_of f s t" f s t for f s t
proof
  fix b e
  assume b: "breaker_of f s t b"
  then have i: "breaker_inv b" "cb_failure_threshold b = f" "cb_success_threshold b = s" "cb_reset b = t" "in_int64 t"
    by (simp_all add: breaker_of_def)
  have late: "time_Sub now l > t \<longleftrightarrow> now > l + t \<and> t < 2 ^ 63 - 1" for now l
    using i(5) by (auto simp: time_Sub_def in_int64_def)
  have wrap: "cb_state b = CircuitClosed \<Longrightarrow> wrap64 (cb_failures b + 1) = cb_failures b + 1"
    "cb_state b = CircuitHalfOpen \<Longrightarrow> wrap64 (cb_successes b + 1) = cb_successes b + 1"
    using i(1) no_wrap [of "cb_failures b" "cb_failure_threshold b"]
      no_wrap [of "cb_successes b" "cb_success_threshold b"] by (simp_all add: breaker_inv_def)
  show "breaker_of f s t (snd (breaker_step e b))"
    using i wrap unfolding breaker_of_def breaker_inv_def
    by (cases e; cases "cb_state b")
       (auto simp: Allow_def RecordSuccess_def RecordFailure_def at_least_one_def Let_def)
  show "spec_step f s t e (abs_breaker b) = (fst (breaker_step e b) = None, abs_breaker (snd (breaker_step e b)))"
    using i wrap unfolding breaker_inv_def
    by (cases e; cases "cb_state b")
       (auto simp: Allow_def late RecordSuccess_def RecordFailure_def at_least_one_def abs_breaker_def Let_def)
qed

lemma breaker_run_circuit: "breaker_run es cb = circuit.run es cb"
  by (induction es arbitrary: cb) simp_all

lemma new_breaker:
  "in_int64 f \<Longrightarrow> in_int64 s \<Longrightarrow> in_int64 t \<Longrightarrow> breaker_of f s t (NewCircuitBreaker f s t)"
  "abs_breaker (NewCircuitBreaker f s t) = Closed 0"
  by (simp_all add: breaker_of_def breaker_inv_def NewCircuitBreaker_def at_least_one_def abs_breaker_def)

section \<open>The retry loop (retry.go)\<close>

record retry_config =
  rc_max :: int
  rc_initial :: int
  rc_cap :: int
  rc_factor :: f64
  rc_jitter :: bool

definition DefaultRetryConfig :: retry_config where
  "DefaultRetryConfig = \<lparr>rc_max = 3, rc_initial = 1000000000, rc_cap = 30000000000,
     rc_factor = Fin 2, rc_jitter = True\<rparr>"

record retry_result =
  rr_attempts :: int
  rr_last :: "string option"

text \<open>math.Pow with a base at least one and a natural exponent, by repeated squaring.\<close>

fun pow_loop :: "nat \<Rightarrow> f64 \<Rightarrow> f64 \<Rightarrow> nat \<Rightarrow> f64" where
  "pow_loop 0 a x i = a"
| "pow_loop (Suc n) a x i =
     (if i = 0 then a
      else pow_loop n (if odd i then fmul a x else a) (fmul x x) (i div 2))"

definition pow_f64 :: "f64 \<Rightarrow> nat \<Rightarrow> f64" where
  "pow_f64 x n = pow_loop n (Fin 1) x n"

text \<open>The delay before the next attempt; the random number of the jitter is an argument.\<close>

definition backoffDuration :: "retry_config \<Rightarrow> f64 \<Rightarrow> nat \<Rightarrow> int" where
  "backoffDuration c rnd attempt =
     (let d = fmul (f_of_int (rc_initial c)) (pow_f64 (rc_factor c) attempt);
          d = (if fgt d (f_of_int (rc_cap c)) then f_of_int (rc_cap c) else d);
          d = (if rc_jitter c then fmul d (fadd (Fin (1/2)) (fmul rnd (Fin (1/2)))) else d)
      in f_to_int d)"

text \<open>
  The loop from an attempt on: \<open>fn\<close> is the operation, \<open>ctx\<close> the context's error
  when it is done before the delay after an attempt has passed. The
  zero result is None; the durations are not kept.
\<close>

function retry_from :: "retry_config \<Rightarrow> string \<Rightarrow> (int \<Rightarrow> 'a err) \<Rightarrow> (int \<Rightarrow> string option) \<Rightarrow> int
    \<Rightarrow> 'a option \<times> retry_result" where
  "retry_from cfg name fn ctx attempt =
     (if attempt > rc_max cfg
      then (None, \<lparr>rr_attempts = rc_max cfg + 1, rr_last = Some (''exhausted retries for '' @ name)\<rparr>)
      else (case fn attempt of
          Inr x \<Rightarrow> (Some x, \<lparr>rr_attempts = attempt + 1, rr_last = None\<rparr>)
        | Inl e \<Rightarrow>
            (if attempt = rc_max cfg then (None, \<lparr>rr_attempts = attempt + 1, rr_last = Some e\<rparr>)
             else (case ctx attempt of
                 Some c \<Rightarrow> (None, \<lparr>rr_attempts = attempt + 1, rr_last = Some c\<rparr>)
               | None \<Rightarrow> retry_from cfg name fn ctx (attempt + 1)))))"
  by pat_completeness auto
termination
  by (relation "measure (\<lambda>(cfg, _, _, _, n). nat (rc_max cfg + 1 - n))") auto

declare retry_from.simps [simp del]

definition WithRetry :: "retry_config \<Rightarrow> string \<Rightarrow> (int \<Rightarrow> 'a err) \<Rightarrow> (int \<Rightarrow> string option)
    \<Rightarrow> 'a option \<times> retry_result" where
  "WithRetry cfg name fn ctx = retry_from cfg name fn ctx 0"

text \<open>The attempt goes on to the next one.\<close>

definition retried :: "retry_config \<Rightarrow> (int \<Rightarrow> 'a err) \<Rightarrow> (int \<Rightarrow> string option) \<Rightarrow> int \<Rightarrow> bool" where
  "retried cfg fn ctx i \<longleftrightarrow> isl (fn i) \<and> ctx i = None \<and> i < rc_max cfg"

definition retry_outcome :: "retry_config \<Rightarrow> (int \<Rightarrow> 'a err) \<Rightarrow> (int \<Rightarrow> string option) \<Rightarrow> int
    \<Rightarrow> 'a option \<times> retry_result" where
  "retry_outcome cfg fn ctx k = (case fn k of
       Inr x \<Rightarrow> (Some x, \<lparr>rr_attempts = k + 1, rr_last = None\<rparr>)
     | Inl e \<Rightarrow> (None, \<lparr>rr_attempts = k + 1,
         rr_last = (if k = rc_max cfg then Some e else orElse (ctx k) (Some e))\<rparr>))"

lemma retry_from_outcome:
  "attempt \<le> rc_max cfg \<Longrightarrow> \<exists>k\<ge>attempt. k \<le> rc_max cfg \<and> \<not> retried cfg fn ctx k
     \<and> (\<forall>i. attempt \<le> i \<and> i < k \<longrightarrow> retried cfg fn ctx i)
     \<and> retry_from cfg name fn ctx attempt = retry_outcome cfg fn ctx k"
proof (induction cfg name fn ctx attempt rule: retry_from.induct)
  case (1 cfg name fn ctx attempt)
  show ?case
  proof (cases "retried cfg fn ctx attempt")
    case True
    then obtain e where e: "fn attempt = Inl e" "ctx attempt = None" "attempt < rc_max cfg"
      by (cases "fn attempt") (auto simp: retried_def)
    then have "retry_from cfg name fn ctx attempt = retry_from cfg name fn ctx (attempt + 1)"
      by (simp add: retry_from.simps [of cfg name fn ctx attempt])
    moreover obtain k where "k \<ge> attempt + 1" "k \<le> rc_max cfg" "\<not> retried cfg fn ctx k"
        "\<forall>i. attempt + 1 \<le> i \<and> i < k \<longrightarrow> retried cfg fn ctx i"
        "retry_from cfg name fn ctx (attempt + 1) = retry_outcome cfg fn ctx k"
      using 1(1) [OF _ e(1) _ e(2)] e(3) by auto
    moreover have "retried cfg fn ctx i" if "attempt \<le> i" "i < k" for i
      using calculation(5) True that by (cases "i = attempt") auto
    ultimately show ?thesis by (intro exI [of _ k]) auto
  next
    case False
    then have "retry_from cfg name fn ctx attempt = retry_outcome cfg fn ctx attempt"
      using 1(2) by (auto simp: retry_from.simps [of cfg name fn ctx attempt] retry_outcome_def retried_def
          split: sum.splits option.splits)
    then show ?thesis using False 1(2) by auto
  qed
qed

section \<open>Properties\<close>

text \<open>C15: the breaker refines its abstract state machine. From a new breaker, any sequence of calls
  allows and refuses exactly what the abstract breaker does and ends in the state it ends in; a threshold
  below one counts as one. No counter wraps.\<close>

theorem breaker_refines:
  assumes "in_int64 f" "in_int64 s" "in_int64 t"
  shows "spec_run f s t es (Closed 0) =
    (map (\<lambda>r. r = None) (fst (breaker_run es (NewCircuitBreaker f s t))),
     abs_breaker (snd (breaker_run es (NewCircuitBreaker f s t))))"
  using circuit.run_abs [OF new_breaker(1) [OF assms], of es]
  by (simp add: breaker_run_circuit new_breaker(2))

lemma breaker_refines_witness:
  "spec_run 2 1 10 [EvFailure 1, EvFailure 2, EvAllow 5, EvAllow 13, EvSuccess, EvAllow 14] (Closed 0)
     = (map (\<lambda>r. r = None) (fst (breaker_run [EvFailure 1, EvFailure 2, EvAllow 5, EvAllow 13, EvSuccess, EvAllow 14]
         (NewCircuitBreaker 2 1 10))),
        abs_breaker (snd (breaker_run [EvFailure 1, EvFailure 2, EvAllow 5, EvAllow 13, EvSuccess, EvAllow 14]
         (NewCircuitBreaker 2 1 10))))"
  by (rule breaker_refines) (simp_all add: in_int64_def)

text \<open>C16: a retry makes no more than one more attempt than the configured retries, and its result is that of the
  first attempt that is not retried: its value, its error when the attempts are used up, or the
  context's error when the context ends during the delay. The attempts it reports are those it made.\<close>

theorem WithRetry_outcome:
  assumes "0 \<le> rc_max cfg"
  shows "\<exists>k\<ge>0. k \<le> rc_max cfg \<and> \<not> retried cfg fn ctx k \<and> (\<forall>i. 0 \<le> i \<and> i < k \<longrightarrow> retried cfg fn ctx i)
    \<and> WithRetry cfg name fn ctx = retry_outcome cfg fn ctx k"
  unfolding WithRetry_def using retry_from_outcome [OF assms] .

lemma WithRetry_outcome_witness:
  "\<exists>k\<ge>0. k \<le> (3::int) \<and> WithRetry DefaultRetryConfig ''op'' (\<lambda>i. if i = 0 then Inl ''timeout'' else Inr i) (\<lambda>_. None)
     = retry_outcome DefaultRetryConfig (\<lambda>i. if i = 0 then Inl ''timeout'' else Inr i) (\<lambda>_. None) k"
  using WithRetry_outcome [of DefaultRetryConfig "\<lambda>i. if i = 0 then Inl ''timeout'' else Inr i" "\<lambda>_. None" "''op''"]
  by (auto simp: DefaultRetryConfig_def)

end
