(* ===== verification/Tenancy.thy ===== *)
theory Tenancy
  imports GoFloat
begin

text \<open>
  pkg/multitenancy: the tenant resolver, the quota manager and the SLA monitor. A map
  of trackers is a partial function, a tenant context a value: the managers read its limits only. An instant
  holds the year and the day of the year the code reads beside its nanoseconds.
  A run-time panic is a result of its own. The operations hold one lock throughout, so
  they are atomic steps. Listing the tenants (the order of a Go map) is given as a set.
\<close>

section \<open>Types (types.go)\<close>

record instant =
  t_ns :: int
  t_year :: int
  t_yday :: int

record license =
  l_key :: string
  l_tier :: string
  l_seats :: int
  l_expires :: instant
  l_features :: "string list"
  l_valid :: bool
  l_validated :: instant

record tenant =
  tn_name :: string
  tn_namespace :: string
  tn_license :: "license option"
  tn_quota :: int
  tn_cpu :: string
  tn_ram :: string
  tn_budget :: f64
  tn_sla :: f64
  tn_created :: instant
  tn_updated :: instant
  tn_active :: bool

record quota_status =
  qs_name :: string
  qs_per_day :: int
  qs_used :: int
  qs_remaining :: int
  qs_cost :: f64
  qs_cost_remaining :: f64
  qs_percent :: f64
  qs_reset :: instant
  qs_exceeded :: bool

record sla_status =
  ss_name :: string
  ss_success :: int
  ss_failure :: int
  ss_rate :: f64
  ss_target :: f64
  ss_breached :: bool
  ss_breaches :: int
  ss_last :: "instant option"

datatype tenant_error = ErrTenantNotFound | ErrQuotaExceeded | ErrBudgetExceeded | ErrTenant string

section \<open>The resolver (isolation.go)\<close>

type_synonym resolver = "string \<Rightarrow> tenant option"

definition RegisterTenant :: "tenant option \<Rightarrow> resolver \<Rightarrow> tenant_error option \<times> resolver" where
  "RegisterTenant t r = (case t of
       None \<Rightarrow> (Some (ErrTenant ''tenant name required''), r)
     | Some t \<Rightarrow>
         (if tn_name t = [] then (Some (ErrTenant ''tenant name required''), r)
          else if tn_namespace t = [] then (Some (ErrTenant ''namespace required''), r)
          else if tn_license t = None then (Some (ErrTenant ''license required''), r)
          else (None, r(tn_name t \<mapsto> t))))"

definition tenant_prefix :: string where
  "tenant_prefix = ''agentic-customer-''"

text \<open>A namespace without the prefix has no tenant and no error: Inr None.\<close>

definition ExtractFromNamespace :: "resolver \<Rightarrow> string \<Rightarrow> tenant_error + tenant option" where
  "ExtractFromNamespace r ns =
     (if \<not> has_prefix ns tenant_prefix then Inr None
      else let name = trim_prefix ns tenant_prefix in
        if name = [] then Inl ErrTenantNotFound
        else (case r name of
            None \<Rightarrow> Inl (ErrTenant (''tenant not registered: '' @ name))
          | Some t \<Rightarrow> (if \<not> tn_active t then Inl (ErrTenant (''tenant inactive: '' @ name)) else Inr (Some t))))"

definition GetTenant :: "resolver \<Rightarrow> string \<Rightarrow> tenant_error + tenant" where
  "GetTenant r name = (case r name of
       None \<Rightarrow> Inl ErrTenantNotFound
     | Some t \<Rightarrow> (if \<not> tn_active t then Inl (ErrTenant (''tenant inactive: '' @ name)) else Inr t))"

text \<open>The text of the expiry time is a parameter.\<close>

definition ValidateTenant :: "(instant \<Rightarrow> string) \<Rightarrow> instant \<Rightarrow> resolver \<Rightarrow> string \<Rightarrow> tenant_error option" where
  "ValidateTenant show_time now r name = (case GetTenant r name of
       Inl e \<Rightarrow> Some e
     | Inr t \<Rightarrow> (case tn_license t of
           None \<Rightarrow> Some (ErrTenant ''no license'')
         | Some l \<Rightarrow> (if t_ns now > t_ns (l_expires l)
                     then Some (ErrTenant (''license expired at '' @ show_time (l_expires l))) else None)))"

definition ListTenants :: "resolver \<Rightarrow> tenant set" where
  "ListTenants r = {t \<in> ran r. tn_active t}"

definition DeactivateTenant :: "instant \<Rightarrow> string \<Rightarrow> resolver \<Rightarrow> tenant_error option \<times> resolver" where
  "DeactivateTenant now name r = (case GetTenant r name of
       Inl e \<Rightarrow> (Some e, r)
     | Inr t \<Rightarrow> (None, r(name \<mapsto> t\<lparr>tn_active := False, tn_updated := now\<rparr>)))"

section \<open>Quotas (quota.go)\<close>

record quota_tracker =
  q_tenant :: tenant
  q_used :: int
  q_cost :: f64
  q_reset :: instant

type_synonym quota_manager = "string \<Rightarrow> quota_tracker option"

definition new_tracker :: "instant \<Rightarrow> tenant \<Rightarrow> quota_tracker" where
  "new_tracker now t = \<lparr>q_tenant = t, q_used = 0, q_cost = Fin 0, q_reset = now\<rparr>"

definition QuotaAddTenant :: "instant \<Rightarrow> tenant \<Rightarrow> quota_manager \<Rightarrow> quota_manager" where
  "QuotaAddTenant now t qm = qm(tn_name t \<mapsto> new_tracker now t)"

definition NewQuotaManager :: "instant \<Rightarrow> tenant list \<Rightarrow> quota_manager" where
  "NewQuotaManager now ts = fold (QuotaAddTenant now) ts Map.empty"

definition QuotaGetStatus :: "quota_manager \<Rightarrow> string \<Rightarrow> tenant_error + quota_status" where
  "QuotaGetStatus qm name = (case qm name of
       None \<Rightarrow> Inl ErrTenantNotFound
     | Some q \<Rightarrow>
         (let t = q_tenant q in
          Inr \<lparr>qs_name = name, qs_per_day = tn_quota t, qs_used = q_used q,
            qs_remaining = wrap64 (tn_quota t - q_used q), qs_cost = q_cost q,
            qs_cost_remaining = fsub (tn_budget t) (q_cost q),
            qs_percent = (if tn_quota t > 0
               then fmul (fdiv (f_of_int (q_used q)) (f_of_int (tn_quota t))) (Fin 100) else Fin 0),
            qs_reset = q_reset q,
            qs_exceeded = (q_used q \<ge> tn_quota t \<or> fge (q_cost q) (tn_budget t))\<rparr>))"

datatype 'a outcome = Panics | Returns 'a

definition reset_tracker :: "instant \<Rightarrow> quota_tracker \<Rightarrow> quota_tracker" where
  "reset_tracker now q =
     (if t_yday now \<noteq> t_yday (q_reset q) then q\<lparr>q_used := 0, q_reset := now\<rparr> else q)"

text \<open>The missing tracker is a nil pointer, which the code dereferences.\<close>

definition maybeReset :: "instant \<Rightarrow> string \<Rightarrow> quota_manager \<Rightarrow> quota_manager outcome" where
  "maybeReset now name qm = (case qm name of
       None \<Rightarrow> Panics
     | Some q \<Rightarrow> Returns (qm(name \<mapsto> reset_tracker now q)))"

definition consume :: "f64 \<Rightarrow> quota_tracker \<Rightarrow> tenant_error option \<times> quota_tracker" where
  "consume cost q =
     (let t = q_tenant q in
      if q_used q \<ge> tn_quota t then (Some ErrQuotaExceeded, q)
      else if fgt (fadd (q_cost q) cost) (tn_budget t) then (Some ErrBudgetExceeded, q)
      else (None, q\<lparr>q_used := wrap64 (q_used q + 1), q_cost := fadd (q_cost q) cost\<rparr>))"

definition CheckAndConsume :: "instant \<Rightarrow> string \<Rightarrow> f64 \<Rightarrow> quota_manager
    \<Rightarrow> (tenant_error option \<times> quota_manager) outcome" where
  "CheckAndConsume now name cost qm = (case maybeReset now name qm of
       Panics \<Rightarrow> Panics
     | Returns qm \<Rightarrow> (case qm name of
           None \<Rightarrow> Returns (Some ErrTenantNotFound, qm)
         | Some q \<Rightarrow> (case consume cost q of (e, q') \<Rightarrow> Returns (e, qm(name \<mapsto> q')))))"

definition QuotaReset :: "instant \<Rightarrow> string \<Rightarrow> quota_manager \<Rightarrow> tenant_error option \<times> quota_manager" where
  "QuotaReset now name qm = (case qm name of
       None \<Rightarrow> (Some ErrTenantNotFound, qm)
     | Some q \<Rightarrow> (None, qm(name \<mapsto> q\<lparr>q_used := 0, q_cost := Fin 0, q_reset := now\<rparr>)))"

section \<open>Service levels (sla.go)\<close>

record sla_tracker =
  s_tenant :: tenant
  s_success :: int
  s_failure :: int
  s_breaches :: int
  s_last :: "instant option"
  s_breached :: bool

type_synonym sla_monitor = "string \<Rightarrow> sla_tracker option"

definition SLAAddTenant :: "tenant \<Rightarrow> sla_monitor \<Rightarrow> sla_monitor" where
  "SLAAddTenant t sm = sm(tn_name t \<mapsto> \<lparr>s_tenant = t, s_success = 0, s_failure = 0,
     s_breaches = 0, s_last = None, s_breached = False\<rparr>)"

definition NewSLAMonitor :: "tenant list \<Rightarrow> sla_monitor" where
  "NewSLAMonitor ts = fold SLAAddTenant ts Map.empty"

definition calcSuccessRate :: "sla_tracker \<Rightarrow> f64" where
  "calcSuccessRate s =
     (let total = wrap64 (s_success s + s_failure s) in
      if total = 0 then Fin 100
      else fmul (fdiv (f_of_int (s_success s)) (f_of_int total)) (Fin 100))"

definition track_success :: "sla_tracker \<Rightarrow> sla_tracker" where
  "track_success s =
     (let s = s\<lparr>s_success := wrap64 (s_success s + 1)\<rparr> in
      if s_breached s \<and> fge (calcSuccessRate s) (tn_sla (s_tenant s)) then s\<lparr>s_breached := False\<rparr> else s)"

definition track_failure :: "instant \<Rightarrow> sla_tracker \<Rightarrow> sla_tracker" where
  "track_failure now s =
     (let s = s\<lparr>s_failure := wrap64 (s_failure s + 1)\<rparr> in
      if flt (calcSuccessRate s) (tn_sla (s_tenant s))
      then s\<lparr>s_last := Some now, s_breaches := wrap64 (s_breaches s + 1), s_breached := True\<rparr> else s)"

definition SLARecordSuccess :: "string \<Rightarrow> sla_monitor \<Rightarrow> tenant_error option \<times> sla_monitor" where
  "SLARecordSuccess name sm = (case sm name of
       None \<Rightarrow> (Some ErrTenantNotFound, sm)
     | Some s \<Rightarrow> (None, sm(name \<mapsto> track_success s)))"

definition SLARecordFailure :: "instant \<Rightarrow> string \<Rightarrow> sla_monitor \<Rightarrow> tenant_error option \<times> sla_monitor" where
  "SLARecordFailure now name sm = (case sm name of
       None \<Rightarrow> (Some ErrTenantNotFound, sm)
     | Some s \<Rightarrow> (None, sm(name \<mapsto> track_failure now s)))"

definition SLAGetStatus :: "sla_monitor \<Rightarrow> string \<Rightarrow> tenant_error + sla_status" where
  "SLAGetStatus sm name = (case sm name of
       None \<Rightarrow> Inl ErrTenantNotFound
     | Some s \<Rightarrow> Inr \<lparr>ss_name = name, ss_success = s_success s, ss_failure = s_failure s,
         ss_rate = calcSuccessRate s, ss_target = tn_sla (s_tenant s), ss_breached = s_breached s,
         ss_breaches = s_breaches s, ss_last = s_last s\<rparr>)"

definition GetBreachedTenants :: "sla_monitor \<Rightarrow> string set" where
  "GetBreachedTenants sm = {n. \<exists>s. sm n = Some s \<and> s_breached s}"

section \<open>Days and quotas\<close>

lemma maybeReset_Panics [simp]: "maybeReset now name qm = Panics \<longleftrightarrow> qm name = None"
  by (simp add: maybeReset_def split: option.splits)

lemma CheckAndConsume_Some:
  "qm name = Some q \<Longrightarrow> CheckAndConsume now name cost qm =
     (case consume cost (reset_tracker now q) of (e, q') \<Rightarrow> Returns (e, qm(name \<mapsto> q')))"
  by (simp add: CheckAndConsume_def maybeReset_def)

lemma CheckAndConsume_None: "qm name = None \<Longrightarrow> CheckAndConsume now name cost qm = Panics"
  by (simp add: CheckAndConsume_def maybeReset_def)

text \<open>A sequence of calls: the tenant, the time and the cost of each; what each returns.\<close>

type_synonym quota_call = "string \<times> instant \<times> f64"

fun quota_run :: "quota_call list \<Rightarrow> quota_manager \<Rightarrow> (tenant_error option list \<times> quota_manager) outcome" where
  "quota_run [] qm = Returns ([], qm)"
| "quota_run ((name, now, cost) # cs) qm = (case CheckAndConsume now name cost qm of
       Panics \<Rightarrow> Panics
     | Returns (e, qm') \<Rightarrow> (case quota_run cs qm' of
           Panics \<Rightarrow> Panics
         | Returns (es, qm'') \<Rightarrow> Returns (e # es, qm'')))"

definition accepted_calls :: "string \<Rightarrow> quota_call list \<Rightarrow> tenant_error option list \<Rightarrow> nat" where
  "accepted_calls name cs es = length (filter (\<lambda>(c, e). fst c = name \<and> e = None) (zip cs es))"

lemma consume_props:
  assumes "consume cost q = (e, q')" "0 \<le> q_used q" "q_used q \<le> max (q_used q0) (tn_quota (q_tenant q))"
    "in_int64 (tn_quota (q_tenant q))"
  shows "q_used q' = q_used q + (if e = None then 1 else 0)" "q_tenant q' = q_tenant q"
    "q_reset q' = q_reset q" "0 \<le> q_used q'" "q_used q' \<le> max (q_used q) (tn_quota (q_tenant q))"
    "\<not> fgt (q_cost q) (tn_budget (q_tenant q)) \<Longrightarrow> \<not> fgt (q_cost q') (tn_budget (q_tenant q))"
proof -
  have wrap: "q_used q < tn_quota (q_tenant q) \<Longrightarrow> wrap64 (q_used q + 1) = q_used q + 1"
    using assms(2,4) by (intro wrap64_id) (auto simp: in_int64_def)
  show "q_used q' = q_used q + (if e = None then 1 else 0)" "q_tenant q' = q_tenant q"
    "q_reset q' = q_reset q" "0 \<le> q_used q'" "q_used q' \<le> max (q_used q) (tn_quota (q_tenant q))"
    "\<not> fgt (q_cost q) (tn_budget (q_tenant q)) \<Longrightarrow> \<not> fgt (q_cost q') (tn_budget (q_tenant q))"
    using assms(1,2) wrap by (auto simp: consume_def Let_def split: if_splits)
qed

text \<open>Calls that all fall on the tracker's day leave the tracker within its limits.\<close>

lemma quota_run_day:
  assumes "qm name = Some q" "in_int64 (tn_quota (q_tenant q))" "0 \<le> q_used q"
    "\<forall>(n, now, _)\<in>set cs. n = name \<longrightarrow> t_yday now = t_yday (q_reset q)"
    "quota_run cs qm = Returns (es, qm')"
  shows "\<exists>q'. qm' name = Some q' \<and> q_tenant q' = q_tenant q
    \<and> q_used q' = q_used q + int (accepted_calls name cs es)
    \<and> q_used q' \<le> max (q_used q) (tn_quota (q_tenant q))
    \<and> (\<not> fgt (q_cost q) (tn_budget (q_tenant q)) \<longrightarrow> \<not> fgt (q_cost q') (tn_budget (q_tenant q)))"
  using assms
proof (induction cs arbitrary: qm q es)
  case Nil
  then show ?case by (simp add: accepted_calls_def)
next
  case (Cons c cs)
  obtain n now cost where c: "c = (n, now, cost)" by (cases c)
  obtain e qm1 es1 where run: "CheckAndConsume now n cost qm = Returns (e, qm1)"
      "quota_run cs qm1 = Returns (es1, qm')" "es = e # es1"
    using Cons(6) by (auto simp: c split: outcome.splits prod.splits)
  show ?case
  proof (cases "n = name")
    case True
    have same: "reset_tracker now q = q" using Cons(5) c True by (auto simp: reset_tracker_def)
    obtain q1 where con: "consume cost q = (e, q1)" "qm1 = qm(name \<mapsto> q1)"
      using run(1) CheckAndConsume_Some [of qm name q] Cons(2) True same
      by (auto split: prod.splits)
    note p = consume_props [OF con(1) Cons(4) _ Cons(3), of q, simplified]
    have "\<exists>q'. qm' name = Some q' \<and> q_tenant q' = q_tenant q1
      \<and> q_used q' = q_used q1 + int (accepted_calls name cs es1)
      \<and> q_used q' \<le> max (q_used q1) (tn_quota (q_tenant q1))
      \<and> (\<not> fgt (q_cost q1) (tn_budget (q_tenant q1)) \<longrightarrow> \<not> fgt (q_cost q') (tn_budget (q_tenant q1)))"
      using Cons(1) [OF _ _ _ _ run(2), of q1] con(2) p Cons(3,5) by simp
    moreover have "accepted_calls name (c # cs) es = (if e = None then 1 else 0) + accepted_calls name cs es1"
      by (simp add: accepted_calls_def c run(3) True)
    ultimately show ?thesis using p by (auto split: if_splits)
  next
    case False
    have "qm1 name = qm name"
      using run(1) False by (cases "qm n") (auto simp: CheckAndConsume_Some CheckAndConsume_None split: prod.splits)
    then have "\<exists>q'. qm' name = Some q' \<and> q_tenant q' = q_tenant q
      \<and> q_used q' = q_used q + int (accepted_calls name cs es1)
      \<and> q_used q' \<le> max (q_used q) (tn_quota (q_tenant q))
      \<and> (\<not> fgt (q_cost q) (tn_budget (q_tenant q)) \<longrightarrow> \<not> fgt (q_cost q') (tn_budget (q_tenant q)))"
      using Cons(1) [OF _ Cons(3,4) _ run(2)] Cons(2,5) by simp
    moreover have "accepted_calls name (c # cs) es = accepted_calls name cs es1"
      by (simp add: accepted_calls_def c run(3) False)
    ultimately show ?thesis by simp
  qed
qed

lemma quota_run_returns:
  "\<forall>c\<in>set cs. qm (fst c) \<noteq> None \<Longrightarrow> \<exists>es qm'. quota_run cs qm = Returns (es, qm')"
proof (induction cs arbitrary: qm)
  case (Cons c cs)
  obtain n now cost where c: "c = (n, now, cost)" by (cases c)
  obtain q where q: "qm n = Some q" using Cons(2) c by auto
  obtain e q' where con: "consume cost (reset_tracker now q) = (e, q')"
    by (cases "consume cost (reset_tracker now q)")
  have "\<forall>c\<in>set cs. (qm(n \<mapsto> q')) (fst c) \<noteq> None" using Cons(2) by simp
  then obtain es qm' where "quota_run cs (qm(n \<mapsto> q')) = Returns (es, qm')"
    using Cons(1) by blast
  then show ?case using c con by (simp add: CheckAndConsume_Some [of qm n q] q)
qed simp

text \<open>C17: the daily quota holds. Over any sequence of calls for any tenants, those for one tenant all on
  the day of its last reset, the accepted calls of the tenant and its use before do not exceed its
  quota (or its use before, when that was already above), and its accepted cost stays within its budget. The calls for other
  tenants do not count.\<close>

theorem quota_day_bound:
  assumes "qm name = Some q" "in_int64 (tn_quota (q_tenant q))" "0 \<le> q_used q"
    "\<forall>(n, now, _)\<in>set cs. n = name \<longrightarrow> t_yday now = t_yday (q_reset q)"
    "quota_run cs qm = Returns (es, qm')" "\<not> fgt (q_cost q) (tn_budget (q_tenant q))"
  shows "q_used q + int (accepted_calls name cs es) \<le> max (q_used q) (tn_quota (q_tenant q))
    \<and> (\<exists>q'. qm' name = Some q' \<and> q_used q' = q_used q + int (accepted_calls name cs es)
        \<and> \<not> fgt (q_cost q') (tn_budget (q_tenant q)))"
  using quota_run_day [OF assms(1-5)] assms(6) by auto

definition wit_day :: instant where
  "wit_day = \<lparr>t_ns = 0, t_year = 2026, t_yday = 10\<rparr>"

definition wit_tenant :: tenant where
  "wit_tenant = \<lparr>tn_name = ''acme'', tn_namespace = ''agentic-customer-acme'', tn_license = None, tn_quota = 1,
     tn_cpu = '''', tn_ram = '''', tn_budget = Fin 10, tn_sla = Fin 99, tn_created = wit_day,
     tn_updated = wit_day, tn_active = True\<rparr>"

lemma quota_day_bound_witness:
  "\<exists>es qm'. quota_run [(''acme'', wit_day, Fin 0), (''acme'', wit_day, Fin 0)] (NewQuotaManager wit_day [wit_tenant])
      = Returns (es, qm')
    \<and> int (accepted_calls ''acme'' [(''acme'', wit_day, Fin 0), (''acme'', wit_day, Fin 0)] es) \<le> 1"
proof -
  let ?cs = "[(''acme'', wit_day, Fin 0), (''acme'', wit_day, Fin 0)]"
  let ?q = "new_tracker wit_day wit_tenant"
  let ?qm = "NewQuotaManager wit_day [wit_tenant]"
  have q: "?qm ''acme'' = Some ?q" by (simp add: NewQuotaManager_def QuotaAddTenant_def wit_tenant_def)
  obtain es qm' where r: "quota_run ?cs ?qm = Returns (es, qm')"
    using quota_run_returns [of ?cs ?qm] q by auto
  have "int (accepted_calls ''acme'' ?cs es) \<le> 1"
    using quota_day_bound [OF q _ _ _ r]
    by (simp add: new_tracker_def wit_tenant_def wit_day_def in_int64_def)
  then show ?thesis using r by blast
qed

text \<open>A call for a tenant the manager does not know does not return: it dereferences a nil tracker. For a known
  tenant it returns, and never the error that the tenant is not found.\<close>

theorem CheckAndConsume_unknown:
  "(CheckAndConsume now name cost qm = Panics) = (qm name = None)
   \<and> (\<forall>qm'. CheckAndConsume now name cost qm \<noteq> Returns (Some ErrTenantNotFound, qm'))"
  by (cases "qm name") (auto simp: CheckAndConsume_Some CheckAndConsume_None consume_def Let_def
      split: prod.splits if_splits)

text \<open>The daily reset looks at the day of the year only: an exhausted tenant with no call in between is refused
  on the same day of every other year, and gets its full quota back on every other day, one day earlier included.\<close>

lemma quota_reset_by_yearday:
  assumes "qm name = Some q" "q_used q \<ge> tn_quota (q_tenant q)" "0 < tn_quota (q_tenant q)"
    "\<not> fgt (fadd (q_cost q) cost) (tn_budget (q_tenant q))"
  shows "(\<exists>qm'. CheckAndConsume now name cost qm = Returns (Some ErrQuotaExceeded, qm'))
    = (t_yday now = t_yday (q_reset q))"
  using assms by (auto simp: CheckAndConsume_Some consume_def reset_tracker_def Let_def)

section \<open>Service levels\<close>

datatype sla_event = SlaSuccess string | SlaFailure string instant

fun sla_step :: "sla_event \<Rightarrow> sla_monitor \<Rightarrow> sla_monitor" where
  "sla_step (SlaSuccess n) sm = snd (SLARecordSuccess n sm)"
| "sla_step (SlaFailure n now) sm = snd (SLARecordFailure now n sm)"

definition sla_run :: "sla_event list \<Rightarrow> sla_monitor \<Rightarrow> sla_monitor" where
  "sla_run es sm = fold sla_step es sm"

fun is_success :: "string \<Rightarrow> sla_event \<Rightarrow> bool" where
  "is_success n (SlaSuccess m) = (m = n)"
| "is_success n (SlaFailure m t) = False"

fun is_failure :: "string \<Rightarrow> sla_event \<Rightarrow> bool" where
  "is_failure n (SlaSuccess m) = False"
| "is_failure n (SlaFailure m t) = (m = n)"

definition count_events :: "(sla_event \<Rightarrow> bool) \<Rightarrow> sla_event list \<Rightarrow> int" where
  "count_events f es = int (length (filter f es))"

definition ratio :: "int \<Rightarrow> int \<Rightarrow> rat" where
  "ratio a b = (if a + b = 0 then 1 else of_int a / of_int (a + b))"

text \<open>The rate of a tracker is the ratio rounded twice, which keeps its order.\<close>

definition percent :: "rat \<Rightarrow> f64" where
  "percent x = fmul (fround x) (Fin 100)"

lemma fround_unit: "0 \<le> x \<Longrightarrow> x \<le> 1 \<Longrightarrow> \<exists>y. fround x = Fin y \<and> 0 \<le> y \<and> y \<le> 1"
proof -
  assume x: "0 \<le> x" "x \<le> 1"
  have z: "fround 0 = Fin 0" "fround 1 = Fin 1" using fround_int [of 0] fround_int [of 1] by simp_all
  have "fle (Fin 0) (fround x)" "fle (fround x) (Fin 1)"
    using fround_mono [of 0 x] fround_mono [of x 1] x z by simp_all
  then show ?thesis by (cases "fround x") (auto simp: fle_def flt_def feq_def)
qed

lemma percent_mono: "0 \<le> x \<Longrightarrow> x \<le> y \<Longrightarrow> y \<le> 1 \<Longrightarrow> fle (percent x) (percent y)"
proof -
  assume le: "0 \<le> x" "x \<le> y" "y \<le> 1"
  obtain a b where ab: "fround x = Fin a" "0 \<le> a" "fround y = Fin b"
    using fround_unit [of x] fround_unit [of y] le by auto
  then have "a \<le> b" using fround_mono [of x y] le by simp
  then show ?thesis using ab by (simp add: percent_def fmul_def fround_mono)
qed

lemma fround_not_NaN [simp]: "fround x \<noteq> NaN"
  by (simp add: fround_def Let_def)

lemma percent_not_NaN: "0 \<le> x \<Longrightarrow> x \<le> 1 \<Longrightarrow> percent x \<noteq> NaN"
  using fround_unit [of x] by (auto simp: percent_def fmul_def)

lemma ratio_unit: "0 \<le> a \<Longrightarrow> 0 \<le> b \<Longrightarrow> 0 \<le> ratio a b \<and> ratio a b \<le> 1"
  by (simp add: ratio_def)

lemma ratio_success: "0 \<le> a \<Longrightarrow> 0 \<le> b \<Longrightarrow> 0 < a + b \<Longrightarrow> ratio a b \<le> ratio (a + 1) b"
proof -
  assume a: "0 \<le> a" "0 \<le> b" "0 < a + b"
  have "rat_of_int a * of_int (a + 1 + b) \<le> of_int (a + 1) * of_int (a + b)"
    using a by (simp flip: of_int_mult add: algebra_simps)
  then show ?thesis using a by (simp add: ratio_def divide_simps del: of_int_add)
qed

lemma ratio_failure: "0 \<le> a \<Longrightarrow> 0 \<le> b \<Longrightarrow> ratio a (b + 1) \<le> ratio a b"
proof -
  assume a: "0 \<le> a" "0 \<le> b"
  show ?thesis
  proof (cases "a + b = 0")
    case True
    then show ?thesis using a by (simp add: ratio_def)
  next
    case False
    then show ?thesis using a unfolding ratio_def by (simp add: frac_le)
  qed
qed

lemma calcSuccessRate_ratio:
  assumes "0 \<le> s_success s" "0 \<le> s_failure s" "s_success s + s_failure s < 2 ^ 53"
  shows "calcSuccessRate s = percent (ratio (s_success s) (s_failure s))"
proof -
  have w: "wrap64 (s_success s + s_failure s) = s_success s + s_failure s"
    using assms by (intro wrap64_id) (simp add: in_int64_def)
  have one: "fround 1 = Fin 1" "fround 100 = Fin 100"
    using fround_int [of 1] fround_int [of 100] by simp_all
  show ?thesis
  proof (cases "s_success s + s_failure s = 0")
    case True
    then show ?thesis using w one by (simp add: calcSuccessRate_def ratio_def percent_def fmul_def)
  next
    case False
    have ints: "fround (of_int (s_success s)) = Fin (of_int (s_success s))"
      "fround (of_int (s_success s + s_failure s)) = Fin (of_int (s_success s + s_failure s))"
      using assms by (intro fround_int; simp)+
    have ne: "rat_of_int (s_success s + s_failure s) \<noteq> 0" using False by (simp only: of_int_eq_0_iff not_False_eq_True)
    show ?thesis
      using False ints ne unfolding calcSuccessRate_def Let_def w ratio_def percent_def f_of_int_def
      by (simp add: fdiv_def del: of_int_add)
  qed
qed

text \<open>What the trackers of a fresh monitor are after a sequence of events.\<close>

definition tracks :: "sla_event list \<Rightarrow> string \<Rightarrow> sla_tracker \<Rightarrow> bool" where
  "tracks es n s \<longleftrightarrow> s_success s = count_events (is_success n) es \<and> s_failure s = count_events (is_failure n) es
    \<and> (\<not> flt (Fin 100) (tn_sla (s_tenant s)) \<longrightarrow>
        s_breached s = flt (calcSuccessRate s) (tn_sla (s_tenant s)))"

lemma count_events_snoc:
  "count_events f (es @ [e]) = count_events f es + (if f e then 1 else 0)"
  by (simp add: count_events_def)

lemma count_events_nonneg [simp]: "0 \<le> count_events f es"
  by (simp add: count_events_def)

lemma count_events_total:
  "count_events (is_success n) es + count_events (is_failure n) es \<le> int (length es)"
proof (induction es)
  case (Cons e es)
  then show ?case by (cases e) (auto simp: count_events_def)
qed (simp add: count_events_def)

lemma not_flt_fle: "a \<noteq> NaN \<Longrightarrow> b \<noteq> NaN \<Longrightarrow> \<not> flt a b \<longleftrightarrow> fle b a"
  using fle_total [of b a] flt_asym [of a b] by blast

lemma tracks_success:
  assumes "tracks es n s" "int (length es) + 1 < 2 ^ 53"
  shows "tracks (es @ [SlaSuccess n]) n (track_success s)"
proof -
  let ?a = "count_events (is_success n) es" and ?b = "count_events (is_failure n) es" and ?t = "tn_sla (s_tenant s)"
  have small: "?a + 1 + ?b < 2 ^ 53" using count_events_total [of n es] assms(2) by linarith
  have ab: "s_success s = ?a" "s_failure s = ?b" using assms(1) by (simp_all add: tracks_def)
  have nn_events: "0 \<le> ?a" "0 \<le> ?b" by simp_all
  define s1 where "s1 = s\<lparr>s_success := wrap64 (s_success s + 1)\<rparr>"
  have "?a + 1 < 2 ^ 53" using small nn_events by linarith
  then have "wrap64 (?a + 1) = ?a + 1" by (intro wrap64_id) (simp add: in_int64_def)
  then have s1: "s_success s1 = ?a + 1" "s_failure s1 = ?b" "s_tenant s1 = s_tenant s" "s_breached s1 = s_breached s"
    using ab by (simp_all add: s1_def)
  have r1: "calcSuccessRate s1 = percent (ratio (?a + 1) ?b)"
    using calcSuccessRate_ratio [of s1] s1 small by simp
  have r0: "calcSuccessRate s = percent (ratio ?a ?b)"
    using calcSuccessRate_ratio [of s] ab small by simp
  have nn: "percent (ratio (?a + 1) ?b) \<noteq> NaN"
    using percent_not_NaN ratio_unit [of "?a + 1" ?b] by simp
  have res: "track_success s = (if s_breached s \<and> fge (calcSuccessRate s1) ?t then s1\<lparr>s_breached := False\<rparr> else s1)"
    by (simp add: track_success_def s1_def Let_def)
  have same: "calcSuccessRate (s1\<lparr>s_breached := x\<rparr>) = calcSuccessRate s1" for x
    by (simp add: calcSuccessRate_def Let_def)
  have flag: "s_breached (track_success s) = flt (calcSuccessRate s1) ?t" if t: "\<not> flt (Fin 100) ?t"
  proof (cases "s_breached s")
    case True
    then have "?t \<noteq> NaN" using assms(1) t by (cases "tn_sla (s_tenant s)") (auto simp: tracks_def)
    then show ?thesis using True s1(4) res not_flt_fle [of "calcSuccessRate s1" ?t] nn r1 by auto
  next
    case False
    have "fle (percent (ratio ?a ?b)) (percent (ratio (?a + 1) ?b)) \<or> calcSuccessRate s1 = Fin 100"
    proof (cases "?a + ?b = 0")
      case True
      then have "?a = 0" "?b = 0"
        using count_events_nonneg [of "is_success n" es] count_events_nonneg [of "is_failure n" es]
        by linarith+
      then have "ratio (?a + 1) ?b = 1" by (simp add: ratio_def)
      then show ?thesis
        using r1 fround_int [of 1] fround_int [of 100] by (simp add: percent_def fmul_def)
    next
      case False
      then have "0 < ?a + ?b" using count_events_nonneg [of "is_success n" es] count_events_nonneg [of "is_failure n" es]
        by linarith
      then show ?thesis
        using ratio_success [of ?a ?b] ratio_unit [of ?a ?b] ratio_unit [of "?a + 1" ?b] percent_mono by simp
    qed
    moreover have "\<not> flt (percent (ratio ?a ?b)) ?t" using assms(1) t False r0 by (simp add: tracks_def)
    ultimately have "\<not> flt (calcSuccessRate s1) ?t" using r1 t fle_lt_trans by metis
    then show ?thesis using False s1(4) res by simp
  qed
  have ten: "s_tenant (track_success s) = s_tenant s" "s_success (track_success s) = ?a + 1"
    "s_failure (track_success s) = ?b" "calcSuccessRate (track_success s) = calcSuccessRate s1"
    using res s1 same by simp_all
  show ?thesis
    unfolding tracks_def using flag ten by (simp add: count_events_snoc)
qed

lemma tracks_failure:
  assumes "tracks es n s" "int (length es) + 1 < 2 ^ 53"
  shows "tracks (es @ [SlaFailure n now]) n (track_failure now s)"
proof -
  let ?a = "count_events (is_success n) es" and ?b = "count_events (is_failure n) es" and ?t = "tn_sla (s_tenant s)"
  have small: "?a + (?b + 1) < 2 ^ 53" using count_events_total [of n es] assms(2) by linarith
  have ab: "s_success s = ?a" "s_failure s = ?b" using assms(1) by (simp_all add: tracks_def)
  have nn_events: "0 \<le> ?a" "0 \<le> ?b" by simp_all
  define s1 where "s1 = s\<lparr>s_failure := wrap64 (s_failure s + 1)\<rparr>"
  have "?b + 1 < 2 ^ 53" using small nn_events by linarith
  then have "wrap64 (?b + 1) = ?b + 1" by (intro wrap64_id) (simp add: in_int64_def)
  then have s1: "s_success s1 = ?a" "s_failure s1 = ?b + 1" "s_tenant s1 = s_tenant s" "s_breached s1 = s_breached s"
    using ab by (simp_all add: s1_def)
  have r: "calcSuccessRate s1 = percent (ratio ?a (?b + 1))" "calcSuccessRate s = percent (ratio ?a ?b)"
    using calcSuccessRate_ratio [of s1] calcSuccessRate_ratio [of s] s1 ab small by simp_all
  have le: "fle (calcSuccessRate s1) (calcSuccessRate s)"
    using r ratio_failure [of ?a ?b] ratio_unit [of ?a "?b + 1"] ratio_unit [of ?a ?b] percent_mono by simp
  have same: "calcSuccessRate (s1\<lparr>s_last := x, s_breaches := y, s_breached := z\<rparr>) = calcSuccessRate s1" for x y z
    by (simp add: calcSuccessRate_def Let_def)
  have res: "track_failure now s = (if flt (calcSuccessRate s1) ?t
      then s1\<lparr>s_last := Some now, s_breaches := wrap64 (s_breaches s1 + 1), s_breached := True\<rparr> else s1)"
    by (simp add: track_failure_def s1_def Let_def)
  have flag: "s_breached (track_failure now s) = flt (calcSuccessRate s1) ?t" if "\<not> flt (Fin 100) ?t"
  proof -
    have "s_breached s = flt (calcSuccessRate s) ?t" using assms(1) that by (simp add: tracks_def)
    then show ?thesis using fle_lt_trans [OF le] s1(4) by (auto simp: res)
  qed
  have ten: "s_tenant (track_failure now s) = s_tenant s" "s_success (track_failure now s) = ?a"
    "s_failure (track_failure now s) = ?b + 1" "calcSuccessRate (track_failure now s) = calcSuccessRate s1"
    using s1 same by (simp_all add: res)
  show ?thesis
    unfolding tracks_def using flag ten by (simp add: count_events_snoc)
qed

lemma tracks_other:
  "tracks es n s \<Longrightarrow> \<not> is_success n e \<Longrightarrow> \<not> is_failure n e \<Longrightarrow> tracks (es @ [e]) n s"
  by (simp add: tracks_def count_events_snoc)

lemma in_fresh: "NewSLAMonitor ts n = Some s \<Longrightarrow> tracks [] n s"
proof -
  have "\<forall>n s. fold SLAAddTenant ts m n = Some s \<longrightarrow> tracks [] n s"
    if "\<forall>n s. m n = Some s \<longrightarrow> tracks [] n s" for m
    using that
  proof (induction ts arbitrary: m)
    case (Cons t ts)
    have "tracks [] n \<lparr>s_tenant = t, s_success = 0, s_failure = 0, s_breaches = 0, s_last = None, s_breached = False\<rparr>" for n
      by (auto simp: tracks_def count_events_def calcSuccessRate_def Let_def wrap64_id in_int64_def)
    then have "\<forall>n s. SLAAddTenant t m n = Some s \<longrightarrow> tracks [] n s"
      using Cons(2) by (simp add: SLAAddTenant_def)
    then show ?case using Cons(1) by simp
  qed simp
  from this [of Map.empty] show "NewSLAMonitor ts n = Some s \<Longrightarrow> tracks [] n s"
    unfolding NewSLAMonitor_def by simp
qed

lemma sla_step_tracks:
  assumes "\<And>s. sm n = Some s \<Longrightarrow> tracks es n s" "int (length es) + 1 < 2 ^ 53" "sla_step e sm n = Some s"
  shows "tracks (es @ [e]) n s"
proof (cases e)
  case (SlaSuccess m)
  show ?thesis
  proof (cases "m = n")
    case True
    then obtain s0 where "sm n = Some s0" "s = track_success s0"
      using assms(3) SlaSuccess by (auto simp: SLARecordSuccess_def split: option.splits)
    then show ?thesis using tracks_success assms(1,2) SlaSuccess True by simp
  next
    case False
    then have "sm n = Some s"
      using assms(3) SlaSuccess by (auto simp: SLARecordSuccess_def split: option.splits)
    then show ?thesis using tracks_other assms(1) SlaSuccess False by simp
  qed
next
  case (SlaFailure m now)
  show ?thesis
  proof (cases "m = n")
    case True
    then obtain s0 where "sm n = Some s0" "s = track_failure now s0"
      using assms(3) SlaFailure by (auto simp: SLARecordFailure_def split: option.splits)
    then show ?thesis using tracks_failure assms(1,2) SlaFailure True by simp
  next
    case False
    then have "sm n = Some s"
      using assms(3) SlaFailure by (auto simp: SLARecordFailure_def split: option.splits)
    then show ?thesis using tracks_other assms(1) SlaFailure False by simp
  qed
qed

lemma sla_run_tracks:
  "int (length es) < 2 ^ 53 \<Longrightarrow> sla_run es (NewSLAMonitor ts) n = Some s \<Longrightarrow> tracks es n s"
proof (induction es arbitrary: s rule: rev_induct)
  case Nil
  then show ?case using in_fresh by (simp add: sla_run_def)
next
  case (snoc e es)
  have "tracks es n s0" if "sla_run es (NewSLAMonitor ts) n = Some s0" for s0
    using snoc(1) [OF _ that] snoc(2) by simp
  then show ?case
    using sla_step_tracks [of "sla_run es (NewSLAMonitor ts)" n es e s] snoc(2,3)
    by (simp add: sla_run_def)
qed

text \<open>the status of a tenant is exact. Over any sequence of recorded outcomes of any tenants, the counters are the
  tenant's own successes and failures, and, for a target of at most 100, the breach flag is up exactly when
  the present success rate, rounded as computed, is below the target: the flag never lags.\<close>

theorem SLA_status_exact:
  assumes "int (length es) < 2 ^ 53" "SLAGetStatus (sla_run es (NewSLAMonitor ts)) name = Inr st"
    "\<not> flt (Fin 100) (ss_target st)"
  shows "ss_success st = count_events (is_success name) es \<and> ss_failure st = count_events (is_failure name) es
    \<and> ss_breached st = flt (ss_rate st) (ss_target st)"
proof -
  obtain s where s: "sla_run es (NewSLAMonitor ts) name = Some s"
    using assms(2) by (auto simp: SLAGetStatus_def split: option.splits)
  then have "tracks es name s" using sla_run_tracks assms(1) by blast
  then show ?thesis using assms(2,3) s by (auto simp: SLAGetStatus_def tracks_def)
qed

lemma SLA_status_exact_witness:
  "\<exists>st. SLAGetStatus (sla_run [SlaSuccess ''acme'', SlaFailure ''acme'' wit_day, SlaSuccess ''other'']
      (NewSLAMonitor [wit_tenant])) ''acme'' = Inr st
    \<and> ss_success st = 1 \<and> ss_failure st = 1 \<and> ss_breached st = flt (ss_rate st) (ss_target st)"
proof -
  let ?es = "[SlaSuccess ''acme'', SlaFailure ''acme'' wit_day, SlaSuccess ''other'']"
  have n: "tn_name wit_tenant = ''acme''" by (simp add: wit_tenant_def)
  obtain s where s: "sla_run ?es (NewSLAMonitor [wit_tenant]) ''acme'' = Some s" "tn_sla (s_tenant s) = Fin 99"
    by (auto simp: sla_run_def NewSLAMonitor_def SLAAddTenant_def SLARecordSuccess_def SLARecordFailure_def n
        track_success_def track_failure_def Let_def wit_tenant_def)
  obtain st where st: "SLAGetStatus (sla_run ?es (NewSLAMonitor [wit_tenant])) ''acme'' = Inr st"
      "ss_target st = Fin 99"
    using s by (simp add: SLAGetStatus_def)
  show ?thesis
    using SLA_status_exact [OF _ st(1)] st by (auto simp: count_events_def)
qed

end
