(* ===== verification/Autoscaling.thy ===== *)
theory Autoscaling
  imports Tenancy
begin

text \<open>
  pkg/autoscaling: the scaler, which reads the SLA monitor and proposes replica
  counts under a cooldown, and the model selector. Time is the nanosecond clock of an
  argument; a tier is its text. A Go slice that is cut keeps the events it is cut to.
\<close>

section \<open>The scaler (types.go, scaler.go)\<close>

record scaling_policy =
  sp_warning :: f64
  sp_critical :: f64
  sp_healthy :: f64
  sp_max :: int
  sp_min :: int
  sp_cooldown :: int
  sp_downgrades :: "string \<Rightarrow> string option"

definition DefaultScalingPolicy :: scaling_policy where
  "DefaultScalingPolicy = \<lparr>sp_warning = Fin 80, sp_critical = Fin 50, sp_healthy = Fin 95,
     sp_max = 10, sp_min = 1, sp_cooldown = 300,
     sp_downgrades = [''gpt-4-turbo'' \<mapsto> ''gpt-4'', ''gpt-4'' \<mapsto> ''gpt-3.5-turbo'',
       ''claude-3-opus'' \<mapsto> ''claude-3-sonnet'', ''llama-2-7b-chat'' \<mapsto> ''llama-2-7b'']\<rparr>"

record scaling_event =
  se_tenant :: string
  se_trigger :: string
  se_action :: string
  se_previous :: int
  se_new :: int
  se_rate :: f64
  se_time :: int
  se_reason :: string

record scaler =
  sc_policy :: scaling_policy
  sc_last :: "string \<Rightarrow> int option"
  sc_history :: "scaling_event list"
  sc_replicas :: "string \<Rightarrow> int option"

definition NewAutoScaler :: "scaling_policy option \<Rightarrow> scaler" where
  "NewAutoScaler p = \<lparr>sc_policy = (case p of None \<Rightarrow> DefaultScalingPolicy | Some p \<Rightarrow> p),
     sc_last = Map.empty, sc_history = [], sc_replicas = Map.empty\<rparr>"

definition clamp :: "int \<Rightarrow> int \<Rightarrow> int \<Rightarrow> int" where
  "clamp v lo hi = (if v < lo then lo else if v > hi then hi else v)"

definition isInCooldown :: "int \<Rightarrow> string \<Rightarrow> scaler \<Rightarrow> bool" where
  "isInCooldown now name s = (case sc_last s name of
       None \<Rightarrow> False
     | Some t \<Rightarrow> now - t < wrap64 (sp_cooldown (sc_policy s) * 1000000000))"

definition push_history :: "scaling_event \<Rightarrow> scaling_event list \<Rightarrow> scaling_event list" where
  "push_history e h = (let h = h @ [e] in if length h > 1000 then drop 500 h else h)"

text \<open>What the success rate of a tenant leads to: trigger, action, replicas and reason.\<close>

definition scaling_choice :: "scaling_policy \<Rightarrow> f64 \<Rightarrow> int \<Rightarrow> string \<times> string \<times> int \<times> string" where
  "scaling_choice p rate replicas =
     (if flt rate (sp_critical p)
      then (''critical'', ''scale_up_and_model_downgrade'', clamp (wrap64 (replicas + 2)) (sp_min p) (sp_max p),
            ''SLA critical: success rate < 50%'')
      else if flt rate (sp_warning p)
      then (''warning'', ''scale_up'', clamp (wrap64 (replicas + 1)) (sp_min p) (sp_max p),
            ''SLA warning: success rate < 80%'')
      else if fgt rate (sp_healthy p)
      then (''healthy'', ''scale_down'', clamp (wrap64 (replicas - 1)) (sp_min p) (sp_max p),
            ''SLA healthy: success rate > 95%'')
      else (''normal'', ''noop'', replicas, ''SLA normal: no scaling needed''))"

definition EvaluateAndDecide :: "sla_monitor \<Rightarrow> int \<Rightarrow> string \<Rightarrow> int \<Rightarrow> scaler
    \<Rightarrow> (tenant_error + scaling_event) \<times> scaler" where
  "EvaluateAndDecide sm now name replicas s = (case SLAGetStatus sm name of
       Inl e \<Rightarrow> (Inl e, s)
     | Inr st \<Rightarrow>
         (let s = s\<lparr>sc_replicas := (sc_replicas s)(name \<mapsto> replicas)\<rparr> in
          if isInCooldown now name s
          then (Inr \<lparr>se_tenant = name, se_trigger = ''cooldown'', se_action = ''noop'', se_previous = 0, se_new = 0,
                  se_rate = ss_rate st, se_time = now, se_reason = ''In cooldown period, no scaling''\<rparr>, s)
          else (case scaling_choice (sc_policy s) (ss_rate st) replicas of (trigger, act, new, reason) \<Rightarrow>
            (let e = \<lparr>se_tenant = name, se_trigger = trigger, se_action = act, se_previous = replicas,
                   se_new = new, se_rate = ss_rate st, se_time = now, se_reason = reason\<rparr>;
                 s = (if trigger = ''normal'' then s else s\<lparr>sc_last := (sc_last s)(name \<mapsto> now)\<rparr>)
             in (Inr e, s\<lparr>sc_history := push_history e (sc_history s)\<rparr>)))))"

text \<open>The newest events first, at most the limit.\<close>

definition GetScalingHistory :: "string \<Rightarrow> int \<Rightarrow> scaler \<Rightarrow> scaling_event list" where
  "GetScalingHistory name limit s =
     take (nat limit) (filter (\<lambda>e. name = [] \<or> se_tenant e = name) (rev (sc_history s)))"

definition GetCurrentReplicas :: "string \<Rightarrow> scaler \<Rightarrow> int" where
  "GetCurrentReplicas name s = (case sc_replicas s name of None \<Rightarrow> 0 | Some n \<Rightarrow> n)"

section \<open>The model selector (model_selector.go)\<close>

definition TierCheap :: string where "TierCheap = ''cheap''"
definition TierMedium :: string where "TierMedium = ''medium''"
definition TierExpensive :: string where "TierExpensive = ''expensive''"

record model_selector =
  ms_tier :: string
  ms_tiers :: "string list"
  ms_cost :: "string \<Rightarrow> f64 option"

definition ErrNoDowngradePath :: string where
  "ErrNoDowngradePath = ''no cheaper model available''"
definition ErrNoUpgradePath :: string where
  "ErrNoUpgradePath = ''no more expensive model available''"

definition NewModelSelector :: "string \<Rightarrow> string list \<Rightarrow> (string \<Rightarrow> f64 option) \<Rightarrow> model_selector" where
  "NewModelSelector tier tiers cost = \<lparr>ms_tier = tier, ms_tiers = tiers, ms_cost = cost\<rparr>"

definition hasTier :: "model_selector \<Rightarrow> string \<Rightarrow> bool" where
  "hasTier ms t \<longleftrightarrow> t \<in> set (ms_tiers ms)"

definition cost_of :: "model_selector \<Rightarrow> string \<Rightarrow> f64" where
  "cost_of ms t = (case ms_cost ms t of None \<Rightarrow> Fin 0 | Some c \<Rightarrow> c)"

definition move_to :: "string \<Rightarrow> model_selector \<Rightarrow> string err \<times> model_selector" where
  "move_to t ms = (Inr t, ms\<lparr>ms_tier := t\<rparr>)"

definition Downgrade :: "model_selector \<Rightarrow> string err \<times> model_selector" where
  "Downgrade ms =
     (if ms_tier ms = TierExpensive \<and> hasTier ms TierMedium then move_to TierMedium ms
      else if ms_tier ms = TierExpensive \<and> hasTier ms TierCheap then move_to TierCheap ms
      else if ms_tier ms = TierMedium \<and> hasTier ms TierCheap then move_to TierCheap ms
      else (Inl ErrNoDowngradePath, ms))"

definition Upgrade :: "model_selector \<Rightarrow> string err \<times> model_selector" where
  "Upgrade ms =
     (if ms_tier ms = TierCheap \<and> hasTier ms TierMedium then move_to TierMedium ms
      else if ms_tier ms = TierCheap \<and> hasTier ms TierExpensive then move_to TierExpensive ms
      else if ms_tier ms = TierMedium \<and> hasTier ms TierExpensive then move_to TierExpensive ms
      else (Inl ErrNoUpgradePath, ms))"

definition CostSavings :: "model_selector \<Rightarrow> f64 \<times> model_selector" where
  "CostSavings ms =
     (let current = cost_of ms (ms_tier ms) in
      case Downgrade ms of
        (Inr cheaper, ms') \<Rightarrow> (fmul (fsub current (cost_of ms' cheaper)) (Fin 1000000), ms')
      | (Inl _, ms') \<Rightarrow> (Fin 0, ms'))"

definition selector_String :: "model_selector \<Rightarrow> string" where
  "selector_String ms = ''Tier: '' @ ms_tier ms @ '' (cost: $'' @ fmt_fixed 4 (cost_of ms (ms_tier ms)) @ ''/1K tokens)''"

section \<open>Cooldown and bounds\<close>

definition is_scaling :: "scaling_event \<Rightarrow> bool" where
  "is_scaling e \<longleftrightarrow> se_action e \<noteq> ''noop''"

lemma scaling_choice_cases:
  "scaling_choice p rate n = (trigger, act, new, reason) \<Longrightarrow>
     (trigger = ''normal'') = (act = ''noop'') \<and>
     (act \<noteq> ''noop'' \<longrightarrow> new = clamp (wrap64 (n + 2)) (sp_min p) (sp_max p)
        \<or> new = clamp (wrap64 (n + 1)) (sp_min p) (sp_max p) \<or> new = clamp (wrap64 (n - 1)) (sp_min p) (sp_max p))"
  by (auto simp: scaling_choice_def split: if_splits)

lemma clamp_bounds: "lo \<le> hi \<Longrightarrow> lo \<le> clamp v lo hi \<and> clamp v lo hi \<le> hi"
  by (simp add: clamp_def)

lemma EvaluateAndDecide_event:
  assumes "EvaluateAndDecide sm now name n s = (Inr e, s')"
  shows "se_tenant e = name" "se_time e = now" "sc_policy s' = sc_policy s"
    "is_scaling e \<Longrightarrow> \<not> isInCooldown now name s \<and> sc_last s' = (sc_last s)(name \<mapsto> now)"
    "\<not> is_scaling e \<Longrightarrow> sc_last s' = sc_last s"
    "is_scaling e \<Longrightarrow> sp_min (sc_policy s) \<le> sp_max (sc_policy s) \<Longrightarrow>
       sp_min (sc_policy s) \<le> se_new e \<and> se_new e \<le> sp_max (sc_policy s)"
  using assms clamp_bounds [of "sp_min (sc_policy s)" "sp_max (sc_policy s)"]
  by (auto simp: EvaluateAndDecide_def isInCooldown_def is_scaling_def Let_def
      split: sum.splits if_splits prod.splits option.splits dest!: scaling_choice_cases)

lemma EvaluateAndDecide_error:
  "EvaluateAndDecide sm now name n s = (Inl x, s') \<Longrightarrow> s' = s"
  by (auto simp: EvaluateAndDecide_def Let_def split: sum.splits if_splits prod.splits)

lemma push_history_bound: "length h \<le> 1000 \<Longrightarrow> length (push_history e h) \<le> 1000"
  unfolding push_history_def Let_def by (simp split: if_split) linarith

lemma EvaluateAndDecide_history:
  "EvaluateAndDecide sm now name n s = (r, s') \<Longrightarrow> length (sc_history s) \<le> 1000 \<Longrightarrow> length (sc_history s') \<le> 1000"
  using push_history_bound
  by (auto simp: EvaluateAndDecide_def Let_def split: sum.splits if_splits prod.splits)

text \<open>A sequence of evaluations: the monitor, the time, the tenant and its replicas at each.\<close>

type_synonym evaluation_call = "sla_monitor \<times> int \<times> string \<times> int"

fun scaler_run :: "evaluation_call list \<Rightarrow> scaler \<Rightarrow> scaling_event list \<times> scaler" where
  "scaler_run [] s = ([], s)"
| "scaler_run ((sm, now, name, n) # cs) s =
     (case EvaluateAndDecide sm now name n s of (r, s1) \<Rightarrow>
        (case scaler_run cs s1 of (es, s2) \<Rightarrow>
           ((case r of Inr e \<Rightarrow> [e] | Inl _ \<Rightarrow> []) @ es, s2)))"

text \<open>The scaling events of a tenant are a cooldown apart, counted from a last one.\<close>

fun spaced :: "int \<Rightarrow> int option \<Rightarrow> scaling_event list \<Rightarrow> bool" where
  "spaced gap l [] = True"
| "spaced gap l (e # es) = ((case l of None \<Rightarrow> True | Some t \<Rightarrow> gap \<le> se_time e - t) \<and> spaced gap (Some (se_time e)) es)"

definition scalings :: "string \<Rightarrow> scaling_event list \<Rightarrow> scaling_event list" where
  "scalings name es = filter (\<lambda>e. se_tenant e = name \<and> is_scaling e) es"

lemma scaler_run_spaced:
  "spaced (wrap64 (sp_cooldown (sc_policy s) * 1000000000)) (sc_last s name) (scalings name (fst (scaler_run cs s)))
   \<and> (sp_min (sc_policy s) \<le> sp_max (sc_policy s) \<longrightarrow>
       list_all (\<lambda>e. is_scaling e \<longrightarrow> sp_min (sc_policy s) \<le> se_new e \<and> se_new e \<le> sp_max (sc_policy s))
         (fst (scaler_run cs s)))"
proof (induction cs arbitrary: s)
  case Nil
  then show ?case by (simp add: scalings_def)
next
  case (Cons c cs)
  obtain sm now nm n where c: "c = (sm, now, nm, n)" by (cases c)
  obtain r s1 where r: "EvaluateAndDecide sm now nm n s = (r, s1)" by fastforce
  show ?case
  proof (cases r)
    case (Inl x)
    then have "s1 = s" using r EvaluateAndDecide_error by blast
    then show ?thesis using Cons [of s] r Inl by (simp add: c case_prod_beta)
  next
    case (Inr e)
    note ev = EvaluateAndDecide_event [OF r [unfolded Inr]]
    have run: "fst (scaler_run (c # cs) s) = e # fst (scaler_run cs s1)"
      using r Inr by (simp add: c case_prod_beta)
    show ?thesis
    proof (cases "nm = name \<and> is_scaling e")
      case True
      then have "case sc_last s name of None \<Rightarrow> True
          | Some t \<Rightarrow> wrap64 (sp_cooldown (sc_policy s) * 1000000000) \<le> se_time e - t"
        using ev(2,4) by (auto simp: isInCooldown_def split: option.splits)
      then show ?thesis
        using Cons [of s1] True ev run by (simp add: scalings_def)
    next
      case False
      then have "sc_last s1 name = sc_last s name" using ev(4,5) by (cases "is_scaling e") auto
      then show ?thesis
        using Cons [of s1] False ev run by (auto simp: scalings_def)
    qed
  qed
qed

text \<open>Scaling respects the cooldown and the bounds. Over any sequence of evaluations of any tenants, two scaling decisions for
  one tenant are at least the cooldown apart, and every scaling decision proposes a count between the
  policy's minimum and maximum.\<close>

lemma scaling_spaced_and_bounded:
  assumes "sp_min (sc_policy s) \<le> sp_max (sc_policy s)"
  shows "spaced (wrap64 (sp_cooldown (sc_policy s) * 1000000000)) (sc_last s name) (scalings name (fst (scaler_run cs s)))
    \<and> list_all (\<lambda>e. is_scaling e \<longrightarrow> sp_min (sc_policy s) \<le> se_new e \<and> se_new e \<le> sp_max (sc_policy s))
        (fst (scaler_run cs s))"
  using scaler_run_spaced [of s name cs] assms by blast

lemma scaling_spaced_and_bounded_witness:
  "spaced (wrap64 (300 * 1000000000)) None
     (scalings ''acme'' (fst (scaler_run [(NewSLAMonitor [wit_tenant], 5, ''acme'', 3)] (NewAutoScaler None))))"
  using scaling_spaced_and_bounded [of "NewAutoScaler None" "''acme''" "[(NewSLAMonitor [wit_tenant], 5, ''acme'', 3)]"]
  by (simp add: NewAutoScaler_def DefaultScalingPolicy_def)

text \<open>The model selector asked for its savings moves. Asking a selector that can downgrade for its cost savings
  leaves it on the cheaper tier, so a second question gets another answer; and a downgrade never reaches
  a tier that is not available.\<close>

lemma CostSavings_moves:
  assumes "ms_tier ms = TierExpensive" "hasTier ms TierMedium"
  shows "ms_tier (snd (CostSavings ms)) = TierMedium
    \<and> fst (CostSavings ms) = fmul (fsub (cost_of ms TierExpensive) (cost_of ms TierMedium)) (Fin 1000000)
    \<and> (\<not> hasTier ms TierCheap \<longrightarrow> fst (CostSavings (snd (CostSavings ms))) = Fin 0)"
  using assms
  by (auto simp: CostSavings_def Downgrade_def move_to_def TierExpensive_def TierMedium_def TierCheap_def
      hasTier_def cost_of_def Let_def)

end
