(* ===== verification/Approval.thy ===== *)
theory Approval
  imports GoValue
begin

text \<open>
  pkg/approval/approval.go: the human approval protocol on the annotations of a
  workload. Annotations are a partial function, so that an absent key and an empty
  value differ where the code tells them apart. The text of an error of the JSON decoder is
  not kept in the message that wraps it.
\<close>

section \<open>Constants, keys and errors\<close>

type_synonym annotations = "string \<Rightarrow> string option"

definition AnnotationDecision :: string where
  "AnnotationDecision = ''clawdlinux.org/approval-decision''"
definition AnnotationReason :: string where
  "AnnotationReason = ''clawdlinux.org/approval-reason''"
definition AnnotationEdit :: string where
  "AnnotationEdit = ''clawdlinux.org/approval-edit''"
definition AnnotationBy :: string where
  "AnnotationBy = ''clawdlinux.org/approval-by''"
definition AnnotationFor :: string where
  "AnnotationFor = ''clawdlinux.org/approval-for''"
definition AnnotationMAC :: string where
  "AnnotationMAC = ''clawdlinux.org/approval-mac''"

definition MinKeyBytes :: nat where "MinKeyBytes = 32"
definition macDomain :: string where "macDomain = ''clawdlinux.org/approval-stamp/v1''"
definition pendingDomain :: string where
  "pendingDomain = ''clawdlinux.org/approval-pending-payload/v1''"
definition decisionDomain :: string where "decisionDomain = ''clawdlinux.org/approval-decision/v1''"
definition Approve :: string where "Approve = ''approve''"
definition Reject :: string where "Reject = ''reject''"
definition Edit :: string where "Edit = ''edit''"
definition MaxReasonBytes :: int where "MaxReasonBytes = 1024"
definition MaxEditBytes :: int where "MaxEditBytes = 16384"
definition MaxActionNameBytes :: int where "MaxActionNameBytes = 253"
definition MaxDescriptionBytes :: int where "MaxDescriptionBytes = 4096"

datatype approval_error = ErrUnstamped | ErrForged | ErrFinal | ErrNoPending | ErrNoKey
  | ErrBadMAC | ErrText string

definition nul :: char where "nul = CHR 0x00"

abbreviation size_of :: "string \<Rightarrow> int" where
  "size_of s \<equiv> int (length s)"

text \<open>Reading a key of a Go map: the empty string when it is absent.\<close>

definition get :: "annotations \<Rightarrow> string \<Rightarrow> string" where
  "get ann k = (case ann k of None \<Rightarrow> [] | Some v \<Rightarrow> v)"

record pending =
  p_id :: string
  p_workload :: string
  p_payload :: string

definition PendingSHA256 :: "string \<Rightarrow> string" where
  "PendingSHA256 proposal = sha256_hex (pendingDomain @ [nul] @ proposal)"

definition trim_right :: "(char \<Rightarrow> bool) \<Rightarrow> string \<Rightarrow> string" where
  "trim_right f s = rev (dropWhile f (rev s))"

text \<open>The file is read by a parameter: its bytes, or an error.\<close>

definition LoadKey :: "(string \<Rightarrow> string err) \<Rightarrow> string \<Rightarrow> string err" where
  "LoadKey read_file path = (case read_file path of
       Inl e \<Rightarrow> Inl (''approval stamp key: '' @ e)
     | Inr b \<Rightarrow>
         (let b = trim_right (\<lambda>c. c \<in> set [CHR '' '', CHR 0x09, CHR 0x0D, CHR 0x0A]) b in
          if length b < MinKeyBytes
          then Inl (''approval stamp key: need at least '' @ itoa (int MinKeyBytes) @ '' bytes, got ''
                    @ itoa (int (length b)))
          else Inr b))"

text \<open>The reference the webhook and the controller make of a stored pending action.\<close>

definition pendingRef :: "string \<Rightarrow> string \<Rightarrow> string \<Rightarrow> pending" where
  "pendingRef uid pid proposal = \<lparr>p_id = pid, p_workload = uid, p_payload = PendingSHA256 proposal\<rparr>"

section \<open>The stamp\<close>

definition decision_text :: "annotations \<Rightarrow> string" where
  "decision_text ann = join [nul]
     [decisionDomain, get ann AnnotationDecision, get ann AnnotationReason, get ann AnnotationEdit]"

definition decisionSHA256 :: "annotations \<Rightarrow> string" where
  "decisionSHA256 ann = sha256_hex (decision_text ann)"

definition mac_text :: "pending \<Rightarrow> annotations \<Rightarrow> string" where
  "mac_text p ann = join [nul] [macDomain, p_workload p, p_id p, decisionSHA256 ann,
     sha256_hex (get ann AnnotationBy), p_payload p]"

definition MAC :: "string \<Rightarrow> pending \<Rightarrow> annotations \<Rightarrow> string" where
  "MAC key p ann = hex (hmac_sha256 key (mac_text p ann))"

definition VerifyMAC :: "string \<Rightarrow> pending \<Rightarrow> annotations \<Rightarrow> approval_error option" where
  "VerifyMAC key p ann =
     (if key = [] then Some ErrNoKey
      else (case unhex_string (get ann AnnotationMAC) of
          None \<Rightarrow> Some ErrBadMAC
        | Some got \<Rightarrow>
            (if length got \<noteq> 32 then Some ErrBadMAC
             else (case unhex_string (MAC key p ann) of
                 Some want \<Rightarrow> (if got = want then None else Some ErrBadMAC)
               | None \<Rightarrow> Some ErrBadMAC))))"

record approver =
  ap_username :: string
  ap_groups :: string

definition approver_json :: "approver \<Rightarrow> json" where
  "approver_json a = JObj [(''username'', JStr (ap_username a)), (''groups_sha256'', JStr (ap_groups a))]"

definition Stamp :: "string \<Rightarrow> string list \<Rightarrow> approval_error + string" where
  "Stamp username groups =
     (if trim_space username = [] then Inl (ErrText ''admission request has no username'')
      else Inr (enc_json (approver_json
        \<lparr>ap_username = username, ap_groups = sha256_hex (join [CHR 0x0A] (sort groups))\<rparr>)))"

text \<open>The decoder: one value of known fields, and only white space after it.\<close>

definition decode_approver :: "string \<Rightarrow> approver option" where
  "decode_approver s = (case parse_json s of
       Some JNull \<Rightarrow> Some \<lparr>ap_username = [], ap_groups = []\<rparr>
     | Some (JObj m) \<Rightarrow>
         (if known_fields [''username'', ''groups_sha256''] m
          then (case (string_field ''username'' m, string_field ''groups_sha256'' m) of
                  (Some u, Some g) \<Rightarrow> Some \<lparr>ap_username = u, ap_groups = g\<rparr>
                | _ \<Rightarrow> None)
          else None)
     | _ \<Rightarrow> None)"

definition ParseApprover :: "string \<Rightarrow> approval_error + approver" where
  "ParseApprover s = (case decode_approver s of
       Some a \<Rightarrow> (if ap_username a = [] \<or> length (ap_groups a) \<noteq> 64
                 then Inl (ErrText (''invalid '' @ AnnotationBy @ '' value'')) else Inr a)
     | None \<Rightarrow> Inl (ErrText (''invalid '' @ AnnotationBy @ '' value'')))"

section \<open>Edits\<close>

text \<open>The parameters are the members in the order read, None when the map is nil; a later
  member of one key wins.\<close>

record edited_action =
  ea_name :: string
  ea_description :: string
  ea_params :: "(string \<times> json) list option"

definition object_field :: "string \<Rightarrow> (string \<times> json) list \<Rightarrow> (string \<times> json) list option option" where
  "object_field name m =
     fold (\<lambda>p acc. if field_matches name p
                   then (case (snd p, acc) of
                           (JObj o', Some a) \<Rightarrow> Some (Some (case a of None \<Rightarrow> o' | Some old \<Rightarrow> old @ o'))
                         | (JNull, Some a) \<Rightarrow> Some None | _ \<Rightarrow> None)
                   else acc) m (Some None)"

definition decode_edit :: "string \<Rightarrow> edited_action option" where
  "decode_edit s = (case parse_json s of
       Some JNull \<Rightarrow> Some \<lparr>ea_name = [], ea_description = [], ea_params = None\<rparr>
     | Some (JObj m) \<Rightarrow>
         (if known_fields [''name'', ''description'', ''params''] m
          then (case (string_field ''name'' m, string_field ''description'' m, object_field ''params'' m) of
                  (Some n, Some d, Some o') \<Rightarrow>
                    Some \<lparr>ea_name = n, ea_description = d, ea_params = o'\<rparr>
                | _ \<Rightarrow> None)
          else None)
     | _ \<Rightarrow> None)"

definition ParseEdit :: "string \<Rightarrow> approval_error + edited_action" where
  "ParseEdit s =
     (if size_of s > MaxEditBytes
      then Inl (ErrText (AnnotationEdit @ '' exceeds '' @ itoa MaxEditBytes @ '' bytes''))
      else (case decode_edit s of
          None \<Rightarrow> Inl (ErrText (AnnotationEdit @ '' is not valid JSON {name, description, params}''))
        | Some e \<Rightarrow>
            (if trim_space (ea_name e) = [] then Inl (ErrText (AnnotationEdit @ '': name is required''))
             else if size_of (ea_name e) > MaxActionNameBytes
             then Inl (ErrText (AnnotationEdit @ '': name exceeds '' @ itoa MaxActionNameBytes @ '' bytes''))
             else if size_of (ea_description e) > MaxDescriptionBytes
             then Inl (ErrText (AnnotationEdit @ '': description exceeds '' @ itoa MaxDescriptionBytes @ '' bytes''))
             else Inr e)))"

section \<open>Decisions\<close>

record approval_decision =
  ad_label :: string
  ad_reason :: string
  ad_edit :: "edited_action option"
  ad_approver :: approver
  ad_approver_raw :: string
  ad_for :: string

definition ApproverSHA256 :: "approval_decision \<Rightarrow> string" where
  "ApproverSHA256 d = sha256_hex (ad_approver_raw d)"

definition ReasonSHA256 :: "approval_decision \<Rightarrow> string" where
  "ReasonSHA256 d = (if ad_reason d = [] then [] else sha256_hex (ad_reason d))"

definition validateFields :: "annotations \<Rightarrow> approval_error + (string \<times> edited_action option)" where
  "validateFields ann =
     (let label = get ann AnnotationDecision; r = get ann AnnotationReason in
      if label \<noteq> Approve \<and> label \<noteq> Reject \<and> label \<noteq> Edit
      then Inl (ErrText (AnnotationDecision @ '' must be approve, reject, or edit, got '' @ quote label))
      else if size_of r > MaxReasonBytes \<or> \<not> valid_utf8 r
      then Inl (ErrText (AnnotationReason @ '' must be valid UTF-8 of at most '' @ itoa MaxReasonBytes @ '' bytes''))
      else if label \<noteq> Edit then
        (if ann AnnotationEdit \<noteq> None
         then Inl (ErrText (AnnotationEdit @ '' is only allowed with decision edit''))
         else Inr (label, None))
      else (case ann AnnotationEdit of
          None \<Rightarrow> Inl (ErrText (''decision edit needs '' @ AnnotationEdit))
        | Some raw \<Rightarrow> (case ParseEdit raw of Inl e \<Rightarrow> Inl e | Inr e \<Rightarrow> Inr (label, Some e))))"

definition ValidateDecision :: "annotations \<Rightarrow> approval_error option" where
  "ValidateDecision ann = (case validateFields ann of Inl e \<Rightarrow> Some e | Inr _ \<Rightarrow> None)"

text \<open>
  The three results of Read: (zero, false, nil), (zero, true, error) and
  (decision, true, nil).
\<close>

datatype read_result = NoDecision | Refused approval_error | Decided approval_decision

definition Read :: "annotations \<Rightarrow> pending \<Rightarrow> string \<Rightarrow> read_result" where
  "Read ann p key =
     (let pendingID = p_id p; by' = get ann AnnotationBy in
      if get ann AnnotationDecision = [] \<or> pendingID = [] then NoDecision
      else if by' = [] then Refused ErrUnstamped
      else if get ann AnnotationFor \<noteq> pendingID then NoDecision
      else (case VerifyMAC key p ann of
          Some e \<Rightarrow> Refused e
        | None \<Rightarrow> (case ParseApprover by' of
              Inl e \<Rightarrow> Refused e
            | Inr a \<Rightarrow> (case validateFields ann of
                  Inl e \<Rightarrow> Refused e
                | Inr (label, edit) \<Rightarrow>
                    Decided \<lparr>ad_label = label, ad_reason = get ann AnnotationReason, ad_edit = edit,
                      ad_approver = a, ad_approver_raw = by', ad_for = pendingID\<rparr>))))"

definition protocolKeys :: "string list" where
  "protocolKeys = [AnnotationDecision, AnnotationReason, AnnotationEdit, AnnotationBy,
     AnnotationFor, AnnotationMAC]"

definition stampKeys :: "string list" where
  "stampKeys = [AnnotationBy, AnnotationFor, AnnotationMAC]"

text \<open>Admit writes the stamps into the new annotations; the result holds them as it leaves them.\<close>

definition Admit :: "annotations \<Rightarrow> annotations \<Rightarrow> pending \<Rightarrow> string \<Rightarrow> string list \<Rightarrow> string
    \<Rightarrow> approval_error + annotations" where
  "Admit oldAnn newAnn p username groups key =
     (let pendingID = p_id p in
      if \<not> list_ex (\<lambda>k. newAnn k \<noteq> oldAnn k) protocolKeys then Inr newAnn
      else if list_ex (\<lambda>k. get newAnn k \<noteq> [] \<and> get newAnn k \<noteq> get oldAnn k) stampKeys
      then Inl ErrForged
      else if get oldAnn AnnotationDecision \<noteq> [] \<and> pendingID \<noteq> [] \<and> get oldAnn AnnotationFor = pendingID
      then Inl ErrFinal
      else if get newAnn AnnotationDecision = [] then
        (if get newAnn AnnotationBy \<noteq> [] \<or> get newAnn AnnotationFor \<noteq> [] \<or> get newAnn AnnotationMAC \<noteq> []
         then Inl (ErrText (''clear '' @ AnnotationBy @ '', '' @ AnnotationFor @ '', and '' @ AnnotationMAC
                            @ '' together with '' @ AnnotationDecision))
         else Inr newAnn)
      else if pendingID = [] then Inl ErrNoPending
      else (case validateFields newAnn of
          Inl e \<Rightarrow> Inl e
        | Inr _ \<Rightarrow>
            (if key = [] then Inl ErrNoKey
             else (case Stamp username groups of
                 Inl e \<Rightarrow> Inl e
               | Inr stamp \<Rightarrow>
                   (let ann1 = newAnn(AnnotationBy \<mapsto> stamp);
                        ann2 = ann1(AnnotationFor \<mapsto> pendingID)
                    in Inr (ann2(AnnotationMAC \<mapsto> MAC key p ann2)))))))"

section \<open>What the stamp binds\<close>

lemma nul_split:
  "a @ nul # b = a' @ nul # b' \<Longrightarrow> nul \<notin> set a \<Longrightarrow> nul \<notin> set a' \<Longrightarrow> a = a' \<and> b = b'"
  by (induction a arbitrary: a') (auto simp: Cons_eq_append_conv append_eq_Cons_conv)

lemma nul_split_last:
  assumes "a @ nul # b = a' @ nul # b'" "nul \<notin> set b" "nul \<notin> set b'"
  shows "a = a' \<and> b = b'"
proof -
  have "rev b @ nul # rev a = rev b' @ nul # rev a'"
    using arg_cong [OF assms(1), of rev] by simp
  then show ?thesis
    using nul_split [of "rev b" "rev a" "rev b'" "rev a'"] assms(2,3) by simp
qed

lemma get_upd [simp]:
  "get (m(k \<mapsto> v)) k' = (if k' = k then v else get m k')"
  by (simp add: get_def)

lemma annotation_keys_distinct [simp]: "distinct protocolKeys"
  by (simp add: protocolKeys_def AnnotationDecision_def AnnotationReason_def AnnotationEdit_def
      AnnotationBy_def AnnotationFor_def AnnotationMAC_def)

lemma annotation_keys_ne [simp]:
  "AnnotationDecision \<noteq> AnnotationBy" "AnnotationDecision \<noteq> AnnotationFor" "AnnotationDecision \<noteq> AnnotationMAC"
  "AnnotationReason \<noteq> AnnotationBy" "AnnotationReason \<noteq> AnnotationFor" "AnnotationReason \<noteq> AnnotationMAC"
  "AnnotationEdit \<noteq> AnnotationBy" "AnnotationEdit \<noteq> AnnotationFor" "AnnotationEdit \<noteq> AnnotationMAC"
  "AnnotationBy \<noteq> AnnotationFor" "AnnotationBy \<noteq> AnnotationMAC" "AnnotationFor \<noteq> AnnotationMAC"
  "AnnotationFor \<noteq> AnnotationBy" "AnnotationMAC \<noteq> AnnotationBy" "AnnotationMAC \<noteq> AnnotationFor"
  "AnnotationDecision \<noteq> AnnotationReason" "AnnotationDecision \<noteq> AnnotationEdit" "AnnotationReason \<noteq> AnnotationEdit"
  "AnnotationReason \<noteq> AnnotationDecision" "AnnotationEdit \<noteq> AnnotationDecision" "AnnotationEdit \<noteq> AnnotationReason"
  using annotation_keys_distinct unfolding protocolKeys_def by auto

lemmas annotation_keys_ne_sym [simp] = annotation_keys_ne [symmetric]

lemma VerifyMAC_None:
  "VerifyMAC key p ann = None \<longleftrightarrow>
   key \<noteq> [] \<and> unhex_string (get ann AnnotationMAC) = Some (hmac_sha256 key (mac_text p ann))"
  by (auto simp: VerifyMAC_def MAC_def unhex_hex split: option.splits if_splits)

lemma validateFields_Inr:
  "validateFields ann = Inr (l, e) \<Longrightarrow>
     l = get ann AnnotationDecision \<and> l \<in> {Approve, Reject, Edit} \<and>
     valid_utf8 (get ann AnnotationReason) \<and> size_of (get ann AnnotationReason) \<le> MaxReasonBytes \<and>
     (if l = Edit then \<exists>raw x. ann AnnotationEdit = Some raw \<and> ParseEdit raw = Inr x \<and> e = Some x
      else ann AnnotationEdit = None \<and> e = None)"
  by (auto simp: validateFields_def Let_def split: if_splits option.splits sum.splits)

lemma ParseEdit_nul: "ParseEdit raw = Inr x \<Longrightarrow> nul \<notin> set raw"
  by (auto simp: ParseEdit_def decode_edit_def nul_def split: if_splits option.splits
      dest: parse_json_nul)

lemma validated_nul:
  assumes "validateFields ann = Inr le"
  shows "nul \<notin> set (get ann AnnotationDecision)" "nul \<notin> set (get ann AnnotationEdit)"
proof -
  obtain l e where le: "validateFields ann = Inr (l, e)" using assms by (cases le) auto
  show "nul \<notin> set (get ann AnnotationDecision)"
    using validateFields_Inr [OF le] by (auto simp: nul_def Approve_def Reject_def Edit_def)
  show "nul \<notin> set (get ann AnnotationEdit)"
    using validateFields_Inr [OF le] by (auto simp: get_def split: if_splits dest: ParseEdit_nul)
qed

text \<open>The client's three fields are read back from the text the decision digest hashes.\<close>

lemma decision_text_inj:
  assumes "validateFields ann = Inr le" "validateFields ann' = Inr le'"
    "decision_text ann = decision_text ann'"
  shows "get ann AnnotationDecision = get ann' AnnotationDecision"
    "get ann AnnotationReason = get ann' AnnotationReason" "get ann AnnotationEdit = get ann' AnnotationEdit"
proof -
  have *: "get ann AnnotationDecision @ nul # (get ann AnnotationReason @ nul # get ann AnnotationEdit)
    = get ann' AnnotationDecision @ nul # (get ann' AnnotationReason @ nul # get ann' AnnotationEdit)"
    using assms(3) by (simp add: decision_text_def)
  show "get ann AnnotationDecision = get ann' AnnotationDecision"
    "get ann AnnotationReason = get ann' AnnotationReason" "get ann AnnotationEdit = get ann' AnnotationEdit"
    using nul_split [OF *] nul_split_last validated_nul [OF assms(1)] validated_nul [OF assms(2)] by blast+
qed

lemma mac_text_inj:
  assumes "mac_text p ann = mac_text q ann'"
    "length (p_payload p) = 64" "length (p_payload q) = 64"
    "nul \<notin> set (p_workload p)" "nul \<notin> set (p_workload q)"
  shows "p = q \<and> decisionSHA256 ann = decisionSHA256 ann'
    \<and> sha256_hex (get ann AnnotationBy) = sha256_hex (get ann' AnnotationBy)"
proof -
  let ?tail = "\<lambda>p ann. nul # decisionSHA256 ann @ nul # sha256_hex (get ann AnnotationBy) @ nul # p_payload p"
  have len: "length (?tail p ann) = length (?tail q ann')"
    using assms(2,3) by (simp add: decisionSHA256_def)
  have "p_workload p @ nul # (p_id p @ ?tail p ann) = p_workload q @ nul # (p_id q @ ?tail q ann')"
    using assms(1) by (simp add: mac_text_def)
  then have w: "p_workload p = p_workload q" "p_id p @ ?tail p ann = p_id q @ ?tail q ann'"
    using nul_split [OF _ assms(4,5)] by blast+
  then have i: "p_id p = p_id q" "?tail p ann = ?tail q ann'"
    using len by (metis append_eq_append_conv)+
  then have "decisionSHA256 ann = decisionSHA256 ann'"
      "sha256_hex (get ann AnnotationBy) = sha256_hex (get ann' AnnotationBy)" "p_payload p = p_payload q"
    by (simp_all add: decisionSHA256_def)
  then show ?thesis using w i by (simp add: pending.equality)
qed

section \<open>The approver\<close>

lemma Stamp_json:
  "Stamp u gs = Inr s \<Longrightarrow> s = ''{'' @ join '','' (map enc_member
     [(''username'', u), (''groups_sha256'', sha256_hex (join [CHR 0x0A] (sort gs)))]) @ ''}''"
  by (simp add: Stamp_def approver_json_def enc_member_def split: if_splits)

lemma ParseApprover_Stamp:
  assumes "valid_utf8 u" "Stamp u gs = Inr s"
  shows "ParseApprover s = Inr \<lparr>ap_username = u, ap_groups = sha256_hex (join [CHR 0x0A] (sort gs))\<rparr>"
proof -
  let ?g = "sha256_hex (join [CHR 0x0A] (sort gs))"
  have "valid_utf8 ''username''" "valid_utf8 ''groups_sha256''"
    by (auto intro!: valid_utf8_ascii)
  then have "parse_json s = Some (JObj [(''username'', JStr u), (''groups_sha256'', JStr ?g)])"
    using parse_json_members [of "[(''username'', u), (''groups_sha256'', ?g)]"] assms
    unfolding Stamp_json [OF assms(2)] by simp
  moreover have "u \<noteq> []" using assms(2) by (auto simp: Stamp_def)
  ultimately show ?thesis
    by (simp add: ParseApprover_def decode_approver_def known_fields_def field_matches_def
        string_field_def equal_fold_def)
qed

section \<open>Read and Admit\<close>

lemma Read_Decided:
  "Read ann p key = Decided d \<longleftrightarrow>
     get ann AnnotationDecision \<noteq> [] \<and> p_id p \<noteq> [] \<and> get ann AnnotationBy \<noteq> [] \<and>
     get ann AnnotationFor = p_id p \<and> VerifyMAC key p ann = None \<and>
     (\<exists>a l e. ParseApprover (get ann AnnotationBy) = Inr a \<and> validateFields ann = Inr (l, e) \<and>
        d = \<lparr>ad_label = l, ad_reason = get ann AnnotationReason, ad_edit = e, ad_approver = a,
             ad_approver_raw = get ann AnnotationBy, ad_for = p_id p\<rparr>)"
  by (auto simp: Read_def Let_def split: option.splits sum.splits)

definition same_protocol :: "annotations \<Rightarrow> annotations \<Rightarrow> bool" where
  "same_protocol a b \<longleftrightarrow> (\<forall>k\<in>set protocolKeys. a k = b k)"

lemma same_protocol_get:
  "same_protocol a b \<Longrightarrow> k \<in> set protocolKeys \<Longrightarrow> get a k = get b k"
  by (simp add: same_protocol_def get_def)

lemma protocol_members [simp]:
  "AnnotationDecision \<in> set protocolKeys" "AnnotationReason \<in> set protocolKeys"
  "AnnotationEdit \<in> set protocolKeys" "AnnotationBy \<in> set protocolKeys"
  "AnnotationFor \<in> set protocolKeys" "AnnotationMAC \<in> set protocolKeys"
  by (simp_all add: protocolKeys_def)

lemma same_protocol_MAC: "same_protocol a b \<Longrightarrow> mac_text p a = mac_text p b"
  by (simp add: mac_text_def decisionSHA256_def decision_text_def same_protocol_get)

lemma same_protocol_Read: "same_protocol a b \<Longrightarrow> Read a p key = Read b p key"
proof -
  assume s: "same_protocol a b"
  have eqs: "get a AnnotationDecision = get b AnnotationDecision" "get a AnnotationReason = get b AnnotationReason"
    "get a AnnotationFor = get b AnnotationFor" "get a AnnotationBy = get b AnnotationBy"
    "get a AnnotationMAC = get b AnnotationMAC" "a AnnotationEdit = b AnnotationEdit"
    using s same_protocol_get [OF s] by (simp_all add: same_protocol_def)
  have v: "VerifyMAC key p a = VerifyMAC key p b"
    unfolding VerifyMAC_def MAC_def same_protocol_MAC [OF s] eqs ..
  have f: "validateFields a = validateFields b"
    unfolding validateFields_def eqs ..
  show ?thesis
    unfolding Read_def eqs v f ..
qed

definition stamped :: "string \<Rightarrow> pending \<Rightarrow> string \<Rightarrow> string list \<Rightarrow> annotations \<Rightarrow> bool" where
  "stamped key p u gs ann \<longleftrightarrow> Stamp u gs = Inr (get ann AnnotationBy) \<and>
     get ann AnnotationFor = p_id p \<and> get ann AnnotationMAC = MAC key p ann"

definition unstamped :: "annotations \<Rightarrow> bool" where
  "unstamped ann \<longleftrightarrow> (\<forall>k\<in>set stampKeys. get ann k = [])"

lemma MAC_upd:
  "MAC key p (m(AnnotationMAC \<mapsto> v)) = MAC key p m"
  "MAC key p (m(AnnotationFor \<mapsto> v)) = MAC key p m"
  by (simp_all add: MAC_def mac_text_def decisionSHA256_def decision_text_def)

text \<open>Every accepted update is one of three.\<close>

lemma Admit_cases:
  assumes "Admit old new p u gs key = Inr res"
  obtains (same) "same_protocol res old"
    | (clear) "unstamped res" "get res AnnotationDecision = []"
    | (stamp) "stamped key p u gs res" "get res AnnotationDecision = get new AnnotationDecision"
        "get new AnnotationDecision \<noteq> []" "p_id p \<noteq> []" "key \<noteq> []" "\<exists>le. validateFields new = Inr le"
        "\<forall>k. k \<notin> set stampKeys \<longrightarrow> res k = new k"
        "\<not> (get old AnnotationDecision \<noteq> [] \<and> get old AnnotationFor = p_id p)"
proof -
  consider "\<not> list_ex (\<lambda>k. new k \<noteq> old k) protocolKeys"
    | (changed) "list_ex (\<lambda>k. new k \<noteq> old k) protocolKeys" "get new AnnotationDecision = []"
    | (decide) "list_ex (\<lambda>k. new k \<noteq> old k) protocolKeys" "get new AnnotationDecision \<noteq> []"
    by blast
  then show thesis
  proof cases
    case 1
    then have "res = new" using assms by (simp add: Admit_def)
    then show thesis
      using 1 same by (auto simp: same_protocol_def list_ex_iff)
  next
    case changed
    then have "res = new" "unstamped new"
      using assms by (auto simp: Admit_def Let_def unstamped_def stampKeys_def split: if_splits)
    then show thesis using changed clear by simp
  next
    case decide
    then obtain le s where *: "validateFields new = Inr le" "Stamp u gs = Inr s" "p_id p \<noteq> []" "key \<noteq> []"
      "\<not> (get old AnnotationDecision \<noteq> [] \<and> get old AnnotationFor = p_id p)"
      "res = (let ann2 = new(AnnotationBy \<mapsto> s, AnnotationFor \<mapsto> p_id p)
              in ann2(AnnotationMAC \<mapsto> MAC key p ann2))"
      using assms by (auto simp: Admit_def Let_def split: if_splits sum.splits)
    show thesis
      by (rule stamp) (use * decide in \<open>auto simp: stamped_def MAC_upd stampKeys_def Let_def\<close>)
  qed
qed

section \<open>Histories of updates\<close>

text \<open>
  A workload's annotations change only through the webhook; \<open>updates_for\<close> is any
  number of accepted updates, each by some user, while one action is pending.
\<close>

inductive updates_for :: "string \<Rightarrow> pending \<Rightarrow> annotations \<Rightarrow> annotations \<Rightarrow> bool" for key p ann where
  start_for: "updates_for key p ann ann"
| update_for: "updates_for key p ann old \<Longrightarrow> Admit old new p user groups key = Inr ann' \<Longrightarrow> updates_for key p ann ann'"

lemma Admit_final:
  assumes "Admit old new p u gs key = Inr res" "Read old p key = Decided d"
  shows "same_protocol res old"
proof -
  have rec: "get old AnnotationDecision \<noteq> []" "p_id p \<noteq> []" "get old AnnotationFor = p_id p"
    using assms(2) by (auto simp: Read_Decided)
  then have "\<not> list_ex (\<lambda>k. new k \<noteq> old k) protocolKeys" "res = new"
    using assms(1) by (auto simp: Admit_def Let_def split: if_splits)
  then show ?thesis by (auto simp: same_protocol_def list_ex_iff)
qed

lemma Read_unstamped: "unstamped ann \<Longrightarrow> Read ann p key \<noteq> Decided d"
  by (simp add: Read_Decided unstamped_def stampKeys_def)

lemma Admit_then_Read:
  assumes "Admit old new p u gs key = Inr res" "get new AnnotationDecision \<noteq> []"
    "\<not> same_protocol new old" "valid_utf8 u"
  shows "\<exists>e. validateFields new = Inr (get new AnnotationDecision, e)
    \<and> Read res p key = Decided \<lparr>ad_label = get new AnnotationDecision, ad_reason = get new AnnotationReason,
        ad_edit = e, ad_approver = \<lparr>ap_username = u, ap_groups = sha256_hex (join [CHR 0x0A] (sort gs))\<rparr>,
        ad_approver_raw = get res AnnotationBy, ad_for = p_id p\<rparr>"
proof -
  have decide: "stamped key p u gs res \<and> p_id p \<noteq> [] \<and> key \<noteq> [] \<and>
      (\<exists>le. validateFields new = Inr le) \<and> (\<forall>k. k \<notin> set stampKeys \<longrightarrow> res k = new k)"
    using assms(1)
  proof (cases rule: Admit_cases)
    case same
    have "list_ex (\<lambda>k. new k \<noteq> old k) protocolKeys"
      using assms(3) by (auto simp: same_protocol_def list_ex_iff)
    then show ?thesis
      using assms(1,2) by (auto simp: Admit_def Let_def stamped_def MAC_upd stampKeys_def
          split: if_splits sum.splits)
  next
    case clear
    then show ?thesis
      using assms by (auto simp: Admit_def Let_def same_protocol_def list_ex_iff
          split: if_splits sum.splits)
  qed auto
  then have client: "res AnnotationDecision = new AnnotationDecision"
      "res AnnotationReason = new AnnotationReason" "res AnnotationEdit = new AnnotationEdit"
    by (simp_all add: stampKeys_def)
  then have gets: "get res AnnotationDecision = get new AnnotationDecision"
      "get res AnnotationReason = get new AnnotationReason"
    by (simp_all add: get_def)
  obtain l e where v: "validateFields new = Inr (l, e)" using decide by auto
  have vr: "validateFields res = validateFields new"
    unfolding validateFields_def client gets ..
  have st: "Stamp u gs = Inr (get res AnnotationBy)" using decide by (simp add: stamped_def)
  have "get res AnnotationBy \<noteq> []" using st by (auto simp: Stamp_def approver_json_def split: if_splits)
  moreover have "VerifyMAC key p res = None"
    using decide by (simp add: VerifyMAC_None stamped_def MAC_def unhex_hex)
  ultimately show ?thesis
    using decide validateFields_Inr [OF v] ParseApprover_Stamp [OF assms(4) st] v vr gets assms(2)
    by (simp add: Read_Decided stamped_def)
qed

text \<open>C11: Decisions are append-once. Once Read returns a decision for a pending action, every
  sequence of updates accepted for that action leaves the six annotations of the protocol as they are,
  and Read returns the same decision.
\<close>

theorem decision_final:
  assumes "updates_for key p ann ann'" "Read ann p key = Decided d"
  shows "Read ann' p key = Decided d \<and> same_protocol ann' ann"
  using assms
proof (induction rule: updates_for.induct)
  case start_for
  then show ?case by (simp add: same_protocol_def)
next
  case (update_for old new user groups ann')
  then have s: "same_protocol ann' old" using Admit_final by blast
  then have "Read ann' p key = Decided d"
    using update_for same_protocol_Read [OF s] by simp
  then show ?case
    using s update_for by (simp add: same_protocol_def)
qed

text \<open>What the webhook admits the controller reads. If an update with a decision is
  accepted and no decision was on record, then Read on the stamped annotations, with the same pending
  action and key, returns the label, the reason, the parsed edit and the user of the request.
\<close>

lemma Admit_Read:
  assumes "Admit old new p u gs key = Inr res" "get new AnnotationDecision \<noteq> []"
    "\<not> same_protocol new old" "valid_utf8 u"
  shows "\<exists>e. validateFields new = Inr (get new AnnotationDecision, e)
    \<and> Read res p key = Decided \<lparr>ad_label = get new AnnotationDecision, ad_reason = get new AnnotationReason,
        ad_edit = e, ad_approver = \<lparr>ap_username = u, ap_groups = sha256_hex (join [CHR 0x0A] (sort gs))\<rparr>,
        ad_approver_raw = get res AnnotationBy, ad_for = p_id p\<rparr>"
  using assms by (rule Admit_then_Read)

text \<open>C12: The code that authenticates a decision binds it. Two decisions accepted under one key and one
  code value are for the same workload, pending action and proposal, by the same approver stamp, with the
  same label, reason and edit; otherwise the four texts the code hashes show a collision.
\<close>

theorem MAC_binds:
  assumes "Read ann (pendingRef uid pid prop) key = Decided d"
    "Read ann' (pendingRef uid' pid' prop') key = Decided d'"
    "get ann AnnotationMAC = get ann' AnnotationMAC" "nul \<notin> set uid" "nul \<notin> set uid'"
  shows "(uid = uid' \<and> pid = pid' \<and> prop = prop' \<and> d = d')
    \<or> collides (hmac_sha256 key) (mac_text (pendingRef uid pid prop) ann) (mac_text (pendingRef uid' pid' prop') ann')
    \<or> collides sha256_hex (decision_text ann) (decision_text ann')
    \<or> collides sha256_hex (get ann AnnotationBy) (get ann' AnnotationBy)
    \<or> collides sha256_hex (pendingDomain @ [nul] @ prop) (pendingDomain @ [nul] @ prop')"
proof (cases "mac_text (pendingRef uid pid prop) ann = mac_text (pendingRef uid' pid' prop') ann'")
  case False
  then show ?thesis
    using assms(1-3) by (auto simp: Read_Decided VerifyMAC_None collides_def)
next
  case True
  have bound: "pendingRef uid pid prop = pendingRef uid' pid' prop'"
      "sha256_hex (decision_text ann) = sha256_hex (decision_text ann')"
      "sha256_hex (get ann AnnotationBy) = sha256_hex (get ann' AnnotationBy)"
    using mac_text_inj [OF True] assms(4,5) by (simp_all add: pendingRef_def PendingSHA256_def decisionSHA256_def)
  obtain a l e a' l' e' where
    v: "validateFields ann = Inr (l, e)" "validateFields ann' = Inr (l', e')"
      "ParseApprover (get ann AnnotationBy) = Inr a" "ParseApprover (get ann' AnnotationBy) = Inr a'"
    and d: "d = \<lparr>ad_label = l, ad_reason = get ann AnnotationReason, ad_edit = e, ad_approver = a,
             ad_approver_raw = get ann AnnotationBy, ad_for = p_id (pendingRef uid pid prop)\<rparr>"
      "d' = \<lparr>ad_label = l', ad_reason = get ann' AnnotationReason, ad_edit = e', ad_approver = a',
             ad_approver_raw = get ann' AnnotationBy, ad_for = p_id (pendingRef uid' pid' prop')\<rparr>"
    using assms(1,2) by (auto simp: Read_Decided)
  have same: "d = d'" if "decision_text ann = decision_text ann'" "get ann AnnotationBy = get ann' AnnotationBy"
  proof -
    note t = decision_text_inj [OF v(1,2) that(1)]
    have ed: "ann AnnotationEdit = ann' AnnotationEdit"
      using t validateFields_Inr [OF v(1)] validateFields_Inr [OF v(2)]
      by (auto simp: get_def split: if_splits)
    have "validateFields ann = validateFields ann'"
      unfolding validateFields_def t ed ..
    then show ?thesis using v d bound(1) t that by simp
  qed
  have "(uid = uid' \<and> pid = pid' \<and> prop = prop') \<or> collides sha256_hex (pendingDomain @ [nul] @ prop) (pendingDomain @ [nul] @ prop')"
    using bound(1) by (auto simp: pendingRef_def PendingSHA256_def collides_def)
  then show ?thesis
    using bound(2,3) same by (auto simp: collides_def)
qed

section \<open>A concrete decision\<close>

definition wit_new :: annotations where
  "wit_new = [AnnotationDecision \<mapsto> ''approve'']"

definition wit_pending :: pending where
  "wit_pending = pendingRef ''u1'' ''p1'' ''{}''"

definition wit_stamp :: string where
  "wit_stamp = enc_json (approver_json
     \<lparr>ap_username = ''alice'', ap_groups = sha256_hex (join [CHR 0x0A] (sort [''ops'']))\<rparr>)"

definition wit_by :: annotations where
  "wit_by = wit_new(AnnotationBy \<mapsto> wit_stamp, AnnotationFor \<mapsto> ''p1'')"

definition wit_res :: annotations where
  "wit_res = wit_by(AnnotationMAC \<mapsto> MAC ''key'' wit_pending wit_by)"

lemma wit_utf8: "valid_utf8 ''alice''" "valid_utf8 []"
  by (auto intro!: valid_utf8_ascii)

lemma wit_get:
  "get wit_new AnnotationDecision = ''approve''" "get wit_new AnnotationReason = []"
  "get wit_new AnnotationEdit = []" "get wit_new AnnotationBy = []" "get wit_new AnnotationFor = []"
  "get wit_new AnnotationMAC = []" "wit_new AnnotationEdit = None" "get Map.empty k = []"
  by (simp_all add: wit_new_def get_def)

lemma wit_valid: "validateFields wit_new = Inr (''approve'', None)"
  by (simp add: validateFields_def Let_def wit_get wit_utf8 Approve_def Edit_def MaxReasonBytes_def)

lemma wit_user: "Stamp ''alice'' [''ops''] = Inr wit_stamp"
proof -
  have "trim_space ''alice'' \<noteq> []" by code_simp
  then show ?thesis by (simp add: Stamp_def wit_stamp_def)
qed

lemma wit_admit: "Admit Map.empty wit_new wit_pending ''alice'' [''ops''] ''key'' = Inr wit_res"
proof -
  have "wit_new AnnotationDecision \<noteq> None" by (simp add: wit_new_def)
  then have "list_ex (\<lambda>k. wit_new k \<noteq> Map.empty k) protocolKeys"
    by (auto simp: protocolKeys_def)
  moreover have "p_id wit_pending = ''p1''" by (simp add: wit_pending_def pendingRef_def)
  ultimately show ?thesis
    by (simp add: Admit_def Let_def wit_get wit_valid wit_user stampKeys_def wit_res_def wit_by_def)
qed

lemma wit_fresh: "\<not> same_protocol wit_new Map.empty" "unstamped Map.empty"
  by (auto simp: same_protocol_def protocolKeys_def wit_new_def unstamped_def get_def)

lemma wit_read: "\<exists>d. Read wit_res wit_pending ''key'' = Decided d"
  using Admit_then_Read [OF wit_admit _ wit_fresh(1) wit_utf8(1)] by (auto simp: wit_get)

lemma decision_final_witness:
  "\<exists>d. Read wit_res wit_pending ''key'' = Decided d \<and> updates_for ''key'' wit_pending wit_res wit_res
    \<and> same_protocol wit_res wit_res"
  using decision_final [OF updates_for.start_for] wit_read updates_for.start_for by blast

lemma Admit_Read_witness:
  "\<exists>e. validateFields wit_new = Inr (''approve'', e) \<and>
    (\<exists>d. Read wit_res wit_pending ''key'' = Decided d \<and> ad_label d = ''approve'')"
  using Admit_Read [OF wit_admit _ wit_fresh(1) wit_utf8(1)] by (auto simp: wit_get)

lemma MAC_binds_witness:
  "\<exists>d d'. Read wit_res wit_pending ''key'' = Decided d \<and> Read wit_res wit_pending ''key'' = Decided d'
    \<and> (d = d' \<or> collides (hmac_sha256 ''key'') (mac_text wit_pending wit_res) (mac_text wit_pending wit_res)
      \<or> collides sha256_hex (decision_text wit_res) (decision_text wit_res)
      \<or> collides sha256_hex (get wit_res AnnotationBy) (get wit_res AnnotationBy)
      \<or> collides sha256_hex (pendingDomain @ [nul] @ ''{}'') (pendingDomain @ [nul] @ ''{}''))"
proof -
  have uid: "nul \<notin> set ''u1''" by (simp add: nul_def)
  obtain d where d: "Read wit_res (pendingRef ''u1'' ''p1'' ''{}'') ''key'' = Decided d"
    using wit_read by (auto simp: wit_pending_def)
  show ?thesis
    using MAC_binds [OF d d refl uid uid] d unfolding wit_pending_def by blast
qed

end
