(* ===== verification/Policy.thy ===== *)
theory Policy
  imports Decision
begin

text \<open>
  The policy layers: the hardcoded threshold evaluator
  (pkg/rules/threshold/evaluator.go, with its forwarding package pkg/opa) and the
  merge of the findings of the Rego policy packs (pkg/rules/engine/engine.go,
  pkg/rules/packs/packs.go).

  The Rego library is not part of the program: a compiled pack is its name and a
  function from the input document to the result set, and compilation is an
  argument of \<open>LoadPacks\<close>.
\<close>

section \<open>The threshold evaluator\<close>

definition c080 :: f64 where "c080 = Fin (3602879701896397 / 4503599627370496)"
definition c090 :: f64 where "c090 = Fin (8106479329266893 / 9007199254740992)"
definition c095 :: f64 where "c095 = Fin (4278419646001971 / 4503599627370496)"
definition c099 :: f64 where "c099 = Fin (4458563631096791 / 4503599627370496)"

record evaluation_input =
  ei_action :: string
  ei_confidence :: f64
  ei_health :: f64
  ei_mode :: string

record evaluation_result =
  er_allowed :: bool
  er_confidence :: string
  er_cluster :: string
  er_category :: string
  er_reasons :: "string list"

definition first_token :: "string list \<Rightarrow> string \<Rightarrow> bool" where
  "first_token ws action =
     (let a = to_lower action
      in list_ex (\<lambda>d. a = d) ws \<or> list_ex (\<lambda>d. has_prefix a (d @ ''_'')) ws)"

definition isDestructiveAction :: "string \<Rightarrow> bool" where
  "isDestructiveAction action =
     first_token [''delete'', ''remove'', ''purge'', ''drop'', ''reset'', ''cleanup'', ''clear''] action"

definition isReadOnlyAction :: "string \<Rightarrow> bool" where
  "isReadOnlyAction action =
     first_token [''get'', ''list'', ''describe'', ''monitor'', ''analyze'', ''read'', ''check'',
       ''validate''] action"

definition assessConfidence :: "f64 \<Rightarrow> string" where
  "assessConfidence c = (if fge c c095 then ''HIGH'' else if fge c c080 then ''MEDIUM'' else ''LOW'')"

definition assessClusterHealth :: "f64 \<Rightarrow> string" where
  "assessClusterHealth h =
     (if fge h (Fin 80) then ''HEALTHY'' else if fge h (Fin 50) then ''DEGRADED'' else ''CRITICAL'')"

definition assessActionCategory :: "string \<Rightarrow> string" where
  "assessActionCategory a =
     (if isDestructiveAction a then ''DESTRUCTIVE''
      else if isReadOnlyAction a then ''READONLY'' else ''MODIFICATION'')"

definition squote :: "string \<Rightarrow> string" where
  "squote s = [CHR 0x27] @ s @ [CHR 0x27]"

definition threshold_verdict :: "evaluation_input \<Rightarrow> bool \<times> string" where
  "threshold_verdict i =
     (let a = ei_action i; c = ei_confidence i; h = ei_health i; d = isDestructiveAction a in
      if isReadOnlyAction a then (True, ''Read-only action '' @ squote a @ '' always allowed'')
      else if flt c c090 \<and> flt h (Fin 40) then
        (False, ''CRITICAL: Low confidence AND cluster degradation. Manual intervention required.'')
      else if fge c c095 \<and> \<not> d \<and> fge h (Fin 50) then
        (True, ''High confidence ('' @ fmt_fixed 2 c @ '') action allowed'')
      else if d \<and> flt c c099 then
        (False, ''Destructive action '' @ squote a @ '' requires confidence >= 0.99, got '' @ fmt_fixed 2 c)
      else if flt h (Fin 50) then
        (False, ''Cluster health is degraded ('' @ fmt_fixed 1 h
                @ ''%). Only read-only operations allowed'')
      else if flt c c095 then
        (False, ''Low confidence ('' @ fmt_fixed 2 c
                @ '') action requires human approval (threshold: 0.95)'')
      else if fge c c080 \<and> fge h (Fin 50) then (True, ''Action meets minimum safety thresholds'')
      else (False, ''Action does not meet safety criteria''))"

definition Evaluate :: "evaluation_input option \<Rightarrow> evaluation_result" where
  "Evaluate inp = (case inp of
       None \<Rightarrow> \<lparr>er_allowed = False, er_confidence = ''LOW'', er_cluster = ''CRITICAL'',
                er_category = ''MODIFICATION'', er_reasons = [''Policy input is required'']\<rparr>
     | Some i \<Rightarrow> \<lparr>er_allowed = fst (threshold_verdict i),
                er_confidence = assessConfidence (ei_confidence i),
                er_cluster = assessClusterHealth (ei_health i),
                er_category = assessActionCategory (ei_action i),
                er_reasons = [snd (threshold_verdict i)]\<rparr>)"

definition EvaluateStrict :: "evaluation_input option \<Rightarrow> evaluation_result" where
  "EvaluateStrict inp =
     (let r = Evaluate inp in
      if er_confidence r \<noteq> ''HIGH'' \<and> er_category r \<noteq> ''READONLY''
      then r\<lparr>er_allowed := False, er_reasons := er_reasons r
             @ [''Strict mode: only HIGH confidence or read-only actions allowed'']\<rparr>
      else r)"

text \<open>With no input the result is not MEDIUM, so the missing input is never read.\<close>

definition EvaluatePermissive :: "evaluation_input option \<Rightarrow> evaluation_result" where
  "EvaluatePermissive inp =
     (let r = Evaluate inp in
      (case inp of
         Some i \<Rightarrow> (if er_confidence r = ''MEDIUM'' \<and> fge (ei_health i) (Fin 50)
                    then r\<lparr>er_allowed := True,
                           er_reasons := [''Permissive mode: MEDIUM confidence allowed'']\<rparr>
                    else r)
       | None \<Rightarrow> r))"

definition ConfidenceToFloat :: "string \<Rightarrow> f64 option" where
  "ConfidenceToFloat s = parse_float s"

definition FloatToConfidence :: "f64 \<Rightarrow> string" where
  "FloatToConfidence c = fmt_fixed 2 c"

lemma first_token_word:
  assumes "first_token ws a"
  shows "\<exists>w\<in>set ws. CHR ''_'' \<in> set w \<or> takeWhile (\<lambda>c. c \<noteq> CHR ''_'') (to_lower a) = w"
proof -
  obtain w where w: "w \<in> set ws" "to_lower a = w \<or> has_prefix (to_lower a) (w @ ''_'')"
    using assms by (auto simp: first_token_def list_ex_iff Let_def)
  have "takeWhile (\<lambda>c. c \<noteq> CHR ''_'') (to_lower a) = w" if "CHR ''_'' \<notin> set w"
    using w(2) that by (auto simp: has_prefix_prefix prefix_def takeWhile_append
        takeWhile_eq_all_conv)
  then show ?thesis
    using w(1) by blast
qed

lemma threshold_allowed:
  "fst (threshold_verdict i) \<longleftrightarrow> isReadOnlyAction (ei_action i) \<or>
     (fge (ei_health i) (Fin 50) \<and> fge (ei_confidence i) c095 \<and>
      (\<not> isDestructiveAction (ei_action i) \<or> fge (ei_confidence i) c099))"
proof -
  have lit: "c080 = Fin (3602879701896397 / 4503599627370496)"
    "c090 = Fin (8106479329266893 / 9007199254740992)"
    "c095 = Fin (4278419646001971 / 4503599627370496)"
    "c099 = Fin (4458563631096791 / 4503599627370496)"
    by (simp_all add: c080_def c090_def c095_def c099_def)
  show ?thesis
    by (cases "ei_confidence i"; cases "ei_health i")
      (auto simp: threshold_verdict_def Let_def lit flt_def fle_def feq_def)
qed

section \<open>Policy packs\<close>

record finding =
  fd_rule :: string
  fd_reason :: string
  fd_pack :: string

definition finding_string :: "finding \<Rightarrow> string" where
  "finding_string f = fd_pack f @ ''/'' @ fd_rule f @ '': '' @ fd_reason f"

record verdict =
  vd_deny :: "finding list"
  vd_approval :: "finding list"

text \<open>The result set of a query: per result the values of its expressions.\<close>

type_synonym result_set = "gany list list"

record compiled =
  cp_name :: string
  cp_query :: "gany \<Rightarrow> result_set err"

definition Known :: "string list" where
  "Known = [''dpdp-in@v0.1.0'', ''gdpr-eu@v0.1.0'']"

definition Valid :: "string \<Rightarrow> bool" where
  "Valid name \<longleftrightarrow> list_ex (\<lambda>k. k = name) Known"

definition known_text :: string where
  "known_text = ''['' @ join '' '' Known @ '']''"

definition obj_string :: "(string \<times> gany) list \<Rightarrow> string \<Rightarrow> string" where
  "obj_string m k = (case map_of m k of Some (GStr s) \<Rightarrow> s | _ \<Rightarrow> '''')"

fun finding_items :: "string \<Rightarrow> string \<Rightarrow> gany list \<Rightarrow> finding list err" where
  "finding_items pack rule [] = Inr []"
| "finding_items pack rule (it # items) =
     (case it of
        GMap m \<Rightarrow>
          (let n = obj_string m ''id''; reason = obj_string m ''reason'' in
           if n = '''' \<or> reason = '''' then
             Inl (''engine: pack '' @ quote pack @ '' '' @ rule @ '' item needs string id and reason'')
           else (case finding_items pack rule items of
               Inl e \<Rightarrow> Inl e
             | Inr fs \<Rightarrow> Inr (\<lparr>fd_rule = n, fd_reason = reason, fd_pack = pack\<rparr> # fs)))
      | _ \<Rightarrow> Inl (''engine: pack '' @ quote pack @ '' '' @ rule @ '' item, want object''))"

definition findings :: "string \<Rightarrow> string \<Rightarrow> gany option \<Rightarrow> finding list err" where
  "findings pack rule raw = (case raw of
       None \<Rightarrow> Inr []
     | Some GNil \<Rightarrow> Inr []
     | Some (GList items) \<Rightarrow> finding_items pack rule items
     | Some _ \<Rightarrow> Inl (''engine: pack '' @ quote pack @ '' '' @ rule @ '', want a set''))"

definition finding_key :: "finding \<Rightarrow> string list" where
  "finding_key f = [fd_pack f, fd_rule f, fd_reason f]"

definition sortFindings :: "finding list \<Rightarrow> finding list" where
  "sortFindings fs = sort_key finding_key fs"

definition eval_pack :: "compiled \<Rightarrow> gany \<Rightarrow> verdict err" where
  "eval_pack c inp = (case cp_query c inp of
       Inl e \<Rightarrow> Inl (''engine: eval pack '' @ quote (cp_name c) @ '': '' @ e)
     | Inr [[GMap doc]] \<Rightarrow>
         (case findings (cp_name c) ''deny'' (map_of doc ''deny'') of
            Inl e \<Rightarrow> Inl e
          | Inr d \<Rightarrow>
             (case findings (cp_name c) ''require_approval'' (map_of doc ''require_approval'') of
                Inl e \<Rightarrow> Inl e
              | Inr a \<Rightarrow> Inr \<lparr>vd_deny = d, vd_approval = a\<rparr>))
     | Inr [[_]] \<Rightarrow> Inl (''engine: pack '' @ quote (cp_name c) @ '' returned no object'')
     | Inr rs \<Rightarrow> Inl (''engine: pack '' @ quote (cp_name c) @ '' returned ''
                     @ itoa (int (length rs)) @ '' results''))"

fun eval_packs :: "compiled list \<Rightarrow> gany \<Rightarrow> verdict \<Rightarrow> verdict err" where
  "eval_packs [] inp v = Inr v"
| "eval_packs (c # cs) inp v =
     (case eval_pack c inp of
        Inl e \<Rightarrow> Inl e
      | Inr w \<Rightarrow> eval_packs cs inp
          \<lparr>vd_deny = vd_deny v @ vd_deny w, vd_approval = vd_approval v @ vd_approval w\<rparr>)"

definition Eval :: "compiled list option \<Rightarrow> gany \<Rightarrow> verdict err" where
  "Eval e inp = (case e of
       None \<Rightarrow> Inr \<lparr>vd_deny = [], vd_approval = []\<rparr>
     | Some cs \<Rightarrow>
         (case eval_packs cs inp \<lparr>vd_deny = [], vd_approval = []\<rparr> of
            Inl m \<Rightarrow> Inl m
          | Inr v \<Rightarrow> Inr \<lparr>vd_deny = sortFindings (vd_deny v),
                          vd_approval = sortFindings (vd_approval v)\<rparr>))"

definition Doc :: "input \<Rightarrow> gany" where
  "Doc i =
     (let d = in_declared i; ob = in_observed i; c = in_claimed i;
          strs = (\<lambda>xs. GList (map GStr xs)) in
      GMap [(''declared'', GMap [(''purpose'', GStr (d_purpose d)),
               (''decisionType'', GStr (d_decision_type d)),
               (''allowedDataClasses'', strs (d_classes d)),
               (''allowedDestinations'', strs (d_dests d))]),
            (''observed'', GMap [(''destination'', GStr (o_destination ob)),
               (''dataClasses'', strs (o_classes ob)), (''tool'', GStr (o_tool ob)),
               (''callerIdentity'', GStr (o_caller ob)),
               (''priorActionCount'', GInt (o_prior_actions ob)),
               (''priorDeniedCount'', GInt (o_prior_denied ob))]),
            (''claimed'', GMap ([(''intent'', GStr (cl_intent c))]
               @ (case cl_confidence c of None \<Rightarrow> [] | Some x \<Rightarrow> [(''confidence'', GFloat x)])
               @ (case cl_health c of None \<Rightarrow> [] | Some x \<Rightarrow> [(''clusterHealth'', GFloat x)])))])"

type_synonym pack_cache = "string \<Rightarrow> compiled option"

fun LoadPacks ::
  "(string \<Rightarrow> compiled err) \<Rightarrow> string list \<Rightarrow> pack_cache \<Rightarrow> compiled list err \<times> pack_cache" where
  "LoadPacks compile [] cache = (Inr [], cache)"
| "LoadPacks compile (n # ns) cache =
     (case cache n of
        Some c \<Rightarrow>
          (case LoadPacks compile ns cache of
             (Inl e, cache') \<Rightarrow> (Inl e, cache')
           | (Inr cs, cache') \<Rightarrow> (Inr (c # cs), cache'))
      | None \<Rightarrow>
          (if \<not> Valid n then
             (Inl (''packs: unknown policy pack '' @ quote n @ '', known: '' @ known_text), cache)
           else (case compile n of
               Inl e \<Rightarrow> (Inl e, cache)
             | Inr c \<Rightarrow>
                 (case LoadPacks compile ns (cache(n \<mapsto> c)) of
                    (Inl e, cache') \<Rightarrow> (Inl e, cache')
                  | (Inr cs, cache') \<Rightarrow> (Inr (c # cs), cache')))))"

section \<open>Lemmas on the packs\<close>

lemma finding_items_pack:
  "finding_items p r its = Inr fs \<Longrightarrow> f \<in> set fs \<Longrightarrow>
   fd_pack f = p \<and> fd_rule f \<noteq> [] \<and> fd_reason f \<noteq> []"
proof (induction its arbitrary: fs)
  case (Cons it items)
  then show ?case
    by (fastforce simp: Let_def split: gany.splits if_splits sum.splits)
qed simp

lemma eval_packs_sound:
  assumes "eval_packs cs inp v = Inr w"
  shows "\<exists>ws. list_all2 (\<lambda>c x. eval_pack c inp = Inr x) cs ws
    \<and> vd_deny w = vd_deny v @ concat (map vd_deny ws)
    \<and> vd_approval w = vd_approval v @ concat (map vd_approval ws)"
  using assms
proof (induction cs arbitrary: v)
  case (Cons c cs)
  then obtain x where x: "eval_pack c inp = Inr x"
    and "eval_packs cs inp \<lparr>vd_deny = vd_deny v @ vd_deny x,
           vd_approval = vd_approval v @ vd_approval x\<rparr> = Inr w"
    by (auto split: sum.splits)
  then obtain ws where "list_all2 (\<lambda>c x. eval_pack c inp = Inr x) cs ws"
      "vd_deny w = (vd_deny v @ vd_deny x) @ concat (map vd_deny ws)"
      "vd_approval w = (vd_approval v @ vd_approval x) @ concat (map vd_approval ws)"
    using Cons.IH by fastforce
  then show ?case
    using x by (intro exI [of _ "x # ws"]) simp
qed simp

text \<open>A cache that holds only what compilation gives.\<close>

definition cache_ok :: "(string \<Rightarrow> compiled err) \<Rightarrow> pack_cache \<Rightarrow> bool" where
  "cache_ok compile cache \<longleftrightarrow> (\<forall>n c. cache n = Some c \<longrightarrow> Valid n \<and> compile n = Inr c)"

lemma LoadPacks_cache:
  "cache_ok compile cache \<Longrightarrow> cache_ok compile (snd (LoadPacks compile ns cache)) \<and>
   (\<forall>cs. fst (LoadPacks compile ns cache) = Inr cs \<longleftrightarrow>
      list_all2 (\<lambda>n c. Valid n \<and> compile n = Inr c) ns cs)"
proof (induction compile ns cache rule: LoadPacks.induct)
  case (2 compile n ns cache)
  show ?case
  proof (cases "cache n")
    case (Some c)
    then have nc: "Valid n" "compile n = Inr c"
      using 2(3) by (auto simp: cache_ok_def)
    obtain a b where L: "LoadPacks compile ns cache = (a, b)" by fastforce
    show ?thesis
      using 2(2) [OF Some 2(3)] nc Some L by (cases a) (auto simp: list_all2_Cons1)
  next
    case None
    show ?thesis
    proof (cases "Valid n")
      case False
      then show ?thesis using None 2(3) by (auto simp: list_all2_Cons1)
    next
      case True
      show ?thesis
      proof (cases "compile n")
        case (Inl e)
        then show ?thesis using None True 2(3) by (auto simp: list_all2_Cons1)
      next
        case (Inr c)
        have "cache_ok compile (cache(n \<mapsto> c))"
          using 2(3) True Inr by (auto simp: cache_ok_def)
        obtain a b where L: "LoadPacks compile ns (cache(n \<mapsto> c)) = (a, b)" by fastforce
        show ?thesis
          using 2(1) [OF None _ Inr \<open>cache_ok compile (cache(n \<mapsto> c))\<close>] None True Inr L
          by (cases a) (auto simp: list_all2_Cons1 simp del: fun_upd_apply)
      qed
    qed
  qed
qed auto

section \<open>Properties\<close>

text \<open>When the threshold evaluator allows an action. Exactly the read-only actions, and those
  with a cluster health of at least 50 and a confidence of at least 0.95 (0.99 for a
  destructive action), are allowed; a missing input or a NaN is denied. Strict mode allows exactly
  the same actions.\<close>

lemma threshold_allows_iff:
  "er_allowed (Evaluate (Some i)) =
     (isReadOnlyAction (ei_action i) \<or>
      fge (ei_health i) (Fin 50) \<and> fge (ei_confidence i) c095 \<and>
      (\<not> isDestructiveAction (ei_action i) \<or> fge (ei_confidence i) c099))
   \<and> er_allowed (EvaluateStrict inp) = er_allowed (Evaluate inp)
   \<and> \<not> er_allowed (Evaluate None)"
proof -
  have disjoint: "\<not> (isDestructiveAction a \<and> isReadOnlyAction a)" for a
    by (auto dest!: first_token_word simp: isDestructiveAction_def isReadOnlyAction_def
        list_all_iff)
  show ?thesis
    using threshold_allowed disjoint
    by (auto simp: Evaluate_def EvaluateStrict_def Let_def assessConfidence_def
        assessActionCategory_def split: option.splits if_splits)
qed

theorem threshold_allows_iff_witness:
  "er_allowed (Evaluate (Some \<lparr>ei_action = ''scale'', ei_confidence = Fin 1, ei_health = Fin 100, ei_mode = ''strict''\<rparr>))"
  using threshold_allows_iff [of "\<lparr>ei_action = ''scale'', ei_confidence = Fin 1, ei_health = Fin 100, ei_mode = ''strict''\<rparr>"]
  by (simp add: c095_def c099_def isDestructiveAction_def first_token_def lower_char_def is_upper_def has_prefix_def)

text \<open>Permissive mode. It allows what the evaluator allows, and every action of medium
  confidence (0.8 up to 0.95) on a healthy enough cluster, destructive ones included; so a
  destructive action is allowed at a confidence of 0.85 and denied at 0.96.\<close>

lemma permissive_allows_iff:
  "er_allowed (EvaluatePermissive (Some i)) =
     (er_allowed (Evaluate (Some i)) \<or>
      fge (ei_confidence i) c080 \<and> flt (ei_confidence i) c095 \<and> fge (ei_health i) (Fin 50))
   \<and> er_allowed (EvaluatePermissive (Some \<lparr>ei_action = ''delete'', ei_confidence = Fin (85/100),
        ei_health = Fin 100, ei_mode = ''permissive''\<rparr>))
   \<and> \<not> er_allowed (EvaluatePermissive (Some \<lparr>ei_action = ''delete'', ei_confidence = Fin (96/100),
        ei_health = Fin 100, ei_mode = ''permissive''\<rparr>))"
proof (intro conjI)
  have nf: "\<not> fge c c095 \<longleftrightarrow> flt c c095" if "fge c c080" for c
    using that by (cases c) (auto simp: c080_def c095_def flt_def fle_def feq_def)
  show "er_allowed (EvaluatePermissive (Some i)) =
     (er_allowed (Evaluate (Some i)) \<or>
      fge (ei_confidence i) c080 \<and> flt (ei_confidence i) c095 \<and> fge (ei_health i) (Fin 50))"
    using nf [of "ei_confidence i"]
    by (auto simp: EvaluatePermissive_def Evaluate_def Let_def assessConfidence_def)
qed (simp_all add: EvaluatePermissive_def Evaluate_def Let_def assessConfidence_def
    threshold_allowed c080_def c095_def c099_def isReadOnlyAction_def isDestructiveAction_def
    first_token_def lower_char_def is_upper_def has_prefix_def)

text \<open>A verdict holds every finding of every pack. When the evaluation of the packs returns
  a verdict, each pack was evaluated without error, and the deny and the approval findings are
  exactly those of all packs together, sorted by pack, rule and reason. One failing
  pack fails the whole evaluation, which the caller takes as a denial.\<close>

lemma Eval_collects:
  assumes "Eval (Some cs) inp = Inr v"
  shows "\<exists>ws. list_all2 (\<lambda>c w. eval_pack c inp = Inr w) cs ws
    \<and> mset (vd_deny v) = mset (concat (map vd_deny ws))
    \<and> mset (vd_approval v) = mset (concat (map vd_approval ws))
    \<and> sorted (map finding_key (vd_deny v)) \<and> sorted (map finding_key (vd_approval v))"
proof -
  obtain w where w: "eval_packs cs inp \<lparr>vd_deny = [], vd_approval = []\<rparr> = Inr w"
    and v: "v = \<lparr>vd_deny = sortFindings (vd_deny w), vd_approval = sortFindings (vd_approval w)\<rparr>"
    using assms by (auto simp: Eval_def split: sum.splits)
  show ?thesis
    using eval_packs_sound [OF w] by (auto simp: v sortFindings_def)
qed

definition wit_pack :: compiled where
  "wit_pack = \<lparr>cp_name = ''gdpr-eu@v0.1.0'',
     cp_query = (\<lambda>_. Inr [[GMap [(''deny'',
       GList [GMap [(''id'', GStr ''G1''), (''reason'', GStr ''no'')]])]]])\<rparr>"

theorem Eval_collects_witness:
  "\<exists>ws. list_all2 (\<lambda>c w. eval_pack c GNil = Inr w) [wit_pack] ws
    \<and> mset [\<lparr>fd_rule = ''G1'', fd_reason = ''no'', fd_pack = ''gdpr-eu@v0.1.0''\<rparr>]
      = mset (concat (map vd_deny ws))"
proof -
  have "Eval (Some [wit_pack]) GNil = Inr
    \<lparr>vd_deny = [\<lparr>fd_rule = ''G1'', fd_reason = ''no'', fd_pack = ''gdpr-eu@v0.1.0''\<rparr>],
     vd_approval = []\<rparr>"
    by (simp add: Eval_def eval_pack_def wit_pack_def findings_def obj_string_def sortFindings_def)
  from Eval_collects [OF this] show ?thesis by auto
qed

text \<open>The pack cache is transparent. Over any sequence of calls that starts with an empty
  cache, loading packs gives the packs that compiling each name afresh gives, or fails when one
  of them is unknown or does not compile.\<close>

theorem LoadPacks_transparent:
  "fst (LoadPacks compile ns (fold (\<lambda>ms cache. snd (LoadPacks compile ms cache)) calls Map.empty))
     = Inr cs
   \<longleftrightarrow> list_all2 (\<lambda>n c. Valid n \<and> compile n = Inr c) ns cs"
proof -
  have keep: "cache_ok compile (fold (\<lambda>ms cache. snd (LoadPacks compile ms cache)) calls cache)"
    if "cache_ok compile cache" for cache
    using that
  proof (induction calls arbitrary: cache)
    case (Cons ms calls)
    show ?case
      unfolding fold.simps comp_apply
      by (rule Cons.IH, rule LoadPacks_cache [THEN conjunct1], rule Cons.prems)
  qed simp
  have "cache_ok compile Map.empty"
    by (simp add: cache_ok_def)
  from LoadPacks_cache [THEN conjunct2, OF keep [OF this]] show ?thesis
    by (rule spec)
qed

end
