(* ===== verification/World.thy ===== *)
theory World
  imports Receipts Approval Policy Routing
begin

text \<open>
  The effects of the controller, as a state it acts on. The API server holds one
  AgentWorkload with its resource version; a status update carries the version it
  was read at and is refused when the stored one differs (optimistic locking). Receipts
  and the requests sent to the MCP server are kept in one log, in order.

  Every effect consumes one \<open>tick\<close>, which says what the environment does: an edit of the
  spec and the annotations by a user just before, whether the effect takes place,
  whether the controller is told so, and the answer: a number, the body of an HTTP
  response, a text, the status of an execution, the runtime classes of listed
  pods, the response of a model provider. With no tick left the process has
  stopped: the rest of the handler does not run. So a handler run under an arbitrary list
  of ticks is one under arbitrary failures, lost answers, concurrent edits
  and a crash at any point. pkg/mcp/client.go is the client of the MCP server.
\<close>

section \<open>The world\<close>

record tool_response =
  tr_result :: gany
  tr_success :: bool

record edit =
  ed_annotations :: annotations
  ed_spec :: workload_spec
  ed_generation :: int
  ed_finalizers :: "string list"
  ed_deleting :: bool

text \<open>pkg/runtime/adapter.go ExecutionStatus: what a runtime adapter reports.\<close>

record execution_status =
  ex_phase :: string
  ex_name :: string
  ex_namespace :: string
  ex_uid :: string
  ex_message :: string

record tick =
  tk_edit :: "edit option"
  tk_done :: bool
  tk_ok :: bool
  tk_num :: int
  tk_body :: "tool_response option"
  tk_text :: string
  tk_exec :: execution_status
  tk_pods :: "string option list"
  tk_http :: http_answer

text \<open>What a request was sent for: the direct path, or the pending action of that id.\<close>

datatype origin = Direct | ForPending string

datatype event = EvReceipt decision_record | EvPost origin string gany

record world =
  wd_stored :: agent_workload
  wd_version :: int
  wd_log :: "event list"
  wd_ticks :: "tick list"

type_synonym 'a io = "world \<Rightarrow> 'a option \<times> world"

definition ret :: "'a \<Rightarrow> 'a io" where
  "ret x w = (Some x, w)"

definition bindio :: "'a io \<Rightarrow> ('a \<Rightarrow> 'b io) \<Rightarrow> 'b io" where
  "bindio m f w = (case m w of (None, w') \<Rightarrow> (None, w') | (Some x, w') \<Rightarrow> f x w')"

definition apply_edit :: "edit option \<Rightarrow> world \<Rightarrow> world" where
  "apply_edit e w = (case e of None \<Rightarrow> w
     | Some d \<Rightarrow> w\<lparr>wd_stored := (wd_stored w)\<lparr>w_annotations := ed_annotations d, w_spec := ed_spec d,
                    w_generation := ed_generation d, w_finalizers := ed_finalizers d, w_deleting := ed_deleting d\<rparr>, wd_version := wd_version w + 1\<rparr>)"

definition next_tick :: "tick io" where
  "next_tick w = (case wd_ticks w of [] \<Rightarrow> (None, w)
     | t # ts \<Rightarrow> (Some t, apply_edit (tk_edit t) (w\<lparr>wd_ticks := ts\<rparr>)))"

section \<open>The API server\<close>

datatype api_error = Conflict | ApiError

type_synonym object = "agent_workload \<times> int"
  \<comment> \<open>a workload as read, with its resource version\<close>

definition read_object :: "object io" where
  "read_object w = ret (wd_stored w, wd_version w) w"

text \<open>r.Status().Update: on success the object read back replaces the local one.\<close>

definition update_status :: "object \<Rightarrow> (api_error option \<times> object) io" where
  "update_status ob = bindio next_tick (\<lambda>t w.
     if snd ob \<noteq> wd_version w then ret (Some Conflict, ob) w
     else if \<not> tk_done t then ret (Some ApiError, ob) w
     else let st = (wd_stored w)\<lparr>w_status := w_status (fst ob)\<rparr>;
              w1 = w\<lparr>wd_stored := st, wd_version := wd_version w + 1\<rparr>
          in ret (if tk_ok t then (None, (st, wd_version w + 1)) else (Some ApiError, ob)) w1)"

text \<open>r.Update: everything but the status is written, with the same lock.\<close>

definition update_object :: "object \<Rightarrow> (api_error option \<times> object) io" where
  "update_object ob = bindio next_tick (\<lambda>t w.
     if snd ob \<noteq> wd_version w then ret (Some Conflict, ob) w
     else if \<not> tk_done t then ret (Some ApiError, ob) w
     else let st = (fst ob)\<lparr>w_status := w_status (wd_stored w)\<rparr>;
              w1 = w\<lparr>wd_stored := st, wd_version := wd_version w + 1\<rparr>
          in ret (if tk_ok t then (None, (st, wd_version w + 1)) else (Some ApiError, ob)) w1)"

text \<open>r.Patch of one annotation: no lock; the object read back replaces the local one.\<close>

definition patch_annotation :: "object \<Rightarrow> string \<Rightarrow> string \<Rightarrow> object io" where
  "patch_annotation ob k v = bindio next_tick (\<lambda>t w.
     if \<not> tk_done t then ret ((fst ob)\<lparr>w_annotations := (w_annotations (fst ob))(k \<mapsto> v)\<rparr>, snd ob) w
     else let st = (wd_stored w)\<lparr>w_annotations := (w_annotations (wd_stored w))(k \<mapsto> v)\<rparr>;
              w1 = w\<lparr>wd_stored := st, wd_version := wd_version w + 1\<rparr>
          in ret (if tk_ok t then (st, wd_version w + 1)
                  else ((fst ob)\<lparr>w_annotations := (w_annotations (fst ob))(k \<mapsto> v)\<rparr>, snd ob)) w1)"

section \<open>The receipt writer\<close>

record issued =
  is_seq :: int
  is_entry :: string

definition receipts_of :: "event list \<Rightarrow> decision_record list" where
  "receipts_of evs = concat (map (\<lambda>e. case e of EvReceipt r \<Rightarrow> [r] | _ \<Rightarrow> []) evs)"

definition writer_append :: "(int \<Rightarrow> decision_record \<Rightarrow> string) \<Rightarrow> decision_record \<Rightarrow> issued err io" where
  "writer_append entry rec = bindio next_tick (\<lambda>t w.
     if \<not> tk_done t then ret (Inl ''append'') w
     else let seq = int (length (receipts_of (wd_log w))) + 1;
              w1 = w\<lparr>wd_log := wd_log w @ [EvReceipt rec]\<rparr>
          in ret (if tk_ok t then Inr \<lparr>is_seq = seq, is_entry = entry seq rec\<rparr> else Inl ''append'') w1)"

definition writer_ready :: "bool io" where
  "writer_ready = bindio next_tick (\<lambda>t. ret (tk_ok t))"

section \<open>The MCP client (pkg/mcp/client.go)\<close>

definition maxRetries :: nat where "maxRetries = 2"

definition retryableStatus :: "int \<Rightarrow> bool" where
  "retryableStatus status \<longleftrightarrow> 500 \<le> status \<and> status \<le> 599"

definition CallError :: "string \<Rightarrow> int \<Rightarrow> string" where
  "CallError c status =
     (if status \<noteq> 0 then ''mcp: '' @ c @ '' '' @ itoa status @ '' (response body withheld)''
      else ''mcp: '' @ c @ '' (server error text withheld)'')"

text \<open>One POST; the error is one of the transport, with or without the request delivered.\<close>

definition post :: "origin \<Rightarrow> string \<Rightarrow> gany \<Rightarrow> (int \<times> tool_response option) err io" where
  "post org tool params = bindio next_tick (\<lambda>t w.
     if \<not> tk_done t then ret (Inl ''failed to call tool'') w
     else ret (if tk_ok t then Inr (tk_num t, tk_body t) else Inl ''failed to call tool'')
            (w\<lparr>wd_log := wd_log w @ [EvPost org tool params]\<rparr>))"

fun call_loop :: "nat \<Rightarrow> origin \<Rightarrow> string \<Rightarrow> gany \<Rightarrow> (int \<times> tool_response option) err io" where
  "call_loop 0 org tool params = post org tool params"
| "call_loop (Suc n) org tool params = bindio (post org tool params) (\<lambda>r. case r of
       Inl e \<Rightarrow> ret (Inl e)
     | Inr (status, body) \<Rightarrow>
         (if retryableStatus status then call_loop n org tool params else ret (Inr (status, body))))"

definition tool_result :: "int \<times> tool_response option \<Rightarrow> gany err" where
  "tool_result r = (let (status, body) = r in
     if status \<noteq> 200 then Inl (CallError ''http_status'' status)
     else (case body of
         None \<Rightarrow> Inl ''failed to decode tool response''
       | Some b \<Rightarrow> (if tr_success b then Inr (tr_result b) else Inl (CallError ''tool_failed'' 0))))"

definition CallTool :: "origin \<Rightarrow> string \<Rightarrow> gany \<Rightarrow> gany err io" where
  "CallTool org tool params =
     (case Marshal (GMap [(''tool'', GStr tool), (''params'', params)]) of
        None \<Rightarrow> ret (Inl ''failed to marshal request'')
      | Some payload \<Rightarrow> bindio (call_loop maxRetries org tool params) (\<lambda>r. case r of
            Inl e \<Rightarrow> ret (Inl e) | Inr resp \<Rightarrow> ret (tool_result resp)))"

end
