(* ===== verification/Controller.thy ===== *)
theory Controller
  imports World
begin

text \<open>
  internal/controller: the parts of the AgentWorkload controller that the approval path
  and the direct path share (approvals.go, receipts.go, reservation.go, decision_model.go,
  logsafe.go, the helpers of agentworkload_controller.go). Spans, logs and metrics are left out.
  Time is an integer; its RFC 3339 text is a parameter. The policy pack
  compiler and the scorer are fields of the configuration.
\<close>

record controller_config =
  cc_enabled :: bool
  cc_required :: bool
  cc_writer :: bool
  cc_dataset :: bool
  cc_scorer :: "(features \<Rightarrow> score err) option"
  cc_unavailable :: "string option"
  cc_key :: string
  cc_spec :: receiptspec
  cc_compile :: "string \<Rightarrow> compiled err"
  cc_entry :: "int \<Rightarrow> decision_record \<Rightarrow> string"
  cc_time :: "int \<Rightarrow> string"

section \<open>Small helpers\<close>

definition maxActionsInStatus :: nat where "maxActionsInStatus = 100"

definition pruneActions :: "'a list \<Rightarrow> nat \<Rightarrow> 'a list" where
  "pruneActions actions maxSize =
     (if length actions \<le> maxSize then actions else drop (length actions - maxSize) actions)"

fun upsertCondition :: "condition list \<Rightarrow> condition \<Rightarrow> condition list" where
  "upsertCondition [] c = [c]"
| "upsertCondition (x # xs) c = (if c_type x = c_type c then c # xs else x # upsertCondition xs c)"

definition find_condition :: "condition list \<Rightarrow> string \<Rightarrow> condition option" where
  "find_condition cs t = find (\<lambda>c. c_type c = t) cs"

definition mk_condition :: "string \<Rightarrow> bool \<Rightarrow> string \<Rightarrow> string \<Rightarrow> int \<Rightarrow> condition" where
  "mk_condition t status reason msg gen = \<lparr>c_type = t, c_status = (if status then ''True'' else ''False''),
     c_reason = reason, c_message = msg, c_generation = gen\<rparr>"

definition parseFlexibleFloat :: "gany \<Rightarrow> f64 err" where
  "parseFlexibleFloat v = (case v of
       GNil \<Rightarrow> Inl ''value is nil''
     | GNumber s \<Rightarrow> (case parse_float s of Some x \<Rightarrow> Inr x | None \<Rightarrow> Inl ''invalid numeric value'')
     | GFloat x \<Rightarrow> Inr x
     | GInt i \<Rightarrow> Inr (f_of_int i)
     | GStr s \<Rightarrow> (if s = [] then Inl ''value is empty''
         else (case parse_float s of Some x \<Rightarrow> Inr x | None \<Rightarrow> Inl ''invalid numeric string''))
     | _ \<Rightarrow> Inl ''unsupported numeric type'')"

definition maxLogTextBytes :: nat where "maxLogTextBytes = 160"

definition safeLogText :: "string \<Rightarrow> string" where
  "safeLogText s =
     (let classes = Detect s in
      if classes \<noteq> [] then ''[redacted:'' @ join '','' (Strings classes) @ '']''
      else if length s > maxLogTextBytes then take maxLogTextBytes s @ ''...[truncated]''
      else s)"

definition workloadRef :: "agent_workload \<Rightarrow> rc_workload" where
  "workloadRef wl = \<lparr>wk_namespace = w_namespace wl, wk_name = w_name wl, wk_uid = w_uid wl\<rparr>"

definition receiptSeq :: "issued option \<Rightarrow> int" where
  "receiptSeq rc = (case rc of None \<Rightarrow> 0 | Some i \<Rightarrow> is_seq i)"

section \<open>The decision layers\<close>

definition evaluateThreshold :: "string \<Rightarrow> string \<Rightarrow> f64 \<Rightarrow> f64 \<Rightarrow> evaluation_result" where
  "evaluateThreshold mode action confidence health =
     (let i = \<lparr>ei_action = action, ei_confidence = confidence, ei_health = health, ei_mode = mode\<rparr> in
      if mode = ''permissive'' then EvaluatePermissive (Some i) else EvaluateStrict (Some i))"

text \<open>
  The packs of a workload and their verdict; no pack, no error. The cache of
  LoadPacks starts empty here: it does not change what a call returns.
\<close>

definition eval_workload_packs :: "(string \<Rightarrow> compiled err) \<Rightarrow> string list \<Rightarrow> input \<Rightarrow> verdict \<times> string option" where
  "eval_workload_packs compile names i =
     (if names = [] then (\<lparr>vd_deny = [], vd_approval = []\<rparr>, None)
      else (case fst (LoadPacks compile names Map.empty) of
          Inl e \<Rightarrow> (\<lparr>vd_deny = [], vd_approval = []\<rparr>, Some e)
        | Inr cs \<Rightarrow> (case Eval (Some cs) (Doc i) of
              Inl e \<Rightarrow> (\<lparr>vd_deny = [], vd_approval = []\<rparr>, Some e)
            | Inr v \<Rightarrow> (v, None))))"

definition evaluateLayers :: "(string \<Rightarrow> compiled err) \<Rightarrow> inv_context \<Rightarrow> string list \<Rightarrow> input
    \<Rightarrow> evaluation_result \<Rightarrow> layers" where
  "evaluateLayers compile ctx packs i th =
     (let (v, e) = eval_workload_packs compile packs i
      in \<lparr>ly_invariants = map inv_string (Check i ctx), ly_pack_err = e,
          ly_pack_deny = map finding_string (vd_deny v),
          ly_pack_approval = map finding_string (vd_approval v),
          ly_threshold_allowed = er_allowed th, ly_threshold_reasons = er_reasons th\<rparr>)"

definition humanBlocked :: "layers \<Rightarrow> bool" where
  "humanBlocked l \<longleftrightarrow> ly_invariants l \<noteq> [] \<or> ly_pack_err l \<noteq> None \<or> ly_pack_deny l \<noteq> []"

definition receiptContext :: "controller_config \<Rightarrow> inv_context io" where
  "receiptContext cfg =
     (if \<not> cc_enabled cfg then ret \<lparr>ctx_receipts_required = False, ctx_writer_available = False\<rparr>
      else if \<not> cc_writer cfg
      then ret \<lparr>ctx_receipts_required = cc_required cfg, ctx_writer_available = False\<rparr>
      else bindio writer_ready (\<lambda>ready.
        ret \<lparr>ctx_receipts_required = cc_required cfg, ctx_writer_available = ready\<rparr>))"

definition applyDecisionModel :: "controller_config \<Rightarrow> workload_spec \<Rightarrow> string \<Rightarrow> input \<Rightarrow> decision_result
    \<Rightarrow> decision_result \<times> model_block option" where
  "applyDecisionModel cfg sp action i base =
     (let mode = DecisionModelMode sp; unavailable = cc_unavailable cfg in
      if (cc_scorer cfg = None \<and> unavailable = None) \<or> mode = ''off'' then (base, None)
      else let m = (if mode = ''escalate'' then ModelEscalate else ModelShadow);
               esc = (if r_outcome base \<noteq> Allow then r_layer base else '''');
               fi = \<lparr>fi_input = i, fi_action = action, fi_packs = sp_policy_packs sp, fi_escalated_by = esc\<rparr>;
               f = ExtractFeatures fi;
               override = Option.bind (sp_decision_model sp) dm_threshold;
               scored = (case unavailable of
                   Some e \<Rightarrow> Inl e
                 | None \<Rightarrow> (case cc_scorer cfg of
                     None \<Rightarrow> Inl ''decision model unavailable'' | Some sc \<Rightarrow> ScoreClaimSafe sc fi));
               (s, err) = (case scored of
                   Inl e \<Rightarrow> (\<lparr>s_model_id = [], s_version = [], s_artifact = [], s_feature_spec = f_spec f,
                       s_feature_hash = Hash f, s_risk = 0, s_option = [], s_reasons = [], s_threshold = 0,
                       s_calibration = [], s_claimed_risk = 0, s_baseline_risk = 0, s_baseline_hash = []\<rparr>, Some e)
                 | Inr s \<Rightarrow> (s\<lparr>s_threshold := EffectiveThreshold (s_threshold s) override\<rparr>, None));
               final = ApplyModel base s err m
           in (final, Some (NewModelBlock m s err base final)))"

section \<open>Records and receipts\<close>

record decided =
  dc_record :: decision_record
  dc_receipt :: "issued option"

definition zero_record :: decision_record where
  "zero_record = \<lparr>dr_schema = 0, dr_workload = \<lparr>wk_namespace = [], wk_name = [], wk_uid = []\<rparr>, dr_action = [],
     dr_layer = [], dr_outcome = [], dr_reasons = [], dr_input_hash = [], dr_payload_sha256 = [],
     dr_declared = \<lparr>ds_sha256 = [], ds_decision_type = [], ds_classes = [], ds_dests = []\<rparr>,
     dr_observed = \<lparr>os_sha256 = [], os_host = [], os_classes = [], os_tool = [], os_prior_actions = 0,
       os_prior_denied = 0\<rparr>,
     dr_claimed = \<lparr>cs_sha256 = [], cs_confidence = [], cs_health = []\<rparr>, dr_packs = [], dr_mode = [],
     dr_model = None, dr_approval = None, dr_hint = []\<rparr>"

definition newRecord :: "controller_config \<Rightarrow> agent_workload \<Rightarrow> string \<Rightarrow> input \<Rightarrow> gany \<Rightarrow> layers
    \<Rightarrow> decision_result \<Rightarrow> string \<Rightarrow> model_block option \<Rightarrow> decision_record err" where
  "newRecord cfg wl action i payload l result mode model =
     NewDecisionRecord (cc_spec cfg) \<lparr>rp_workload = workloadRef wl, rp_action = action, rp_input = i,
       rp_payload = payload, rp_layers = l, rp_result = result, rp_packs = sp_policy_packs (w_spec wl),
       rp_mode = mode, rp_model = model\<rparr>"

definition appendRecord :: "controller_config \<Rightarrow> decision_record \<Rightarrow> issued err io" where
  "appendRecord cfg rec =
     (if \<not> cc_writer cfg then ret (Inl ''no receipt writer configured'')
      else writer_append (cc_entry cfg) rec)"

definition or_zero :: "decision_record err \<Rightarrow> decision_record" where
  "or_zero r = (case r of Inl _ \<Rightarrow> zero_record | Inr rec \<Rightarrow> rec)"

text \<open>The layers and the result when the required receipt could not be written.\<close>

definition fail_closed :: "input \<Rightarrow> layers \<Rightarrow> layers" where
  "fail_closed i l =
     (let add = filter (\<lambda>s. s \<notin> set (ly_invariants l))
            (map inv_string (filter (\<lambda>r. ir_id r = ''INV-05'')
              (Check i \<lparr>ctx_receipts_required = True, ctx_writer_available = False\<rparr>)))
      in l\<lparr>ly_invariants := ly_invariants l @ add\<rparr>)"

definition recordDecision :: "controller_config \<Rightarrow> agent_workload \<Rightarrow> string \<Rightarrow> input \<Rightarrow> gany \<Rightarrow> layers
    \<Rightarrow> decision_result \<Rightarrow> string \<Rightarrow> model_block option \<Rightarrow> (decision_result \<times> decided) io" where
  "recordDecision cfg wl action i payload l result mode model =
     (let rec = newRecord cfg wl action i payload l result mode model;
          out = \<lparr>dc_record = or_zero rec, dc_receipt = None\<rparr>;
          failed = (if \<not> cc_required cfg then ret (result, out)
                    else let l' = fail_closed i l; result' = Decide l'
                         in ret (result', \<lparr>dc_record = or_zero (newRecord cfg wl action i payload l' result' mode model),
                                           dc_receipt = None\<rparr>))
      in if \<not> cc_enabled cfg then ret (result, out)
         else (case rec of
             Inl e \<Rightarrow> failed
           | Inr r \<Rightarrow> bindio (appendRecord cfg r) (\<lambda>a. case a of
                 Inr rc \<Rightarrow> ret (result, out\<lparr>dc_receipt := Some rc\<rparr>)
               | Inl e \<Rightarrow> failed)))"

definition reserved_message :: "string \<Rightarrow> decided \<Rightarrow> string" where
  "reserved_message action d = (case dc_receipt d of
       None \<Rightarrow> ''action '' @ quote action @ '' reserved for execution''
     | Some rc \<Rightarrow> ''action '' @ quote action @ '' reserved for execution after receipt '' @ itoa (is_seq rc))"

definition set_condition :: "agent_workload \<Rightarrow> condition \<Rightarrow> agent_workload" where
  "set_condition wl c = wl\<lparr>w_status := (w_status wl)
     \<lparr>st_conditions := upsertCondition (st_conditions (w_status wl)) c\<rparr>\<rparr>"

definition reserveExecution :: "object \<Rightarrow> string \<Rightarrow> decided \<Rightarrow> (api_error option \<times> object) io" where
  "reserveExecution ob action d =
     update_status (set_condition (fst ob) (mk_condition ''ExecutionReserved'' True ''Reserved''
       (reserved_message action d) (w_generation (fst ob))), snd ob)"

section \<open>Pending actions\<close>

definition pendingID :: "controller_config \<Rightarrow> agent_workload \<Rightarrow> decided \<Rightarrow> int \<Rightarrow> string \<Rightarrow> string" where
  "pendingID cfg wl d now prop =
     (let parts = [''clawdlinux.org/pending-id/v1'', w_uid wl]
            @ (case dc_receipt d of
                 Some rc \<Rightarrow> [''receipt'', hex (is_entry rc)]
               | None \<Rightarrow> [''no-receipt'', dr_input_hash (dc_record d), cc_time cfg now, prop])
      in hex (take 16 (sha256 (join [nul] parts))))"

definition newPendingApproval :: "controller_config \<Rightarrow> agent_workload \<Rightarrow> action \<Rightarrow> gany \<Rightarrow> f64 \<Rightarrow> f64 option
    \<Rightarrow> decided \<Rightarrow> int \<Rightarrow> pending_approval err" where
  "newPendingApproval cfg wl act proposal health claimed d now =
     (case Marshal proposal of
        None \<Rightarrow> Inl ''json: unsupported value''
      | Some prop \<Rightarrow>
          (case rs_canonical (cc_spec cfg) (record_json (dc_record d)) of
             Inl e \<Rightarrow> Inl e
           | Inr rec \<Rightarrow> Inr
               \<lparr>pa_id = pendingID cfg wl d now prop, pa_action = a_name act, pa_description = a_description act,
                pa_confidence = a_confidence act, pa_cluster_health = fmt_shortest health,
                pa_claimed_health = (case claimed of None \<Rightarrow> '''' | Some h \<Rightarrow> fmt_shortest h),
                pa_proposal = prop, pa_record = rec, pa_receipt_seq = receiptSeq (dc_receipt d),
                pa_receipt_hash = (case dc_receipt d of None \<Rightarrow> '''' | Some rc \<Rightarrow> hex (is_entry rc)),
                pa_proposed_at = now, pa_state = '''', pa_decision = ''''\<rparr>))"

definition maxConsumedApprovalIDs :: nat where "maxConsumedApprovalIDs = 32"

definition approvalConsumed :: "workload_status \<Rightarrow> string \<Rightarrow> bool" where
  "approvalConsumed st i \<longleftrightarrow>
     (case st_last_approval st of Some l \<Rightarrow> ao_id l = i | None \<Rightarrow> False) \<or> i \<in> set (st_consumed st)"

definition proposalParams :: "gany \<Rightarrow> gany" where
  "proposalParams proposal = (case proposal of
       GMap m \<Rightarrow> GMap (filter (\<lambda>p. fst p \<notin> set [''action'', ''description'', ''confidence'']) m)
     | _ \<Rightarrow> GMap [])"

end
