(* ===== verification/ApprovalFlow.thy ===== *)
theory ApprovalFlow
  imports Controller
begin

text \<open>
  internal/controller/approvals.go: what the controller does with a workload that holds an
  action for a human decision. The handler is one function over the effects
  of \<^theory_text>\<open>World\<close>: it validates, persists its intent, writes the human receipt and only
  then acts. A float the controller stored itself is read back without a range error. The example
  of the dataset is one effect that may fail; its content is not modelled. Durations
  are in seconds.
\<close>

record rresult =
  rr_after :: int
  rr_err :: "string option"

definition requeue :: "int \<Rightarrow> rresult" where
  "requeue n = \<lparr>rr_after = n, rr_err = None\<rparr>"

definition api_text :: "api_error \<Rightarrow> string" where
  "api_text e = (case e of Conflict \<Rightarrow> ''conflict'' | ApiError \<Rightarrow> ''api error'')"

definition api_failed :: "api_error \<Rightarrow> rresult" where
  "api_failed e = \<lparr>rr_after = 0, rr_err = Some (api_text e)\<rparr>"

definition hour :: int where "hour = 3600"

section \<open>Status changes\<close>

definition set_status :: "agent_workload \<Rightarrow> workload_status \<Rightarrow> agent_workload" where
  "set_status wl st = wl\<lparr>w_status := st\<rparr>"

definition set_pending :: "agent_workload \<Rightarrow> pending_approval \<Rightarrow> string \<Rightarrow> string \<Rightarrow> agent_workload" where
  "set_pending wl p state dec = wl\<lparr>w_status := (w_status wl)
     \<lparr>st_pending := Some (p\<lparr>pa_state := state, pa_decision := dec\<rparr>)\<rparr>\<rparr>"

definition pending_state :: "agent_workload \<Rightarrow> string" where
  "pending_state wl = (case st_pending (w_status wl) of None \<Rightarrow> '''' | Some p \<Rightarrow> pa_state p)"

definition holdApproval :: "object \<Rightarrow> string \<Rightarrow> string \<Rightarrow> int \<Rightarrow> rresult io" where
  "holdApproval ob reason msg after =
     (let wl = fst ob;
          same = (case find_condition (st_conditions (w_status wl)) ''ApprovalDecision'' of
              None \<Rightarrow> False | Some c \<Rightarrow> c_reason c = reason \<and> c_message c = msg)
      in if same \<and> pending_state wl = '''' then ret (requeue after)
         else bindio (update_status
                (set_condition wl (mk_condition ''ApprovalDecision'' False reason msg (w_generation wl)), snd ob))
              (\<lambda>(e, ob'). case e of Some x \<Rightarrow> ret (api_failed x) | None \<Rightarrow> ret (requeue after)))"

text \<open>The status finishApproval writes: the pending action is consumed and cleared.\<close>

definition finish_conditions :: "condition list \<Rightarrow> string \<Rightarrow> string \<Rightarrow> string \<Rightarrow> string \<Rightarrow> int \<Rightarrow> condition list" where
  "finish_conditions cs phase oc reason msg gen =
     (let cs1 = upsertCondition cs
            (mk_condition ''ApprovalDecision'' (oc = ''executed'' \<or> oc = ''rejected'') reason msg gen);
          cs2 = (case find_condition cs1 ''ApprovalRequired'' of
              Some c \<Rightarrow> (if c_status c = ''True''
                then upsertCondition cs1 (mk_condition ''ApprovalRequired'' False ''HumanDecided'' msg gen) else cs1)
            | None \<Rightarrow> cs1)
      in if phase = ''PolicyDenied''
         then upsertCondition cs2 (mk_condition ''PolicyDenied'' True reason msg gen) else cs2)"

definition finish_status :: "agent_workload \<Rightarrow> pending_approval \<Rightarrow> string \<Rightarrow> string \<Rightarrow> string \<Rightarrow> int
    \<Rightarrow> string \<Rightarrow> string \<Rightarrow> string \<Rightarrow> int \<Rightarrow> workload_status" where
  "finish_status wl p label oc approverSHA seq phase reason msg now =
     (let st = w_status wl; consumed = st_consumed st @ [pa_id p] in
      st\<lparr>st_last_approval := Some \<lparr>ao_id = pa_id p, ao_decision = label, ao_outcome = oc,
           ao_approver = approverSHA, ao_receipt_seq = seq, ao_decided_at = now\<rparr>,
         st_consumed := (if length consumed > maxConsumedApprovalIDs
                         then drop (length consumed - maxConsumedApprovalIDs) consumed else consumed),
         st_pending := None, st_phase := phase, st_last_reconcile := Some now,
         st_conditions := finish_conditions (st_conditions st) phase oc reason msg (w_generation wl)\<rparr>)"

definition finishApproval :: "object \<Rightarrow> pending_approval \<Rightarrow> string \<Rightarrow> string \<Rightarrow> string \<Rightarrow> int
    \<Rightarrow> string \<Rightarrow> string \<Rightarrow> string \<Rightarrow> int \<Rightarrow> rresult io" where
  "finishApproval ob p label oc approverSHA seq phase reason msg now =
     bindio (update_status
         (set_status (fst ob) (finish_status (fst ob) p label oc approverSHA seq phase reason msg now), snd ob))
       (\<lambda>(e, ob'). case e of
          Some x \<Rightarrow> ret (api_failed x)
        | None \<Rightarrow> ret (requeue (if phase = PhaseRejected \<or> phase = ''PolicyDenied'' then hour else 30)))"

section \<open>What the decision applies to\<close>

definition approval_error_text :: "approval_error \<Rightarrow> string" where
  "approval_error_text e = (case e of
       ErrUnstamped \<Rightarrow> ''approval decision has no '' @ AnnotationBy
         @ '' stamp; the admission webhook must be enabled to accept approvals''
     | ErrForged \<Rightarrow> AnnotationBy @ '' and '' @ AnnotationFor @ '' are set by the admission webhook only''
     | ErrFinal \<Rightarrow> ''a decision is already recorded for the pending action; decisions are append-once''
     | ErrNoPending \<Rightarrow> ''no pending action to decide''
     | ErrNoKey \<Rightarrow> ''no approval stamp key configured (APPROVAL_STAMP_KEY_FILE); approvals are refused''
     | ErrBadMAC \<Rightarrow> AnnotationMAC @ '' does not verify for this workload, pending action, decision, and approver''
     | ErrText s \<Rightarrow> s)"

record target =
  tg_name :: string
  tg_description :: string
  tg_payload :: gany

definition refusal_reason :: "approval_error \<Rightarrow> string" where
  "refusal_reason e = (case e of ErrUnstamped \<Rightarrow> ''MissingApprovalStamp''
     | ErrNoKey \<Rightarrow> ''ApprovalStampKeyMissing'' | ErrBadMAC \<Rightarrow> ''ApprovalStampInvalid''
     | _ \<Rightarrow> ''InvalidDecision'')"

definition edit_params :: "edited_action \<Rightarrow> gany" where
  "edit_params e = (case ea_params e of None \<Rightarrow> GNil
     | Some m \<Rightarrow> (case of_json num_text (JObj m) of Some v \<Rightarrow> v | None \<Rightarrow> GNil))"

definition decision_target :: "approval_decision \<Rightarrow> pending_approval \<Rightarrow> gany \<Rightarrow> target" where
  "decision_target d p proposal = (case (ad_label d = Edit, ad_edit d) of
       (True, Some e) \<Rightarrow> \<lparr>tg_name = ea_name e, tg_description = ea_description e,
         tg_payload = GMap [(''action'', GStr (ea_name e)), (''description'', GStr (ea_description e)),
                            (''params'', edit_params e)]\<rparr>
     | _ \<Rightarrow> \<lparr>tg_name = pa_action p, tg_description = pa_description p, tg_payload = proposal\<rparr>)"

text \<open>pkg/dataset Diff: which parts of the action an edit changed.\<close>

definition Diff :: "string \<Rightarrow> string \<Rightarrow> gany \<Rightarrow> string \<Rightarrow> string \<Rightarrow> gany \<Rightarrow> string list err" where
  "Diff n d ps n' d' ps' =
     (case Marshal ps of None \<Rightarrow> Inl ''json: unsupported value''
      | Some a \<Rightarrow> (case Marshal ps' of None \<Rightarrow> Inl ''json: unsupported value''
        | Some b \<Rightarrow> Inr ((if n \<noteq> n' then [''name''] else []) @ (if d \<noteq> d' then [''description''] else [])
                         @ (if a \<noteq> b then [''params''] else []))))"

definition edited_fields :: "approval_decision \<Rightarrow> pending_approval \<Rightarrow> gany \<Rightarrow> string list" where
  "edited_fields d p proposal = (case (ad_label d = Edit, ad_edit d) of
       (True, Some e) \<Rightarrow>
         (case Diff (pa_action p) (pa_description p) (proposalParams proposal)
                    (ea_name e) (ea_description e) (edit_params e) of
            Inl _ \<Rightarrow> [''unknown''] | Inr fs \<Rightarrow> fs)
     | _ \<Rightarrow> [])"

text \<open>Decoding a stored record into a struct that only its input hash is read from.\<close>

definition original_hash :: "string \<Rightarrow> string" where
  "original_hash s = (case parse_json s of
       Some (JObj m) \<Rightarrow> fold (\<lambda>p acc. if field_matches ''input_hash'' p
                               then (case snd p of JStr h \<Rightarrow> h | _ \<Rightarrow> acc) else acc) m ''''
     | _ \<Rightarrow> '''')"

definition stored_float :: "string \<Rightarrow> f64" where
  "stored_float s = (case parse_float s of None \<Rightarrow> Fin 0 | Some x \<Rightarrow> x)"

definition policy_mode :: "workload_spec \<Rightarrow> string" where
  "policy_mode sp = (case sp_opa_policy sp of None \<Rightarrow> ''strict'' | Some m \<Rightarrow> m)"

definition mcp_endpoint :: "workload_spec \<Rightarrow> string" where
  "mcp_endpoint sp = (case sp_mcp_endpoint sp of None \<Rightarrow> '''' | Some e \<Rightarrow> e)"

definition approval_input :: "agent_workload \<Rightarrow> pending_approval \<Rightarrow> target \<Rightarrow> input" where
  "approval_input wl p tg =
     (let (total, denied) = History (st_executed (w_status wl)) (st_proposed (w_status wl)) in
      \<lparr>in_declared = Declared (sp_declared_intent (w_spec wl)),
       in_observed = Observe \<lparr>f_endpoint = mcp_endpoint (w_spec wl), f_tool = tg_name tg, f_caller = '''',
         f_payload = tg_payload tg, f_prior_actions = total, f_prior_denied = denied\<rparr>,
       in_claimed = \<lparr>cl_confidence = Some (stored_float (pa_confidence p)),
         cl_health = (if pa_claimed_health p = '''' then None else parse_float (pa_claimed_health p)),
         cl_intent = tg_description tg\<rparr>\<rparr>)"

definition approval_layers :: "controller_config \<Rightarrow> inv_context \<Rightarrow> agent_workload \<Rightarrow> pending_approval
    \<Rightarrow> target \<Rightarrow> layers" where
  "approval_layers cfg ctx wl p tg =
     evaluateLayers (cc_compile cfg) ctx (sp_policy_packs (w_spec wl)) (approval_input wl p tg)
       (evaluateThreshold (policy_mode (w_spec wl)) (tg_name tg) (stored_float (pa_confidence p))
          (stored_float (pa_cluster_health p)))"

definition human_params_of :: "controller_config \<Rightarrow> agent_workload \<Rightarrow> pending_approval \<Rightarrow> approval_decision
    \<Rightarrow> gany \<Rightarrow> human_params" where
  "human_params_of cfg wl p d proposal =
     (let tg = decision_target d p proposal in
      \<lparr>hp_workload = workloadRef wl, hp_action = tg_name tg, hp_input = approval_input wl p tg,
       hp_payload = ExecutionPayload (tg_name tg) (tg_payload tg) (pa_confidence p),
       hp_packs = sp_policy_packs (w_spec wl), hp_mode = policy_mode (w_spec wl),
       hp_approval = \<lparr>ab_label = ad_label d, ab_approver = ap_username (ad_approver d),
         ab_approver_sha256 = ApproverSHA256 d, ab_reason_sha256 = ReasonSHA256 d,
         ab_pending_id = pa_id p, ab_original_seq = pa_receipt_seq p mod 2 ^ 64,
         ab_original_hash = original_hash (pa_record p), ab_edited = edited_fields d p proposal,
         ab_payload_sha256 = PendingSHA256 (pa_proposal p), ab_consumed_sha256 = ''''\<rparr>\<rparr>)"

section \<open>The handler\<close>

text \<open>storeExample: a failure only sets a condition.\<close>

definition storeExample :: "controller_config \<Rightarrow> agent_workload \<Rightarrow> issued \<Rightarrow> agent_workload io" where
  "storeExample cfg wl rc =
     (if \<not> cc_dataset cfg then ret wl
      else bindio next_tick (\<lambda>t. ret (if tk_ok t then wl
        else set_condition wl (mk_condition ''ApprovalDataset'' False ''StoreFailed''
          (''approval example for receipt '' @ itoa (is_seq rc) @ '' not stored'') (w_generation wl)))))"

text \<open>The action itself: intent, call, outcome.\<close>

definition execute_approved :: "object \<Rightarrow> pending_approval \<Rightarrow> approval_decision \<Rightarrow> target \<Rightarrow> int \<Rightarrow> int
    \<Rightarrow> rresult io" where
  "execute_approved ob p d tg seq now =
     bindio (update_status (set_pending (fst ob) p ApprovalStateExecuting (ad_label d), snd ob)) (\<lambda>(e, ob1).
       case e of Some x \<Rightarrow> ret (api_failed x)
       | None \<Rightarrow>
         bindio (CallTool (ForPending (pa_id p)) ''execute_action''
                   (ExecutionPayload (tg_name tg) (tg_payload tg) (pa_confidence p))) (\<lambda>res.
           let wl = fst ob1; st = w_status wl;
               act = \<lparr>a_name = tg_name tg, a_description = tg_description tg, a_confidence = pa_confidence p,
                      a_timestamp = Some now, a_approved = Some (\<not> isl res)\<rparr>
           in case res of
                Inl _ \<Rightarrow> finishApproval
                  (set_status wl (st\<lparr>st_proposed := pruneActions (st_proposed st @ [act]) maxActionsInStatus\<rparr>), snd ob1)
                  p (ad_label d) ''failed'' (ApproverSHA256 d) seq ''Failed'' ''ExecutionFailed''
                  (''approved action '' @ quote (tg_name tg) @ '' failed to execute'') now
              | Inr _ \<Rightarrow> finishApproval
                  (set_status wl (st\<lparr>st_executed := pruneActions (st_executed st @ [act]) maxActionsInStatus\<rparr>), snd ob1)
                  p (ad_label d) ''executed'' (ApproverSHA256 d) seq ''Completed'' ''Executed''
                  (''action '' @ quote (tg_name tg) @ '' executed after human '' @ ad_label d @ '' by ''
                   @ ap_username (ad_approver d)) now))"

text \<open>After the receipt: reject, deny what a human cannot override, or execute.\<close>

definition act_on_decision :: "controller_config \<Rightarrow> object \<Rightarrow> pending_approval \<Rightarrow> approval_decision \<Rightarrow> target
    \<Rightarrow> layers \<Rightarrow> int \<Rightarrow> int \<Rightarrow> rresult io" where
  "act_on_decision cfg ob p d tg l seq now =
     (if ad_label d = Reject then
        finishApproval ob p (ad_label d) ''rejected'' (ApproverSHA256 d) seq PhaseRejected ''Rejected''
          (''action '' @ quote (tg_name tg) @ '' rejected by '' @ ap_username (ad_approver d)) now
      else if humanBlocked l then
        bindio (recordDecision cfg (fst ob) (tg_name tg) (approval_input (fst ob) p tg)
                  (ExecutionPayload (tg_name tg) (tg_payload tg) (pa_confidence p)) l (Decide l)
                  (policy_mode (w_spec (fst ob))) None) (\<lambda>_.
          finishApproval ob p (ad_label d) ''denied'' (ApproverSHA256 d) seq ''PolicyDenied'' ''HumanDecisionBlocked''
            (''human '' @ ad_label d @ '' of '' @ quote (tg_name tg) @ '' blocked: ''
             @ join ''; '' (r_reasons (Decide l))) now)
      else execute_approved ob p d tg seq now)"

text \<open>The human receipt; None when none was written and none is required.\<close>

definition human_receipt :: "controller_config \<Rightarrow> decision_record err \<Rightarrow> (string + issued option) io" where
  "human_receipt cfg human =
     (if \<not> cc_enabled cfg then ret (Inr None)
      else case human of
        Inl e \<Rightarrow> ret (if cc_required cfg then Inl e else Inr None)
      | Inr r \<Rightarrow> bindio (appendRecord cfg r) (\<lambda>a. case a of
            Inr rc \<Rightarrow> ret (Inr (Some rc))
          | Inl e \<Rightarrow> ret (if cc_required cfg then Inl e else Inr None)))"

definition decide_pending :: "controller_config \<Rightarrow> object \<Rightarrow> pending_approval \<Rightarrow> approval_decision \<Rightarrow> gany \<Rightarrow> int
    \<Rightarrow> rresult io" where
  "decide_pending cfg ob p d proposal now =
     (let tg = decision_target d p proposal; wl = fst ob in
      bindio (if ad_label d = Reject then ret empty_layers
              else bindio (receiptContext cfg) (\<lambda>ctx. ret (approval_layers cfg ctx wl p tg))) (\<lambda>l.
      bindio (update_status (set_pending wl p ApprovalStateRecording (ad_label d), snd ob)) (\<lambda>(e, ob1).
        case e of Some x \<Rightarrow> ret (api_failed x)
        | None \<Rightarrow>
          bindio (human_receipt cfg (NewHumanRecord (cc_spec cfg) (human_params_of cfg wl p d proposal))) (\<lambda>hr.
            case hr of
              Inl _ \<Rightarrow> holdApproval (set_pending (fst ob1) p '''' '''', snd ob1) ''ReceiptFailed''
                 ''approval decision receipt could not be written and receipts are required; not acting'' 60
            | Inr rc \<Rightarrow>
                bindio (case rc of None \<Rightarrow> ret (fst ob1) | Some i \<Rightarrow> storeExample cfg (fst ob1) i) (\<lambda>wl2.
                  act_on_decision cfg (wl2, snd ob1) p d tg l (receiptSeq rc) now)))))"

definition reconcileApproval :: "controller_config \<Rightarrow> object \<Rightarrow> pending_approval \<Rightarrow> int \<Rightarrow> rresult io" where
  "reconcileApproval cfg ob p now =
     (let wl = fst ob in
      if approvalConsumed (w_status wl) (pa_id p) then
        holdApproval ob ''ApprovalReplay'' (''pending action '' @ pa_id p @ '' was already decided; not acting again'') hour
      else if pa_state p = ApprovalStateExecuting then
        finishApproval ob p (pa_decision p) ''unknown'' '''' 0 ''Failed'' ''ExecutionOutcomeUnknown''
          ''the operator stopped while executing the approved action; it was not run again'' now
      else (case Read (w_annotations wl) (pendingRef (w_uid wl) (pa_id p) (pa_proposal p)) (cc_key cfg) of
          Refused e \<Rightarrow> holdApproval ob (refusal_reason e)
            (''not acting on the approval decision: '' @ approval_error_text e) hour
        | NoDecision \<Rightarrow> ret (requeue hour)
        | Decided d \<Rightarrow>
            (case decode_map (pa_proposal p) of
               None \<Rightarrow> holdApproval ob ''PendingActionUnreadable'' ''stored proposal is unreadable'' hour
             | Some proposal \<Rightarrow> decide_pending cfg ob p d proposal now)))"

end
