(* ===== verification/DirectPath.thy ===== *)
theory DirectPath
  imports ApprovalFlow
begin

text \<open>
  internal/controller/agentworkload_controller.go, steps 2 to 7 of Reconcile: the direct
  action path. It asks the MCP server for its status and a proposal, decides, writes the
  receipt, reserves the execution with a status write of the version the decision was
  made on, and only then executes; an action that is not allowed is denied or held for
  a human decision.
\<close>

section \<open>Reading the answers of the MCP server\<close>

definition lookup_any :: "gany \<Rightarrow> string \<Rightarrow> gany option" where
  "lookup_any v k = (case v of GMap m \<Rightarrow> map_of m k | _ \<Rightarrow> None)"

definition default_health :: f64 where "default_health = Fin 75"

text \<open>The health used for the threshold and, if the agent gave one, the claimed health.\<close>

definition cluster_health :: "gany \<Rightarrow> f64 \<times> f64 option" where
  "cluster_health status = (case lookup_any status ''cluster_health'' of
       None \<Rightarrow> (default_health, None)
     | Some raw \<Rightarrow> (case parseFlexibleFloat raw of
           Inl _ \<Rightarrow> (default_health, None) | Inr h \<Rightarrow> (h, Some h)))"

record proposal_fields =
  pf_action :: string
  pf_description :: string
  pf_confidence :: f64

definition any_string :: "gany option \<Rightarrow> string option" where
  "any_string v = (case v of Some (GStr s) \<Rightarrow> Some s | _ \<Rightarrow> None)"

text \<open>The fields of a proposal; None when the handler fails the workload.\<close>

definition read_proposal :: "gany \<Rightarrow> proposal_fields option" where
  "read_proposal proposal =
     (case any_string (lookup_any proposal ''action'') of None \<Rightarrow> None
      | Some a \<Rightarrow> (case any_string (lookup_any proposal ''description'') of None \<Rightarrow> None
        | Some d \<Rightarrow> (case lookup_any proposal ''confidence'' of None \<Rightarrow> None
          | Some raw \<Rightarrow> (case parseFlexibleFloat raw of Inl _ \<Rightarrow> None
            | Inr c \<Rightarrow> (if flt c (Fin 0) \<or> flt (Fin 1) c then None
                       else Some \<lparr>pf_action = a, pf_description = d, pf_confidence = c\<rparr>)))))"

section \<open>Deciding\<close>

definition direct_input :: "agent_workload \<Rightarrow> proposal_fields \<Rightarrow> gany \<Rightarrow> f64 option \<Rightarrow> input" where
  "direct_input wl pf proposal claimed =
     (let (total, denied) = History (st_executed (w_status wl)) (st_proposed (w_status wl)) in
      \<lparr>in_declared = Declared (sp_declared_intent (w_spec wl)),
       in_observed = Observe \<lparr>f_endpoint = mcp_endpoint (w_spec wl), f_tool = pf_action pf, f_caller = '''',
         f_payload = proposal, f_prior_actions = total, f_prior_denied = denied\<rparr>,
       in_claimed = \<lparr>cl_confidence = Some (pf_confidence pf), cl_health = claimed,
         cl_intent = pf_description pf\<rparr>\<rparr>)"

definition direct_layers :: "controller_config \<Rightarrow> inv_context \<Rightarrow> agent_workload \<Rightarrow> proposal_fields \<Rightarrow> gany
    \<Rightarrow> f64 \<times> f64 option \<Rightarrow> layers" where
  "direct_layers cfg ctx wl pf proposal health =
     evaluateLayers (cc_compile cfg) ctx (sp_policy_packs (w_spec wl))
       (direct_input wl pf proposal (snd health))
       (evaluateThreshold (policy_mode (w_spec wl)) (pf_action pf) (pf_confidence pf) (fst health))"

definition confidence_text :: "proposal_fields \<Rightarrow> string" where
  "confidence_text pf = fmt_fixed 2 (pf_confidence pf)"

definition direct_payload :: "proposal_fields \<Rightarrow> gany \<Rightarrow> gany" where
  "direct_payload pf proposal = ExecutionPayload (pf_action pf) proposal (confidence_text pf)"

text \<open>Layers, model, receipt: the result the action is handled with.\<close>

definition decide_direct :: "controller_config \<Rightarrow> agent_workload \<Rightarrow> proposal_fields \<Rightarrow> gany \<Rightarrow> f64 \<times> f64 option
    \<Rightarrow> (decision_result \<times> decided) io" where
  "decide_direct cfg wl pf proposal health =
     bindio (receiptContext cfg) (\<lambda>ctx.
       let i = direct_input wl pf proposal (snd health);
           l = direct_layers cfg ctx wl pf proposal health;
           (result, block) = applyDecisionModel cfg (w_spec wl) (pf_action pf) i (Decide l)
       in recordDecision cfg wl (pf_action pf) i (direct_payload pf proposal) l result
            (policy_mode (w_spec wl)) block)"

section \<open>Acting on the result\<close>

definition set_phase :: "agent_workload \<Rightarrow> string \<Rightarrow> agent_workload" where
  "set_phase wl ph = wl\<lparr>w_status := (w_status wl)\<lparr>st_phase := ph\<rparr>\<rparr>"

text \<open>The failures before a decision: the phase is written, an error of the write only logged.\<close>

definition fail_workload :: "object \<Rightarrow> int \<Rightarrow> rresult io" where
  "fail_workload ob after = bindio (update_status (set_phase (fst ob) ''Failed'', snd ob)) (\<lambda>_. ret (requeue after))"

definition add_proposed :: "agent_workload \<Rightarrow> action \<Rightarrow> agent_workload" where
  "add_proposed wl a = wl\<lparr>w_status := (w_status wl)
     \<lparr>st_proposed := pruneActions (st_proposed (w_status wl) @ [a]) maxActionsInStatus\<rparr>\<rparr>"

definition add_executed :: "agent_workload \<Rightarrow> action \<Rightarrow> agent_workload" where
  "add_executed wl a = wl\<lparr>w_status := (w_status wl)
     \<lparr>st_executed := pruneActions (st_executed (w_status wl) @ [a]) maxActionsInStatus\<rparr>\<rparr>"

text \<open>The status of an action that was not allowed.\<close>

definition not_allowed :: "agent_workload \<Rightarrow> action \<Rightarrow> decision_result \<Rightarrow> agent_workload" where
  "not_allowed wl0 act result =
     (let wl = add_proposed wl0 (act\<lparr>a_approved := Some False\<rparr>);
          reasons = safeLogText (join ''; '' (r_reasons result)) in
      if r_outcome result = RequireApproval then
        set_condition (set_phase wl ''PendingApproval'')
          (mk_condition ''ApprovalRequired'' True
            (if r_layer result = ''model'' then ''ModelEscalation'' else ''PolicyPackApproval'')
            (''action '' @ quote (safeLogText (a_name act)) @ '' needs human approval: '' @ reasons)
            (w_generation wl))
      else if sp_opa_policy (w_spec wl) = Some ''strict'' then
        set_condition (set_phase wl ''PolicyDenied'')
          (mk_condition ''PolicyDenied'' True ''OPADenied''
            (''OPA denied action '' @ quote (safeLogText (a_name act)) @ '' ('' @ r_layer result
             @ '' layer): '' @ reasons) (w_generation wl))
      else set_phase wl ''PendingApproval'')"

text \<open>Step 6 and 7: the held action, the phase, the status write, the interval.\<close>

definition final_phase :: "string \<Rightarrow> string" where
  "final_phase ph = (if ph \<in> set [''Completed'', ''Failed'', ''PendingApproval'', ''PolicyDenied'']
     then ph else ''Running'')"

definition finish_direct :: "controller_config \<Rightarrow> object \<Rightarrow> action \<Rightarrow> gany \<Rightarrow> f64 \<times> f64 option \<Rightarrow> decided
    \<Rightarrow> int \<Rightarrow> rresult io" where
  "finish_direct cfg ob act proposal health d now =
     (let wl = fst ob;
          pend = (if st_phase (w_status wl) = PhasePendingApproval
                  then (case newPendingApproval cfg wl act proposal (fst health) (snd health) d now of
                          Inl _ \<Rightarrow> None | Inr p \<Rightarrow> Some p)
                  else None);
          ph = final_phase (st_phase (w_status wl));
          st = (w_status wl)\<lparr>st_pending := pend, st_phase := ph, st_last_reconcile := Some now,
                 st_ready_agents := int (length (sp_agents (w_spec wl)))\<rparr>
      in bindio (update_status (set_status wl st, snd ob)) (\<lambda>(e, ob').
           case e of Some _ \<Rightarrow> ret (requeue 30)
           | None \<Rightarrow> ret (requeue (if ph = ''PendingApproval'' \<or> ph = ''PolicyDenied'' then hour else 30))))"

definition act_direct :: "controller_config \<Rightarrow> object \<Rightarrow> proposal_fields \<Rightarrow> gany \<Rightarrow> f64 \<times> f64 option
    \<Rightarrow> decision_result \<Rightarrow> decided \<Rightarrow> int \<Rightarrow> rresult io" where
  "act_direct cfg ob pf proposal health result d now =
     (let act = \<lparr>a_name = pf_action pf, a_description = pf_description pf, a_confidence = confidence_text pf,
                 a_timestamp = Some now, a_approved = None\<rparr> in
      if r_outcome result = Allow then
        bindio (reserveExecution ob (a_name act) d) (\<lambda>(e, ob1). case e of
            Some Conflict \<Rightarrow> ret (requeue 1)
          | Some x \<Rightarrow> ret (api_failed x)
          | None \<Rightarrow>
              bindio (CallTool Direct ''execute_action'' (direct_payload pf proposal)) (\<lambda>res.
                finish_direct cfg
                  ((case res of
                      Inl _ \<Rightarrow> add_proposed (set_phase (fst ob1) ''Failed'') (act\<lparr>a_approved := Some False\<rparr>)
                    | Inr _ \<Rightarrow> set_phase (add_executed (fst ob1) (act\<lparr>a_approved := Some True\<rparr>)) ''Completed''),
                   snd ob1)
                  (act\<lparr>a_approved := Some (\<not> isl res)\<rparr>) proposal health d now))
      else finish_direct cfg (not_allowed (fst ob) act result, snd ob) (act\<lparr>a_approved := Some False\<rparr>)
             proposal health d now)"

definition direct_action :: "controller_config \<Rightarrow> object \<Rightarrow> int \<Rightarrow> rresult io" where
  "direct_action cfg ob now =
     bindio (CallTool Direct ''get_status'' (GMap [])) (\<lambda>st. case st of
       Inl _ \<Rightarrow> fail_workload ob 30
     | Inr status \<Rightarrow>
         (let health = cluster_health status;
              objective = (case sp_objective (w_spec (fst ob)) of None \<Rightarrow> '''' | Some s \<Rightarrow> s) in
          bindio (CallTool Direct ''propose_action''
                    (GMap [(''objective'', GStr objective), (''status'', status)])) (\<lambda>pr. case pr of
            Inl _ \<Rightarrow> fail_workload ob 30
          | Inr proposal \<Rightarrow>
              (case read_proposal proposal of
                 None \<Rightarrow> fail_workload ob 30
               | Some pf \<Rightarrow>
                   bindio (decide_direct cfg (fst ob) pf proposal health) (\<lambda>(result, d).
                     act_direct cfg ob pf proposal health result d now)))))"

end
