(* ===== verification/RunLogic.thy ===== *)
theory RunLogic
  imports Reconcile
begin

text \<open>
  Reasoning about handler runs. A triple \<^term>\<open>runs\<close> says what holds of the world when the
  handler returns and, since it can stop at every effect, when it does not. The
  environment's step, an edit of a user, keeps the status and the log and raises the version
  when it changes anything: an assertion on those is steady. The locale holds the rules for an
  invariant on the held action and the log; every part of the controller in front of
  an execution keeps any such invariant.
\<close>

section \<open>Triples\<close>

definition runs :: "(world \<Rightarrow> bool) \<Rightarrow> (world \<Rightarrow> bool) \<Rightarrow> 'a io \<Rightarrow> ('a \<Rightarrow> world \<Rightarrow> bool) \<Rightarrow> bool" where
  "runs C P m Q \<longleftrightarrow> (\<forall>w. P w \<longrightarrow> (case m w of (None, w') \<Rightarrow> C w' | (Some x, w') \<Rightarrow> Q x w'))"

definition env :: "world \<Rightarrow> world \<Rightarrow> bool" where
  "env w w' \<longleftrightarrow> wd_log w' = wd_log w \<and> w_status (wd_stored w') = w_status (wd_stored w)
     \<and> wd_version w \<le> wd_version w' \<and> (wd_version w' = wd_version w \<longrightarrow> wd_stored w' = wd_stored w)"

definition steady :: "(world \<Rightarrow> bool) \<Rightarrow> bool" where
  "steady P \<longleftrightarrow> (\<forall>w w'. P w \<longrightarrow> env w w' \<longrightarrow> P w')"

lemma steadyI: "(\<And>w w'. P w \<Longrightarrow> env w w' \<Longrightarrow> P w') \<Longrightarrow> steady P"
  by (auto simp: steady_def)

lemma steadyD: "steady P \<Longrightarrow> P w \<Longrightarrow> env w w' \<Longrightarrow> P w'"
  by (auto simp: steady_def)

lemma steady_conj [intro]: "steady P \<Longrightarrow> steady Q \<Longrightarrow> steady (\<lambda>w. P w \<and> Q w)"
  by (auto simp: steady_def)

lemma steady_log [intro]: "steady (\<lambda>w. F (wd_log w))"
  by (auto simp: steady_def env_def)

lemma steady_const [intro]: "steady (\<lambda>w. b)"
  by (auto simp: steady_def)

lemma env_tick: "env w (apply_edit e (w\<lparr>wd_ticks := ts\<rparr>))"
  by (auto simp: env_def apply_edit_def split: option.splits)

lemma runs_pre: "runs C P m Q \<Longrightarrow> (\<And>w. P' w \<Longrightarrow> P w) \<Longrightarrow> runs C P' m Q"
  by (auto simp: runs_def)

lemma runs_conseq:
  assumes "runs C P m Q" "\<And>w. P' w \<Longrightarrow> P w" "\<And>w. C w \<Longrightarrow> C' w" "\<And>x w. Q x w \<Longrightarrow> Q' x w"
  shows "runs C' P' m Q'"
  using assms by (fastforce simp: runs_def split: prod.splits option.splits)

lemma runs_assume: "(\<And>w. P w \<Longrightarrow> b) \<Longrightarrow> (b \<Longrightarrow> runs C P m Q) \<Longrightarrow> runs C P m Q"
  by (cases b) (auto simp: runs_def)

lemma runs_ret: "(\<And>w. P w \<Longrightarrow> Q x w) \<Longrightarrow> runs C P (ret x) Q"
  by (auto simp: runs_def ret_def)

lemma runs_bind: "runs C P m R \<Longrightarrow> (\<And>x. runs C (R x) (f x) Q) \<Longrightarrow> runs C P (bindio m f) Q"
  by (fastforce simp: runs_def bindio_def split: prod.splits option.splits)

lemma runs_tick:
  "steady P \<Longrightarrow> (\<And>w. P w \<Longrightarrow> C w) \<Longrightarrow> runs C P next_tick (\<lambda>_. P)"
  by (auto simp: runs_def next_tick_def steady_def env_tick split: list.splits)

lemma runs_if: "(b \<Longrightarrow> runs C P m Q) \<Longrightarrow> (\<not> b \<Longrightarrow> runs C P n Q) \<Longrightarrow> runs C P (if b then m else n) Q"
  by simp

lemma runs_sum:
  "(\<And>e. x = Inl e \<Longrightarrow> runs C P (f e) Q) \<Longrightarrow> (\<And>v. x = Inr v \<Longrightarrow> runs C P (g v) Q)
     \<Longrightarrow> runs C P (case x of Inl e \<Rightarrow> f e | Inr v \<Rightarrow> g v) Q"
  by (cases x) auto

lemma runs_option:
  "(x = None \<Longrightarrow> runs C P m Q) \<Longrightarrow> (\<And>v. x = Some v \<Longrightarrow> runs C P (f v) Q)
     \<Longrightarrow> runs C P (case x of None \<Rightarrow> m | Some v \<Rightarrow> f v) Q"
  by (cases x) auto

lemma runs_read:
  "steady P \<Longrightarrow> (\<And>w. P w \<Longrightarrow> C w) \<Longrightarrow> (\<And>t. runs C P (f t) Q) \<Longrightarrow> runs C P (bindio next_tick f) Q"
  by (rule runs_bind [OF runs_tick])

section \<open>The effects\<close>

definition written :: "world \<Rightarrow> agent_workload \<Rightarrow> world" where
  "written w st = w\<lparr>wd_stored := st, wd_version := wd_version w + 1\<rparr>"

definition with_status :: "agent_workload \<Rightarrow> agent_workload \<Rightarrow> agent_workload" where
  "with_status st wl = st\<lparr>w_status := w_status wl\<rparr>"

lemma runs_update_status:
  assumes "steady P" "\<And>w. P w \<Longrightarrow> C w"
    and "\<And>w e. P w \<Longrightarrow> Q (Some e, ob) w"
    and "\<And>w. P w \<Longrightarrow> snd ob = wd_version w \<Longrightarrow>
           Q (Some ApiError, ob) (written w (with_status (wd_stored w) (fst ob)))"
    and "\<And>w. P w \<Longrightarrow> snd ob = wd_version w \<Longrightarrow> Q (None, (with_status (wd_stored w) (fst ob), wd_version w + 1))
           (written w (with_status (wd_stored w) (fst ob)))"
  shows "runs C P (update_status ob) Q"
  unfolding update_status_def
proof (rule runs_read [OF assms(1,2)], assumption)
  fix t show "runs C P (\<lambda>w. if snd ob \<noteq> wd_version w then ret (Some Conflict, ob) w
     else if \<not> tk_done t then ret (Some ApiError, ob) w
     else let st = (wd_stored w)\<lparr>w_status := w_status (fst ob)\<rparr>;
              w1 = w\<lparr>wd_stored := st, wd_version := wd_version w + 1\<rparr>
          in ret (if tk_ok t then (None, (st, wd_version w + 1)) else (Some ApiError, ob)) w1) Q"
    using assms(3-) by (auto simp: runs_def Let_def ret_def written_def with_status_def)
qed

lemma runs_update_object:
  assumes "steady P" "\<And>w. P w \<Longrightarrow> C w"
    and "\<And>w e. P w \<Longrightarrow> Q (Some e, ob) w"
    and "\<And>w. P w \<Longrightarrow> snd ob = wd_version w \<Longrightarrow>
           Q (Some ApiError, ob) (written w (with_status (fst ob) (wd_stored w)))"
    and "\<And>w. P w \<Longrightarrow> snd ob = wd_version w \<Longrightarrow> Q (None, (with_status (fst ob) (wd_stored w), wd_version w + 1))
           (written w (with_status (fst ob) (wd_stored w)))"
  shows "runs C P (update_object ob) Q"
  unfolding update_object_def
proof (rule runs_read [OF assms(1,2)], assumption)
  fix t show "runs C P (\<lambda>w. if snd ob \<noteq> wd_version w then ret (Some Conflict, ob) w
     else if \<not> tk_done t then ret (Some ApiError, ob) w
     else let st = (fst ob)\<lparr>w_status := w_status (wd_stored w)\<rparr>;
              w1 = w\<lparr>wd_stored := st, wd_version := wd_version w + 1\<rparr>
          in ret (if tk_ok t then (None, (st, wd_version w + 1)) else (Some ApiError, ob)) w1) Q"
    using assms(3-) by (auto simp: runs_def Let_def ret_def written_def with_status_def)
qed

definition annotated :: "agent_workload \<Rightarrow> string \<Rightarrow> string \<Rightarrow> agent_workload" where
  "annotated wl k v = wl\<lparr>w_annotations := (w_annotations wl)(k \<mapsto> v)\<rparr>"

lemma runs_patch:
  assumes "steady P" "\<And>w. P w \<Longrightarrow> C w"
    and "\<And>w. P w \<Longrightarrow> Q (annotated (fst ob) k v, snd ob) w"
    and "\<And>w. P w \<Longrightarrow> Q (annotated (fst ob) k v, snd ob) (written w (annotated (wd_stored w) k v))"
    and "\<And>w. P w \<Longrightarrow> Q (annotated (wd_stored w) k v, wd_version w + 1) (written w (annotated (wd_stored w) k v))"
  shows "runs C P (patch_annotation ob k v) Q"
  unfolding patch_annotation_def
proof (rule runs_read [OF assms(1,2)], assumption)
  fix t show "runs C P (\<lambda>w. if \<not> tk_done t
       then ret ((fst ob)\<lparr>w_annotations := (w_annotations (fst ob))(k \<mapsto> v)\<rparr>, snd ob) w
     else let st = (wd_stored w)\<lparr>w_annotations := (w_annotations (wd_stored w))(k \<mapsto> v)\<rparr>;
              w1 = w\<lparr>wd_stored := st, wd_version := wd_version w + 1\<rparr>
          in ret (if tk_ok t then (st, wd_version w + 1)
                  else ((fst ob)\<lparr>w_annotations := (w_annotations (fst ob))(k \<mapsto> v)\<rparr>, snd ob)) w1) Q"
    using assms(3-) by (auto simp: runs_def Let_def ret_def written_def annotated_def)
qed

definition logged :: "world \<Rightarrow> event \<Rightarrow> world" where
  "logged w e = w\<lparr>wd_log := wd_log w @ [e]\<rparr>"

lemma runs_append:
  assumes "steady P" "\<And>w. P w \<Longrightarrow> C w"
    and "\<And>w e. P w \<Longrightarrow> Q (Inl e) w"
    and "\<And>w e. P w \<Longrightarrow> Q (Inl e) (logged w (EvReceipt rec))"
    and "\<And>w i. P w \<Longrightarrow> Q (Inr i) (logged w (EvReceipt rec))"
  shows "runs C P (writer_append entry rec) Q"
  unfolding writer_append_def
proof (rule runs_read [OF assms(1,2)], assumption)
  fix t show "runs C P (\<lambda>w. if \<not> tk_done t then ret (Inl ''append'') w
     else let seq = int (length (receipts_of (wd_log w))) + 1;
              w1 = w\<lparr>wd_log := wd_log w @ [EvReceipt rec]\<rparr>
          in ret (if tk_ok t then Inr \<lparr>is_seq = seq, is_entry = entry seq rec\<rparr> else Inl ''append'') w1) Q"
    using assms(3,4,5) by (auto simp: runs_def Let_def ret_def logged_def)
qed

lemma runs_ready:
  "steady P \<Longrightarrow> (\<And>w. P w \<Longrightarrow> C w) \<Longrightarrow> runs C P writer_ready (\<lambda>_. P)"
  unfolding writer_ready_def by (rule runs_read) (auto intro: runs_ret)

lemma runs_post:
  assumes "steady P" "\<And>w. P w \<Longrightarrow> C w" "\<And>w e. P w \<Longrightarrow> Q (Inl e) w" "\<And>w r. P w \<Longrightarrow> Q r (logged w (EvPost org tool g))"
  shows "runs C P (post org tool g) Q"
  unfolding post_def
proof (rule runs_read [OF assms(1,2)], assumption)
  fix t show "runs C P (\<lambda>w. if \<not> tk_done t then ret (Inl ''failed to call tool'') w
     else ret (if tk_ok t then Inr (tk_num t, tk_body t) else Inl ''failed to call tool'')
            (w\<lparr>wd_log := wd_log w @ [EvPost org tool g]\<rparr>)) Q"
    using assms(3,4) by (auto simp: runs_def ret_def logged_def)
qed

text \<open>A call is at most three posts: an assertion indexed by the posts that are left.\<close>

lemma runs_call_loop:
  assumes "\<And>k. steady (P k)" "\<And>k w. P k w \<Longrightarrow> C w" "\<And>k w. P (Suc k) w \<Longrightarrow> P k (logged w (EvPost org tool g))"
    and "\<And>k w. P k w \<Longrightarrow> Q w"
  shows "runs C (P (Suc n)) (call_loop n org tool g) (\<lambda>_. Q)"
proof (induct n)
  case 0
  have "Q (logged w (EvPost org tool g))" if "P (Suc 0) w" for w using assms(3,4) that by blast
  then show ?case using assms by (auto intro!: runs_post)
next
  case (Suc n)
  have p: "runs C (P (Suc (Suc n))) (post org tool g) (\<lambda>r w. Q w \<and> (\<not> isl r \<longrightarrow> P (Suc n) w))"
    by (rule runs_post) (use assms(1,2,4) in \<open>auto intro: assms(3) assms(4) [OF assms(3)]\<close>)
  show ?case unfolding call_loop.simps
  proof (rule runs_bind [OF p], goal_cases)
    case (1 r)
    have "runs C (P (Suc n)) (if retryableStatus s then call_loop n org tool g else ret (Inr (s, b))) (\<lambda>_. Q)" for s b
      by (simp add: Suc) (intro impI runs_ret, rule assms(4))
    then show ?case by (cases r) (auto intro!: runs_ret intro: runs_pre)
  qed
qed

lemma runs_CallTool:
  assumes "\<And>k. steady (P k)" "\<And>k w. P k w \<Longrightarrow> C w" "\<And>k w. P (Suc k) w \<Longrightarrow> P k (logged w (EvPost org tool g))"
    and "\<And>k w. P k w \<Longrightarrow> Q w"
  shows "runs C (P (Suc maxRetries)) (CallTool org tool g) (\<lambda>_. Q)"
  unfolding CallTool_def
  by (auto split: option.split sum.split intro!: runs_ret runs_bind [OF runs_call_loop [of P, OF assms]] intro: assms(4))

text \<open>An assertion the post keeps.\<close>

lemma runs_CallTool_keep:
  assumes "steady P" "\<And>w. P w \<Longrightarrow> C w" "\<And>w. P w \<Longrightarrow> P (logged w (EvPost org tool g))"
  shows "runs C P (CallTool org tool g) (\<lambda>_. P)"
  by (rule runs_CallTool [of "\<lambda>_. P", simplified]) (use assms in auto)

section \<open>Invariants of the held action and the log\<close>

definition held_by :: "agent_workload \<Rightarrow> pending_approval option" where
  "held_by wl = st_pending (w_status wl)"

type_synonym held_pred = "pending_approval option \<Rightarrow> event list \<Rightarrow> bool"

definition keeps :: "held_pred \<Rightarrow> world \<Rightarrow> bool" where
  "keeps K w \<longleftrightarrow> K (held_by (wd_stored w)) (wd_log w)"

text \<open>A local object: if it is not stale, writing its status keeps the invariant.\<close>

definition fits :: "held_pred \<Rightarrow> object \<Rightarrow> world \<Rightarrow> bool" where
  "fits K ob w \<longleftrightarrow> snd ob \<le> wd_version w \<and> (snd ob = wd_version w \<longrightarrow> K (held_by (fst ob)) (wd_log w))"

definition sound :: "held_pred \<Rightarrow> object \<Rightarrow> world \<Rightarrow> bool" where
  "sound K ob w \<longleftrightarrow> keeps K w \<and> fits K ob w"

lemma steady_keeps [intro]: "steady (keeps K)"
  by (auto simp: steady_def env_def keeps_def held_by_def)

lemma steady_fits [intro]: "steady (fits K ob)"
  by (auto simp: steady_def env_def fits_def)

lemma steady_sound [intro]: "steady (sound K ob)"
  using steady_conj [OF steady_keeps steady_fits] by (simp add: sound_def [abs_def])

lemma sound_keeps: "sound K ob w \<Longrightarrow> keeps K w"
  by (simp add: sound_def)

lemma sound_cong: "held_by (fst ob') = held_by (fst ob) \<Longrightarrow> snd ob' = snd ob \<Longrightarrow> sound K ob w \<Longrightarrow> sound K ob' w"
  by (simp add: sound_def fits_def)

lemma held_set [simp]:
  "held_by (set_condition wl c) = held_by wl" "held_by (set_phase wl ph) = held_by wl"
  "held_by (set_argo_phase wl ph) = held_by wl" "held_by (set_routing_op wl op) = held_by wl"
  "held_by (annotated wl k v) = held_by wl" "held_by (add_proposed wl a) = held_by wl"
  "held_by (add_executed wl a) = held_by wl" "held_by (not_allowed wl a r) = held_by wl"
  "held_by (w_finalizers_update f wl) = held_by wl" "held_by (map_phase wl ph) = held_by wl"
  "held_by (set_pending wl p s d) = Some (p\<lparr>pa_state := s, pa_decision := d\<rparr>)"
  "held_by (set_status wl st) = st_pending st"
  "held_by (with_status wl1 wl) = held_by wl"
  by (simp_all add: held_by_def set_condition_def set_phase_def set_argo_phase_def set_routing_op_def annotated_def
      add_proposed_def add_executed_def not_allowed_def Let_def map_phase_def set_pending_def set_status_def
      with_status_def)

lemma held_apply_sandbox [simp]: "held_by (apply_sandbox rc wl so) = held_by wl"
  by (auto simp: apply_sandbox_def Let_def held_by_def set_condition_def split: prod.splits option.splits bool.splits)

lemma adapter_status_runs: "steady P \<Longrightarrow> (\<And>w. P w \<Longrightarrow> C w) \<Longrightarrow> runs C P adapter_status (\<lambda>_. P)"
  unfolding adapter_status_def by (rule runs_read) (auto intro: runs_ret)

lemma persona_runs: "steady P \<Longrightarrow> (\<And>w. P w \<Longrightarrow> C w) \<Longrightarrow> runs C P (reconcilePersonaNamespaceLabels wl) (\<lambda>_. P)"
  unfolding reconcilePersonaNamespaceLabels_def by (auto intro: runs_ret runs_read)

lemma cleanup_runs: "steady P \<Longrightarrow> (\<And>w. P w \<Longrightarrow> C w) \<Longrightarrow> runs C P (cleanupViaRuntime rc wl) (\<lambda>_. P)"
  unfolding cleanupViaRuntime_def
  by (auto intro!: runs_ret runs_bind [OF adapter_status_runs] split: option.split sum.split)

text \<open>
  Steps of a handler under an invariant. A handler that stops in between leaves a world
  with the crash assertion, which may be weaker.
\<close>

locale guarded =
  fixes K :: held_pred and C :: "world \<Rightarrow> bool"
  assumes crash: "keeps K w \<Longrightarrow> C w"
begin

lemma sound_crash: "sound K ob w \<Longrightarrow> C w"
  by (simp add: sound_keeps crash)

lemma observe_held:
  "runs C (sound K (wl, v)) (observeSandboxStatus rc wl den) (\<lambda>wl1. sound K (wl1, v))"
proof -
  have s: "sound K (apply_sandbox rc wl so, v) w" if "sound K (wl, v) w" for so w
    by (rule sound_cong [OF _ _ that]) auto
  show ?thesis unfolding observeSandboxStatus_def Let_def
    by (auto intro!: runs_ret runs_read s simp: sound_keeps sound_crash)
qed

lemma update_held:
  "runs C (sound K ob) (update_status ob)
     (\<lambda>(e, ob1) w. keeps K w \<and> (e = None \<longrightarrow> sound K ob1 w \<and> w_status (fst ob1) = w_status (fst ob)))"
  by (rule runs_update_status [OF steady_sound sound_crash], assumption)
    (auto simp: keeps_def written_def sound_def fits_def with_status_def held_by_def)

lemma update_object_held:
  "runs C (sound K ob) (update_object ob) (\<lambda>(e, ob1) w. keeps K w \<and> (e = None \<longrightarrow> sound K ob1 w))"
  by (rule runs_update_object [OF steady_sound sound_crash], assumption)
    (auto simp: keeps_def written_def sound_def fits_def with_status_def held_by_def)

lemma patch_held: "runs C (sound K ob) (patch_annotation ob k v) (sound K)"
  by (rule runs_patch [OF steady_sound sound_crash], assumption) (auto simp: keeps_def written_def sound_def fits_def annotated_def held_by_def)

text \<open>The ends of a handler: a last status write.\<close>

lemma write_then_held:
  assumes "\<And>x w. keeps K w \<Longrightarrow> Q x w"
  shows "runs C (sound K ob) (write_then ob a b) Q"
  unfolding write_then_def by (rule runs_bind [OF update_held]) (auto intro!: runs_ret assms split: prod.split)

lemma fail_workload_held:
  assumes "\<And>x w. keeps K w \<Longrightarrow> Q x w"
  shows "runs C (sound K ob) (fail_workload ob n) Q"
  unfolding fail_workload_def
  by (rule runs_bind [OF runs_pre [OF update_held]]) (auto intro!: runs_ret assms elim: sound_cong [rotated 2])

lemma status_or_error_held:
  assumes "\<And>x w. keeps K w \<Longrightarrow> Q x w" "\<And>ob1. runs C (sound K ob1) (k ob1) Q"
  shows "runs C (sound K ob) (status_or_error ob k) Q"
  unfolding status_or_error_def
  by (rule runs_bind [OF update_held]) (auto intro!: runs_ret assms intro: runs_pre [OF assms(2)] split: option.split prod.split)

text \<open>The gates and the runtime path keep the invariant.\<close>

lemma observe_write:
  assumes "\<And>x w. keeps K w \<Longrightarrow> Q x w" "held_by wl = held_by (fst ob)" "v = snd ob"
    and "\<And>wl1. held_by (f wl1) = held_by wl1"
  shows "runs C (sound K ob) (bindio (observeSandboxStatus rc wl den) (\<lambda>wl1. write_then (f wl1, v) a b)) Q"
proof -
  have "runs C (sound K (wl1, v)) (write_then (f wl1, v) a b) Q" for wl1
    using assms by (intro runs_pre [OF write_then_held]) (auto elim!: sound_cong [rotated 2])
  from runs_bind [OF observe_held this] show ?thesis
    by (rule runs_pre) (auto simp: assms elim!: sound_cong [rotated 2])
qed

lemma runtime_held:
  assumes "\<And>x w. keeps K w \<Longrightarrow> Q x w"
  shows "runs C (sound K ob) (reconcileViaRuntime rc ob now) Q"
proof -
  have ow: "runs C (sound K ob) (bindio (observeSandboxStatus rc wl den) (\<lambda>wl1. write_then (f wl1, snd ob) a b)) Q"
    if "held_by wl = held_by (fst ob)" "\<And>wl1. held_by (f wl1) = held_by wl1" for wl den f a b
    using observe_write [OF assms that(1) refl that(2)] .
  have wt: "runs C (sound K ob) (write_then (wl, snd ob) a b) Q" if "held_by wl = held_by (fst ob)" for wl a b
    using that by (intro runs_pre [OF write_then_held [OF assms]]) (auto elim!: sound_cong [rotated 2])
  show ?thesis unfolding reconcileViaRuntime_def Let_def
    by (auto simp: held_by_def [of "w_status_update f wl" for f wl] simp flip: held_by_def
        intro!: fail_workload_held assms runs_bind [OF adapter_status_runs] wt ow sound_keeps sound_crash
        split: sum.split)
qed

text \<open>Model routing: no status write but the intent, and the cost annotation.\<close>

lemma cost_held: "runs C (sound K ob) (updateWorkloadCostAnnotation ob) (sound K)"
  unfolding updateWorkloadCostAnnotation_def
  by (auto intro!: runs_read runs_ret patch_held simp: sound_keeps sound_crash)

lemma route_held: "runs C (sound K ob) (routeAndCallModel rc ob) (\<lambda>(r, ob1). sound K ob1)"
proof -
  have c: "runs C (sound K ob) (bindio (updateWorkloadCostAnnotation ob) (\<lambda>ob1. ret (Inr (Some i), ob1)))
      (\<lambda>(r, ob1). sound K ob1)" for i :: routing_info
    by (rule runs_bind [OF cost_held]) (auto intro: runs_ret)
  show ?thesis unfolding routeAndCallModel_def Let_def
    by (auto intro!: runs_ret runs_read c simp: sound_keeps sound_crash split: prod.split sum.split)
qed

lemma attempts_held: "runs C (sound K ob) (route_attempts n rc ob) (\<lambda>(r, ob1). sound K ob1)"
proof (induct n arbitrary: ob)
  case 0 show ?case by (simp add: route_held)
next
  case (Suc n)
  have "runs C (sound K ob1) (bindio next_tick (\<lambda>delay.
      if tk_ok delay then route_attempts n rc ob1 else ret (Inl (tk_text delay), ob1))) (\<lambda>(r, ob1). sound K ob1)" for ob1
    by (auto intro!: runs_ret runs_read Suc simp: sound_keeps sound_crash)
  then show ?case unfolding route_attempts.simps
    by (intro runs_bind [OF route_held]) (auto intro!: runs_ret split: prod.split sum.split)
qed

lemma intent_held:
  "runs C (sound K ob) (persistModelRoutingIntent ob)
     (\<lambda>(op, ob1) w. keeps K w \<and> (op \<noteq> None \<longrightarrow> sound K ob1 w))"
  unfolding persistModelRoutingIntent_def Let_def
  by (auto intro!: runs_ret runs_bind [OF runs_pre [OF update_held]] simp: sound_keeps sound_crash elim!: sound_cong [rotated 2])

end

text \<open>The controller up to the choice of the path.\<close>

locale gated_run = guarded +
  fixes Q :: "rresult \<Rightarrow> world \<Rightarrow> bool" and rc :: reconcile_config and now :: int
  assumes finish: "keeps K w \<Longrightarrow> Q x w"
    and acts: "runs C (sound K ob) (reconcile_action rc ob now) Q"
begin

lemma routing: "runs C (sound K ob) (reconcile_routing rc ob now) Q"
proof -
  have w: "runs C (sound K ob2) (write_then (routed_workload (fst ob2) op i, snd ob2) a b) Q" for ob2 op i a b
    by (rule runs_pre [OF write_then_held [OF finish]]) (auto simp: routed_workload_def elim!: sound_cong [rotated 2])
  note w' = w [of "(wl, v)" for wl v, simplified]
  have a: "runs C (sound K ob1) (bindio (route_attempts n rc ob1) (\<lambda>(r, ob2). case r of
              Inl _ \<Rightarrow> fail_workload ob2 30
            | Inr None \<Rightarrow> reconcile_action rc ob2 now
            | Inr (Some i) \<Rightarrow> write_then (routed_workload (fst ob2) op i, snd ob2) x y)) Q" for n ob1 op x y
    by (rule runs_bind [OF attempts_held])
      (auto intro!: acts w' fail_workload_held finish split: prod.split sum.split option.split)
  show ?thesis unfolding reconcile_routing_def
    by (auto intro!: acts runs_ret finish runs_bind [OF intent_held] intro: runs_pre [OF a] simp: sound_keeps sound_crash
        split: prod.split option.split)
qed

lemma quota: "runs C (sound K ob) (reconcile_quota rc ob now) Q"
  unfolding reconcile_quota_def
  by (auto intro!: routing runs_read fail_workload_held finish simp: sound_keeps sound_crash)

lemma licence: "runs C (sound K ob) (reconcile_licence rc ob now) Q"
proof -
  have l: "runs C (sound K ob) (case rc_licence rc n of
             Some _ \<Rightarrow> bindio (update_status (set_phase (fst ob) ''Failed'', snd ob)) (\<lambda>_. ret done_result)
           | None \<Rightarrow> reconcile_quota rc ob now) Q" for n
  proof (cases "rc_licence rc n")
    case (Some e)
    show ?thesis unfolding Some option.case
      by (rule runs_bind [OF runs_pre [OF update_held]]) (auto intro!: runs_ret finish elim!: sound_cong [rotated 2])
  qed (simp add: quota)
  show ?thesis unfolding reconcile_licence_def
  proof (rule runs_bind [of _ _ _ "\<lambda>_. sound K ob"])
    show "runs C (sound K ob) (case n of None \<Rightarrow> ret (api_failed ApiError)
       | Some n \<Rightarrow> (case rc_licence rc n of
             Some _ \<Rightarrow> bindio (update_status (set_phase (fst ob) ''Failed'', snd ob)) (\<lambda>_. ret done_result)
           | None \<Rightarrow> reconcile_quota rc ob now)) Q" for n
      using l by (cases n) (auto intro!: runs_ret finish simp: sound_keeps sound_crash simp del: split_paired_All)
  qed (auto intro!: runs_ret runs_read simp: sound_keeps sound_crash)
qed

lemma packs: "runs C (sound K ob) (reconcile_packs rc ob now) Q"
proof -
  have s: "runs C (sound K ob) (status_or_error (set_condition (set_phase (fst ob) ph) c, snd ob) (\<lambda>_. ret r)) Q"
    for ph c r
    by (rule runs_pre [OF status_or_error_held])
      (auto intro!: finish runs_ret simp: sound_keeps sound_crash elim!: sound_cong [rotated 2])
  have r: "runs C (sound K ob) (reconcileViaRuntime rc (wl, snd ob) now) Q"
    if "held_by wl = held_by (fst ob)" for wl
    using that by (intro runs_pre [OF runtime_held]) (auto intro: finish elim!: sound_cong [rotated 2])
  have l: "runs C (sound K ob) (bindio (reconcilePersonaNamespaceLabels wl) (\<lambda>labelled.
              if labelled then reconcile_licence rc (wl, snd ob) now else ret (requeue 30))) Q"
    if "held_by wl = held_by (fst ob)" for wl
    using that by (intro runs_bind [OF persona_runs])
      (auto intro!: runs_pre [OF licence] runs_ret finish simp: sound_keeps sound_crash elim!: sound_cong [rotated 2])
  note this = s r l r [of "fst ob", simplified] l [of "fst ob", simplified]
  then show ?thesis unfolding reconcile_packs_def Let_def by auto
qed

lemma finalizer: "runs C (sound K ob) (reconcile_finalizer rc ob now) Q"
  unfolding reconcile_finalizer_def Let_def
  by (auto intro!: packs runs_bind [OF runs_pre [OF update_object_held]] runs_ret finish intro: runs_pre [OF packs]
      split: prod.split option.split elim!: sound_cong [rotated 2])

lemma reconciles: "runs C (sound K ob) (Reconcile rc ob now) Q"
proof -
  have d: "runs C (sound K ob) (reconcile_deletion rc ob) Q"
    unfolding reconcile_deletion_def Let_def
    by (auto intro!: runs_ret finish runs_bind [OF cleanup_runs] runs_bind [OF runs_pre [OF update_object_held]]
        simp: sound_keeps sound_crash split: option.split elim!: sound_cong [rotated 2])
  have s: "runs C (sound K ob) (status_or_error (wl, snd ob) k) Q"
    if "held_by wl = held_by (fst ob)" "\<And>ob1. runs C (sound K ob1) (k ob1) Q" for wl k
    using that by (intro runs_pre [OF status_or_error_held]) (auto intro: finish elim!: sound_cong [rotated 2])
  show ?thesis unfolding Reconcile_def reconcile_template_def Let_def
    by (auto intro!: d s finalizer runs_ret finish simp: sound_keeps sound_crash)
qed

end

end
