(* ===== verification/ActionLogic.thy ===== *)
theory ActionLogic
  imports RunLogic
begin

text \<open>
  The two paths that execute an action, under an invariant of the held action and the log that
  receipts and requests other than an execution keep. What is particular to an
  invariant, the execution itself, is an assumption of the locales: it is entered with
  the receipt that authorises it in the log when the configuration requires receipts.
\<close>

section \<open>Receipts that authorise an execution\<close>

definition authorises :: "decision_record \<Rightarrow> origin \<Rightarrow> gany \<Rightarrow> bool" where
  "authorises r org g \<longleftrightarrow> PayloadSHA256 g = Inr (dr_payload_sha256 r) \<and> (case org of
       Direct \<Rightarrow> dr_outcome r = OutcomeAllow
     | ForPending i \<Rightarrow> (dr_outcome r = OutcomeApproved \<or> dr_outcome r = OutcomeEdited)
         \<and> (case dr_approval r of None \<Rightarrow> False | Some a \<Rightarrow> ab_pending_id a = i))"

definition strict_receipts :: "controller_config \<Rightarrow> bool" where
  "strict_receipts cfg \<longleftrightarrow> cc_enabled cfg \<and> cc_required cfg"

text \<open>When receipts are required, the log has one that authorises this execution.\<close>

definition receipted :: "controller_config \<Rightarrow> origin \<Rightarrow> gany \<Rightarrow> world \<Rightarrow> bool" where
  "receipted cfg org g w \<longleftrightarrow>
     (strict_receipts cfg \<longrightarrow> (\<exists>r\<in>set (receipts_of (wd_log w)). authorises r org g))"

lemma steady_receipted [intro]: "steady (receipted cfg org g)"
  by (auto simp: steady_def env_def receipted_def)

lemma receipts_of_append [simp]: "receipts_of (l @ l') = receipts_of l @ receipts_of l'"
  by (simp add: receipts_of_def)

lemma receipts_of_single [simp]:
  "receipts_of [EvReceipt r] = [r]" "receipts_of [EvPost org tool g] = []"
  by (simp_all add: receipts_of_def)

lemma newRecord_payload:
  "newRecord cfg wl a i g l res mode m = Inr r \<Longrightarrow>
     PayloadSHA256 g = Inr (dr_payload_sha256 r) \<and> map_outcome (r_outcome res) = Inr (dr_outcome r)"
  by (auto simp: newRecord_def NewDecisionRecord_def bind_err_def build_record_def Let_def mapResult_def
      split: sum.splits prod.splits)

lemma human_record_authorises:
  assumes "NewHumanRecord rs (human_params_of cfg wl p d proposal) = Inr r" "ad_label d \<noteq> Reject"
  shows "authorises r (ForPending (pa_id p)) (ExecutionPayload (tg_name (decision_target d p proposal))
           (tg_payload (decision_target d p proposal)) (pa_confidence p))"
  using assms
  by (auto simp: NewHumanRecord_def bind_err_def Let_def human_params_of_def authorises_def NewDecisionRecord_def
      human_base_def build_record_def OutcomeForLabel_def LabelReject_def Reject_def
      split: sum.splits prod.splits if_splits)

lemma fail_closed_denies: "r_outcome (Decide (fail_closed i l)) = Deny"
proof -
  have "receipts i \<lparr>ctx_receipts_required = True, ctx_writer_available = False\<rparr> \<noteq> ''''"
    by (simp add: receipts_def)
  then have "\<exists>r\<in>set (Check i \<lparr>ctx_receipts_required = True, ctx_writer_available = False\<rparr>). ir_id r = ''INV-05''"
    by (auto simp: Check_def all_invariants_def)
  then have "ly_invariants (fail_closed i l) \<noteq> []"
    by (auto simp: fail_closed_def Let_def filter_empty_conv)
  then show ?thesis by (simp add: Decide_def Let_def)
qed

section \<open>Receipts and the direct path\<close>

locale logged_run = guarded +
  assumes receipt: "K po l \<Longrightarrow> K po (l @ [EvReceipt r])"
    and probe: "K po l \<Longrightarrow> tool \<noteq> ''execute_action'' \<Longrightarrow> K po (l @ [EvPost Direct tool g])"
begin

lemma sound_receipt: "sound K ob w \<Longrightarrow> sound K ob (logged w (EvReceipt r))"
  by (auto simp: sound_def keeps_def fits_def logged_def intro: receipt)

lemma sound_probe:
  "sound K ob w \<Longrightarrow> tool \<noteq> ''execute_action'' \<Longrightarrow> sound K ob (logged w (EvPost Direct tool g))"
  by (auto simp: sound_def keeps_def fits_def logged_def intro: probe)

lemma probe_call: "tool \<noteq> ''execute_action'' \<Longrightarrow> runs C (sound K ob) (CallTool Direct tool g) (\<lambda>_. sound K ob)"
  by (rule runs_CallTool_keep) (auto simp: sound_crash sound_probe)

lemma appended:
  "runs C (sound K ob) (appendRecord cfg r)
     (\<lambda>a w. sound K ob w \<and> (\<not> isl a \<longrightarrow> r \<in> set (receipts_of (wd_log w))))"
  unfolding appendRecord_def
  by (auto intro!: runs_ret runs_append [OF steady_sound sound_crash] simp: sound_receipt)
    (auto simp: logged_def)

lemma context_runs: "runs C (sound K ob) (receiptContext cfg) (\<lambda>_. sound K ob)"
  unfolding receiptContext_def
  by (auto intro!: runs_ret runs_bind [OF runs_ready] simp: sound_crash)

text \<open>What recordDecision allows has its receipt, when receipts are required.\<close>

lemma recorded:
  "runs C (sound K ob) (recordDecision cfg wl a i g l res mode m)
     (\<lambda>(res', d) w. sound K ob w \<and> (r_outcome res' = Allow \<longrightarrow> receipted cfg Direct g w))"
proof -
  let ?Q = "\<lambda>(res', d) w. sound K ob w \<and> (r_outcome res' = Allow \<longrightarrow> receipted cfg Direct g w)"
  have f: "runs C (sound K ob) (if \<not> cc_required cfg then ret (res, out)
       else let l' = fail_closed i l; res' = Decide l' in ret (res', out' l' res')) ?Q" for out out'
    by (auto simp: Let_def receipted_def strict_receipts_def fail_closed_denies intro!: runs_ret)
  have a: "runs C (sound K ob) (bindio (appendRecord cfg r) (\<lambda>a. case a of
        Inr rc \<Rightarrow> ret (res, out rc) | Inl e \<Rightarrow> F)) ?Q"
    if r: "newRecord cfg wl a i g l res mode m = Inr r" and F: "runs C (sound K ob) F ?Q" for r out F
  proof (rule runs_bind [OF appended])
    have "receipted cfg Direct g w" if "r \<in> set (receipts_of (wd_log w))" "r_outcome res = Allow" for w
      using newRecord_payload [OF r] that by (auto simp: receipted_def authorises_def map_outcome_def)
    then show "runs C (\<lambda>w. sound K ob w \<and> (\<not> isl x \<longrightarrow> r \<in> set (receipts_of (wd_log w)))) (case x of
        Inr rc \<Rightarrow> ret (res, out rc) | Inl e \<Rightarrow> F) ?Q" for x
      using F by (cases x) (auto intro!: runs_ret intro: runs_pre)
  qed
  have g: "runs C (sound K ob) (ret (res, out)) ?Q" if "\<not> cc_enabled cfg" for out
    using that by (auto intro!: runs_ret simp: receipted_def strict_receipts_def)
  show ?thesis unfolding recordDecision_def Let_def [of "newRecord cfg wl a i g l res mode m"]
    unfolding Let_def by (intro runs_if runs_sum g a f [unfolded Let_def])
qed

lemma decided:
  "runs C (sound K ob) (decide_direct cfg wl pf proposal health)
     (\<lambda>(res, d) w. sound K ob w \<and> (r_outcome res = Allow \<longrightarrow> receipted cfg Direct (direct_payload pf proposal) w))"
  unfolding decide_direct_def Let_def
  by (rule runs_bind [OF context_runs]) (auto intro!: recorded split: prod.split)

end

locale direct_run = logged_run +
  fixes Q :: "rresult \<Rightarrow> world \<Rightarrow> bool" and cfg :: controller_config and now :: int
  assumes finish: "keeps K w \<Longrightarrow> Q x w"
    and act: "runs C (\<lambda>w. sound K ob w \<and> (r_outcome res = Allow \<longrightarrow> receipted cfg Direct (direct_payload pf proposal) w))
                (act_direct cfg ob pf proposal health res d now) Q"
begin

lemma directs: "runs C (sound K ob) (direct_action cfg ob now) Q"
proof -
  have d: "runs C (sound K ob) (bindio (decide_direct cfg wl pf proposal health) (\<lambda>(res, d).
             act_direct cfg ob pf proposal health res d now)) Q" for wl pf proposal health
    by (rule runs_bind [OF decided]) (auto intro!: act split: prod.split)
  note f = fail_workload_held [OF finish]
  have p: "runs C (sound K ob) (case pr of Inl _ \<Rightarrow> fail_workload ob 30
          | Inr proposal \<Rightarrow> (case read_proposal proposal of None \<Rightarrow> fail_workload ob 30
               | Some pf \<Rightarrow> bindio (decide_direct cfg (fst ob) pf proposal health) (\<lambda>(res, d).
                     act_direct cfg ob pf proposal health res d now))) Q" for pr health
    using f d by (auto split: sum.split option.split)
  have q: "runs C (sound K ob) (bindio (CallTool Direct ''propose_action'' g) (\<lambda>pr.
         case pr of Inl _ \<Rightarrow> fail_workload ob 30
          | Inr proposal \<Rightarrow> (case read_proposal proposal of None \<Rightarrow> fail_workload ob 30
               | Some pf \<Rightarrow> bindio (decide_direct cfg (fst ob) pf proposal health) (\<lambda>(res, d).
                     act_direct cfg ob pf proposal health res d now)))) Q" for g health
    by (rule runs_bind [OF probe_call]) (simp_all add: p)
  show ?thesis unfolding direct_action_def Let_def
    by (rule runs_bind [OF probe_call]) (use f q in \<open>auto split: sum.split\<close>)
qed

end

section \<open>The approval path\<close>

text \<open>What follows the layers of a decision.\<close>

definition decide_with :: "controller_config \<Rightarrow> object \<Rightarrow> pending_approval \<Rightarrow> approval_decision \<Rightarrow> gany \<Rightarrow> int
    \<Rightarrow> layers \<Rightarrow> rresult io" where
  "decide_with cfg ob p d proposal now l =
     bindio (update_status (set_pending (fst ob) p ApprovalStateRecording (ad_label d), snd ob)) (\<lambda>(e, ob1).
        case e of Some x \<Rightarrow> ret (api_failed x)
        | None \<Rightarrow>
          bindio (human_receipt cfg (NewHumanRecord (cc_spec cfg) (human_params_of cfg (fst ob) p d proposal))) (\<lambda>hr.
            case hr of
              Inl _ \<Rightarrow> holdApproval (set_pending (fst ob1) p '''' '''', snd ob1) ''ReceiptFailed''
                 ''approval decision receipt could not be written and receipts are required; not acting'' 60
            | Inr rc \<Rightarrow>
                bindio (case rc of None \<Rightarrow> ret (fst ob1) | Some i \<Rightarrow> storeExample cfg (fst ob1) i) (\<lambda>wl2.
                  act_on_decision cfg (wl2, snd ob1) p d (decision_target d p proposal) l (receiptSeq rc) now)))"

lemma decide_pending_with:
  "decide_pending cfg ob p d proposal now =
     bindio (if ad_label d = Reject then ret empty_layers
             else bindio (receiptContext cfg) (\<lambda>ctx. ret (approval_layers cfg ctx (fst ob) p (decision_target d p proposal))))
       (decide_with cfg ob p d proposal now)"
  by (simp add: decide_pending_def decide_with_def [abs_def] Let_def)

locale approval_run = logged_run +
  fixes Q :: "rresult \<Rightarrow> world \<Rightarrow> bool" and cfg :: controller_config and now :: int
    and J :: "pending_approval \<Rightarrow> approval_decision \<Rightarrow> target \<Rightarrow> bool"
  assumes finish: "keeps K w \<Longrightarrow> Q x w"
    and release: "K po l \<Longrightarrow> K None l"
    and restate: "K (Some p) l \<Longrightarrow> pa_state p \<noteq> ApprovalStateExecuting
                  \<Longrightarrow> K (Some (p\<lparr>pa_state := s, pa_decision := dec\<rparr>)) l"
    and execute: "J p d tg \<Longrightarrow> held_by (fst ob) = Some (p\<lparr>pa_state := ApprovalStateRecording, pa_decision := ad_label d\<rparr>)
       \<Longrightarrow> runs C (\<lambda>w. sound K ob w \<and> receipted cfg (ForPending (pa_id p))
                         (ExecutionPayload (tg_name tg) (tg_payload tg) (pa_confidence p)) w)
            (execute_approved ob p d tg seq now) Q"
begin

lemma sound_restate:
  "held_by (fst ob) = Some p \<Longrightarrow> pa_state p \<noteq> ApprovalStateExecuting \<Longrightarrow> sound K ob w
     \<Longrightarrow> sound K (set_pending wl p s dec, snd ob) w"
  by (auto simp: sound_def fits_def intro: restate)

lemma hold: "runs C (sound K ob) (holdApproval ob reason msg n) Q"
  unfolding holdApproval_def Let_def
  by (intro runs_if runs_ret finish runs_bind [OF runs_pre [OF update_held]])
    (auto intro!: runs_ret finish simp: sound_keeps elim!: sound_cong [rotated 2] split: prod.split option.split)

lemma finishes: "runs C (sound K ob) (finishApproval ob p lab oc a seq ph reason msg now) Q"
proof -
  have "sound K (set_status wl (finish_status wl' p lab oc a seq ph reason msg now), snd ob) w"
    if "sound K ob w" for wl wl' w
    using that by (auto simp: sound_def fits_def finish_status_def Let_def intro: release)
  then show ?thesis unfolding finishApproval_def
    by (intro runs_bind [OF runs_pre [OF update_held]])
      (auto intro!: runs_ret finish split: prod.split option.split)
qed

lemma human_recorded:
  "runs C (sound K ob) (human_receipt cfg human) (\<lambda>hr w. sound K ob w
     \<and> (\<not> isl hr \<longrightarrow> strict_receipts cfg \<longrightarrow> (\<exists>r\<in>set (receipts_of (wd_log w)). human = Inr r)))"
  unfolding human_receipt_def
proof (intro runs_if runs_sum runs_ret; clarsimp simp: strict_receipts_def)
  fix r assume "human = Inr r"
  show "runs C (sound K ob) (bindio (appendRecord cfg r) (\<lambda>a. case a of
       Inl e \<Rightarrow> ret (if cc_required cfg then Inl e else Inr None) | Inr rc \<Rightarrow> ret (Inr (Some rc))))
     (\<lambda>hr w. sound K ob w \<and> (\<not> isl hr \<longrightarrow> cc_required cfg \<longrightarrow> r \<in> set (receipts_of (wd_log w))))"
    by (rule runs_bind [OF appended]) (auto intro!: runs_sum runs_ret)
qed

lemma stored:
  assumes "steady S"
  shows "runs C (\<lambda>w. sound K (wl, v) w \<and> S w) (storeExample cfg wl i)
     (\<lambda>wl2 w. (sound K (wl2, v) w \<and> S w) \<and> held_by wl2 = held_by wl)"
  unfolding storeExample_def
  by (auto intro!: runs_ret runs_read assms simp: sound_crash elim: sound_cong [rotated 2])

text \<open>The whole decision; the receipt, if one is required, is that of the decision.\<close>

lemma acted:
  assumes "held_by (fst ob) = Some (p\<lparr>pa_state := ApprovalStateRecording, pa_decision := ad_label d\<rparr>)"
    and "ad_label d \<noteq> Reject \<Longrightarrow> \<not> humanBlocked l \<Longrightarrow> J p d tg"
  shows "runs C (\<lambda>w. sound K ob w \<and> (ad_label d \<noteq> Reject \<longrightarrow> receipted cfg (ForPending (pa_id p))
                         (ExecutionPayload (tg_name tg) (tg_payload tg) (pa_confidence p)) w))
     (act_on_decision cfg ob p d tg l seq now) Q"
proof -
  have f: "runs C (\<lambda>w. sound K ob w \<and> R w) (finishApproval ob p lab oc a seq ph reason msg now) Q"
    for R lab oc a ph reason msg
    by (rule runs_pre [OF finishes]) simp
  have r: "runs C (\<lambda>w. sound K ob w \<and> R w) (bindio (recordDecision cfg wl n i g l res mode m)
      (\<lambda>_. finishApproval ob p lab oc a seq ph reason msg now)) Q" for R wl n i g res mode m lab oc a ph reason msg
    by (rule runs_bind [OF runs_pre [OF recorded]]) (auto intro: runs_pre [OF finishes])
  show ?thesis unfolding act_on_decision_def
    by (intro runs_if f r runs_pre [OF execute [OF assms(2) assms(1)]]) auto
qed

lemma decides_with:
  assumes "held_by (fst ob) = Some p" "pa_state p \<noteq> ApprovalStateExecuting"
    and just: "ad_label d \<noteq> Reject \<longrightarrow> \<not> humanBlocked l \<longrightarrow> J p d (decision_target d p proposal)"
  shows "runs C (sound K ob) (decide_with cfg ob p d proposal now l) Q"
proof -
  let ?ok = "\<lambda>l. ad_label d \<noteq> Reject \<longrightarrow> \<not> humanBlocked l \<longrightarrow> J p d (decision_target d p proposal)"
  let ?tg = "decision_target d p proposal" and ?hp = "human_params_of cfg (fst ob) p d proposal"
  let ?R = "p\<lparr>pa_state := ApprovalStateRecording, pa_decision := ad_label d\<rparr>"
  have act: "runs C (\<lambda>w. sound K (wl2, v) w \<and> (ad_label d \<noteq> Reject \<longrightarrow> receipted cfg (ForPending (pa_id p))
                         (ExecutionPayload (tg_name ?tg) (tg_payload ?tg) (pa_confidence p)) w))
      (act_on_decision cfg (wl2, v) p d ?tg l seq now) Q" if "held_by wl2 = Some ?R" "?ok l" for wl2 v l seq
    using acted that by simp
  have ex: "runs C (\<lambda>w. sound K ob1 w \<and> (ad_label d \<noteq> Reject \<longrightarrow> receipted cfg (ForPending (pa_id p))
                         (ExecutionPayload (tg_name ?tg) (tg_payload ?tg) (pa_confidence p)) w))
      (bindio (case rc of None \<Rightarrow> ret (fst ob1) | Some i \<Rightarrow> storeExample cfg (fst ob1) i)
         (\<lambda>wl2. act_on_decision cfg (wl2, snd ob1) p d ?tg l seq now)) Q"
    if "held_by (fst ob1) = Some ?R" and ok: "?ok l" for ob1 rc l seq
  proof -
    have S: "steady (\<lambda>w. ad_label d \<noteq> Reject \<longrightarrow> receipted cfg (ForPending (pa_id p))
                         (ExecutionPayload (tg_name ?tg) (tg_payload ?tg) (pa_confidence p)) w)"
      by (auto simp: steady_def receipted_def env_def)
    obtain wl v where ob: "ob1 = (wl, v)" by (cases ob1)
    show ?thesis unfolding ob fst_conv snd_conv
    proof (rule runs_bind)
      show "runs C (\<lambda>w. sound K (wl, v) w \<and> (ad_label d \<noteq> Reject \<longrightarrow> receipted cfg (ForPending (pa_id p))
                         (ExecutionPayload (tg_name ?tg) (tg_payload ?tg) (pa_confidence p)) w))
          (case rc of None \<Rightarrow> ret wl | Some i \<Rightarrow> storeExample cfg wl i)
          (\<lambda>wl2 w. (sound K (wl2, v) w \<and> (ad_label d \<noteq> Reject \<longrightarrow> receipted cfg (ForPending (pa_id p))
                         (ExecutionPayload (tg_name ?tg) (tg_payload ?tg) (pa_confidence p)) w)) \<and> held_by wl2 = held_by wl)"
        by (intro runs_option runs_ret stored [OF S]) simp
    next
      fix wl2
      have "held_by wl = Some ?R" using that ob by simp
      then show "runs C (\<lambda>w. (sound K (wl2, v) w \<and> (ad_label d \<noteq> Reject \<longrightarrow> receipted cfg (ForPending (pa_id p))
                         (ExecutionPayload (tg_name ?tg) (tg_payload ?tg) (pa_confidence p)) w)) \<and> held_by wl2 = held_by wl)
          (act_on_decision cfg (wl2, v) p d ?tg l seq now) Q"
        by - (rule runs_assume [of _ "held_by wl2 = held_by wl"], simp, rule runs_pre [OF act [OF _ ok]], simp_all)
    qed
  qed
  have hr: "runs C (\<lambda>w. keeps K w \<and> (e = None \<longrightarrow> sound K ob1 w \<and> w_status (fst ob1) = st))
       (case e of Some x \<Rightarrow> ret (api_failed x)
        | None \<Rightarrow>
          bindio (human_receipt cfg (NewHumanRecord (cc_spec cfg) ?hp)) (\<lambda>hr.
            case hr of
              Inl _ \<Rightarrow> holdApproval (set_pending (fst ob1) p [] [], snd ob1) a b n
            | Inr rc \<Rightarrow>
                bindio (case rc of None \<Rightarrow> ret (fst ob1) | Some i \<Rightarrow> storeExample cfg (fst ob1) i) (\<lambda>wl2.
                  act_on_decision cfg (wl2, snd ob1) p d ?tg l (receiptSeq rc) now))) Q"
    if st: "st_pending st = Some ?R" and ok: "?ok l" for e ob1 st l a b n
  proof (cases e)
    case None
    show ?thesis unfolding None option.case
    proof (rule runs_assume [of _ "held_by (fst ob1) = Some ?R"])
      assume h: "held_by (fst ob1) = Some ?R"
      have authorised: "receipted cfg (ForPending (pa_id p))
          (ExecutionPayload (tg_name ?tg) (tg_payload ?tg) (pa_confidence p)) w"
        if "strict_receipts cfg \<longrightarrow> (\<exists>r\<in>set (receipts_of (wd_log w)). NewHumanRecord (cc_spec cfg) ?hp = Inr r)"
          "ad_label d \<noteq> Reject" for w
        unfolding receipted_def using that human_record_authorises by blast
      have undo: "sound K (set_pending (fst ob1) p [] [], snd ob1) w" if "sound K ob1 w" for w
        by (rule sound_cong [OF _ _ sound_restate [OF h _ that, where s = "[]" and dec = "[]"]])
          (simp_all add: ApprovalStateRecording_def ApprovalStateExecuting_def)
      show "runs C (\<lambda>w. keeps K w \<and> (None = None \<longrightarrow> sound K ob1 w \<and> w_status (fst ob1) = st))
          (bindio (human_receipt cfg (NewHumanRecord (cc_spec cfg) ?hp)) (\<lambda>hr.
            case hr of
              Inl _ \<Rightarrow> holdApproval (set_pending (fst ob1) p [] [], snd ob1) a b n
            | Inr rc \<Rightarrow>
                bindio (case rc of None \<Rightarrow> ret (fst ob1) | Some i \<Rightarrow> storeExample cfg (fst ob1) i) (\<lambda>wl2.
                  act_on_decision cfg (wl2, snd ob1) p d ?tg l (receiptSeq rc) now))) Q"
        by (rule runs_bind [OF runs_pre [OF human_recorded [of ob1]]], simp, intro runs_sum)
          (auto intro!: runs_pre [OF hold] runs_pre [OF ex [OF h ok]] undo authorised
             intro: authorised)
    qed (use st in \<open>auto simp: held_by_def\<close>)
  qed (auto intro!: runs_ret finish)
  have up: "runs C (sound K ob) (bindio (update_status (set_pending (fst ob) p ApprovalStateRecording (ad_label d), snd ob))
      (\<lambda>(e, ob1). case e of Some x \<Rightarrow> ret (api_failed x)
        | None \<Rightarrow>
          bindio (human_receipt cfg (NewHumanRecord (cc_spec cfg) ?hp)) (\<lambda>hr.
            case hr of
              Inl _ \<Rightarrow> holdApproval (set_pending (fst ob1) p [] [], snd ob1) a b n
            | Inr rc \<Rightarrow>
                bindio (case rc of None \<Rightarrow> ret (fst ob1) | Some i \<Rightarrow> storeExample cfg (fst ob1) i) (\<lambda>wl2.
                  act_on_decision cfg (wl2, snd ob1) p d ?tg l (receiptSeq rc) now)))) Q" if ok: "?ok l" for l a b n
  proof (rule runs_bind [OF runs_pre [OF update_held]], goal_cases)
    case (1 w) then show ?case by (rule sound_restate [OF assms(1,2)])
  next
    case (2 r)
    have "st_pending (w_status (set_pending (fst ob) p ApprovalStateRecording (ad_label d))) = Some ?R"
      by (simp add: set_pending_def)
    note * = hr [OF this ok]
    obtain e ob1 where r: "r = (e, ob1)" by (rule prod.exhaust)
    show ?case unfolding r prod.case fst_conv by (rule *)
  qed
  show ?thesis unfolding decide_with_def by (rule up [OF just])
qed

lemma decides:
  assumes "held_by (fst ob) = Some p" "pa_state p \<noteq> ApprovalStateExecuting"
    and just: "\<And>ctx. ad_label d \<noteq> Reject \<Longrightarrow> \<not> humanBlocked (approval_layers cfg ctx (fst ob) p (decision_target d p proposal))
          \<Longrightarrow> J p d (decision_target d p proposal)"
  shows "runs C (sound K ob) (decide_pending cfg ob p d proposal now) Q"
proof -
  let ?ok = "\<lambda>l. ad_label d \<noteq> Reject \<longrightarrow> \<not> humanBlocked l \<longrightarrow> J p d (decision_target d p proposal)"
  have ok: "runs C (sound K ob) (if ad_label d = Reject then ret empty_layers
      else bindio (receiptContext cfg) (\<lambda>ctx. ret (approval_layers cfg ctx (fst ob) p (decision_target d p proposal))))
      (\<lambda>l w. sound K ob w \<and> ?ok l)"
    by (auto intro!: runs_if runs_ret runs_bind [OF context_runs] just)
  show ?thesis unfolding decide_pending_with
  proof (rule runs_bind [OF ok])
    fix l
    show "runs C (\<lambda>w. sound K ob w \<and> ?ok l) (decide_with cfg ob p d proposal now l) Q"
      by (rule runs_assume [of _ "?ok l"], simp) (rule runs_pre [OF decides_with [OF assms(1,2)]], simp_all)
  qed
qed

lemma approves:
  assumes "held_by (fst ob) = Some p"
    and "\<And>d proposal ctx. Read (w_annotations (fst ob)) (pendingRef (w_uid (fst ob)) (pa_id p) (pa_proposal p)) (cc_key cfg)
             = Decided d \<Longrightarrow> \<not> approvalConsumed (w_status (fst ob)) (pa_id p) \<Longrightarrow> pa_state p \<noteq> ApprovalStateExecuting
          \<Longrightarrow> decode_map (pa_proposal p) = Some proposal \<Longrightarrow> ad_label d \<noteq> Reject
          \<Longrightarrow> \<not> humanBlocked (approval_layers cfg ctx (fst ob) p (decision_target d p proposal))
          \<Longrightarrow> J p d (decision_target d p proposal)"
  shows "runs C (sound K ob) (reconcileApproval cfg ob p now) Q"
  unfolding reconcileApproval_def Let_def
  by (auto intro!: hold finishes runs_ret finish decides assms simp: sound_keeps split: read_result.split option.split)

end

end
