(* ===== verification/ControllerSafety.thy ===== *)
theory ControllerSafety
  imports ActionLogic
begin

text \<open>
  What the controller guarantees over its whole life: any sequence of reconciles, each on a
  read that may be stale, under any ticks, and of user edits in between. Two invariants
  are carried through the runs by the locales of RunLogic and ActionLogic: the
  requests sent for a held action, and the receipts in front of the executions.
\<close>

section \<open>Reachable worlds\<close>

text \<open>A read of the cache: the stored object if it has its version, anything older otherwise.\<close>

definition snapshot :: "world \<Rightarrow> object \<Rightarrow> bool" where
  "snapshot w ob \<longleftrightarrow> snd ob \<le> wd_version w \<and> (snd ob = wd_version w \<longrightarrow> fst ob = wd_stored w)"

definition reconcile_run :: "reconcile_config \<Rightarrow> object \<Rightarrow> int \<Rightarrow> tick list \<Rightarrow> world \<Rightarrow> world" where
  "reconcile_run rc ob now ts w = snd (Reconcile rc ob now (w\<lparr>wd_ticks := ts\<rparr>))"

text \<open>The number of requests sent for the held action of an id.\<close>

definition sent :: "string \<Rightarrow> event list \<Rightarrow> nat" where
  "sent i l = length (filter (\<lambda>e. case e of EvPost (ForPending j) _ _ \<Rightarrow> j = i | _ \<Rightarrow> False) l)"

text \<open>
  The id of an action is new when the action is first held: nothing was sent for it. The
  controller derives it from a hash over the receipt or over the time.
\<close>

definition new_id :: "int \<Rightarrow> world \<Rightarrow> world \<Rightarrow> bool" where
  "new_id now w w' \<longleftrightarrow> (case held_by (wd_stored w') of None \<Rightarrow> True
     | Some p \<Rightarrow> pa_proposed_at p = now \<longrightarrow> sent (pa_id p) (wd_log w) = 0)"

inductive reachable :: "reconcile_config \<Rightarrow> world \<Rightarrow> bool" for rc where
  created: "wd_log w = [] \<Longrightarrow> reachable rc w"
| reconciled: "reachable rc w \<Longrightarrow> snapshot w ob
    \<Longrightarrow> (\<And>p. held_by (wd_stored w) = Some p \<Longrightarrow> pa_proposed_at p < now)
    \<Longrightarrow> new_id now w (reconcile_run rc ob now ts w) \<Longrightarrow> reachable rc (reconcile_run rc ob now ts w)"
| edited: "reachable rc w \<Longrightarrow> reachable rc (apply_edit e w)"

lemma sent_append [simp]: "sent i (l @ l') = sent i l + sent i l'"
  by (simp add: sent_def)

lemma sent_simps [simp]:
  "sent i [] = 0" "sent i [EvReceipt r] = 0" "sent i [EvPost Direct tool g] = 0"
  "sent i [EvPost (ForPending j) tool g] = (if j = i then 1 else 0)"
  by (simp_all add: sent_def)

section \<open>At most one execution of a held action\<close>

text \<open>
  No id with more than one call, nothing more for an id that had requests at the start of
  the run, and nothing sent for an action that is still to be decided.
\<close>

definition idle :: "event list \<Rightarrow> held_pred" where
  "idle l0 po l \<longleftrightarrow> (\<forall>i. sent i l \<le> Suc maxRetries \<and> sent i l0 \<le> sent i l \<and> (0 < sent i l0 \<longrightarrow> sent i l = sent i l0))
     \<and> (\<forall>p. po = Some p \<longrightarrow> pa_state p \<noteq> ApprovalStateExecuting \<longrightarrow> sent (pa_id p) l = 0)"

text \<open>In addition, while a run has not executed a held action: nothing sent since its start.\<close>

definition quiet :: "event list \<Rightarrow> held_pred" where
  "quiet l0 po l \<longleftrightarrow> idle l0 po l \<and> (\<forall>i. sent i l = sent i l0)"

text \<open>At the end of a run: idle, or an action newly held.\<close>

definition settled :: "event list \<Rightarrow> int \<Rightarrow> world \<Rightarrow> bool" where
  "settled l0 now w \<longleftrightarrow> keeps (idle l0) w \<or>
     ((\<forall>i. sent i (wd_log w) = sent i l0 \<and> sent i (wd_log w) \<le> Suc maxRetries)
      \<and> (case held_by (wd_stored w) of None \<Rightarrow> True | Some p \<Rightarrow> pa_proposed_at p = now))"

interpretation idle_run: logged_run "idle l0" "keeps (idle l0)" for l0
  by unfold_locales (auto simp: idle_def)

interpretation quiet_run: logged_run "quiet l0" "keeps (idle l0)" for l0
  by unfold_locales (auto simp: idle_def quiet_def keeps_def)

text \<open>During the call: the action of that id is held as executing, and k more requests are allowed.\<close>

definition calling :: "event list \<Rightarrow> string \<Rightarrow> int \<Rightarrow> nat \<Rightarrow> world \<Rightarrow> bool" where
  "calling l0 i v k w \<longleftrightarrow> keeps (idle l0) w \<and> v \<le> wd_version w
     \<and> sent i l0 = 0 \<and> sent i (wd_log w) + k \<le> Suc maxRetries
     \<and> (case held_by (wd_stored w) of None \<Rightarrow> False | Some p \<Rightarrow> pa_state p = ApprovalStateExecuting \<and> pa_id p = i)"

lemma calling_steady: "steady (calling l0 i v k)"
  by (auto simp: steady_def env_def calling_def keeps_def held_by_def)

lemma calling_post: "calling l0 i v (Suc k) w \<Longrightarrow> calling l0 i v k (logged w (EvPost (ForPending i) tool g))"
  by (auto simp: calling_def keeps_def idle_def logged_def le_SucI split: option.splits)

lemma executing_call:
  "runs (keeps (idle l0)) (calling l0 i v (Suc maxRetries)) (CallTool (ForPending i) tool g) (\<lambda>_ w. keeps (idle l0) w \<and> v \<le> wd_version w)"
  by (rule runs_CallTool [OF calling_steady _ calling_post]) (simp_all add: calling_def)

lemma idle_execute:
  assumes "held_by (fst ob) = Some (p\<lparr>pa_state := ApprovalStateRecording, pa_decision := ad_label d\<rparr>)"
    and Q: "\<And>x w. keeps (idle l0) w \<Longrightarrow> Q x w"
  shows "runs (keeps (idle l0)) (sound (idle l0) ob) (execute_approved ob p d tg seq now) Q"
proof -
  let ?R = "\<lambda>(e, ob1) w. keeps (idle l0) w \<and> (e = None \<longrightarrow> calling l0 (pa_id p) (snd ob1) (Suc maxRetries) w)"
  have up: "runs (keeps (idle l0)) (sound (idle l0) ob)
      (update_status (set_pending (fst ob) p ApprovalStateExecuting (ad_label d), snd ob)) ?R"
    by (rule runs_update_status [OF steady_sound sound_keeps], assumption)
      (use assms(1) in \<open>auto simp: sound_def keeps_def fits_def written_def idle_def calling_def ApprovalStateRecording_def ApprovalStateExecuting_def\<close>)
  have fin: "runs (keeps (idle l0)) (\<lambda>w. keeps (idle l0) w \<and> v \<le> wd_version w) (finishApproval (wl, v) p lab oc a seq ph reason msg now) Q"
    for wl v lab oc a ph reason msg
    unfolding finishApproval_def
    by (intro runs_bind [OF runs_pre [OF idle_run.update_held]])
      (auto intro!: runs_ret Q simp: sound_def fits_def keeps_def idle_def finish_status_def Let_def
        split: prod.split option.split)
  show ?thesis unfolding execute_approved_def Let_def
    by (intro runs_bind [OF up])
      (auto intro!: runs_ret Q runs_option runs_bind [OF runs_pre [OF executing_call]] runs_sum fin split: prod.split)
qed

lemma settled_keeps: "keeps (idle l0) w \<Longrightarrow> settled l0 now w"
  by (simp add: settled_def)

lemma pending_time: "newPendingApproval cfg wl act proposal h c d now = Inr p \<Longrightarrow> pa_proposed_at p = now"
  by (auto simp: newPendingApproval_def split: option.splits sum.splits)

lemma settled_update:
  assumes "\<And>p. held_by (fst ob') = Some p \<Longrightarrow> pa_proposed_at p = now"
  shows "runs (keeps (idle l0)) (sound (quiet l0) ob) (update_status ob') (\<lambda>_. settled l0 now)"
  using assms
  by (intro runs_update_status [OF steady_sound quiet_run.sound_crash])
    (auto simp: sound_def keeps_def quiet_def settled_def idle_def written_def split: option.split)

lemma settled_finish:
  "runs (keeps (idle l0)) (sound (quiet l0) ob) (finish_direct cfg ob' act proposal health d now) (\<lambda>_. settled l0 now)"
proof -
  have "pa_proposed_at p = now" if "(if b then (case newPendingApproval cfg wl a proposal h c d now of
      Inl _ \<Rightarrow> None | Inr p \<Rightarrow> Some p) else None) = Some p" for b wl a h c p
    using that by (auto dest: pending_time split: if_splits sum.splits)
  then show ?thesis unfolding finish_direct_def Let_def
    by (intro runs_bind [OF settled_update]) (auto intro!: runs_ret split: prod.split option.split)
qed

lemma settled_act:
  "runs (keeps (idle l0)) (sound (quiet l0) ob) (act_direct cfg ob pf proposal health res d now) (\<lambda>_. settled l0 now)"
proof -
  have call: "runs (keeps (idle l0)) (sound (quiet l0) ob1) (CallTool Direct tool g) (\<lambda>_. sound (quiet l0) ob1)" for ob1 tool g
    by (rule runs_CallTool_keep) (auto simp: quiet_run.sound_crash sound_def keeps_def fits_def logged_def quiet_def idle_def)
  show ?thesis unfolding act_direct_def Let_def reserveExecution_def
    by (intro runs_if runs_bind [OF runs_pre [OF quiet_run.update_held]] settled_finish)
      (auto intro!: runs_ret settled_keeps runs_bind [OF call] settled_finish intro: runs_pre [OF runs_bind [OF call]]
        simp: keeps_def quiet_def elim!: sound_cong [rotated 2] split: prod.split option.split api_error.split)
qed

interpretation idle_approval: approval_run "idle l0" "keeps (idle l0)" "\<lambda>_. settled l0 now" cfg now "\<lambda>_ _ _. True" for l0 cfg now
  by unfold_locales
    (auto simp: idle_def settled_keeps intro: runs_pre [OF idle_execute [OF _ settled_keeps]])

interpretation quiet_direct: direct_run "quiet l0" "keeps (idle l0)" "\<lambda>_. settled l0 now" cfg now for l0 cfg now
  by unfold_locales
    (auto simp: keeps_def quiet_def settled_keeps intro: runs_pre [OF settled_act])

lemma quiet_idle: "sound (quiet l0) ob w \<Longrightarrow> sound (idle l0) ob w"
  by (auto simp: sound_def keeps_def fits_def quiet_def)

lemma settled_action:
  "runs (keeps (idle l0)) (sound (quiet l0) ob) (reconcile_action rc ob now) (\<lambda>_. settled l0 now)"
proof -
  have fin: "settled l0 now w" if "keeps (quiet l0) w" for w
    using that by (auto simp: keeps_def quiet_def settled_keeps)
  have ap: "runs (keeps (idle l0)) (sound (quiet l0) ob) (reconcileApproval cfg ob p now) (\<lambda>_. settled l0 now)"
    if "held_by (fst ob) = Some p" for cfg p
    using that by (intro runs_pre [OF idle_approval.approves]) (auto intro: quiet_idle)
  show ?thesis unfolding reconcile_action_def Let_def
    by (intro runs_if quiet_run.runtime_held fin runs_ret)
      (auto intro!: ap quiet_direct.directs simp: sound_keeps held_by_def split: option.split bool.split intro: fin)
qed

interpretation quiet_gates: gated_run "quiet l0" "keeps (idle l0)" "\<lambda>_. settled l0 now" rc now for l0 rc now
  by unfold_locales (auto simp: settled_action keeps_def quiet_def settled_keeps)

lemma run_settled:
  assumes "keeps (idle []) w" "snapshot w ob"
  shows "settled (wd_log w) now (reconcile_run rc ob now ts w)"
proof -
  have "sound (quiet (wd_log w)) ob (w\<lparr>wd_ticks := ts\<rparr>)"
    using assms by (auto simp: sound_def keeps_def fits_def quiet_def snapshot_def idle_def)
  then show ?thesis
    using quiet_gates.reconciles [of "wd_log w" ob rc now] unfolding runs_def reconcile_run_def
    by (fastforce simp: settled_keeps split: prod.splits option.splits)
qed

lemma reachable_idle:
  assumes "reachable rc w"
  shows "keeps (idle []) w"
  using assms
proof induct
  case (created w) then show ?case by (simp add: keeps_def idle_def)
next
  case (reconciled w ob now ts)
  let ?w = "reconcile_run rc ob now ts w"
  show ?case
    using run_settled [OF reconciled(2,3), of now rc ts] reconciled(5)
    by (auto simp: settled_def new_id_def keeps_def idle_def split: option.splits)
next
  case (edited w e)
  then show ?case by (auto simp: apply_edit_def keeps_def held_by_def split: option.split)
qed

section \<open>Receipts before executions\<close>

text \<open>Every execution in a log comes after a receipt that authorises it.\<close>

fun write_ahead :: "decision_record list \<Rightarrow> event list \<Rightarrow> bool" where
  "write_ahead seen [] = True"
| "write_ahead seen (EvReceipt r # l) = write_ahead (r # seen) l"
| "write_ahead seen (EvPost org tool g # l) =
     ((tool = ''execute_action'' \<longrightarrow> list_ex (\<lambda>r. authorises r org g) seen) \<and> write_ahead seen l)"

lemma write_ahead_append [simp]:
  "write_ahead seen (l @ l') = (write_ahead seen l \<and> write_ahead (rev (receipts_of l) @ seen) l')"
  by (induct seen l rule: write_ahead.induct) (simp_all add: receipts_of_def)

definition covered :: "controller_config \<Rightarrow> held_pred" where
  "covered cfg po l \<longleftrightarrow> (strict_receipts cfg \<longrightarrow> write_ahead [] l)"

interpretation covered_run: logged_run "covered cfg" "keeps (covered cfg)" for cfg
  by unfold_locales (auto simp: covered_def)

text \<open>An execution the receipts cover, and the status write before it.\<close>

definition admitted :: "controller_config \<Rightarrow> origin \<Rightarrow> gany \<Rightarrow> int \<Rightarrow> world \<Rightarrow> bool" where
  "admitted cfg org g v w \<longleftrightarrow> keeps (covered cfg) w \<and> receipted cfg org g w \<and> v \<le> wd_version w"

lemma admitted_steady: "steady (admitted cfg org g v)"
  by (auto simp: steady_def env_def admitted_def keeps_def covered_def receipted_def)

lemma admitted_call: "runs (keeps (covered cfg)) (admitted cfg org g v) (CallTool org tool g) (\<lambda>_. admitted cfg org g v)"
  by (rule runs_CallTool_keep [OF admitted_steady])
    (auto simp: admitted_def keeps_def covered_def receipted_def logged_def list_ex_iff)

lemma admitted_sound: "admitted cfg org g (snd ob) w \<longleftrightarrow> sound (covered cfg) ob w \<and> receipted cfg org g w"
  by (auto simp: admitted_def sound_def fits_def keeps_def covered_def)

lemma admitted_update:
  "runs (keeps (covered cfg)) (admitted cfg org g (snd ob)) (update_status ob)
     (\<lambda>(e, ob1) w. keeps (covered cfg) w \<and> (e = None \<longrightarrow> admitted cfg org g (snd ob1) w))"
  by (rule runs_update_status [OF admitted_steady])
    (auto simp: admitted_def keeps_def covered_def written_def receipted_def)

lemma covered_execute:
  "runs (keeps (covered cfg)) (admitted cfg (ForPending (pa_id p))
       (ExecutionPayload (tg_name tg) (tg_payload tg) (pa_confidence p)) (snd ob))
     (execute_approved ob p d tg seq now) (\<lambda>_. keeps (covered cfg))"
proof -
  have fin: "runs (keeps (covered cfg)) (admitted cfg org g v) (finishApproval (wl, v) p lab oc a seq ph reason msg now)
      (\<lambda>_. keeps (covered cfg))" for org g v wl lab oc a ph reason msg
    unfolding finishApproval_def
    by (intro runs_bind [OF runs_pre [OF covered_run.update_held]])
      (auto intro!: runs_ret simp: sound_def fits_def keeps_def covered_def admitted_def split: prod.split option.split)
  show ?thesis unfolding execute_approved_def Let_def
    by (intro runs_bind [OF runs_pre [OF admitted_update]])
      (auto intro!: runs_ret runs_option runs_bind [OF runs_pre [OF admitted_call]] runs_sum fin split: prod.split)
qed

lemma covered_act:
  assumes "org = Direct" "g = direct_payload pf proposal"
  shows "runs (keeps (covered cfg))
     (\<lambda>w. sound (covered cfg) ob w \<and> (r_outcome res = Allow \<longrightarrow> receipted cfg org g w))
     (act_direct cfg ob pf proposal health res d now) (\<lambda>_. keeps (covered cfg))"
proof -
  have fin: "runs (keeps (covered cfg)) (\<lambda>w. sound (covered cfg) ob w \<and> R w) (finish_direct cfg ob' act proposal health d now)
      (\<lambda>_. keeps (covered cfg))" if "snd ob' = snd ob" for ob ob' act R
    using that unfolding finish_direct_def Let_def
    by (intro runs_bind [OF runs_pre [OF covered_run.update_held]])
      (auto intro!: runs_ret simp: sound_def fits_def keeps_def covered_def split: prod.split option.split)
  have fin': "runs (keeps (covered cfg)) (admitted cfg org' g' v) (finish_direct cfg (wl, v) act proposal health d now)
      (\<lambda>_. keeps (covered cfg))" for v wl act org' g'
    by (rule runs_pre [OF fin [of "(wl, v)" "(wl, v)" "receipted cfg org' g'"]]) (simp_all flip: admitted_sound)
  show ?thesis
  proof (cases "r_outcome res = Allow")
    case True
    show ?thesis unfolding act_direct_def Let_def reserveExecution_def if_P [OF True]
    proof (rule runs_bind [OF runs_pre [OF admitted_update [of cfg org g]]], goal_cases)
      case (1 w) with True show ?case by (auto simp: admitted_sound elim!: sound_cong [rotated 2])
    next
      case (2 r)
      show ?case unfolding assms(2) [symmetric] using assms(1)
        by (auto intro!: runs_ret runs_bind [OF runs_pre [OF admitted_call [of cfg Direct g]]] fin'
            split: prod.split option.split api_error.split)
    qed
  next
    case False
    then show ?thesis using fin [of _ ob "\<lambda>_. True"] unfolding act_direct_def Let_def by simp
  qed
qed

interpretation covered_approval: approval_run "covered cfg" "keeps (covered cfg)" "\<lambda>_. keeps (covered cfg)" cfg now "\<lambda>_ _ _. True" for cfg now
  by unfold_locales (auto simp: covered_def simp flip: admitted_sound intro: covered_execute)

interpretation covered_direct: direct_run "covered cfg" "keeps (covered cfg)" "\<lambda>_. keeps (covered cfg)" cfg now for cfg now
  by unfold_locales (auto intro: covered_act)

lemma covered_action:
  "runs (keeps (covered (rc_controller rc))) (sound (covered (rc_controller rc)) ob) (reconcile_action rc ob now)
     (\<lambda>_. keeps (covered (rc_controller rc)))"
  unfolding reconcile_action_def Let_def
  by (intro runs_if covered_run.runtime_held runs_ret)
    (auto intro!: covered_approval.approves covered_direct.directs simp: sound_keeps held_by_def
      split: option.split bool.split)

interpretation covered_gates:
  gated_run "covered (rc_controller rc)" "keeps (covered (rc_controller rc))" "\<lambda>_. keeps (covered (rc_controller rc))" rc now
  for rc now
  by unfold_locales (auto simp: covered_action)

lemma reachable_covered:
  assumes "reachable rc w"
  shows "keeps (covered (rc_controller rc)) w"
  using assms
proof induct
  case (created w) then show ?case by (simp add: keeps_def covered_def)
next
  case (reconciled w ob now ts)
  then have "sound (covered (rc_controller rc)) ob (w\<lparr>wd_ticks := ts\<rparr>)"
    by (auto simp: sound_def keeps_def fits_def covered_def snapshot_def)
  then show ?case
    using covered_gates.reconciles [of rc ob now] unfolding runs_def reconcile_run_def
    by (fastforce split: prod.splits option.splits)
next
  case (edited w e)
  then show ?case by (auto simp: apply_edit_def keeps_def held_by_def covered_def split: option.split)
qed

section \<open>Executions a human decided\<close>

definition is_sent :: "event \<Rightarrow> bool" where
  "is_sent e \<longleftrightarrow> (case e of EvPost (ForPending _) _ _ \<Rightarrow> True | _ \<Rightarrow> False)"

lemma is_sent_simps [simp]:
  "\<not> is_sent (EvReceipt r)" "\<not> is_sent (EvPost Direct tool g)" "is_sent (EvPost (ForPending i) tool g)"
  by (simp_all add: is_sent_def)

text \<open>After a first log, only requests for held actions of a given set.\<close>

definition only :: "event set \<Rightarrow> event list \<Rightarrow> held_pred" where
  "only A l0 po l \<longleftrightarrow> (\<exists>l'. l = l0 @ l' \<and> (\<forall>e\<in>set l'. is_sent e \<longrightarrow> e \<in> A))"

lemma only_more: "only A l0 po l \<Longrightarrow> (is_sent e \<Longrightarrow> e \<in> A) \<Longrightarrow> only A l0 po' (l @ [e])"
  unfolding only_def by (elim exE conjE, rule exI [where x = "_ @ [e]"]) auto

lemma only_held: "only A l0 po l \<Longrightarrow> only A l0 po' l"
  by (simp add: only_def)

definition execution_of :: "pending_approval \<Rightarrow> target \<Rightarrow> event" where
  "execution_of p tg = EvPost (ForPending (pa_id p)) ''execute_action''
     (ExecutionPayload (tg_name tg) (tg_payload tg) (pa_confidence p))"

lemma only_execute:
  assumes "execution_of p tg \<in> A"
  shows "runs (keeps (only A l0)) (keeps (only A l0)) (execute_approved ob p d tg seq now) (\<lambda>_. keeps (only A l0))"
proof -
  have up: "runs (keeps (only A l0)) (keeps (only A l0)) (update_status ob) (\<lambda>_. keeps (only A l0))" for ob
    by (rule runs_update_status [OF steady_keeps]) (auto simp: keeps_def written_def elim: only_held)
  have call: "runs (keeps (only A l0)) (keeps (only A l0)) (CallTool (ForPending (pa_id p)) ''execute_action''
      (ExecutionPayload (tg_name tg) (tg_payload tg) (pa_confidence p))) (\<lambda>_. keeps (only A l0))"
    by (rule runs_CallTool_keep [OF steady_keeps])
      (use assms in \<open>auto simp: keeps_def logged_def execution_of_def intro: only_more\<close>)
  have fin: "runs (keeps (only A l0)) (keeps (only A l0)) (finishApproval ob p lab oc a seq ph reason msg now)
      (\<lambda>_. keeps (only A l0))" for ob lab oc a ph reason msg
    unfolding finishApproval_def by (intro runs_bind [OF up]) (auto intro!: runs_ret split: prod.split option.split)
  show ?thesis unfolding execute_approved_def Let_def
    by (intro runs_bind [OF up]) (auto intro!: runs_ret runs_bind [OF call] runs_sum fin split: prod.split option.split)
qed

interpretation only_approval: approval_run "only A l0" "keeps (only A l0)" "\<lambda>_. keeps (only A l0)" cfg now
    "\<lambda>p d tg. execution_of p tg \<in> A" for A l0 cfg now
  by unfold_locales (auto elim: only_held intro: runs_pre [OF only_execute] sound_keeps only_more)

definition run_log :: "('a io) \<Rightarrow> world \<Rightarrow> event list" where
  "run_log m w = wd_log (snd (m w))"

text \<open>A stale object: its writes conflict, so the handler sends nothing.\<close>

definition stale :: "event list \<Rightarrow> int \<Rightarrow> world \<Rightarrow> bool" where
  "stale l0 v w \<longleftrightarrow> keeps (only {} l0) w \<and> v < wd_version w"

lemma stale_steady: "steady (stale l0 v)"
  by (auto simp: stale_def steady_def env_def keeps_def only_def)

lemma stale_update:
  assumes "\<And>x. runs (keeps (only {} l0)) (stale l0 v) (f (Some x, (wl, v))) (\<lambda>_. keeps (only {} l0))"
  shows "runs (keeps (only {} l0)) (stale l0 v) (bindio (update_status (wl, v)) f) (\<lambda>_. keeps (only {} l0))"
proof (rule runs_bind)
  show "runs (keeps (only {} l0)) (stale l0 v) (update_status (wl, v)) (\<lambda>r w. stale l0 v w \<and> (\<exists>x. r = (Some x, (wl, v))))"
    by (rule runs_update_status [OF stale_steady]) (auto simp: stale_def)
  show "runs (keeps (only {} l0)) (\<lambda>w. stale l0 v w \<and> (\<exists>x. r = (Some x, (wl, v)))) (f r) (\<lambda>_. keeps (only {} l0))" for r
    by (rule runs_assume [of _ "\<exists>x. r = (Some x, (wl, v))"], simp) (auto intro: runs_pre [OF assms])
qed

lemma stale_sends_nothing:
  "runs (keeps (only {} l0)) (stale l0 v) (reconcileApproval cfg (wl, v) p now) (\<lambda>_. keeps (only {} l0))"
proof -
  have r: "runs (keeps (only {} l0)) (stale l0 v) (ret x) (\<lambda>_. keeps (only {} l0))" for x :: rresult
    by (rule runs_ret) (simp add: stale_def)
  have hold: "runs (keeps (only {} l0)) (stale l0 v) (holdApproval (wl, v) reason msg n) (\<lambda>_. keeps (only {} l0))"
    for reason msg n
    unfolding holdApproval_def Let_def by (auto intro!: r runs_if stale_update)
  have fin: "runs (keeps (only {} l0)) (stale l0 v) (finishApproval (wl, v) p lab oc a seq ph reason msg now)
      (\<lambda>_. keeps (only {} l0))" for lab oc a seq ph reason msg
    unfolding finishApproval_def by (auto intro!: r stale_update)
  have layers: "runs (keeps (only {} l0)) (stale l0 v) (if b then ret x else bindio (receiptContext cfg) (\<lambda>ctx. ret (f ctx)))
      (\<lambda>_. stale l0 v)" for b f and x :: layers
    unfolding receiptContext_def
    by (auto intro!: runs_ret runs_bind [where R = "\<lambda>_. stale l0 v"] runs_ready [OF stale_steady] simp: stale_def)
  have dec: "runs (keeps (only {} l0)) (stale l0 v) (decide_pending cfg (wl, v) p d proposal now) (\<lambda>_. keeps (only {} l0))"
    for d proposal
    unfolding decide_pending_with decide_with_def fst_conv snd_conv
    by (rule runs_bind [OF layers]) (auto intro!: r stale_update)
  show ?thesis unfolding reconcileApproval_def Let_def
    by (auto intro!: hold fin r dec split: read_result.split option.split)
qed

text \<open>A request for a held action that the run of the handler on this object in this world may send.\<close>

definition justified :: "controller_config \<Rightarrow> world \<Rightarrow> object \<Rightarrow> pending_approval \<Rightarrow> event \<Rightarrow> bool" where
  "justified cfg w ob p e \<longleftrightarrow> snd ob = wd_version w \<and> fst ob = wd_stored w \<and> (\<exists>d proposal ctx.
     Read (w_annotations (fst ob)) (pendingRef (w_uid (fst ob)) (pa_id p) (pa_proposal p)) (cc_key cfg) = Decided d
     \<and> decode_map (pa_proposal p) = Some proposal \<and> ad_label d \<noteq> Reject
     \<and> fst (receiptContext cfg w) = Some ctx
     \<and> \<not> humanBlocked (approval_layers cfg ctx (fst ob) p (decision_target d p proposal))
     \<and> \<not> approvalConsumed (w_status (fst ob)) (pa_id p) \<and> pa_state p \<noteq> ApprovalStateExecuting
     \<and> e = execution_of p (decision_target d p proposal))"

lemma runs_log: "runs (keeps (only A (wd_log w))) (sound (only A (wd_log w)) ob) m (\<lambda>_. keeps (only A (wd_log w)))
   \<Longrightarrow> snapshot w ob \<Longrightarrow> e \<in> set (drop (length (wd_log w)) (run_log m w)) \<Longrightarrow> is_sent e \<Longrightarrow> e \<in> A"
proof -
  assume m: "runs (keeps (only A (wd_log w))) (sound (only A (wd_log w)) ob) m (\<lambda>_. keeps (only A (wd_log w)))"
    and s: "snapshot w ob" and e: "e \<in> set (drop (length (wd_log w)) (run_log m w))" "is_sent e"
  have "sound (only A (wd_log w)) ob w"
    using s by (auto simp: sound_def keeps_def fits_def only_def snapshot_def)
  then have "keeps (only A (wd_log w)) (snd (m w))"
    using m unfolding runs_def by (fastforce split: prod.splits option.splits)
  then show "e \<in> A" using e by (auto simp: keeps_def only_def run_log_def)
qed

lemma reconcileApproval_cases:
  obtains (hold) reason msg n where "reconcileApproval cfg ob p now = holdApproval ob reason msg n"
  | (finish) lab oc a seq ph reason msg where "reconcileApproval cfg ob p now = finishApproval ob p lab oc a seq ph reason msg now"
  | (wait) x where "reconcileApproval cfg ob p now = ret x"
  | (decide) d proposal where "reconcileApproval cfg ob p now = decide_pending cfg ob p d proposal now"
    "\<not> approvalConsumed (w_status (fst ob)) (pa_id p)" "pa_state p \<noteq> ApprovalStateExecuting"
    "Read (w_annotations (fst ob)) (pendingRef (w_uid (fst ob)) (pa_id p) (pa_proposal p)) (cc_key cfg) = Decided d"
    "decode_map (pa_proposal p) = Some proposal"
proof -
  note r = reconcileApproval_def [of cfg ob p now, unfolded Let_def]
  consider (con) "approvalConsumed (w_status (fst ob)) (pa_id p)"
    | (ex) "\<not> approvalConsumed (w_status (fst ob)) (pa_id p)" "pa_state p = ApprovalStateExecuting"
    | (undecided) "\<not> approvalConsumed (w_status (fst ob)) (pa_id p)" "pa_state p \<noteq> ApprovalStateExecuting" by blast
  then show thesis
  proof cases
    case con
    show thesis by (rule hold) (use con in \<open>simp add: r\<close>)
  next
    case ex
    show thesis by (rule finish) (use ex in \<open>simp add: r\<close>)
  next
    case undecided
    show thesis
    proof (cases "Read (w_annotations (fst ob)) (pendingRef (w_uid (fst ob)) (pa_id p) (pa_proposal p)) (cc_key cfg)")
      case NoDecision
      show thesis by (rule wait) (use undecided NoDecision in \<open>simp add: r\<close>)
    next
      case (Refused e)
      show thesis by (rule hold) (use undecided Refused in \<open>simp add: r\<close>)
    next
      case (Decided d)
      show thesis
      proof (cases "decode_map (pa_proposal p)")
        case None
        show thesis by (rule hold) (use undecided Decided None in \<open>simp add: r\<close>)
      next
        case (Some proposal)
        show thesis by (rule decide [of d proposal]) (use undecided Decided Some in \<open>simp_all add: r\<close>)
      qed
    qed
  qed
qed

lemma only_justified:
  assumes "held_by (fst ob) = Some p" "snapshot w ob"
    "e \<in> set (drop (length (wd_log w)) (run_log (reconcileApproval cfg ob p now) w))" "is_sent e"
  shows "justified cfg w ob p e"
proof -
  let ?C = "\<lambda>A. keeps (only A (wd_log w))"
  obtain wl v where ob: "ob = (wl, v)" by (rule prod.exhaust)
  have fresh: "snd ob = wd_version w"
  proof (rule ccontr)
    assume "snd ob \<noteq> wd_version w"
    then have "stale (wd_log w) v w" using assms(2) by (auto simp: stale_def snapshot_def keeps_def only_def ob)
    then have "?C {} (snd (reconcileApproval cfg (wl, v) p now w))"
      using stale_sends_nothing [of "wd_log w" v cfg wl p now] unfolding runs_def
      by (fastforce split: prod.splits option.splits)
    then show False using assms(3,4) by (auto simp: keeps_def only_def run_log_def ob)
  qed
  have no: "m \<noteq> reconcileApproval cfg ob p now"
    if "runs (?C {}) (sound (only {} (wd_log w)) ob) m (\<lambda>_. ?C {})" for m
    using runs_log [OF that assms(2)] assms(3,4) by auto
  have held: "runs (?C {}) (sound (only {} (wd_log w)) ob) (holdApproval ob reason msg n) (\<lambda>_. ?C {})" for reason msg n
    by (rule only_approval.hold)
  obtain d proposal where dec: "\<not> approvalConsumed (w_status (fst ob)) (pa_id p)" "pa_state p \<noteq> ApprovalStateExecuting"
    "Read (w_annotations (fst ob)) (pendingRef (w_uid (fst ob)) (pa_id p) (pa_proposal p)) (cc_key cfg) = Decided d"
    "decode_map (pa_proposal p) = Some proposal"
    and m: "reconcileApproval cfg ob p now = decide_pending cfg ob p d proposal now"
  proof (cases rule: reconcileApproval_cases [of cfg ob p now])
    case (hold reason msg n)
    then show thesis using no [OF held] by metis
  next
    case (finish lab oc a seq ph reason msg)
    then show thesis using no [OF only_approval.finishes] by metis
  next
    case (wait x)
    have "runs (?C {}) (sound (only {} (wd_log w)) ob) (ret x) (\<lambda>_. ?C {})" by (rule runs_ret) (rule sound_keeps)
    then show thesis using no wait by metis
  next
    case (decide d proposal)
    then show thesis using that by blast
  qed
  let ?tg = "decision_target d p proposal"
  have lab: "ad_label d \<noteq> Reject"
  proof
    assume "ad_label d = Reject"
    then have "runs (?C {}) (sound (only {} (wd_log w)) ob) (decide_pending cfg ob p d proposal now) (\<lambda>_. ?C {})"
      by (intro only_approval.decides [OF assms(1) dec(2)]) simp
    with no [OF this] show False using m by simp
  qed
  obtain c w1 where c: "receiptContext cfg w = (c, w1)" by (rule prod.exhaust)
  let ?l = "\<lambda>ctx. approval_layers cfg ctx (fst ob) p ?tg"
  have run: "reconcileApproval cfg ob p now w = (case c of None \<Rightarrow> (None, w1)
      | Some ctx \<Rightarrow> decide_with cfg ob p d proposal now (?l ctx) w1)"
    unfolding m decide_pending_with using lab c by (simp add: bindio_def ret_def split: option.split)
  have pre: "sound (only A (wd_log w)) ob w" for A
    using assms(2) by (auto simp: sound_def keeps_def fits_def only_def snapshot_def)
  have ctx: "case c of None \<Rightarrow> ?C A w1 | Some x \<Rightarrow> sound (only A (wd_log w)) ob w1" for A
    using only_approval.context_runs [of A "wd_log w" ob cfg, unfolded runs_def, rule_format, OF pre] c by simp
  obtain x where x: "c = Some x"
    using run ctx [of "{}"] assms(3,4) by (cases c) (auto simp: keeps_def only_def run_log_def)
  let ?A = "{e. \<not> humanBlocked (?l x) \<and> e = execution_of p ?tg}"
  have "runs (?C ?A) (sound (only ?A (wd_log w)) ob) (decide_with cfg ob p d proposal now (?l x)) (\<lambda>_. ?C ?A)"
    by (rule only_approval.decides_with [OF assms(1) dec(2)]) simp
  then have "?C ?A (snd (reconcileApproval cfg ob p now w))"
    using ctx [of ?A] x run unfolding runs_def by (fastforce split: prod.splits option.splits)
  then have "e \<in> ?A" using assms(3,4) by (auto simp: keeps_def only_def run_log_def)
  then show ?thesis
    using fresh assms(2) dec lab c x unfolding justified_def snapshot_def by auto
qed

end
