(* ===== verification/ApprovalLiveness.thy ===== *)
theory ApprovalLiveness
  imports ControllerSafety
begin

text \<open>
  That an approved action is executed: with an environment that works, a decision that
  verifies and an action no layer blocks, one reconcile sends the action once, writes the
  receipt first and finishes with the action cleared and consumed.
\<close>

text \<open>An effect that takes place, is acknowledged and is not disturbed; a call of it is answered with success.\<close>

definition works :: "tick \<Rightarrow> bool" where
  "works t \<longleftrightarrow> tk_edit t = None \<and> tk_done t \<and> tk_ok t \<and> tk_num t = 200
     \<and> (case tk_body t of None \<Rightarrow> False | Some b \<Rightarrow> tr_success b)"

lemma next_works: "works t \<Longrightarrow> wd_ticks w = t # ts \<Longrightarrow> next_tick w = (Some t, w\<lparr>wd_ticks := ts\<rparr>)"
  by (simp add: next_tick_def apply_edit_def works_def)

text \<open>The handler returns, with a result and a world as said.\<close>

definition returns :: "'a io \<Rightarrow> world \<Rightarrow> ('a \<Rightarrow> world \<Rightarrow> bool) \<Rightarrow> bool" where
  "returns m w Q \<longleftrightarrow> (case m w of (None, _) \<Rightarrow> False | (Some x, w') \<Rightarrow> Q x w')"

lemma returns_ret: "Q x w \<Longrightarrow> returns (ret x) w Q"
  by (simp add: returns_def ret_def)

lemma returns_bind: "returns m w R \<Longrightarrow> (\<And>x w'. R x w' \<Longrightarrow> returns (f x) w' Q) \<Longrightarrow> returns (bindio m f) w Q"
  by (fastforce simp: returns_def bindio_def split: prod.splits option.splits)

lemma returns_conseq: "returns m w R \<Longrightarrow> (\<And>x w'. R x w' \<Longrightarrow> Q x w') \<Longrightarrow> returns m w Q"
  by (auto simp: returns_def split: prod.splits option.splits)

text \<open>At least so many ticks are left, and all of them work.\<close>

definition ready :: "nat \<Rightarrow> world \<Rightarrow> bool" where
  "ready k w \<longleftrightarrow> k \<le> length (wd_ticks w) \<and> (\<forall>t\<in>set (wd_ticks w). works t)"

lemma ready_mono: "ready k w \<Longrightarrow> j \<le> k \<Longrightarrow> ready j w"
  by (auto simp: ready_def)

lemma ready_logged [simp]: "ready k (logged w e) = ready k w"
  by (simp add: ready_def logged_def)

lemma ready_Suc:
  assumes "ready (Suc k) w"
  obtains t ts where "wd_ticks w = t # ts" "works t" "ready k (w\<lparr>wd_ticks := ts\<rparr>)"
  using assms by (cases "wd_ticks w") (auto simp: ready_def)

lemma returns_next:
  assumes "ready (Suc k) w"
  shows "returns next_tick w (\<lambda>t w'. works t \<and> ready k w' \<and> w' = w\<lparr>wd_ticks := tl (wd_ticks w)\<rparr>)"
  using assms by (rule ready_Suc) (auto simp: returns_def next_works)

lemma update_works:
  assumes "ready (Suc k) w" "snd ob = wd_version w"
  shows "returns (update_status ob) w (\<lambda>(e, ob1) w1. e = None \<and> w_status (fst ob1) = w_status (fst ob)
     \<and> snd ob1 = wd_version w1 \<and> w_status (wd_stored w1) = w_status (fst ob) \<and> wd_log w1 = wd_log w \<and> ready k w1)"
  unfolding update_status_def
  by (rule returns_bind [OF returns_next [OF assms(1)]])
    (use assms(2) in \<open>auto simp: Let_def works_def returns_def ret_def ready_def\<close>)

lemma call_works:
  assumes "ready (Suc k) w" "Marshal (GMap [(''tool'', GStr tool), (''params'', g)]) \<noteq> None"
  shows "returns (CallTool org tool g) w (\<lambda>r w1. \<not> isl r \<and> wd_log w1 = wd_log w @ [EvPost org tool g]
     \<and> wd_version w1 = wd_version w \<and> ready k w1)"
proof -
  obtain t ts where t: "wd_ticks w = t # ts" "works t" "ready k (w\<lparr>wd_ticks := ts\<rparr>)" using assms(1) by (rule ready_Suc)
  then show ?thesis using assms(2)
    by (auto simp: CallTool_def maxRetries_def numeral_2_eq_2 bindio_def post_def next_works ret_def works_def ready_def
      retryableStatus_def tool_result_def returns_def split: option.splits)
qed

lemma append_works:
  assumes "ready (Suc k) w" "cc_writer cfg"
  shows "returns (appendRecord cfg r) w (\<lambda>a w1. \<not> isl a \<and> wd_log w1 = wd_log w @ [EvReceipt r]
     \<and> wd_version w1 = wd_version w \<and> ready k w1)"
proof -
  obtain t ts where t: "wd_ticks w = t # ts" "works t" "ready k (w\<lparr>wd_ticks := ts\<rparr>)" using assms(1) by (rule ready_Suc)
  then show ?thesis using assms(2)
    by (auto simp: appendRecord_def writer_append_def bindio_def next_works ret_def Let_def works_def returns_def ready_def)
qed

lemma finish_works:
  assumes "ready (Suc k) w" "snd ob = wd_version w"
  shows "returns (finishApproval ob p lab oc a seq ''Completed'' reason msg now) w (\<lambda>x w'. x = requeue 30 \<and> wd_log w' = wd_log w
     \<and> w_status (wd_stored w') = finish_status (fst ob) p lab oc a seq ''Completed'' reason msg now)"
  unfolding finishApproval_def
  by (rule returns_bind [OF update_works [OF assms(1)]])
    (auto intro!: returns_ret simp: assms(2) set_status_def PhaseRejected_def)

text \<open>What is left when the action was executed.\<close>

definition executed_world :: "pending_approval \<Rightarrow> approval_decision \<Rightarrow> int \<Rightarrow> event list \<Rightarrow> world \<Rightarrow> bool" where
  "executed_world p d now evs w \<longleftrightarrow> wd_log w = evs \<and> st_pending (w_status (wd_stored w)) = None
     \<and> st_phase (w_status (wd_stored w)) = ''Completed'' \<and> approvalConsumed (w_status (wd_stored w)) (pa_id p)
     \<and> (case st_last_approval (w_status (wd_stored w)) of None \<Rightarrow> False
        | Some a \<Rightarrow> ao_outcome a = ''executed'' \<and> ao_decision a = ad_label d \<and> ao_decided_at a = now)"

lemma execute_works:
  assumes "ready 3 w" "snd ob = wd_version w"
    and m: "Marshal (GMap [(''tool'', GStr ''execute_action''),
              (''params'', ExecutionPayload (tg_name tg) (tg_payload tg) (pa_confidence p))]) \<noteq> None"
  shows "returns (execute_approved ob p d tg seq now) w
     (\<lambda>x w'. x = requeue 30 \<and> executed_world p d now (wd_log w @ [execution_of p tg]) w')"
  unfolding execute_approved_def Let_def
proof (rule returns_bind [OF update_works [of 2]], goal_cases)
  case (3 r w1)
  obtain e ob1 where r: "r = (e, ob1)" by (rule prod.exhaust)
  have *: "snd ob1 = wd_version w1" "wd_log w1 = wd_log w" "ready (Suc 1) w1" "e = None"
    using 3 by (auto simp: r numeral_2_eq_2)
  show ?case unfolding r prod.case *(4) option.case
  proof (rule returns_bind [OF call_works [OF *(3) m]], goal_cases)
    case (1 res w2)
    then obtain g where res: "res = Inr g" by (cases res) auto
    have w2: "ready (Suc 0) w2" "snd ob1 = wd_version w2" "wd_log w2 = wd_log w @ [execution_of p tg]"
      using 1 * by (auto simp: execution_of_def)
    show ?case unfolding res sum.case
      by (rule returns_conseq [OF finish_works [OF w2(1)]])
        (auto simp: w2 executed_world_def finish_status_def set_status_def approvalConsumed_def Let_def)
  qed
qed (use assms in \<open>simp_all add: numeral_3_eq_3 numeral_2_eq_2\<close>)


text \<open>The steps before: the writer's state, the receipt, the example.\<close>

definition decision_context :: "controller_config \<Rightarrow> inv_context" where
  "decision_context cfg = (if cc_enabled cfg
     then \<lparr>ctx_receipts_required = cc_required cfg, ctx_writer_available = True\<rparr>
     else \<lparr>ctx_receipts_required = False, ctx_writer_available = False\<rparr>)"

lemma context_works:
  assumes "ready (Suc k) w" "cc_enabled cfg \<longrightarrow> cc_writer cfg"
  shows "returns (receiptContext cfg) w (\<lambda>ctx w1. ctx = decision_context cfg \<and> wd_log w1 = wd_log w
     \<and> wd_version w1 = wd_version w \<and> ready k w1)"
proof (cases "cc_enabled cfg")
  case True
  have "returns writer_ready w (\<lambda>x w1. x \<and> wd_log w1 = wd_log w \<and> wd_version w1 = wd_version w \<and> ready k w1)"
    unfolding writer_ready_def
    by (rule returns_bind [OF returns_next [OF assms(1)]]) (auto intro!: returns_ret simp: works_def)
  then show ?thesis using True assms(2)
    by (auto simp: receiptContext_def decision_context_def intro!: returns_bind returns_ret elim: returns_conseq)
next
  case False
  then show ?thesis using ready_mono [OF assms(1)]
    by (auto simp: receiptContext_def decision_context_def returns_def ret_def)
qed

lemma human_works:
  assumes "ready (Suc k) w" "cc_enabled cfg \<longrightarrow> cc_writer cfg \<and> human = Inr r"
  shows "returns (human_receipt cfg human) w (\<lambda>hr w1. (\<exists>rc. hr = Inr rc) \<and> wd_version w1 = wd_version w \<and> ready k w1
     \<and> wd_log w1 = wd_log w @ (if cc_enabled cfg then [EvReceipt r] else []))"
proof (cases "cc_enabled cfg")
  case True
  then have "cc_writer cfg" "human = Inr r" using assms(2) by auto
  then show ?thesis unfolding human_receipt_def using True
    by (auto intro!: returns_bind [OF append_works [OF assms(1)]] returns_ret split: sum.split)
next
  case False
  then show ?thesis using ready_mono [OF assms(1)] by (auto simp: human_receipt_def returns_def ret_def)
qed

lemma example_works:
  assumes "ready (Suc k) w"
  shows "returns (case rc of None \<Rightarrow> ret wl | Some i \<Rightarrow> storeExample cfg wl i) w
     (\<lambda>_ w1. wd_log w1 = wd_log w \<and> wd_version w1 = wd_version w \<and> ready k w1)"
proof -
  have "returns (ret x) w (\<lambda>_ w1. wd_log w1 = wd_log w \<and> wd_version w1 = wd_version w \<and> ready k w1)" for x :: agent_workload
    using ready_mono [OF assms] by (auto intro!: returns_ret)
  then show ?thesis
    by (auto simp: storeExample_def intro!: returns_bind [OF returns_next [OF assms]] returns_ret split: option.split)
qed

lemma act_works:
  assumes "ready 3 w" "snd ob = wd_version w" "ad_label d \<noteq> Reject" "\<not> humanBlocked l"
    and "Marshal (GMap [(''tool'', GStr ''execute_action''),
              (''params'', ExecutionPayload (tg_name tg) (tg_payload tg) (pa_confidence p))]) \<noteq> None"
  shows "returns (act_on_decision cfg ob p d tg l seq now) w
     (\<lambda>x w'. x = requeue 30 \<and> executed_world p d now (wd_log w @ [execution_of p tg]) w')"
  using execute_works [OF assms(1,2,5)] assms(3,4) by (simp add: act_on_decision_def)

lemma decide_works:
  assumes "ready 7 w" "snd ob = wd_version w" "ad_label d \<noteq> Reject"
    and "\<not> humanBlocked (approval_layers cfg (decision_context cfg) (fst ob) p (decision_target d p proposal))"
    and e: "cc_enabled cfg \<longrightarrow> cc_writer cfg \<and> NewHumanRecord (cc_spec cfg) (human_params_of cfg (fst ob) p d proposal) = Inr r"
    and "Marshal (GMap [(''tool'', GStr ''execute_action''), (''params'', ExecutionPayload
           (tg_name (decision_target d p proposal)) (tg_payload (decision_target d p proposal)) (pa_confidence p))]) \<noteq> None"
  shows "returns (decide_pending cfg ob p d proposal now) w (\<lambda>x w'. x = requeue 30
     \<and> executed_world p d now (wd_log w @ (if cc_enabled cfg then [EvReceipt r] else [])
           @ [execution_of p (decision_target d p proposal)]) w')"
proof -
  let ?tg = "decision_target d p proposal"
  have l: "returns (bindio (receiptContext cfg) (\<lambda>ctx. ret (approval_layers cfg ctx (fst ob) p ?tg))) w
      (\<lambda>l w1. \<not> humanBlocked l \<and> wd_log w1 = wd_log w \<and> wd_version w1 = wd_version w \<and> ready (Suc 5) w1)"
    using assms(1,4) e by (intro returns_bind [OF context_works]) (auto intro!: returns_ret simp: eval_nat_numeral)
  show ?thesis unfolding decide_pending_def Let_def if_not_P [OF assms(3)]
  proof (rule returns_bind [OF l], elim conjE)
    fix l w1 assume l: "\<not> humanBlocked l" and w1: "wd_log w1 = wd_log w" "wd_version w1 = wd_version w" "ready (Suc 5) w1"
    show "returns (bindio (update_status (set_pending (fst ob) p ApprovalStateRecording (ad_label d), snd ob)) (\<lambda>(e, ob1).
        case e of Some x \<Rightarrow> ret (api_failed x)
        | None \<Rightarrow>
          bindio (human_receipt cfg (NewHumanRecord (cc_spec cfg) (human_params_of cfg (fst ob) p d proposal))) (\<lambda>hr.
            case hr of
              Inl _ \<Rightarrow> holdApproval (set_pending (fst ob1) p [] [], snd ob1) ''ReceiptFailed''
                 ''approval decision receipt could not be written and receipts are required; not acting'' 60
            | Inr rc \<Rightarrow>
                bindio (case rc of None \<Rightarrow> ret (fst ob1) | Some i \<Rightarrow> storeExample cfg (fst ob1) i) (\<lambda>wl2.
                  act_on_decision cfg (wl2, snd ob1) p d ?tg l (receiptSeq rc) now)))) w1
      (\<lambda>x w'. x = requeue 30 \<and> executed_world p d now (wd_log w @ (if cc_enabled cfg then [EvReceipt r] else [])
           @ [execution_of p ?tg]) w')"
    proof (rule returns_bind [OF update_works [OF w1(3)]], simp add: assms(2) w1(2), goal_cases)
      case (1 x w2)
      obtain e ob1 where x: "x = (e, ob1)" by (rule prod.exhaust)
      have *: "e = None" "snd ob1 = wd_version w2" "wd_log w2 = wd_log w" "ready (Suc 4) w2"
        using 1 w1(1) by (auto simp: x eval_nat_numeral)
      show ?case unfolding x prod.case *(1) option.case
      proof (rule returns_bind [OF human_works [OF *(4) e]], elim conjE exE)
        fix hr :: "string + issued option" and w3 rc assume hr: "hr = Inr rc" and w3: "wd_version w3 = wd_version w2" "ready 4 w3"
          "wd_log w3 = wd_log w2 @ (if cc_enabled cfg then [EvReceipt r] else [])"
        have "ready (Suc 3) w3" using w3(2) by (simp add: eval_nat_numeral)
        show "returns (case hr of
              Inl _ \<Rightarrow> holdApproval (set_pending (fst ob1) p [] [], snd ob1) ''ReceiptFailed''
                 ''approval decision receipt could not be written and receipts are required; not acting'' 60
            | Inr rc \<Rightarrow>
                bindio (case rc of None \<Rightarrow> ret (fst ob1) | Some i \<Rightarrow> storeExample cfg (fst ob1) i) (\<lambda>wl2.
                  act_on_decision cfg (wl2, snd ob1) p d ?tg l (receiptSeq rc) now)) w3
          (\<lambda>x w'. x = requeue 30 \<and> executed_world p d now (wd_log w @ (if cc_enabled cfg then [EvReceipt r] else [])
             @ [execution_of p ?tg]) w')"
          unfolding hr sum.case
          by (rule returns_bind [OF example_works [OF \<open>ready (Suc 3) w3\<close>]], elim conjE,
              rule returns_conseq [OF act_works])
            (use assms(3,6) l w3 * in auto)
      qed
    qed
  qed
qed

end
