(* ===== verification/ControllerTheorems.thy ===== *)
theory ControllerTheorems
  imports ApprovalLiveness
begin

text \<open>
  The properties of the controller, with one held action that a human approved as the
  concrete input of their witnesses.
\<close>

section \<open>An approved action\<close>

definition wit_cfg :: controller_config where
  "wit_cfg = \<lparr>cc_enabled = True, cc_required = True, cc_writer = True, cc_dataset = False, cc_scorer = None,
     cc_unavailable = None, cc_key = ''key'', cc_spec = Receipts.wit_spec, cc_compile = (\<lambda>_. Inl ''no packs''),
     cc_entry = (\<lambda>_ _. ''''), cc_time = (\<lambda>_. '''')\<rparr>"

definition wit_rc :: reconcile_config where
  "wit_rc = \<lparr>rc_controller = wit_cfg, rc_runtimes = [], rc_default_runtime = '''', rc_licence = (\<lambda>_. None),
     rc_counts = False, rc_quota = False, rc_sandbox_class = '''', rc_secrets = (\<lambda>_ _. Inl ''''), rc_retries = 0\<rparr>"

definition wit_held :: pending_approval where
  "wit_held = \<lparr>pa_id = ''p1'', pa_action = ''scale'', pa_description = ''more replicas'', pa_confidence = ''0.99'',
     pa_cluster_health = ''90'', pa_claimed_health = '''', pa_proposal = ''{}'', pa_record = ''{}'',
     pa_receipt_seq = 0, pa_receipt_hash = '''', pa_proposed_at = 5, pa_state = '''', pa_decision = ''''\<rparr>"

definition wit_wl :: agent_workload where
  "wit_wl = \<lparr>w_name = ''w'', w_namespace = ''ns'', w_uid = ''u1'', w_generation = 1, w_annotations = wit_res,
     w_finalizers = [AgentWorkloadFinalizer], w_deleting = False, w_spec = empty_spec,
     w_status = empty_status\<lparr>st_phase := PhasePendingApproval, st_pending := Some wit_held\<rparr>\<rparr>"

definition wit_tick :: tick where
  "wit_tick = \<lparr>tk_edit = None, tk_done = True, tk_ok = True, tk_num = 200,
     tk_body = Some \<lparr>tr_result = GMap [], tr_success = True\<rparr>, tk_text = '''',
     tk_exec = \<lparr>ex_phase = '''', ex_name = '''', ex_namespace = '''', ex_uid = '''', ex_message = ''''\<rparr>,
     tk_pods = [], tk_http = Inl (NotSent '''')\<rparr>"

definition wit_world :: world where
  "wit_world = \<lparr>wd_stored = wit_wl, wd_version = 7, wd_log = [], wd_ticks = replicate 7 wit_tick\<rparr>"

lemma wit_target:
  "ad_label d = ''approve'' \<Longrightarrow> decision_target d wit_held (GMap []) =
     \<lparr>tg_name = ''scale'', tg_description = ''more replicas'', tg_payload = GMap []\<rparr>"
  by (simp add: decision_target_def wit_held_def Edit_def)

lemma wit_decoded: "decode_map ''{}'' = Some (GMap [])"
  by code_simp

lemma wit_layers:
  "\<not> humanBlocked (approval_layers wit_cfg ctx wit_wl wit_held
      \<lparr>tg_name = ''scale'', tg_description = ''more replicas'', tg_payload = GMap []\<rparr>)"
  if "ctx_receipts_required ctx \<longrightarrow> ctx_writer_available ctx"
proof -
  let ?i = "approval_input wit_wl wit_held \<lparr>tg_name = ''scale'', tg_description = ''more replicas'', tg_payload = GMap []\<rparr>"
  have "snd (Scan (GMap []))" "Strings (fst (Scan (GMap []))) = []" by code_simp+
  then obtain cl where scan: "Scan (GMap []) = (cl, True)" "Strings cl = []"
    by (cases "Scan (GMap [])") auto
  have host: "Host [] = []" by code_simp
  have viol: "Violations \<lparr>in_declared = zero_declared, in_observed = \<lparr>o_destination = [], o_classes = [], o_tool = t,
      o_caller = [], o_prior_actions = 0, o_prior_denied = 0, o_scan_incomplete = False\<rparr>, in_claimed = c\<rparr> = []" for t c
    by (simp add: Violations_empty DataClassViolation_empty DestinationViolation_empty zero_declared_def IsZero_def)
  have "Check ?i ctx = []" unfolding Check_clear
    using that
    by (simp add: approval_input_def wit_wl_def wit_held_def empty_status_def empty_spec_def mcp_endpoint_def
        History_def Observe_def Declared_def Let_def scan host viol)
  then show ?thesis
    by (simp add: humanBlocked_def approval_layers_def evaluateLayers_def eval_workload_packs_def wit_wl_def empty_spec_def)
qed

text \<open>The facts about it that the properties ask for.\<close>

abbreviation wit_tg :: target where
  "wit_tg \<equiv> \<lparr>tg_name = ''scale'', tg_description = ''more replicas'', tg_payload = GMap []\<rparr>"

lemma wit_decision:
  obtains d where "Read (w_annotations wit_wl) (pendingRef (w_uid wit_wl) (pa_id wit_held) (pa_proposal wit_held)) (cc_key wit_cfg)
      = Decided d" "ad_label d = ''approve''" "ap_username (ad_approver d) = ''alice''"
  using Admit_then_Read [OF wit_admit _ wit_fresh(1) wit_utf8(1)]
  by (auto simp: wit_get wit_wl_def wit_held_def wit_cfg_def wit_pending_def)

lemma wit_payload: "\<exists>h. PayloadSHA256 (ExecutionPayload ''scale'' (GMap []) ''0.99'') = Inr h"
proof -
  have "(case Marshal (ExecutionPayload ''scale'' (GMap []) ''0.99'') of None \<Rightarrow> False
     | Some raw \<Rightarrow> (case Unmarshal raw of None \<Rightarrow> False | Some v \<Rightarrow> Marshal v \<noteq> None))"
    by code_simp
  then show ?thesis by (auto simp: PayloadSHA256_def split: option.splits)
qed

lemma wit_human:
  assumes "ad_label d = ''approve''" "ap_username (ad_approver d) = ''alice''"
  shows "\<exists>r. NewHumanRecord (cc_spec wit_cfg) (human_params_of wit_cfg wit_wl wit_held d (GMap [])) = Inr r"
proof -
  have p: "pa_id wit_held = ''p1''" "pa_confidence wit_held = ''0.99''" by (simp_all add: wit_held_def)
  have h: "\<exists>x. hashHex (cc_spec wit_cfg) j = Inr x" for j
    by (simp add: hashHex_def wit_cfg_def Receipts.wit_spec_def)
  obtain x where x: "PayloadSHA256 (ExecutionPayload ''scale'' (GMap []) ''0.99'') = Inr x" using wit_payload by blast
  have "\<exists>r. NewDecisionRecord (cc_spec wit_cfg) (human_base (human_params_of cfg wl wit_held d (GMap []))) = Inr r" for cfg wl
    using x
    by (simp add: NewDecisionRecord_def human_base_def human_params_of_def Let_def mapResult_def map_outcome_def
        map_layer_def InputHash_def wit_target [OF assms(1)] p)
      (metis h)
  then show ?thesis using assms
    by (simp add: NewHumanRecord_def human_params_of_def Let_def OutcomeForLabel_def LabelApprove_def ApproverSHA256_def p)
qed

lemma wit_state:
  "\<not> approvalConsumed (w_status wit_wl) (pa_id wit_held)" "pa_state wit_held \<noteq> ApprovalStateExecuting"
  "ready 7 wit_world" "decode_map (pa_proposal wit_held) = Some (GMap [])" "wd_log wit_world = []"
  "snapshot wit_world (wit_wl, 7)" "held_by wit_wl = Some wit_held"
  using wit_decoded
  by (simp_all add: approvalConsumed_def wit_wl_def empty_status_def wit_held_def ApprovalStateExecuting_def ready_def
      wit_world_def works_def wit_tick_def snapshot_def held_by_def)

lemma wit_checks:
  "\<not> humanBlocked (approval_layers wit_cfg (decision_context wit_cfg) wit_wl wit_held wit_tg)"
  "Marshal (GMap [(''tool'', GStr ''execute_action''),
      (''params'', ExecutionPayload (tg_name wit_tg) (tg_payload wit_tg) (pa_confidence wit_held))]) \<noteq> None"
proof -
  show "\<not> humanBlocked (approval_layers wit_cfg (decision_context wit_cfg) wit_wl wit_held wit_tg)"
    by (rule wit_layers) (simp add: decision_context_def)
  have "Marshal (GMap [(''tool'', GStr ''execute_action''), (''params'', ExecutionPayload ''scale'' (GMap []) ''0.99'')]) \<noteq> None"
    by code_simp
  then show "Marshal (GMap [(''tool'', GStr ''execute_action''),
      (''params'', ExecutionPayload (tg_name wit_tg) (tg_payload wit_tg) (pa_confidence wit_held))]) \<noteq> None"
    by (simp only: target.simps wit_held_def pending_approval.simps not_False_eq_True)
qed

lemma wit_annotation: "w_annotations wit_wl templateAnnotation = None"
  by (simp add: wit_wl_def wit_res_def wit_by_def wit_new_def templateAnnotation_def AnnotationDecision_def AnnotationBy_def
      AnnotationFor_def AnnotationMAC_def)

lemma wit_gates: "Reconcile wit_rc (wit_wl, v) now w = reconcileApproval wit_cfg (wit_wl, v) wit_held now w"
proof -
  have f: "w_deleting wit_wl = False" "w_finalizers wit_wl = [AgentWorkloadFinalizer]" "w_spec wit_wl = empty_spec"
    "st_conditions (w_status wit_wl) = []" "st_phase (w_status wit_wl) = PhasePendingApproval"
    "st_pending (w_status wit_wl) = Some wit_held" "st_workflow (w_status wit_wl) = None"
    by (simp_all add: wit_wl_def empty_status_def)
  show ?thesis
    by (simp add: Reconcile_def reconcile_template_def reconcile_finalizer_def reconcile_packs_def policyPackProblem_def
      reconcile_licence_def reconcile_quota_def reconcile_routing_def reconcile_action_def wit_rc_def f wit_annotation
      empty_spec_def is_true_def find_condition_def has_execution_def orchestrated_def PhasePendingApproval_def
      PhaseRejected_def reconcilePersonaNamespaceLabels_def bindio_def ret_def Let_def)
qed

lemma executes:
  assumes "Read (w_annotations (fst ob)) (pendingRef (w_uid (fst ob)) (pa_id p) (pa_proposal p)) (cc_key cfg) = Decided d"
    "ad_label d \<noteq> Reject" "\<not> approvalConsumed (w_status (fst ob)) (pa_id p)" "pa_state p \<noteq> ApprovalStateExecuting"
    "decode_map (pa_proposal p) = Some proposal" "tg = decision_target d p proposal"
    "\<not> humanBlocked (approval_layers cfg (decision_context cfg) (fst ob) p tg)"
    "cc_enabled cfg \<longrightarrow> cc_writer cfg \<and> NewHumanRecord (cc_spec cfg) (human_params_of cfg (fst ob) p d proposal) = Inr r"
    "Marshal (GMap [(''tool'', GStr ''execute_action''),
        (''params'', ExecutionPayload (tg_name tg) (tg_payload tg) (pa_confidence p))]) \<noteq> None"
    "ready 7 w" "snd ob = wd_version w"
  shows "\<exists>w'. reconcileApproval cfg ob p now w = (Some (requeue 30), w')
    \<and> executed_world p d now (wd_log w @ (if cc_enabled cfg then [EvReceipt r] else []) @ [execution_of p tg]) w'"
proof -
  have "returns (decide_pending cfg ob p d proposal now) w (\<lambda>x w'. x = requeue 30 \<and> executed_world p d now
      (wd_log w @ (if cc_enabled cfg then [EvReceipt r] else []) @ [execution_of p tg]) w')"
    using decide_works [OF assms(10,11,2)] assms(6-9) by blast
  then show ?thesis using assms(1,3,4,5)
    by (auto simp: reconcileApproval_def Let_def returns_def split: prod.splits option.splits)
qed

text \<open>The run of the controller on the approved action, as a reconcile of a reachable world.\<close>

definition wit_final :: world where
  "wit_final = reconcile_run wit_rc (wit_wl, 7) 9 (replicate 7 wit_tick) wit_world"

lemma wit_run:
  obtains d r where "reconcileApproval wit_cfg (wit_wl, 7) wit_held 9 wit_world = (Some (requeue 30), wit_final)"
    "executed_world wit_held d 9 [EvReceipt r, execution_of wit_held wit_tg] wit_final"
proof (rule wit_decision)
  fix d assume r: "Read (w_annotations wit_wl) (pendingRef (w_uid wit_wl) (pa_id wit_held) (pa_proposal wit_held)) (cc_key wit_cfg)
      = Decided d" and l: "ad_label d = ''approve''" "ap_username (ad_approver d) = ''alice''"
  obtain h where h: "NewHumanRecord (cc_spec wit_cfg) (human_params_of wit_cfg wit_wl wit_held d (GMap [])) = Inr h"
    using wit_human [OF l] by blast
  have n: "ad_label d \<noteq> Reject" "cc_enabled wit_cfg" "cc_writer wit_cfg" "7 = wd_version wit_world"
    using l by (simp_all add: Reject_def wit_cfg_def wit_world_def)
  have e: "cc_enabled wit_cfg \<longrightarrow> cc_writer wit_cfg
      \<and> NewHumanRecord (cc_spec wit_cfg) (human_params_of wit_cfg wit_wl wit_held d (GMap [])) = Inr h"
    using n h by blast
  obtain w' where w': "reconcileApproval wit_cfg (wit_wl, 7) wit_held 9 wit_world = (Some (requeue 30), w')"
    "executed_world wit_held d 9 [EvReceipt h, execution_of wit_held wit_tg] w'"
    using executes [of "(wit_wl, 7)" wit_held wit_cfg d "GMap []" wit_tg h wit_world 9,
        unfolded fst_conv snd_conv, OF r n(1) wit_state(1,2,4) wit_target [OF l(1), symmetric] wit_checks(1) e wit_checks(2)
        wit_state(3) n(4)]
    unfolding wit_state(5) if_P [OF n(2)] append_Nil append_Cons by blast
  have "wit_world\<lparr>wd_ticks := replicate 7 wit_tick\<rparr> = wit_world" by (simp add: wit_world_def)
  then have "wit_final = w'" using w'(1) by (simp add: wit_final_def reconcile_run_def wit_gates)
  with w' that show thesis by blast
qed

lemma wit_reachable: "reachable wit_rc wit_final"
proof (rule wit_run)
  fix d r assume "executed_world wit_held d 9 [EvReceipt r, execution_of wit_held wit_tg] wit_final"
  then have h: "held_by (wd_stored wit_final) = None" by (simp add: executed_world_def held_by_def)
  have "reachable wit_rc wit_world" by (rule created) (simp add: wit_state)
  then show ?thesis unfolding wit_final_def
  proof (rule reconciled)
    show "snapshot wit_world (wit_wl, 7)" by (rule wit_state)
    show "pa_proposed_at p < 9" if "held_by (wd_stored wit_world) = Some p" for p
      using that wit_state(7) by (auto simp: wit_world_def wit_held_def)
    show "new_id 9 wit_world (reconcile_run wit_rc (wit_wl, 7) 9 (replicate 7 wit_tick) wit_world)"
      using h by (simp add: new_id_def wit_final_def)
  qed
qed

section \<open>Properties\<close>

text \<open>C4: an approved action is executed. When the decision of a held action verifies, the action is not yet
  decided or in execution, no layer a human cannot override objects, and the environment works, the reconcile
  returns, has written the receipt of the decision when receipts are enabled, has then sent the action exactly
  once, and has stored it as executed: nothing is held, the phase is Completed and the id is consumed.\<close>

theorem approved_action_executes:
  assumes "Read (w_annotations (fst ob)) (pendingRef (w_uid (fst ob)) (pa_id p) (pa_proposal p)) (cc_key cfg) = Decided d"
    "ad_label d \<noteq> Reject" "\<not> approvalConsumed (w_status (fst ob)) (pa_id p)" "pa_state p \<noteq> ApprovalStateExecuting"
    "decode_map (pa_proposal p) = Some proposal" "tg = decision_target d p proposal"
    "\<not> humanBlocked (approval_layers cfg (decision_context cfg) (fst ob) p tg)"
    "cc_enabled cfg \<longrightarrow> cc_writer cfg \<and> NewHumanRecord (cc_spec cfg) (human_params_of cfg (fst ob) p d proposal) = Inr r"
    "Marshal (GMap [(''tool'', GStr ''execute_action''),
        (''params'', ExecutionPayload (tg_name tg) (tg_payload tg) (pa_confidence p))]) \<noteq> None"
    "ready 7 w" "snd ob = wd_version w"
  shows "\<exists>w'. reconcileApproval cfg ob p now w = (Some (requeue 30), w')
    \<and> executed_world p d now (wd_log w @ (if cc_enabled cfg then [EvReceipt r] else []) @ [execution_of p tg]) w'"
  using assms by (rule executes)

text \<open>C3: every request the approval handler sends for a held action carries out a decision of a human. The object the
  handler was given was the stored one when it started (with a stale one it sends nothing); on it a stamped decision of this
  action verified that is no rejection, the action was neither decided before nor in execution, no layer a human cannot
  override objected to the action the decision names, with the receipt context the handler asked for in this very
  run, and the request is exactly the execution of that action.\<close>

theorem execution_needs_human_decision:
  assumes "held_by (fst ob) = Some p" "snapshot w ob"
    "EvPost (ForPending i) tool g \<in> set (drop (length (wd_log w)) (run_log (reconcileApproval cfg ob p now) w))"
  shows "snd ob = wd_version w \<and> fst ob = wd_stored w \<and> (\<exists>d proposal ctx.
     Read (w_annotations (wd_stored w)) (pendingRef (w_uid (wd_stored w)) (pa_id p) (pa_proposal p)) (cc_key cfg) = Decided d
     \<and> decode_map (pa_proposal p) = Some proposal \<and> ad_label d \<noteq> Reject
     \<and> fst (receiptContext cfg w) = Some ctx
     \<and> \<not> humanBlocked (approval_layers cfg ctx (wd_stored w) p (decision_target d p proposal))
     \<and> \<not> approvalConsumed (w_status (wd_stored w)) (pa_id p) \<and> pa_state p \<noteq> ApprovalStateExecuting
     \<and> EvPost (ForPending i) tool g = execution_of p (decision_target d p proposal))"
  using only_justified [OF assms] by (auto simp: justified_def)

text \<open>C1: a held action is sent in one call only. Whatever happens to the controller before (stale reads, edits of
  users, lost writes and answers, crashes at any effect, any number of reconciles), at most the requests of one call
  with its retries were sent for an id; one that had any gets no more from the next reconcile, whatever its
  read and its environment; and none was sent for an action that is still held and not marked as executing.\<close>

theorem held_action_sent_once:
  assumes "reachable rc w" "snapshot w ob"
  shows "sent i (wd_log w) \<le> 3
    \<and> (0 < sent i (wd_log w) \<longrightarrow> sent i (wd_log (reconcile_run rc ob now ts w)) = sent i (wd_log w))
    \<and> (held_by (wd_stored w) = Some p \<and> pa_state p \<noteq> ApprovalStateExecuting \<longrightarrow> sent (pa_id p) (wd_log w) = 0)"
proof -
  have "sent i (wd_log (reconcile_run rc ob now ts w)) = sent i (wd_log w)" if "0 < sent i (wd_log w)"
    using run_settled [OF reachable_idle [OF assms(1)] assms(2), of now rc ts] that
    by (auto simp: settled_def keeps_def idle_def)
  then show ?thesis using reachable_idle [OF assms(1)]
    by (auto simp: keeps_def idle_def maxRetries_def)
qed

text \<open>C2: write-ahead receipts. With receipts enabled and required, in every reachable world each execution, of the
  direct path or of a held action, comes after a stored receipt for the digest of exactly its payload: one with the
  outcome allow on the direct path, one of a human approval or edit of the same id for a held action.\<close>

theorem receipt_before_execution:
  assumes "reachable rc w" "cc_enabled (rc_controller rc)" "cc_required (rc_controller rc)"
    "wd_log w = before @ EvPost org ''execute_action'' g # after"
  shows "\<exists>r\<in>set (receipts_of before). authorises r org g"
proof -
  have "write_ahead [] (wd_log w)"
    using reachable_covered [OF assms(1)] assms(2,3) by (simp add: keeps_def covered_def strict_receipts_def)
  then show ?thesis by (auto simp: assms(4) list_ex_iff)
qed

section \<open>Witnesses\<close>

lemma approved_action_executes_witness:
  "\<exists>d r w'. reconcileApproval wit_cfg (wit_wl, 7) wit_held 9 wit_world = (Some (requeue 30), w')
    \<and> executed_world wit_held d 9 [EvReceipt r, execution_of wit_held wit_tg] w'"
proof (rule wit_decision)
  fix d assume r: "Read (w_annotations wit_wl) (pendingRef (w_uid wit_wl) (pa_id wit_held) (pa_proposal wit_held)) (cc_key wit_cfg)
      = Decided d" and l: "ad_label d = ''approve''" "ap_username (ad_approver d) = ''alice''"
  obtain h where h: "NewHumanRecord (cc_spec wit_cfg) (human_params_of wit_cfg wit_wl wit_held d (GMap [])) = Inr h"
    using wit_human [OF l] by blast
  have n: "ad_label d \<noteq> Reject" "cc_enabled wit_cfg" "cc_writer wit_cfg" "7 = wd_version wit_world"
    using l by (simp_all add: Reject_def wit_cfg_def wit_world_def)
  have e: "cc_enabled wit_cfg \<longrightarrow> cc_writer wit_cfg
      \<and> NewHumanRecord (cc_spec wit_cfg) (human_params_of wit_cfg wit_wl wit_held d (GMap [])) = Inr h"
    using n h by blast
  show ?thesis
    using approved_action_executes [of "(wit_wl, 7)" wit_held wit_cfg d "GMap []" wit_tg h wit_world 9,
        unfolded fst_conv snd_conv, OF r n(1) wit_state(1,2,4) wit_target [OF l(1), symmetric] wit_checks(1) e wit_checks(2)
        wit_state(3) n(4)]
    unfolding wit_state(5) if_P [OF n(2)] append_Nil append_Cons by blast
qed

lemma execution_needs_human_decision_witness:
  "execution_of wit_held wit_tg \<in> set (drop 0 (run_log (reconcileApproval wit_cfg (wit_wl, 7) wit_held 9) wit_world))
   \<and> wit_wl = wd_stored wit_world
   \<and> (\<exists>d. Read (w_annotations wit_wl) (pendingRef (w_uid wit_wl) (pa_id wit_held) (pa_proposal wit_held)) (cc_key wit_cfg)
        = Decided d \<and> ad_label d \<noteq> Reject)"
proof (rule wit_run)
  fix d r assume r: "reconcileApproval wit_cfg (wit_wl, 7) wit_held 9 wit_world = (Some (requeue 30), wit_final)"
    "executed_world wit_held d 9 [EvReceipt r, execution_of wit_held wit_tg] wit_final"
  then have m: "execution_of wit_held wit_tg
      \<in> set (drop (length (wd_log wit_world)) (run_log (reconcileApproval wit_cfg (wit_wl, 7) wit_held 9) wit_world))"
    by (simp add: run_log_def executed_world_def wit_state)
  show ?thesis
    using execution_needs_human_decision [of "(wit_wl, 7)" wit_held wit_world _ _ _ wit_cfg 9, unfolded fst_conv,
        OF wit_state(7,6) m [unfolded execution_of_def]] m by (auto simp: wit_state)
qed

lemma held_action_sent_once_witness:
  "reachable wit_rc wit_final \<and> sent ''p1'' (wd_log wit_final) = 1
   \<and> sent ''p1'' (wd_log (reconcile_run wit_rc (wd_stored wit_final, wd_version wit_final) 11 [wit_tick] wit_final)) = 1"
proof (rule wit_run)
  fix d r assume "executed_world wit_held d 9 [EvReceipt r, execution_of wit_held wit_tg] wit_final"
  then have s: "sent ''p1'' (wd_log wit_final) = 1"
    using sent_append [of "''p1''" "[EvReceipt r]" "[execution_of wit_held wit_tg]"]
    by (simp add: executed_world_def execution_of_def wit_held_def del: sent_append)
  have "snapshot wit_final (wd_stored wit_final, wd_version wit_final)" by (simp add: snapshot_def)
  from held_action_sent_once [OF wit_reachable this, of "''p1''"] s wit_reachable show ?thesis by auto
qed

lemma receipt_before_execution_witness:
  "\<exists>r g. wd_log wit_final = [EvReceipt r] @ [EvPost (ForPending ''p1'') ''execute_action'' g]
     \<and> authorises r (ForPending ''p1'') g"
proof (rule wit_run)
  fix d r assume "executed_world wit_held d 9 [EvReceipt r, execution_of wit_held wit_tg] wit_final"
  then have l: "wd_log wit_final = [EvReceipt r] @ EvPost (ForPending ''p1'') ''execute_action''
      (ExecutionPayload ''scale'' (GMap []) ''0.99'') # []"
    by (simp add: executed_world_def execution_of_def wit_held_def)
  show ?thesis
    using receipt_before_execution [OF wit_reachable _ _ l] l by (auto simp: wit_rc_def wit_cfg_def)
qed

end
