(* ===== verification/Webhook.thy ===== *)
theory Webhook
  imports ApprovalFlow
begin

text \<open>
  api/v1alpha1/agentworkload_webhook.go and agentworkload_admission.go: the admission webhook of
  the AgentWorkload resource, its defaults, its checks on create and update, the freeze of the
  spec while an action is held, and the stamping of human decisions. The text of an error of
  url.Parse and the decoder of the old object are parameters; the network probes
  IsEndpointReachable and ResolveEndpointIP, which nothing calls, are left out.
\<close>

section \<open>Errors\<close>

text \<open>An error of the API machinery is kept as the data it is made from.\<close>

datatype admission_error =
  ErrSpec string
| ErrImmutable string string string
| ErrForbidden string
| ErrAdmission string

section \<open>Helpers\<close>

definition isStringInSlice :: "string \<Rightarrow> string list \<Rightarrow> bool" where
  "isStringInSlice s xs = list_ex (\<lambda>item. item = s) xs"

definition stringPtrEqual :: "string option \<Rightarrow> string option \<Rightarrow> bool" where
  "stringPtrEqual a b = (case (a, b) of
       (None, None) \<Rightarrow> True
     | (Some x, Some y) \<Rightarrow> x = y
     | _ \<Rightarrow> False)"

definition deref :: "string option \<Rightarrow> string" where
  "deref a = (case a of None \<Rightarrow> '''' | Some x \<Rightarrow> x)"

text \<open>The verb \<open>%v\<close> of a list of strings and of a float64.\<close>

definition list_text :: "string list \<Rightarrow> string" where
  "list_text xs = ''['' @ join '' '' xs @ '']''"

definition expo_text :: "nat \<times> int \<Rightarrow> string" where
  "expo_text r = (let (m, q) = r; ds = nat_str m; e = q + int (length ds) - 1; es = nat_str (nat \<bar>e\<bar>) in
     [hd ds] @ (if tl ds = [] then [] else ''.'' @ tl ds)
     @ ''e'' @ (if e < 0 then ''-'' else ''+'') @ (if length es < 2 then ''0'' @ es else es))"

definition float_text :: "f64 \<Rightarrow> string" where
  "float_text a = (case a of
       Fin x \<Rightarrow> (if x = 0 then ''0'' else
         (let r = shortest_digits \<bar>x\<bar>; e = snd r + int (length (nat_str (fst r))) - 1
          in sign_text x @ (if e < - 4 \<or> 6 \<le> e then expo_text r else fmt_plain r)))
     | _ \<Rightarrow> fmt_shortest a)"

text \<open>utf8.RuneCountInString: a byte that starts no valid encoding counts as one rune.\<close>

function rune_count :: "string \<Rightarrow> nat" where
  "rune_count s = (if s = [] then 0 else Suc (rune_count (drop (max 1 (utf8_len s)) s)))"
  by pat_completeness auto
termination
  by (relation "measure length") auto

declare rune_count.simps [simp del]

text \<open>The scheme of a URL that parses, in lower case; the empty text when there is none.\<close>

definition url_scheme :: "string \<Rightarrow> string" where
  "url_scheme raw =
     (case get_scheme 0 [] (case cut raw ''#'' of None \<Rightarrow> raw | Some (a, _) \<Rightarrow> a) of
        Scheme a _ \<Rightarrow> to_lower a
      | _ \<Rightarrow> '''')"

section \<open>Defaults\<close>

definition Default :: "workload_spec \<Rightarrow> workload_spec" where
  "Default sp =
     (let sp1 = (if sp_auto_approve sp = None then sp\<lparr>sp_auto_approve := Some ''0.95''\<rparr> else sp)
      in if sp_opa_policy sp1 = None then sp1\<lparr>sp_opa_policy := Some ''strict''\<rparr> else sp1)"

section \<open>Validation\<close>

definition validateMCPEndpoint :: "(string \<Rightarrow> string) \<Rightarrow> string \<Rightarrow> string option" where
  "validateMCPEndpoint url_err endpoint =
     (if endpoint = '''' then Some ''mcpServerEndpoint must not be empty''
      else case url_host endpoint of
        None \<Rightarrow> Some (''mcpServerEndpoint is not a valid URL: '' @ url_err endpoint)
      | Some h \<Rightarrow>
          if url_scheme endpoint \<noteq> ''https''
          then Some (''mcpServerEndpoint scheme must be https for secure communication, got ''
                     @ quote (url_scheme endpoint))
          else if h = '''' then Some ''mcpServerEndpoint host is empty''
          else None)"

text \<open>A pattern that is anchored on both sides matches when the whole text is one match.\<close>

definition whole_match :: "re \<Rightarrow> string \<Rightarrow> bool" where
  "whole_match r s = list_ex (\<lambda>q. snd q = []) (ends r (None, s))"

definition threshold_format :: re where
  "threshold_format = Cat (Cls (\<lambda>c. c = CHR ''0'' \<or> c = CHR ''1'')) (opt (Cat (chr CHR ''.'') (rep digit 1 2)))"

definition isValidThresholdFormat :: "string \<Rightarrow> bool" where
  "isValidThresholdFormat s = whole_match threshold_format s"

definition validateThreshold :: "string \<Rightarrow> string option" where
  "validateThreshold t =
     (if t = '''' then Some ''autoApproveThreshold cannot be empty''
      else case parse_float t of
        None \<Rightarrow> Some (''autoApproveThreshold must be a valid number, got '' @ quote t)
      | Some v \<Rightarrow>
          if flt v (Fin 0) \<or> flt (Fin 1) v
          then Some (''autoApproveThreshold must be between 0.0 and 1.0, got '' @ float_text v)
          else if \<not> isValidThresholdFormat t
          then Some (''autoApproveThreshold format invalid, expected format like '' @ [CHR 0x27] @ ''0.95'' @ [CHR 0x27])
          else None)"

definition validateDecisionModel :: "int \<Rightarrow> decision_model_spec option \<Rightarrow> string list" where
  "validateDecisionModel art dm = (case dm of None \<Rightarrow> []
     | Some m \<Rightarrow>
         (if dm_mode m \<in> {'''', ''off'', ''shadow'', ''escalate''} then []
          else [''decisionModel.mode must be one of off, shadow, escalate, got '' @ quote (dm_mode m)])
         @ (case dm_threshold m of None \<Rightarrow> []
            | Some t \<Rightarrow>
                if t < 0 \<or> t > 1000000
                then [''decisionModel.thresholdMicro must be 0 to 1000000, got '' @ itoa t]
                else if art > 0 \<and> t > art
                then [''decisionModel.thresholdMicro '' @ itoa t @ '' is looser than the model artifact threshold ''
                      @ itoa art @ ''; only a stricter (lower) value is allowed'']
                else []))"

definition validWorkloadTypes :: "string list" where
  "validWorkloadTypes = [''generic'', ''ceph'', ''minio'', ''postgres'', ''aws'', ''kubernetes'']"

definition validPolicies :: "string list" where
  "validPolicies = [''strict'', ''permissive'']"

definition problem :: "bool \<Rightarrow> string \<Rightarrow> string list" where
  "problem b msg = (if b then [msg] else [])"

definition spec_problems :: "(string \<Rightarrow> string) \<Rightarrow> int \<Rightarrow> workload_spec \<Rightarrow> string list" where
  "spec_problems url_err art sp =
     (case sp_workload_type sp of None \<Rightarrow> [] | Some t \<Rightarrow>
        problem (\<not> isStringInSlice t validWorkloadTypes)
          (''workloadType must be one of '' @ list_text validWorkloadTypes @ '', got '' @ quote t))
     @ (case sp_mcp_endpoint sp of None \<Rightarrow> [] | Some e \<Rightarrow>
        (case validateMCPEndpoint url_err e of None \<Rightarrow> [] | Some m \<Rightarrow> [m]))
     @ (case sp_objective sp of None \<Rightarrow> [] | Some ob \<Rightarrow>
        problem (length ob = 0) ''objective must not be empty''
        @ problem (rune_count ob > 32768)
            (''objective must be at most 32768 characters, got '' @ itoa (int (rune_count ob))))
     @ problem (length (sp_agents sp) = 0) ''agents list must not be empty''
     @ (case sp_auto_approve sp of None \<Rightarrow> [] | Some t \<Rightarrow>
        (case validateThreshold t of None \<Rightarrow> [] | Some m \<Rightarrow> [m]))
     @ (case sp_opa_policy sp of None \<Rightarrow> [] | Some p \<Rightarrow>
        problem (\<not> isStringInSlice p validPolicies)
          (''opaPolicy must be one of '' @ list_text validPolicies @ '', got '' @ quote p))
     @ concat (map (\<lambda>p. problem (\<not> Valid p)
          (''policyPacks: unknown pack '' @ quote p @ '', known: '' @ known_text)) (sp_policy_packs sp))
     @ validateDecisionModel art (sp_decision_model sp)"

definition validate :: "(string \<Rightarrow> string) \<Rightarrow> int \<Rightarrow> workload_spec \<Rightarrow> admission_error option" where
  "validate url_err art sp =
     (let allErrs = spec_problems url_err art sp
      in if length allErrs > 0 then Some (ErrSpec (join ''; '' allErrs)) else None)"

definition ValidateCreate :: "(string \<Rightarrow> string) \<Rightarrow> int \<Rightarrow> agent_workload \<Rightarrow> admission_error option" where
  "ValidateCreate url_err art wl = validate url_err art (w_spec wl)"

definition ValidateDelete :: "agent_workload \<Rightarrow> admission_error option" where
  "ValidateDelete wl = None"

section \<open>Updates\<close>

definition frozen_changes :: "workload_spec \<Rightarrow> workload_spec \<Rightarrow> string list" where
  "frozen_changes old new =
     problem (sp_declared_intent old \<noteq> sp_declared_intent new) ''declaredIntent''
     @ problem (sp_policy_packs old \<noteq> sp_policy_packs new) ''policyPacks''
     @ problem (\<not> stringPtrEqual (sp_opa_policy old) (sp_opa_policy new)) ''opaPolicy''
     @ problem (sp_decision_model old \<noteq> sp_decision_model new) ''decisionModel''
     @ problem (sp_approval_capture old \<noteq> sp_approval_capture new) ''approvalCapture''"

definition holds_spec :: "workload_status \<Rightarrow> bool" where
  "holds_spec st = (case st_pending st of None \<Rightarrow> False
     | Some p \<Rightarrow> \<not> (st_phase st \<noteq> PhasePendingApproval \<and> pa_state p = ''''))"

definition validateApprovalFreeze :: "agent_workload \<Rightarrow> agent_workload \<Rightarrow> admission_error option" where
  "validateApprovalFreeze r old =
     (if \<not> holds_spec (w_status old) then None
      else let changed = frozen_changes (w_spec old) (w_spec r)
           in if length changed = 0 then None
              else Some (ErrForbidden (''spec.'' @ join '', spec.'' changed
                @ '' cannot change while an approval is pending. Approve, reject or edit the pending action first'')))"

definition immutable :: "string \<Rightarrow> string option \<Rightarrow> string option \<Rightarrow> admission_error" where
  "immutable path new old =
     ErrImmutable path (deref new) (''field is immutable, current value: '' @ quote (deref old))"

definition ValidateUpdate :: "(string \<Rightarrow> string) \<Rightarrow> int \<Rightarrow> agent_workload \<Rightarrow> agent_workload
    \<Rightarrow> admission_error option" where
  "ValidateUpdate url_err art r old =
     (case validate url_err art (w_spec r) of
        Some e \<Rightarrow> Some e
      | None \<Rightarrow>
          if \<not> stringPtrEqual (sp_workload_type (w_spec r)) (sp_workload_type (w_spec old))
          then Some (immutable ''spec.workloadType'' (sp_workload_type (w_spec r)) (sp_workload_type (w_spec old)))
          else if \<not> stringPtrEqual (sp_mcp_endpoint (w_spec r)) (sp_mcp_endpoint (w_spec old))
          then Some (immutable ''spec.mcpServerEndpoint'' (sp_mcp_endpoint (w_spec r)) (sp_mcp_endpoint (w_spec old)))
          else (case validateApprovalFreeze r old of Some e \<Rightarrow> Some e | None \<Rightarrow> None))"

section \<open>The approval protocol\<close>

text \<open>A nil annotation map and an empty one are the same map here.\<close>

definition AdmitApproval :: "annotations \<Rightarrow> pending \<Rightarrow> string \<Rightarrow> string list \<Rightarrow> string \<Rightarrow> agent_workload
    \<Rightarrow> admission_error + agent_workload" where
  "AdmitApproval oldAnn p username groups key r =
     (case Admit oldAnn (w_annotations r) p username groups key of
        Inl e \<Rightarrow> Inl (ErrForbidden (approval_error_text e))
      | Inr ann \<Rightarrow> Inr (r\<lparr>w_annotations := ann\<rparr>))"

definition admitted_pending :: "agent_workload \<Rightarrow> pending" where
  "admitted_pending old = (case st_pending (w_status old) of
       Some p \<Rightarrow> (if st_phase (w_status old) = PhasePendingApproval
                 then pendingRef (w_uid old) (pa_id p) (pa_proposal p)
                 else \<lparr>p_id = '''', p_workload = '''', p_payload = ''''\<rparr>)
     | None \<Rightarrow> \<lparr>p_id = '''', p_workload = '''', p_payload = ''''\<rparr>)"

text \<open>The handler; the old object is the decoded one of an update, None for another operation.\<close>

definition admission_Default :: "string \<Rightarrow> string err \<Rightarrow> string list \<Rightarrow> (string + agent_workload) option
    \<Rightarrow> agent_workload \<Rightarrow> admission_error + agent_workload" where
  "admission_Default stampKey user groups oldObject obj0 =
     (let obj = obj0\<lparr>w_spec := Default (w_spec obj0)\<rparr> in
      case user of Inl e \<Rightarrow> Inl (ErrAdmission e)
      | Inr username \<Rightarrow>
          (case oldObject of
             None \<Rightarrow> AdmitApproval Map.empty \<lparr>p_id = '''', p_workload = '''', p_payload = ''''\<rparr> username groups stampKey obj
           | Some (Inl e) \<Rightarrow> Inl (ErrAdmission (''decode old object: '' @ e))
           | Some (Inr old) \<Rightarrow>
               AdmitApproval (w_annotations old) (admitted_pending old) username groups stampKey obj))"

section \<open>What validation accepts\<close>

lemma problem_Nil [simp]: "problem b m = [] \<longleftrightarrow> \<not> b"
  by (simp add: problem_def)

lemma stringPtrEqual_eq [simp]: "stringPtrEqual a b \<longleftrightarrow> a = b"
  by (cases a; cases b) (simp_all add: stringPtrEqual_def)

lemma isStringInSlice_mem [simp]: "isStringInSlice s xs \<longleftrightarrow> s \<in> set xs"
  by (auto simp: isStringInSlice_def list_ex_iff)

lemma validate_None: "validate ue art sp = None \<longleftrightarrow> spec_problems ue art sp = []"
  by (simp add: validate_def Let_def)

lemma ValidateUpdate_None:
  "ValidateUpdate ue art r old = None \<longleftrightarrow> validate ue art (w_spec r) = None
    \<and> sp_workload_type (w_spec r) = sp_workload_type (w_spec old)
    \<and> sp_mcp_endpoint (w_spec r) = sp_mcp_endpoint (w_spec old)
    \<and> (holds_spec (w_status old) \<longrightarrow> frozen_changes (w_spec old) (w_spec r) = [])"
  by (auto simp: ValidateUpdate_def validateApprovalFreeze_def Let_def split: option.splits if_splits)

lemma frozen_changes_Nil:
  "frozen_changes old new = [] \<longleftrightarrow> sp_declared_intent old = sp_declared_intent new
    \<and> sp_policy_packs old = sp_policy_packs new \<and> sp_opa_policy old = sp_opa_policy new
    \<and> sp_decision_model old = sp_decision_model new \<and> sp_approval_capture old = sp_approval_capture new"
  by (auto simp: frozen_changes_def)

lemma Default_fields:
  "sp_auto_approve (Default sp) = Some (case sp_auto_approve sp of None \<Rightarrow> ''0.95'' | Some t \<Rightarrow> t)"
  "sp_opa_policy (Default sp) = Some (policy_mode sp)"
  "Default (Default sp) = Default sp"
  by (auto simp: Default_def Let_def policy_mode_def split: option.splits)

lemma validateMCPEndpoint_None:
  "validateMCPEndpoint ue e = None \<longleftrightarrow> (\<exists>h. url_host e = Some h \<and> h \<noteq> []) \<and> url_scheme e = ''https'' \<and> e \<noteq> []"
  by (auto simp: validateMCPEndpoint_def split: option.splits)

lemma validateDecisionModel_stricter:
  "validateDecisionModel art (Some m) = [] \<Longrightarrow> dm_threshold m = Some t \<Longrightarrow> 0 \<le> t \<and> t \<le> 1000000 \<and> (0 < art \<longrightarrow> t \<le> art)"
  by (auto simp: validateDecisionModel_def split: if_splits)

section \<open>The lifecycle of a resource\<close>

text \<open>
  What the API server stores: a created object whose status is dropped, an update of the metadata
  and the spec that keeps the identity and the stored status, and a status write of the controller.
  The list holds the admitted requests, the last one first: who sent it, the annotations of the stored
  object and of the request, and the action that was pending. The first argument
  behind the key is the spec at creation.
\<close>

record admitted_request =
  aq_user :: string
  aq_groups :: "string list"
  aq_old :: annotations
  aq_new :: annotations
  aq_pending :: pending

inductive lifecycle :: "(string \<Rightarrow> string) \<Rightarrow> int \<Rightarrow> string \<Rightarrow> workload_spec \<Rightarrow> admitted_request list
    \<Rightarrow> agent_workload \<Rightarrow> bool" for ue art key where
  created: "admission_Default key (Inr u) gs None new = Inr obj \<Longrightarrow> ValidateCreate ue art obj = None
    \<Longrightarrow> lifecycle ue art key (w_spec obj) [\<lparr>aq_user = u, aq_groups = gs, aq_old = Map.empty, aq_new = w_annotations new,
          aq_pending = \<lparr>p_id = '''', p_workload = '''', p_payload = ''''\<rparr>\<rparr>] (obj\<lparr>w_status := empty_status\<rparr>)"
| updated: "lifecycle ue art key sp rs old \<Longrightarrow> admission_Default key (Inr u) gs (Some (Inr old)) new = Inr obj
    \<Longrightarrow> ValidateUpdate ue art obj old = None \<Longrightarrow> w_uid obj = w_uid old
    \<Longrightarrow> lifecycle ue art key sp (\<lparr>aq_user = u, aq_groups = gs, aq_old = w_annotations old, aq_new = w_annotations new,
          aq_pending = admitted_pending old\<rparr> # rs) (obj\<lparr>w_status := w_status old\<rparr>)"
| status: "lifecycle ue art key sp rs old \<Longrightarrow> lifecycle ue art key sp rs (old\<lparr>w_status := st\<rparr>)"

text \<open>
  The request made the decision of these annotations: it changed the protocol annotations, when no decision was on record
  for the pending action, its label, reason and edit are those that stand, and they are stamped for its user and that action.
\<close>

definition decided_by :: "string \<Rightarrow> admitted_request \<Rightarrow> annotations \<Rightarrow> bool" where
  "decided_by key q ann \<longleftrightarrow> \<not> same_protocol (aq_new q) (aq_old q)
     \<and> \<not> (get (aq_old q) AnnotationDecision \<noteq> [] \<and> get (aq_old q) AnnotationFor = p_id (aq_pending q))
     \<and> (\<forall>k. k \<notin> set stampKeys \<longrightarrow> k \<in> set protocolKeys \<longrightarrow> ann k = aq_new q k)
     \<and> stamped key (aq_pending q) (aq_user q) (aq_groups q) ann"

definition by_request :: "string \<Rightarrow> admitted_request list \<Rightarrow> annotations \<Rightarrow> bool" where
  "by_request key rs ann \<longleftrightarrow> unstamped ann \<or> (\<exists>later q before. rs = later @ q # before
     \<and> (\<forall>x\<in>set later. same_protocol (aq_new x) (aq_old x)) \<and> decided_by key q ann)"

lemma by_request_same: "same_protocol a b \<Longrightarrow> by_request key rs b \<Longrightarrow> by_request key rs a"
proof -
  assume s: "same_protocol a b"
  have "MAC key p a = MAC key p b" for p by (simp add: MAC_def same_protocol_MAC [OF s])
  then have "decided_by key q b \<Longrightarrow> decided_by key q a" for q
    using same_protocol_get [OF s] s by (simp add: decided_by_def stamped_def same_protocol_def)
  moreover have "unstamped b \<Longrightarrow> unstamped a"
    using same_protocol_get [OF s] by (simp add: unstamped_def stampKeys_def)
  ultimately show "by_request key rs b \<Longrightarrow> by_request key rs a" unfolding by_request_def by blast
qed

lemma by_request_Admit:
  assumes "Admit (aq_old q) (aq_new q) (aq_pending q) (aq_user q) (aq_groups q) key = Inr res" "by_request key rs (aq_old q)"
  shows "by_request key (q # rs) res"
proof (cases "same_protocol (aq_new q) (aq_old q)")
  case True
  then have "res = aq_new q" using assms(1) by (auto simp: Admit_def same_protocol_def list_ex_iff split: if_splits)
  with True have "by_request key rs res" using assms(2) by_request_same by blast
  then show ?thesis unfolding by_request_def
  proof (elim disjE exE conjE)
    fix later y before
    assume "rs = later @ y # before" "\<forall>x\<in>set later. same_protocol (aq_new x) (aq_old x)" "decided_by key y res"
    then have "q # rs = (q # later) @ y # before \<and> (\<forall>x\<in>set (q # later). same_protocol (aq_new x) (aq_old x)) \<and> decided_by key y res"
      using True by simp
    then show "unstamped res \<or> (\<exists>later y before. q # rs = later @ y # before
        \<and> (\<forall>x\<in>set later. same_protocol (aq_new x) (aq_old x)) \<and> decided_by key y res)" by blast
  qed simp
next
  case False
  then have ex: "list_ex (\<lambda>k. aq_new q k \<noteq> aq_old q k) protocolKeys" by (auto simp: same_protocol_def list_ex_iff)
  show ?thesis
  proof (cases "get (aq_new q) AnnotationDecision = []")
    case True
    then have "unstamped res" using assms(1) ex by (auto simp: Admit_def Let_def unstamped_def stampKeys_def split: if_splits)
    then show ?thesis by (simp add: by_request_def)
  next
    case dec: False
    then have "decided_by key q res" using assms(1) ex False
      by (auto simp: Admit_def Let_def decided_by_def stamped_def MAC_upd stampKeys_def split: if_splits sum.splits)
    then have "q # rs = [] @ q # rs \<and> (\<forall>x\<in>set []. same_protocol (aq_new x) (aq_old x)) \<and> decided_by key q res" by simp
    then show ?thesis unfolding by_request_def by blast
  qed
qed

lemma AdmitApproval_Inr:
  "AdmitApproval ann p u gs key r = Inr obj \<longleftrightarrow>
     (\<exists>a. Admit ann (w_annotations r) p u gs key = Inr a \<and> obj = r\<lparr>w_annotations := a\<rparr>)"
  by (auto simp: AdmitApproval_def split: sum.splits)

lemma lifecycle_by_request:
  "lifecycle ue art key sp rs wl \<Longrightarrow> by_request key rs (w_annotations wl)"
proof (induction rule: lifecycle.induct)
  case (created u gs new obj)
  have "by_request key [] Map.empty" using wit_fresh(2) by (simp add: by_request_def)
  moreover obtain a where "Admit Map.empty (w_annotations new) \<lparr>p_id = '''', p_workload = '''', p_payload = ''''\<rparr> u gs key = Inr a"
    "w_annotations obj = a" using created by (auto simp: admission_Default_def Let_def AdmitApproval_Inr)
  ultimately show ?case
    using by_request_Admit [of "\<lparr>aq_user = u, aq_groups = gs, aq_old = Map.empty, aq_new = w_annotations new,
      aq_pending = \<lparr>p_id = '''', p_workload = '''', p_payload = ''''\<rparr>\<rparr>" key a "[]"] by simp
next
  case (updated sp rs old u gs new obj)
  then obtain a where "Admit (w_annotations old) (w_annotations new) (admitted_pending old) u gs key = Inr a"
    "w_annotations obj = a" by (auto simp: admission_Default_def Let_def AdmitApproval_Inr)
  then show ?case
    using by_request_Admit [of "\<lparr>aq_user = u, aq_groups = gs, aq_old = w_annotations old, aq_new = w_annotations new,
      aq_pending = admitted_pending old\<rparr>" key a rs] updated.IH by simp
qed simp

lemma lifecycle_spec:
  "lifecycle ue art key sp rs wl \<Longrightarrow> validate ue art (w_spec wl) = None
    \<and> sp_mcp_endpoint (w_spec wl) = sp_mcp_endpoint sp \<and> sp_workload_type (w_spec wl) = sp_workload_type sp"
  by (induction rule: lifecycle.induct) (auto simp: ValidateCreate_def ValidateUpdate_None)

lemma decided_fields:
  assumes "decided_by key q ann"
  shows "validateFields ann = validateFields (aq_new q)" "get ann AnnotationReason = get (aq_new q) AnnotationReason"
proof -
  have k: "ann AnnotationDecision = aq_new q AnnotationDecision" "ann AnnotationReason = aq_new q AnnotationReason"
    "ann AnnotationEdit = aq_new q AnnotationEdit"
    using assms by (auto simp: decided_by_def stampKeys_def)
  then have "get ann AnnotationDecision = get (aq_new q) AnnotationDecision"
    and g: "get ann AnnotationReason = get (aq_new q) AnnotationReason" by (simp_all add: get_def)
  with k show "validateFields ann = validateFields (aq_new q)" unfolding validateFields_def by (simp only:)
  show "get ann AnnotationReason = get (aq_new q) AnnotationReason" by (rule g)
qed

section \<open>The threshold format\<close>

text \<open>The pattern of the CRD schema of the field.\<close>

definition schema_threshold :: re where
  "schema_threshold =
     Alt (Cat (chr CHR ''0'') (opt (Cat (chr CHR ''.'') (rep digit 1 2))))
         (Cat (chr CHR ''1'') (opt (Cat (chr CHR ''.'') (rep (chr CHR ''0'') 1 2))))"

lemmas re_defs = chr_def opt_def rep_def digit_def numeral_2_eq_2

lemma threshold_format_iff:
  "isValidThresholdFormat s \<longleftrightarrow> (\<exists>a. (a = CHR ''0'' \<or> a = CHR ''1'') \<and> (s = [a]
    \<or> (\<exists>d. is_digit d \<and> s = [a, CHR ''.'', d]) \<or> (\<exists>d e. is_digit d \<and> is_digit e \<and> s = [a, CHR ''.'', d, e])))"
proof -
  consider "s = []" | a where "s = [a]" | a b where "s = [a, b]" | a b c where "s = [a, b, c]"
    | a b c d where "s = [a, b, c, d]" | a b c d e r where "s = a # b # c # d # e # r"
    by (metis list.exhaust)
  then show ?thesis
    by cases (auto simp: isValidThresholdFormat_def whole_match_def threshold_format_def re_defs)
qed

lemma schema_threshold_iff:
  "whole_match schema_threshold s \<longleftrightarrow> isValidThresholdFormat s
    \<and> (hd s = CHR ''1'' \<longrightarrow> (\<forall>c\<in>set (tl s). c = CHR ''.'' \<or> c = CHR ''0''))"
proof -
  have z: "is_digit CHR ''0''" "\<not> is_digit CHR ''.''" by (simp_all add: is_digit_def)
  consider "s = []" | a where "s = [a]" | a b where "s = [a, b]" | a b c where "s = [a, b, c]"
    | a b c d where "s = [a, b, c, d]" | a b c d e r where "s = a # b # c # d # e # r"
    by (metis list.exhaust)
  then show ?thesis
    by cases (auto simp: whole_match_def schema_threshold_def threshold_format_iff re_defs z)
qed

lemma digit_not_sign: "is_digit c \<Longrightarrow> c \<noteq> CHR ''-'' \<and> c \<noteq> CHR ''+'' \<and> lower_char c = c \<and> c \<noteq> CHR ''i'' \<and> c \<noteq> CHR ''n''"
  by (auto simp: is_digit_def lower_char_def is_upper_def)

lemma span_digits_all: "list_all is_digit ds \<Longrightarrow> span_digits ds = (ds, [])"
  by (induction ds) auto

lemma two_bound: "0 \<le> x \<Longrightarrow> x \<le> 2 \<Longrightarrow> fround x \<noteq> PInf \<and> fround x \<noteq> NInf \<and> fle (fround x) (Fin 2)"
proof -
  assume "0 \<le> x" "x \<le> 2"
  then have "fle (fround x) (fround 2)" "fle (fround 0) (fround x)" by (simp_all add: fround_mono)
  moreover have "fround 2 = Fin 2" "fround 0 = Fin 0" using fround_int [of 2] fround_int [of 0] by simp_all
  ultimately show ?thesis by (cases "fround x") (auto simp: fle_def feq_def flt_def)
qed

lemma parse_float_digits:
  assumes "list_all is_digit (a # ds)" "of_nat (parse_nat_acc 0 (a # ds)) / 10 ^ length ds \<le> (2 :: rat)"
  shows "parse_float (a # (if ds = [] then [] else CHR ''.'' # ds))
    = Some (fround (of_nat (parse_nat_acc 0 (a # ds)) / 10 ^ length ds))"
proof -
  have a: "is_digit a" "span_digits ds = (ds, [])" using assms(1) span_digits_all by auto
  have dot: "\<not> is_digit CHR ''.''" by (simp add: is_digit_def)
  have pow: "pow10 (- int n) = 1 / 10 ^ n" for n by (cases "n = 0") (simp_all add: pow10_def)
  have b: "fround (of_nat (parse_nat_acc 0 (a # ds)) / 10 ^ length ds) \<noteq> PInf"
     "fround (of_nat (parse_nat_acc 0 (a # ds)) / 10 ^ length ds) \<noteq> NInf"
    using two_bound [OF _ assms(2)] by simp_all
  have l: "to_lower (a # t) \<noteq> ''inf''" "to_lower (a # t) \<noteq> ''infinity''" "to_lower (a # t) \<noteq> ''nan''" for t
  proof -
    have "a \<noteq> CHR 0xE2" "a \<noteq> CHR 0xC4" using a(1) by (auto simp: is_digit_def)
    then have "to_lower (a # t) = a # to_lower t" using digit_not_sign [OF a(1)] by simp
    then show "to_lower (a # t) \<noteq> ''inf''" "to_lower (a # t) \<noteq> ''infinity''" "to_lower (a # t) \<noteq> ''nan''"
      using digit_not_sign [OF a(1)] by (simp_all only: list.inject) auto
  qed
  let ?t = "a # (if ds = [] then [] else CHR ''.'' # ds)"
  have sp: "span_digits ?t = ([a], tl ?t)" using a(1) dot by simp
  have fp: "(if tl ?t \<noteq> [] \<and> hd (tl ?t) = CHR ''.'' then span_digits (tl (tl ?t)) else ([], tl ?t)) = (ds, [])"
    using a(2) by (cases ds) simp_all
  have neg: "hd ?t \<noteq> CHR ''-''" "hd ?t \<noteq> CHR ''+''" using digit_not_sign [OF a(1)] by simp_all
  have e: "parse_exp [] = Some 0" by (simp add: parse_exp_def)
  show ?thesis
    unfolding parse_float_def
    by (simp only: Let_def neg l sp fp e prod.case option.case simp_thms if_False if_True list.distinct
        append_Cons append_Nil pow diff_0 times_divide_eq_right mult_1_right b)
qed

lemma threshold_value:
  assumes "isValidThresholdFormat s"
  obtains x where "parse_float s = Some (fround x)" "0 \<le> x" "x < 2"
    "x \<le> 1 \<longleftrightarrow> (hd s = CHR ''1'' \<longrightarrow> (\<forall>c\<in>set (tl s). c = CHR ''.'' \<or> c = CHR ''0''))"
    "x \<le> 1 \<or> 101 / 100 \<le> x"
proof -
  have z: "is_digit CHR ''0''" "is_digit CHR ''1''" "digit_val CHR ''0'' = 0" "digit_val CHR ''1'' = 1"
    by (simp_all add: is_digit_def digit_val_def)
  have n0: "digit_val c = 0 \<longleftrightarrow> c = CHR ''0''" "digit_val c < 10" if "is_digit c" for c
    using digit_val_inj [OF that z(1)] z digit_val_less [OF that] by auto
  from assms obtain a where a: "a = CHR ''0'' \<or> a = CHR ''1''" and s: "s = [a]
    \<or> (\<exists>d. is_digit d \<and> s = [a, CHR ''.'', d]) \<or> (\<exists>d e. is_digit d \<and> is_digit e \<and> s = [a, CHR ''.'', d, e])"
    unfolding threshold_format_iff by (elim exE conjE) (rule that)
  from s show thesis
  proof (elim disjE exE conjE)
    assume 1: "s = [a]"
    have "x \<le> 1 \<longleftrightarrow> True" if "x = of_nat (digit_val a)" for x :: rat using a z that by auto
    then show thesis using parse_float_digits [of a "[]"] a z 1
      by (intro that [of "of_nat (digit_val a)"]) auto
  next
    fix d assume 2: "is_digit d" "s = [a, CHR ''.'', d]"
    have d: "digit_val d < 10" "digit_val d = 0 \<longleftrightarrow> d = CHR ''0''" "d \<noteq> CHR ''.''"
      using n0 [OF 2(1)] 2(1) by (auto simp: is_digit_def)
    define n where "n = 10 * digit_val a + digit_val d"
    have n: "n < 20" "n \<le> 10 \<longleftrightarrow> (a = CHR ''1'' \<longrightarrow> d = CHR ''0'')" using a z d by (auto simp: n_def)
    show thesis
    proof (rule that [of "of_nat n / 10"])
      show "parse_float s = Some (fround (of_nat n / 10))"
        using parse_float_digits [of a "[d]"] a z 2 n(1) by (auto simp: n_def simp del: of_nat_add of_nat_mult)
    qed (use n d 2 in \<open>auto simp: field_simps\<close>)
  next
    fix d e assume 3: "is_digit d" "is_digit e" "s = [a, CHR ''.'', d, e]"
    have d: "digit_val d < 10" "digit_val d = 0 \<longleftrightarrow> d = CHR ''0''" "d \<noteq> CHR ''.''"
      "digit_val e < 10" "digit_val e = 0 \<longleftrightarrow> e = CHR ''0''" "e \<noteq> CHR ''.''"
      using n0 [OF 3(1)] n0 [OF 3(2)] 3(1,2) by (auto simp: is_digit_def)
    define n where "n = 100 * digit_val a + 10 * digit_val d + digit_val e"
    have n: "n < 200" "n \<le> 100 \<longleftrightarrow> (a = CHR ''1'' \<longrightarrow> d = CHR ''0'' \<and> e = CHR ''0'')" using a z d by (auto simp: n_def)
    have eq: "10 * (10 * digit_val a + digit_val d) + digit_val e = n" by (simp add: n_def)
    show thesis
    proof (rule that [of "of_nat n / 100"])
      show "parse_float s = Some (fround (of_nat n / 100))"
        using parse_float_digits [of a "[d, e]"] a z 3 n(1) eq by (auto simp del: of_nat_add of_nat_mult)
    qed (use n d 3 in \<open>auto simp: field_simps\<close>)
  qed
qed

lemma above_one: "flt (Fin 1) (fround x) \<longleftrightarrow> 1 < x" if "0 \<le> x" "x < 2" "x \<le> 1 \<or> 101 / 100 \<le> x"
proof -
  have one: "fround 1 = Fin 1" using fround_int [of 1] by simp
  have "flt (Fin 1) (fround (101 / 100))" by code_simp
  then have "flt (Fin 1) (fround x)" if "101 / 100 \<le> x"
    using fround_mono [of "101 / 100" x] that by (auto intro: flt_le_trans)
  moreover have "\<not> flt (Fin 1) (fround x)" if "x \<le> 1"
  proof -
    have "fle (fround x) (Fin 1)" using fround_mono [of x 1] one \<open>0 \<le> x\<close> that by simp
    then show ?thesis using flt_asym by blast
  qed
  ultimately show ?thesis using that by force
qed

lemma threshold_accepts: "validateThreshold t = None \<longleftrightarrow> whole_match schema_threshold t"
proof (cases "isValidThresholdFormat t")
  case True
  then obtain x where x: "parse_float t = Some (fround x)" "0 \<le> x" "x < 2"
    "x \<le> 1 \<longleftrightarrow> (hd t = CHR ''1'' \<longrightarrow> (\<forall>c\<in>set (tl t). c = CHR ''.'' \<or> c = CHR ''0''))" "x \<le> 1 \<or> 101 / 100 \<le> x"
    by (rule threshold_value)
  have ne: "t \<noteq> []" using True by (auto simp: threshold_format_iff)
  have "fle (fround 0) (fround x)" "fround 0 = Fin 0" using fround_mono [OF order_refl x(2)] fround_int [of 0] by simp_all
  then have "\<not> flt (fround x) (Fin 0)" using flt_asym by metis
  then have "validateThreshold t = None \<longleftrightarrow> x \<le> 1"
    using ne x(1) above_one [OF x(2,3,5)] True by (auto simp: validateThreshold_def)
  then show ?thesis using x(4) True by (simp add: schema_threshold_iff)
next
  case False
  then show ?thesis by (simp add: validateThreshold_def schema_threshold_iff split: option.splits)
qed

section \<open>Properties\<close>

text \<open>The webhook and the CRD schema accept the same thresholds. The checks of the webhook (a float64
  between 0 and 1 with at most two decimals) accept exactly the texts that match the pattern of the field in
  the schema; no rounding of the parsed number lets another text in or keeps one of them out.\<close>

lemma threshold_matches_schema:
  "validateThreshold t = None \<longleftrightarrow> whole_match schema_threshold t"
  by (rule threshold_accepts)

text \<open>C10: what the API server stores has passed the webhook. Through any creation, updates and status writes, the stored
  spec is valid, its endpoint and type are those of its creation, and a decision that the controller reads
  was made by the last admitted request that changed the annotations of the protocol: its approver is stamped from the user and
  the groups of that very request, its label, reason and edit are the ones that request submitted, it is for the action that was
  pending when the request was admitted, and no decision was on record for that action then.\<close>

theorem admitted_lifecycle:
  assumes "lifecycle ue art key sp rs wl"
  shows "validate ue art (w_spec wl) = None \<and> sp_mcp_endpoint (w_spec wl) = sp_mcp_endpoint sp
    \<and> sp_workload_type (w_spec wl) = sp_workload_type sp
    \<and> (\<forall>p d. Read (w_annotations wl) p key = Decided d \<longrightarrow> ParseApprover (ad_approver_raw d) = Inr (ad_approver d)
         \<and> (\<exists>later q before. rs = later @ q # before \<and> (\<forall>x\<in>set later. same_protocol (aq_new x) (aq_old x))
              \<and> \<not> same_protocol (aq_new q) (aq_old q) \<and> Stamp (aq_user q) (aq_groups q) = Inr (ad_approver_raw d)
              \<and> validateFields (aq_new q) = Inr (ad_label d, ad_edit d) \<and> get (aq_new q) AnnotationReason = ad_reason d
              \<and> ad_for d = p_id (aq_pending q) \<and> ad_for d = p_id p
              \<and> \<not> (get (aq_old q) AnnotationDecision \<noteq> [] \<and> get (aq_old q) AnnotationFor = ad_for d)))"
proof -
  have "ParseApprover (ad_approver_raw d) = Inr (ad_approver d)
         \<and> (\<exists>later q before. rs = later @ q # before \<and> (\<forall>x\<in>set later. same_protocol (aq_new x) (aq_old x))
              \<and> \<not> same_protocol (aq_new q) (aq_old q) \<and> Stamp (aq_user q) (aq_groups q) = Inr (ad_approver_raw d)
              \<and> validateFields (aq_new q) = Inr (ad_label d, ad_edit d) \<and> get (aq_new q) AnnotationReason = ad_reason d
              \<and> ad_for d = p_id (aq_pending q) \<and> ad_for d = p_id p
              \<and> \<not> (get (aq_old q) AnnotationDecision \<noteq> [] \<and> get (aq_old q) AnnotationFor = ad_for d))"
    if r: "Read (w_annotations wl) p key = Decided d" for p d
  proof -
    have "\<not> unstamped (w_annotations wl)" using r Read_unstamped by blast
    then obtain later q before where q: "rs = later @ q # before" "\<forall>x\<in>set later. same_protocol (aq_new x) (aq_old x)"
      "decided_by key q (w_annotations wl)"
      using lifecycle_by_request [OF assms] by (auto simp: by_request_def)
    note f = decided_fields [OF q(3)]
    obtain a l e where d: "ParseApprover (get (w_annotations wl) AnnotationBy) = Inr a" "get (w_annotations wl) AnnotationFor = p_id p"
      "validateFields (w_annotations wl) = Inr (l, e)" "d = \<lparr>ad_label = l, ad_reason = get (w_annotations wl) AnnotationReason, ad_edit = e,
        ad_approver = a, ad_approver_raw = get (w_annotations wl) AnnotationBy, ad_for = p_id p\<rparr>"
      using r unfolding Read_Decided by blast
    have "get (w_annotations wl) AnnotationFor = p_id (aq_pending q)"
      "Stamp (aq_user q) (aq_groups q) = Inr (get (w_annotations wl) AnnotationBy)"
      using q(3) by (simp_all add: decided_by_def stamped_def)
    then show ?thesis using q(1,2,3) d f by (intro conjI exI [of _ later] exI [of _ q] exI [of _ before]) (auto simp: decided_by_def)
  qed
  then show ?thesis using lifecycle_spec [OF assms] by blast
qed

text \<open>C9: the reviewer decides what is executed. While an action is held or its decision is being recorded, an
  update that the webhook accepts leaves all that the controller derives from the spec for the
  human decision as it was: the layers it checks, the record it writes and the capture mode.\<close>

theorem held_spec_frozen:
  assumes "ValidateUpdate ue art new old = None" "st_pending (w_status old) = Some held"
    "st_phase (w_status old) = PhasePendingApproval \<or> pa_state held \<noteq> ''''"
    "w_name new = w_name old" "w_namespace new = w_namespace old" "w_uid new = w_uid old" "w_status new = w_status old"
  shows "approval_layers cfg ctx new p tg = approval_layers cfg ctx old p tg
    \<and> human_params_of cfg new p d g = human_params_of cfg old p d g
    \<and> CaptureMode (w_spec new) = CaptureMode (w_spec old)"
proof -
  have f: "frozen_changes (w_spec old) (w_spec new) = []" "sp_mcp_endpoint (w_spec new) = sp_mcp_endpoint (w_spec old)"
    using assms(1-3) by (auto simp: ValidateUpdate_None holds_spec_def)
  then have "approval_input new p t = approval_input old p t" for t
    using assms(7) by (simp add: approval_input_def mcp_endpoint_def frozen_changes_Nil)
  then show ?thesis using f assms
    by (simp add: approval_layers_def human_params_of_def workloadRef_def policy_mode_def CaptureMode_def frozen_changes_Nil)
qed

lemma get_scheme_Scheme: "get_scheme i acc s = Scheme a r \<Longrightarrow> \<exists>u. s = u @ '':'' @ r"
proof (induction s arbitrary: i acc)
  case (Cons c s)
  have step: "\<exists>u. c # s = u @ '':'' @ r" if g: "get_scheme (Suc i) (acc @ [c]) s = Scheme a r"
  proof -
    obtain u where "s = u @ '':'' @ r" using Cons.IH [OF g] by (elim exE) (rule that)
    then have "c # s = (c # u) @ '':'' @ r" by simp
    then show ?thesis by (rule exI)
  qed
  from Cons.prems have "get_scheme (Suc i) (acc @ [c]) s = Scheme a r \<or> (c = CHR '':'' \<and> s = r)"
    by (simp split: if_splits)
  then show ?case
  proof (elim disjE conjE)
    assume "c = CHR '':''" "s = r"
    then have "c # s = [] @ '':'' @ r" by simp
    then show ?thesis by (rule exI)
  qed (rule step)
qed simp

lemma parse_rest_host: "parse_rest True r = Some h \<Longrightarrow> h \<noteq> [] \<Longrightarrow> \<exists>v. r = ''//'' @ v"
proof -
  assume "parse_rest True r = Some h" "h \<noteq> []"
  then have "has_prefix (drop_query r) ''//''" by (auto simp: parse_rest_def Let_def split: if_splits)
  then have "take 2 (drop_query r) = ''//''" by (simp add: has_prefix_def numeral_2_eq_2)
  moreover have "\<exists>n. drop_query r = take n r"
    by (auto simp: drop_query_def cut_def split: option.splits intro: exI [of _ "length r"])
  ultimately obtain n where "take (min 2 n) r = ''//''" by auto
  then have "r = ''//'' @ drop (min 2 n) r" by (metis append_take_drop_id)
  then show ?thesis by blast
qed

lemma accepted_has_separator:
  assumes "validateMCPEndpoint ue e = None" shows "contains e ''://''"
proof -
  obtain h where h: "url_host e = Some h" "h \<noteq> []" "url_scheme e = ''https''"
    using assms by (auto simp: validateMCPEndpoint_None)
  define u where "u = (case cut e ''#'' of None \<Rightarrow> e | Some (a, _) \<Rightarrow> a)"
  obtain a r where r: "get_scheme 0 [] u = Scheme a r"
    using h(3) by (auto simp: url_scheme_def u_def [symmetric] split: scheme_result.splits)
  then have "parse_rest True r = Some h"
    using h(1,2) by (auto simp: url_host_def u_def Let_def split: option.splits prod.splits if_splits)
  then obtain v w where "u = w @ '':'' @ ''//'' @ v" using parse_rest_host h(2) get_scheme_Scheme [OF r] by blast
  moreover have "\<exists>n. u = take n e"
    by (auto simp: u_def cut_def split: option.splits intro: exI [of _ "length e"])
  then obtain x where "e = u @ x" by (metis append_take_drop_id)
  ultimately show ?thesis unfolding contains_iff by auto
qed

text \<open>An endpoint that the webhook accepts cannot escape the destination rule except by having a port and no
  host name. When it has no surrounding space and some intent is declared, an input to it that has no egress
  violation names a declared host, or the URL has a host part whose host name is empty.\<close>

lemma admitted_endpoint_declared:
  assumes "validateMCPEndpoint ue e = None" "trim_space e = e"
    "o_destination (in_observed i) = e" "\<not> IsZero (in_declared i)" "egress i ctx = ''''"
  shows "hostAllowed (Host e) (d_dests (in_declared i)) \<or> (\<exists>h. url_host e = Some h \<and> h \<noteq> [] \<and> hostname h = [])"
proof -
  obtain h where h: "url_host e = Some h" "h \<noteq> []" "e \<noteq> []" using assms(1) by (auto simp: validateMCPEndpoint_None)
  have "Host e = to_lower (hostname h)" using assms(2) accepted_has_separator [OF assms(1)] h by (simp add: Host_def)
  moreover have "hostname h = []" if "to_lower (hostname h) = []"
    using that by (cases "hostname h") (auto split: if_splits)
  ultimately show ?thesis
    using assms(3-) h by (auto simp: egress_def DestinationViolation_empty DestinationDeclared_def Let_def)
qed

section \<open>Witnesses\<close>

definition wit_request :: agent_workload where
  "wit_request = \<lparr>w_name = ''w'', w_namespace = ''ns'', w_uid = ''u1'', w_generation = 1, w_annotations = Map.empty,
     w_finalizers = [], w_deleting = False, w_spec = empty_spec\<lparr>sp_agents := [''a'']\<rparr>, w_status = empty_status\<rparr>"

definition wit_admitted_spec :: workload_spec where
  "wit_admitted_spec = empty_spec\<lparr>sp_agents := [''a''], sp_auto_approve := Some ''0.95'', sp_opa_policy := Some ''strict''\<rparr>"

definition wit_waiting :: pending_approval where
  "wit_waiting = \<lparr>pa_id = ''p1'', pa_action = ''scale'', pa_description = ''more replicas'', pa_confidence = ''0.9'',
     pa_cluster_health = ''90'', pa_claimed_health = '''', pa_proposal = ''{}'', pa_record = ''{}'',
     pa_receipt_seq = 0, pa_receipt_hash = '''', pa_proposed_at = 5, pa_state = '''', pa_decision = ''''\<rparr>"

definition wit_status :: workload_status where
  "wit_status = empty_status\<lparr>st_phase := PhasePendingApproval, st_pending := Some wit_waiting\<rparr>"

lemma wit_defaults: "Default (empty_spec\<lparr>sp_agents := [''a'']\<rparr>) = wit_admitted_spec"
  by (simp add: Default_def empty_spec_def wit_admitted_spec_def Let_def)

lemma wit_admitted_valid: "validate ue art wit_admitted_spec = None"
proof -
  have "validateThreshold ''0.95'' = None" unfolding threshold_accepts by code_simp
  then show ?thesis
    by (simp add: validate_None spec_problems_def wit_admitted_spec_def empty_spec_def problem_def validPolicies_def
        validateDecisionModel_def)
qed

definition bob_request :: admitted_request where
  "bob_request = \<lparr>aq_user = ''bob'', aq_groups = [], aq_old = Map.empty, aq_new = Map.empty,
     aq_pending = \<lparr>p_id = '''', p_workload = '''', p_payload = ''''\<rparr>\<rparr>"

definition alice_request :: admitted_request where
  "alice_request = \<lparr>aq_user = ''alice'', aq_groups = [''ops''], aq_old = Map.empty, aq_new = wit_new, aq_pending = wit_pending\<rparr>"

lemma wit_created: "lifecycle ue art ''key'' wit_admitted_spec [bob_request] (wit_request\<lparr>w_spec := wit_admitted_spec\<rparr>)"
proof -
  have "admission_Default ''key'' (Inr ''bob'') [] None wit_request = Inr (wit_request\<lparr>w_spec := wit_admitted_spec\<rparr>)"
    by (simp add: admission_Default_def AdmitApproval_def Admit_def wit_request_def wit_defaults Let_def list_ex_iff)
  from lifecycle.created [OF this] show ?thesis
    using wit_admitted_valid by (simp add: ValidateCreate_def wit_request_def bob_request_def)
qed

text \<open>The controller holds an action, then alice approves it.\<close>

lemma wit_approved:
  "lifecycle ue art ''key'' wit_admitted_spec [alice_request, bob_request]
     (wit_request\<lparr>w_spec := wit_admitted_spec, w_annotations := wit_res, w_status := wit_status\<rparr>)"
proof -
  let ?old = "wit_request\<lparr>w_spec := wit_admitted_spec, w_status := wit_status\<rparr>"
  let ?new = "wit_request\<lparr>w_spec := wit_admitted_spec, w_annotations := wit_res, w_status := wit_status\<rparr>"
  have held: "lifecycle ue art ''key'' wit_admitted_spec [bob_request] ?old"
    using lifecycle.status [OF wit_created, of ue art wit_status] by simp
  have p: "admitted_pending ?old = wit_pending"
    by (simp add: admitted_pending_def wit_status_def empty_status_def wit_waiting_def wit_pending_def wit_request_def)
  have "Default wit_admitted_spec = wit_admitted_spec" using Default_fields(3) wit_defaults by metis
  then have "admission_Default ''key'' (Inr ''alice'') [''ops''] (Some (Inr ?old))
      (?old\<lparr>w_annotations := wit_new\<rparr>) = Inr ?new"
    using wit_admit p by (simp add: admission_Default_def AdmitApproval_def wit_request_def Let_def)
  from lifecycle.updated [OF held this] show ?thesis
    using wit_admitted_valid p by (simp add: ValidateUpdate_None frozen_changes_Nil wit_request_def alice_request_def)
qed

lemma admitted_lifecycle_witness:
  "\<exists>d. Read wit_res wit_pending ''key'' = Decided d \<and> Stamp ''alice'' [''ops''] = Inr (ad_approver_raw d)
     \<and> ad_for d = ''p1''"
proof -
  obtain d where d: "Read wit_res wit_pending ''key'' = Decided d" using wit_read by blast
  have "w_annotations (wit_request\<lparr>w_spec := wit_admitted_spec, w_annotations := wit_res, w_status := wit_status\<rparr>) = wit_res" by simp
  then obtain later q before where q: "[alice_request, bob_request] = later @ q # before" "\<not> same_protocol (aq_new q) (aq_old q)"
    "Stamp (aq_user q) (aq_groups q) = Inr (ad_approver_raw d)" "ad_for d = p_id wit_pending"
    using admitted_lifecycle [OF wit_approved, of "\<lambda>_. ''''" 0] d by metis
  have "\<not> \<not> same_protocol (aq_new bob_request) (aq_old bob_request)" by (simp add: bob_request_def same_protocol_def)
  then have "q = alice_request" using q(1,2) by (cases later) (auto simp: Cons_eq_append_conv)
  then show ?thesis using d q(3,4) by (simp add: alice_request_def wit_pending_def pendingRef_def)
qed

lemma held_spec_frozen_witness:
  "\<exists>old new. ValidateUpdate (\<lambda>_. '''') 0 new old = None \<and> w_spec new \<noteq> w_spec old
    \<and> (\<forall>cfg ctx tg. approval_layers cfg ctx new wit_waiting tg = approval_layers cfg ctx old wit_waiting tg)"
proof -
  let ?old = "wit_request\<lparr>w_spec := wit_admitted_spec, w_status := wit_status\<rparr>"
  let ?new = "?old\<lparr>w_spec := wit_admitted_spec\<lparr>sp_agents := [''a'', ''b'']\<rparr>\<rparr>"
  have "validateThreshold ''0.95'' = None" unfolding threshold_accepts by code_simp
  then have v: "ValidateUpdate (\<lambda>_. '''') 0 ?new ?old = None"
    by (simp add: ValidateUpdate_None validate_None spec_problems_def wit_admitted_spec_def empty_spec_def problem_def
        validPolicies_def validateDecisionModel_def frozen_changes_Nil)
  have "st_pending (w_status ?old) = Some wit_waiting" "st_phase (w_status ?old) = PhasePendingApproval"
    by (simp_all add: wit_status_def)
  then have "approval_layers cfg ctx ?new wit_waiting tg = approval_layers cfg ctx ?old wit_waiting tg" for cfg ctx tg
    using held_spec_frozen [OF v, of wit_waiting cfg ctx wit_waiting tg] by simp
  moreover have "sp_agents (w_spec ?new) \<noteq> sp_agents (w_spec ?old)" by (simp add: wit_admitted_spec_def)
  then have "w_spec ?new \<noteq> w_spec ?old" by metis
  ultimately show ?thesis using v by blast
qed

definition wit_egress :: "string \<Rightarrow> input" where
  "wit_egress e = \<lparr>in_declared = zero_declared\<lparr>d_purpose := ''refunds'', d_dests := [''mcp.example'']\<rparr>,
     in_observed = zero_observed\<lparr>o_destination := e\<rparr>, in_claimed = zero_claimed\<rparr>"

lemma admitted_endpoint_declared_witness:
  "validateMCPEndpoint (\<lambda>_. '''') ''https://mcp.example:8443/x'' = None
   \<and> hostAllowed (Host ''https://mcp.example:8443/x'') [''mcp.example'']
   \<and> validateMCPEndpoint (\<lambda>_. '''') ''https://:8443/x'' = None \<and> Host ''https://:8443/x'' = ''''"
proof -
  have v: "validateMCPEndpoint (\<lambda>_. '''') ''https://mcp.example:8443/x'' = None"
    "validateMCPEndpoint (\<lambda>_. '''') ''https://:8443/x'' = None" "Host ''https://:8443/x'' = ''''" by code_simp+
  have t: "trim_space ''https://mcp.example:8443/x'' = ''https://mcp.example:8443/x''"
    "url_host ''https://mcp.example:8443/x'' = Some ''mcp.example:8443''" "hostname ''mcp.example:8443'' \<noteq> []"
    "hostAllowed (Host ''https://mcp.example:8443/x'') [''mcp.example'']" by code_simp+
  have "egress (wit_egress ''https://mcp.example:8443/x'') wit_context = ''''"
    using t(4) by (simp add: egress_def DestinationViolation_empty DestinationDeclared_def wit_egress_def zero_declared_def Let_def)
  then show ?thesis
    using admitted_endpoint_declared [OF v(1) t(1), of "wit_egress ''https://mcp.example:8443/x''" wit_context] v t
    by (simp add: wit_egress_def zero_declared_def IsZero_def zero_observed_def)
qed

end
