(* ===== verification/GoStruct.thy ===== *)
theory GoStruct
  imports Json
begin

text \<open>
  json.Unmarshal into typed Go values: a decoder takes a JSON value and the value that is decoded
  into. A null leaves a string, a number and a struct as they are and clears a slice
  and a pointer; the members of an object are decoded in their order, so that a later member
  with the same key decodes into what the earlier one left. A key selects the field of that
  name, else the first one of that name up to case; a key without a field is an error only
  when unknown fields are refused. None is the error of a value of the wrong type.
\<close>

type_synonym 'a decode = "json \<Rightarrow> 'a \<Rightarrow> 'a option"

definition int_literal :: "string \<Rightarrow> int option" where
  "int_literal s =
     (let neg = (s \<noteq> [] \<and> hd s = CHR ''-''); ds = (if neg then tl s else s)
      in if ds = [] \<or> \<not> list_all is_digit ds then None
         else Some (if neg then - int (parse_nat_acc 0 ds) else int (parse_nat_acc 0 ds)))"

definition dec_string :: "string decode" where
  "dec_string j v = (case j of JStr s \<Rightarrow> Some s | JNull \<Rightarrow> Some v | _ \<Rightarrow> None)"

definition dec_bool :: "bool decode" where
  "dec_bool j v = (case j of JBool b \<Rightarrow> Some b | JNull \<Rightarrow> Some v | _ \<Rightarrow> None)"

definition dec_int :: "int decode" where
  "dec_int j v = (case j of
       JNum n \<Rightarrow> (case int_literal n of Some i \<Rightarrow> if in_int64 i then Some i else None | None \<Rightarrow> None)
     | JNull \<Rightarrow> Some v | _ \<Rightarrow> None)"

definition dec_uint :: "int decode" where
  "dec_uint j v = (case j of
       JNum n \<Rightarrow> if n \<noteq> [] \<and> list_all is_digit n \<and> parse_nat_acc 0 n < 2 ^ 64
                then Some (int (parse_nat_acc 0 n)) else None
     | JNull \<Rightarrow> Some v | _ \<Rightarrow> None)"

definition dec_raw :: "json option decode" where
  "dec_raw j v = Some (Some j)"

fun dec_elems :: "'a \<Rightarrow> 'a decode \<Rightarrow> json list \<Rightarrow> 'a list option" where
  "dec_elems z d [] = Some []"
| "dec_elems z d (j # js) = (case d j z of None \<Rightarrow> None
     | Some x \<Rightarrow> map_option (\<lambda>xs. x # xs) (dec_elems z d js))"

definition dec_list :: "'a \<Rightarrow> 'a decode \<Rightarrow> 'a list decode" where
  "dec_list z d j v = (case j of JArr js \<Rightarrow> dec_elems z d js | JNull \<Rightarrow> Some [] | _ \<Rightarrow> None)"

definition dec_ptr :: "'a \<Rightarrow> 'a decode \<Rightarrow> 'a option decode" where
  "dec_ptr z d j v = (if j = JNull then Some None
     else map_option Some (d j (case v of None \<Rightarrow> z | Some x \<Rightarrow> x)))"

definition on_field :: "('r \<Rightarrow> 'a) \<Rightarrow> (('a \<Rightarrow> 'a) \<Rightarrow> 'r \<Rightarrow> 'r) \<Rightarrow> 'a decode \<Rightarrow> 'r decode" where
  "on_field get upd d j r = map_option (\<lambda>a. upd (\<lambda>_. a) r) (d j (get r))"

definition pick :: "(string \<times> 'a) list \<Rightarrow> string \<Rightarrow> 'a option" where
  "pick fs k = orElse (map_of fs k) (first_some (\<lambda>p. if equal_fold k (fst p) then Some (snd p) else None) fs)"

fun dec_members :: "bool \<Rightarrow> (string \<times> 'r decode) list \<Rightarrow> (string \<times> json) list \<Rightarrow> 'r \<Rightarrow> 'r option" where
  "dec_members strict fs [] r = Some r"
| "dec_members strict fs ((k, j) # m) r = (case pick fs k of
       None \<Rightarrow> if strict then None else dec_members strict fs m r
     | Some d \<Rightarrow> (case d j r of None \<Rightarrow> None | Some r' \<Rightarrow> dec_members strict fs m r'))"

definition dec_struct :: "bool \<Rightarrow> (string \<times> 'r decode) list \<Rightarrow> 'r decode" where
  "dec_struct strict fs j r = (case j of JObj m \<Rightarrow> dec_members strict fs m r | JNull \<Rightarrow> Some r | _ \<Rightarrow> None)"

section \<open>Decoding what was encoded\<close>

lemma int_literal_itoa [simp]: "int_literal (itoa i) = Some i"
proof -
  have d: "list_all is_digit (nat_str n)" for n using nat_str_digits by (auto simp: list_all_iff)
  have ne: "nat_str n \<noteq> []" for n by (simp add: nat_str.simps [of n])
  have h: "hd (nat_str n) \<noteq> CHR ''-''" for n
    using hd_in_set [OF ne [of n]] nat_str_digits [of "hd (nat_str n)" n] by (auto simp: is_digit_def)
  show ?thesis by (simp add: int_literal_def itoa_def d ne h parse_nat_str Let_def)
qed

lemma dec_string_str [simp]: "dec_string (JStr s) v = Some s"
  by (simp add: dec_string_def)

lemma dec_int_itoa [simp]: "in_int64 i \<Longrightarrow> dec_int (JNum (itoa i)) v = Some i"
  by (simp add: dec_int_def)

lemma dec_uint_itoa [simp]: "0 \<le> i \<Longrightarrow> i < 2 ^ 64 \<Longrightarrow> dec_uint (JNum (itoa i)) v = Some i"
proof -
  assume i: "0 \<le> i" "i < 2 ^ 64"
  have "list_all is_digit (nat_str (nat i))" using nat_str_digits by (auto simp: list_all_iff)
  moreover have "nat_str (nat i) \<noteq> []" by (simp add: nat_str.simps [of "nat i"])
  moreover have "nat i < 2 ^ 64" using i by (simp add: nat_less_iff)
  ultimately show ?thesis using i(1) by (simp add: dec_uint_def itoa_def parse_nat_str)
qed

lemma dec_elems_map: "(\<And>x. x \<in> set xs \<Longrightarrow> d (f x) z = Some x) \<Longrightarrow> dec_elems z d (map f xs) = Some xs"
  by (induction xs) simp_all

lemma dec_list_map [simp]: "(\<And>x. x \<in> set xs \<Longrightarrow> d (f x) z = Some x) \<Longrightarrow> dec_list z d (JArr (map f xs)) v = Some xs"
  by (simp add: dec_list_def dec_elems_map)

lemma dec_ptr_obj [simp]: "dec_ptr z d (JObj m) None = map_option Some (d (JObj m) z)"
  by (simp add: dec_ptr_def)

lemma dec_struct_obj [simp]: "dec_struct strict fs (JObj m) r = dec_members strict fs m r"
  by (simp add: dec_struct_def)

lemma on_field_Some [simp]: "d j (get r) = Some a \<Longrightarrow> on_field get upd d j r = Some (upd (\<lambda>_. a) r)"
  by (simp add: on_field_def)

lemma dec_members_field:
  "map_of fs k = Some d \<Longrightarrow> dec_members strict fs ((k, j) # m) r
     = (case d j r of None \<Rightarrow> None | Some r' \<Rightarrow> dec_members strict fs m r')"
  by (simp add: pick_def orElse_def)

declare dec_members.simps(2) [simp del]

end
