(* ===== verification/RecordCodec.thy ===== *)
theory RecordCodec
  imports Receipts GoStruct
begin

text \<open>
  How encoding/json reads the types of pkg/receipts/record.go by their field tags: the decoder of a
  decision record, into the zero record, with or without unknown fields. A record that was written
  by json.Marshal reads back as itself.
\<close>

section \<open>Zero values\<close>

definition zero_workload :: rc_workload where
  "zero_workload = \<lparr>wk_namespace = [], wk_name = [], wk_uid = []\<rparr>"

definition zero_reason :: rc_reason where
  "zero_reason = \<lparr>rn_rule = [], rn_reason = []\<rparr>"

definition zero_model :: model_block where
  "zero_model = \<lparr>mb_version_schema = 0, mb_mode = [], mb_id = [], mb_version = [], mb_artifact = [],
     mb_feature_spec = [], mb_feature_hash = [], mb_option_set = [], mb_option_micro = [], mb_risk = 0,
     mb_claimed_risk = 0, mb_baseline_risk = 0, mb_baseline_hash = [], mb_threshold = 0, mb_calibration = [],
     mb_reasons = [], mb_base_outcome = [], mb_outcome = [], mb_error = []\<rparr>"

definition zero_approval :: approval_block where
  "zero_approval = \<lparr>ab_label = [], ab_approver = [], ab_approver_sha256 = [], ab_reason_sha256 = [],
     ab_pending_id = [], ab_original_seq = 0, ab_original_hash = [], ab_edited = [], ab_payload_sha256 = [],
     ab_consumed_sha256 = []\<rparr>"

definition zero_record :: decision_record where
  "zero_record = \<lparr>dr_schema = 0, dr_workload = zero_workload, dr_action = [], dr_layer = [], dr_outcome = [],
     dr_reasons = [], dr_input_hash = [], dr_payload_sha256 = [],
     dr_declared = \<lparr>ds_sha256 = [], ds_decision_type = [], ds_classes = [], ds_dests = []\<rparr>,
     dr_observed = \<lparr>os_sha256 = [], os_host = [], os_classes = [], os_tool = [], os_prior_actions = 0, os_prior_denied = 0\<rparr>,
     dr_claimed = \<lparr>cs_sha256 = [], cs_confidence = [], cs_health = []\<rparr>, dr_packs = [], dr_mode = [],
     dr_model = None, dr_approval = None, dr_hint = []\<rparr>"

section \<open>Decoders\<close>

abbreviation dec_strings :: "string list decode" where
  "dec_strings \<equiv> dec_list [] dec_string"

definition workload_fields :: "(string \<times> rc_workload decode) list" where
  "workload_fields = [(''namespace'', on_field wk_namespace wk_namespace_update dec_string),
     (''name'', on_field wk_name wk_name_update dec_string), (''uid'', on_field wk_uid wk_uid_update dec_string)]"

definition reason_fields :: "(string \<times> rc_reason decode) list" where
  "reason_fields = [(''rule_id'', on_field rn_rule rn_rule_update dec_string),
     (''reason'', on_field rn_reason rn_reason_update dec_string)]"

definition declared_fields :: "(string \<times> declared_summary decode) list" where
  "declared_fields = [(''sha256'', on_field ds_sha256 ds_sha256_update dec_string),
     (''decision_type'', on_field ds_decision_type ds_decision_type_update dec_string),
     (''allowed_data_classes'', on_field ds_classes ds_classes_update dec_strings),
     (''allowed_destinations'', on_field ds_dests ds_dests_update dec_strings)]"

definition observed_fields :: "(string \<times> observed_summary decode) list" where
  "observed_fields = [(''sha256'', on_field os_sha256 os_sha256_update dec_string),
     (''destination_host'', on_field os_host os_host_update dec_string),
     (''data_classes'', on_field os_classes os_classes_update dec_strings),
     (''tool'', on_field os_tool os_tool_update dec_string),
     (''prior_action_count'', on_field os_prior_actions os_prior_actions_update dec_int),
     (''prior_denied_count'', on_field os_prior_denied os_prior_denied_update dec_int)]"

definition claimed_fields :: "(string \<times> claimed_summary decode) list" where
  "claimed_fields = [(''sha256'', on_field cs_sha256 cs_sha256_update dec_string),
     (''confidence'', on_field cs_confidence cs_confidence_update dec_string),
     (''cluster_health'', on_field cs_health cs_health_update dec_string)]"

definition model_fields :: "(string \<times> model_block decode) list" where
  "model_fields = [(''schema_version'', on_field mb_version_schema mb_version_schema_update dec_int),
     (''mode'', on_field mb_mode mb_mode_update dec_string), (''id'', on_field mb_id mb_id_update dec_string),
     (''version'', on_field mb_version mb_version_update dec_string),
     (''artifact_sha256'', on_field mb_artifact mb_artifact_update dec_string),
     (''feature_spec'', on_field mb_feature_spec mb_feature_spec_update dec_string),
     (''feature_hash'', on_field mb_feature_hash mb_feature_hash_update dec_string),
     (''option_set'', on_field mb_option_set mb_option_set_update dec_strings),
     (''option_micro'', on_field mb_option_micro mb_option_micro_update (dec_list 0 dec_int)),
     (''risk_micro'', on_field mb_risk mb_risk_update dec_int),
     (''claimed_risk_micro'', on_field mb_claimed_risk mb_claimed_risk_update dec_int),
     (''baseline_risk_micro'', on_field mb_baseline_risk mb_baseline_risk_update dec_int),
     (''baseline_feature_hash'', on_field mb_baseline_hash mb_baseline_hash_update dec_string),
     (''threshold_micro'', on_field mb_threshold mb_threshold_update dec_int),
     (''calibration'', on_field mb_calibration mb_calibration_update dec_string),
     (''reason_codes'', on_field mb_reasons mb_reasons_update dec_strings),
     (''base_outcome'', on_field mb_base_outcome mb_base_outcome_update dec_string),
     (''outcome'', on_field mb_outcome mb_outcome_update dec_string),
     (''error'', on_field mb_error mb_error_update dec_string)]"

definition approval_fields :: "(string \<times> approval_block decode) list" where
  "approval_fields = [(''label'', on_field ab_label ab_label_update dec_string),
     (''approver'', on_field ab_approver ab_approver_update dec_string),
     (''approver_sha256'', on_field ab_approver_sha256 ab_approver_sha256_update dec_string),
     (''reason_sha256'', on_field ab_reason_sha256 ab_reason_sha256_update dec_string),
     (''pending_id'', on_field ab_pending_id ab_pending_id_update dec_string),
     (''original_seq'', on_field ab_original_seq ab_original_seq_update dec_uint),
     (''original_input_hash'', on_field ab_original_hash ab_original_hash_update dec_string),
     (''edited_fields'', on_field ab_edited ab_edited_update dec_strings),
     (''pending_payload_sha256'', on_field ab_payload_sha256 ab_payload_sha256_update dec_string),
     (''consumed_id_sha256'', on_field ab_consumed_sha256 ab_consumed_sha256_update dec_string)]"

definition record_fields :: "bool \<Rightarrow> (string \<times> decision_record decode) list" where
  "record_fields strict = [(''schema_version'', on_field dr_schema dr_schema_update dec_int),
     (''workload'', on_field dr_workload dr_workload_update (dec_struct strict workload_fields)),
     (''action'', on_field dr_action dr_action_update dec_string),
     (''layer'', on_field dr_layer dr_layer_update dec_string),
     (''outcome'', on_field dr_outcome dr_outcome_update dec_string),
     (''reasons'', on_field dr_reasons dr_reasons_update (dec_list zero_reason (dec_struct strict reason_fields))),
     (''input_hash'', on_field dr_input_hash dr_input_hash_update dec_string),
     (''payload_sha256'', on_field dr_payload_sha256 dr_payload_sha256_update dec_string),
     (''declared'', on_field dr_declared dr_declared_update (dec_struct strict declared_fields)),
     (''observed'', on_field dr_observed dr_observed_update (dec_struct strict observed_fields)),
     (''claimed'', on_field dr_claimed dr_claimed_update (dec_struct strict claimed_fields)),
     (''policy_packs'', on_field dr_packs dr_packs_update dec_strings),
     (''threshold_mode'', on_field dr_mode dr_mode_update dec_string),
     (''model'', on_field dr_model dr_model_update (dec_ptr zero_model (dec_struct strict model_fields))),
     (''approval'', on_field dr_approval dr_approval_update (dec_ptr zero_approval (dec_struct strict approval_fields))),
     (''replay_hint'', on_field dr_hint dr_hint_update dec_string)]"

definition decode_record :: "bool \<Rightarrow> json \<Rightarrow> decision_record option" where
  "decode_record strict j = dec_struct strict (record_fields strict) j zero_record"

section \<open>Round trip\<close>

text \<open>A record whose integers fit their Go types.\<close>

definition wf_record :: "decision_record \<Rightarrow> bool" where
  "wf_record r \<longleftrightarrow> in_int64 (dr_schema r) \<and> in_int64 (os_prior_actions (dr_observed r))
     \<and> in_int64 (os_prior_denied (dr_observed r))
     \<and> (\<forall>m. dr_model r = Some m \<longrightarrow> in_int64 (mb_version_schema m) \<and> in_int64 (mb_risk m)
          \<and> in_int64 (mb_claimed_risk m) \<and> in_int64 (mb_baseline_risk m) \<and> in_int64 (mb_threshold m)
          \<and> (\<forall>x\<in>set (mb_option_micro m). in_int64 x))
     \<and> (\<forall>a. dr_approval r = Some a \<longrightarrow> 0 \<le> ab_original_seq a \<and> ab_original_seq a < 2 ^ 64)"

lemma dec_strings_jstrs [simp]: "dec_strings (jstrs xs) v = Some xs"
  by (simp add: jstrs_def)

lemma dec_int_jint [simp]: "in_int64 i \<Longrightarrow> dec_int (jint i) v = Some i"
  by (simp add: jint_def)

lemma dec_uint_jint [simp]: "0 \<le> i \<Longrightarrow> i < 2 ^ 64 \<Longrightarrow> dec_uint (jint i) v = Some i"
  unfolding jint_def by (rule dec_uint_itoa)

lemma decode_workload: "dec_struct s workload_fields (workload_json w) zero_workload = Some w"
  by (simp add: workload_json_def workload_fields_def zero_workload_def dec_members_field)

lemma decode_reason:
  "dec_struct s reason_fields (JObj [(''rule_id'', JStr (rn_rule x)), (''reason'', JStr (rn_reason x))]) zero_reason = Some x"
  by (simp add: reason_fields_def zero_reason_def dec_members_field)

lemma decode_reasons:
  "dec_list zero_reason (dec_struct s reason_fields)
     (JArr (map (\<lambda>x. JObj [(''rule_id'', JStr (rn_rule x)), (''reason'', JStr (rn_reason x))]) xs)) v = Some xs"
  by (rule dec_list_map) (rule decode_reason)

lemma decode_declared:
  "dec_struct s declared_fields (declared_json d)
     \<lparr>ds_sha256 = [], ds_decision_type = [], ds_classes = [], ds_dests = []\<rparr> = Some d"
  by (simp add: declared_json_def declared_fields_def dec_members_field)

lemma decode_observed:
  "in_int64 (os_prior_actions ob) \<Longrightarrow> in_int64 (os_prior_denied ob) \<Longrightarrow>
   dec_struct s observed_fields (observed_json ob) \<lparr>os_sha256 = [], os_host = [], os_classes = [], os_tool = [],
     os_prior_actions = 0, os_prior_denied = 0\<rparr> = Some ob"
  by (simp add: observed_json_def observed_fields_def dec_members_field)

lemma decode_claimed:
  "dec_struct s claimed_fields (claimed_json c) \<lparr>cs_sha256 = [], cs_confidence = [], cs_health = []\<rparr> = Some c"
  by (cases c) (simp add: claimed_json_def claimed_fields_def dec_members_field opt_str_def)

lemma decode_model:
  assumes "in_int64 (mb_version_schema m)" "in_int64 (mb_risk m)" "in_int64 (mb_claimed_risk m)"
    "in_int64 (mb_baseline_risk m)" "in_int64 (mb_threshold m)" "\<forall>x\<in>set (mb_option_micro m). in_int64 x"
  shows "dec_struct s model_fields (model_json m) zero_model = Some m"
  using assms by (cases m) (simp add: model_json_def model_fields_def zero_model_def dec_members_field opt_str_def)

lemma decode_approval:
  assumes "0 \<le> ab_original_seq a" "ab_original_seq a < 2 ^ 64"
  shows "dec_struct s approval_fields (approval_json a) zero_approval = Some a"
  using assms by (cases a) (simp add: approval_json_def approval_fields_def zero_approval_def dec_members_field opt_str_def)

lemma decode_ptr:
  "dec_struct s fs (f x) z = Some x \<Longrightarrow> f x \<noteq> JNull \<Longrightarrow> dec_ptr z (dec_struct s fs) (f x) None = Some (Some x)"
  by (simp add: dec_ptr_def)

lemma opt_member_fields:
  assumes "map_of fs k = Some (on_field get upd d)" "\<And>x. v = Some x \<Longrightarrow> d (f x) (get r) = Some (Some x)"
    "v = None \<Longrightarrow> upd (\<lambda>_. None) r = r"
  shows "dec_members s fs (opt_member k f v @ m) r = dec_members s fs m (upd (\<lambda>_. v) r)"
  using assms by (cases v) (simp_all add: opt_member_def dec_members_field)

lemma decode_record_json:
  assumes "wf_record r"
  shows "decode_record strict (record_json r) = Some r"
proof -
  have w: "in_int64 (dr_schema r)" "in_int64 (os_prior_actions (dr_observed r))" "in_int64 (os_prior_denied (dr_observed r))"
    using assms by (simp_all add: wf_record_def)
  have m: "dec_ptr zero_model (dec_struct strict model_fields) (model_json x) None = Some (Some x)" if "dr_model r = Some x" for x
    using that assms by (intro decode_ptr decode_model) (auto simp: wf_record_def model_json_def)
  have a: "dec_ptr zero_approval (dec_struct strict approval_fields) (approval_json x) None = Some (Some x)"
    if "dr_approval r = Some x" for x
    using that assms by (intro decode_ptr decode_approval) (auto simp: wf_record_def approval_json_def)
  note member = opt_member_fields [of _ _ dr_model dr_model_update "dec_ptr zero_model (dec_struct strict model_fields)"]
    opt_member_fields [of _ _ dr_approval dr_approval_update "dec_ptr zero_approval (dec_struct strict approval_fields)"]
  show ?thesis
    unfolding decode_record_def record_json_def record_fields_def zero_record_def
    by (simp add: dec_members_field decode_workload decode_reasons decode_declared decode_observed decode_claimed w member m a)
qed

end
