(* ===== verification/Dataset.thy ===== *)
theory Dataset
  imports ReceiptLog RecordCodec
begin

text \<open>
  pkg/dataset/dataset.go and store.go: the examples of human decisions, what they keep of an action
  in each capture mode, their binding to the receipt of the decision, and the file the
  receipt writer appends them to. The record binding of the receipt library is a
  parameter, as are the clock and the digests of its receipts. The params of an action
  are a map that may be nil; raw JSON is kept as its value.
\<close>

section \<open>Examples\<close>

definition SchemaVersion :: int where "SchemaVersion = 1"
definition CaptureNone :: string where "CaptureNone = ''none''"
definition CaptureRedacted :: string where "CaptureRedacted = ''redacted''"
definition CaptureFull :: string where "CaptureFull = ''full''"

record example_features =
  ft_original_seq :: int
  ft_input_hash :: string
  ft_decision_type :: string
  ft_classes :: "string list"
  ft_dests :: "string list"
  ft_host :: string
  ft_observed :: "string list"
  ft_tool :: string
  ft_prior_actions :: int
  ft_prior_denied :: int
  ft_confidence :: string
  ft_health :: string
  ft_packs :: "string list"
  ft_mode :: string
  ft_escalated_by :: string
  ft_codes :: "string list"

record data_action =
  da_name :: string
  da_description :: string
  da_params :: "(string \<times> gany) list option"

record content =
  ct_sha256 :: string
  ct_classes :: "string list"
  ct_name :: string
  ct_description :: string
  ct_params :: "json option"

record edit_diff =
  ed_fields :: "string list"
  ed_edited :: content

record example =
  ex_schema :: int
  ex_id :: string
  ex_seq :: int
  ex_hash :: string
  ex_workload :: rc_workload
  ex_features :: example_features
  ex_label :: string
  ex_reason :: string
  ex_approver :: string
  ex_timestamp :: string
  ex_mode :: string
  ex_content :: content
  ex_diff :: "edit_diff option"
  ex_source :: string

definition FeaturesFromRecord :: "decision_record \<Rightarrow> int \<Rightarrow> example_features" where
  "FeaturesFromRecord rec originalSeq =
     \<lparr>ft_original_seq = originalSeq, ft_input_hash = dr_input_hash rec,
      ft_decision_type = ds_decision_type (dr_declared rec), ft_classes = ds_classes (dr_declared rec),
      ft_dests = ds_dests (dr_declared rec), ft_host = os_host (dr_observed rec),
      ft_observed = os_classes (dr_observed rec), ft_tool = os_tool (dr_observed rec),
      ft_prior_actions = os_prior_actions (dr_observed rec), ft_prior_denied = os_prior_denied (dr_observed rec),
      ft_confidence = cs_confidence (dr_claimed rec), ft_health = cs_health (dr_claimed rec),
      ft_packs = dr_packs rec, ft_mode = dr_mode rec, ft_escalated_by = dr_layer rec,
      ft_codes = sort (remdups (map rn_rule (dr_reasons rec)))\<rparr>"

section \<open>Capture\<close>

definition redactString :: "string \<Rightarrow> string" where
  "redactString s = (let cs = Strings (Detect s)
     in if length cs = 0 then s else ''['' @ join '','' cs @ '']'')"

definition redact_leaf :: "gany \<Rightarrow> string \<Rightarrow> gany" where
  "redact_leaf t shown = (let r = redactString shown in if r \<noteq> shown then GStr r else t)"

function redact :: "nat \<Rightarrow> gany \<Rightarrow> gany" where
  "redact depth v =
     (if depth > MaxDepth then GStr ''[truncated]''
      else (case v of
          GStr t \<Rightarrow> GStr (redactString t)
        | GNumber t \<Rightarrow> redact_leaf v t
        | GFloat f \<Rightarrow> redact_leaf v (fmt_fixed 0 f)
        | GList vs \<Rightarrow> GList (map (redact (Suc depth)) vs)
        | GMap m \<Rightarrow> GMap (map (\<lambda>p. (fst p, redact (Suc depth) (snd p))) m)
        | GNil \<Rightarrow> v | GBool _ \<Rightarrow> v | GInt _ \<Rightarrow> v
        | _ \<Rightarrow> GStr ''[unsupported]''))"
  by pat_completeness auto
termination
  by (relation "measure (\<lambda>(d, v). Suc MaxDepth - d)") auto

declare redact.simps [simp del]

definition nil_or_map :: "(string \<times> gany) list option \<Rightarrow> gany" where
  "nil_or_map p = (case p of None \<Rightarrow> GNil | Some m \<Rightarrow> GMap m)"

definition action_value :: "data_action \<Rightarrow> gany" where
  "action_value a = GMap [(''name'', GStr (da_name a)), (''description'', GStr (da_description a)),
     (''params'', nil_or_map (da_params a))]"

text \<open>A nil map is redacted to an empty one.\<close>

definition redacted_params :: "data_action \<Rightarrow> gany" where
  "redacted_params a = redact 0 (GMap (case da_params a of None \<Rightarrow> [] | Some m \<Rightarrow> m))"

definition BuildContent :: "string \<Rightarrow> data_action \<Rightarrow> content err" where
  "BuildContent mode a =
     (case Marshal (action_value a) of
        None \<Rightarrow> Inl ''json: unsupported value''
      | Some raw \<Rightarrow>
          (let c = \<lparr>ct_sha256 = sha256_hex raw, ct_classes = Strings (DetectValue (action_value a)),
                    ct_name = [], ct_description = [], ct_params = None\<rparr>
           in if mode = CaptureRedacted then
                (case marshal (redacted_params a) of
                   None \<Rightarrow> Inl ''json: unsupported value''
                 | Some p \<Rightarrow> Inr (c\<lparr>ct_name := redactString (da_name a),
                     ct_description := redactString (da_description a), ct_params := Some p\<rparr>))
              else if mode = CaptureFull then
                (case marshal (nil_or_map (da_params a)) of
                   None \<Rightarrow> Inl ''json: unsupported value''
                 | Some p \<Rightarrow> Inr (c\<lparr>ct_name := da_name a, ct_description := da_description a, ct_params := Some p\<rparr>))
              else Inr c))"

definition Diff :: "data_action \<Rightarrow> data_action \<Rightarrow> string list err" where
  "Diff orig edited =
     (let out = (if da_name orig \<noteq> da_name edited then [''name''] else [])
              @ (if da_description orig \<noteq> da_description edited then [''description''] else [])
      in case Marshal (nil_or_map (da_params orig)) of
           None \<Rightarrow> Inl ''json: unsupported value''
         | Some a \<Rightarrow> (case Marshal (nil_or_map (da_params edited)) of
               None \<Rightarrow> Inl ''json: unsupported value''
             | Some b \<Rightarrow> Inr (out @ (if a \<noteq> b then [''params''] else []))))"

section \<open>Building an example\<close>

record example_params =
  xp_receipt :: receipt
  xp_human :: decision_record
  xp_original :: decision_record
  xp_mode :: string
  xp_action :: data_action
  xp_edited :: "data_action option"
  xp_timestamp :: string

definition capture_mode :: "string \<Rightarrow> string" where
  "capture_mode m = (if m \<in> {CaptureNone, CaptureRedacted, CaptureFull} then m else CaptureNone)"

definition base_example :: "example_params \<Rightarrow> approval_block \<Rightarrow> content \<Rightarrow> example" where
  "base_example p a c =
     \<lparr>ex_schema = SchemaVersion, ex_id = ab_pending_id a, ex_seq = rv_seq (xp_receipt p),
      ex_hash = hex (rv_entry (xp_receipt p)), ex_workload = dr_workload (xp_human p),
      ex_features = FeaturesFromRecord (xp_original p) (ab_original_seq a), ex_label = ab_label a,
      ex_reason = ab_reason_sha256 a, ex_approver = ab_approver_sha256 a, ex_timestamp = xp_timestamp p,
      ex_mode = capture_mode (xp_mode p), ex_content = c, ex_diff = None, ex_source = []\<rparr>"

definition NewExample :: "example_params \<Rightarrow> example err" where
  "NewExample p =
     (case dr_approval (xp_human p) of
        None \<Rightarrow> Inl ''dataset: human record has no approval block''
      | Some a \<Rightarrow>
          (let mode = capture_mode (xp_mode p) in
           bind_err (BuildContent mode (xp_action p)) (\<lambda>c.
             let ex = base_example p a c in
             if ab_label a = LabelEdit then
               (case xp_edited p of
                  None \<Rightarrow> Inl ''dataset: edit example needs the edited action''
                | Some ed \<Rightarrow>
                    bind_err (Diff (xp_action p) ed) (\<lambda>fs.
                    bind_err (BuildContent mode ed) (\<lambda>e.
                      Inr (ex\<lparr>ex_diff := Some \<lparr>ed_fields = fs, ed_edited = e\<rparr>\<rparr>))))
             else Inr ex)))"

section \<open>Binding\<close>

datatype dataset_error = ErrUnbound string | ErrDuplicate | ErrDataset string

text \<open>The binding of a raw record to a receipt is a parameter; no record is a nil one.\<close>

definition Validate :: "(receipt \<Rightarrow> json option \<Rightarrow> string option) \<Rightarrow> example \<Rightarrow> receipt \<Rightarrow> json option
    \<Rightarrow> dataset_error option" where
  "Validate binding ex r recordJSON =
     (if ex_schema ex \<noteq> SchemaVersion then Some (ErrDataset (''dataset: unsupported schema_version '' @ itoa (ex_schema ex)))
      else if ex_source ex \<noteq> '''' then Some (ErrUnbound (quote (ex_source ex) @ '' example is not a human decision''))
      else if ex_mode ex \<notin> {CaptureNone, CaptureRedacted, CaptureFull}
      then Some (ErrDataset (''dataset: unknown capture_mode '' @ quote (ex_mode ex)))
      else if ex_seq ex = 0 \<or> ex_seq ex \<noteq> rv_seq r \<or> ex_hash ex \<noteq> hex (rv_entry r)
      then Some (ErrUnbound ''seq or entry hash mismatch'')
      else case binding r recordJSON of Some e \<Rightarrow> Some (ErrUnbound e)
      | None \<Rightarrow>
        (case Option.bind recordJSON (decode_record False) of None \<Rightarrow> Some (ErrUnbound ''record unreadable'')
         | Some rec \<Rightarrow>
           (case OutcomeForLabel (ex_label ex) of Inl e \<Rightarrow> Some (ErrDataset e)
            | Inr want \<Rightarrow>
              (case dr_approval rec of
                 None \<Rightarrow> Some (ErrUnbound (''receipt '' @ itoa (rv_seq r) @ '' is not a human decision''))
               | Some a \<Rightarrow>
                 if dr_layer rec \<noteq> LayerHuman
                 then Some (ErrUnbound (''receipt '' @ itoa (rv_seq r) @ '' is not a human decision''))
                 else if dr_outcome rec \<noteq> want \<or> ab_label a \<noteq> ex_label ex
                 then Some (ErrUnbound (''label '' @ quote (ex_label ex) @ '' does not match receipt outcome ''
                   @ quote (dr_outcome rec)))
                 else if ab_pending_id a \<noteq> ex_id ex \<or> ab_approver_sha256 a \<noteq> ex_approver ex
                   \<or> ab_reason_sha256 a \<noteq> ex_reason ex
                 then Some (ErrUnbound ''example id, approver, or reason hash differs from the receipt'')
                 else if ab_original_seq a \<noteq> ft_original_seq (ex_features ex)
                 then Some (ErrUnbound ''original seq differs from the receipt'')
                 else if dr_workload rec \<noteq> ex_workload ex
                 then Some (ErrUnbound ''workload differs from the receipt'')
                 else if (ex_label ex = LabelEdit) \<noteq> (ex_diff ex \<noteq> None)
                 then Some (ErrDataset ''dataset: edit_diff must be set for edit and only for edit'')
                 else None))))"

section \<open>The JSON form\<close>

definition features_json :: "example_features \<Rightarrow> json" where
  "features_json f = JObj [(''original_seq'', jint (ft_original_seq f)), (''original_input_hash'', JStr (ft_input_hash f)),
     (''decision_type'', JStr (ft_decision_type f)), (''allowed_data_classes'', jstrs (ft_classes f)),
     (''allowed_destinations'', jstrs (ft_dests f)), (''observed_destination'', JStr (ft_host f)),
     (''observed_data_classes'', jstrs (ft_observed f)), (''tool'', JStr (ft_tool f)),
     (''prior_action_count'', jint (ft_prior_actions f)), (''prior_denied_count'', jint (ft_prior_denied f)),
     (''claimed_confidence'', JStr (ft_confidence f)), (''claimed_cluster_health'', JStr (ft_health f)),
     (''policy_packs'', jstrs (ft_packs f)), (''threshold_mode'', JStr (ft_mode f)),
     (''escalated_by'', JStr (ft_escalated_by f)), (''reason_codes'', jstrs (ft_codes f))]"

definition content_json :: "content \<Rightarrow> json" where
  "content_json c = JObj ([(''action_sha256'', JStr (ct_sha256 c)), (''data_classes'', jstrs (ct_classes c))]
     @ opt_str ''name'' (ct_name c) @ opt_str ''description'' (ct_description c)
     @ opt_member ''params'' (\<lambda>j. j) (ct_params c))"

definition diff_json :: "edit_diff \<Rightarrow> json" where
  "diff_json d = JObj [(''fields_changed'', jstrs (ed_fields d)), (''edited'', content_json (ed_edited d))]"

definition example_json :: "example \<Rightarrow> json" where
  "example_json ex = JObj ([(''schema_version'', jint (ex_schema ex)), (''example_id'', JStr (ex_id ex)),
     (''receipt_seq'', jint (ex_seq ex)), (''receipt_entry_hash'', JStr (ex_hash ex)),
     (''workload'', workload_json (ex_workload ex)), (''features'', features_json (ex_features ex)),
     (''label'', JStr (ex_label ex)), (''reason_sha256'', JStr (ex_reason ex)),
     (''approver_sha256'', JStr (ex_approver ex)), (''timestamp'', JStr (ex_timestamp ex)),
     (''capture_mode'', JStr (ex_mode ex)), (''content'', content_json (ex_content ex))]
     @ opt_member ''edit_diff'' diff_json (ex_diff ex) @ opt_str ''source'' (ex_source ex))"

definition zero_features :: example_features where
  "zero_features = \<lparr>ft_original_seq = 0, ft_input_hash = [], ft_decision_type = [], ft_classes = [], ft_dests = [],
     ft_host = [], ft_observed = [], ft_tool = [], ft_prior_actions = 0, ft_prior_denied = 0, ft_confidence = [],
     ft_health = [], ft_packs = [], ft_mode = [], ft_escalated_by = [], ft_codes = []\<rparr>"

definition zero_content :: content where
  "zero_content = \<lparr>ct_sha256 = [], ct_classes = [], ct_name = [], ct_description = [], ct_params = None\<rparr>"

definition zero_diff :: edit_diff where
  "zero_diff = \<lparr>ed_fields = [], ed_edited = zero_content\<rparr>"

definition zero_example :: example where
  "zero_example = \<lparr>ex_schema = 0, ex_id = [], ex_seq = 0, ex_hash = [], ex_workload = zero_workload,
     ex_features = zero_features, ex_label = [], ex_reason = [], ex_approver = [], ex_timestamp = [], ex_mode = [],
     ex_content = zero_content, ex_diff = None, ex_source = []\<rparr>"

definition feature_fields :: "(string \<times> example_features decode) list" where
  "feature_fields = [(''original_seq'', on_field ft_original_seq ft_original_seq_update dec_uint),
     (''original_input_hash'', on_field ft_input_hash ft_input_hash_update dec_string),
     (''decision_type'', on_field ft_decision_type ft_decision_type_update dec_string),
     (''allowed_data_classes'', on_field ft_classes ft_classes_update dec_strings),
     (''allowed_destinations'', on_field ft_dests ft_dests_update dec_strings),
     (''observed_destination'', on_field ft_host ft_host_update dec_string),
     (''observed_data_classes'', on_field ft_observed ft_observed_update dec_strings),
     (''tool'', on_field ft_tool ft_tool_update dec_string),
     (''prior_action_count'', on_field ft_prior_actions ft_prior_actions_update dec_int),
     (''prior_denied_count'', on_field ft_prior_denied ft_prior_denied_update dec_int),
     (''claimed_confidence'', on_field ft_confidence ft_confidence_update dec_string),
     (''claimed_cluster_health'', on_field ft_health ft_health_update dec_string),
     (''policy_packs'', on_field ft_packs ft_packs_update dec_strings),
     (''threshold_mode'', on_field ft_mode ft_mode_update dec_string),
     (''escalated_by'', on_field ft_escalated_by ft_escalated_by_update dec_string),
     (''reason_codes'', on_field ft_codes ft_codes_update dec_strings)]"

definition content_fields :: "(string \<times> content decode) list" where
  "content_fields = [(''action_sha256'', on_field ct_sha256 ct_sha256_update dec_string),
     (''data_classes'', on_field ct_classes ct_classes_update dec_strings),
     (''name'', on_field ct_name ct_name_update dec_string),
     (''description'', on_field ct_description ct_description_update dec_string),
     (''params'', on_field ct_params ct_params_update dec_raw)]"

definition diff_fields :: "bool \<Rightarrow> (string \<times> edit_diff decode) list" where
  "diff_fields strict = [(''fields_changed'', on_field ed_fields ed_fields_update dec_strings),
     (''edited'', on_field ed_edited ed_edited_update (dec_struct strict content_fields))]"

definition example_fields :: "bool \<Rightarrow> (string \<times> example decode) list" where
  "example_fields strict = [(''schema_version'', on_field ex_schema ex_schema_update dec_int),
     (''example_id'', on_field ex_id ex_id_update dec_string),
     (''receipt_seq'', on_field ex_seq ex_seq_update dec_uint),
     (''receipt_entry_hash'', on_field ex_hash ex_hash_update dec_string),
     (''workload'', on_field ex_workload ex_workload_update (dec_struct strict workload_fields)),
     (''features'', on_field ex_features ex_features_update (dec_struct strict feature_fields)),
     (''label'', on_field ex_label ex_label_update dec_string),
     (''reason_sha256'', on_field ex_reason ex_reason_update dec_string),
     (''approver_sha256'', on_field ex_approver ex_approver_update dec_string),
     (''timestamp'', on_field ex_timestamp ex_timestamp_update dec_string),
     (''capture_mode'', on_field ex_mode ex_mode_update dec_string),
     (''content'', on_field ex_content ex_content_update (dec_struct strict content_fields)),
     (''edit_diff'', on_field ex_diff ex_diff_update (dec_ptr zero_diff (dec_struct strict (diff_fields strict)))),
     (''source'', on_field ex_source ex_source_update dec_string)]"

definition decode_example :: "bool \<Rightarrow> json \<Rightarrow> example option" where
  "decode_example strict j = dec_struct strict (example_fields strict) j zero_example"

section \<open>The store\<close>

record store =
  sr_file :: string
  sr_seqs :: "int list"
  sr_ids :: "string list"
  sr_broken :: bool

text \<open>Every non-empty complete line must decode; the number is that of the line.\<close>

fun load_lines :: "nat \<Rightarrow> string list \<Rightarrow> (int list \<times> string list) err" where
  "load_lines i [] = Inr ([], [])"
| "load_lines i (l # ls) =
     (if l = [] then load_lines (Suc i) ls
      else case Option.bind (parse_json l) (decode_example False) of
        None \<Rightarrow> Inl (''dataset: approvals.jsonl line '' @ itoa (int i) @ '': invalid'')
      | Some ex \<Rightarrow> (case load_lines (Suc i) ls of
            Inl e \<Rightarrow> Inl e
          | Inr (qs, ids) \<Rightarrow> Inr (ex_seq ex # qs, ex_id ex # ids)))"

text \<open>Open on the bytes of the file; the flag is whether truncating a torn line works.\<close>

definition Open :: "bool \<Rightarrow> string \<Rightarrow> string \<times> store err" where
  "Open works data =
     (let (ls, keep) = completeLines data in
      case load_lines 1 ls of
        Inl e \<Rightarrow> (data, Inl e)
      | Inr (qs, ids) \<Rightarrow>
          (let (file, good) = truncateTo works data keep
           in if \<not> good then (file, Inl ''truncate'')
              else (file, Inr \<lparr>sr_file = file, sr_seqs = qs, sr_ids = ids, sr_broken = False\<rparr>)))"

definition Append :: "(receipt \<Rightarrow> json option \<Rightarrow> string option) \<Rightarrow> (int \<Rightarrow> (receipt \<times> json) err) \<Rightarrow> io \<Rightarrow> example \<Rightarrow> store
    \<Rightarrow> store \<times> dataset_error option" where
  "Append binding lookup i ex s =
     (case lookup (ex_seq ex) of Inl e \<Rightarrow> (s, Some (ErrUnbound e))
      | Inr (r, rec) \<Rightarrow>
        (case Validate binding ex r (Some rec) of Some e \<Rightarrow> (s, Some e)
         | None \<Rightarrow>
           if sr_broken s
           then (s, Some (ErrDataset ''dataset: store broken by an earlier write failure, restart to repair''))
           else if ex_seq ex \<in> set (sr_seqs s) \<or> ex_id ex \<in> set (sr_ids s) then (s, Some ErrDuplicate)
           else (let (file, good) = appendSync i (sr_file s) (enc_json (example_json ex)) in
             if good then (s\<lparr>sr_file := file, sr_seqs := ex_seq ex # sr_seqs s, sr_ids := ex_id ex # sr_ids s\<rparr>, None)
             else (s\<lparr>sr_file := file, sr_broken := True\<rparr>, Some (ErrDataset ''dataset: store example'')))))"

definition Export :: "store \<Rightarrow> string" where
  "Export s = sr_file s"

section \<open>What redaction leaves\<close>











section \<open>Encoded examples read back\<close>

definition wf_example :: "example \<Rightarrow> bool" where
  "wf_example ex \<longleftrightarrow> in_int64 (ex_schema ex) \<and> 0 \<le> ex_seq ex \<and> ex_seq ex < 2 ^ 64
     \<and> 0 \<le> ft_original_seq (ex_features ex) \<and> ft_original_seq (ex_features ex) < 2 ^ 64
     \<and> in_int64 (ft_prior_actions (ex_features ex)) \<and> in_int64 (ft_prior_denied (ex_features ex))"

lemma decode_features:
  assumes "0 \<le> ft_original_seq f" "ft_original_seq f < 2 ^ 64" "in_int64 (ft_prior_actions f)" "in_int64 (ft_prior_denied f)"
  shows "dec_struct s feature_fields (features_json f) zero_features = Some f"
  using assms by (simp add: features_json_def feature_fields_def zero_features_def dec_members_field)

lemma decode_content: "dec_struct s content_fields (content_json c) zero_content = Some c"
  by (cases c) (auto simp: content_json_def content_fields_def zero_content_def dec_members_field opt_str_def
      opt_member_def dec_raw_def split: option.splits)

lemma decode_diff: "dec_ptr zero_diff (dec_struct s (diff_fields s)) (diff_json d) None = Some (Some d)"
  by (rule decode_ptr)
    (simp_all add: diff_json_def diff_fields_def zero_diff_def dec_members_field decode_content)

lemma decode_example_json:
  assumes "wf_example ex"
  shows "decode_example strict (example_json ex) = Some ex"
proof -
  have w: "in_int64 (ex_schema ex)" "0 \<le> ex_seq ex" "ex_seq ex < 2 ^ 64"
    "dec_struct strict feature_fields (features_json (ex_features ex)) zero_features = Some (ex_features ex)"
    using assms decode_features by (simp_all add: wf_example_def)
  note member = opt_member_fields [of _ _ ex_diff ex_diff_update "dec_ptr zero_diff (dec_struct strict (diff_fields strict))"]
    opt_member_fields [of _ _ ex_diff ex_diff_update "dec_ptr zero_diff (dec_struct strict (diff_fields strict))", where m = "[]",
      simplified]
  have same: "ex_source ex = [] \<Longrightarrow> ex\<lparr>ex_source := []\<rparr> = ex" by (cases ex) simp
  have seq: "dec_uint (jint (ex_seq ex)) v = Some (ex_seq ex)" for v using w(2,3) by (rule dec_uint_jint)
  show ?thesis
    unfolding decode_example_def example_json_def example_fields_def zero_example_def
    by (cases "ex_source ex", insert same) (simp_all add: seq dec_members_field decode_workload decode_content w(1,4) member decode_diff opt_str_def)
qed

section \<open>Validated examples\<close>

text \<open>What it means that an example belongs to a receipt and its record.\<close>

definition belongs :: "example \<Rightarrow> receipt \<Rightarrow> decision_record \<Rightarrow> bool" where
  "belongs ex r rec \<longleftrightarrow> ex_seq ex = rv_seq r \<and> rv_seq r \<noteq> 0 \<and> ex_hash ex = hex (rv_entry r)
     \<and> dr_layer rec = LayerHuman \<and> OutcomeForLabel (ex_label ex) = Inr (dr_outcome rec)
     \<and> dr_workload rec = ex_workload ex
     \<and> (\<exists>a. dr_approval rec = Some a \<and> ab_label a = ex_label ex \<and> ab_pending_id a = ex_id ex
          \<and> ab_approver_sha256 a = ex_approver ex \<and> ab_reason_sha256 a = ex_reason ex
          \<and> ab_original_seq a = ft_original_seq (ex_features ex))"

lemma Validate_None:
  "Validate binding ex r j = None \<longleftrightarrow> ex_schema ex = SchemaVersion \<and> ex_source ex = ''''
     \<and> ex_mode ex \<in> {CaptureNone, CaptureRedacted, CaptureFull} \<and> binding r j = None
     \<and> (\<exists>rec. Option.bind j (decode_record False) = Some rec \<and> belongs ex r rec)
     \<and> ((ex_label ex = LabelEdit) = (ex_diff ex \<noteq> None))"
  by (auto simp: Validate_def belongs_def split: option.splits sum.splits if_splits)

lemma NewHumanRecord_human:
  "NewHumanRecord rs hp = Inr r \<Longrightarrow> dr_layer r = LayerHuman
     \<and> (\<exists>a. dr_approval r = Some a \<and> OutcomeForLabel (ab_label a) = Inr (dr_outcome r))"
  by (auto simp: NewHumanRecord_def bind_err_def Let_def split: sum.splits if_splits)

section \<open>Histories of the store\<close>

text \<open>
  The file, the store of a running writer, and the examples whose storage was acknowledged,
  newest first. Opening repairs the file; a write may tear and the process may stop at any
  point. The examples are those a decoder of JSON makes.
\<close>

definition storable :: "example \<Rightarrow> bool" where
  "storable ex \<longleftrightarrow> wf_example ex \<and> wf_json (example_json ex)"

inductive store_run :: "(receipt \<Rightarrow> json option \<Rightarrow> string option) \<Rightarrow> string \<Rightarrow> store option \<Rightarrow> example list \<Rightarrow> bool"
  for binding where
  fresh: "store_run binding [] None []"
| opens: "store_run binding f None acks \<Longrightarrow> Open works f = (f', Inr s) \<Longrightarrow> store_run binding f' (Some s) acks"
| open_refused: "store_run binding f None acks \<Longrightarrow> Open works f = (f', Inl e) \<Longrightarrow> store_run binding f' None acks"
| appends: "store_run binding f (Some s) acks \<Longrightarrow> storable ex \<Longrightarrow> Append binding lookup i ex s = (s', res) \<Longrightarrow>
    store_run binding (sr_file s') (Some s') (if res = None then ex # acks else acks)"
| stops: "store_run binding f (Some s) acks \<Longrightarrow> store_run binding f None acks"

definition ex_line :: "example \<Rightarrow> string" where
  "ex_line ex = enc_json (example_json ex)"

definition ex_ok :: "(receipt \<Rightarrow> json option \<Rightarrow> string option) \<Rightarrow> example \<Rightarrow> bool" where
  "ex_ok binding ex \<longleftrightarrow> storable ex \<and> (\<exists>r j. Validate binding ex r (Some j) = None)"

definition file_holds :: "(receipt \<Rightarrow> json option \<Rightarrow> string option) \<Rightarrow> string \<Rightarrow> example list \<Rightarrow> string \<Rightarrow> bool" where
  "file_holds binding f exs t \<longleftrightarrow> f = file_of (map ex_line exs) t \<and> lf \<notin> set t \<and> list_all (ex_ok binding) exs
     \<and> distinct (map ex_seq exs) \<and> distinct (map ex_id exs)"

definition store_ok :: "(receipt \<Rightarrow> json option \<Rightarrow> string option) \<Rightarrow> string \<Rightarrow> store option \<Rightarrow> example list \<Rightarrow> bool" where
  "store_ok binding f st acks \<longleftrightarrow> (\<exists>exs t. file_holds binding f exs t \<and> set acks \<subseteq> set exs
     \<and> (\<forall>s. st = Some s \<longrightarrow> sr_file s = f \<and> (\<not> sr_broken s \<longrightarrow> t = [] \<and>
          set (sr_seqs s) = set (map ex_seq exs) \<and> set (sr_ids s) = set (map ex_id exs))))"

lemma ex_line_read: "storable ex \<Longrightarrow> Option.bind (parse_json (ex_line ex)) (decode_example False) = Some ex"
  using parse_enc_json [of "example_json ex"] decode_example_json [of ex False]
  by (simp add: ex_line_def storable_def)

lemma ex_line_simple: "storable ex \<Longrightarrow> lf \<notin> set (ex_line ex)"
  using enc_json_no_lf [of "example_json ex"] by (simp add: ex_line_def storable_def)

lemma ex_line_ne: "ex_line ex \<noteq> []"
  by (simp add: ex_line_def example_json_def)

lemma load_lines_ok:
  "list_all storable exs \<Longrightarrow> load_lines i (map ex_line exs) = Inr (map ex_seq exs, map ex_id exs)"
  by (induction exs arbitrary: i) (simp_all add: ex_line_ne ex_line_read)

lemma Open_ok:
  assumes "file_holds binding f exs t"
  shows "Open works f = (let (file, good) = truncateTo works f (length (file_of (map ex_line exs) [])) in
     if good then (file_of (map ex_line exs) [], Inr \<lparr>sr_file = file_of (map ex_line exs) [],
       sr_seqs = map ex_seq exs, sr_ids = map ex_id exs, sr_broken = False\<rparr>) else (f, Inl ''truncate''))"
proof -
  have s: "list_all storable exs" using assms by (auto simp: file_holds_def ex_ok_def list_all_iff)
  then have "list_all (\<lambda>l. lf \<notin> set l) (map ex_line exs)" using ex_line_simple by (auto simp: list_all_iff)
  then have "completeLines f = (map ex_line exs, length (file_of (map ex_line exs) []))"
    using assms completeLines_file by (simp add: file_holds_def)
  moreover have "truncateTo works f (length (file_of (map ex_line exs) []))
      = (if works \<or> t = [] then (file_of (map ex_line exs) [], True) else (f, False))"
    using truncate_file [of works "map ex_line exs" "[]" t] assms by (simp add: file_holds_def file_of_def)
  ultimately show ?thesis using load_lines_ok [OF s] by (simp add: Open_def Let_def)
qed

lemma append_keeps:
  assumes "store_ok binding f (Some s) acks" "storable ex" "Append binding lookup i ex s = (s', res)"
  shows "store_ok binding (sr_file s') (Some s') (if res = None then ex # acks else acks)"
proof -
  from assms(1) obtain exs t where h: "file_holds binding f exs t" "set acks \<subseteq> set exs" "sr_file s = f"
    "\<not> sr_broken s \<Longrightarrow> t = [] \<and> set (sr_seqs s) = set (map ex_seq exs) \<and> set (sr_ids s) = set (map ex_id exs)"
    by (auto simp: store_ok_def)
  show ?thesis
  proof (cases "\<exists>r j. lookup (ex_seq ex) = Inr (r, j) \<and> Validate binding ex r (Some j) = None \<and> \<not> sr_broken s
      \<and> ex_seq ex \<notin> set (sr_seqs s) \<and> ex_id ex \<notin> set (sr_ids s)")
    case False
    then have "s' = s" "res \<noteq> None"
      using assms(3)
      by (auto simp: Append_def split: sum.splits option.splits if_splits prod.splits
          dest!: sym [of "Some _" "Validate _ _ _ _"])
    then show ?thesis using assms(1) h(3) by auto
  next
    case True
    then obtain r j where t: "lookup (ex_seq ex) = Inr (r, j)" "Validate binding ex r (Some j) = None" "\<not> sr_broken s"
      "ex_seq ex \<notin> set (sr_seqs s)" "ex_id ex \<notin> set (sr_ids s)" by blast
    note u = h(4) [OF t(3)]
    obtain ms u' where a: "appendSync i (file_of (map ex_line exs) []) (ex_line ex) = (file_of (map ex_line exs @ ms) u', i = Done)"
      "lf \<notin> set u'" "ms = [] \<or> ms = [ex_line ex] \<and> u' = []" "i = Done \<longrightarrow> ms = [ex_line ex]"
      using append_file [OF ex_line_simple [OF assms(2)]] by metis
    have f: "sr_file s = file_of (map ex_line exs) []" using h(1,3) u by (simp add: file_holds_def)
    have ap: "appendSync i (sr_file s) (enc_json (example_json ex)) = (file_of (map ex_line exs @ ms) u', i = Done)"
      using a(1) f by (simp add: ex_line_def)
    have new: "file_holds binding (file_of (map ex_line exs @ [ex_line ex]) []) (exs @ [ex]) []"
      using h(1) u t assms(2) by (auto simp: file_holds_def ex_ok_def)
    have old: "file_holds binding (file_of (map ex_line exs) u') exs u'" using h(1) a(2) by (simp add: file_holds_def)
    show ?thesis
    proof (cases "i = Done")
      case True
      then have "s' = s\<lparr>sr_file := file_of (map ex_line exs @ [ex_line ex]) [], sr_seqs := ex_seq ex # sr_seqs s,
          sr_ids := ex_id ex # sr_ids s\<rparr>" "res = None"
        using assms(3) t ap a by (auto simp: Append_def)
      then show ?thesis using new h(2) u t(3)
        by (auto simp: store_ok_def intro!: exI [of _ "exs @ [ex]"] exI [of _ "[] :: string"])
    next
      case False
      then have s': "s' = s\<lparr>sr_file := file_of (map ex_line exs @ ms) u', sr_broken := True\<rparr>" "res \<noteq> None"
        using assms(3) t ap by (auto simp: Append_def)
      from a(3) show ?thesis
      proof (elim disjE conjE)
        assume "ms = []"
        then show ?thesis using old h(2) s' by (auto simp: store_ok_def intro!: exI [of _ exs] exI [of _ u'])
      next
        assume "ms = [ex_line ex]" "u' = []"
        then show ?thesis using new h(2) s' by (auto simp: store_ok_def intro!: exI [of _ "exs @ [ex]"] exI [of _ "[] :: string"])
      qed
    qed
  qed
qed

lemma store_run_ok: "store_run binding f st acks \<Longrightarrow> store_ok binding f st acks"
proof (induction rule: store_run.induct)
  case fresh
  show ?case by (auto simp: store_ok_def file_holds_def file_of_def intro!: exI [of _ "[]"])
next
  case (opens f acks works f' s)
  then obtain exs t where h: "file_holds binding f exs t" "set acks \<subseteq> set exs" by (auto simp: store_ok_def)
  then have "file_holds binding (file_of (map ex_line exs) []) exs []" by (simp add: file_holds_def)
  then show ?case using opens.hyps Open_ok [OF h(1), of works] h(2)
    by (auto simp: store_ok_def Let_def split: prod.splits if_splits intro!: exI [of _ exs] exI [of _ "[] :: string"])
next
  case (open_refused f acks works f' e)
  then obtain exs t where h: "file_holds binding f exs t" "set acks \<subseteq> set exs" by (auto simp: store_ok_def)
  then show ?case using open_refused.hyps Open_ok [OF h(1), of works]
    by (auto simp: store_ok_def Let_def split: prod.splits if_splits intro!: exI [of _ exs] exI [of _ t])
next
  case appends
  then show ?case using append_keeps by blast
next
  case stops
  then show ?case by (auto simp: store_ok_def)
qed

section \<open>Properties\<close>


text \<open>An example made for a human decision is accepted by the receipt writer. When the record is one the controller
  makes, the receipt binds it and is not the zeroth, and the stored record reads back as it, then the
  example built from them passes the checks of the store, in every capture mode and for edits too.\<close>

lemma new_example_binds:
  assumes "NewHumanRecord rs hp = Inr (xp_human p)" "NewExample p = Inr ex" "rv_seq (xp_receipt p) \<noteq> 0"
    "binding (xp_receipt p) (Some j) = None" "decode_record False j = Some (xp_human p)"
  shows "Validate binding ex (xp_receipt p) (Some j) = None"
proof -
  obtain a where a: "dr_layer (xp_human p) = LayerHuman" "dr_approval (xp_human p) = Some a"
    "OutcomeForLabel (ab_label a) = Inr (dr_outcome (xp_human p))"
    using NewHumanRecord_human [OF assms(1)] by blast
  have "\<exists>c d. ex = (base_example p a c)\<lparr>ex_diff := d\<rparr> \<and> ((ab_label a = LabelEdit) = (d \<noteq> None))"
    using assms(2) a(2) by (auto simp: NewExample_def bind_err_def Let_def base_example_def
        split: sum.splits if_splits option.splits)
  then obtain c d where ex: "ex = (base_example p a c)\<lparr>ex_diff := d\<rparr>" "(ab_label a = LabelEdit) = (d \<noteq> None)" by blast
  then have "belongs ex (xp_receipt p) (xp_human p)"
    using a assms(3) by (simp add: belongs_def base_example_def FeaturesFromRecord_def)
  then show ?thesis
    using ex assms(4,5) by (auto simp: Validate_None base_example_def capture_mode_def)
qed

text \<open>C22: the dataset file holds each human decision at most once and only bound ones. In every reachable state of the
  store, through torn writes, crashes and repairs, the complete lines read back as examples with distinct receipts
  and distinct pending ids, each of which passed its checks against a receipt and a human record that carries its
  label, approver and reason, and every acknowledged example is among them.\<close>

theorem stored_examples_bound:
  assumes "store_run binding f st acks"
  shows "\<exists>exs. map (\<lambda>l. Option.bind (parse_json l) (decode_example False)) (fst (completeLines f)) = map Some exs
    \<and> distinct (map ex_seq exs) \<and> distinct (map ex_id exs) \<and> set acks \<subseteq> set exs
    \<and> (\<forall>ex\<in>set exs. \<exists>r j rec. binding r (Some j) = None \<and> decode_record False j = Some rec \<and> belongs ex r rec)"
proof -
  obtain exs t where h: "file_holds binding f exs t" "set acks \<subseteq> set exs"
    using store_run_ok [OF assms] by (auto simp: store_ok_def)
  then have s: "list_all storable exs" "list_all (\<lambda>l. lf \<notin> set l) (map ex_line exs)"
    using ex_line_simple by (auto simp: file_holds_def ex_ok_def list_all_iff)
  then have "fst (completeLines f) = map ex_line exs"
    using h(1) completeLines_file by (simp add: file_holds_def)
  moreover have "map (\<lambda>l. Option.bind (parse_json l) (decode_example False)) (map ex_line exs) = map Some exs"
    using s(1) ex_line_read by (auto simp: list_all_iff)
  moreover have "\<exists>r j rec. binding r (Some j) = None \<and> decode_record False j = Some rec \<and> belongs ex r rec"
    if "ex \<in> set exs" for ex
  proof -
    have "ex_ok binding ex" using h(1) that by (simp add: file_holds_def list_all_iff)
    then obtain r j where "Validate binding ex r (Some j) = None" by (auto simp: ex_ok_def)
    then show ?thesis by (auto simp: Validate_None)
  qed
  ultimately show ?thesis
    using h by (intro exI [of _ exs]) (simp add: file_holds_def)
qed

section \<open>Witnesses\<close>

definition wit_params :: "(string \<times> gany) list" where
  "wit_params = [(''n'', GNumber ''3''), (''to'', GStr ''a.b@example.com'')]"

definition wit_action :: data_action where
  "wit_action = \<lparr>da_name = ''mail'', da_description = ''send it'', da_params = Some wit_params\<rparr>"

lemma wit_content:
  "\<exists>c. BuildContent CaptureRedacted wit_action = Inr c \<and> ct_name c = ''mail''
     \<and> ct_params c = marshal (GMap [(''n'', GNumber ''3''), (''to'', GStr ''[email]'')])"
proof -
  have m: "Marshal (action_value wit_action) \<noteq> None" by code_simp
  have r: "redacted_params wit_action = GMap [(''n'', GNumber ''3''), (''to'', GStr ''[email]'')]"
    "redactString ''mail'' = ''mail''" by code_simp+
  have "marshal (redacted_params wit_action) \<noteq> None" unfolding r by code_simp
  then obtain c where c: "BuildContent CaptureRedacted wit_action = Inr c"
    using m by (auto simp: BuildContent_def Let_def)
  then show ?thesis
    using m r by (auto simp: BuildContent_def Let_def wit_action_def split: option.splits)
qed


definition wit_hp :: human_params where
  "wit_hp = \<lparr>hp_workload = \<lparr>wk_namespace = ''ns'', wk_name = ''w'', wk_uid = ''u1''\<rparr>, hp_action = ''mail'',
     hp_input = \<lparr>in_declared = zero_declared, in_observed = zero_observed, in_claimed = zero_claimed\<rparr>,
     hp_payload = GMap [], hp_packs = [], hp_mode = ''strict'',
     hp_approval = zero_approval\<lparr>ab_label := ''approve'', ab_approver := ''alice'',
       ab_approver_sha256 := replicate 64 CHR ''a'', ab_pending_id := ''p1''\<rparr>\<rparr>"

lemma wit_human_made: "\<exists>r. NewHumanRecord Receipts.wit_spec wit_hp = Inr r \<and> wf_record r"
proof -
  have h: "\<exists>x. hashHex Receipts.wit_spec j = Inr x" for j
    by (simp add: hashHex_def Receipts.wit_spec_def)
  have "(case Marshal (GMap []) of None \<Rightarrow> False
     | Some raw \<Rightarrow> (case Unmarshal raw of None \<Rightarrow> False | Some v \<Rightarrow> Marshal v \<noteq> None))" by code_simp
  then obtain x where x: "PayloadSHA256 (GMap []) = Inr x"
    by (auto simp: PayloadSHA256_def split: option.splits)
  have "\<exists>r. NewDecisionRecord Receipts.wit_spec (human_base wit_hp) = Inr r"
    using x by (simp add: NewDecisionRecord_def human_base_def wit_hp_def mapResult_def map_outcome_def
        map_layer_def InputHash_def bind_err_def) (metis h sum.case(2))
  then obtain r where r: "NewHumanRecord Receipts.wit_spec wit_hp = Inr r"
    by (auto simp: NewHumanRecord_def wit_hp_def OutcomeForLabel_def LabelApprove_def bind_err_def Let_def)
  moreover have "wf_record r"
    using r by (auto simp: NewHumanRecord_def NewDecisionRecord_def bind_err_def Let_def wf_record_def build_record_def
        human_base_def wit_hp_def zero_observed_def in_int64_def SchemaVersion_def Receipts.SchemaVersion_def
        zero_approval_def split: sum.splits if_splits)
  ultimately show ?thesis by blast
qed

definition wit_receipt :: receipt where
  "wit_receipt = \<lparr>rv_seq = 1, rv_prev = [], rv_entry = [], rv_kid = [],
     rv_fields = \<lparr>fl_principal = [], fl_agent = [], fl_service = [], fl_action = [], fl_params = [], fl_decision = [],
       fl_status = 200\<rparr>\<rparr>"

lemma new_example_binds_witness:
  "\<exists>r ex. NewExample \<lparr>xp_receipt = wit_receipt, xp_human = r, xp_original = zero_record, xp_mode = ''redacted'',
      xp_action = wit_action, xp_edited = None, xp_timestamp = ''2026-01-01T00:00:00Z''\<rparr> = Inr ex
    \<and> Validate (\<lambda>r j. None) ex wit_receipt (Some (record_json r)) = None"
proof -
  obtain r where r: "NewHumanRecord Receipts.wit_spec wit_hp = Inr r" "wf_record r" using wit_human_made by blast
  let ?p = "\<lparr>xp_receipt = wit_receipt, xp_human = r, xp_original = zero_record, xp_mode = ''redacted'',
      xp_action = wit_action, xp_edited = None, xp_timestamp = ''2026-01-01T00:00:00Z''\<rparr>"
  have "\<exists>a. dr_approval r = Some a \<and> ab_label a = ''approve''"
    using r(1) by (auto simp: NewHumanRecord_def wit_hp_def bind_err_def Let_def split: sum.splits if_splits)
  then obtain a where a: "dr_approval r = Some a" "ab_label a = ''approve''" by blast
  obtain c where c: "BuildContent CaptureRedacted wit_action = Inr c" using wit_content by blast
  obtain ex where ex: "NewExample ?p = Inr ex"
    using a c by (simp add: NewExample_def capture_mode_def CaptureRedacted_def bind_err_def LabelEdit_def Let_def)
  have h: "NewHumanRecord Receipts.wit_spec wit_hp = Inr (xp_human ?p)" using r(1) by simp
  have "Validate (\<lambda>r j. None) ex (xp_receipt ?p) (Some (record_json r)) = None"
    using new_example_binds [OF h ex, of "\<lambda>r j. None" "record_json r"] decode_record_json [OF r(2)]
    by (simp add: wit_receipt_def)
  then show ?thesis using ex by auto
qed

definition wit_record :: decision_record where
  "wit_record = zero_record\<lparr>dr_schema := 1, dr_layer := LayerHuman, dr_outcome := OutcomeApproved,
     dr_approval := Some (zero_approval\<lparr>ab_label := ''approve'', ab_pending_id := ''p1'', ab_original_seq := 3\<rparr>)\<rparr>"

definition wit_example :: example where
  "wit_example = zero_example\<lparr>ex_schema := 1, ex_id := ''p1'', ex_seq := 1,
     ex_features := zero_features\<lparr>ft_original_seq := 3\<rparr>, ex_label := ''approve'', ex_mode := ''none''\<rparr>"

lemma wit_storable: "storable wit_example"
proof -
  have n: "number_text (itoa i)" for i using itoa_shape number_shape_text by blast
  have "wf_json (example_json wit_example)"
    by (auto simp: example_json_def wit_example_def zero_example_def zero_features_def zero_content_def zero_workload_def
        features_json_def content_json_def workload_json_def jint_def jstrs_def opt_str_def opt_member_def n
        intro!: valid_utf8_ascii)
  moreover have "wf_example wit_example"
    by (simp add: wf_example_def wit_example_def zero_example_def zero_features_def in_int64_def)
  ultimately show ?thesis by (simp add: storable_def)
qed

lemma wit_example_valid:
  assumes "binding wit_receipt (Some (record_json wit_record)) = None"
  shows "Validate binding wit_example wit_receipt (Some (record_json wit_record)) = None"
proof -
  have "decode_record False (record_json wit_record) = Some wit_record"
    by (rule decode_record_json)
      (simp add: wf_record_def wit_record_def zero_record_def zero_approval_def in_int64_def)
  then show ?thesis using assms
    by (simp add: Validate_None belongs_def wit_example_def wit_receipt_def wit_record_def zero_example_def zero_record_def
        zero_features_def zero_approval_def SchemaVersion_def OutcomeForLabel_def LabelApprove_def LabelEdit_def
        CaptureNone_def hex_def)
qed

lemma wit_stored:
  "\<exists>f st. store_run (\<lambda>r j. None) f st [wit_example] \<and> f = file_of [ex_line wit_example] []"
proof -
  have o: "Open True [] = ([], Inr \<lparr>sr_file = [], sr_seqs = [], sr_ids = [], sr_broken = False\<rparr>)"
    by (simp add: Open_def completeLines_def truncateTo_def)
  have v: "Validate (\<lambda>r j. None) wit_example wit_receipt (Some (record_json wit_record)) = None"
    by (rule wit_example_valid) (rule refl)
  let ?s = "\<lparr>sr_file = [], sr_seqs = [], sr_ids = [], sr_broken = False\<rparr>"
  have "Append (\<lambda>r j. None) (\<lambda>q. Inr (wit_receipt, record_json wit_record)) Done wit_example ?s
      = (?s\<lparr>sr_file := file_of [ex_line wit_example] [], sr_seqs := [1], sr_ids := [''p1'']\<rparr>, None)"
    by (simp add: Append_def v appendSync_def file_of_def ex_line_def) (simp add: wit_example_def zero_example_def)
  from store_run.appends [OF store_run.opens [OF store_run.fresh o] wit_storable this] show ?thesis
    by auto
qed

lemma stored_examples_bound_witness:
  "\<exists>exs. map (\<lambda>l. Option.bind (parse_json l) (decode_example False))
      (fst (completeLines (file_of [ex_line wit_example] []))) = map Some exs \<and> wit_example \<in> set exs"
proof -
  obtain st where "store_run (\<lambda>r j. None) (file_of [ex_line wit_example] []) st [wit_example]"
    using wit_stored by blast
  from stored_examples_bound [OF this] show ?thesis by auto
qed

end
