(* ===== verification/ReceiptExport.thy ===== *)
theory ReceiptExport
  imports Dataset
begin

text \<open>
  Exports of the receipt chain and their verification: pkg/receipts/export.go, key.go, trustroot.go and
  the Export of local.go, and pkg/dataset/verify.go. The receipt library (reading and writing its
  lines, signing and verifying a bundle, key digests) and Ed25519 are parameters. The raw JSON of a record is
  its value with the literals and the member order kept; files are given by what reading them returns.
\<close>

section \<open>Keys\<close>

record trusted_key =
  ky_kid :: string
  ky_public :: string
  ky_from :: int
  ky_until :: "int option"

text \<open>The parameter makes the 64 bytes of a private key from a seed.\<close>

definition ParsePrivateKey :: "(string \<Rightarrow> string) \<Rightarrow> string \<Rightarrow> string err" where
  "ParsePrivateKey from_seed raw =
     (if length raw = 32 then Inr (from_seed raw)
      else if length raw = 64 then
        (if from_seed (take 32 raw) \<noteq> raw then Inl ''receipts: private key public half does not match its seed''
         else Inr raw)
      else Inl (''receipts: signing key must be 32 or 64 bytes, got '' @ itoa (int (length raw))))"

definition key_json :: "trusted_key \<Rightarrow> json" where
  "key_json k = JObj [(''kid'', JStr (ky_kid k)), (''public_key_hex'', JStr (hex (ky_public k))),
     (''valid_from_seq'', jint (ky_from k)),
     (''valid_until_seq'', case ky_until k of None \<Rightarrow> JNull | Some u \<Rightarrow> jint u)]"

definition TrustRootJSON :: "trusted_key list \<Rightarrow> json" where
  "TrustRootJSON keys = JObj [(''keys'', if keys = [] then JNull else JArr (map key_json keys))]"

definition TrustRootFromKeyHex :: "(string \<Rightarrow> string) \<Rightarrow> (string \<Rightarrow> string) \<Rightarrow> (string \<Rightarrow> string) \<Rightarrow> string \<Rightarrow> json err" where
  "TrustRootFromKeyHex from_seed public compute_kid keyHex =
     (case unhex_string (trim_space keyHex) of
        None \<Rightarrow> Inl ''receipts: signing key is not hex''
      | Some raw \<Rightarrow>
          (case ParsePrivateKey from_seed raw of
             Inl e \<Rightarrow> Inl e
           | Inr priv \<Rightarrow> Inr (TrustRootJSON [\<lparr>ky_kid = compute_kid (public priv), ky_public = public priv,
                                              ky_from = 0, ky_until = None\<rparr>])))"

section \<open>The export\<close>

record manifest =
  mf_version :: int
  mf_from :: int
  mf_to :: int
  mf_count :: int
  mf_head_seq :: int
  mf_head_hash :: string
  mf_keyset :: string
  mf_first :: string
  mf_last :: string

record chain_result =
  cr_ok :: bool
  cr_complete :: bool

record 'b export_lib =
  xl_read :: "string \<Rightarrow> 'b err"
  xl_manifest :: "'b \<Rightarrow> bool"
  xl_receipts :: "'b \<Rightarrow> receipt list"
  xl_verify :: "'b \<Rightarrow> trusted_key list \<Rightarrow> chain_result err"
  xl_keys :: "string \<Rightarrow> trusted_key list err"
  xl_binds :: "receipt \<Rightarrow> json option \<Rightarrow> string option"
  xl_type :: "string \<Rightarrow> string"
  xl_public :: "string \<Rightarrow> string"
  xl_version :: int
  xl_keyset :: "trusted_key list \<Rightarrow> string"
  xl_manifest_line :: "string \<Rightarrow> string \<Rightarrow> manifest \<Rightarrow> string err"
  xl_key_line :: "trusted_key \<Rightarrow> string err"
  xl_write :: "receipt list \<Rightarrow> string err"

definition ExportFormat :: string where "ExportFormat = ''clawdlinux.receipts.export.v1''"

record export =
  xp_format :: string
  xp_receipts :: string
  xp_trust :: string
  xp_records :: string

definition export_manifest :: "'b export_lib \<Rightarrow> writer \<Rightarrow> trusted_key \<Rightarrow> receipt list \<Rightarrow> manifest" where
  "export_manifest xl w key rcs = \<lparr>mf_version = xl_version xl, mf_from = 1, mf_to = w_seq w, mf_count = int (length rcs),
     mf_head_seq = w_seq w, mf_head_hash = w_head w, mf_keyset = xl_keyset xl [key],
     mf_first = (if rcs = [] then zero_hash else rv_entry (hd rcs)),
     mf_last = (if rcs = [] then zero_hash else rv_entry (List.last rcs))\<rparr>"

text \<open>The two flags tell whether the files can be read.\<close>

definition local_export :: "'b export_lib \<Rightarrow> bool \<Rightarrow> bool \<Rightarrow> writer \<Rightarrow> disk \<Rightarrow> export err" where
  "local_export xl read1 read2 w dk =
     (if w_closed w then Inl ErrClosed
      else if \<not> read1 then Inl ''read''
      else bind_err (xl_read xl (dk_receipts dk)) (\<lambda>b.
        if \<not> read2 then Inl ''read''
        else let key = \<lparr>ky_kid = w_kid w, ky_public = xl_public xl (w_priv w), ky_from = 0, ky_until = None\<rparr>;
                 m = export_manifest xl w key (xl_receipts xl b)
             in bind_err (xl_manifest_line xl (w_priv w) (w_kid w) m) (\<lambda>ml.
                bind_err (xl_key_line xl key) (\<lambda>kl.
                bind_err (xl_write xl (xl_receipts xl b)) (\<lambda>body.
                Inr \<lparr>xp_format = ExportFormat, xp_receipts = ml @ [lf] @ kl @ [lf] @ body,
                     xp_trust = enc_json (TrustRootJSON [key]), xp_records = dk_records dk\<rparr>)))))"

text \<open>A bundle file or a directory, with what reading its files returns; a missing trust file is empty.\<close>

datatype export_source =
    Unreadable string
  | BundleFile "string err"
  | ExportDir "string err" "string err" "string err"

definition trust_text :: "json option \<Rightarrow> string" where
  "trust_text j = (case j of None \<Rightarrow> [] | Some v \<Rightarrow> enc_json v)"

record bundle_fields =
  bf_format :: string
  bf_receipts :: string
  bf_trust :: "json option"
  bf_records :: string

definition export_fields :: "(string \<times> bundle_fields decode) list" where
  "export_fields = [(''format'', on_field bf_format bf_format_update dec_string),
     (''receipts_jsonl'', on_field bf_receipts bf_receipts_update dec_string),
     (''trust_root'', on_field bf_trust bf_trust_update dec_raw),
     (''records_jsonl'', on_field bf_records bf_records_update dec_string)]"

definition decode_export :: "bool \<Rightarrow> json \<Rightarrow> export option" where
  "decode_export strict j =
     map_option (\<lambda>b. \<lparr>xp_format = bf_format b, xp_receipts = bf_receipts b, xp_trust = trust_text (bf_trust b),
        xp_records = bf_records b\<rparr>)
       (dec_struct strict export_fields j \<lparr>bf_format = [], bf_receipts = [], bf_trust = None, bf_records = []\<rparr>)"

text \<open>A decoder that reads one value and does not ask for the end of the input.\<close>

definition decode_first :: "(json \<Rightarrow> 'a option) \<Rightarrow> string \<Rightarrow> 'a option" where
  "decode_first dec s = Option.bind (parse_value (json_fuel s) s) (\<lambda>(j, _). dec j)"

definition ReadExport :: "export_source \<Rightarrow> export err" where
  "ReadExport src = (case src of
       Unreadable e \<Rightarrow> Inl e
     | BundleFile (Inl e) \<Rightarrow> Inl e
     | BundleFile (Inr data) \<Rightarrow>
         (case decode_first (decode_export True) data of
            None \<Rightarrow> Inl ''receipts: parse bundle''
          | Some e \<Rightarrow> if xp_format e \<noteq> ExportFormat then Inl (''receipts: unknown bundle format '' @ quote (xp_format e))
                     else Inr e)
     | ExportDir receipt_file record_file trust_file \<Rightarrow>
         bind_err receipt_file (\<lambda>a. bind_err record_file (\<lambda>b. bind_err trust_file (\<lambda>t.
           Inr \<lparr>xp_format = ExportFormat, xp_receipts = a, xp_trust = t, xp_records = b\<rparr>))))"

section \<open>Verification of an export\<close>

text \<open>The lines of a scanner with a buffer of 16 MiB, and whether it reached the end.\<close>

definition drop_cr :: "string \<Rightarrow> string" where
  "drop_cr l = (if l \<noteq> [] \<and> List.last l = CHR 0x0D then butlast l else l)"

definition scan_lines :: "string \<Rightarrow> string list \<times> bool" where
  "scan_lines s =
     (let parts = split_byte lf s;
          ls = (if List.last parts = [] then butlast parts else parts);
          good = takeWhile (\<lambda>l. length l < 2 ^ 24) ls
      in (map drop_cr good, length good = length ls))"

record record_entry =
  re_seq :: int
  re_record :: "json option"

definition decode_entry :: "string \<Rightarrow> record_entry option" where
  "decode_entry s = Option.bind (parse_json s) (\<lambda>j. dec_struct False
     [(''seq'', on_field re_seq re_seq_update dec_uint), (''record'', on_field re_record re_record_update dec_raw)]
     j \<lparr>re_seq = 0, re_record = None\<rparr>)"

datatype record_reason = ReasonRecordMissing | ReasonRecordMismatch | ReasonRecordOrphan | ReasonRecordDup

type_synonym record_failure = "int \<times> record_reason"

fun read_records :: "string list \<Rightarrow> (int \<times> json option) list \<Rightarrow> record_failure list
    \<Rightarrow> ((int \<times> json option) list \<times> record_failure list) err" where
  "read_records [] recs fails = Inr (recs, fails)"
| "read_records (l # ls) recs fails =
     (let line = trim_space l in
      if line = [] then read_records ls recs fails
      else case decode_entry line of
          None \<Rightarrow> Inl ''receipts: parse records.jsonl''
        | Some e \<Rightarrow>
            if re_seq e \<in> fst ` set recs then read_records ls recs (fails @ [(re_seq e, ReasonRecordDup)])
            else read_records ls (recs @ [(re_seq e, re_record e)]) fails)"

fun bind_records :: "(receipt \<Rightarrow> json option \<Rightarrow> string option) \<Rightarrow> receipt list \<Rightarrow> (int \<times> json option) list \<Rightarrow> nat
    \<Rightarrow> record_failure list \<Rightarrow> (int \<times> json option) list \<times> nat \<times> record_failure list" where
  "bind_records binding [] recs n fails = (recs, n, fails)"
| "bind_records binding (r # rs) recs n fails =
     (let rest = filter (\<lambda>p. fst p \<noteq> rv_seq r) recs in
      case map_of recs (rv_seq r) of
        None \<Rightarrow> bind_records binding rs rest n (fails @ [(rv_seq r, ReasonRecordMissing)])
      | Some j \<Rightarrow> (if binding r j \<noteq> None
          then bind_records binding rs rest n (fails @ [(rv_seq r, ReasonRecordMismatch)])
          else bind_records binding rs rest (n + 1) fails))"

record report =
  rep_chain :: chain_result
  rep_manifest :: bool
  rep_bound :: nat
  rep_failures :: "record_failure list"

definition Complete :: "report \<Rightarrow> bool" where
  "Complete r \<longleftrightarrow> rep_manifest r \<and> cr_complete (rep_chain r)"

definition PrefixOK :: "report \<Rightarrow> bool" where
  "PrefixOK r \<longleftrightarrow> cr_ok (rep_chain r) \<and> length (rep_failures r) = 0"

definition OK :: "report \<Rightarrow> bool" where
  "OK r \<longleftrightarrow> PrefixOK r \<and> Complete r"

definition trusted_keys :: "'b export_lib \<Rightarrow> export \<Rightarrow> trusted_key list \<Rightarrow> trusted_key list err" where
  "trusted_keys xl e trusted =
     (if length trusted = 0 \<and> length (trim_space (xp_trust e)) > 0 then xl_keys xl (xp_trust e) else Inr trusted)"

text \<open>The loop over the left-over records has an arbitrary order; the stable sort by sequence number makes the
  list the same for every order, since left-over records have distinct numbers.\<close>

definition VerifyExport :: "'b export_lib \<Rightarrow> export \<Rightarrow> trusted_key list \<Rightarrow> report err" where
  "VerifyExport xl e trusted =
     bind_err (xl_read xl (xp_receipts e)) (\<lambda>b.
     bind_err (trusted_keys xl e trusted) (\<lambda>keys.
     bind_err (xl_verify xl b keys) (\<lambda>res.
     bind_err (read_records (fst (scan_lines (xp_records e))) [] []) (\<lambda>(recs, fails).
       if \<not> snd (scan_lines (xp_records e)) then Inl ''bufio.Scanner: token too long''
       else let (rest, n, fails2) = bind_records (xl_binds xl) (xl_receipts xl b) recs 0 fails
            in Inr \<lparr>rep_chain = res, rep_manifest = xl_manifest xl b, rep_bound = n,
                 rep_failures = sort_key fst (fails2 @ map (\<lambda>p. (fst p, ReasonRecordOrphan)) rest)\<rparr>))))"

section \<open>Truncation\<close>

text \<open>strings.SplitAfter at newlines.\<close>

definition split_after :: "string \<Rightarrow> string list" where
  "split_after s = (let parts = split_byte lf s in map (\<lambda>l. l @ [lf]) (butlast parts) @ [List.last parts])"

fun trim_right_lf :: "string \<Rightarrow> string" where
  "trim_right_lf s = rev (dropWhile (\<lambda>c. c = lf) (rev s))"

text \<open>A negative n is out of range in both slices.\<close>

definition StripToPrefix :: "'b export_lib \<Rightarrow> export \<Rightarrow> nat \<Rightarrow> export" where
  "StripToPrefix xl e n =
     (let ls = filter (\<lambda>l. trim_space l \<noteq> []) (split_after (xp_receipts e));
          recl = filter (\<lambda>l. xl_type xl l = ''receipt'') ls;
          keep = filter (\<lambda>l. xl_type xl l \<noteq> ''manifest'' \<and> xl_type xl l \<noteq> ''receipt'') ls;
          recs = split_after (trim_right_lf (xp_records e));
          records = concat (take (length recs - min n (length recs)) recs)
      in e\<lparr>xp_receipts := concat (keep @ take (length recl - min n (length recl)) recl),
           xp_records := (if records \<noteq> [] \<and> List.last records \<noteq> lf then records @ [lf] else records)\<rparr>)"

section \<open>Verification of a dataset\<close>

record failure =
  fa_line :: int
  fa_seq :: int
  fa_reason :: string

record dataset_report =
  ds_receipts :: report
  ds_bound :: nat
  ds_failures :: "failure list"

definition dataset_OK :: "dataset_report \<Rightarrow> bool" where
  "dataset_OK r \<longleftrightarrow> OK (ds_receipts r) \<and> length (ds_failures r) = 0"

definition dataset_PrefixOK :: "dataset_report \<Rightarrow> bool" where
  "dataset_PrefixOK r \<longleftrightarrow> PrefixOK (ds_receipts r) \<and> length (ds_failures r) = 0"

fun last_records :: "string list \<Rightarrow> (int \<rightharpoonup> json option) \<Rightarrow> (int \<rightharpoonup> json option)" where
  "last_records [] m = m"
| "last_records (l # ls) m =
     (case decode_entry l of None \<Rightarrow> last_records ls m | Some e \<Rightarrow> last_records ls (m(re_seq e \<mapsto> re_record e)))"

definition failure_text :: "dataset_error \<Rightarrow> string" where
  "failure_text e = (case e of ErrDuplicate \<Rightarrow> ''dataset: example already recorded''
     | ErrUnbound m \<Rightarrow> ''dataset: example does not bind to its receipt: '' @ m | ErrDataset m \<Rightarrow> m)"

fun verify_examples :: "(receipt \<Rightarrow> json option \<Rightarrow> string option) \<Rightarrow> (int \<rightharpoonup> receipt) \<Rightarrow> (int \<rightharpoonup> json option)
    \<Rightarrow> int \<Rightarrow> int list \<Rightarrow> string list \<Rightarrow> nat \<times> failure list" where
  "verify_examples binding bySeq records line seen [] = (0, [])"
| "verify_examples binding bySeq records line seen (l # ls) =
     (let raw = trim_space l; next_line = line + 1 in
      if raw = [] then verify_examples binding bySeq records next_line seen ls
      else case decode_first (decode_example True) raw of
          None \<Rightarrow> (let (n, f) = verify_examples binding bySeq records next_line seen ls
                   in (n, \<lparr>fa_line = line, fa_seq = 0, fa_reason = ''unparseable example''\<rparr> # f))
        | Some ex \<Rightarrow>
            (let fail = (\<lambda>s reason. let (n, f) = verify_examples binding bySeq records next_line s ls
                   in (n, \<lparr>fa_line = line, fa_seq = ex_seq ex, fa_reason = reason\<rparr> # f))
             in if ex_seq ex \<in> set seen then fail seen ''duplicate receipt_seq''
                else let seen2 = ex_seq ex # seen in
                  case bySeq (ex_seq ex) of
                    None \<Rightarrow> fail seen2 ''receipt_seq not in chain''
                  | Some r \<Rightarrow>
                      (case Validate binding ex r (case records (ex_seq ex) of None \<Rightarrow> None | Some j \<Rightarrow> j) of
                         Some e \<Rightarrow> fail seen2 (failure_text e)
                       | None \<Rightarrow> (let (n, f) = verify_examples binding bySeq records next_line seen2 ls
                                  in (n + 1, f)))))"

text \<open>The report comes with the error of the last scanner, if any.\<close>

definition Verify :: "'b export_lib \<Rightarrow> export \<Rightarrow> string \<Rightarrow> trusted_key list \<Rightarrow> (dataset_report \<times> string option) err" where
  "Verify xl e approvals trusted =
     bind_err (VerifyExport xl e trusted) (\<lambda>rpt.
     bind_err (xl_read xl (xp_receipts e)) (\<lambda>b.
       let bySeq = map_of (rev (map (\<lambda>r. (rv_seq r, r)) (xl_receipts xl b)));
           records = last_records (fst (scan_lines (xp_records e))) Map.empty;
           (n, f) = verify_examples (xl_binds xl) bySeq records 1 [] (fst (scan_lines approvals))
       in Inr (\<lparr>ds_receipts = rpt, ds_bound = n, ds_failures = f\<rparr>,
               if snd (scan_lines approvals) then None else Some ''bufio.Scanner: token too long'')))"

section \<open>Keys: what an accepted key is\<close>

text \<open>Ed25519 private keys are the seed followed by the public half.\<close>

lemma ParsePrivateKey_Inr:
  assumes "\<And>s. length s = 32 \<Longrightarrow> length (from_seed s) = 64 \<and> take 32 (from_seed s) = s"
    "ParsePrivateKey from_seed raw = Inr priv"
  shows "length priv = 64 \<and> priv = from_seed (take 32 raw) \<and> take 32 priv = take 32 raw"
  using assms(1) [of "take 32 raw"] assms(2) by (auto simp: ParsePrivateKey_def split: if_splits)

section \<open>Records against receipts\<close>

definition record_lines :: "string \<Rightarrow> string list" where
  "record_lines s = filter (\<lambda>l. l \<noteq> []) (map trim_space (fst (scan_lines s)))"

definition entry_pair :: "record_entry \<Rightarrow> int \<times> json option" where
  "entry_pair e = (re_seq e, re_record e)"

lemma read_records_Inr:
  assumes "read_records ls recs f = Inr (recs', f')" "distinct (map fst recs)"
  shows "\<exists>es. map decode_entry (filter (\<lambda>l. l \<noteq> []) (map trim_space ls)) = map Some es
    \<and> length f \<le> length f' \<and> distinct (map fst recs')
    \<and> (length f' = length f \<longleftrightarrow> distinct (map fst (recs @ map entry_pair es)))
    \<and> (length f' = length f \<longrightarrow> f' = f \<and> recs' = recs @ map entry_pair es)"
  using assms
proof (induction ls arbitrary: recs f)
  case (Cons l ls)
  show ?case
  proof (cases "trim_space l = []")
    case True
    then show ?thesis using Cons by simp
  next
    case False
    then obtain e where e: "decode_entry (trim_space l) = Some e"
      using Cons.prems(1) by (auto simp: Let_def split: option.splits)
    show ?thesis
    proof (cases "re_seq e \<in> fst ` set recs")
      case True
      then have "read_records ls recs (f @ [(re_seq e, ReasonRecordDup)]) = Inr (recs', f')"
        using Cons.prems(1) False e by (simp add: Let_def)
      from Cons.IH [OF this Cons.prems(2)] obtain es where es:
        "map decode_entry (filter (\<lambda>l. l \<noteq> []) (map trim_space ls)) = map Some es"
        "length f < length f'" "distinct (map fst recs')" by auto
      have "\<not> distinct (map fst (recs @ map entry_pair (e # es)))"
        using True by (auto simp: entry_pair_def image_iff)
      then show ?thesis using es e False by (intro exI [of _ "e # es"]) auto
    next
      case new: False
      then have r: "read_records ls (recs @ [(re_seq e, re_record e)]) f = Inr (recs', f')"
        using Cons.prems(1) False e by (simp add: Let_def)
      have "distinct (map fst (recs @ [(re_seq e, re_record e)]))" using new Cons.prems(2) by simp
      from Cons.IH [OF r this] obtain es where es:
        "map decode_entry (filter (\<lambda>l. l \<noteq> []) (map trim_space ls)) = map Some es"
        "length f \<le> length f'" "distinct (map fst recs')"
        "length f' = length f \<longleftrightarrow> distinct (map fst ((recs @ [entry_pair e]) @ map entry_pair es))"
        "length f' = length f \<longrightarrow> f' = f \<and> recs' = (recs @ [entry_pair e]) @ map entry_pair es"
        unfolding entry_pair_def [of e, symmetric] by blast
      then show ?thesis using e False by (intro exI [of _ "e # es"]) simp
    qed
  qed
qed simp

lemma bind_records_spec:
  assumes "bind_records binding rs recs n f = (recs', n', f')"
  shows "recs' = filter (\<lambda>p. fst p \<notin> rv_seq ` set rs) recs \<and> length f \<le> length f'
    \<and> (length f' = length f \<longleftrightarrow> distinct (map rv_seq rs)
        \<and> (\<forall>r\<in>set rs. \<exists>j. map_of recs (rv_seq r) = Some j \<and> binding r j = None))
    \<and> (length f' = length f \<longrightarrow> f' = f \<and> n' = n + length rs)"
  using assms
proof (induction rs arbitrary: recs n f)
  case (Cons r rs)
  let ?rest = "filter (\<lambda>p. fst p \<noteq> rv_seq r) recs"
  have m: "map_of ?rest q = (if q = rv_seq r then None else map_of recs q)" for q
    by (induction recs) auto
  have all: "(distinct (map rv_seq rs) \<and> (\<forall>x\<in>set rs. \<exists>j. map_of ?rest (rv_seq x) = Some j \<and> binding x j = None))
    \<longleftrightarrow> (distinct (map rv_seq (r # rs)) \<and> (\<forall>x\<in>set rs. \<exists>j. map_of recs (rv_seq x) = Some j \<and> binding x j = None))"
    by (auto simp: m image_iff split: if_splits)
  show ?case
  proof (cases "\<exists>j. map_of recs (rv_seq r) = Some j \<and> binding r j = None")
    case True
    then have "bind_records binding rs ?rest (n + 1) f = (recs', n', f')"
      using Cons.prems by (auto simp: Let_def)
    from Cons.IH [OF this] show ?thesis
      using True all by (auto simp: conj_commute)
  next
    case False
    then obtain x where "bind_records binding rs ?rest n (f @ [x]) = (recs', n', f')"
      using Cons.prems by (auto simp: Let_def split: option.splits if_splits)
    from Cons.IH [OF this] show ?thesis using False by auto
  qed
qed simp

lemma VerifyExport_Inr:
  assumes "VerifyExport xl e trusted = Inr rpt"
  shows "\<exists>b keys. xl_read xl (xp_receipts e) = Inr b \<and> trusted_keys xl e trusted = Inr keys
    \<and> xl_verify xl b keys = Inr (rep_chain rpt) \<and> rep_manifest rpt = xl_manifest xl b \<and> snd (scan_lines (xp_records e))
    \<and> (\<exists>recs fails rest n f. read_records (fst (scan_lines (xp_records e))) [] [] = Inr (recs, fails)
        \<and> bind_records (xl_binds xl) (xl_receipts xl b) recs 0 fails = (rest, n, f) \<and> rep_bound rpt = n
        \<and> rep_failures rpt = sort_key fst (f @ map (\<lambda>p. (fst p, ReasonRecordOrphan)) rest))"
  using assms
  by (auto simp: VerifyExport_def bind_err_def split: sum.splits if_splits prod.splits)

lemma map_of_pairs: "distinct (map fst (map entry_pair es)) \<Longrightarrow>
    map_of (map entry_pair es) q = Some j \<longleftrightarrow> (\<exists>x\<in>set es. re_seq x = q \<and> re_record x = j)"
  by (auto simp: entry_pair_def)

lemma verify_failures:
  assumes "VerifyExport xl e trusted = Inr rpt"
  shows "\<exists>b es. xl_read xl (xp_receipts e) = Inr b \<and> map decode_entry (record_lines (xp_records e)) = map Some es
    \<and> (rep_failures rpt = [] \<longleftrightarrow> distinct (map re_seq es) \<and> distinct (map rv_seq (xl_receipts xl b))
        \<and> re_seq ` set es = rv_seq ` set (xl_receipts xl b)
        \<and> (\<forall>r\<in>set (xl_receipts xl b). \<forall>x\<in>set es. re_seq x = rv_seq r \<longrightarrow> xl_binds xl r (re_record x) = None))
    \<and> (rep_failures rpt = [] \<longrightarrow> rep_bound rpt = length (xl_receipts xl b))"
proof -
  obtain b recs fails rest n f where h: "xl_read xl (xp_receipts e) = Inr b"
    "read_records (fst (scan_lines (xp_records e))) [] [] = Inr (recs, fails)"
    "bind_records (xl_binds xl) (xl_receipts xl b) recs 0 fails = (rest, n, f)" "rep_bound rpt = n"
    "rep_failures rpt = sort_key fst (f @ map (\<lambda>p. (fst p, ReasonRecordOrphan)) rest)"
    using VerifyExport_Inr [OF assms] by blast
  let ?rs = "xl_receipts xl b"
  obtain es where es: "map decode_entry (record_lines (xp_records e)) = map Some es"
    "length fails = 0 \<longleftrightarrow> distinct (map fst (map entry_pair es))" "length fails = 0 \<longrightarrow> recs = map entry_pair es"
    using read_records_Inr [OF h(2)] unfolding record_lines_def by auto
  have bs: "rest = filter (\<lambda>p. fst p \<notin> rv_seq ` set ?rs) recs" "length fails \<le> length f"
    "length f = length fails \<longleftrightarrow> distinct (map rv_seq ?rs)
      \<and> (\<forall>r\<in>set ?rs. \<exists>j. map_of recs (rv_seq r) = Some j \<and> xl_binds xl r j = None)"
    "length f = length fails \<longrightarrow> f = fails \<and> n = length ?rs"
    using bind_records_spec [OF h(3)] by auto
  have seqs: "map fst (map entry_pair es) = map re_seq es" by (simp add: entry_pair_def comp_def)
  have none: "rep_failures rpt = [] \<longleftrightarrow> length fails = 0 \<and> length f = length fails \<and> rest = []"
    using h(5) bs(2) by (auto simp flip: length_0_conv)
  have "(length fails = 0 \<and> length f = length fails \<and> rest = [])
    \<longleftrightarrow> distinct (map re_seq es) \<and> distinct (map rv_seq ?rs) \<and> re_seq ` set es = rv_seq ` set ?rs
      \<and> (\<forall>r\<in>set ?rs. \<forall>x\<in>set es. re_seq x = rv_seq r \<longrightarrow> xl_binds xl r (re_record x) = None)"
  proof (cases "distinct (map re_seq es)")
    case True
    then have r: "recs = map entry_pair es" "length fails = 0" using es(2,3) unfolding seqs by blast+
    have m: "map_of recs q = Some j \<longleftrightarrow> (\<exists>x\<in>set es. re_seq x = q \<and> re_record x = j)" for q j
      using map_of_pairs True seqs r(1) by metis
    have rest: "rest = [] \<longleftrightarrow> re_seq ` set es \<subseteq> rv_seq ` set ?rs"
      using bs(1) r(1) by (auto simp: filter_empty_conv entry_pair_def)
    have same: "x = y" if "x \<in> set es" "y \<in> set es" "re_seq x = re_seq y" for x y
      using True that by (meson distinct_map inj_onD)
    have "(\<forall>r\<in>set ?rs. \<exists>j. map_of recs (rv_seq r) = Some j \<and> xl_binds xl r j = None)
      \<longleftrightarrow> rv_seq ` set ?rs \<subseteq> re_seq ` set es
        \<and> (\<forall>r\<in>set ?rs. \<forall>x\<in>set es. re_seq x = rv_seq r \<longrightarrow> xl_binds xl r (re_record x) = None)" (is "?L \<longleftrightarrow> ?R")
    proof
      assume ?L
      then have l: "\<exists>x\<in>set es. re_seq x = rv_seq r \<and> xl_binds xl r (re_record x) = None" if "r \<in> set ?rs" for r
        using that unfolding m by blast
      have "rv_seq ` set ?rs \<subseteq> re_seq ` set es" using l by (force simp: image_iff)
      moreover have "xl_binds xl r (re_record x) = None" if "r \<in> set ?rs" "x \<in> set es" "re_seq x = rv_seq r" for r x
        using l [OF that(1)] same that by metis
      ultimately show ?R by blast
    next
      assume ?R
      then show ?L unfolding m by (force simp: image_iff subset_iff)
    qed
    then show ?thesis using True r(2) bs(3) rest by auto
  next
    case False
    then show ?thesis using es(2) unfolding seqs by blast
  qed
  then show ?thesis using none h(1,4) es(1) bs(4) by auto
qed

section \<open>The export of a ready writer\<close>

text \<open>What the library documents of its lines: a file of the receipt lines of a chain, and a manifest line, a key line
  and the lines it writes for a chain, give these receipts when they are read, and the canonical form of a record binds to a receipt that carries its fields.\<close>

definition export_laws :: "receiptspec \<Rightarrow> receipt_lib \<Rightarrow> 'b export_lib \<Rightarrow> bool" where
  "export_laws rs lib xl \<longleftrightarrow> chain_laws rs lib
     \<and> (\<forall>rcs b. chain_from lib 0 zero_hash rcs \<and> xl_read xl (file_of (map (rc_line lib) rcs) []) = Inr b
          \<longrightarrow> xl_receipts xl b = rcs)
     \<and> (\<forall>priv kid m key ml kl rcs body b. chain_from lib 0 zero_hash rcs \<and> xl_manifest_line xl priv kid m = Inr ml
          \<and> xl_key_line xl key = Inr kl \<and> xl_write xl rcs = Inr body \<and> xl_read xl (ml @ [lf] @ kl @ [lf] @ body) = Inr b
          \<longrightarrow> xl_receipts xl b = rcs \<and> xl_manifest xl b)
     \<and> (\<forall>r j. bound rs r j \<longrightarrow> xl_binds xl r (Some j) = None)"

lemma trim_braces: "trim_space (''{'' @ s @ ''}'') = ''{'' @ s @ ''}''"
proof -
  have "strip_one space_seqs (''{'' @ t) = None" for t
    by (simp add: space_seqs_def has_prefix_def)
  moreover have "strip_one (map rev space_seqs) (''}'' @ t) = None" for t
    by (simp add: space_seqs_def has_prefix_def)
  ultimately show ?thesis
    by (simp add: trim_space_def trim_left_seqs.simps [of _ "CHR ''{'' # _"] trim_left_seqs.simps [of _ "CHR ''}'' # _"])
qed

lemma line_of_braces: "\<exists>s. line_of q j = ''{'' @ s @ ''}''"
  by (simp add: line_of_def enc_json_obj)

lemma line_kept: "drop_cr (line_of q j) = line_of q j \<and> trim_space (line_of q j) = line_of q j \<and> line_of q j \<noteq> []"
proof -
  obtain s where s: "line_of q j = ''{'' @ s @ ''}''" using line_of_braces by blast
  have "drop_cr (''{'' @ s @ ''}'') = ''{'' @ s @ ''}''" by (simp add: drop_cr_def)
  then show ?thesis unfolding s using trim_braces by simp
qed

lemma decode_entry_line:
  assumes "wf_json j" "0 \<le> q" "q < 2 ^ 64"
  shows "decode_entry (line_of q j) = Some \<lparr>re_seq = q, re_record = Some j\<rparr>"
proof -
  have "parse_json (line_of q j) = Some (JObj [(''seq'', jint q), (''record'', j)])"
    using parse_enc_json [OF line_wf [OF assms(1)]] unfolding line_of_def .
  moreover have "dec_uint (jint q) v = Some q" for v using assms(2,3) by (rule dec_uint_jint)
  ultimately show ?thesis by (simp add: decode_entry_def dec_members_field dec_raw_def)
qed

lemma scan_file:
  assumes "list_all (\<lambda>l. lf \<notin> set l) ls" "snd (scan_lines (file_of ls []))"
  shows "fst (scan_lines (file_of ls [])) = map drop_cr ls"
proof -
  have "split_byte lf (file_of ls []) = ls @ [[]]" using split_file [OF assms(1), of "[]"] by simp
  then have s: "scan_lines (file_of ls []) = (map drop_cr (takeWhile (\<lambda>l. length l < 2 ^ 24) ls),
      length (takeWhile (\<lambda>l. length l < 2 ^ 24) ls) = length ls)"
    by (simp add: scan_lines_def Let_def)
  then have t: "takeWhile (\<lambda>l. length l < 2 ^ 24) ls = ls"
    using assms(2) takeWhile_eq_take [of "\<lambda>l. length l < 2 ^ 24" ls] by simp
  show ?thesis unfolding s t by simp
qed

lemma rec_lines_scanned:
  assumes "list_all wf_json js" "snd (scan_lines (file_of (rec_lines 1 js) []))"
  shows "record_lines (file_of (rec_lines 1 js) []) = rec_lines 1 js"
proof -
  have keep: "drop_cr l = l \<and> trim_space l = l \<and> l \<noteq> []" if m: "l \<in> set (rec_lines q js)" for l q
  proof -
    obtain i where "i < length js" "l = rec_lines q js ! i" using m by (auto simp: in_set_conv_nth)
    then have "l = line_of (q + int i) (js ! i)" by (simp add: nth_rec_lines)
    then show ?thesis using line_kept [of "q + int i" "js ! i"] by simp
  qed
  have "fst (scan_lines (file_of (rec_lines 1 js) [])) = map drop_cr (rec_lines 1 js)"
    using scan_file [OF rec_lines_no_lf [OF assms(1)] assms(2)] .
  then have "map trim_space (fst (scan_lines (file_of (rec_lines 1 js) []))) = rec_lines 1 js"
    using keep [of _ 1] by (simp add: map_idI)
  then show ?thesis using keep [of _ 1] by (simp add: record_lines_def)
qed

lemma rec_lines_decode:
  assumes "list_all wf_json js" "0 \<le> q" "q + int (length js) \<le> 2 ^ 64"
  shows "map decode_entry (rec_lines q js)
    = map Some (map (\<lambda>i. \<lparr>re_seq = q + int i, re_record = Some (js ! i)\<rparr>) [0..<length js])"
proof (rule nth_equalityI)
  fix i assume "i < length (map decode_entry (rec_lines q js))"
  then have i: "i < length js" by simp
  have "decode_entry (line_of (q + int i) (js ! i)) = Some \<lparr>re_seq = q + int i, re_record = Some (js ! i)\<rparr>"
    using assms i by (intro decode_entry_line) (auto simp: list_all_length)
  then show "map decode_entry (rec_lines q js) ! i
      = map Some (map (\<lambda>i. \<lparr>re_seq = q + int i, re_record = Some (js ! i)\<rparr>) [0..<length js]) ! i"
    using i by (simp add: nth_rec_lines)
qed simp

text \<open>C26: an export verifies against itself. In every state that the directory of a writer reaches, crashes and torn writes
  included, the export of a ready writer has its signed manifest, and when the library accepts it as a bundle the verification
  lists no record failure and counts as many bound records as the head number of the writer; so it is OK
  exactly when the library finds the chain to be valid and complete.\<close>

theorem ready_export_verifies:
  assumes "export_laws rs lib xl" "log_reach rs lib log_init s" "ls_writer s = Some w" "ReceiptLog.Ready w"
    "local_export xl read1 read2 w (ls_disk s) = Inr e" "VerifyExport xl e trusted = Inr rpt"
  shows "rep_failures rpt = [] \<and> int (rep_bound rpt) = w_seq w
    \<and> OK rpt = (cr_ok (rep_chain rpt) \<and> cr_complete (rep_chain rpt))"
proof -
  have laws: "chain_laws rs lib" using assms(1) by (simp add: export_laws_def)
  obtain rcs js where ok: "log_ok rs lib s rcs js"
    using log_reach_ok [OF laws assms(2) log_init_ok] by blast
  have dk: "disk_ok rs lib (ls_disk s) rcs js" and cl: "clean lib (ls_disk s) rcs js" and head: "w_seq w = int (length rcs)"
    using ok assms(3,4) by (auto simp: log_ok_def ReceiptLog.Ready_def head_of_def)
  have ch: "chain_from lib 0 zero_hash rcs" "list_all wf_json js" "int (length js) < 2 ^ 64"
    "\<forall>i<length rcs. bound rs (rcs ! i) (js ! i)" and len: "length js = length rcs"
    and files: "dk_receipts (ls_disk s) = file_of (map (rc_line lib) rcs) []"
      "dk_records (ls_disk s) = file_of (rec_lines 1 js) []"
    using dk cl by (simp_all add: disk_ok_def clean_def)
  obtain b0 where b0r: "xl_read xl (dk_receipts (ls_disk s)) = Inr b0"
    using assms(5) by (auto simp: local_export_def bind_err_def Let_def split: if_splits sum.splits)
  then have b0: "xl_read xl (dk_receipts (ls_disk s)) = Inr b0" "xl_receipts xl b0 = rcs"
    using assms(1) ch(1) files(1) unfolding export_laws_def by auto
  obtain m ml key kl body where e: "xl_manifest_line xl (w_priv w) (w_kid w) m = Inr ml" "xl_key_line xl key = Inr kl"
    "xl_write xl rcs = Inr body" "xp_receipts e = ml @ [lf] @ kl @ [lf] @ body" "xp_records e = dk_records (ls_disk s)"
    using assms(5) b0 by (auto simp: local_export_def bind_err_def Let_def split: if_splits sum.splits)
  obtain b where br: "xl_read xl (xp_receipts e) = Inr b"
    using VerifyExport_Inr [OF assms(6)] by auto
  moreover have "xl_receipts xl b = rcs \<and> xl_manifest xl b"
    using assms(1) e(1-3) ch(1) br unfolding e(4) export_laws_def by blast
  ultimately have b: "xl_read xl (xp_receipts e) = Inr b" "xl_receipts xl b = rcs" "xl_manifest xl b"
    by auto
  obtain es where es: "map decode_entry (record_lines (xp_records e)) = map Some es"
    "rep_failures rpt = [] \<longleftrightarrow> distinct (map re_seq es) \<and> distinct (map rv_seq rcs) \<and> re_seq ` set es = rv_seq ` set rcs
        \<and> (\<forall>r\<in>set rcs. \<forall>x\<in>set es. re_seq x = rv_seq r \<longrightarrow> xl_binds xl r (re_record x) = None)"
    "rep_failures rpt = [] \<longrightarrow> rep_bound rpt = length rcs"
  proof -
    from verify_failures [OF assms(6)] obtain b1 es where h: "xl_read xl (xp_receipts e) = Inr b1"
      "map decode_entry (record_lines (xp_records e)) = map Some es"
      "rep_failures rpt = [] \<longleftrightarrow> distinct (map re_seq es) \<and> distinct (map rv_seq (xl_receipts xl b1))
        \<and> re_seq ` set es = rv_seq ` set (xl_receipts xl b1)
        \<and> (\<forall>r\<in>set (xl_receipts xl b1). \<forall>x\<in>set es. re_seq x = rv_seq r \<longrightarrow> xl_binds xl r (re_record x) = None)"
      "rep_failures rpt = [] \<longrightarrow> rep_bound rpt = length (xl_receipts xl b1)" by (elim exE conjE)
    have "b1 = b" using h(1) b(1) by simp
    then show thesis using h(2-4) b(2) by (intro that) simp_all
  qed
  have "snd (scan_lines (xp_records e))" and man: "rep_manifest rpt"
    using VerifyExport_Inr [OF assms(6)] b(1,3) by auto
  then have "record_lines (xp_records e) = rec_lines 1 js"
    using rec_lines_scanned [OF ch(2)] e(5) files(2) by simp
  then have "map Some es = map Some (map (\<lambda>i. \<lparr>re_seq = 1 + int i, re_record = Some (js ! i)\<rparr>) [0..<length rcs])"
    using es(1) rec_lines_decode [OF ch(2), of 1] ch(3) len by simp
  then have es_eq: "es = map (\<lambda>i. \<lparr>re_seq = 1 + int i, re_record = Some (js ! i)\<rparr>) [0..<length rcs]"
    unfolding inj_map_eq_map [OF inj_Some] .
  have seqs: "map re_seq es = map rv_seq rcs"
    using chain_seq [OF ch(1)] unfolding es_eq by (intro nth_equalityI) simp_all
  have d: "distinct (map re_seq es)" unfolding es_eq by (simp add: distinct_map inj_on_def comp_def)
  have "xl_binds xl r (re_record x) = None" if m: "r \<in> set rcs" "x \<in> set es" "re_seq x = rv_seq r" for r x
  proof -
    obtain i where i: "i < length rcs" "r = rcs ! i" using m(1) by (auto simp: in_set_conv_nth)
    obtain k where k: "k < length rcs" "x = \<lparr>re_seq = 1 + int k, re_record = Some (js ! k)\<rparr>"
      using m(2) unfolding es_eq by auto
    have "i = k" using m(3) k(2) i chain_seq [OF ch(1) i(1)] by simp
    then have "bound rs r (js ! k)" using i ch(4) by simp
    then show ?thesis using assms(1) k(2) unfolding export_laws_def by simp
  qed
  moreover have "re_seq ` set es = rv_seq ` set rcs" using arg_cong [OF seqs, of set] by simp
  ultimately have "rep_failures rpt = []" using es(2) d seqs by simp
  then show ?thesis using es(3) head man by (simp add: OK_def PrefixOK_def Complete_def)
qed

section \<open>Truncation is seen\<close>

definition whole_line :: "string \<Rightarrow> bool" where
  "whole_line l \<longleftrightarrow> (\<exists>x. l = x @ [lf] \<and> lf \<notin> set x)"

lemma split_byte_parts: "p \<in> set (split_byte lf s) \<Longrightarrow> lf \<notin> set p"
  by (induction s arbitrary: p) (auto split: if_splits list.splits)

lemma split_after_whole:
  assumes "list_all whole_line ls"
  shows "split_after (concat ls) = ls @ [[]]"
proof -
  obtain xs where xs: "ls = map (\<lambda>x. x @ [lf]) xs" "list_all (\<lambda>x. lf \<notin> set x) xs"
    using assms
  proof (induction ls arbitrary: thesis)
    case (Cons l ls)
    obtain xs where "ls = map (\<lambda>x. x @ [lf]) xs" "list_all (\<lambda>x. lf \<notin> set x) xs" using Cons.IH Cons.prems(2) by auto
    moreover obtain x where "l = x @ [lf]" "lf \<notin> set x" using Cons.prems(2) by (auto simp: whole_line_def)
    ultimately show ?case using Cons.prems(1) [of "x # xs"] by simp
  qed simp
  have "concat ls = file_of xs []" using xs(1) by (simp add: file_of_def)
  then show ?thesis using split_file [OF xs(2), of "[]"] xs(1) by (simp add: split_after_def Let_def)
qed

lemma split_after_lines: "l \<in> set (split_after s) \<Longrightarrow> whole_line l \<or> lf \<notin> set l \<and> l = List.last (split_byte lf s)"
  using split_byte_parts [of _ s]
  by (auto simp: split_after_def Let_def whole_line_def dest: in_set_butlastD)

text \<open>A bundle has a manifest only when one of its lines is a manifest line. The truncated export of a file of whole lines has
  none, so its verification is never OK, whatever is left verifies.\<close>

lemma stripped_not_OK:
  assumes "\<And>t b. xl_read xl t = Inr b \<Longrightarrow> xl_manifest xl b \<Longrightarrow>
      \<exists>l\<in>set (split_after t). trim_space l \<noteq> [] \<and> xl_type xl l = ''manifest''"
    "List.last (split_byte lf (xp_receipts e)) = []"
    "VerifyExport xl (StripToPrefix xl e n) trusted = Inr rpt"
  shows "\<not> OK rpt"
proof -
  let ?ls = "filter (\<lambda>l. trim_space l \<noteq> []) (split_after (xp_receipts e))"
  have w: "whole_line l" if m: "l \<in> set ?ls" for l
    using split_after_lines [of l "xp_receipts e"] m assms(2) by auto
  let ?recl = "filter (\<lambda>l. xl_type xl l = ''receipt'') ?ls"
  define kept where "kept = filter (\<lambda>l. xl_type xl l \<noteq> ''manifest'' \<and> xl_type xl l \<noteq> ''receipt'') ?ls
    @ take (length ?recl - min n (length ?recl)) ?recl"
  have k: "xp_receipts (StripToPrefix xl e n) = concat kept" "set kept \<subseteq> set ?ls"
    "\<forall>l\<in>set kept. xl_type xl l \<noteq> ''manifest''"
    by (auto simp: StripToPrefix_def Let_def kept_def dest: in_set_takeD)
  have "split_after (concat kept) = kept @ [[]]"
    using w k(2) by (intro split_after_whole) (auto simp: list_all_iff)
  then have "\<not> xl_manifest xl b" if r: "xl_read xl (xp_receipts (StripToPrefix xl e n)) = Inr b" for b
    using assms(1) [of "concat kept" b] r k by auto
  then have "\<not> rep_manifest rpt" using VerifyExport_Inr [OF assms(3)] by auto
  then show ?thesis by (simp add: OK_def Complete_def)
qed

section \<open>Datasets\<close>

lemma verify_examples_none:
  assumes "verify_examples binding bySeq records line seen ls = (n, [])"
  shows "\<exists>exs. map (decode_first (decode_example True)) (filter (\<lambda>l. l \<noteq> []) (map trim_space ls)) = map Some exs
    \<and> distinct (map ex_seq exs) \<and> ex_seq ` set exs \<inter> set seen = {} \<and> n = length exs
    \<and> (\<forall>ex\<in>set exs. \<exists>r j. bySeq (ex_seq ex) = Some r \<and> Validate binding ex r j = None)"
  using assms
proof (induction ls arbitrary: line seen n)
  case (Cons l ls)
  show ?case
  proof (cases "trim_space l = []")
    case True
    then show ?thesis using Cons by simp
  next
    case False
    obtain n1 f1 where "verify_examples binding bySeq records (line + 1) seen ls = (n1, f1)" by (rule prod.exhaust)
    then obtain ex where ex: "decode_first (decode_example True) (trim_space l) = Some ex"
      using Cons.prems False by (auto simp: Let_def split: option.splits prod.splits)
    have "ex_seq ex \<notin> set seen" using Cons.prems False ex by (auto simp: Let_def split: prod.splits)
    moreover obtain r where r: "bySeq (ex_seq ex) = Some r"
      using Cons.prems False ex calculation by (auto simp: Let_def split: option.splits prod.splits)
    moreover obtain j where j: "Validate binding ex r j = None"
      using Cons.prems False ex calculation by (auto simp: Let_def split: option.splits prod.splits)
    moreover obtain m where m: "verify_examples binding bySeq records (line + 1) (ex_seq ex # seen) ls = (m, [])" "n = m + 1"
      using Cons.prems False ex calculation(1) r by (auto simp: Let_def split: option.splits prod.splits)
    moreover obtain exs where exs: "map (decode_first (decode_example True)) (filter (\<lambda>l. l \<noteq> []) (map trim_space ls)) = map Some exs"
      "distinct (map ex_seq exs)" "ex_seq ` set exs \<inter> set (ex_seq ex # seen) = {}" "m = length exs"
      "\<forall>ex\<in>set exs. \<exists>r j. bySeq (ex_seq ex) = Some r \<and> Validate binding ex r j = None"
      using Cons.IH [OF m(1)] by blast
    ultimately show ?thesis using ex False by (intro exI [of _ "ex # exs"]) auto
  qed
qed simp

lemma map_of_by_seq: "map_of (rev (map (\<lambda>r. (rv_seq r, r)) rs)) q = Some r \<Longrightarrow> r \<in> set rs \<and> rv_seq r = q"
  by (auto dest: map_of_SomeD)

lemma dataset_examples_bound:
  assumes "Verify xl e approvals trusted = Inr (rpt, None)" "dataset_OK rpt"
  shows "\<exists>b exs. xl_read xl (xp_receipts e) = Inr b \<and> xl_manifest xl b \<and> OK (ds_receipts rpt)
    \<and> map (decode_first (decode_example True)) (record_lines approvals) = map Some exs
    \<and> distinct (map ex_seq exs) \<and> ds_bound rpt = length exs \<and> length exs \<le> rep_bound (ds_receipts rpt)
    \<and> (\<forall>ex\<in>set exs. \<exists>r\<in>set (xl_receipts xl b). \<exists>j rec. xl_binds xl r j = None
         \<and> Option.bind j (decode_record False) = Some rec \<and> belongs ex r rec)"
proof -
  obtain b where b: "VerifyExport xl e trusted = Inr (ds_receipts rpt)" "xl_read xl (xp_receipts e) = Inr b"
    "verify_examples (xl_binds xl) (map_of (rev (map (\<lambda>r. (rv_seq r, r)) (xl_receipts xl b))))
       (last_records (fst (scan_lines (xp_records e))) Map.empty) 1 [] (fst (scan_lines approvals)) = (ds_bound rpt, [])"
    using assms by (auto simp: Verify_def dataset_OK_def bind_err_def Let_def split: sum.splits prod.splits if_splits)
  have ok: "OK (ds_receipts rpt)" using assms(2) by (simp add: dataset_OK_def)
  have man: "xl_manifest xl b" using ok VerifyExport_Inr [OF b(1)] b(2) by (auto simp: OK_def Complete_def)
  have bound: "rep_bound (ds_receipts rpt) = length (xl_receipts xl b)"
    using ok verify_failures [OF b(1)] b(2) by (auto simp: OK_def PrefixOK_def)
  obtain exs where exs: "map (decode_first (decode_example True)) (record_lines approvals) = map Some exs"
    "distinct (map ex_seq exs)" "ds_bound rpt = length exs"
    "\<forall>ex\<in>set exs. \<exists>r j. map_of (rev (map (\<lambda>r. (rv_seq r, r)) (xl_receipts xl b))) (ex_seq ex) = Some r
      \<and> Validate (xl_binds xl) ex r j = None"
    using verify_examples_none [OF b(3)] unfolding record_lines_def by blast
  have each: "\<exists>r\<in>set (xl_receipts xl b). \<exists>j rec. xl_binds xl r j = None
         \<and> Option.bind j (decode_record False) = Some rec \<and> belongs ex r rec" if m: "ex \<in> set exs" for ex
  proof -
    obtain r j where rj: "map_of (rev (map (\<lambda>r. (rv_seq r, r)) (xl_receipts xl b))) (ex_seq ex) = Some r"
      "Validate (xl_binds xl) ex r j = None"
      using bspec [OF exs(4) m] by (elim exE conjE) (rule that)
    then show ?thesis using map_of_by_seq [OF rj(1)] unfolding Validate_None by blast
  qed
  have "set (map ex_seq exs) \<subseteq> set (map rv_seq (xl_receipts xl b))"
    using each unfolding belongs_def by (auto simp: image_iff)
  then have "length (map ex_seq exs) \<le> length (map rv_seq (xl_receipts xl b))"
    using exs(2) by (metis card_length card_mono distinct_card finite_set order_trans)
  then show ?thesis using b(2) man ok exs(1-3) each bound by auto
qed

text \<open>What an OK dataset means. When the verification of a dataset is OK and reached the end of the file, the receipt
  export is OK with its signed manifest, every line of approvals.jsonl that is not blank is an example, the examples have distinct
  receipts, each one belongs to a receipt of the verified chain and to a human record that binds to this receipt, with
  the label of its outcome, and there are no more examples than bound records.\<close>

lemma verified_dataset_bound:
  assumes "Verify xl e approvals trusted = Inr (rpt, None)" "dataset_OK rpt"
  shows "\<exists>b exs. xl_read xl (xp_receipts e) = Inr b \<and> xl_manifest xl b \<and> OK (ds_receipts rpt)
    \<and> map (decode_first (decode_example True)) (record_lines approvals) = map Some exs
    \<and> distinct (map ex_seq exs) \<and> ds_bound rpt = length exs \<and> length exs \<le> rep_bound (ds_receipts rpt)
    \<and> (\<forall>ex\<in>set exs. \<exists>r\<in>set (xl_receipts xl b). \<exists>j rec. xl_binds xl r j = None
         \<and> Option.bind j (decode_record False) = Some rec \<and> belongs ex r rec)"
  by (rule dataset_examples_bound [OF assms])

text \<open>C25: what a report without record failures means. The records of an export and its receipts are compared
  both ways: no failure is listed exactly when the numbers of the record lines are distinct, the numbers of the receipts are
  distinct, both are the same set, and every record binds to the receipt of its number; all receipts are counted as bound then.\<close>

theorem VerifyExport_failures:
  assumes "VerifyExport xl e trusted = Inr rpt"
  shows "\<exists>b es. xl_read xl (xp_receipts e) = Inr b \<and> map decode_entry (record_lines (xp_records e)) = map Some es
    \<and> (rep_failures rpt = [] \<longleftrightarrow> distinct (map re_seq es) \<and> distinct (map rv_seq (xl_receipts xl b))
        \<and> re_seq ` set es = rv_seq ` set (xl_receipts xl b)
        \<and> (\<forall>r\<in>set (xl_receipts xl b). \<forall>x\<in>set es. re_seq x = rv_seq r \<longrightarrow> xl_binds xl r (re_record x) = None))
    \<and> (rep_failures rpt = [] \<longrightarrow> rep_bound rpt = length (xl_receipts xl b))"
  using assms by (rule verify_failures)

section \<open>Witnesses\<close>

definition wit_xl :: "(bool \<times> receipt list) export_lib" where
  "wit_xl = \<lparr>xl_read = \<lambda>s. if has_prefix s ''m'' then Inr (True, replicate ((length s - 4) div 2) ReceiptLog.wit_receipt)
       else Inr (False, replicate (length s div 2) ReceiptLog.wit_receipt),
     xl_manifest = fst, xl_receipts = snd, xl_verify = \<lambda>b keys. Inr \<lparr>cr_ok = True, cr_complete = fst b\<rparr>,
     xl_keys = \<lambda>t. Inr [], xl_binds = \<lambda>r j. if j = None then Some ''no record'' else None,
     xl_type = \<lambda>l. if has_prefix l ''m'' then ''manifest'' else ''receipt'', xl_public = \<lambda>p. ''pk'', xl_version = 1,
     xl_keyset = \<lambda>ks. [], xl_manifest_line = \<lambda>p k m. Inr ''m'', xl_key_line = \<lambda>k. Inr ''k'',
     xl_write = \<lambda>rcs. if list_all (\<lambda>r. r = ReceiptLog.wit_receipt) rcs then Inr (file_of (replicate (length rcs) ''x'') [])
       else Inl ''write''\<rparr>"

lemma wit_same: "list_all (\<lambda>r. r = ReceiptLog.wit_receipt) rcs \<Longrightarrow> rcs = replicate (length rcs) ReceiptLog.wit_receipt"
  by (simp add: list_all_iff replicate_eqI)

lemma length_wit_file: "length (file_of (replicate n ''x'') []) = 2 * n"
  by (induction n) (simp_all add: file_of_def)

lemma wit_export_laws: "export_laws log_spec ReceiptLog.wit_lib wit_xl"
proof -
  have a: "xl_receipts wit_xl b = rcs"
    if h: "chain_from ReceiptLog.wit_lib 0 zero_hash rcs"
      "xl_read wit_xl (file_of (map (rc_line ReceiptLog.wit_lib) rcs) []) = Inr b" for rcs b
  proof -
    have "list_all (\<lambda>r. r = ReceiptLog.wit_receipt) rcs"
      using chain_lines [OF wit_laws h(1)] by (auto simp: list_all_iff ReceiptLog.wit_lib_def split: if_splits)
    then have r: "rcs = replicate (length rcs) ReceiptLog.wit_receipt" by (rule wit_same)
    have "map (rc_line ReceiptLog.wit_lib) rcs = replicate (length rcs) ''x''"
      by (subst r) (simp add: rc_line_def ReceiptLog.wit_lib_def)
    moreover have "\<not> has_prefix (file_of (replicate n ''x'') []) ''m''" for n
      by (cases n) (simp_all add: file_of_def has_prefix_def)
    ultimately show ?thesis using r h(2) length_wit_file [of "length rcs"] by (auto simp: wit_xl_def)
  qed
  have b: "xl_receipts wit_xl b = rcs \<and> xl_manifest wit_xl b"
    if h: "xl_manifest_line wit_xl priv kid m = Inr ml" "xl_key_line wit_xl key = Inr kl" "xl_write wit_xl rcs = Inr body"
      "xl_read wit_xl (ml @ [lf] @ kl @ [lf] @ body) = Inr b"
    for priv kid m key ml kl rcs body b
  proof -
    have e: "ml = ''m''" "kl = ''k''" using h(1,2) by (auto simp: wit_xl_def)
    have "list_all (\<lambda>r. r = ReceiptLog.wit_receipt) rcs" "body = file_of (replicate (length rcs) ''x'') []"
      using h(3) by (auto simp: wit_xl_def split: if_splits)
    then show ?thesis
      using wit_same [of rcs] length_wit_file [of "length rcs"] h(4) by (auto simp: wit_xl_def e has_prefix_def)
  qed
  have c: "xl_binds wit_xl r (Some j) = None" for r j by (simp add: wit_xl_def)
  show ?thesis unfolding export_laws_def using wit_laws a b c by blast
qed

lemma wit_scan: "scan_lines (line_of 1 wit_value @ [lf]) = ([line_of 1 wit_value], True)"
proof -
  have l: "line_of 1 wit_value = ''{\"seq\":1,\"record\":{\"a\":\"'' @ [CHR 0x5C] @ ''u003c\"}}''"
    unfolding wit_value_def by code_simp
  show ?thesis unfolding l by (simp add: scan_lines_def drop_cr_def)
qed

lemma wit_records: "read_records [line_of 1 wit_value] [] [] = Inr ([(1, Some wit_value)], [])"
  using decode_entry_line [OF wit_canonical_value(2), of 1] line_kept [of 1 wit_value] by simp

lemma ready_export_verifies_witness:
  "\<exists>e rpt. local_export wit_xl True True (wit_writer\<lparr>w_seq := 1, w_head := ''e1''\<rparr>) ReceiptLog.wit_disk = Inr e
    \<and> VerifyExport wit_xl e [] = Inr rpt \<and> OK rpt \<and> rep_bound rpt = 1"
proof -
  let ?w = "wit_writer\<lparr>w_seq := 1, w_head := ''e1''\<rparr>"
  have s: "log_reach log_spec ReceiptLog.wit_lib log_init \<lparr>ls_disk = ReceiptLog.wit_disk, ls_writer = Some ?w\<rparr>"
    by (rule log_reach.more [OF wit_open log_step.appended [OF wit_append]])
  have "xl_read wit_xl (dk_receipts ReceiptLog.wit_disk) = Inr (False, [ReceiptLog.wit_receipt])"
    by (simp add: wit_xl_def ReceiptLog.wit_disk_def has_prefix_def)
  then obtain e where e: "local_export wit_xl True True ?w ReceiptLog.wit_disk = Inr e"
    "xp_receipts e = ''m'' @ [lf] @ ''k'' @ [lf] @ ''x'' @ [lf]" "xp_records e = line_of 1 wit_value @ [lf]"
    by (simp add: local_export_def wit_writer_def bind_err_def wit_xl_def ReceiptLog.wit_disk_def Let_def file_of_def)
  have "xl_read wit_xl (xp_receipts e) = Inr (True, [ReceiptLog.wit_receipt])"
    unfolding e(2) by (simp add: wit_xl_def has_prefix_def)
  moreover have "\<exists>ks. trusted_keys wit_xl e [] = Inr ks" by (simp add: trusted_keys_def wit_xl_def)
  ultimately obtain rpt where r: "VerifyExport wit_xl e [] = Inr rpt" "rep_chain rpt = \<lparr>cr_ok = True, cr_complete = True\<rparr>"
    using wit_scan wit_records e(3)
    by (auto simp: VerifyExport_def bind_err_def wit_xl_def wit_receipt_simps)
  have "ReceiptLog.Ready ?w" by (simp add: ReceiptLog.Ready_def wit_writer_def)
  from ready_export_verifies [OF wit_export_laws s _ this _ r(1)] e(1) r(2) have "OK rpt" "rep_bound rpt = 1" by auto
  then show ?thesis using e(1) r(1) by blast
qed

lemma VerifyExport_failures_witness:
  "\<exists>rpt. VerifyExport wit_xl \<lparr>xp_format = [], xp_receipts = ''x'' @ [lf], xp_trust = [], xp_records = []\<rparr> [] = Inr rpt
    \<and> rep_failures rpt \<noteq> []"
proof -
  let ?e = "\<lparr>xp_format = [], xp_receipts = ''x'' @ [lf], xp_trust = [], xp_records = []\<rparr>"
  have r: "xl_read wit_xl (xp_receipts ?e) = Inr (False, [ReceiptLog.wit_receipt])"
    by (simp add: wit_xl_def has_prefix_def)
  have s: "scan_lines [] = ([], True)" by (simp add: scan_lines_def)
  then obtain rpt where v: "VerifyExport wit_xl ?e [] = Inr rpt"
    using r by (auto simp: VerifyExport_def bind_err_def wit_xl_def trusted_keys_def)
  from VerifyExport_failures [OF this] obtain b es where "xl_read wit_xl (xp_receipts ?e) = Inr b"
    "map decode_entry (record_lines (xp_records ?e)) = map Some es"
    "rep_failures rpt = [] \<longrightarrow> re_seq ` set es = rv_seq ` set (xl_receipts wit_xl b)" by blast
  then have "rep_failures rpt \<noteq> []" using r s by (auto simp: record_lines_def wit_xl_def)
  then show ?thesis using v by blast
qed

text \<open>One human record, its receipt and its example.\<close>

definition data_xl :: "(bool \<times> receipt list) export_lib" where
  "data_xl = wit_xl\<lparr>xl_read := \<lambda>s. Inr (True, [Dataset.wit_receipt])\<rparr>"

definition data_export :: export where
  "data_export = \<lparr>xp_format = [], xp_receipts = [], xp_trust = [], xp_records = line_of 1 (record_json Dataset.wit_record) @ [lf]\<rparr>"

lemma wit_record_wf: "wf_json (record_json Dataset.wit_record)"
proof -
  have n: "number_text (itoa i)" for i using itoa_shape number_shape_text by blast
  show ?thesis
    by (auto simp: record_json_def Dataset.wit_record_def zero_record_def zero_approval_def zero_workload_def
        workload_json_def declared_json_def observed_json_def claimed_json_def approval_json_def jint_def jstrs_def
        opt_str_def opt_member_def n outcome_names layer_names intro!: valid_utf8_ascii)
qed

lemma scan_one:
  assumes "lf \<notin> set l" "length l < 2 ^ 24" "drop_cr l = l"
  shows "scan_lines (l @ [lf]) = ([l], True)"
proof -
  have "split_byte lf (l @ [lf]) = [l, []]" using split_no_lf [OF assms(1), of "[]"] by simp
  then show ?thesis using assms(2,3) by (simp add: scan_lines_def)
qed

lemma wit_data_scan:
  "scan_lines (line_of 1 (record_json Dataset.wit_record) @ [lf]) = ([line_of 1 (record_json Dataset.wit_record)], True)"
  "scan_lines (ex_line Dataset.wit_example @ [lf]) = ([ex_line Dataset.wit_example], True)"
proof -
  have "length (line_of 1 (record_json Dataset.wit_record)) \<le> 2000" by code_simp
  then show "scan_lines (line_of 1 (record_json Dataset.wit_record) @ [lf]) = ([line_of 1 (record_json Dataset.wit_record)], True)"
    using line_kept line_of_no_lf [OF wit_record_wf] by (intro scan_one) simp_all
  have l: "length (ex_line Dataset.wit_example) \<le> 2000 \<and> drop_cr (ex_line Dataset.wit_example) = ex_line Dataset.wit_example"
    by code_simp
  then have "length (ex_line Dataset.wit_example) < 2 ^ 24" by simp
  then show "scan_lines (ex_line Dataset.wit_example @ [lf]) = ([ex_line Dataset.wit_example], True)"
    using l ex_line_simple [OF wit_storable] by (intro scan_one) auto
qed

lemma wit_example_read:
  "decode_first (decode_example True) (ex_line Dataset.wit_example) = Some Dataset.wit_example"
  "trim_space (ex_line Dataset.wit_example) = ex_line Dataset.wit_example" "ex_line Dataset.wit_example \<noteq> []"
proof -
  obtain s where s: "ex_line Dataset.wit_example = ''{'' @ s @ ''}''" by (auto simp: ex_line_def example_json_def enc_json_obj)
  show "trim_space (ex_line Dataset.wit_example) = ex_line Dataset.wit_example" "ex_line Dataset.wit_example \<noteq> []" unfolding s using trim_braces by simp_all
  have "parse_json (enc_json (example_json Dataset.wit_example)) = Some (example_json Dataset.wit_example)" "decode_example True (example_json Dataset.wit_example) = Some Dataset.wit_example"
    using wit_storable parse_enc_json decode_example_json unfolding storable_def by blast+
  then show "decode_first (decode_example True) (ex_line Dataset.wit_example) = Some Dataset.wit_example"
    by (auto simp: decode_first_def ex_line_def parse_json_def split: option.splits prod.splits if_splits)
qed

lemma wit_data_verify:
  "\<exists>rpt. Verify data_xl data_export (ex_line Dataset.wit_example @ [lf]) [] = Inr (rpt, None) \<and> dataset_OK rpt"
proof -
  let ?j = "record_json Dataset.wit_record" and ?ex = Dataset.wit_example
  have e: "decode_entry (line_of 1 ?j) = Some \<lparr>re_seq = 1, re_record = Some ?j\<rparr>"
    by (rule decode_entry_line [OF wit_record_wf]) simp_all
  have r: "read_records [line_of 1 ?j] [] [] = Inr ([(1, Some ?j)], [])" using e line_kept [of 1 ?j] by simp
  have l: "last_records [line_of 1 ?j] Map.empty = [1 \<mapsto> Some ?j]" using e by simp
  have v: "VerifyExport data_xl data_export [] = Inr \<lparr>rep_chain = \<lparr>cr_ok = True, cr_complete = True\<rparr>, rep_manifest = True,
      rep_bound = 1, rep_failures = []\<rparr>"
    using r wit_data_scan(1) by (simp add: VerifyExport_def data_export_def data_xl_def wit_xl_def bind_err_def
        trusted_keys_def Dataset.wit_receipt_def)
  note t = wit_example_read(2,3) and d = wit_example_read(1)
  have "Validate (xl_binds data_xl) ?ex Dataset.wit_receipt (Some ?j) = None"
    by (rule wit_example_valid) (simp add: data_xl_def wit_xl_def)
  then have "verify_examples (xl_binds data_xl) (map_of (rev (map (\<lambda>r. (rv_seq r, r)) [Dataset.wit_receipt])))
      [1 \<mapsto> Some ?j] 1 [] [ex_line ?ex] = (1, [])"
    using d t by (simp add: Dataset.wit_receipt_def Dataset.wit_example_def zero_example_def)
  then show ?thesis
    using v l wit_data_scan
    by (simp add: Verify_def bind_err_def data_export_def data_xl_def wit_xl_def dataset_OK_def OK_def PrefixOK_def Complete_def)
qed

lemma verified_dataset_bound_witness:
  "\<exists>rec. belongs Dataset.wit_example Dataset.wit_receipt rec"
proof -
  obtain rpt where v: "Verify data_xl data_export (ex_line Dataset.wit_example @ [lf]) [] = Inr (rpt, None)" "dataset_OK rpt"
    using wit_data_verify by blast
  from verified_dataset_bound [OF v] obtain b exs where b: "xl_read data_xl (xp_receipts data_export) = Inr b"
    "map (decode_first (decode_example True)) (record_lines (ex_line Dataset.wit_example @ [lf])) = map Some exs"
    "\<forall>ex\<in>set exs. \<exists>r\<in>set (xl_receipts data_xl b). \<exists>j rec. xl_binds data_xl r j = None
         \<and> Option.bind j (decode_record False) = Some rec \<and> belongs ex r rec" by blast
  have "record_lines (ex_line Dataset.wit_example @ [lf]) = [ex_line Dataset.wit_example]"
    using wit_data_scan(2) wit_example_read(2,3) by (simp add: record_lines_def)
  then have "exs = [Dataset.wit_example]" using b(2) wit_example_read(1) by auto
  moreover have "xl_receipts data_xl b = [Dataset.wit_receipt]" using b(1) by (auto simp: data_xl_def wit_xl_def)
  ultimately show ?thesis using b(3) by auto
qed

end
