(* ===== verification/ReceiptService.thy ===== *)
theory ReceiptService
  imports ReceiptExport
begin

text \<open>
  The receipt writer as a service: pkg/receipts/remote.go (the client of the controller, with the
  pinned keys of the writer and the head it last accepted), its configuration, the
  approvals client pkg/dataset/remote.go, and the HTTP handlers of cmd/receipt-writer over the
  writer of one directory and the dataset store. What a server answers is
  arbitrary for the client; in the service it is what the handlers answer. The receipt
  library's parser of a receipt object, its record binding and its signature check are
  parameters; so are the clock, url.Parse errors aside from the host, and the sockets.
\<close>

section \<open>Requests and answers\<close>

record client_lib =
  cl_parse :: "json \<Rightarrow> receipt err"
  cl_binds :: "receipt \<Rightarrow> string \<Rightarrow> string option"
  cl_verify :: "receipt \<Rightarrow> string \<Rightarrow> string option"

record request =
  rq_method :: string
  rq_path :: string
  rq_auth :: string
  rq_body :: string

datatype answer = NoAnswer string | Answer int string

definition do_request :: "string \<Rightarrow> string \<Rightarrow> string \<Rightarrow> string err \<Rightarrow> answer \<Rightarrow> request list \<times> string err" where
  "do_request meth path body token ans =
     (case token of
        Inl e \<Rightarrow> ([], Inl (''receipts: read writer token: '' @ e))
      | Inr tok \<Rightarrow>
          ([\<lparr>rq_method = meth, rq_path = path, rq_auth = ''Bearer '' @ tok, rq_body = body\<rparr>],
           case ans of
             NoAnswer e \<Rightarrow> Inl (''receipts: writer '' @ meth @ '' '' @ path @ '': '' @ e)
           | Answer status data \<Rightarrow>
               (if status \<noteq> 200 then Inl (''receipts: writer '' @ meth @ '' '' @ path @ '': status '' @ itoa status)
                else Inr data)))"

section \<open>The client\<close>

record remote =
  rm_trusted :: "trusted_key list"
  rm_insecure :: bool
  rm_known :: bool
  rm_seq :: int
  rm_hash :: string

text \<open>A client starts without keys; the host check of NewRemoteWriter is on the parsed URL.\<close>

definition NewRemoteWriter :: "(string \<Rightarrow> string) \<Rightarrow> string \<Rightarrow> remote err" where
  "NewRemoteWriter scheme baseURL =
     (case url_host baseURL of
        Some h \<Rightarrow> if (scheme baseURL = ''http'' \<or> scheme baseURL = ''https'') \<and> h \<noteq> ''''
                 then Inr \<lparr>rm_trusted = [], rm_insecure = False, rm_known = False, rm_seq = 0, rm_hash = zero_hash\<rparr>
                 else Inl (''receipts: writer URL must be http(s)://host[:port], got '' @ quote baseURL)
      | None \<Rightarrow> Inl (''receipts: writer URL must be http(s)://host[:port], got '' @ quote baseURL))"

definition TokenFile :: "string err \<Rightarrow> string err" where
  "TokenFile data = (case data of Inl e \<Rightarrow> Inl e
     | Inr d \<Rightarrow> (let tok = trim_space d in
         if tok = '''' then Inl ''receipts: token file is empty'' else Inr tok))"

definition Pin :: "trusted_key list \<Rightarrow> remote \<Rightarrow> remote err" where
  "Pin keys w = (if length keys = 0 then Inl ''no trusted keys'' else Inr (w\<lparr>rm_trusted := keys\<rparr>))"

definition AllowUnpinned :: "remote \<Rightarrow> remote" where
  "AllowUnpinned w = w\<lparr>rm_insecure := True\<rparr>"

definition ErrUnpinned :: string where
  "ErrUnpinned = ''receipts: no pinned writer key; set RECEIPTS_WRITER_TRUST_FILE''"

fun verifyPinned :: "client_lib \<Rightarrow> receipt \<Rightarrow> trusted_key list \<Rightarrow> string option" where
  "verifyPinned lib r [] = Some (''receipts: writer receipt signed by unpinned key '' @ quote (rv_kid r))"
| "verifyPinned lib r (k # ks) =
     (if ky_kid k \<noteq> rv_kid r then verifyPinned lib r ks
      else if rv_seq r < ky_from k \<or> (case ky_until k of None \<Rightarrow> False | Some u \<Rightarrow> rv_seq r > u)
      then Some (''receipts: writer receipt seq '' @ itoa (rv_seq r) @ '' outside key '' @ ky_kid k @ '' window'')
      else case cl_verify lib r (ky_public k) of
          Some e \<Rightarrow> Some (''receipts: writer receipt does not verify: '' @ e)
        | None \<Rightarrow> None)"

record head_response =
  hd_seq :: int
  hd_hash :: string
  hd_kid :: string

definition head_fields :: "(string \<times> head_response decode) list" where
  "head_fields = [(''seq'', on_field hd_seq hd_seq_update dec_uint),
     (''entry_hash'', on_field hd_hash hd_hash_update dec_string),
     (''signer_kid'', on_field hd_kid hd_kid_update dec_string)]"

definition decode_head :: "string \<Rightarrow> head_response option" where
  "decode_head s = Option.bind (parse_json s)
     (\<lambda>j. dec_struct False head_fields j \<lparr>hd_seq = 0, hd_hash = [], hd_kid = []\<rparr>)"

text \<open>The token and the answer of each of the two requests of a call.\<close>

record call_env =
  ce_head_token :: "string err"
  ce_head :: answer
  ce_post_token :: "string err"
  ce_post :: answer

definition syncHead :: "call_env \<Rightarrow> remote \<Rightarrow> request list \<times> remote \<times> string option" where
  "syncHead env w =
     (let (rq, res) = do_request ''GET'' ''/v1/head'' [] (ce_head_token env) (ce_head env) in
      case res of
        Inl e \<Rightarrow> (rq, w, Some e)
      | Inr data \<Rightarrow>
          (case decode_head data of
             None \<Rightarrow> (rq, w, Some ''receipts: parse writer head'')
           | Some h \<Rightarrow>
               (case unhex_string (hd_hash h) of
                  Some raw \<Rightarrow> if length raw \<noteq> 32
                    then (rq, w, Some ''receipts: writer head entry_hash must be 32 bytes hex'')
                    else (rq, w\<lparr>rm_seq := hd_seq h, rm_hash := raw, rm_known := True\<rparr>, None)
                | None \<Rightarrow> (rq, w, Some ''receipts: writer head entry_hash must be 32 bytes hex''))))"

text \<open>The raw receipt of the reply; a reply without one has an empty text, which no parser accepts.\<close>

definition reply_receipt :: "client_lib \<Rightarrow> string \<Rightarrow> receipt err" where
  "reply_receipt lib data =
     (case Option.bind (parse_json data) (\<lambda>j. dec_struct False [(''receipt'', dec_raw)] j None) of
        None \<Rightarrow> Inl ''receipts: parse writer reply''
      | Some None \<Rightarrow> Inl ''receipts: parse writer receipt''
      | Some (Some v) \<Rightarrow> (case cl_parse lib v of
            Inl e \<Rightarrow> Inl (''receipts: parse writer receipt: '' @ e) | Inr r \<Rightarrow> Inr r))"

definition accept_reply :: "receiptspec \<Rightarrow> client_lib \<Rightarrow> decision_record \<Rightarrow> string \<Rightarrow> remote \<Rightarrow> remote \<times> receipt err" where
  "accept_reply rs lib rec data w =
     (case reply_receipt lib data of
        Inl e \<Rightarrow> (w, Inl e)
      | Inr r \<Rightarrow>
          (case rs_canonical rs (record_json rec) of
             Inl e \<Rightarrow> (w, Inl e)
           | Inr canonical \<Rightarrow>
               (case cl_binds lib r canonical of
                  Some e \<Rightarrow> (w, Inl (''receipts: writer receipt does not bind to the record: '' @ e))
                | None \<Rightarrow>
                    if length (rm_trusted w) = 0 then (w, Inr r)
                    else (case verifyPinned lib r (rm_trusted w) of
                        Some e \<Rightarrow> (w, Inl e)
                      | None \<Rightarrow>
                          if rv_seq r \<noteq> (rm_seq w + 1) mod 2 ^ 64 \<or> rv_prev r \<noteq> rm_hash w
                          then (w, Inl (''receipts: writer receipt seq '' @ itoa (rv_seq r)
                                 @ '' does not extend head '' @ itoa (rm_seq w)))
                          else (w\<lparr>rm_seq := rv_seq r, rm_hash := rv_entry r, rm_known := True\<rparr>, Inr r)))))"

definition Append :: "receiptspec \<Rightarrow> client_lib \<Rightarrow> decision_record \<Rightarrow> call_env \<Rightarrow> remote
    \<Rightarrow> request list \<times> remote \<times> receipt err" where
  "Append rs lib rec env w =
     (if length (rm_trusted w) = 0 \<and> \<not> rm_insecure w then ([], w, Inl ErrUnpinned)
      else
        (let (rq1, w1, e1) = (if length (rm_trusted w) > 0 \<and> \<not> rm_known w then syncHead env w else ([], w, None)) in
         case e1 of
           Some e \<Rightarrow> (rq1, w1, Inl e)
         | None \<Rightarrow>
             (let w2 = w1\<lparr>rm_known := False\<rparr>;
                  (rq2, resp) = do_request ''POST'' ''/v1/records'' (enc_json (record_json rec))
                     (ce_post_token env) (ce_post env)
              in case resp of
                   Inl e \<Rightarrow> (rq1 @ rq2, w2, Inl e)
                 | Inr data \<Rightarrow> (let (w3, res) = accept_reply rs lib rec data w2 in (rq1 @ rq2, w3, res)))))"

definition remote_export :: "string err \<Rightarrow> answer \<Rightarrow> request list \<times> export err" where
  "remote_export token ans =
     (let (rq, res) = do_request ''GET'' ''/v1/export'' [] token ans in
      case res of
        Inl e \<Rightarrow> (rq, Inl e)
      | Inr data \<Rightarrow>
          (case Option.bind (parse_json data) (decode_export False) of
             None \<Rightarrow> (rq, Inl ''receipts: parse export'')
           | Some e \<Rightarrow> (rq, if xp_format e \<noteq> ExportFormat then Inl (''receipts: unknown export format '' @ quote (xp_format e))
                          else Inr e)))"

text \<open>Ready asks for /healthz without a token.\<close>

definition Ready :: "answer \<Rightarrow> bool" where
  "Ready ans = (case ans of NoAnswer _ \<Rightarrow> False | Answer status _ \<Rightarrow> status = 200)"

section \<open>Configuration\<close>

record receipt_config =
  rf_enabled :: bool
  rf_required :: bool
  rf_url :: string
  rf_token_file :: string
  rf_timeout :: int
  rf_trust_file :: string
  rf_keys :: "trusted_key list"
  rf_insecure :: bool

definition parse_bool :: "string \<Rightarrow> bool option" where
  "parse_bool v = (if v \<in> set [''1'', ''t'', ''T'', ''TRUE'', ''true'', ''True''] then Some True
     else if v \<in> set [''0'', ''f'', ''F'', ''FALSE'', ''false'', ''False''] then Some False else None)"

definition envBool :: "(string \<Rightarrow> string) \<Rightarrow> string \<Rightarrow> bool err" where
  "envBool getenv key =
     (let v = trim_space (getenv key) in
      if v = '''' then Inr False
      else case parse_bool v of None \<Rightarrow> Inl (''receipts: '' @ key @ '': invalid syntax'') | Some b \<Rightarrow> Inr b)"

text \<open>The parser of durations, the reader of a file and the parser of a trust file are parameters.\<close>

definition ConfigFromEnv :: "(string \<Rightarrow> int err) \<Rightarrow> (string \<Rightarrow> string err) \<Rightarrow> (string \<Rightarrow> trusted_key list err)
    \<Rightarrow> (string \<Rightarrow> string) \<Rightarrow> receipt_config err" where
  "ConfigFromEnv duration read_file load getenv =
     bind_err (envBool getenv ''RECEIPTS_ENABLED'') (\<lambda>enabled.
     bind_err (envBool getenv ''RECEIPTS_REQUIRED'') (\<lambda>required.
     bind_err (envBool getenv ''RECEIPTS_INSECURE_NO_PIN'') (\<lambda>insecure.
       let c = \<lparr>rf_enabled = enabled \<or> required, rf_required = required,
                rf_url = trim_space (getenv ''RECEIPTS_WRITER_URL''),
                rf_token_file = trim_space (getenv ''RECEIPTS_WRITER_TOKEN_FILE''), rf_timeout = 5 * 10 ^ 9,
                rf_trust_file = trim_space (getenv ''RECEIPTS_WRITER_TRUST_FILE''), rf_keys = [],
                rf_insecure = insecure\<rparr>;
           v = trim_space (getenv ''RECEIPTS_WRITER_TIMEOUT'')
       in bind_err (if v \<noteq> '''' then (case duration v of
                Inl e \<Rightarrow> Inl (''receipts: RECEIPTS_WRITER_TIMEOUT: '' @ e) | Inr d \<Rightarrow> Inr (c\<lparr>rf_timeout := d\<rparr>))
              else Inr c) (\<lambda>c.
            if \<not> rf_enabled c then Inr c
            else if rf_trust_file c = '''' then
              (if \<not> rf_insecure c then Inl (''receipts: RECEIPTS_WRITER_TRUST_FILE is required when receipts are enabled ''
                 @ ''(RECEIPTS_INSECURE_NO_PIN=true is for demos only)'') else Inr c)
            else bind_err (case read_file (rf_trust_file c) of
                     Inl e \<Rightarrow> Inl (''receipts: RECEIPTS_WRITER_TRUST_FILE: '' @ e) | Inr d \<Rightarrow> Inr d) (\<lambda>data.
                 case load data of Inl e \<Rightarrow> Inl (''receipts: RECEIPTS_WRITER_TRUST_FILE: '' @ e)
                 | Inr keys \<Rightarrow> Inr (c\<lparr>rf_keys := keys\<rparr>))))))"

text \<open>None is the disabled writer.\<close>

definition NewWriter :: "(string \<Rightarrow> string) \<Rightarrow> receipt_config \<Rightarrow> remote option err" where
  "NewWriter scheme c =
     (if \<not> rf_enabled c then Inr None
      else if rf_token_file c = '''' then Inl ''receipts: RECEIPTS_WRITER_TOKEN_FILE is required when receipts are enabled''
      else bind_err (NewRemoteWriter scheme (rf_url c)) (\<lambda>w.
        if length (rf_keys c) > 0 then bind_err (Pin (rf_keys c) w) (\<lambda>w. Inr (Some w))
        else if rf_insecure c then Inr (Some (AllowUnpinned w))
        else Inl ErrUnpinned))"

section \<open>The service\<close>

definition MaxRecordBody :: nat where "MaxRecordBody = 64 * 1024"
definition MaxExampleBody :: nat where "MaxExampleBody = 256 * 1024"
definition minTokenLen :: nat where "minTokenLen = 32"

record server =
  sv_writer :: writer
  sv_disk :: disk
  sv_store :: store
  sv_token :: string

definition loadToken :: "string err \<Rightarrow> string err" where
  "loadToken data = (case data of Inl e \<Rightarrow> Inl e
     | Inr d \<Rightarrow> (let tok = trim_space d in
         if length tok < minTokenLen then Inl (''token must be at least '' @ itoa (int minTokenLen) @ '' characters'')
         else Inr tok))"

definition newHandler :: "writer \<Rightarrow> disk \<Rightarrow> store \<Rightarrow> string \<Rightarrow> server" where
  "newHandler w dk st token = \<lparr>sv_writer = w, sv_disk = dk, sv_store = st, sv_token = sha256 token\<rparr>"

type_synonym reply = "int \<times> string"

definition writeError :: "int \<Rightarrow> string \<Rightarrow> reply" where
  "writeError code msg = (code, enc_json (JObj [(''error'', JStr msg)]) @ [lf])"

definition writeJSON :: "json \<Rightarrow> reply" where
  "writeJSON v = (200, enc_json v @ [lf])"

definition authorized :: "server \<Rightarrow> string \<Rightarrow> bool" where
  "authorized s header =
     (has_prefix header ''Bearer '' \<and> sha256 (drop (length ''Bearer '') header) = sv_token s)"

definition healthz :: "server \<Rightarrow> reply" where
  "healthz s = (if \<not> ReceiptLog.Ready (sv_writer s) then writeError 503 ''writer not ready''
     else writeJSON (JObj [(''status'', JStr ''ok'')]))"

definition head_handler :: "server \<Rightarrow> reply" where
  "head_handler s = (let (q, h) = Head (sv_writer s) in
     writeJSON (JObj [(''seq'', jint q), (''entry_hash'', JStr (hex h)), (''signer_kid'', JStr (w_kid (sv_writer s)))]))"

text \<open>
  A body over the limit fails in the first or the second read of the decoder, with an error that its
  buffering decides (\<open>over\<close>). The line of a receipt is compacted as its JSON value.
\<close>

datatype body_error = TooLarge | BadJSON | Trailing

definition body_reply :: "string \<Rightarrow> body_error \<Rightarrow> reply" where
  "body_reply what e = (case e of
       TooLarge \<Rightarrow> writeError 413 (what @ '' too large'')
     | BadJSON \<Rightarrow> writeError 400 (''invalid '' @ what @ '' JSON'')
     | Trailing \<Rightarrow> writeError 400 (''trailing data after '' @ what))"

definition decode_body :: "nat \<Rightarrow> body_error \<Rightarrow> (json \<Rightarrow> 'a option) \<Rightarrow> string \<Rightarrow> body_error + 'a" where
  "decode_body most over dec body =
     (if length body > most then Inl over
      else case parse_value (json_fuel body) body of
          None \<Rightarrow> Inl BadJSON
        | Some (j, t) \<Rightarrow> (case dec j of None \<Rightarrow> Inl BadJSON
            | Some x \<Rightarrow> if skip_ws t = [] then Inr x else Inl Trailing))"

definition postRecord :: "receiptspec \<Rightarrow> receipt_lib \<Rightarrow> body_error \<Rightarrow> io \<Rightarrow> io \<Rightarrow> string \<Rightarrow> server \<Rightarrow> server \<times> reply" where
  "postRecord rs lib over i1 i2 body s =
     (case decode_body MaxRecordBody over (decode_record True) body of
        Inl e \<Rightarrow> (s, body_reply ''record'' e)
      | Inr rec \<Rightarrow>
          if dr_schema rec \<noteq> Receipts.SchemaVersion then (s, writeError 400 ''unsupported schema_version'')
          else case Fields rs rec of
              Inl e \<Rightarrow> (s, writeError 400 ''invalid record'')
            | Inr _ \<Rightarrow>
                (let (w', dk', res) = ReceiptLog.Append rs lib i1 i2 rec (sv_writer s) (sv_disk s);
                     s' = s\<lparr>sv_writer := w', sv_disk := dk'\<rparr>
                 in case res of
                      Inl e \<Rightarrow> (s', writeError 503 ''append failed'')
                    | Inr rc \<Rightarrow>
                        (case rl_line lib rc of
                           Inl e \<Rightarrow> (s', writeError 500 ''encode receipt'')
                         | Inr line \<Rightarrow>
                             (case parse_json line of
                                None \<Rightarrow> (s', 200, [])
                              | Some v \<Rightarrow> (s', writeJSON (JObj [(''receipt'', v)]))))))"

definition postApproval :: "receipt_lib \<Rightarrow> (receipt \<Rightarrow> json option \<Rightarrow> string option) \<Rightarrow> body_error \<Rightarrow> io
    \<Rightarrow> string option \<Rightarrow> string option \<Rightarrow> string \<Rightarrow> server \<Rightarrow> server \<times> reply" where
  "postApproval lib binding over i e1 e2 body s =
     (case decode_body MaxExampleBody over (decode_example True) body of
        Inl e \<Rightarrow> (s, body_reply ''example'' e)
      | Inr ex \<Rightarrow>
          (let (st, e) = Dataset.Append binding (\<lambda>q. Lookup lib e1 e2 q (sv_writer s) (sv_disk s)) i ex (sv_store s);
               s' = s\<lparr>sv_store := st\<rparr>
           in case e of
                None \<Rightarrow> (s', writeJSON (JObj [(''receipt_seq'', jint (ex_seq ex))]))
              | Some ErrDuplicate \<Rightarrow> (s', writeError 409 ''example already recorded'')
              | Some (ErrUnbound _) \<Rightarrow> (s', writeError 422 ''example does not bind to its receipt'')
              | Some (ErrDataset _) \<Rightarrow> (s', writeError 400 ''invalid example'')))"

definition exportApprovals :: "server \<Rightarrow> reply" where
  "exportApprovals s = writeJSON (JObj [(''format'', JStr ''clawdlinux.approvals.export.v1''),
     (''approvals_jsonl'', JStr (Dataset.Export (sv_store s)))])"

text \<open>The export of the chain, whose trust root is raw JSON.\<close>

definition export_json :: "export \<Rightarrow> json \<Rightarrow> json" where
  "export_json e v = JObj [(''format'', JStr (xp_format e)), (''receipts_jsonl'', JStr (xp_receipts e)),
     (''trust_root'', v), (''records_jsonl'', JStr (xp_records e))]"

definition export_handler :: "'b export_lib \<Rightarrow> bool \<Rightarrow> bool \<Rightarrow> server \<Rightarrow> reply" where
  "export_handler xl read1 read2 s =
     (case local_export xl read1 read2 (sv_writer s) (sv_disk s) of
        Inl e \<Rightarrow> writeError 500 ''export failed''
      | Inr e \<Rightarrow> (case parse_json (xp_trust e) of None \<Rightarrow> (200, []) | Some v \<Rightarrow> writeJSON (export_json e v)))"

text \<open>The routes of the handlers; a GET pattern of the mux takes HEAD requests too, whose answer has no
  body. The handler of the export is given with its library.\<close>

definition serve :: "receiptspec \<Rightarrow> receipt_lib \<Rightarrow> (receipt \<Rightarrow> json option \<Rightarrow> string option)
    \<Rightarrow> (server \<Rightarrow> reply) \<Rightarrow> body_error \<Rightarrow> io \<Rightarrow> io \<Rightarrow> string option \<Rightarrow> string option \<Rightarrow> request
    \<Rightarrow> server \<Rightarrow> server \<times> reply" where
  "serve rs lib binding export over i1 i2 e1 e2 rq s =
     (let route = (if rq_method rq = ''HEAD'' then ''GET'' else rq_method rq, rq_path rq);
          seen = (\<lambda>res. if rq_method rq = ''HEAD'' then (fst res, fst (snd res), []) else res);
          guard = (\<lambda>res. if authorized s (rq_auth rq) then res else (s, writeError 401 ''unauthorized''))
      in seen (if route = (''GET'', ''/healthz'') then (s, healthz s)
         else if route = (''POST'', ''/v1/records'') then guard (postRecord rs lib over i1 i2 (rq_body rq) s)
         else if route = (''GET'', ''/v1/head'') then guard (s, head_handler s)
         else if route = (''GET'', ''/v1/export'') then guard (s, export s)
         else if route = (''POST'', ''/v1/approvals'') then guard (postApproval lib binding over i1 e1 e2 (rq_body rq) s)
         else if route = (''GET'', ''/v1/approvals'') then guard (s, exportApprovals s)
         else (s, if rq_path rq \<in> {''/healthz'', ''/v1/records'', ''/v1/head'', ''/v1/export'', ''/v1/approvals''}
                  then (405, ''Method Not Allowed'' @ [lf]) else (404, ''404 page not found'' @ [lf]))))"

section \<open>The approvals client\<close>

text \<open>A conflict means the example is stored already, which is success.\<close>

definition AppendExample :: "string err \<Rightarrow> answer \<Rightarrow> example \<Rightarrow> request list \<times> string option" where
  "AppendExample token ans ex =
     (case token of
        Inl e \<Rightarrow> ([], Some (''dataset: read writer token: '' @ e))
      | Inr tok \<Rightarrow>
          ([\<lparr>rq_method = ''POST'', rq_path = ''/v1/approvals'', rq_auth = ''Bearer '' @ tok,
             rq_body = enc_json (example_json ex)\<rparr>],
           case ans of
             NoAnswer e \<Rightarrow> Some (''dataset: writer POST /v1/approvals: '' @ e)
           | Answer status _ \<Rightarrow>
               (if status \<noteq> 200 \<and> status \<noteq> 409
                then Some (''dataset: writer POST /v1/approvals: status '' @ itoa status) else None)))"

section \<open>What the client accepts\<close>

text \<open>A receipt under one of the keys, inside its window, with a signature that verifies.\<close>

definition pinned :: "client_lib \<Rightarrow> trusted_key list \<Rightarrow> receipt \<Rightarrow> bool" where
  "pinned lib keys r \<longleftrightarrow> (\<exists>k\<in>set keys. ky_kid k = rv_kid r \<and> ky_from k \<le> rv_seq r
     \<and> (\<forall>u. ky_until k = Some u \<longrightarrow> rv_seq r \<le> u) \<and> cl_verify lib r (ky_public k) = None)"

definition binds_to :: "receiptspec \<Rightarrow> client_lib \<Rightarrow> decision_record \<Rightarrow> receipt \<Rightarrow> bool" where
  "binds_to rs lib rec r \<longleftrightarrow> (\<exists>c. rs_canonical rs (record_json rec) = Inr c \<and> cl_binds lib r c = None)"

lemma verifyPinned_None: "verifyPinned lib r keys = None \<Longrightarrow> pinned lib keys r"
proof (induction keys)
  case (Cons k ks)
  show ?case
  proof (cases "ky_kid k = rv_kid r")
    case True
    then have "ky_from k \<le> rv_seq r" "\<forall>u. ky_until k = Some u \<longrightarrow> rv_seq r \<le> u" "cl_verify lib r (ky_public k) = None"
      using Cons.prems by (auto split: if_splits option.splits)
    then show ?thesis using True by (auto simp: pinned_def)
  next
    case False
    then show ?thesis using Cons by (auto simp: pinned_def)
  qed
qed simp

lemma accept_reply_Inr:
  assumes "accept_reply rs lib rec data w = (w', Inr r)" "rm_trusted w \<noteq> []"
  shows "binds_to rs lib rec r \<and> pinned lib (rm_trusted w) r \<and> rv_seq r = (rm_seq w + 1) mod 2 ^ 64 \<and> rv_prev r = rm_hash w
    \<and> w' = w\<lparr>rm_seq := rv_seq r, rm_hash := rv_entry r, rm_known := True\<rparr>"
  using assms verifyPinned_None [of lib r "rm_trusted w"]
  by (auto simp: accept_reply_def binds_to_def split: sum.splits option.splits if_splits)

lemma syncHead_keeps: "syncHead env w = (rq, w', e) \<Longrightarrow> rm_trusted w' = rm_trusted w"
  by (auto simp: syncHead_def split: prod.splits sum.splits option.splits if_splits)

lemma accept_reply_keeps: "accept_reply rs lib rec data w = (w', x) \<Longrightarrow> rm_trusted w' = rm_trusted w"
  by (auto simp: accept_reply_def split: sum.splits option.splits if_splits)

lemma Append_keeps: "Append rs lib rec env w = (rq, w', x) \<Longrightarrow> rm_trusted w' = rm_trusted w"
  by (auto simp: Append_def Let_def split: prod.splits sum.splits option.splits if_splits
      dest!: syncHead_keeps accept_reply_keeps)

lemma Append_Inr:
  assumes "Append rs lib rec env w = (rq, w', Inr r)" "rm_trusted w \<noteq> []"
  shows "binds_to rs lib rec r \<and> pinned lib (rm_trusted w) r \<and> rm_known w' \<and> rm_seq w' = rv_seq r \<and> rm_hash w' = rv_entry r
    \<and> (rm_known w \<longrightarrow> rv_seq r = (rm_seq w + 1) mod 2 ^ 64 \<and> rv_prev r = rm_hash w)"
proof -
  obtain rq1 w1 e1 where s: "(if length (rm_trusted w) > 0 \<and> \<not> rm_known w then syncHead env w else ([], w, None)) = (rq1, w1, e1)"
    by (rule prod_cases3)
  obtain rq2 resp where d: "do_request ''POST'' ''/v1/records'' (enc_json (record_json rec)) (ce_post_token env) (ce_post env)
      = (rq2, resp)" by (rule prod.exhaust)
  have t: "rm_trusted w1 = rm_trusted w" using s syncHead_keeps by (auto split: if_splits)
  have k: "w1 = w" if "rm_known w" using s that by auto
  obtain data where "e1 = None" "accept_reply rs lib rec data (w1\<lparr>rm_known := False\<rparr>) = (w', Inr r)"
    using assms s d by (auto simp: Append_def Let_def split: sum.splits option.splits prod.splits)
  then have "binds_to rs lib rec r \<and> pinned lib (rm_trusted w) r \<and> rv_seq r = (rm_seq w1 + 1) mod 2 ^ 64 \<and> rv_prev r = rm_hash w1
    \<and> w' = w1\<lparr>rm_known := True, rm_seq := rv_seq r, rm_hash := rv_entry r\<rparr>"
    using accept_reply_Inr [of rs lib rec data "w1\<lparr>rm_known := False\<rparr>" w' r] t assms(2) by auto
  then show ?thesis using k by auto
qed

text \<open>Calls one after the other, each with its record and whatever the network answers.\<close>

fun run_calls :: "receiptspec \<Rightarrow> client_lib \<Rightarrow> remote \<Rightarrow> (decision_record \<times> call_env) list \<Rightarrow> receipt err list" where
  "run_calls rs lib w [] = []"
| "run_calls rs lib w ((rec, env) # cs) =
     (case Append rs lib rec env w of (_, w', res) \<Rightarrow> res # run_calls rs lib w' cs)"

definition extends :: "receipt \<Rightarrow> receipt \<Rightarrow> bool" where
  "extends a b \<longleftrightarrow> rv_seq b = (rv_seq a + 1) mod 2 ^ 64 \<and> rv_prev b = rv_entry a"

lemma run_calls_ok:
  assumes "rm_trusted w \<noteq> []"
  shows "(\<forall>i<length cs. \<forall>r. run_calls rs lib w cs ! i = Inr r \<longrightarrow> binds_to rs lib (fst (cs ! i)) r \<and> pinned lib (rm_trusted w) r)
    \<and> (\<forall>i a b. Suc i < length cs \<and> run_calls rs lib w cs ! i = Inr a \<and> run_calls rs lib w cs ! Suc i = Inr b \<longrightarrow> extends a b)
    \<and> (\<forall>b. rm_known w \<and> cs \<noteq> [] \<and> run_calls rs lib w cs ! 0 = Inr b
         \<longrightarrow> rv_seq b = (rm_seq w + 1) mod 2 ^ 64 \<and> rv_prev b = rm_hash w)"
  using assms
proof (induction cs arbitrary: w)
  case (Cons c cs)
  obtain rec env where c: "c = (rec, env)" by (rule prod.exhaust)
  obtain rq w' res where a: "Append rs lib rec env w = (rq, w', res)" by (rule prod_cases3)
  have t: "rm_trusted w' = rm_trusted w" using Append_keeps [OF a] .
  note IH = Cons.IH [of w', unfolded t, OF Cons.prems]
  have r: "run_calls rs lib w (c # cs) = res # run_calls rs lib w' cs" using c a by simp
  have h: "binds_to rs lib rec x \<and> pinned lib (rm_trusted w) x \<and> rm_known w' \<and> rm_seq w' = rv_seq x \<and> rm_hash w' = rv_entry x
    \<and> (rm_known w \<longrightarrow> rv_seq x = (rm_seq w + 1) mod 2 ^ 64 \<and> rv_prev x = rm_hash w)" if "res = Inr x" for x
    using Append_Inr [OF a [unfolded that] Cons.prems] .
  note IH1 = IH [THEN conjunct1, rule_format] and IH2 = IH [THEN conjunct2, THEN conjunct1, rule_format]
    and IH3 = IH [THEN conjunct2, THEN conjunct2, rule_format]
  have "extends a b" if n: "Suc i < length (c # cs)" "(res # run_calls rs lib w' cs) ! i = Inr a"
    "(res # run_calls rs lib w' cs) ! Suc i = Inr b" for i a b
  proof (cases i)
    case 0
    then have a: "res = Inr a" and b: "run_calls rs lib w' cs ! 0 = Inr b" "cs \<noteq> []" using n by auto
    then show ?thesis using h [OF a] IH3 [of b] by (simp add: extends_def)
  next
    case (Suc j)
    then show ?thesis using IH2 [of j a b] n by simp
  qed
  moreover have "binds_to rs lib (fst ((c # cs) ! i)) x \<and> pinned lib (rm_trusted w) x"
    if n: "i < length (c # cs)" "(res # run_calls rs lib w' cs) ! i = Inr x" for i x
  proof (cases i)
    case 0
    then show ?thesis using n h [of x] c by simp
  next
    case (Suc j)
    then show ?thesis using n IH1 [of j x] by simp
  qed
  moreover have "rv_seq b = (rm_seq w + 1) mod 2 ^ 64 \<and> rv_prev b = rm_hash w"
    if "rm_known w" "(res # run_calls rs lib w' cs) ! 0 = Inr b" for b
    using that h [of b] by simp
  ultimately show ?case unfolding r by blast
qed simp

section \<open>The client against the service\<close>

text \<open>What the receipt library documents: its lines are JSON objects that read back, a receipt it made verifies under
  the key of its signer, and a receipt whose fields are those of a record binds to the canonical record.\<close>

definition service_laws :: "receiptspec \<Rightarrow> receipt_lib \<Rightarrow> client_lib \<Rightarrow> string \<Rightarrow> string \<Rightarrow> bool" where
  "service_laws rs lib cl priv public \<longleftrightarrow> chain_laws rs lib
     \<and> (\<forall>r l. rl_line lib r = Inr l \<longrightarrow> (\<exists>v. wf_json v \<and> parse_json l = Some v \<and> cl_parse cl v = Inr r))
     \<and> (\<forall>q h f r. rl_next lib priv q h f = Inr r \<longrightarrow> cl_verify cl r public = None \<and> length (rv_entry r) = 32)
     \<and> (\<forall>rec r c. Fields rs rec = Inr (rv_fields r) \<and> rs_canonical rs (record_json rec) = Inr c \<longrightarrow> cl_binds cl r c = None)"

text \<open>The answers of the service to the two requests of a call.\<close>

definition served :: "receiptspec \<Rightarrow> receipt_lib \<Rightarrow> (receipt \<Rightarrow> json option \<Rightarrow> string option) \<Rightarrow> (server \<Rightarrow> reply)
    \<Rightarrow> io \<Rightarrow> io \<Rightarrow> string \<Rightarrow> decision_record \<Rightarrow> server \<Rightarrow> call_env" where
  "served rs lib binding export i1 i2 tok rec s =
     (let ask = (\<lambda>m p b. snd (serve rs lib binding export BadJSON i1 i2 None None
                  \<lparr>rq_method = m, rq_path = p, rq_auth = ''Bearer '' @ tok, rq_body = b\<rparr> s));
          ans = (\<lambda>rp. Answer (fst rp) (snd rp))
      in \<lparr>ce_head_token = Inr tok, ce_head = ans (ask ''GET'' ''/v1/head'' []), ce_post_token = Inr tok,
          ce_post = ans (ask ''POST'' ''/v1/records'' (enc_json (record_json rec)))\<rparr>)"

lemma authorized_token: "sv_token s = sha256 tok \<Longrightarrow> authorized s (''Bearer '' @ tok)"
  by (simp add: authorized_def has_prefix_def)

lemma served_answers:
  assumes "sv_token s = sha256 tok"
  shows "ce_head (served rs lib binding export i1 i2 tok rec s) = Answer (fst (head_handler s)) (snd (head_handler s))"
    "ce_post (served rs lib binding export i1 i2 tok rec s)
       = (let rp = snd (postRecord rs lib BadJSON i1 i2 (enc_json (record_json rec)) s) in Answer (fst rp) (snd rp))"
    "ce_head_token (served rs lib binding export i1 i2 tok rec s) = Inr tok"
    "ce_post_token (served rs lib binding export i1 i2 tok rec s) = Inr tok"
  using authorized_token [OF assms]
  by (simp_all add: served_def serve_def Let_def del: append_Cons)

lemma head_decodes:
  assumes "0 \<le> w_seq (sv_writer s)" "w_seq (sv_writer s) < 2 ^ 64" "valid_utf8 (w_kid (sv_writer s))"
  shows "fst (head_handler s) = 200 \<and> decode_head (snd (head_handler s)) = Some \<lparr>hd_seq = w_seq (sv_writer s),
      hd_hash = hex (w_head (sv_writer s)), hd_kid = w_kid (sv_writer s)\<rparr>"
proof -
  let ?j = "JObj [(''seq'', jint (w_seq (sv_writer s))), (''entry_hash'', JStr (hex (w_head (sv_writer s)))),
      (''signer_kid'', JStr (w_kid (sv_writer s)))]"
  have "number_text (itoa (w_seq (sv_writer s)))" using itoa_shape number_shape_text by blast
  moreover have "valid_utf8 (hex (w_head (sv_writer s)))" using hex_ascii by (intro valid_utf8_ascii) blast
  ultimately have "wf_json ?j" using assms(3) by (auto simp: jint_def intro!: valid_utf8_ascii)
  then have "parse_json (enc_json ?j @ [lf]) = Some ?j" by (rule parse_enc_json_line)
  moreover have "dec_uint (jint (w_seq (sv_writer s))) v = Some (w_seq (sv_writer s))" for v
    using assms(1,2) by (rule dec_uint_jint)
  ultimately show ?thesis
    by (simp add: head_handler_def Head_def writeJSON_def decode_head_def head_fields_def dec_members_field del: enc_json.simps)
qed

lemma local_Append_Inr:
  assumes "ReceiptLog.Append rs lib i1 i2 rec w dk = (w', dk', Inr r)"
  shows "\<exists>c f l. rs_canonical rs (record_json rec) = Inr c \<and> Fields rs rec = Inr f
    \<and> rl_next lib (w_priv w) (w_seq w) (w_head w) f = Inr r \<and> rl_line lib r = Inr l
    \<and> w' = w\<lparr>w_seq := rv_seq r, w_head := rv_entry r\<rparr>"
  using assms
  by (auto simp: ReceiptLog.Append_def store_lines_def Let_def split: sum.splits if_splits prod.splits)

lemma decode_body_enc:
  assumes "wf_json j" "length (enc_json j) \<le> most" "dec j = Some x"
  shows "decode_body most over dec (enc_json j) = Inr x"
proof -
  have "parse_json (enc_json j) = Some j" using assms(1) by (rule parse_enc_json)
  then obtain t where "parse_value (json_fuel (enc_json j)) (enc_json j) = Some (j, t)" "skip_ws t = []"
    by (auto simp: parse_json_def split: option.splits prod.splits if_splits)
  then show ?thesis using assms(2,3) by (simp add: decode_body_def)
qed

lemma decode_sendable:
  assumes "wf_record rec" "wf_json (record_json rec)" "length (enc_json (record_json rec)) \<le> MaxRecordBody"
  shows "decode_body MaxRecordBody over (decode_record True) (enc_json (record_json rec)) = Inr rec"
  using assms by (intro decode_body_enc decode_record_json)

lemma post_succeeds:
  assumes "service_laws rs lib cl priv pub" "wf_record rec" "wf_json (record_json rec)" "dr_schema rec = Receipts.SchemaVersion"
    "length (enc_json (record_json rec)) \<le> MaxRecordBody"
    "ReceiptLog.Append rs lib i1 i2 rec (sv_writer s) (sv_disk s) = (w', dk', Inr r)"
  obtains v where "postRecord rs lib over i1 i2 (enc_json (record_json rec)) s
      = (s\<lparr>sv_writer := w', sv_disk := dk'\<rparr>, 200, enc_json (JObj [(''receipt'', v)]) @ [lf])"
    "wf_json v" "cl_parse cl v = Inr r"
proof -
  obtain c f l where a: "Fields rs rec = Inr f" "rl_line lib r = Inr l"
    using local_Append_Inr [OF assms(6)] by blast
  obtain v where v: "wf_json v" "parse_json l = Some v" "cl_parse cl v = Inr r"
    using assms(1) a(2) unfolding service_laws_def by blast
  note dec = decode_sendable [OF assms(2,3,5)]
  have "postRecord rs lib over i1 i2 (enc_json (record_json rec)) s
      = (s\<lparr>sv_writer := w', sv_disk := dk'\<rparr>, 200, enc_json (JObj [(''receipt'', v)]) @ [lf])"
    using dec assms(4,6) a v by (simp add: postRecord_def writeJSON_def)
  with v that show thesis by blast
qed

lemma post_fails:
  assumes "wf_record rec" "wf_json (record_json rec)" "dr_schema rec = Receipts.SchemaVersion"
    "length (enc_json (record_json rec)) \<le> MaxRecordBody"
    "ReceiptLog.Append rs lib i1 i2 rec (sv_writer s) (sv_disk s) = (w', dk', Inl e)"
  shows "fst (snd (postRecord rs lib over i1 i2 (enc_json (record_json rec)) s)) \<noteq> 200"
  using decode_sendable [OF assms(1,2,4)] assms(3,5) by (simp add: postRecord_def writeError_def split: sum.splits)

lemma reply_reads:
  assumes "wf_json v" "cl_parse cl v = Inr r"
  shows "reply_receipt cl (enc_json (JObj [(''receipt'', v)]) @ [lf]) = Inr r"
proof -
  have "wf_json (JObj [(''receipt'', v)])" using assms(1) by (auto intro!: valid_utf8_ascii)
  then have "parse_json (enc_json (JObj [(''receipt'', v)]) @ [lf]) = Some (JObj [(''receipt'', v)])"
    by (rule parse_enc_json_line)
  then show ?thesis using assms(2) by (simp add: reply_receipt_def dec_members_field dec_raw_def del: enc_json.simps)
qed

text \<open>The client after the head is known: from its own last receipt or from the answer of the service.\<close>

lemma head_known:
  assumes "sv_token s = sha256 tok" "0 \<le> w_seq (sv_writer s)" "w_seq (sv_writer s) < 2 ^ 64" "valid_utf8 (w_kid (sv_writer s))"
    "length (w_head (sv_writer s)) = 32" "rm_trusted c \<noteq> []" "rm_known c \<longrightarrow> (rm_seq c, rm_hash c) = Head (sv_writer s)"
  shows "\<exists>rq. (if length (rm_trusted c) > 0 \<and> \<not> rm_known c
       then syncHead (served rs lib binding export i1 i2 tok rec s) c else ([], c, None))
     = (rq, c\<lparr>rm_seq := w_seq (sv_writer s), rm_hash := w_head (sv_writer s), rm_known := True\<rparr>, None)"
proof (cases "rm_known c")
  case True
  then have "c\<lparr>rm_seq := w_seq (sv_writer s), rm_hash := w_head (sv_writer s), rm_known := True\<rparr> = c"
    using assms(7) by (cases c) (simp add: Head_def)
  then show ?thesis using True by simp
next
  case False
  then show ?thesis
    using assms(5,6) head_decodes [OF assms(2-4)] served_answers [OF assms(1), of rs lib binding export i1 i2 rec]
    by (simp add: syncHead_def do_request_def unhex_hex)
qed

lemma remote_append:
  assumes laws: "service_laws rs lib cl (w_priv (sv_writer s)) (ky_public k)"
    and client: "rm_trusted c = [k]" "ky_kid k = rl_kid lib (w_priv (sv_writer s))" "ky_from k \<le> w_seq (sv_writer s) + 1"
      "ky_until k = None" "rm_known c \<longrightarrow> (rm_seq c, rm_hash c) = Head (sv_writer s)"
    and server: "sv_token s = sha256 tok" "0 \<le> w_seq (sv_writer s)" "w_seq (sv_writer s) < 2 ^ 64"
      "valid_utf8 (w_kid (sv_writer s))" "length (w_head (sv_writer s)) = 32"
    and rec: "wf_record rec" "wf_json (record_json rec)" "dr_schema rec = Receipts.SchemaVersion"
      "length (enc_json (record_json rec)) \<le> MaxRecordBody"
    and app: "ReceiptLog.Append rs lib i1 i2 rec (sv_writer s) (sv_disk s) = (w', dk', res)"
    and rem: "Append rs cl rec (served rs lib binding export i1 i2 tok rec s) c = (rq, c', res')"
  shows "case res of Inr r \<Rightarrow> res' = Inr r \<and> rm_known c' \<and> (rm_seq c', rm_hash c') = Head w' \<and> rm_trusted c' = [k]
      | Inl e \<Rightarrow> isl res' \<and> \<not> rm_known c'"
proof -
  let ?env = "served rs lib binding export i1 i2 tok rec s"
  let ?c1 = "c\<lparr>rm_seq := w_seq (sv_writer s), rm_hash := w_head (sv_writer s), rm_known := False\<rparr>"
  have ne: "rm_trusted c \<noteq> []" using client(1) by simp
  obtain rq1 where h: "(if length (rm_trusted c) > 0 \<and> \<not> rm_known c then syncHead ?env c else ([], c, None))
     = (rq1, c\<lparr>rm_seq := w_seq (sv_writer s), rm_hash := w_head (sv_writer s), rm_known := True\<rparr>, None)"
    using head_known [OF server ne client(5), of rs lib binding export i1 i2 rec] by (elim exE) (rule that)
  let ?rp = "snd (postRecord rs lib BadJSON i1 i2 (enc_json (record_json rec)) s)"
  have p: "ce_post ?env = Answer (fst ?rp) (snd ?rp)" "ce_post_token ?env = Inr tok"
    using served_answers [OF server(1)] by (simp_all add: Let_def)
  show ?thesis
  proof (cases res)
    case (Inl e)
    have "fst ?rp \<noteq> 200" using post_fails [OF rec app [unfolded Inl]] .
    then have "isl res' \<and> c' = ?c1"
      using rem h p client(1) by (auto simp: Append_def do_request_def Let_def)
    then show ?thesis using Inl by simp
  next
    case (Inr r)
    obtain v where v: "?rp = (200, enc_json (JObj [(''receipt'', v)]) @ [lf])" "wf_json v" "cl_parse cl v = Inr r"
      using post_succeeds [OF laws rec app [unfolded Inr]] by (metis snd_conv)
    obtain cn f l where a: "rs_canonical rs (record_json rec) = Inr cn" "Fields rs rec = Inr f"
      "rl_next lib (w_priv (sv_writer s)) (w_seq (sv_writer s)) (w_head (sv_writer s)) f = Inr r"
      "w' = (sv_writer s)\<lparr>w_seq := rv_seq r, w_head := rv_entry r\<rparr>"
      using local_Append_Inr [OF app [unfolded Inr]] by blast
    have n: "rv_seq r = w_seq (sv_writer s) + 1" "rv_seq r < 2 ^ 64" "rv_prev r = w_head (sv_writer s)"
      "rv_kid r = ky_kid k" "rv_fields r = f"
    proof -
      have "chain_laws rs lib" using laws unfolding service_laws_def by blast
      then have "rv_seq r = w_seq (sv_writer s) + 1 \<and> rv_seq r < 2 ^ 64 \<and> rv_prev r = w_head (sv_writer s)
          \<and> rv_kid r = rl_kid lib (w_priv (sv_writer s)) \<and> rv_fields r = f"
        using a(3) unfolding chain_laws_def by blast
      then show "rv_seq r = w_seq (sv_writer s) + 1" "rv_seq r < 2 ^ 64" "rv_prev r = w_head (sv_writer s)"
        "rv_kid r = ky_kid k" "rv_fields r = f" using client(2) by auto
    qed
    have b: "cl_binds cl r cn = None" "cl_verify cl r (ky_public k) = None"
      using laws a n(5) by (auto simp: service_laws_def)
    have "accept_reply rs cl rec (enc_json (JObj [(''receipt'', v)]) @ [lf]) ?c1
        = (?c1\<lparr>rm_seq := rv_seq r, rm_hash := rv_entry r, rm_known := True\<rparr>, Inr r)"
      using reply_reads [OF v(2,3)] a(1) b n client server(2) by (simp add: accept_reply_def del: enc_json.simps)
    then have "c' = ?c1\<lparr>rm_seq := rv_seq r, rm_hash := rv_entry r, rm_known := True\<rparr>" "res' = Inr r"
      using rem h p v(1) client(1) by (auto simp: Append_def do_request_def Let_def simp del: enc_json.simps)
    then show ?thesis using Inr a(4) client(1) by (simp add: Head_def)
  qed
qed

section \<open>Sequences of appends\<close>

text \<open>A client that pins the key of the writer, and a writer that has a head of 32 bytes.\<close>

definition paired :: "receipt_lib \<Rightarrow> string \<Rightarrow> trusted_key \<Rightarrow> remote \<Rightarrow> server \<Rightarrow> bool" where
  "paired lib tok k c s \<longleftrightarrow> rm_trusted c = [k] \<and> ky_kid k = rl_kid lib (w_priv (sv_writer s))
     \<and> ky_from k \<le> w_seq (sv_writer s) + 1 \<and> ky_until k = None
     \<and> (rm_known c \<longrightarrow> (rm_seq c, rm_hash c) = Head (sv_writer s))
     \<and> sv_token s = sha256 tok \<and> 0 \<le> w_seq (sv_writer s) \<and> w_seq (sv_writer s) < 2 ^ 64
     \<and> valid_utf8 (w_kid (sv_writer s)) \<and> length (w_head (sv_writer s)) = 32"

definition sendable :: "decision_record \<Rightarrow> bool" where
  "sendable rec \<longleftrightarrow> wf_record rec \<and> wf_json (record_json rec) \<and> dr_schema rec = Receipts.SchemaVersion
     \<and> length (enc_json (record_json rec)) \<le> MaxRecordBody"

text \<open>The same records appended by the client over the service and by the writer itself.\<close>

fun remote_run :: "receiptspec \<Rightarrow> receipt_lib \<Rightarrow> client_lib \<Rightarrow> (receipt \<Rightarrow> json option \<Rightarrow> string option)
    \<Rightarrow> (server \<Rightarrow> reply) \<Rightarrow> string \<Rightarrow> remote \<Rightarrow> server \<Rightarrow> (decision_record \<times> io \<times> io) list
    \<Rightarrow> receipt option list" where
  "remote_run rs lib cl binding export tok c s [] = []"
| "remote_run rs lib cl binding export tok c s ((rec, i1, i2) # cs) =
     (let (_, c', res) = Append rs cl rec (served rs lib binding export i1 i2 tok rec s) c;
          s' = fst (postRecord rs lib BadJSON i1 i2 (enc_json (record_json rec)) s)
      in (case res of Inl _ \<Rightarrow> None | Inr r \<Rightarrow> Some r) # remote_run rs lib cl binding export tok c' s' cs)"

fun local_run :: "receiptspec \<Rightarrow> receipt_lib \<Rightarrow> writer \<Rightarrow> disk \<Rightarrow> (decision_record \<times> io \<times> io) list \<Rightarrow> receipt option list" where
  "local_run rs lib w dk [] = []"
| "local_run rs lib w dk ((rec, i1, i2) # cs) =
     (let (w', dk', res) = ReceiptLog.Append rs lib i1 i2 rec w dk
      in (case res of Inl _ \<Rightarrow> None | Inr r \<Rightarrow> Some r) # local_run rs lib w' dk' cs)"

lemma local_Append_writer:
  assumes "ReceiptLog.Append rs lib i1 i2 rec w dk = (w', dk', res)"
  shows "w_priv w' = w_priv w \<and> w_kid w' = w_kid w \<and> (Head w' = Head w
    \<or> (\<exists>f r. rl_next lib (w_priv w) (w_seq w) (w_head w) f = Inr r \<and> Head w' = (rv_seq r, rv_entry r)))"
proof (cases "\<exists>f r. rl_next lib (w_priv w) (w_seq w) (w_head w) f = Inr r \<and> w_seq w' = rv_seq r \<and> w_head w' = rv_entry r
    \<and> w_priv w' = w_priv w \<and> w_kid w' = w_kid w")
  case True
  then show ?thesis by (auto simp: Head_def)
next
  case False
  have "w' = w"
  proof (rule ccontr)
    assume "w' \<noteq> w"
    then obtain f r where "rl_next lib (w_priv w) (w_seq w) (w_head w) f = Inr r"
      "w' = w\<lparr>w_seq := rv_seq r, w_head := rv_entry r\<rparr>
        \<or> w' = w\<lparr>w_seq := rv_seq r, w_head := rv_entry r, w_broken := True\<rparr>"
      using assms by (auto simp: ReceiptLog.Append_def Let_def split: sum.splits if_splits prod.splits
          dest!: sym [of "Inr _" "rl_next _ _ _ _ _"])
    then have "\<exists>f r. rl_next lib (w_priv w) (w_seq w) (w_head w) f = Inr r \<and> w_seq w' = rv_seq r
        \<and> w_head w' = rv_entry r \<and> w_priv w' = w_priv w \<and> w_kid w' = w_kid w"
      by (intro exI [of _ f] exI [of _ r]) auto
    with False show False by blast
  qed
  then show ?thesis by simp
qed

lemma post_state:
  assumes "sendable rec" "ReceiptLog.Append rs lib i1 i2 rec (sv_writer s) (sv_disk s) = (w', dk', res)"
    "\<exists>f. Fields rs rec = Inr f"
  shows "fst (postRecord rs lib over i1 i2 (enc_json (record_json rec)) s) = s\<lparr>sv_writer := w', sv_disk := dk'\<rparr>"
proof -
  have "decode_body MaxRecordBody over (decode_record True) (enc_json (record_json rec)) = Inr rec"
    using assms(1) decode_sendable by (simp add: sendable_def)
  then show ?thesis using assms
    by (auto simp: postRecord_def sendable_def Let_def split: sum.splits option.splits)
qed

lemma post_rejected:
  assumes "sendable rec" "Fields rs rec = Inl e"
  shows "fst (postRecord rs lib over i1 i2 (enc_json (record_json rec)) s) = s
    \<and> (\<exists>e'. ReceiptLog.Append rs lib i1 i2 rec (sv_writer s) (sv_disk s) = (sv_writer s, sv_disk s, Inl e'))"
proof -
  have "decode_body MaxRecordBody over (decode_record True) (enc_json (record_json rec)) = Inr rec"
    using assms(1) decode_sendable by (simp add: sendable_def)
  then show ?thesis using assms
    by (auto simp: postRecord_def sendable_def ReceiptLog.Append_def split: sum.splits)
qed

lemma post_server:
  assumes "sendable rec" "ReceiptLog.Append rs lib i1 i2 rec (sv_writer s) (sv_disk s) = (w', dk', res)"
  shows "fst (postRecord rs lib over i1 i2 (enc_json (record_json rec)) s) = s\<lparr>sv_writer := w', sv_disk := dk'\<rparr>"
proof (cases "Fields rs rec")
  case (Inl e)
  note rej = post_rejected [OF assms(1) Inl]
  have "\<exists>e'. ReceiptLog.Append rs lib i1 i2 rec (sv_writer s) (sv_disk s) = (sv_writer s, sv_disk s, Inl e')"
    using rej by blast
  then have "w' = sv_writer s" "dk' = sv_disk s" using assms(2) by auto
  then show ?thesis by (simp add: rej)
next
  case (Inr f)
  then show ?thesis using post_state [OF assms] by blast
qed

lemma paired_step:
  assumes "paired lib tok k c s" "service_laws rs lib cl (w_priv (sv_writer s)) (ky_public k)" "sendable rec"
    "ReceiptLog.Append rs lib i1 i2 rec (sv_writer s) (sv_disk s) = (w', dk', res)"
    "Append rs cl rec (served rs lib binding export i1 i2 tok rec s) c = (rq, c', res')"
  shows "(case res' of Inl _ \<Rightarrow> None | Inr r \<Rightarrow> Some r) = (case res of Inl _ \<Rightarrow> None | Inr r \<Rightarrow> Some r)
    \<and> paired lib tok k c' (s\<lparr>sv_writer := w', sv_disk := dk'\<rparr>) \<and> w_priv w' = w_priv (sv_writer s)"
proof -
  have step: "case res of Inr r \<Rightarrow> res' = Inr r \<and> rm_known c' \<and> (rm_seq c', rm_hash c') = Head w' \<and> rm_trusted c' = [k]
      | Inl e \<Rightarrow> isl res' \<and> \<not> rm_known c'"
    using assms(1-3) unfolding paired_def sendable_def by (intro remote_append [OF _ _ _ _ _ _ _ _ _ _ _ _ _ _ _ assms(4,5)]) auto
  have t: "rm_trusted c' = [k]" using Append_keeps [OF assms(5)] assms(1) by (simp add: paired_def)
  have w: "w_priv w' = w_priv (sv_writer s)" "w_kid w' = w_kid (sv_writer s)" "Head w' = Head (sv_writer s)
    \<or> (\<exists>f r. rl_next lib (w_priv (sv_writer s)) (w_seq (sv_writer s)) (w_head (sv_writer s)) f = Inr r
         \<and> Head w' = (rv_seq r, rv_entry r))"
    using local_Append_writer [OF assms(4)] by blast+
  have "0 \<le> w_seq w' \<and> w_seq (sv_writer s) \<le> w_seq w' \<and> w_seq w' < 2 ^ 64 \<and> length (w_head w') = 32"
    using w(3)
  proof (elim disjE exE conjE)
    assume "Head w' = Head (sv_writer s)"
    then show ?thesis using assms(1) by (simp add: Head_def paired_def)
  next
    fix f r assume n: "rl_next lib (w_priv (sv_writer s)) (w_seq (sv_writer s)) (w_head (sv_writer s)) f = Inr r"
      "Head w' = (rv_seq r, rv_entry r)"
    have "chain_laws rs lib" "length (rv_entry r) = 32" using assms(2) n(1) unfolding service_laws_def by blast+
    then have "rv_seq r = w_seq (sv_writer s) + 1 \<and> rv_seq r < 2 ^ 64 \<and> length (rv_entry r) = 32"
      using n(1) unfolding chain_laws_def by blast
    moreover have "0 \<le> w_seq (sv_writer s)" using assms(1) by (simp add: paired_def)
    ultimately show ?thesis using n(2) by (simp add: Head_def)
  qed
  then show ?thesis
    using step t w(1,2) assms(1) by (cases res; cases res') (auto simp: paired_def)
qed

text \<open>C24: the remote writer refines the local one. Let a client that pins the key of a writer send any
  records over the service of that writer, with any disk failures on the way. The receipts it accepts are, call by call,
  the ones the writer makes when the same records are appended to it directly with the same failures; where the direct append
  fails, so does the call, and the client finds the head of the chain again on the next one.\<close>

theorem remote_refines_local:
  assumes "paired lib tok k c s" "service_laws rs lib cl (w_priv (sv_writer s)) (ky_public k)"
    "\<forall>x\<in>set calls. sendable (fst x)"
  shows "remote_run rs lib cl binding export tok c s calls = local_run rs lib (sv_writer s) (sv_disk s) calls"
  using assms
proof (induction calls arbitrary: c s)
  case (Cons x calls)
  obtain rec i1 i2 where x: "x = (rec, i1, i2)" by (rule prod_cases3)
  obtain w' dk' res where l: "ReceiptLog.Append rs lib i1 i2 rec (sv_writer s) (sv_disk s) = (w', dk', res)"
    by (rule prod_cases3)
  obtain rq c' res' where r: "Append rs cl rec (served rs lib binding export i1 i2 tok rec s) c = (rq, c', res')"
    by (rule prod_cases3)
  have send: "sendable rec" using Cons.prems(3) x by simp
  let ?s = "s\<lparr>sv_writer := w', sv_disk := dk'\<rparr>"
  note step = paired_step [OF Cons.prems(1,2) send l r]
  have "remote_run rs lib cl binding export tok c' ?s calls = local_run rs lib w' dk' calls"
    using Cons.IH [of c' ?s] step Cons.prems(2,3) by simp
  then show ?case using step l r post_server [OF send l] x by simp
qed simp

text \<open>C23: what a pinned client accepts over any network. Whatever the answers to its requests are, each receipt
  that Append accepts binds to the record of its own call and is signed under a pinned key
  inside its window, two calls in a row that succeed have consecutive receipts of one hash chain, and the first
  extends the head the client started from when it had one.\<close>

theorem accepted_receipts_chain:
  assumes "rm_trusted w \<noteq> []"
  shows "(\<forall>i<length cs. \<forall>r. run_calls rs lib w cs ! i = Inr r
      \<longrightarrow> binds_to rs lib (fst (cs ! i)) r \<and> pinned lib (rm_trusted w) r)
    \<and> (\<forall>i a b. Suc i < length cs \<and> run_calls rs lib w cs ! i = Inr a \<and> run_calls rs lib w cs ! Suc i = Inr b
      \<longrightarrow> extends a b)
    \<and> (\<forall>b. rm_known w \<and> cs \<noteq> [] \<and> run_calls rs lib w cs ! 0 = Inr b
         \<longrightarrow> rv_seq b = (rm_seq w + 1) mod 2 ^ 64 \<and> rv_prev b = rm_hash w)"
  using assms by (rule run_calls_ok)

lemma bind_errE: "bind_err m f = Inr y \<Longrightarrow> (\<And>x. m = Inr x \<Longrightarrow> f x = Inr y \<Longrightarrow> P) \<Longrightarrow> P"
  by (cases m) (auto simp: bind_err_def)

lemma ConfigFromEnv_Inr:
  assumes "ConfigFromEnv duration read_file load getenv = Inr c"
  shows "envBool getenv ''RECEIPTS_REQUIRED'' = Inr (rf_required c)
    \<and> (\<exists>en. envBool getenv ''RECEIPTS_ENABLED'' = Inr en \<and> rf_enabled c = (en \<or> rf_required c))
    \<and> envBool getenv ''RECEIPTS_INSECURE_NO_PIN'' = Inr (rf_insecure c)
    \<and> (rf_keys c = [] \<or> (\<exists>d. read_file (trim_space (getenv ''RECEIPTS_WRITER_TRUST_FILE'')) = Inr d \<and> load d = Inr (rf_keys c)))"
  using assms unfolding ConfigFromEnv_def Let_def
  by (elim bind_errE, simp split: if_splits sum.splits) auto

lemma NewWriter_Inr:
  assumes "NewWriter scheme c = Inr w"
  shows "case w of None \<Rightarrow> \<not> rf_enabled c
    | Some rw \<Rightarrow> (rm_trusted rw \<noteq> [] \<and> \<not> rm_insecure rw \<and> rm_trusted rw = rf_keys c) \<or> (rm_insecure rw \<and> rf_insecure c)"
  using assms
  by (auto simp: NewWriter_def NewRemoteWriter_def Pin_def AllowUnpinned_def bind_err_def
      split: sum.splits if_splits option.splits)

text \<open>No unpinned writer by configuration. A writer that the environment configures is disabled unless RECEIPTS_ENABLED
  or RECEIPTS_REQUIRED is true; an enabled one either pins at least one key, read from the trust file, or was
  configured with RECEIPTS_INSECURE_NO_PIN true; a required one is never disabled.\<close>

lemma configured_writer_pinned:
  assumes "ConfigFromEnv duration read_file load getenv = Inr c" "NewWriter scheme c = Inr w"
  shows "case w of None \<Rightarrow> \<not> rf_required c \<and> envBool getenv ''RECEIPTS_ENABLED'' = Inr False
    | Some rw \<Rightarrow> (rm_trusted rw \<noteq> [] \<and> \<not> rm_insecure rw
          \<and> (\<exists>d. read_file (trim_space (getenv ''RECEIPTS_WRITER_TRUST_FILE'')) = Inr d \<and> load d = Inr (rm_trusted rw)))
        \<or> (rm_insecure rw \<and> envBool getenv ''RECEIPTS_INSECURE_NO_PIN'' = Inr True)"
  using ConfigFromEnv_Inr [OF assms(1)] NewWriter_Inr [OF assms(2)]
  by (cases w) auto

section \<open>The export over the service\<close>

lemma trust_root_wf: "valid_utf8 (ky_kid k) \<Longrightarrow> wf_json (TrustRootJSON [k])"
proof -
  assume "valid_utf8 (ky_kid k)"
  moreover have "valid_utf8 (hex (ky_public k))" using hex_ascii by (intro valid_utf8_ascii) blast
  moreover have "number_text (itoa i)" for i using itoa_shape number_shape_text by blast
  ultimately show ?thesis
    by (auto simp: TrustRootJSON_def key_json_def jint_def intro!: valid_utf8_ascii split: option.split)
qed

text \<open>The client reads the export the writer made, byte for byte.\<close>

lemma remote_export_served:
  assumes "local_export xl read1 read2 (sv_writer s) (sv_disk s) = Inr e" "valid_utf8 (w_kid (sv_writer s))"
    "valid_utf8 (xp_receipts e)" "valid_utf8 (xp_records e)"
  shows "snd (remote_export (Inr tok) (Answer (fst (export_handler xl read1 read2 s)) (snd (export_handler xl read1 read2 s)))) = Inr e"
proof -
  obtain k where k: "xp_trust e = enc_json (TrustRootJSON [k])" "ky_kid k = w_kid (sv_writer s)" "xp_format e = ExportFormat"
    using assms(1) by (auto simp: local_export_def bind_err_def Let_def split: if_splits sum.splits)
  have w: "wf_json (TrustRootJSON [k])" using trust_root_wf k(2) assms(2) by simp
  have p: "parse_json (xp_trust e) = Some (TrustRootJSON [k])" using parse_enc_json [OF w] k(1) by simp
  have "wf_json (export_json e (TrustRootJSON [k]))"
    using w assms(3,4) k(3) by (auto simp: export_json_def ExportFormat_def intro!: valid_utf8_ascii)
  then have "parse_json (enc_json (export_json e (TrustRootJSON [k])) @ [lf]) = Some (export_json e (TrustRootJSON [k]))"
    by (rule parse_enc_json_line)
  then show ?thesis
    using assms(1) p k(1,3)
    by (simp add: remote_export_def do_request_def export_handler_def writeJSON_def decode_export_def export_json_def
        export_fields_def dec_members_field dec_raw_def trust_text_def del: enc_json.simps)
qed

section \<open>Witnesses\<close>

definition svc_record :: decision_record where
  "svc_record = zero_record\<lparr>dr_schema := Receipts.SchemaVersion, dr_layer := LayerThreshold, dr_outcome := OutcomeDeny,
     dr_action := ''scale''\<rparr>"

definition svc_spec :: receiptspec where
  "svc_spec = wit_spec\<lparr>rs_canonical := \<lambda>j. Inr wit_canonical, rs_hash := \<lambda>j. Inr zero_hash\<rparr>"

definition svc_fields :: receipt_fields where
  "svc_fields = (case Fields svc_spec svc_record of Inr f \<Rightarrow> f
     | Inl e \<Rightarrow> \<lparr>fl_principal = [], fl_agent = [], fl_service = [], fl_action = [], fl_params = [],
                 fl_decision = [], fl_status = 0\<rparr>)"

definition svc_receipt :: receipt where
  "svc_receipt = \<lparr>rv_seq = 1, rv_prev = zero_hash, rv_entry = zero_hash, rv_kid = ''k'', rv_fields = svc_fields\<rparr>"

definition svc_lib :: receipt_lib where
  "svc_lib = \<lparr>rl_parse = \<lambda>l. if l = ''1'' then Inr svc_receipt else Inl ''parse'',
     rl_line = \<lambda>r. if r = svc_receipt then Inr ''1'' else Inl ''line'',
     rl_entry = \<lambda>r. Inr (rv_entry r), rl_kid = \<lambda>_. ''k'',
     rl_next = \<lambda>priv q h f. if q = 0 \<and> h = zero_hash \<and> f = svc_fields then Inr svc_receipt else Inl ''next''\<rparr>"

definition svc_client :: client_lib where
  "svc_client = \<lparr>cl_parse = \<lambda>j. if j = JNum ''1'' then Inr svc_receipt else Inl ''parse'',
     cl_binds = \<lambda>r c. if rv_fields r = svc_fields then None else if c = wit_canonical then None else Some ''other'',
     cl_verify = \<lambda>r k. if r = svc_receipt then None else Some ''signature''\<rparr>"

definition svc_key :: trusted_key where
  "svc_key = \<lparr>ky_kid = ''k'', ky_public = ''pk'', ky_from = 0, ky_until = None\<rparr>"

definition svc_remote :: remote where
  "svc_remote = \<lparr>rm_trusted = [svc_key], rm_insecure = False, rm_known = False, rm_seq = 0, rm_hash = zero_hash\<rparr>"

definition svc_server :: server where
  "svc_server = newHandler \<lparr>w_priv = ''p'', w_kid = ''k'', w_seq = 0, w_head = zero_hash, w_broken = False, w_closed = False\<rparr>
     empty_disk \<lparr>sr_file = [], sr_seqs = [], sr_ids = [], sr_broken = False\<rparr> ''secret''"

lemma svc_laws: "service_laws svc_spec svc_lib svc_client priv ''pk''"
proof -
  have "number_text (itoa 1)" using itoa_shape number_shape_text by blast
  moreover have "itoa 1 = ''1''" by code_simp
  ultimately have "number_text ''1''" by simp
  then have "wf_json (JNum ''1'')" by simp
  moreover have "length zero_hash = 32" by (simp add: zero_hash_def)
  moreover have "\<exists>j. wf_json j \<and> parse_json wit_canonical = Some j" using wit_canonical_value by blast
  moreover have "parse_json ''1'' = Some (JNum ''1'')" by code_simp
  ultimately show ?thesis
    by (auto simp: service_laws_def chain_laws_def svc_lib_def svc_client_def svc_receipt_def svc_spec_def
        intro: exI [of _ "JNum ''1''"] split: if_splits)
qed

lemma svc_paired: "paired svc_lib ''secret'' svc_key svc_remote svc_server"
  by (simp add: paired_def svc_lib_def svc_key_def svc_remote_def svc_server_def newHandler_def Head_def zero_hash_def)
    (rule valid_utf8_ascii, simp)

lemma svc_sendable: "sendable svc_record"
proof -
  have n: "number_text (itoa i)" for i using itoa_shape number_shape_text by blast
  have "wf_json (record_json svc_record)"
    by (auto simp: record_json_def svc_record_def zero_record_def zero_workload_def workload_json_def declared_json_def
        observed_json_def claimed_json_def jint_def jstrs_def opt_str_def opt_member_def n outcome_names layer_names
        intro!: valid_utf8_ascii)
  moreover have "length (enc_json (record_json svc_record)) \<le> 1000" by code_simp
  ultimately show ?thesis
    by (simp add: sendable_def svc_record_def wf_record_def zero_record_def in_int64_def Receipts.SchemaVersion_def
        MaxRecordBody_def)
qed

lemma svc_local: "local_run svc_spec svc_lib (sv_writer svc_server) (sv_disk svc_server) [(svc_record, Done, Done)] = [Some svc_receipt]"
proof -
  have o: "dr_outcome svc_record = OutcomeDeny" "dr_layer svc_record = LayerThreshold"
    by (simp_all add: svc_record_def)
  have "\<exists>f. Fields svc_spec svc_record = Inr f"
    unfolding Fields_def Let_def
    by (simp add: o bind_err_def PolicyDecision_def svc_spec_def wit_spec_def outcome_names layer_names)
  then have f: "Fields svc_spec svc_record = Inr svc_fields" by (auto simp: svc_fields_def)
  have c: "rs_canonical svc_spec (record_json svc_record) = Inr wit_canonical" by (simp add: svc_spec_def)
  have r: "record_line 1 wit_canonical = Inr (line_of 1 wit_value)" by (rule record_line_json [OF wit_canonical_value(1)])
  show ?thesis
    by (simp add: ReceiptLog.Append_def c f r svc_server_def newHandler_def svc_lib_def svc_receipt_def store_lines_def
        appendSync_def empty_disk_def)
qed

lemma remote_refines_local_witness:
  "remote_run svc_spec svc_lib svc_client (\<lambda>r j. None) (\<lambda>s. (500, [])) ''secret'' svc_remote svc_server [(svc_record, Done, Done)]
     = [Some svc_receipt]"
proof -
  have "service_laws svc_spec svc_lib svc_client (w_priv (sv_writer svc_server)) (ky_public svc_key)"
    using svc_laws by (simp add: svc_key_def)
  moreover have "\<forall>x\<in>set [(svc_record, Done, Done)]. sendable (fst x)" using svc_sendable by simp
  ultimately show ?thesis unfolding svc_local [symmetric] by (rule remote_refines_local [OF svc_paired])
qed

definition svc_env :: call_env where
  "svc_env = \<lparr>ce_head_token = Inr ''secret'', ce_head = Answer 200 ''{'', ce_post_token = Inr ''secret'',
     ce_post = Answer 200 (enc_json (JObj [(''receipt'', JNum ''1'')]))\<rparr>"

lemma accepted_receipts_chain_witness:
  "run_calls svc_spec svc_client (svc_remote\<lparr>rm_known := True\<rparr>) [(svc_record, svc_env)] = [Inr svc_receipt]
    \<and> pinned svc_client [svc_key] svc_receipt \<and> rv_prev svc_receipt = zero_hash"
proof -
  have "reply_receipt svc_client (enc_json (JObj [(''receipt'', JNum ''1'')])) = Inr svc_receipt"
    by code_simp
  then have a: "run_calls svc_spec svc_client (svc_remote\<lparr>rm_known := True\<rparr>) [(svc_record, svc_env)] = [Inr svc_receipt]"
    by (simp add: Append_def do_request_def accept_reply_def svc_env_def svc_remote_def svc_spec_def svc_client_def
        svc_key_def svc_receipt_def del: enc_json.simps)
  have "rm_trusted (svc_remote\<lparr>rm_known := True\<rparr>) \<noteq> []" by (simp add: svc_remote_def)
  note accepted_receipts_chain [OF this, of "[(svc_record, svc_env)]" svc_spec svc_client]
  then show ?thesis using a by (simp add: svc_remote_def)
qed

definition svc_getenv :: "string \<Rightarrow> string" where
  "svc_getenv k = (if k = ''RECEIPTS_REQUIRED'' then ''true''
     else if k = ''RECEIPTS_WRITER_URL'' then ''http://writer:8090''
     else if k = ''RECEIPTS_WRITER_TOKEN_FILE'' then ''/t'' else if k = ''RECEIPTS_WRITER_TRUST_FILE'' then ''/k'' else [])"

lemma configured_writer_pinned_witness:
  "\<exists>c w. ConfigFromEnv (\<lambda>_. Inl ''e'') (\<lambda>_. Inr ''d'') (\<lambda>_. Inr [svc_key]) svc_getenv = Inr c
    \<and> NewWriter (\<lambda>_. ''http'') c = Inr (Some w) \<and> (rm_trusted w \<noteq> [] \<or> rm_insecure w)"
proof -
  have h: "url_host ''http://writer:8090'' = Some ''writer:8090''" by code_simp
  have t: "trim_space ''/t'' = ''/t''" "trim_space ''/k'' = ''/k''" "trim_space ''true'' = ''true''" "trim_space [] = []"
    "trim_space ''http://writer:8090'' = ''http://writer:8090''" by code_simp+
  have "\<exists>c w. ConfigFromEnv (\<lambda>_. Inl ''e'') (\<lambda>_. Inr ''d'') (\<lambda>_. Inr [svc_key]) svc_getenv = Inr c
    \<and> NewWriter (\<lambda>_. ''http'') c = Inr (Some w)"
    by (simp add: ConfigFromEnv_def NewWriter_def NewRemoteWriter_def Pin_def bind_err_def envBool_def svc_getenv_def t h
        parse_bool_def)
  then obtain c w where "ConfigFromEnv (\<lambda>_. Inl ''e'') (\<lambda>_. Inr ''d'') (\<lambda>_. Inr [svc_key]) svc_getenv = Inr c"
    "NewWriter (\<lambda>_. ''http'') c = Inr (Some w)" by blast
  with configured_writer_pinned [OF this] show ?thesis by auto
qed

end
