(* ===== verification/DecisionView.thy ===== *)
theory DecisionView
  imports ReceiptExport
begin

text \<open>
  The views of the decision dashboard: pkg/decisionview, and the filter, the status texts and the source configuration of
  cmd/agentctl-web/decisions.go. A view is built from an export and the result of its verification (ReceiptExport); the
  time of a receipt, which the model of receipts leaves to the library, is an argument. The numbers of the chain
  result that are copied for display only (head, counts, failing position) are left out, as are templates and HTTP.
\<close>

section \<open>Verification\<close>

datatype status = StatusVerified | StatusPartial | StatusConsistent | StatusFailed

record verification =
  vf_authenticated :: bool
  vf_chain_ok :: bool
  vf_manifest :: bool
  vf_complete :: bool
  vf_bound :: nat
  vf_failures :: "record_failure list"
  vf_error :: string

definition zero_verification :: verification where
  "zero_verification = \<lparr>vf_authenticated = False, vf_chain_ok = False, vf_manifest = False, vf_complete = False,
     vf_bound = 0, vf_failures = [], vf_error = ''''\<rparr>"

definition Status :: "verification \<Rightarrow> status" where
  "Status v =
     (if vf_error v \<noteq> '''' \<or> \<not> vf_chain_ok v \<or> length (vf_failures v) > 0 then StatusFailed
      else if \<not> vf_authenticated v then StatusConsistent
      else if vf_complete v then StatusVerified
      else StatusPartial)"

section \<open>Rows\<close>

record row =
  ro_seq :: int
  ro_time :: int
  ro_namespace :: string
  ro_workload :: string
  ro_action :: string
  ro_layer :: string
  ro_outcome :: string
  ro_reasons :: "string list"
  ro_human :: string
  ro_held :: bool

record summary =
  sm_total :: nat
  sm_by_outcome :: "string \<Rightarrow> nat"
  sm_by_layer :: "string \<Rightarrow> nat"
  sm_held :: nat
  sm_human :: nat
  sm_modes :: "string list"

record detail =
  de_row :: row
  de_record :: decision_record
  de_prev :: string
  de_entry :: string
  de_kid :: string

record view =
  vw_rows :: "row list"
  vw_summary :: summary
  vw_verification :: verification
  vw_loaded :: int
  vw_err :: string
  vw_details :: "int \<rightharpoonup> detail"

definition zero_summary :: summary where
  "zero_summary = \<lparr>sm_total = 0, sm_by_outcome = (\<lambda>_. 0), sm_by_layer = (\<lambda>_. 0), sm_held = 0, sm_human = 0, sm_modes = []\<rparr>"

definition empty_view :: "int \<Rightarrow> view" where
  "empty_view now = \<lparr>vw_rows = [], vw_summary = zero_summary, vw_verification = zero_verification, vw_loaded = now,
     vw_err = '''', vw_details = Map.empty\<rparr>"

definition Detail :: "view \<Rightarrow> int \<Rightarrow> detail option" where
  "Detail v q = vw_details v q"

fun first_seen :: "string list \<Rightarrow> string list \<Rightarrow> string list" where
  "first_seen seen [] = []"
| "first_seen seen (x # xs) = (if x \<in> set seen then first_seen seen xs else x # first_seen (x # seen) xs)"

definition reasonCodes :: "decision_record \<Rightarrow> string list" where
  "reasonCodes rec = sort (first_seen [] (map rn_rule (dr_reasons rec)))"

text \<open>The records by their number; a line that does not decode is skipped, and of two with one number the last counts.\<close>

fun view_records :: "string list \<Rightarrow> (int \<rightharpoonup> decision_record) \<Rightarrow> (int \<rightharpoonup> decision_record)" where
  "view_records [] m = m"
| "view_records (l # ls) m =
     (let line = trim_space l in
      if line = [] then view_records ls m
      else case decode_entry line of
          None \<Rightarrow> view_records ls m
        | Some e \<Rightarrow> (case Option.bind (re_record e) (decode_record False) of
              None \<Rightarrow> view_records ls m
            | Some rec \<Rightarrow> view_records ls (m(re_seq e \<mapsto> rec))))"

definition answered :: "(int \<rightharpoonup> decision_record) \<Rightarrow> int \<Rightarrow> bool" where
  "answered recs q \<longleftrightarrow> (\<exists>rec\<in>ran recs. \<exists>a. dr_approval rec = Some a \<and> ab_original_seq a = q)"

definition view_row :: "(receipt \<Rightarrow> int) \<Rightarrow> (int \<rightharpoonup> decision_record) \<Rightarrow> receipt \<Rightarrow> decision_record \<Rightarrow> row" where
  "view_row stamp recs r rec =
     \<lparr>ro_seq = rv_seq r, ro_time = stamp r, ro_namespace = wk_namespace (dr_workload rec),
      ro_workload = wk_name (dr_workload rec), ro_action = dr_action rec, ro_layer = dr_layer rec,
      ro_outcome = dr_outcome rec, ro_reasons = reasonCodes rec,
      ro_human = (case dr_approval rec of None \<Rightarrow> '''' | Some a \<Rightarrow> ab_label a),
      ro_held = (dr_outcome rec = ''require_approval'' \<and> \<not> answered recs (rv_seq r))\<rparr>"

definition count_up :: "(string \<Rightarrow> nat) \<Rightarrow> string \<Rightarrow> (string \<Rightarrow> nat)" where
  "count_up f k = f(k := f k + 1)"

definition add_receipt :: "(receipt \<Rightarrow> int) \<Rightarrow> (int \<rightharpoonup> decision_record) \<Rightarrow> receipt \<Rightarrow> view \<Rightarrow> view" where
  "add_receipt stamp recs r v =
     (case recs (rv_seq r) of
        None \<Rightarrow> v
      | Some rec \<Rightarrow>
          (let ro = view_row stamp recs r rec; s = vw_summary v;
               mode = (case dr_model rec of None \<Rightarrow> '''' | Some m \<Rightarrow> mb_mode m)
           in v\<lparr>vw_rows := vw_rows v @ [ro],
                vw_summary := \<lparr>sm_total = sm_total s + 1, sm_by_outcome = count_up (sm_by_outcome s) (ro_outcome ro),
                  sm_by_layer = count_up (sm_by_layer s) (ro_layer ro),
                  sm_held = (if ro_held ro then sm_held s + 1 else sm_held s),
                  sm_human = (if dr_approval rec \<noteq> None then sm_human s + 1 else sm_human s),
                  sm_modes = (if mode \<noteq> '''' \<and> mode \<notin> set (sm_modes s) then sm_modes s @ [mode] else sm_modes s)\<rparr>,
                vw_details := (vw_details v)(rv_seq r \<mapsto> \<lparr>de_row = ro, de_record = rec, de_prev = hex (rv_prev r),
                  de_entry = hex (rv_entry r), de_kid = rv_kid r\<rparr>)\<rparr>))"

definition Build :: "'b export_lib \<Rightarrow> (receipt \<Rightarrow> int) \<Rightarrow> export \<Rightarrow> trusted_key list \<Rightarrow> int \<Rightarrow> view" where
  "Build xl stamp e trusted now =
     (case VerifyExport xl e trusted of
        Inl err \<Rightarrow> (empty_view now)\<lparr>vw_verification := zero_verification\<lparr>vf_error := err\<rparr>\<rparr>
      | Inr rpt \<Rightarrow>
          (let ver = \<lparr>vf_authenticated = length trusted > 0, vf_chain_ok = cr_ok (rep_chain rpt), vf_manifest = rep_manifest rpt,
                 vf_complete = Complete rpt, vf_bound = rep_bound rpt, vf_failures = rep_failures rpt, vf_error = ''''\<rparr>
           in case xl_read xl (xp_receipts e) of
                Inl err \<Rightarrow> (empty_view now)\<lparr>vw_verification := ver\<lparr>vf_error := err\<rparr>\<rparr>
              | Inr b \<Rightarrow>
                  (let recs = view_records (split_byte lf (xp_records e)) Map.empty;
                       v = fold (add_receipt stamp recs) (xl_receipts xl b) ((empty_view now)\<lparr>vw_verification := ver\<rparr>)
                   in v\<lparr>vw_rows := sort_key (\<lambda>ro. - ro_seq ro) (vw_rows v),
                        vw_summary := (vw_summary v)\<lparr>sm_modes := sort (sm_modes (vw_summary v))\<rparr>\<rparr>)))"

section \<open>The loader\<close>

record loader =
  ld_ttl :: int
  ld_last :: view
  ld_have :: bool
  ld_try :: "int option"

text \<open>A call reads the clock once for the age of the cache and once more before it loads.\<close>

record view_call =
  vc_now :: int
  vc_try :: int
  vc_load :: "export err"

definition Current :: "'b export_lib \<Rightarrow> (receipt \<Rightarrow> int) \<Rightarrow> trusted_key list \<Rightarrow> view_call \<Rightarrow> loader \<Rightarrow> loader \<times> view" where
  "Current xl stamp trusted c l =
     (if (case ld_try l of None \<Rightarrow> False | Some t \<Rightarrow> vc_now c - t < ld_ttl l) then (l, ld_last l)
      else let l1 = l\<lparr>ld_try := Some (vc_try c)\<rparr> in
        case vc_load c of
          Inl e \<Rightarrow>
            (let v = (if ld_have l then (ld_last l)\<lparr>vw_err := ''refresh failed: '' @ e\<rparr>
                      else (empty_view (vc_try c))\<lparr>vw_verification := zero_verification\<lparr>vf_error := e\<rparr>, vw_err := e\<rparr>)
             in (l1\<lparr>ld_last := v\<rparr>, v))
        | Inr x \<Rightarrow> (let v = Build xl stamp x trusted (vc_try c) in (l1\<lparr>ld_last := v, ld_have := True\<rparr>, v)))"

definition new_loader :: "int \<Rightarrow> loader" where
  "new_loader ttl = \<lparr>ld_ttl = ttl, ld_last = empty_view 0, ld_have = False, ld_try = None\<rparr>"

section \<open>The pages\<close>

definition maxTimelineRows :: nat where "maxTimelineRows = 100"

definition decisionFilters :: "(string \<times> string) list" where
  "decisionFilters = [(''allow'', ''Allow''), (''deny'', ''Deny''), (''require_approval'', ''Require approval''),
     (''approved'', ''Approved''), (''rejected'', ''Rejected''), (''edited'', ''Edited'')]"

definition validDecisionFilter :: "string \<Rightarrow> bool" where
  "validDecisionFilter v \<longleftrightarrow> list_ex (\<lambda>f. fst f = v) decisionFilters"

fun filter_rows :: "row list \<Rightarrow> string \<Rightarrow> row list \<Rightarrow> row list" where
  "filter_rows [] oc res = res"
| "filter_rows (r # rs) oc res =
     (if oc \<noteq> '''' \<and> ro_outcome r \<noteq> oc then filter_rows rs oc res
      else if length (res @ [r]) = maxTimelineRows then res @ [r]
      else filter_rows rs oc (res @ [r]))"

definition filterRows :: "row list \<Rightarrow> string \<Rightarrow> row list" where
  "filterRows rows oc = filter_rows rows oc []"

definition timelineRows :: "view \<Rightarrow> string \<Rightarrow> string \<times> row list" where
  "timelineRows v q = (let f = (if validDecisionFilter q then q else '''') in (f, filterRows (vw_rows v) f))"

definition statusLabel :: "status \<Rightarrow> string" where
  "statusLabel s = (case s of StatusVerified \<Rightarrow> ''Verified'' | StatusPartial \<Rightarrow> ''Partial''
     | StatusConsistent \<Rightarrow> ''Consistent only'' | StatusFailed \<Rightarrow> ''Failed'')"

record source_config =
  so_export_dir :: string
  so_writer_url :: string
  so_token_file :: string
  so_trust_root :: string
  so_ttl :: int

datatype view_source = DirSource string | WriterSource string

text \<open>The arguments say whether a remote writer can be made for the URL, what reading the trust file returns, and how
  the library decodes its keys.\<close>

definition newDecisionLoader :: "(string \<Rightarrow> string option) \<Rightarrow> (string \<Rightarrow> string err) \<Rightarrow> (string \<Rightarrow> trusted_key list err)
    \<Rightarrow> source_config \<Rightarrow> (view_source \<times> trusted_key list \<times> loader) err" where
  "newDecisionLoader writer_error read_file load_keys c =
     (if so_export_dir c \<noteq> '''' \<and> so_writer_url c \<noteq> '''' then Inl ''set either --export-dir or --writer-url, not both''
      else bind_err
        (if so_export_dir c \<noteq> '''' then Inr (DirSource (so_export_dir c))
         else if so_writer_url c \<noteq> '''' then
           (if so_token_file c = '''' then Inl ''--writer-token-file is required with --writer-url''
            else case writer_error (so_writer_url c) of Some e \<Rightarrow> Inl e | None \<Rightarrow> Inr (WriterSource (so_writer_url c)))
         else Inl ''no decision source configured'')
        (\<lambda>src. bind_err
           (if so_trust_root c = '''' then Inr []
            else bind_err (read_file (so_trust_root c)) (\<lambda>data.
              case load_keys data of Inl e \<Rightarrow> Inl (''trust root: '' @ e) | Inr ks \<Rightarrow> Inr ks))
           (\<lambda>ks. Inr (src, ks, new_loader (if so_ttl c \<le> 0 then 2 * 10 ^ 9 else so_ttl c)))))"

section \<open>Lines of records\<close>

text \<open>The dashboard splits the records at newlines and the verification scans them; both see the same trimmed lines.\<close>

lemma strip_one_cr:
  assumes "\<forall>p\<in>set ps. CHR 0x0D \<in> set p \<longrightarrow> p = [CHR 0x0D]"
  shows "strip_one ps (l @ [CHR 0x0D]) = (case strip_one ps l of Some t \<Rightarrow> Some (t @ [CHR 0x0D])
    | None \<Rightarrow> if l = [] \<and> [CHR 0x0D] \<in> set ps then Some [] else None)"
  using assms
proof (induction ps)
  case (Cons p ps)
  have IH: "strip_one ps (l @ [CHR 0x0D]) = (case strip_one ps l of Some t \<Rightarrow> Some (t @ [CHR 0x0D])
    | None \<Rightarrow> if l = [] \<and> [CHR 0x0D] \<in> set ps then Some [] else None)"
    by (rule Cons.IH) (use Cons.prems in simp)
  have cr: "CHR 0x0D \<in> set p \<Longrightarrow> p = [CHR 0x0D]" using Cons.prems by simp
  show ?case
  proof (cases "p \<noteq> [] \<and> has_prefix l p")
    case True
    then obtain z where "l = p @ z" "p \<noteq> []" unfolding has_prefix_prefix prefix_def by blast
    then show ?thesis by (simp add: has_prefix_prefix)
  next
    case False
    have "p \<noteq> [] \<and> has_prefix (l @ [CHR 0x0D]) p \<longleftrightarrow> l = [] \<and> p = [CHR 0x0D]"
    proof
      assume p: "p \<noteq> [] \<and> has_prefix (l @ [CHR 0x0D]) p"
      then have "p = l @ [CHR 0x0D]" using False unfolding has_prefix_prefix prefix_snoc by blast
      then have "p = [CHR 0x0D]" by (intro cr) simp
      then show "l = [] \<and> p = [CHR 0x0D]" using \<open>p = l @ [CHR 0x0D]\<close> by simp
    qed (simp add: has_prefix_prefix)
    then have "strip_one (p # ps) (l @ [CHR 0x0D]) = (if l = [] \<and> p = [CHR 0x0D] then Some [] else strip_one ps (l @ [CHR 0x0D]))"
      by simp
    moreover have "strip_one (p # ps) l = strip_one ps l" using False by auto
    moreover have "strip_one ps [] = None" by (induction ps) (simp_all add: has_prefix_prefix)
    ultimately show ?thesis using IH by (cases "l = []") simp_all
  qed
qed simp

lemma trim_left_cr: "trim_left_seqs space_seqs (l @ [CHR 0x0D])
    = (if trim_left_seqs space_seqs l = [] then [] else trim_left_seqs space_seqs l @ [CHR 0x0D])"
proof (induction space_seqs l rule: trim_left_seqs.induct)
  case (1 l)
  have c: "\<forall>p\<in>set space_seqs. CHR 0x0D \<in> set p \<longrightarrow> p = [CHR 0x0D]" by (simp add: space_seqs_def)
  have m: "[CHR 0x0D] \<in> set space_seqs" by (simp add: space_seqs_def)
  have n: "trim_left_seqs space_seqs [] = []" by (simp add: trim_left_seqs.simps space_seqs_def has_prefix_def)
  show ?case
  proof (cases "strip_one space_seqs l")
    case None
    then show ?thesis using strip_one_cr [OF c, of l] m n
      by (simp add: trim_left_seqs.simps [of _ l] trim_left_seqs.simps [of _ "l @ [CHR 0x0D]"])
  next
    case (Some t)
    then show ?thesis using strip_one_cr [OF c, of l] 1 [OF Some]
      by (simp add: trim_left_seqs.simps [of _ l] trim_left_seqs.simps [of _ "l @ [CHR 0x0D]"])
  qed
qed

lemma trim_space_cr: "trim_space (l @ [CHR 0x0D]) = trim_space l"
proof -
  have s: "strip_one (map rev space_seqs) (CHR 0x0D # x) = Some x" for x by (simp add: space_seqs_def has_prefix_def)
  have "trim_left_seqs (map rev space_seqs) (CHR 0x0D # x) = trim_left_seqs (map rev space_seqs) x" for x
    by (subst trim_left_seqs.simps) (simp only: s option.simps)
  then show ?thesis by (simp add: trim_space_def trim_left_cr)
qed

lemma trim_drop_cr: "trim_space (drop_cr l) = trim_space l"
  using trim_space_cr [of "butlast l"] by (cases l rule: rev_cases) (auto simp: drop_cr_def)

lemma split_lines:
  assumes "snd (scan_lines s)"
  shows "filter (\<lambda>l. l \<noteq> []) (map trim_space (split_byte lf s)) = record_lines s"
proof -
  let ?p = "split_byte lf s"
  have p: "?p \<noteq> []" by (cases s) (auto split: list.splits)
  define ls where "ls = (if List.last ?p = [] then butlast ?p else ?p)"
  have "length (takeWhile (\<lambda>l. length l < 2 ^ 24) ls) = length ls"
    using assms by (simp add: scan_lines_def Let_def ls_def)
  then have "takeWhile (\<lambda>l. length l < 2 ^ 24) ls = ls" by (metis takeWhile_eq_take take_all_iff le_refl)
  then have r: "record_lines s = filter (\<lambda>l. l \<noteq> []) (map trim_space ls)"
    unfolding record_lines_def scan_lines_def Let_def ls_def [symmetric] fst_conv by (simp only: map_map comp_def trim_drop_cr)
  show ?thesis
  proof (cases "List.last ?p = []")
    case True
    then have "?p = butlast ?p @ [[]]" using p by (metis append_butlast_last_id)
    then have "filter (\<lambda>l. l \<noteq> []) (map trim_space ?p) = filter (\<lambda>l. l \<noteq> []) (map trim_space (butlast ?p @ [[]]))"
      by (rule arg_cong)
    then show ?thesis using True r by (simp add: ls_def)
  next
    case False
    then show ?thesis using r by (simp add: ls_def)
  qed
qed

lemma view_records_entries:
  assumes "map decode_entry (filter (\<lambda>l. l \<noteq> []) (map trim_space ls)) = map Some es"
    "distinct (map re_seq es)" "\<forall>x\<in>set es. m (re_seq x) = None"
  shows "view_records ls m q = (case find (\<lambda>x. re_seq x = q) es of None \<Rightarrow> m q
    | Some x \<Rightarrow> (case Option.bind (re_record x) (decode_record False) of None \<Rightarrow> m q | Some rec \<Rightarrow> Some rec))"
  using assms
proof (induction ls arbitrary: es m)
  case (Cons l ls)
  show ?case
  proof (cases "trim_space l = []")
    case True
    then show ?thesis using Cons by simp
  next
    case False
    then obtain x xs where es: "es = x # xs" "decode_entry (trim_space l) = Some x"
      "map decode_entry (filter (\<lambda>l. l \<noteq> []) (map trim_space ls)) = map Some xs"
      using Cons.prems(1) by (cases es) auto
    have d: "distinct (map re_seq xs)" "re_seq x \<notin> re_seq ` set xs" using Cons.prems(2) es(1) by auto
    have f: "find (\<lambda>y. re_seq y = re_seq x) xs = None" using d(2) unfolding find_None_iff by (metis image_eqI)
    show ?thesis
    proof (cases "Option.bind (re_record x) (decode_record False)")
      case None
      then show ?thesis using Cons.IH [OF es(3) d(1), of m] Cons.prems(3) es False f by (auto split: option.splits)
    next
      case (Some rec)
      define m' where "m' = m(re_seq x \<mapsto> rec)"
      have m': "m' (re_seq x) = Some rec" "q \<noteq> re_seq x \<Longrightarrow> m' q = m q" by (simp_all add: m'_def)
      have "\<forall>y\<in>set xs. m' (re_seq y) = None"
        using Cons.prems(3) es(1) d(2) by (auto simp: m'_def image_iff)
      note IH = Cons.IH [OF es(3) d(1) this]
      have v: "view_records (l # ls) m q = view_records ls m' q" using Some es(2) False by (simp add: m'_def)
      show ?thesis
      proof (cases "q = re_seq x")
        case True
        then show ?thesis using IH f m' Some es(1) unfolding v by simp
      next
        case False
        then show ?thesis using IH es(1) unfolding v m'(2) [OF False] by simp
      qed
    qed
  qed
qed simp

section \<open>What a view shows\<close>

definition shown_rows :: "(receipt \<Rightarrow> int) \<Rightarrow> (int \<rightharpoonup> decision_record) \<Rightarrow> receipt list \<Rightarrow> row list" where
  "shown_rows stamp recs rs =
     map (\<lambda>r. view_row stamp recs r (the (recs (rv_seq r)))) (filter (\<lambda>r. recs (rv_seq r) \<noteq> None) rs)"

lemma add_receipt_keeps [simp]:
  "vw_verification (add_receipt stamp recs r v) = vw_verification v" "vw_err (add_receipt stamp recs r v) = vw_err v"
  "vw_loaded (add_receipt stamp recs r v) = vw_loaded v"
  by (auto simp: add_receipt_def Let_def split: option.splits)

lemma fold_keeps [simp]:
  "vw_verification (fold (add_receipt stamp recs) rs v) = vw_verification v"
  "vw_err (fold (add_receipt stamp recs) rs v) = vw_err v"
  by (induction rs arbitrary: v) auto

lemma fold_rows: "vw_rows (fold (add_receipt stamp recs) rs v) = vw_rows v @ shown_rows stamp recs rs"
proof (induction rs arbitrary: v)
  case (Cons r rs)
  have "vw_rows (add_receipt stamp recs r v) = vw_rows v @ shown_rows stamp recs [r]"
    by (auto simp: add_receipt_def shown_rows_def Let_def split: option.splits)
  then show ?case using Cons by (simp add: shown_rows_def)
qed (simp add: shown_rows_def)

text \<open>The counts of the summary agree with the rows.\<close>

definition counted :: "view \<Rightarrow> bool" where
  "counted v \<longleftrightarrow> sm_total (vw_summary v) = length (vw_rows v)
     \<and> sm_held (vw_summary v) = length (filter ro_held (vw_rows v))
     \<and> (\<forall>oc. sm_by_outcome (vw_summary v) oc = length (filter (\<lambda>ro. ro_outcome ro = oc) (vw_rows v)))
     \<and> (\<forall>l. sm_by_layer (vw_summary v) l = length (filter (\<lambda>ro. ro_layer ro = l) (vw_rows v)))"

lemma fold_counted: "counted v \<Longrightarrow> counted (fold (add_receipt stamp recs) rs v)"
proof (induction rs arbitrary: v)
  case (Cons r rs)
  have "counted (add_receipt stamp recs r v)"
    using Cons.prems by (auto simp: add_receipt_def counted_def count_up_def Let_def split: option.splits)
  then show ?case using Cons.IH by simp
qed simp

lemma fold_details:
  "vw_details (fold (add_receipt stamp recs) rs v) q =
     (if \<exists>r\<in>set rs. rv_seq r = q \<and> recs q \<noteq> None then vw_details (fold (add_receipt stamp recs) rs v) q else vw_details v q)
   \<and> ((\<exists>r\<in>set rs. rv_seq r = q \<and> recs q \<noteq> None)
       \<longrightarrow> map_option de_record (vw_details (fold (add_receipt stamp recs) rs v) q) = recs q)"
proof (induction rs arbitrary: v)
  case (Cons r rs)
  show ?case
  proof (cases "\<exists>x\<in>set rs. rv_seq x = q \<and> recs q \<noteq> None")
    case True
    then show ?thesis using Cons.IH [of "add_receipt stamp recs r v"] by auto
  next
    case False
    have d: "vw_details (add_receipt stamp recs r v) q =
        (if rv_seq r = q \<and> recs q \<noteq> None then vw_details (add_receipt stamp recs r v) q else vw_details v q)"
      "rv_seq r = q \<and> recs q \<noteq> None \<longrightarrow> map_option de_record (vw_details (add_receipt stamp recs r v) q) = recs q"
      by (auto simp: add_receipt_def Let_def split: option.splits)
    have "vw_details (fold (add_receipt stamp recs) rs (add_receipt stamp recs r v)) q
        = vw_details (add_receipt stamp recs r v) q"
      using Cons.IH [of "add_receipt stamp recs r v"] False by meson
    then show ?thesis using d False by auto
  qed
qed simp

lemma fold_records:
  assumes "vw_details v = Map.empty"
  shows "(\<exists>d\<in>ran (vw_details (fold (add_receipt stamp recs) rs v)). P (de_record d))
    \<longleftrightarrow> (\<exists>r\<in>set rs. \<exists>rec. recs (rv_seq r) = Some rec \<and> P rec)"
proof -
  let ?d = "vw_details (fold (add_receipt stamp recs) rs v)"
  have n: "?d q = None" if "\<not> (\<exists>r\<in>set rs. rv_seq r = q \<and> recs q \<noteq> None)" for q
    using fold_details [of stamp recs rs v q] that assms by auto
  have s: "map_option de_record (?d q) = recs q" if "\<exists>r\<in>set rs. rv_seq r = q \<and> recs q \<noteq> None" for q
    using fold_details [of stamp recs rs v q] that by blast
  show ?thesis
  proof
    assume "\<exists>d\<in>ran ?d. P (de_record d)"
    then obtain q d where d: "?d q = Some d" "P (de_record d)" by (auto simp: ran_def)
    then obtain r where r: "r \<in> set rs" "rv_seq r = q" "recs q \<noteq> None" using n [of q] by force
    then have "recs q = Some (de_record d)" using s [of q] d by force
    then show "\<exists>r\<in>set rs. \<exists>rec. recs (rv_seq r) = Some rec \<and> P rec" using r d by blast
  next
    assume "\<exists>r\<in>set rs. \<exists>rec. recs (rv_seq r) = Some rec \<and> P rec"
    then obtain r rec where r: "r \<in> set rs" "recs (rv_seq r) = Some rec" "P rec" by blast
    then have "map_option de_record (?d (rv_seq r)) = Some rec" using s [of "rv_seq r"] by force
    then obtain d where "?d (rv_seq r) = Some d" "de_record d = rec" by auto
    then show "\<exists>d\<in>ran ?d. P (de_record d)" using r(3) by (auto simp: ran_def)
  qed
qed

text \<open>What a verified view says: the chain verified completely under the pinned keys, every receipt has a bound record and, when
  the record decodes, one row, newest first; a row is held exactly when it asks for approval and no shown decision answers it.\<close>

definition shows_row :: "(receipt \<Rightarrow> int) \<Rightarrow> receipt \<Rightarrow> decision_record \<Rightarrow> row \<Rightarrow> bool" where
  "shows_row stamp r rec ro \<longleftrightarrow> ro_seq ro = rv_seq r \<and> ro_time ro = stamp r \<and> ro_namespace ro = wk_namespace (dr_workload rec)
     \<and> ro_workload ro = wk_name (dr_workload rec) \<and> ro_action ro = dr_action rec \<and> ro_layer ro = dr_layer rec
     \<and> ro_outcome ro = dr_outcome rec \<and> set (ro_reasons ro) = rn_rule ` set (dr_reasons rec)"

definition verified_view :: "'b export_lib \<Rightarrow> (receipt \<Rightarrow> int) \<Rightarrow> export \<Rightarrow> trusted_key list \<Rightarrow> view \<Rightarrow> bool" where
  "verified_view xl stamp x trusted v \<longleftrightarrow>
     (\<exists>b res. trusted \<noteq> [] \<and> xl_read xl (xp_receipts x) = Inr b \<and> xl_manifest xl b \<and> xl_verify xl b trusted = Inr res
        \<and> cr_ok res \<and> cr_complete res \<and> distinct (map rv_seq (xl_receipts xl b))
        \<and> sorted_wrt (>) (map ro_seq (vw_rows v))
        \<and> (\<forall>r\<in>set (xl_receipts xl b). \<exists>j. xl_binds xl r j = None
             \<and> (case Option.bind j (decode_record False) of
                  None \<Rightarrow> rv_seq r \<notin> ro_seq ` set (vw_rows v)
                | Some rec \<Rightarrow> \<exists>ro\<in>set (vw_rows v). shows_row stamp r rec ro))
        \<and> ro_seq ` set (vw_rows v) \<subseteq> rv_seq ` set (xl_receipts xl b)
        \<and> (\<forall>ro\<in>set (vw_rows v). ro_held ro \<longleftrightarrow> ro_outcome ro = ''require_approval''
             \<and> \<not> (\<exists>d\<in>ran (vw_details v). \<exists>a. dr_approval (de_record d) = Some a \<and> ab_original_seq a = ro_seq ro)))"

lemma first_seen_set: "set (first_seen seen xs) = set xs - set seen"
  by (induction xs arbitrary: seen) auto

lemma view_row_shows: "shows_row stamp r rec (view_row stamp recs r rec)"
  by (simp add: shows_row_def view_row_def reasonCodes_def first_seen_set)

lemma desc_rows:
  assumes "distinct (map ro_seq rows)"
  shows "sorted_wrt (>) (map ro_seq (sort_key (\<lambda>ro. - ro_seq ro) rows))"
proof -
  let ?s = "sort_key (\<lambda>ro. - ro_seq ro) rows"
  have "distinct (map (\<lambda>ro. - ro_seq ro) ?s)" using assms by (auto simp: distinct_map inj_on_def)
  then have "sorted_wrt (<) (map (\<lambda>ro. - ro_seq ro) ?s)" by (simp add: strict_sorted_iff)
  then show ?thesis by (simp add: sorted_wrt_map)
qed

lemma find_entry:
  assumes "distinct (map re_seq es)" "x \<in> set es"
  shows "find (\<lambda>y. re_seq y = re_seq x) es = Some x"
  using assms by (induction es) (auto simp: image_iff)

lemma verified_Build:
  assumes "Status (vw_verification (Build xl stamp x trusted now)) = StatusVerified"
  shows "verified_view xl stamp x trusted (Build xl stamp x trusted now)"
proof -
  obtain rpt where rpt: "VerifyExport xl x trusted = Inr rpt"
    using assms by (cases "VerifyExport xl x trusted") (auto simp: Build_def Status_def zero_verification_def empty_view_def)
  obtain b es where b: "xl_read xl (xp_receipts x) = Inr b" "map decode_entry (record_lines (xp_records x)) = map Some es"
    and fails: "rep_failures rpt = [] \<longleftrightarrow> distinct (map re_seq es) \<and> distinct (map rv_seq (xl_receipts xl b))
        \<and> re_seq ` set es = rv_seq ` set (xl_receipts xl b)
        \<and> (\<forall>r\<in>set (xl_receipts xl b). \<forall>x\<in>set es. re_seq x = rv_seq r \<longrightarrow> xl_binds xl r (re_record x) = None)"
    using verify_failures [OF rpt] by (elim exE conjE) (rule that)
  let ?rs = "xl_receipts xl b" and ?recs = "view_records (split_byte lf (xp_records x)) Map.empty"
  define v0 where "v0 = (empty_view now)\<lparr>vw_verification := \<lparr>vf_authenticated = length trusted > 0,
    vf_chain_ok = cr_ok (rep_chain rpt), vf_manifest = rep_manifest rpt, vf_complete = Complete rpt, vf_bound = rep_bound rpt,
    vf_failures = rep_failures rpt, vf_error = ''''\<rparr>\<rparr>"
  define v where "v = fold (add_receipt stamp ?recs) ?rs v0"
  have B: "Build xl stamp x trusted now = v\<lparr>vw_rows := sort_key (\<lambda>ro. - ro_seq ro) (vw_rows v),
      vw_summary := (vw_summary v)\<lparr>sm_modes := sort (sm_modes (vw_summary v))\<rparr>\<rparr>"
    using rpt b(1) by (simp add: Build_def v_def v0_def Let_def)
  have rows: "vw_rows v = shown_rows stamp ?recs ?rs" by (simp add: v_def fold_rows v0_def empty_view_def)
  have ok: "trusted \<noteq> []" "cr_ok (rep_chain rpt)" "Complete rpt" "rep_failures rpt = []"
    using assms unfolding B by (auto simp: v_def v0_def Status_def split: if_splits)
  have chain: "xl_verify xl b trusted = Inr (rep_chain rpt)" "xl_manifest xl b" "cr_complete (rep_chain rpt)"
    "snd (scan_lines (xp_records x))"
    using VerifyExport_Inr [OF rpt] b(1) ok(1,3) by (auto simp: trusted_keys_def Complete_def)
  have d: "distinct (map re_seq es)" "distinct (map rv_seq ?rs)" "re_seq ` set es = rv_seq ` set ?rs"
    "\<And>r x. r \<in> set ?rs \<Longrightarrow> x \<in> set es \<Longrightarrow> re_seq x = rv_seq r \<Longrightarrow> xl_binds xl r (re_record x) = None"
    using fails ok(4) by blast+
  have recs: "?recs q = (case find (\<lambda>y. re_seq y = q) es of None \<Rightarrow> None | Some y \<Rightarrow> Option.bind (re_record y) (decode_record False))" for q
    using view_records_entries [of "split_byte lf (xp_records x)" es Map.empty q] b(2) d(1)
    by (auto simp: split_lines [OF chain(4)] split: option.splits)
  have entry: "\<exists>y\<in>set es. re_seq y = rv_seq r \<and> ?recs (rv_seq r) = Option.bind (re_record y) (decode_record False)
      \<and> xl_binds xl r (re_record y) = None" if r: "r \<in> set ?rs" for r
  proof -
    obtain y where y: "y \<in> set es" "re_seq y = rv_seq r" using r d(3) by force
    then have "find (\<lambda>z. re_seq z = rv_seq r) es = Some y" using find_entry [OF d(1) y(1)] by simp
    then show ?thesis using y d(4) [OF r y] recs [of "rv_seq r"] by auto
  qed
  have seqs: "map ro_seq (vw_rows v) = map rv_seq (filter (\<lambda>r. ?recs (rv_seq r) \<noteq> None) ?rs)"
    by (simp add: rows shown_rows_def view_row_def comp_def)
  have dist: "distinct (map ro_seq (vw_rows v))" unfolding seqs by (rule distinct_map_filter [OF d(2)])
  have each: "\<exists>j. xl_binds xl r j = None \<and> (case Option.bind j (decode_record False) of
        None \<Rightarrow> rv_seq r \<notin> ro_seq ` set (vw_rows v) | Some rec \<Rightarrow> \<exists>ro\<in>set (vw_rows v). shows_row stamp r rec ro)"
    if r: "r \<in> set ?rs" for r
  proof -
    obtain y :: record_entry where y: "?recs (rv_seq r) = Option.bind (re_record y) (decode_record False)" "xl_binds xl r (re_record y) = None"
      using entry [OF r] by (elim bexE conjE) (rule that)
    have "case ?recs (rv_seq r) of None \<Rightarrow> rv_seq r \<notin> ro_seq ` set (vw_rows v)
        | Some rec \<Rightarrow> \<exists>ro\<in>set (vw_rows v). shows_row stamp r rec ro"
    proof (cases "?recs (rv_seq r)")
      case None
      then have "rv_seq r \<notin> set (map ro_seq (vw_rows v))" unfolding seqs by auto
      then show ?thesis using None by simp
    next
      case (Some rec)
      then have "view_row stamp ?recs r rec \<in> set (vw_rows v)"
        using r by (auto simp: rows shown_rows_def image_iff intro!: bexI [of _ r])
      then have "\<exists>ro\<in>set (vw_rows v). shows_row stamp r rec ro" using view_row_shows [of stamp r rec ?recs] by blast
      then show ?thesis using Some by simp
    qed
    then show ?thesis using y by auto
  qed
  have sub: "ro_seq ` set (vw_rows v) \<subseteq> rv_seq ` set ?rs"
    using arg_cong [OF seqs, of set] by auto
  have ran: "(\<exists>rec\<in>ran ?recs. P rec) \<longleftrightarrow> (\<exists>dt\<in>ran (vw_details v). P (de_record dt))" for P
  proof -
    have "\<exists>r\<in>set ?rs. rv_seq r = q" if q: "?recs q = Some rec" for q rec
    proof -
      have "\<exists>y\<in>set es. re_seq y = q" using q recs [of q] by (auto simp: find_Some_iff split: option.splits)
      then show ?thesis using d(3) by force
    qed
    then have "(\<exists>rec\<in>ran ?recs. P rec) \<longleftrightarrow> (\<exists>r\<in>set ?rs. \<exists>rec. ?recs (rv_seq r) = Some rec \<and> P rec)"
      unfolding ran_def by blast
    also have "\<dots> \<longleftrightarrow> (\<exists>dt\<in>ran (vw_details v). P (de_record dt))"
      unfolding v_def by (rule fold_records [symmetric]) (simp add: v0_def empty_view_def)
    finally show ?thesis .
  qed
  have held: "ro_held ro \<longleftrightarrow> ro_outcome ro = ''require_approval''
      \<and> \<not> (\<exists>dt\<in>ran (vw_details v). \<exists>a. dr_approval (de_record dt) = Some a \<and> ab_original_seq a = ro_seq ro)"
    if ro: "ro \<in> set (vw_rows v)" for ro
  proof -
    have "ro_held ro \<longleftrightarrow> ro_outcome ro = ''require_approval'' \<and> \<not> answered ?recs (ro_seq ro)"
      using ro by (auto simp: rows shown_rows_def view_row_def)
    then show ?thesis unfolding answered_def ran [of "\<lambda>rec. \<exists>a. dr_approval rec = Some a \<and> ab_original_seq a = ro_seq ro"] .
  qed
  define w where "w = Build xl stamp x trusted now"
  have w: "set (vw_rows w) = set (vw_rows v)" "vw_details w = vw_details v" "sorted_wrt (>) (map ro_seq (vw_rows w))"
    using desc_rows [OF dist] by (simp_all add: w_def B)
  show ?thesis unfolding w_def [symmetric] verified_view_def w(1,2)
    using b(1) chain(1-3) ok(1,2) d(2) w(3) each sub held
    by (intro exI [of _ b] exI [of _ "rep_chain rpt"] conjI ballI) assumption+
qed

section \<open>Sequences of calls\<close>

fun views :: "'b export_lib \<Rightarrow> (receipt \<Rightarrow> int) \<Rightarrow> trusted_key list \<Rightarrow> view_call list \<Rightarrow> loader \<Rightarrow> view list" where
  "views xl stamp trusted [] l = []"
| "views xl stamp trusted (c # cs) l = (case Current xl stamp trusted c l of (l', v) \<Rightarrow> v # views xl stamp trusted cs l')"

text \<open>A cached view that is verified and has no load error was built at the last try from one of the exports of T.\<close>

definition cache_from :: "'b export_lib \<Rightarrow> (receipt \<Rightarrow> int) \<Rightarrow> trusted_key list \<Rightarrow> (int \<times> export) set \<Rightarrow> loader \<Rightarrow> bool" where
  "cache_from xl stamp trusted T l \<longleftrightarrow> (vw_err (ld_last l) = '''' \<and> Status (vw_verification (ld_last l)) = StatusVerified
     \<longrightarrow> (\<exists>t x. (t, x) \<in> T \<and> ld_try l = Some t \<and> ld_last l = Build xl stamp x trusted t))"

definition loaded :: "view_call \<Rightarrow> (int \<times> export) set" where
  "loaded c = (case vc_load c of Inl _ \<Rightarrow> {} | Inr x \<Rightarrow> {(vc_try c, x)})"

lemma Current_cases:
  assumes "Current xl stamp trusted c l = (l', v)" "cache_from xl stamp trusted T l"
  shows "cache_from xl stamp trusted (T \<union> loaded c) l' \<and> ld_ttl l' = ld_ttl l
    \<and> (vw_err v = '''' \<and> Status (vw_verification v) = StatusVerified \<longrightarrow>
        (\<exists>t x. v = Build xl stamp x trusted t \<and> ((t, x) \<in> loaded c \<or> (t, x) \<in> T \<and> vc_now c - t < ld_ttl l)))"
proof (cases "case ld_try l of None \<Rightarrow> False | Some t \<Rightarrow> vc_now c - t < ld_ttl l")
  case True
  then have lv: "l' = l" "v = ld_last l" using assms(1) by (auto simp: Current_def)
  moreover have "\<exists>t x. v = Build xl stamp x trusted t \<and> (t, x) \<in> T \<and> vc_now c - t < ld_ttl l"
    if h: "vw_err v = ''''" "Status (vw_verification v) = StatusVerified"
  proof -
    obtain t x where "(t, x) \<in> T" "ld_try l = Some t" "ld_last l = Build xl stamp x trusted t"
      using assms(2) h unfolding lv(2) cache_from_def by blast
    then show ?thesis using True lv(2) by (intro exI [of _ t] exI [of _ x]) simp
  qed
  moreover have "cache_from xl stamp trusted (T \<union> loaded c) l'"
    using assms(2) unfolding lv(1) cache_from_def by blast
  ultimately show ?thesis by blast
next
  case False
  show ?thesis
  proof (cases "vc_load c")
    case (Inl e)
    have "\<not> (vw_err v = '''' \<and> Status (vw_verification v) = StatusVerified)" "ld_last l' = v" "ld_ttl l' = ld_ttl l"
      using assms(1) False Inl by (auto simp: Current_def Let_def Status_def zero_verification_def split: if_splits)
    then show ?thesis by (auto simp: cache_from_def)
  next
    case (Inr x)
    have "ld_last l' = v" "ld_ttl l' = ld_ttl l" "v = Build xl stamp x trusted (vc_try c)" "ld_try l' = Some (vc_try c)"
      using assms(1) False Inr by (auto simp: Current_def Let_def)
    then show ?thesis using Inr by (auto simp: cache_from_def loaded_def)
  qed
qed

lemma views_from:
  assumes "cache_from xl stamp trusted T l" "i < length cs" "views xl stamp trusted cs l ! i = v" "vw_err v = ''''"
    "Status (vw_verification v) = StatusVerified"
  shows "\<exists>t x. v = Build xl stamp x trusted t \<and> ((t, x) \<in> loaded (cs ! i) \<or> vc_now (cs ! i) - t < ld_ttl l
    \<and> ((t, x) \<in> T \<or> (\<exists>j<i. (t, x) \<in> loaded (cs ! j))))"
  using assms(1-3)
proof (induction cs arbitrary: l T i)
  case (Cons c cs)
  obtain l' u where c: "Current xl stamp trusted c l = (l', u)" by (rule prod.exhaust)
  note step = Current_cases [OF c Cons.prems(1)]
  show ?case
  proof (cases i)
    case 0
    then show ?thesis using step Cons.prems(3) c assms(4,5) by auto
  next
    case (Suc k)
    have "views xl stamp trusted cs l' ! k = v" "k < length cs" using Cons.prems(2,3) c Suc by auto
    from Cons.IH [OF conjunct1 [OF step] this(2,1)] obtain t x where h: "v = Build xl stamp x trusted t"
      "(t, x) \<in> loaded (cs ! k) \<or> vc_now (cs ! k) - t < ld_ttl l' \<and> ((t, x) \<in> T \<union> loaded c \<or> (\<exists>j<k. (t, x) \<in> loaded (cs ! j)))"
      by blast
    have "(t, x) \<in> loaded c \<Longrightarrow> \<exists>j<i. (t, x) \<in> loaded ((c # cs) ! j)" using Suc by (intro exI [of _ 0]) simp
    moreover have "\<exists>j<k. (t, x) \<in> loaded (cs ! j) \<Longrightarrow> \<exists>j<i. (t, x) \<in> loaded ((c # cs) ! j)" using Suc by auto
    moreover have "ld_ttl l' = ld_ttl l" using step by blast
    ultimately show ?thesis using h Suc by auto
  qed
qed simp

text \<open>C28: the word verified on the dashboard. Over any sequence of page views at a new loader, a view without a load
  error whose status is verified was built from an export that was loaded by this call or less than the time to live before it;
  keys were pinned, the chain of this export verified completely under them with its signed manifest, its
  receipts have distinct numbers, every receipt has a record that binds to it and, when the record decodes, a row with what the
  record says, no other row is shown, the newest comes first, and a row is held exactly when it asks for approval and no
  shown decision answers it.\<close>

theorem verified_view_fresh:
  assumes "i < length cs" "views xl stamp trusted cs (new_loader ttl) ! i = v" "vw_err v = ''''"
    "Status (vw_verification v) = StatusVerified"
  shows "\<exists>j\<le>i. \<exists>x. vc_load (cs ! j) = Inr x \<and> (j = i \<or> vc_now (cs ! i) - vc_try (cs ! j) < ttl)
    \<and> verified_view xl stamp x trusted v"
proof -
  have c: "cache_from xl stamp trusted {} (new_loader ttl)"
    by (simp add: cache_from_def new_loader_def empty_view_def Status_def zero_verification_def)
  obtain t x where tx: "v = Build xl stamp x trusted t"
    "(t, x) \<in> loaded (cs ! i) \<or> vc_now (cs ! i) - t < ttl \<and> (\<exists>j<i. (t, x) \<in> loaded (cs ! j))"
    using views_from [OF c assms] by (auto simp: new_loader_def)
  have v: "verified_view xl stamp x trusted v" using verified_Build assms(4) unfolding tx(1) by blast
  have l: "vc_load (cs ! j) = Inr x \<and> vc_try (cs ! j) = t" if "(t, x) \<in> loaded (cs ! j)" for j
    using that by (auto simp: loaded_def split: sum.splits)
  from tx(2) show ?thesis
  proof
    assume "(t, x) \<in> loaded (cs ! i)"
    then show ?thesis using l v by blast
  next
    assume "vc_now (cs ! i) - t < ttl \<and> (\<exists>j<i. (t, x) \<in> loaded (cs ! j))"
    then obtain j where "j < i" "(t, x) \<in> loaded (cs ! j)" "vc_now (cs ! i) - t < ttl" by blast
    then show ?thesis using l [of j] v by (intro exI [of _ j]) auto
  qed
qed

text \<open>A failed refresh is never shown without its error, and a view without pinned keys is never verified or partial.\<close>

lemma failed_refresh_marked:
  assumes "Current xl stamp trusted c l = (l', v)" "vc_load c = Inl e" "e \<noteq> ''''"
    "ld_try l = None \<or> ld_try l = Some t \<and> ld_ttl l \<le> vc_now c - t"
  shows "vw_err v \<noteq> ''''"
  using assms by (auto simp: Current_def Let_def split: if_splits)

lemma unpinned_not_verified:
  "trusted = [] \<Longrightarrow> Status (vw_verification (Build xl stamp x trusted now)) \<in> {StatusConsistent, StatusFailed}"
  by (auto simp: Build_def Status_def zero_verification_def empty_view_def Let_def split: sum.splits)

text \<open>The counts of a view are those of its rows, and a page shows the first hundred rows with the chosen outcome.\<close>

lemma Build_counted: "counted (Build xl stamp x trusted now)"
proof -
  have e: "counted (empty_view now)" for now by (simp add: counted_def empty_view_def zero_summary_def)
  have p: "counted (v\<lparr>vw_verification := ver\<rparr>) = counted v" for v ver by (simp add: counted_def)
  have s: "counted (v\<lparr>vw_rows := sort_key (\<lambda>ro. - ro_seq ro) (vw_rows v),
      vw_summary := (vw_summary v)\<lparr>sm_modes := sort (sm_modes (vw_summary v))\<rparr>\<rparr>)" if c: "counted v" for v
  proof -
    have "length (filter P (sort_key (\<lambda>ro. - ro_seq ro) (vw_rows v))) = length (filter P (vw_rows v))" for P
      by (simp add: filter_sort flip: size_mset)
    then show ?thesis using c by (simp add: counted_def)
  qed
  show ?thesis
    unfolding Build_def by (auto simp: Let_def p e intro!: s fold_counted split: sum.splits)
qed

lemma filterRows_take: "filterRows rows oc = take maxTimelineRows (filter (\<lambda>r. oc = '''' \<or> ro_outcome r = oc) rows)"
proof -
  have "length res < maxTimelineRows \<Longrightarrow>
      filter_rows rows oc res = take maxTimelineRows (res @ filter (\<lambda>r. oc = '''' \<or> ro_outcome r = oc) rows)" for res
  proof (induction rows arbitrary: res)
    case (Cons r rows)
    then show ?case by (cases "length (res @ [r]) = maxTimelineRows") (auto simp: take_Cons')
  qed simp
  then show ?thesis by (simp add: filterRows_def maxTimelineRows_def)
qed

text \<open>Only the status verified is labelled so, and a loader without a trust root never pins keys.\<close>

lemma statusLabel_verified: "statusLabel s = ''Verified'' \<longleftrightarrow> s = StatusVerified"
  by (cases s) (simp_all add: statusLabel_def)

definition view_key :: trusted_key where
  "view_key = \<lparr>ky_kid = ''k1'', ky_public = ''pk'', ky_from = 0, ky_until = None\<rparr>"

definition view_visit :: view_call where
  "view_visit = \<lparr>vc_now = 5, vc_try = 6, vc_load = Inr data_export\<rparr>"

lemma verified_view_fresh_witness:
  "verified_view data_xl (\<lambda>r. 7) data_export [view_key] (views data_xl (\<lambda>r. 7) [view_key] [view_visit] (new_loader 2) ! 0)"
proof -
  let ?j = "record_json Dataset.wit_record" and ?v = "views data_xl (\<lambda>r. 7) [view_key] [view_visit] (new_loader 2) ! 0"
  have "decode_entry (line_of 1 ?j) = Some \<lparr>re_seq = 1, re_record = Some ?j\<rparr>"
    by (rule decode_entry_line [OF wit_record_wf]) simp_all
  then have r: "read_records [line_of 1 ?j] [] [] = Inr ([(1, Some ?j)], [])" using line_kept [of 1 ?j] by simp
  have "VerifyExport data_xl data_export [view_key] = Inr \<lparr>rep_chain = \<lparr>cr_ok = True, cr_complete = True\<rparr>, rep_manifest = True,
      rep_bound = 1, rep_failures = []\<rparr>"
    using r wit_data_scan(1) by (simp add: VerifyExport_def data_export_def data_xl_def wit_xl_def bind_err_def
        trusted_keys_def Dataset.wit_receipt_def)
  moreover have "xl_read data_xl (xp_receipts data_export) = Inr (True, [Dataset.wit_receipt])"
    by (simp add: data_xl_def)
  ultimately have "vw_err ?v = ''''" "Status (vw_verification ?v) = StatusVerified"
    by (simp_all add: Current_def new_loader_def view_visit_def Build_def Let_def Status_def Complete_def empty_view_def)
  from verified_view_fresh [OF _ refl this] show ?thesis by (auto simp: view_visit_def)
qed

end
