(* ===== verification/AgentCtl.thy ===== *)
theory AgentCtl
  imports Webhook Sandbox
begin

text \<open>
  The human side of the approval protocol: the decisions of pkg/agentctl (decide.go, approve.go, reject.go), from the object that is
  read to the merge patch that is sent. A client call is a function of the answers of the API server: what a Get returned, and
  what a Patch answers. What the API server does with an accepted patch is the hypothesis \<open>applied\<close> of the
  theorems, over the admission of Webhook. The text of an error of the JSON library is not kept.
\<close>

section \<open>Requests\<close>

text \<open>A merge patch of annotations: an absent key is left alone, None is a null, which deletes.\<close>

type_synonym patch = "string \<rightharpoonup> string option"

record patch_request =
  pr_version :: "string option"
  pr_annotations :: patch

datatype patch_answer = PatchOk | PatchConflict string | PatchFailed string

definition PendingActionID :: "agent_workload \<Rightarrow> string" where
  "PendingActionID wl = (if st_phase (w_status wl) \<noteq> ''PendingApproval'' then ''''
     else case st_pending (w_status wl) of None \<Rightarrow> '''' | Some p \<Rightarrow> pa_id p)"

definition decisionAnnotations :: "string \<Rightarrow> string \<Rightarrow> string \<Rightarrow> approval_error + patch" where
  "decisionAnnotations lbl reason edit =
     (let ann = [AnnotationDecision \<mapsto> Some lbl, AnnotationReason \<mapsto> (if reason \<noteq> '''' then Some reason else None),
            AnnotationEdit \<mapsto> (if edit \<noteq> '''' then Some edit else None), AnnotationBy \<mapsto> None, AnnotationFor \<mapsto> None,
            AnnotationMAC \<mapsto> None];
          s1 = [AnnotationDecision \<mapsto> lbl];
          s2 = (if reason \<noteq> '''' then s1(AnnotationReason \<mapsto> reason) else s1);
          strs = (if edit \<noteq> '''' then s2(AnnotationEdit \<mapsto> edit) else s2)
      in case ValidateDecision strs of Some e \<Rightarrow> Inl e | None \<Rightarrow> Inr ann)"

definition patchDecision :: "(patch_request \<Rightarrow> patch_answer) \<Rightarrow> string \<Rightarrow> string \<Rightarrow> patch \<Rightarrow> patch_request option \<times> string option" where
  "patchDecision send name version ann =
     (if version = '''' then (None, Some (''workload '' @ quote name @ '' has no resourceVersion; refusing an unconditional decision''))
      else let rq = \<lparr>pr_version = Some version, pr_annotations = ann\<rparr> in
        (Some rq, case send rq of
            PatchOk \<Rightarrow> None
          | PatchConflict e \<Rightarrow> Some (''workload '' @ quote name
              @ '' changed since it was read; the pending action may differ, review it and retry: '' @ e)
          | PatchFailed e \<Rightarrow> Some (''patch workload '' @ quote name @ '': '' @ e)))"

text \<open>json.Compact drops the white space between the tokens of a valid text.\<close>

fun compact :: "bool \<Rightarrow> bool \<Rightarrow> string \<Rightarrow> string" where
  "compact instr esc [] = []"
| "compact False esc (c # s) =
     (if c \<in> set [CHR 0x20, CHR 0x09, CHR 0x0A, CHR 0x0D] then compact False False s
      else c # compact (c = CHR 0x22) False s)"
| "compact True True (c # s) = c # compact True False s"
| "compact True False (c # s) = c # compact (c \<noteq> CHR 0x22) (c = CHR 0x5C) s"

definition compactJSON :: "string \<Rightarrow> string option" where
  "compactJSON s = (if parse_json s = None then None else Some (compact False False s))"

section \<open>Calls\<close>

record call_result =
  cl_name :: string
  cl_namespace :: string
  cl_phase :: string
  cl_rule :: string
  cl_reason :: string
  cl_resumed :: bool
  cl_decided :: bool

definition call_start :: "string \<Rightarrow> string \<Rightarrow> string \<Rightarrow> call_result" where
  "call_start ns name phase = \<lparr>cl_name = name, cl_namespace = ns, cl_phase = phase, cl_rule = '''', cl_reason = '''',
     cl_resumed = False, cl_decided = False\<rparr>"

text \<open>A call returns the patch it sent, the result and the error; a result may come with an error.\<close>

type_synonym call_outcome = "patch_request option \<times> call_result option \<times> string option"

definition EditApproveWorkload :: "(patch_request \<Rightarrow> patch_answer) \<Rightarrow> (string \<times> agent_workload) err \<Rightarrow> string \<Rightarrow> string
    \<Rightarrow> string \<Rightarrow> string \<Rightarrow> call_outcome" where
  "EditApproveWorkload send got ns name editJSON reason =
     (case ParseEdit editJSON of
        Inl e \<Rightarrow> (None, None, Some (approval_error_text e))
      | Inr _ \<Rightarrow>
     (case compactJSON editJSON of
        None \<Rightarrow> (None, None, Some ''compact'')
      | Some text' \<Rightarrow>
     (case got of
        Inl e \<Rightarrow> (None, None, Some (''get workload '' @ quote name @ '': '' @ e))
      | Inr (version, wl) \<Rightarrow>
          (let res = call_start ns name (st_phase (w_status wl)) in
           if PendingActionID wl = '''' then
             (None, Some res, Some (''workload '' @ quote name @ '' has no pending direct-path action to edit (phase ''
                @ quote (st_phase (w_status wl)) @ '')''))
           else (case decisionAnnotations Edit reason text' of
               Inl e \<Rightarrow> (None, None, Some (approval_error_text e))
             | Inr ann \<Rightarrow>
                 (case patchDecision send name version ann of
                    (rq, Some e) \<Rightarrow> (rq, None, Some e)
                  | (rq, None) \<Rightarrow> (rq, Some (res\<lparr>cl_decided := True\<rparr>), None)))))))"

definition decidable_phase :: "string \<Rightarrow> bool" where
  "decidable_phase ph \<longleftrightarrow> ph = ''PendingApproval'' \<or> ph = ''Suspended''"

definition phase_error :: "string \<Rightarrow> string \<Rightarrow> string" where
  "phase_error name ph = ''workload '' @ quote name @ '' is in phase '' @ quote ph @ '' (not PendingApproval or Suspended)''"

text \<open>The patch of a decision, or of the informational annotations alone when no action is pending.\<close>

definition send_annotations :: "(patch_request \<Rightarrow> patch_answer) \<Rightarrow> string \<Rightarrow> string \<Rightarrow> patch \<Rightarrow> (approval_error + patch) option
    \<Rightarrow> patch_request option \<times> string option" where
  "send_annotations send name version info decision =
     (case decision of
        Some (Inl e) \<Rightarrow> (None, Some (approval_error_text e))
      | Some (Inr ann) \<Rightarrow> patchDecision send name version (info ++ ann)
      | None \<Rightarrow> (let rq = \<lparr>pr_version = None, pr_annotations = info\<rparr> in
          (Some rq, case send rq of
              PatchOk \<Rightarrow> None
            | PatchConflict e \<Rightarrow> Some (''patch workload '' @ quote name @ '': '' @ e)
            | PatchFailed e \<Rightarrow> Some (''patch workload '' @ quote name @ '': '' @ e))))"

text \<open>The workflow of the name of the workload: what a Get returned, and the error of the resuming patch.\<close>

definition resume_workflow :: "gany err \<Rightarrow> string option \<Rightarrow> bool \<times> bool" where
  "resume_workflow got patch_error =
     (case got of
        Inl e \<Rightarrow> (False, False)
      | Inr flow \<Rightarrow> (let ph = or_empty (nested_string flow [''status'', ''phase'']) in
          if ph = ''Suspended'' \<or> ph = ''Running'' then (True, patch_error = None) else (False, False)))"

text \<open>Approving; the last component says that the workflow was patched.\<close>

definition ApproveWorkloadWithReason :: "(patch_request \<Rightarrow> patch_answer) \<Rightarrow> (string \<times> agent_workload) err \<Rightarrow> gany err
    \<Rightarrow> string option \<Rightarrow> string \<Rightarrow> string \<Rightarrow> string \<Rightarrow> string \<Rightarrow> string \<Rightarrow> call_outcome \<times> bool" where
  "ApproveWorkloadWithReason send got argo_got argo_error now ns name approvedBy reason =
     (case got of
        Inl e \<Rightarrow> ((None, None, Some (''get workload '' @ quote name @ '': '' @ e)), False)
      | Inr (version, wl) \<Rightarrow>
          (let phase = st_phase (w_status wl); res = call_start ns name phase in
           if \<not> decidable_phase phase then ((None, Some res, Some (phase_error name phase)), False)
           else
             (let by' = (if approvedBy = '''' then ''agentctl-web'' else approvedBy);
                  info = [''agentworkload.clawdlinux.io/approved-at'' \<mapsto> Some now,
                          ''agentworkload.clawdlinux.io/approved-by'' \<mapsto> Some by'];
                  decided = (PendingActionID wl \<noteq> '''')
              in case send_annotations send name version info
                       (if decided then Some (decisionAnnotations Approve reason '''') else None) of
                   (rq, Some e) \<Rightarrow> ((rq, None, Some e), False)
                 | (rq, None) \<Rightarrow> (let (patched, resumed) = resume_workflow argo_got argo_error
                     in ((rq, Some (res\<lparr>cl_decided := decided, cl_resumed := resumed\<rparr>), None), patched)))))"

definition ApproveWorkload :: "(patch_request \<Rightarrow> patch_answer) \<Rightarrow> (string \<times> agent_workload) err \<Rightarrow> gany err
    \<Rightarrow> string option \<Rightarrow> string \<Rightarrow> string \<Rightarrow> string \<Rightarrow> string \<Rightarrow> call_outcome \<times> bool" where
  "ApproveWorkload send got argo_got argo_error now ns name approvedBy =
     ApproveWorkloadWithReason send got argo_got argo_error now ns name approvedBy ''''"

definition reject_reason :: "string \<Rightarrow> string \<Rightarrow> string" where
  "reject_reason rule reason = (if rule \<noteq> '''' then trim_space (''rule '' @ rule @ '': '' @ reason) else reason)"

definition RejectWorkload :: "(patch_request \<Rightarrow> patch_answer) \<Rightarrow> (string \<times> agent_workload) err \<Rightarrow> string \<Rightarrow> string \<Rightarrow> string
    \<Rightarrow> string \<Rightarrow> string \<Rightarrow> string \<Rightarrow> call_outcome" where
  "RejectWorkload send got now ns name rule reason rejectedBy =
     (case got of
        Inl e \<Rightarrow> (None, None, Some (''get workload '' @ quote name @ '': '' @ e))
      | Inr (version, wl) \<Rightarrow>
          (let phase = st_phase (w_status wl); res = call_start ns name phase in
           if \<not> decidable_phase phase then (None, Some res, Some (phase_error name phase))
           else
             (let by' = (if rejectedBy = '''' then ''agentctl-web'' else rejectedBy);
                  i1 = [''agentworkload.clawdlinux.io/rejected-at'' \<mapsto> Some now,
                        ''agentworkload.clawdlinux.io/rejected-by'' \<mapsto> Some by'];
                  i2 = (if rule \<noteq> '''' then i1(''agentworkload.clawdlinux.io/rejected-rule'' \<mapsto> Some rule) else i1);
                  info = (if reason \<noteq> '''' then i2(''agentworkload.clawdlinux.io/rejection-reason'' \<mapsto> Some reason) else i2);
                  decided = (PendingActionID wl \<noteq> '''')
              in case send_annotations send name version info
                       (if decided then Some (decisionAnnotations Reject (reject_reason rule reason) '''') else None) of
                   (rq, Some e) \<Rightarrow> (rq, None, Some e)
                 | (rq, None) \<Rightarrow> (rq, Some (res\<lparr>cl_rule := rule, cl_reason := reason, cl_decided := decided\<rparr>), None))))"

text \<open>One decision of a human.\<close>

datatype decision_call = CallApprove string string | CallReject string string string | CallEdit string string

definition run_call :: "(patch_request \<Rightarrow> patch_answer) \<Rightarrow> (string \<times> agent_workload) err \<Rightarrow> gany err \<Rightarrow> string option
    \<Rightarrow> string \<Rightarrow> string \<Rightarrow> string \<Rightarrow> decision_call \<Rightarrow> call_outcome" where
  "run_call send got argo_got argo_error now ns name c = (case c of
       CallApprove approver reason \<Rightarrow> fst (ApproveWorkloadWithReason send got argo_got argo_error now ns name approver reason)
     | CallReject rejecter rule reason \<Rightarrow> RejectWorkload send got now ns name rule reason rejecter
     | CallEdit edit reason \<Rightarrow> EditApproveWorkload send got ns name edit reason)"

definition call_label :: "decision_call \<Rightarrow> string" where
  "call_label c = (case c of CallApprove _ _ \<Rightarrow> Approve | CallReject _ _ _ \<Rightarrow> Reject | CallEdit _ _ \<Rightarrow> Edit)"

definition call_reason :: "decision_call \<Rightarrow> string" where
  "call_reason c = (case c of CallApprove _ r \<Rightarrow> r | CallReject _ rule r \<Rightarrow> reject_reason rule r | CallEdit _ r \<Rightarrow> r)"

definition call_edit :: "decision_call \<Rightarrow> edited_action option" where
  "call_edit c = (case c of CallEdit e _ \<Rightarrow> (case ParseEdit (compact False False e) of Inr x \<Rightarrow> Some x | Inl _ \<Rightarrow> None) | _ \<Rightarrow> None)"

section \<open>What a call sends\<close>

text \<open>The annotations of a decision: the label, the reason and the edit of the call, every stamp cleared.\<close>

definition decides :: "patch \<Rightarrow> string \<Rightarrow> string \<Rightarrow> string \<Rightarrow> bool" where
  "decides ann lbl reason edit \<longleftrightarrow> ann AnnotationDecision = Some (Some lbl) \<and> lbl \<noteq> ''''
     \<and> ann AnnotationReason = Some (if reason = '''' then None else Some reason)
     \<and> ann AnnotationEdit = Some (if edit = '''' then None else Some edit)
     \<and> ann AnnotationBy = Some None \<and> ann AnnotationFor = Some None \<and> ann AnnotationMAC = Some None"

lemma decisionAnnotations_Inr:
  assumes "decisionAnnotations lbl reason edit = Inr ann"
  shows "decides ann lbl reason edit"
proof -
  have l: "lbl \<noteq> ''''"
    using assms
    by (auto simp: decisionAnnotations_def Let_def ValidateDecision_def validateFields_def get_def Approve_def Reject_def Edit_def
        split: if_splits sum.splits option.splits)
  moreover have "ann = [AnnotationDecision \<mapsto> Some lbl, AnnotationReason \<mapsto> (if reason \<noteq> '''' then Some reason else None),
            AnnotationEdit \<mapsto> (if edit \<noteq> '''' then Some edit else None), AnnotationBy \<mapsto> None, AnnotationFor \<mapsto> None,
            AnnotationMAC \<mapsto> None]"
    using assms by (auto simp: decisionAnnotations_def Let_def split: option.splits)
  ultimately show ?thesis by (simp add: decides_def)
qed

lemma patchDecision_ok:
  "patchDecision send name version ann = (rq, None) \<Longrightarrow>
     \<exists>r. rq = Some r \<and> r = \<lparr>pr_version = Some version, pr_annotations = ann\<rparr> \<and> send r = PatchOk \<and> version \<noteq> ''''"
  by (auto simp: patchDecision_def Let_def split: if_splits patch_answer.splits)

lemma send_decision_ok:
  assumes "send_annotations send name version info (Some (decisionAnnotations lbl reason edit)) = (rq, None)"
  shows "\<exists>r. rq = Some r \<and> pr_version r = Some version \<and> decides (pr_annotations r) lbl reason edit \<and> send r = PatchOk"
proof -
  obtain ann where a: "decisionAnnotations lbl reason edit = Inr ann" "patchDecision send name version (info ++ ann) = (rq, None)"
    using assms by (auto simp: send_annotations_def split: sum.splits)
  have "decides (info ++ ann) lbl reason edit"
    using decisionAnnotations_Inr [OF a(1)] by (simp add: decides_def map_add_def)
  then show ?thesis using patchDecision_ok [OF a(2)] by auto
qed

text \<open>A call that reports a recorded decision sent one conditional patch, which carries the version it read.\<close>

lemma recorded_call:
  assumes "run_call send (Inr (version, wl)) argo_got argo_error now ns name c = (rq, Some res, None)" "cl_decided res"
  shows "PendingActionID wl \<noteq> '''' \<and> (\<exists>r edit. rq = Some r \<and> pr_version r = Some version \<and> send r = PatchOk
    \<and> decides (pr_annotations r) (call_label c) (call_reason c) edit
    \<and> edit = (case c of CallEdit e _ \<Rightarrow> compact False False e | _ \<Rightarrow> ''''))"
proof (cases c)
  case (CallApprove by' reason)
  then have "PendingActionID wl \<noteq> ''''" "\<exists>info. send_annotations send name version info (Some (decisionAnnotations Approve reason '''')) = (rq, None)"
    using assms by (auto simp: run_call_def ApproveWorkloadWithReason_def Let_def call_start_def split: if_splits option.splits prod.splits)
  then show ?thesis using CallApprove send_decision_ok by (fastforce simp: call_label_def call_reason_def)
next
  case (CallReject by' rule reason)
  then have "PendingActionID wl \<noteq> ''''"
    "\<exists>info. send_annotations send name version info (Some (decisionAnnotations Reject (reject_reason rule reason) '''')) = (rq, None)"
    using assms by (auto simp: run_call_def RejectWorkload_def Let_def call_start_def split: if_splits option.splits prod.splits)
  then show ?thesis using CallReject send_decision_ok by (fastforce simp: call_label_def call_reason_def)
next
  case (CallEdit edit reason)
  obtain text' ann where e: "PendingActionID wl \<noteq> ''''" "compactJSON edit = Some text'"
    "decisionAnnotations Edit reason text' = Inr ann" "patchDecision send name version ann = (rq, None)"
    using assms CallEdit
    by (auto simp: run_call_def EditApproveWorkload_def Let_def call_start_def split: sum.splits option.splits if_splits prod.splits)
  have t: "text' = compact False False edit" using e(2) by (simp add: compactJSON_def split: if_splits)
  show ?thesis
    using e(1) patchDecision_ok [OF e(4)] decisionAnnotations_Inr [OF e(3)] CallEdit t
    by (auto simp: call_label_def call_reason_def)
qed

section \<open>From the call to the controller\<close>

record stored =
  sd_version :: string
  sd_workload :: agent_workload

definition merged :: "annotations \<Rightarrow> patch \<Rightarrow> annotations" where
  "merged ann p = (\<lambda>k. case p k of None \<Rightarrow> ann k | Some v \<Rightarrow> v)"

text \<open>
  What the API server documents of an accepted patch: its version is that of the stored object, the webhook admitted the
  object with the merged annotations for the user of the request, and the status is kept.
\<close>

definition applied :: "string \<Rightarrow> string \<Rightarrow> string list \<Rightarrow> stored \<Rightarrow> patch_request \<Rightarrow> stored \<Rightarrow> bool" where
  "applied key user groups before rq after \<longleftrightarrow>
     (pr_version rq = None \<or> pr_version rq = Some (sd_version before))
     \<and> (\<exists>obj. admission_Default key (Inr user) groups (Some (Inr (sd_workload before)))
            ((sd_workload before)\<lparr>w_annotations := merged (w_annotations (sd_workload before)) (pr_annotations rq)\<rparr>) = Inr obj
          \<and> sd_workload after = obj\<lparr>w_status := w_status (sd_workload before)\<rparr>)"

text \<open>In every stored object a decision is stamped.\<close>

lemma decision_stamped:
  "lifecycle ue art key sp rs wl \<Longrightarrow> get (w_annotations wl) AnnotationDecision \<noteq> [] \<Longrightarrow> get (w_annotations wl) AnnotationBy \<noteq> []"
proof (induction rule: lifecycle.induct)
  case (created u gs new obj)
  then obtain a where a: "Admit Map.empty (w_annotations new) \<lparr>p_id = '''', p_workload = '''', p_payload = ''''\<rparr> u gs key = Inr a"
    "w_annotations obj = a" by (auto simp: admission_Default_def Let_def AdmitApproval_Inr)
  from a(1) show ?case
  proof (cases rule: Admit_cases)
    case same
    then have "get a AnnotationDecision = get Map.empty AnnotationDecision" by (rule same_protocol_get) simp
    then show ?thesis using created.prems a(2) by (simp add: get_def)
  qed (use created.prems a(2) in auto)
next
  case (updated sp rs old u gs new obj)
  then obtain a where a: "Admit (w_annotations old) (w_annotations new) (admitted_pending old) u gs key = Inr a" "w_annotations obj = a"
    by (auto simp: admission_Default_def Let_def AdmitApproval_Inr)
  from a(1) show ?case
  proof (cases rule: Admit_cases)
    case same
    then have "get a k = get (w_annotations old) k" if "k \<in> set protocolKeys" for k using that same_protocol_get by blast
    then show ?thesis using updated.prems updated.IH a(2) by simp
  next
    case stamp
    then show ?thesis using a(2) by (auto simp: stamped_def Stamp_def approver_json_def split: if_splits)
  qed (use updated.prems a(2) in auto)
qed simp

lemma pending_seen: "p_id (admitted_pending wl) = PendingActionID wl"
  by (simp add: admitted_pending_def PendingActionID_def PhasePendingApproval_def pendingRef_def split: option.splits)

lemma merged_get:
  assumes "decides p lbl reason edit"
  shows "get (merged ann p) AnnotationDecision = lbl" "get (merged ann p) AnnotationReason = reason"
    "merged ann p AnnotationEdit = (if edit = '''' then None else Some edit)" "merged ann p AnnotationBy = None"
  using assms by (auto simp: decides_def merged_def get_def split: if_splits)

text \<open>C29: a decision is for the action its human looked at. When a call of the client reports a recorded decision, and the API
  server applied its patch for the user u to an object of any history of admitted requests and status writes, then the object was
  still the one the call read, its status is kept, and the controller reads from the result a decision with the label, the reason
  and the edit of the call, stamped for u and for the pending action of that object. The versions name objects: that is the
  third hypothesis.\<close>

theorem decision_for_action_read:
  assumes "run_call send (Inr (version, wl)) argo_got argo_error now ns name c = (Some rq, Some res, None)" "cl_decided res"
    "sd_version before = version \<longrightarrow> sd_workload before = wl" "applied key u gs before rq after"
    "lifecycle ue art key sp rs (sd_workload before)" "valid_utf8 u"
  shows "\<exists>d. sd_workload before = wl \<and> w_status (sd_workload after) = w_status wl
    \<and> Read (w_annotations (sd_workload after)) (admitted_pending wl) key = Decided d
    \<and> ad_label d = call_label c \<and> ad_reason d = call_reason c \<and> ad_edit d = call_edit c
    \<and> ap_username (ad_approver d) = u \<and> ad_for d = PendingActionID wl \<and> ad_for d \<noteq> ''''"
proof -
  obtain edit where r: "PendingActionID wl \<noteq> ''''" "pr_version rq = Some version"
    "decides (pr_annotations rq) (call_label c) (call_reason c) edit"
    "edit = (case c of CallEdit e _ \<Rightarrow> compact False False e | _ \<Rightarrow> '''')"
    using recorded_call [OF assms(1,2)] by blast
  let ?old = "w_annotations (sd_workload before)"
  let ?new = "merged ?old (pr_annotations rq)"
  have wl: "sd_workload before = wl" using assms(3,4) r(2) by (auto simp: applied_def)
  obtain a where a: "Admit ?old ?new (admitted_pending wl) u gs key = Inr a" "w_annotations (sd_workload after) = a"
    "w_status (sd_workload after) = w_status wl"
    using assms(4) unfolding applied_def wl by (auto simp: admission_Default_def Let_def AdmitApproval_Inr)
  note m = merged_get [OF r(3), of ?old]
  have "call_label c \<noteq> []" using r(3) by (simp add: decides_def)
  have "\<not> same_protocol ?new ?old"
  proof
    assume s: "same_protocol ?new ?old"
    have "get ?old AnnotationDecision \<noteq> []" using same_protocol_get [OF s, of AnnotationDecision] m(1) \<open>call_label c \<noteq> []\<close> by simp
    then have "get ?old AnnotationBy \<noteq> []" by (rule decision_stamped [OF assms(5)])
    moreover have "get ?new AnnotationBy = []" using m(4) by (simp add: get_def)
    ultimately show False using same_protocol_get [OF s, of AnnotationBy] by simp
  qed
  then obtain e where e: "validateFields ?new = Inr (call_label c, e)"
    "Read a (admitted_pending wl) key = Decided \<lparr>ad_label = call_label c, ad_reason = call_reason c,
        ad_edit = e, ad_approver = \<lparr>ap_username = u, ap_groups = sha256_hex (join [CHR 0x0A] (sort gs))\<rparr>,
        ad_approver_raw = get a AnnotationBy, ad_for = PendingActionID wl\<rparr>"
    using Admit_then_Read [OF a(1) _ _ assms(6)] \<open>call_label c \<noteq> []\<close> unfolding m(1,2) pending_seen by blast
  have "e = call_edit c"
    using validateFields_Inr [OF e(1)] r(4) unfolding m(3)
    by (cases c) (auto simp: call_edit_def call_label_def Approve_def Reject_def Edit_def split: if_splits)
  then show ?thesis using a(2,3) wl e(2) r(1) by simp
qed

text \<open>Without a pending action the informational annotations leave the protocol, and what Read returns, as it was.\<close>

lemma info_keeps_protocol:
  assumes "run_call send (Inr (version, wl)) argo_got argo_error now ns name c = (Some rq, Some res, e)" "\<not> cl_decided res"
  shows "same_protocol (merged ann (pr_annotations rq)) ann"
proof -
  have keys: "''agentworkload.clawdlinux.io/approved-at'' \<notin> set protocolKeys" "''agentworkload.clawdlinux.io/approved-by'' \<notin> set protocolKeys"
    "''agentworkload.clawdlinux.io/rejected-at'' \<notin> set protocolKeys" "''agentworkload.clawdlinux.io/rejected-by'' \<notin> set protocolKeys"
    "''agentworkload.clawdlinux.io/rejected-rule'' \<notin> set protocolKeys"
    "''agentworkload.clawdlinux.io/rejection-reason'' \<notin> set protocolKeys"
    by (simp_all add: protocolKeys_def AnnotationDecision_def AnnotationReason_def AnnotationEdit_def AnnotationBy_def
        AnnotationFor_def AnnotationMAC_def)
  have sent: "rq' = Some \<lparr>pr_version = None, pr_annotations = info\<rparr>" if "send_annotations send name version info None = (rq', e')" for rq' info e'
    using that by (auto simp: send_annotations_def Let_def)
  have "\<forall>k\<in>set protocolKeys. pr_annotations rq k = None"
  proof (cases c)
    case (CallApprove by' reason)
    then have "\<exists>a x. send_annotations send name version [''agentworkload.clawdlinux.io/approved-at'' \<mapsto> Some now,
        ''agentworkload.clawdlinux.io/approved-by'' \<mapsto> Some a] None = (Some rq, x)"
      using assms by (auto simp: run_call_def ApproveWorkloadWithReason_def Let_def split: if_splits option.splits prod.splits)
    then show ?thesis using sent keys by fastforce
  next
    case (CallReject by' rule reason)
    obtain info x where i: "send_annotations send name version info None = (Some rq, x)" "\<forall>k\<in>set protocolKeys. info k = None"
    proof -
      define i1 where "i1 a = [''agentworkload.clawdlinux.io/rejected-at'' \<mapsto> Some now, ''agentworkload.clawdlinux.io/rejected-by'' \<mapsto> Some (a :: string)]" for a
      define i2 where "i2 a = (if rule \<noteq> '''' then (i1 a)(''agentworkload.clawdlinux.io/rejected-rule'' \<mapsto> Some rule) else i1 a)" for a
      define info where "info a = (if reason \<noteq> '''' then (i2 a)(''agentworkload.clawdlinux.io/rejection-reason'' \<mapsto> Some reason) else i2 a)" for a
      have "\<exists>a x. send_annotations send name version (info a) None = (Some rq, x)"
        using assms CallReject unfolding info_def i2_def i1_def
        by (auto simp: run_call_def RejectWorkload_def Let_def split: if_splits option.splits prod.splits)
      moreover have "\<forall>k\<in>set protocolKeys. info a k = None" for a
        using keys by (auto simp: info_def i2_def i1_def)
      ultimately show thesis using that by blast
    qed
    then show ?thesis using sent [OF i(1)] by simp
  next
    case (CallEdit edit reason)
    then show ?thesis using assms
      by (auto simp: run_call_def EditApproveWorkload_def Let_def split: sum.splits option.splits if_splits prod.splits)
  qed
  then show ?thesis by (simp add: same_protocol_def merged_def)
qed

text \<open>Compacting leaves no white space outside of texts, keeps the text when there is none, and never makes it longer.\<close>

lemma compact_idem: "compact i False (compact i False s) = compact i False s \<and> compact True True (compact True True s) = compact True True s"
proof (induction s arbitrary: i)
  case (Cons c s)
  show ?case using Cons.IH by (cases i; cases "c = CHR 0x5C") auto
qed simp

lemma compact_length: "length (compact i e s) \<le> length s"
proof (induction s arbitrary: i e)
  case (Cons c s)
  show ?case using Cons.IH [of False False] Cons.IH [of "c = CHR 0x22" False] Cons.IH [of True False] Cons.IH [of "c \<noteq> CHR 0x22" "c = CHR 0x5C"]
    by (cases i; cases e) auto
qed simp

section \<open>Witness\<close>

definition held_object :: agent_workload where
  "held_object = wit_request\<lparr>w_spec := wit_admitted_spec, w_status := wit_status\<rparr>"

lemma held_object_life: "lifecycle ue art ''key'' wit_admitted_spec [bob_request] held_object"
  using lifecycle.status [OF wit_created, of ue art wit_status] by (simp add: held_object_def)

definition approve_call :: decision_call where
  "approve_call = CallApprove ''alice'' ''''"

definition approve_patch :: patch_request where
  "approve_patch = \<lparr>pr_version = Some ''7'', pr_annotations =
     [''agentworkload.clawdlinux.io/approved-at'' \<mapsto> Some ''now'', ''agentworkload.clawdlinux.io/approved-by'' \<mapsto> Some ''alice'']
     ++ [AnnotationDecision \<mapsto> Some Approve, AnnotationReason \<mapsto> None, AnnotationEdit \<mapsto> None, AnnotationBy \<mapsto> None,
         AnnotationFor \<mapsto> None, AnnotationMAC \<mapsto> None]\<rparr>"

lemma approve_runs:
  "\<exists>res. run_call (\<lambda>_. PatchOk) (Inr (''7'', held_object)) (Inl ''none'') None ''now'' ''ns'' ''w'' approve_call
    = (Some approve_patch, Some res, None) \<and> cl_decided res"
proof -
  have "validateFields [AnnotationDecision \<mapsto> Approve] = Inr (''approve'', None)"
    using wit_valid by (simp add: wit_new_def Approve_def)
  then have "decisionAnnotations Approve '''' '''' = Inr [AnnotationDecision \<mapsto> Some Approve, AnnotationReason \<mapsto> None,
      AnnotationEdit \<mapsto> None, AnnotationBy \<mapsto> None, AnnotationFor \<mapsto> None, AnnotationMAC \<mapsto> None]"
    by (simp add: decisionAnnotations_def ValidateDecision_def)
  then show ?thesis
    by (simp add: run_call_def approve_call_def ApproveWorkloadWithReason_def decidable_phase_def held_object_def wit_status_def
        empty_status_def PhasePendingApproval_def PendingActionID_def wit_waiting_def send_annotations_def patchDecision_def
        approve_patch_def resume_workflow_def)
qed

lemma approve_applied:
  "\<exists>after. applied ''key'' ''alice'' [''ops''] \<lparr>sd_version = ''7'', sd_workload = held_object\<rparr> approve_patch after"
proof -
  let ?new = "merged Map.empty (pr_annotations approve_patch)"
  have "AnnotationDecision \<in> set protocolKeys" "?new AnnotationDecision \<noteq> Map.empty AnnotationDecision"
    by (simp_all add: merged_def approve_patch_def)
  then have "list_ex (\<lambda>k. ?new k \<noteq> Map.empty k) protocolKeys" unfolding list_ex_iff by blast
  moreover have g: "get ?new AnnotationDecision = Approve" "get ?new AnnotationReason = []" "?new AnnotationEdit = None"
    "get ?new AnnotationBy = []" "get ?new AnnotationFor = []" "get ?new AnnotationMAC = []"
    by (simp_all add: merged_def approve_patch_def get_def)
  moreover have "validateFields ?new = Inr (Approve, None)"
    using g wit_utf8 by (simp add: validateFields_def Let_def Approve_def Edit_def MaxReasonBytes_def)
  moreover have "p_id (admitted_pending held_object) = ''p1''"
    by (simp add: held_object_def admitted_pending_def wit_status_def empty_status_def wit_waiting_def pendingRef_def)
  ultimately obtain a where "Admit Map.empty ?new (admitted_pending held_object) ''alice'' [''ops''] ''key'' = Inr a"
    using wit_user wit_get(8) by (simp add: Admit_def Let_def stampKeys_def Approve_def)
  moreover have "w_annotations held_object = Map.empty" by (simp add: held_object_def wit_request_def)
  ultimately show ?thesis
    by (auto simp: applied_def approve_patch_def admission_Default_def AdmitApproval_def Let_def intro: exI [of _ "\<lparr>sd_version = _, sd_workload = _\<rparr>"])
qed

lemma decision_for_action_read_witness:
  "\<exists>after d. applied ''key'' ''alice'' [''ops''] \<lparr>sd_version = ''7'', sd_workload = held_object\<rparr> approve_patch after
    \<and> Read (w_annotations (sd_workload after)) (admitted_pending held_object) ''key'' = Decided d \<and> ad_label d = Approve
    \<and> ap_username (ad_approver d) = ''alice'' \<and> ad_for d = ''p1''"
proof -
  obtain res where r: "run_call (\<lambda>_. PatchOk) (Inr (''7'', held_object)) (Inl ''none'') None ''now'' ''ns'' ''w'' approve_call
    = (Some approve_patch, Some res, None)" "cl_decided res" using approve_runs by blast
  obtain after where a: "applied ''key'' ''alice'' [''ops''] \<lparr>sd_version = ''7'', sd_workload = held_object\<rparr> approve_patch after"
    using approve_applied by blast
  have l: "lifecycle (\<lambda>_. '''') 0 ''key'' wit_admitted_spec [bob_request] (sd_workload \<lparr>sd_version = ''7'', sd_workload = held_object\<rparr>)"
    using held_object_life by simp
  have p: "PendingActionID held_object = ''p1''"
    by (simp add: PendingActionID_def held_object_def wit_status_def empty_status_def wit_waiting_def PhasePendingApproval_def)
  show ?thesis
    using decision_for_action_read [OF r _ a l wit_utf8(1)] a unfolding p by (auto simp: approve_call_def call_label_def)
qed

end
