(* ===== verification/WebGate.thy ===== *)
theory WebGate
  imports AgentCtl
begin

text \<open>
  The gate of the web dashboard: cmd/agentctl-web/auth.go, middleware.go and the handlers of handlers.go that act on a workload.
  A request carries what net/http parsed of it; token reviews, access reviews and the API server behind the
  client are arguments. Templates, logging, request identifiers and the pages without a decision are left out.
\<close>

section \<open>Requests and replies\<close>

record web_request =
  wq_method :: string
  wq_path :: string
  wq_authorization :: string
  wq_token_cookie :: "string option"
  wq_csrf_cookie :: "string option"
  wq_csrf_header :: string
  wq_form :: "string \<Rightarrow> string"

record user_info =
  ui_username :: string
  ui_uid :: string
  ui_groups :: "string list"

record access_review =
  av_user :: string
  av_groups :: "string list"
  av_namespace :: string
  av_verb :: string
  av_resource :: string
  av_name :: string

datatype web_reply = Redirect string | HttpError int string | Page

text \<open>What the server reaches: the review of a token (authenticated, and who it is), the review of an access (allowed, and the
  reason), and the API server under the identity of the server itself.\<close>

record web_world =
  ww_review :: "string \<Rightarrow> (bool \<times> user_info) err"
  ww_access :: "access_review \<Rightarrow> (bool \<times> string) err"
  ww_get :: "string \<Rightarrow> string \<Rightarrow> (string \<times> agent_workload) err"
  ww_send :: "string \<Rightarrow> string \<Rightarrow> patch_request \<Rightarrow> patch_answer"
  ww_argo :: "string \<Rightarrow> gany err"
  ww_argo_patch :: "string \<Rightarrow> string option"
  ww_now :: string

section \<open>Authentication\<close>

definition extractBearerToken :: "web_request \<Rightarrow> string" where
  "extractBearerToken r =
     (if wq_authorization r \<noteq> '''' \<and> has_prefix (wq_authorization r) ''Bearer '' then drop 7 (wq_authorization r)
      else case wq_token_cookie r of Some v \<Rightarrow> v | None \<Rightarrow> '''')"

definition Authenticate :: "(string \<Rightarrow> (bool \<times> user_info) err) \<Rightarrow> string \<Rightarrow> user_info err" where
  "Authenticate review token =
     (if trim_space token = '''' then Inl ''empty token''
      else case review token of
          Inl e \<Rightarrow> Inl (''token review failed: '' @ e)
        | Inr (authenticated, user) \<Rightarrow> if \<not> authenticated then Inl ''token not authenticated'' else Inr user)"

definition Authorize :: "(access_review \<Rightarrow> (bool \<times> string) err) \<Rightarrow> user_info \<Rightarrow> string \<Rightarrow> string \<Rightarrow> string \<Rightarrow> string
    \<Rightarrow> (bool \<times> string) err" where
  "Authorize access user verb resource namespace name =
     (case access \<lparr>av_user = ui_username user, av_groups = ui_groups user, av_namespace = namespace, av_verb = verb,
                     av_resource = resource, av_name = name\<rparr> of
        Inl e \<Rightarrow> Inl (''subject access review failed: '' @ e)
      | Inr (allowed, reason) \<Rightarrow>
          if \<not> allowed then Inr (False, if reason = '''' then ''access denied'' else reason) else Inr (True, ''''))"

definition public_path :: "string \<Rightarrow> bool" where
  "public_path p \<longleftrightarrow> p = ''/auth/login'' \<or> p = ''/healthz'' \<or> p = ''/readyz'' \<or> p = ''/static/'' \<or> has_prefix p ''/static/''
     \<or> p = ''/theme/'' \<or> has_prefix p ''/theme/''"

text \<open>The handlers below take the user of the context, if any, and return the reply with the writes that were sent, in
  order: a patch of a workload, and the patch that resumes the Argo workflow of a name in a namespace.\<close>

datatype web_write = WriteWorkload string string patch_request | ResumeWorkflow string string

type_synonym web_result = "web_reply \<times> web_write list"

definition AuthMiddleware :: "(string \<Rightarrow> (bool \<times> user_info) err) \<Rightarrow> (user_info option \<Rightarrow> web_request \<Rightarrow> web_result)
    \<Rightarrow> web_request \<Rightarrow> web_result" where
  "AuthMiddleware review next_handler r =
     (if public_path (wq_path r) then next_handler None r
      else let token = extractBearerToken r in
        if token = '''' then (Redirect ''/auth/login'', [])
        else case Authenticate review token of
            Inl e \<Rightarrow> (Redirect ''/auth/login?error=invalid_token'', [])
          | Inr user \<Rightarrow> next_handler (Some user) r)"

section \<open>Cross-site requests\<close>

definition csrf_cookie :: "string \<Rightarrow> web_request \<Rightarrow> string" where
  "csrf_cookie fresh r = (case wq_csrf_cookie r of None \<Rightarrow> fresh | Some v \<Rightarrow> if v = '''' then fresh else v)"

definition csrf_token :: "web_request \<Rightarrow> string" where
  "csrf_token r = (if wq_form r ''csrf_token'' = '''' then wq_csrf_header r else wq_form r ''csrf_token'')"

definition CSRFMiddleware :: "string \<Rightarrow> (user_info option \<Rightarrow> web_request \<Rightarrow> web_result) \<Rightarrow> user_info option
    \<Rightarrow> web_request \<Rightarrow> web_result" where
  "CSRFMiddleware fresh next_handler user r =
     (if (wq_method r = ''POST'' \<or> wq_method r = ''PUT'' \<or> wq_method r = ''DELETE'') \<and> wq_path r \<noteq> ''/auth/login''
         \<and> (csrf_token r = '''' \<or> csrf_token r \<noteq> csrf_cookie fresh r)
      then (HttpError 403 ''CSRF token mismatch'', [])
      else next_handler user r)"

section \<open>Handlers\<close>

definition denied :: "(bool \<times> string) err \<Rightarrow> web_reply option" where
  "denied res = (case res of
       Inl e \<Rightarrow> Some (HttpError 403 ''Access denied'')
     | Inr (allowed, reason) \<Rightarrow>
         if \<not> allowed then Some (HttpError 403 (if reason \<noteq> '''' then reason else ''Access denied'')) else None)"

text \<open>The handlers assert that the context has a user; without one they panic, which the HTTP server turns into a closed
  connection.\<close>

definition panicked :: web_reply where "panicked = HttpError 0 ''panic''"

definition DefaultArgoNamespace :: string where "DefaultArgoNamespace = ''argo-workflows''"

definition workload_write :: "string \<Rightarrow> string \<Rightarrow> patch_request option \<Rightarrow> web_write list" where
  "workload_write ns name rq = (case rq of None \<Rightarrow> [] | Some q \<Rightarrow> [WriteWorkload ns name q])"

definition handleApprove :: "web_world \<Rightarrow> string \<Rightarrow> string \<Rightarrow> user_info option \<Rightarrow> web_request \<Rightarrow> web_result" where
  "handleApprove w ns name ctx_user r =
     (case ctx_user of None \<Rightarrow> (panicked, [])
      | Some user \<Rightarrow>
          (case denied (Authorize (ww_access w) user ''update'' ''agentworkloads'' ns name) of
             Some reply \<Rightarrow> (reply, [])
           | None \<Rightarrow>
               (case ApproveWorkload (ww_send w ns name) (ww_get w ns name) (ww_argo w name) (ww_argo_patch w name) (ww_now w)
                       ns name (ui_username user) of
                  ((rq, _, e), patched) \<Rightarrow>
                    (case e of Some x \<Rightarrow> HttpError 400 ''Failed to approve workload'' | None \<Rightarrow> Page,
                     workload_write ns name rq @ (if patched then [ResumeWorkflow DefaultArgoNamespace name] else [])))))"

definition handleReject :: "web_world \<Rightarrow> string \<Rightarrow> string \<Rightarrow> user_info option \<Rightarrow> web_request \<Rightarrow> web_result" where
  "handleReject w ns name ctx_user r =
     (case ctx_user of None \<Rightarrow> (panicked, [])
      | Some user \<Rightarrow>
          (case denied (Authorize (ww_access w) user ''update'' ''agentworkloads'' ns name) of
             Some reply \<Rightarrow> (reply, [])
           | None \<Rightarrow>
               (case RejectWorkload (ww_send w ns name) (ww_get w ns name) (ww_now w) ns name (wq_form r ''rule'')
                       (wq_form r ''reason'') (ui_username user) of
                  (rq, _, Some e) \<Rightarrow> (HttpError 400 ''Failed to reject workload'', workload_write ns name rq)
                | (rq, _, None) \<Rightarrow> (Page, workload_write ns name rq))))"

definition handleDescribe :: "web_world \<Rightarrow> string \<Rightarrow> string \<Rightarrow> user_info option \<Rightarrow> web_request \<Rightarrow> web_result" where
  "handleDescribe w ns name ctx_user r =
     (case ctx_user of None \<Rightarrow> (panicked, [])
      | Some user \<Rightarrow>
          (case denied (Authorize (ww_access w) user ''get'' ''agentworkloads'' ns name) of
             Some reply \<Rightarrow> (reply, []) | None \<Rightarrow> (Page, [])))"

text \<open>The routes of main.go, on the segments of the path; the pages that take no workload send nothing.\<close>

definition mux :: "web_world \<Rightarrow> user_info option \<Rightarrow> web_request \<Rightarrow> web_result" where
  "mux w user r =
     (case split_byte CHR ''/'' (wq_path r) of
        [a, b, ns, name, verb] \<Rightarrow>
          if a = '''' \<and> b = ''workloads'' \<and> ns \<noteq> '''' \<and> name \<noteq> '''' \<and> wq_method r = ''POST'' \<and> verb = ''approve''
          then handleApprove w ns name user r
          else if a = '''' \<and> b = ''workloads'' \<and> ns \<noteq> '''' \<and> name \<noteq> '''' \<and> wq_method r = ''POST'' \<and> verb = ''reject''
          then handleReject w ns name user r
          else (Page, [])
      | [a, b, ns, name] \<Rightarrow>
          if a = '''' \<and> b = ''workloads'' \<and> ns \<noteq> '''' \<and> name \<noteq> '''' \<and> wq_method r = ''GET''
          then handleDescribe w ns name user r
          else (Page, [])
      | _ \<Rightarrow> (Page, []))"

definition web_handle :: "web_world \<Rightarrow> string \<Rightarrow> web_request \<Rightarrow> web_result" where
  "web_handle w fresh = AuthMiddleware (ww_review w) (CSRFMiddleware fresh (mux w))"

section \<open>What a sent patch proves\<close>

lemma denied_None: "denied (Authorize access user verb resource ns name) = None \<longleftrightarrow>
    (\<exists>reason. access \<lparr>av_user = ui_username user, av_groups = ui_groups user, av_namespace = ns, av_verb = verb,
       av_resource = resource, av_name = name\<rparr> = Inr (True, reason))"
  by (auto simp: denied_def Authorize_def split: sum.splits prod.splits if_splits)

lemma Authenticate_Inr: "Authenticate review token = Inr user \<longleftrightarrow> trim_space token \<noteq> '''' \<and> review token = Inr (True, user)"
  by (auto simp: Authenticate_def split: sum.splits prod.splits if_splits)

text \<open>A resumed workflow comes after the patch of the workload, which the API server accepted.\<close>

lemma approve_writes:
  assumes "ApproveWorkload send got ag ae now ns name user = ((rq, res, e), patched)"
  shows "patched \<longrightarrow> (\<exists>q. rq = Some q \<and> send q = PatchOk)"
proof -
  have p: "(\<exists>q. r = Some q \<and> send q = PatchOk)" if "send_annotations send name version info d = (r, None)" for r version info d
    using that by (auto simp: send_annotations_def patchDecision_def Let_def split: option.splits sum.splits if_splits patch_answer.splits)
  show ?thesis using assms
    by (auto simp: ApproveWorkload_def ApproveWorkloadWithReason_def Let_def split: sum.splits prod.splits if_splits option.splits dest!: p)
qed

text \<open>Writes are only sent by the two decisions, for a user that is allowed to update the workload.\<close>

lemma mux_sends:
  assumes "mux w user r = (reply, ws)" "ws \<noteq> []"
  shows "\<exists>ns name verb u reason rq. split_byte CHR ''/'' (wq_path r) = ['''', ''workloads'', ns, name, verb]
    \<and> verb \<in> {''approve'', ''reject''} \<and> wq_method r = ''POST'' \<and> user = Some u
    \<and> ww_access w \<lparr>av_user = ui_username u, av_groups = ui_groups u, av_namespace = ns, av_verb = ''update'',
        av_resource = ''agentworkloads'', av_name = name\<rparr> = Inr (True, reason)
    \<and> (ws = [WriteWorkload ns name rq] \<or> verb = ''approve'' \<and> ww_send w ns name rq = PatchOk
         \<and> ws = [WriteWorkload ns name rq, ResumeWorkflow DefaultArgoNamespace name])
    \<and> (verb = ''approve'' \<longrightarrow> (\<exists>res. fst (ApproveWorkload (ww_send w ns name) (ww_get w ns name) (ww_argo w name)
         (ww_argo_patch w name) (ww_now w) ns name (ui_username u)) = (Some rq, res)))"
proof -
  obtain ns name verb where s: "split_byte CHR ''/'' (wq_path r) = ['''', ''workloads'', ns, name, verb]" "wq_method r = ''POST''"
    "verb = ''approve'' \<and> handleApprove w ns name user r = (reply, ws) \<or> verb = ''reject'' \<and> handleReject w ns name user r = (reply, ws)"
    using assms by (auto simp: mux_def handleDescribe_def split: list.splits if_splits option.splits)
  obtain u where u: "user = Some u" "denied (Authorize (ww_access w) u ''update'' ''agentworkloads'' ns name) = None"
    using s(3) assms(2) by (auto simp: handleApprove_def handleReject_def split: option.splits)
  have "\<exists>rq. (ws = [WriteWorkload ns name rq] \<or> verb = ''approve'' \<and> ww_send w ns name rq = PatchOk
         \<and> ws = [WriteWorkload ns name rq, ResumeWorkflow DefaultArgoNamespace name])
    \<and> (verb = ''approve'' \<longrightarrow> (\<exists>res. fst (ApproveWorkload (ww_send w ns name) (ww_get w ns name) (ww_argo w name)
         (ww_argo_patch w name) (ww_now w) ns name (ui_username u)) = (Some rq, res)))"
    using s(3)
  proof (elim disjE conjE)
    assume v: "verb = ''approve''" "handleApprove w ns name user r = (reply, ws)"
    obtain rq res e patched where a: "ApproveWorkload (ww_send w ns name) (ww_get w ns name) (ww_argo w name)
         (ww_argo_patch w name) (ww_now w) ns name (ui_username u) = ((rq, res, e), patched)" by (metis prod.exhaust)
    have ws: "ws = workload_write ns name rq @ (if patched then [ResumeWorkflow DefaultArgoNamespace name] else [])"
      using v(2) u a by (simp add: handleApprove_def)
    show ?thesis using ws approve_writes [OF a] a v(1) assms(2) by (cases rq) (auto simp: workload_write_def split: if_splits)
  next
    assume v: "verb = ''reject''" "handleReject w ns name user r = (reply, ws)"
    obtain rq res e where a: "RejectWorkload (ww_send w ns name) (ww_get w ns name) (ww_now w) ns name
         (wq_form r ''rule'') (wq_form r ''reason'') (ui_username u) = (rq, res, e)" by (metis prod.exhaust)
    have "ws = workload_write ns name rq" using v(2) u a by (simp add: handleReject_def split: option.splits)
    then show ?thesis using v(1) assms(2) by (cases rq) (auto simp: workload_write_def)
  qed
  moreover have "verb \<in> {''approve'', ''reject''}" using s(3) by blast
  ultimately show ?thesis using s(1,2) u denied_None by blast
qed

text \<open>The patch of an approval: the informational annotations with its user, and a decision when an action is pending.\<close>

definition approve_info :: "string \<Rightarrow> string \<Rightarrow> patch" where
  "approve_info now user = [''agentworkload.clawdlinux.io/approved-at'' \<mapsto> Some now,
       ''agentworkload.clawdlinux.io/approved-by'' \<mapsto> Some (if user = '''' then ''agentctl-web'' else user)]"

definition approve_decision :: "agent_workload \<Rightarrow> string \<Rightarrow> (approval_error + patch) option" where
  "approve_decision wl reason = (if PendingActionID wl \<noteq> '''' then Some (decisionAnnotations Approve reason '''') else None)"

lemma approve_sends:
  assumes "ApproveWorkloadWithReason send got ag ae now ns name user reason = ((Some rq, res), p)"
  shows "\<exists>version wl x. got = Inr (version, wl)
    \<and> send_annotations send name version (approve_info now user) (approve_decision wl reason) = (Some rq, x)"
proof -
  obtain version wl where g: "got = Inr (version, wl)" "decidable_phase (st_phase (w_status wl))"
    using assms by (cases got) (auto simp: ApproveWorkloadWithReason_def Let_def split: prod.splits if_splits)
  obtain rq' x where x: "send_annotations send name version (approve_info now user) (approve_decision wl reason) = (rq', x)"
    by (rule prod.exhaust)
  have "ApproveWorkloadWithReason send got ag ae now ns name user reason =
      (case send_annotations send name version (approve_info now user) (approve_decision wl reason) of
         (r, Some e) \<Rightarrow> ((r, None, Some e), False)
       | (r, None) \<Rightarrow> (case resume_workflow ag ae of (patched, resumed) \<Rightarrow>
           ((r, Some ((call_start ns name (st_phase (w_status wl)))\<lparr>cl_decided := PendingActionID wl \<noteq> '''', cl_resumed := resumed\<rparr>), None), patched)))"
    unfolding ApproveWorkloadWithReason_def Let_def approve_info_def approve_decision_def
    by (simp only: g sum.case prod.case not_True_eq_False if_False)
  then have "rq' = Some rq" using assms x by (simp split: option.splits prod.splits)
  then show ?thesis using g(1) x by blast
qed

lemma sent_annotation:
  assumes "send_annotations send name version info d = (Some rq, x)"
  shows "pr_annotations rq k = (case d of Some (Inr ann) \<Rightarrow> (case ann k of None \<Rightarrow> info k | Some v \<Rightarrow> Some v) | _ \<Rightarrow> info k)"
  using assms by (auto simp: send_annotations_def patchDecision_def Let_def map_add_def split: option.splits sum.splits if_splits)

lemma approve_keys:
  "k \<in> set protocolKeys \<Longrightarrow> approve_info now user k = None"
  "decisionAnnotations l r e = Inr ann \<Longrightarrow> ann ''agentworkload.clawdlinux.io/approved-by'' = None"
proof -
  have keys: "''agentworkload.clawdlinux.io/approved-by'' \<notin> set protocolKeys" "''agentworkload.clawdlinux.io/approved-at'' \<notin> set protocolKeys"
    by (simp_all add: protocolKeys_def AnnotationDecision_def AnnotationReason_def AnnotationEdit_def AnnotationBy_def
        AnnotationFor_def AnnotationMAC_def)
  show "k \<in> set protocolKeys \<Longrightarrow> approve_info now user k = None" using keys by (auto simp: approve_info_def)
  show "decisionAnnotations l r e = Inr ann \<Longrightarrow> ann ''agentworkload.clawdlinux.io/approved-by'' = None"
    using keys by (auto simp: decisionAnnotations_def Let_def protocolKeys_def split: option.splits)
qed

lemma approve_names_user:
  assumes "ApproveWorkloadWithReason send got ag ae now ns name user reason = ((Some rq, res), p)"
  shows "pr_annotations rq ''agentworkload.clawdlinux.io/approved-by'' = Some (Some (if user = '''' then ''agentctl-web'' else user))"
proof -
  obtain version wl x where "send_annotations send name version (approve_info now user) (approve_decision wl reason) = (Some rq, x)"
    using approve_sends [OF assms] by blast
  from sent_annotation [OF this, of "''agentworkload.clawdlinux.io/approved-by''"] show ?thesis
    by (cases "decisionAnnotations Approve reason ''''")
      (auto simp: approve_decision_def approve_info_def approve_keys(2) split: if_splits)
qed

lemma split_segment: "d \<notin> set l \<Longrightarrow> split_byte d (l @ d # s) = l # split_byte d s"
  by (induction l) auto

text \<open>The path of a decision is never public: its second segment is workloads.\<close>

lemma decision_path_private:
  assumes "split_byte CHR ''/'' p = ['''', ''workloads'', ns, name, verb]"
  shows "\<not> public_path p"
proof
  have start: "\<not> (\<exists>t. p = [] @ CHR ''/'' # (l @ CHR ''/'' # t))" if l: "CHR ''/'' \<notin> set l" "l \<noteq> ''workloads''" for l
  proof
    assume "\<exists>t. p = [] @ CHR ''/'' # (l @ CHR ''/'' # t)"
    then obtain t where t: "p = [] @ CHR ''/'' # (l @ CHR ''/'' # t)" ..
    have "split_byte CHR ''/'' p = [] # l # split_byte CHR ''/'' t"
      unfolding t using split_segment [of "CHR ''/''" "[]"] split_segment [OF l(1)] by simp
    then show False using assms l(2) by simp
  qed
  have fixed: "split_byte CHR ''/'' ''/auth/login'' = ['''', ''auth'', ''login'']" "split_byte CHR ''/'' ''/healthz'' = ['''', ''healthz'']"
    "split_byte CHR ''/'' ''/readyz'' = ['''', ''readyz'']" by code_simp+
  assume "public_path p"
  then have "p = ''/auth/login'' \<or> p = ''/healthz'' \<or> p = ''/readyz'' \<or> has_prefix p ''/static/'' \<or> has_prefix p ''/theme/''"
    unfolding public_path_def has_prefix_prefix by blast
  then show False
  proof (elim disjE)
    assume "has_prefix p ''/static/''"
    then obtain t where "p = ''/static/'' @ t" unfolding has_prefix_prefix prefix_def ..
    then show False using start [of "''static''"] by simp
  next
    assume "has_prefix p ''/theme/''"
    then obtain t where "p = ''/theme/'' @ t" unfolding has_prefix_prefix prefix_def ..
    then show False using start [of "''theme''"] by simp
  qed (use assms fixed in simp_all)
qed

text \<open>C30: who decides on the dashboard. Whatever request the server handles, when it sends any write then the request is a POST
  to the approve or the reject path of a workload, carries a token that the review authenticated, is made by a user whom the access
  review allows to update this workload, and has a CSRF token that is not empty and equals its cookie, or the fresh value when it
  has none; the first write is a patch of this workload and an approval names that user in it, as approved-by, or agentctl-web when
  the name is empty. The only other write is the patch of an approval that resumes the workflow of the workload's name in the
  namespace argo-workflows, after the API server accepted the first; that object has no access review of its own.\<close>

theorem web_decision_authorised:
  assumes "web_handle w fresh r = (reply, ws)" "ws \<noteq> []"
  shows "\<exists>ns name verb u reason rq. split_byte CHR ''/'' (wq_path r) = ['''', ''workloads'', ns, name, verb]
    \<and> verb \<in> {''approve'', ''reject''} \<and> wq_method r = ''POST''
    \<and> ww_review w (extractBearerToken r) = Inr (True, u) \<and> extractBearerToken r \<noteq> ''''
    \<and> ww_access w \<lparr>av_user = ui_username u, av_groups = ui_groups u, av_namespace = ns, av_verb = ''update'',
        av_resource = ''agentworkloads'', av_name = name\<rparr> = Inr (True, reason)
    \<and> csrf_token r \<noteq> '''' \<and> csrf_token r = csrf_cookie fresh r
    \<and> (ws = [WriteWorkload ns name rq] \<or> verb = ''approve'' \<and> ww_send w ns name rq = PatchOk
         \<and> ws = [WriteWorkload ns name rq, ResumeWorkflow DefaultArgoNamespace name])
    \<and> (verb = ''approve'' \<longrightarrow> pr_annotations rq ''agentworkload.clawdlinux.io/approved-by''
          = Some (Some (if ui_username u = '''' then ''agentctl-web'' else ui_username u)))"
proof -
  have m: "\<exists>user. CSRFMiddleware fresh (mux w) user r = (reply, ws)
      \<and> (public_path (wq_path r) \<or> extractBearerToken r \<noteq> '''' \<and> (\<exists>u. user = Some u \<and> Authenticate (ww_review w) (extractBearerToken r) = Inr u))"
    using assms by (auto simp: web_handle_def AuthMiddleware_def Let_def split: if_splits sum.splits)
  then obtain user where user: "CSRFMiddleware fresh (mux w) user r = (reply, ws)"
    "public_path (wq_path r) \<or> extractBearerToken r \<noteq> '''' \<and> (\<exists>u. user = Some u \<and> Authenticate (ww_review w) (extractBearerToken r) = Inr u)"
    by blast
  have mux: "mux w user r = (reply, ws)" using user(1) assms(2) by (auto simp: CSRFMiddleware_def split: if_splits)
  obtain ns name verb u reason rq where s: "split_byte CHR ''/'' (wq_path r) = ['''', ''workloads'', ns, name, verb]"
    "verb \<in> {''approve'', ''reject''}" "wq_method r = ''POST''" "user = Some u"
    "ww_access w \<lparr>av_user = ui_username u, av_groups = ui_groups u, av_namespace = ns, av_verb = ''update'',
        av_resource = ''agentworkloads'', av_name = name\<rparr> = Inr (True, reason)"
    "ws = [WriteWorkload ns name rq] \<or> verb = ''approve'' \<and> ww_send w ns name rq = PatchOk
         \<and> ws = [WriteWorkload ns name rq, ResumeWorkflow DefaultArgoNamespace name]"
    "verb = ''approve'' \<longrightarrow> (\<exists>res. fst (ApproveWorkload (ww_send w ns name) (ww_get w ns name) (ww_argo w name)
         (ww_argo_patch w name) (ww_now w) ns name (ui_username u)) = (Some rq, res))"
    using mux_sends [OF mux assms(2)] by blast
  have hidden: "\<not> public_path (wq_path r)" using decision_path_private [OF s(1)] .
  then have "wq_path r \<noteq> ''/auth/login''" by (auto simp: public_path_def)
  then have csrf: "csrf_token r \<noteq> '''' \<and> csrf_token r = csrf_cookie fresh r"
    using user(1) s(3) assms(2) by (auto simp: CSRFMiddleware_def split: if_splits)
  have auth: "ww_review w (extractBearerToken r) = Inr (True, u)" "extractBearerToken r \<noteq> ''''"
    using user(2) hidden s(4) by (auto simp: Authenticate_Inr)
  have "pr_annotations rq ''agentworkload.clawdlinux.io/approved-by''
      = Some (Some (if ui_username u = '''' then ''agentctl-web'' else ui_username u))" if v: "verb = ''approve''"
  proof -
    obtain res p where "ApproveWorkload (ww_send w ns name) (ww_get w ns name) (ww_argo w name)
         (ww_argo_patch w name) (ww_now w) ns name (ui_username u) = ((Some rq, res), p)"
      using s(7) v by (metis prod.collapse)
    then show ?thesis unfolding ApproveWorkload_def by (rule approve_names_user)
  qed
  then show ?thesis using s(1-3,5,6) csrf auth by blast
qed

text \<open>The decision on record is the server's: the webhook stamps the identity under which the patch arrives, and all users of
  the dashboard share the one of the server. Two users who approve one object send the same protocol annotations.\<close>

lemma dashboard_users_alike:
  assumes "ApproveWorkload send got ag ae now ns name user1 = ((Some rq1, res1), p1)"
    "ApproveWorkload send got ag ae now ns name user2 = ((Some rq2, res2), p2)" "k \<in> set protocolKeys"
  shows "pr_annotations rq1 k = pr_annotations rq2 k"
proof -
  obtain version wl x1 where 1: "got = Inr (version, wl)"
    "send_annotations send name version (approve_info now user1) (approve_decision wl '''') = (Some rq1, x1)"
    using approve_sends [OF assms(1) [unfolded ApproveWorkload_def]] by blast
  obtain x2 where 2: "send_annotations send name version (approve_info now user2) (approve_decision wl '''') = (Some rq2, x2)"
    using approve_sends [OF assms(2) [unfolded ApproveWorkload_def]] 1(1) by auto
  show ?thesis unfolding sent_annotation [OF 1(2)] sent_annotation [OF 2] approve_keys(1) [OF assms(3)] by (rule refl)
qed

section \<open>Witness\<close>

definition web_flow :: gany where
  "web_flow = GMap [(''status'', GMap [(''phase'', GStr ''Suspended'')])]"

definition web_wit_world :: web_world where
  "web_wit_world = \<lparr>ww_review = \<lambda>t. Inr (True, \<lparr>ui_username = ''alice'', ui_uid = ''1'', ui_groups = []\<rparr>),
     ww_access = \<lambda>a. Inr (True, ''''), ww_get = \<lambda>ns name. Inr (''7'', held_object), ww_send = \<lambda>ns name rq. PatchOk,
     ww_argo = \<lambda>name. Inr web_flow, ww_argo_patch = \<lambda>name. None, ww_now = ''now''\<rparr>"

definition web_wit_request :: web_request where
  "web_wit_request = \<lparr>wq_method = ''POST'', wq_path = ''/workloads/ns/w/approve'', wq_authorization = ''Bearer t'',
     wq_token_cookie = None, wq_csrf_cookie = Some ''c'', wq_csrf_header = ''c'', wq_form = \<lambda>k. ''''\<rparr>"

lemma web_decision_authorised_witness:
  "\<exists>reply. web_handle web_wit_world ''fresh'' web_wit_request
      = (reply, [WriteWorkload ''ns'' ''w'' approve_patch, ResumeWorkflow ''argo-workflows'' ''w''])
    \<and> pr_annotations approve_patch ''agentworkload.clawdlinux.io/approved-by'' = Some (Some ''alice'')"
proof -
  obtain res where "run_call (\<lambda>_. PatchOk) (Inr (''7'', held_object)) (Inl ''none'') None ''now'' ''ns'' ''w'' approve_call
    = (Some approve_patch, Some res, None)" using approve_runs by blast
  then obtain p where "ApproveWorkload (\<lambda>_. PatchOk) (Inr (''7'', held_object)) (Inl ''none'') None ''now'' ''ns'' ''w'' ''alice''
    = ((Some approve_patch, Some res, None), p)"
    unfolding ApproveWorkload_def run_call_def approve_call_def by (simp add: prod_eq_iff)
  moreover have "resume_workflow (Inr web_flow) None = (True, True)" by code_simp
  ultimately obtain res' where a: "ApproveWorkload (\<lambda>_. PatchOk) (Inr (''7'', held_object)) (Inr web_flow) None ''now'' ''ns'' ''w'' ''alice''
    = ((Some approve_patch, Some res', None), True)"
    by (auto simp: ApproveWorkload_def ApproveWorkloadWithReason_def Let_def split: prod.splits option.splits if_splits)
  have path: "split_byte CHR ''/'' ''/workloads/ns/w/approve'' = ['''', ''workloads'', ''ns'', ''w'', ''approve'']" by code_simp
  have token: "extractBearerToken web_wit_request = ''t''" "trim_space ''t'' \<noteq> ''''" by code_simp+
  have "handleApprove web_wit_world ''ns'' ''w'' (Some \<lparr>ui_username = ''alice'', ui_uid = ''1'', ui_groups = []\<rparr>) web_wit_request
      = (Page, [WriteWorkload ''ns'' ''w'' approve_patch, ResumeWorkflow ''argo-workflows'' ''w''])"
    using a by (simp add: handleApprove_def web_wit_world_def denied_def Authorize_def workload_write_def DefaultArgoNamespace_def)
  moreover have "wq_path web_wit_request = ''/workloads/ns/w/approve''" "wq_method web_wit_request = ''POST''"
    "csrf_token web_wit_request = ''c''" "csrf_cookie ''fresh'' web_wit_request = ''c''"
    by (simp_all add: web_wit_request_def csrf_token_def csrf_cookie_def)
  moreover have "\<not> public_path ''/workloads/ns/w/approve''" by code_simp
  moreover have "ww_review web_wit_world = (\<lambda>t. Inr (True, \<lparr>ui_username = ''alice'', ui_uid = ''1'', ui_groups = []\<rparr>))"
    by (simp add: web_wit_world_def)
  ultimately have h: "web_handle web_wit_world ''fresh'' web_wit_request
      = (Page, [WriteWorkload ''ns'' ''w'' approve_patch, ResumeWorkflow ''argo-workflows'' ''w''])"
    using path token by (simp add: web_handle_def AuthMiddleware_def Authenticate_def CSRFMiddleware_def mux_def)
  obtain u where "ww_review web_wit_world (extractBearerToken web_wit_request) = Inr (True, u)"
    "pr_annotations approve_patch ''agentworkload.clawdlinux.io/approved-by''
      = Some (Some (if ui_username u = '''' then ''agentctl-web'' else ui_username u))"
    using web_decision_authorised [OF h] path by (auto simp: web_wit_request_def)
  then show ?thesis using h by (auto simp: web_wit_world_def)
qed

end
