(* ===== verification/TenantControl.thy ===== *)
theory TenantControl
  imports Reconcile
begin

text \<open>
  The provisioning of tenants and the check of network policies: internal/controller/tenant_controller.go, the types of
  api/v1alpha1/tenant_types.go it uses, and internal/netpolicy with netprobe. The objects of the cluster are a map; the answers
  of the API server that a run depends on are arguments. The parser of resource quantities is the library's: an argument says which
  texts it accepts, and the code panics on the others.
\<close>

section \<open>Tenants\<close>

record tenant_quotas =
  tq_workloads :: int
  tq_concurrent :: int
  tq_tokens :: int
  tq_cpu :: string
  tq_memory :: string

record tenant_spec =
  tp_display :: string
  tp_namespace :: string
  tp_providers :: "string list"
  tp_quotas :: tenant_quotas
  tp_sla :: f64
  tp_network :: bool

record tenant_status =
  tt_phase :: string
  tt_conditions :: "string \<rightharpoonup> bool \<times> string"
  tt_namespace :: bool
  tt_secrets :: bool
  tt_rbac :: bool
  tt_quotas :: bool
  tt_network :: bool
  tt_network_reason :: string
  tt_workloads :: int
  tt_tokens :: int
  tt_last :: "int option"

record tenant =
  tn_name :: string
  tn_spec :: tenant_spec
  tn_status :: tenant_status

section \<open>Objects of the cluster\<close>

datatype obj_key = KNamespace string | KSecret string string | KServiceAccount string string | KRole string string
  | KRoleBinding string string | KQuota string string

datatype kobject = ONamespace "(string \<times> string) list" | OSecret string "(string \<times> string) list" string
  | OServiceAccount | ORole "(string list \<times> string list \<times> string list) list" | ORoleBinding string string
  | OQuota "(string \<times> string) list"

type_synonym cluster = "obj_key \<rightharpoonup> kobject"

text \<open>A Create whose AlreadyExists the caller ignores; the first argument gives the other errors of the API server.\<close>

definition create_new :: "(obj_key \<Rightarrow> string option) \<Rightarrow> obj_key \<Rightarrow> kobject \<Rightarrow> cluster \<Rightarrow> cluster \<times> string option" where
  "create_new fault k obj cl = (case fault k of
       Some e \<Rightarrow> (cl, Some e)
     | None \<Rightarrow> (if cl k = None then cl(k \<mapsto> obj) else cl, None))"

definition namespace_object :: "string \<Rightarrow> kobject" where
  "namespace_object name = ONamespace [(''agentic-tenant'', ''true''), (''agentic-customer'', name), (''managed-by'', ''agentic-operator'')]"

definition createNamespace :: "(obj_key \<Rightarrow> string option) \<Rightarrow> tenant \<Rightarrow> cluster \<Rightarrow> cluster \<times> string option" where
  "createNamespace fault t = create_new fault (KNamespace (tp_namespace (tn_spec t))) (namespace_object (tn_name t))"

definition secret_name :: "string \<Rightarrow> string" where
  "secret_name provider = provider @ ''-token''"

text \<open>The source of a secret is read first, with the errors of get.\<close>

fun provision :: "(obj_key \<Rightarrow> string option) \<Rightarrow> (obj_key \<Rightarrow> string option) \<Rightarrow> string \<Rightarrow> string \<Rightarrow> string list \<Rightarrow> cluster
    \<Rightarrow> cluster \<times> string option" where
  "provision get_fault fault name ns [] cl = (cl, None)"
| "provision get_fault fault name ns (p # ps) cl =
     (let secret = secret_name p; source = KSecret ''agentic-system'' secret in
      case (get_fault source, cl source) of
        (None, Some (OSecret kind data lbl)) \<Rightarrow>
          (case create_new fault (KSecret ns secret) (OSecret kind data name) cl of
             (cl', Some e) \<Rightarrow> (cl', Some (''failed to create secret '' @ secret @ '': '' @ e))
           | (cl', None) \<Rightarrow> provision get_fault fault name ns ps cl')
      | (Some e, _) \<Rightarrow> (cl, Some (''failed to read source secret '' @ secret @ '': '' @ e))
      | _ \<Rightarrow> (cl, Some (''failed to read source secret '' @ secret @ '': not found'')))"

definition provisionSecrets :: "(obj_key \<Rightarrow> string option) \<Rightarrow> (obj_key \<Rightarrow> string option) \<Rightarrow> tenant \<Rightarrow> cluster
    \<Rightarrow> cluster \<times> string option" where
  "provisionSecrets get_fault fault t = provision get_fault fault (tn_name t) (tp_namespace (tn_spec t)) (tp_providers (tn_spec t))"

definition account_name :: "string \<Rightarrow> string" where "account_name name = name @ ''-agent''"
definition role_name :: "string \<Rightarrow> string" where "role_name name = name @ ''-workload-manager''"
definition binding_name :: "string \<Rightarrow> string" where "binding_name name = name @ ''-workload-binding''"
definition quota_name :: "string \<Rightarrow> string" where "quota_name name = name @ ''-quota''"

definition role_object :: kobject where
  "role_object = ORole [([''agentic.clawdlinux.org''], [''agentworkloads''], [''get'', ''list'', ''watch'', ''create'', ''update'', ''patch'']),
     ([''''], [''secrets''], [''get'', ''list''])]"

definition configureRBAC :: "(obj_key \<Rightarrow> string option) \<Rightarrow> tenant \<Rightarrow> cluster \<Rightarrow> cluster \<times> string option" where
  "configureRBAC fault t cl =
     (let name = tn_name t; ns = tp_namespace (tn_spec t) in
      case create_new fault (KServiceAccount ns (account_name name)) OServiceAccount cl of
        (c1, Some e) \<Rightarrow> (c1, Some e)
      | (c1, None) \<Rightarrow>
     (case create_new fault (KRole ns (role_name name)) role_object c1 of
        (c2, Some e) \<Rightarrow> (c2, Some e)
      | (c2, None) \<Rightarrow>
          create_new fault (KRoleBinding ns (binding_name name)) (ORoleBinding (role_name name) (account_name name)) c2))"

text \<open>None is a panic of resource.MustParse.\<close>

definition hard_limits :: "(string \<Rightarrow> bool) \<Rightarrow> tenant_quotas \<Rightarrow> (string \<times> string) list option" where
  "hard_limits valid_quantity q =
     (if tq_cpu q \<noteq> '''' \<and> \<not> valid_quantity (tq_cpu q) then None
      else if tq_memory q \<noteq> '''' \<and> \<not> valid_quantity (tq_memory q) then None
      else Some ((if tq_cpu q \<noteq> '''' then [(''cpu'', tq_cpu q)] else [])
        @ (if tq_memory q \<noteq> '''' then [(''memory'', tq_memory q)] else [])
        @ (if tq_workloads q > 0 then [(''pods'', itoa (tq_workloads q))] else [])))"

definition enforceQuotas :: "(string \<Rightarrow> bool) \<Rightarrow> (obj_key \<Rightarrow> string option) \<Rightarrow> tenant \<Rightarrow> cluster \<Rightarrow> (cluster \<times> string option) option" where
  "enforceQuotas valid_quantity fault t cl =
     (case hard_limits valid_quantity (tp_quotas (tn_spec t)) of
        None \<Rightarrow> None
      | Some hard \<Rightarrow> Some (create_new fault (KQuota (tp_namespace (tn_spec t)) (quota_name (tn_name t))) (OQuota hard) cl))"

section \<open>Detection of the network plugin\<close>

datatype enforcement = EnforcementEnforcing | EnforcementKnownNonEnforcing | EnforcementUnknown

definition enforcement_text :: "enforcement \<Rightarrow> string" where
  "enforcement_text e = (case e of EnforcementEnforcing \<Rightarrow> ''Enforcing''
     | EnforcementKnownNonEnforcing \<Rightarrow> ''KnownNonEnforcing'' | EnforcementUnknown \<Rightarrow> ''Unknown'')"

definition groupPresent :: "string list \<Rightarrow> string \<Rightarrow> bool" where
  "groupPresent groups name \<longleftrightarrow> list_ex (\<lambda>g. equal_fold g name) groups"

definition daemonSetNamed :: "(string \<times> string) list \<Rightarrow> string \<Rightarrow> bool" where
  "daemonSetNamed sets name \<longleftrightarrow> list_ex (\<lambda>d. fst d = ''kube-system'' \<and> equal_fold (snd d) name) sets"

text \<open>The answers of the two clients; None is a missing client or an empty answer.\<close>

definition DetectCNIEnforcement :: "string list option err option \<Rightarrow> (string \<times> string) list option err option
    \<Rightarrow> (enforcement \<times> string) err" where
  "DetectCNIEnforcement discovery daemons =
     (case (discovery, daemons) of
        (Some groups_answer, Some sets_answer) \<Rightarrow>
          (case groups_answer of
             Inl e \<Rightarrow> Inl (''detect NetworkPolicy CNI: list API groups: '' @ e)
           | Inr None \<Rightarrow> Inl ''detect NetworkPolicy CNI: list API groups returned no result''
           | Inr (Some groups) \<Rightarrow>
               if groupPresent groups ''cilium.io'' then Inr (EnforcementEnforcing, ''Cilium API group detected'')
               else if groupPresent groups ''crd.projectcalico.org'' then Inr (EnforcementEnforcing, ''Calico API group detected'')
               else (case sets_answer of
                   Inl e \<Rightarrow> Inl (''detect NetworkPolicy CNI: list kube-system DaemonSets: '' @ e)
                 | Inr None \<Rightarrow> Inl ''detect NetworkPolicy CNI: list kube-system DaemonSets returned no result''
                 | Inr (Some sets) \<Rightarrow>
                     if list_ex (daemonSetNamed sets) [''cilium'', ''calico-node'', ''antrea-agent'', ''weave-net'']
                     then Inr (EnforcementEnforcing, ''NetworkPolicy-enforcing CNI DaemonSet detected'')
                     else if list_ex (daemonSetNamed sets) [''kindnet'', ''kube-flannel-ds'', ''flannel'']
                     then Inr (EnforcementKnownNonEnforcing, ''CNI DaemonSet does not enforce NetworkPolicy'')
                     else Inr (EnforcementUnknown, ''CNI enforcement could not be identified'')))
      | _ \<Rightarrow> Inl ''network policy detection requires discovery and DaemonSet clients'')"

definition updateNetworkPolicyStatus :: "string list option err option \<Rightarrow> (string \<times> string) list option err option
    \<Rightarrow> tenant_status \<Rightarrow> tenant_status" where
  "updateNetworkPolicyStatus discovery daemons st =
     (if discovery = None \<or> daemons = None then st\<lparr>tt_network := False, tt_network_reason := ''DetectionFailed''\<rparr>
      else case DetectCNIEnforcement discovery daemons of
          Inl e \<Rightarrow> st\<lparr>tt_network := False, tt_network_reason := ''DetectionFailed''\<rparr>
        | Inr (en, reason) \<Rightarrow> st\<lparr>tt_network := (en = EnforcementEnforcing), tt_network_reason := enforcement_text en\<rparr>)"

section \<open>The reconciler\<close>

text \<open>What a run meets: errors of Get and Create by object, the two detection answers, an error of the status write, the
  time.\<close>

record tenant_env =
  te_get :: "obj_key \<Rightarrow> string option"
  te_create :: "obj_key \<Rightarrow> string option"
  te_groups :: "string list option err option"
  te_sets :: "(string \<times> string) list option err option"
  te_persist :: "string option"
  te_now :: int

datatype tenant_result = Requeue int | TenantError string | TenantPanic

text \<open>The stored tenant changes with the status write only.\<close>

definition persist :: "tenant_env \<Rightarrow> tenant \<Rightarrow> tenant_status \<Rightarrow> int \<Rightarrow> tenant \<times> tenant_result" where
  "persist ev t st after = (case te_persist ev of
       Some e \<Rightarrow> (t, TenantError e) | None \<Rightarrow> (t\<lparr>tn_status := st\<rparr>, Requeue after))"

definition provisioning :: "tenant_env \<Rightarrow> tenant_status \<Rightarrow> tenant_status" where
  "provisioning ev st = updateNetworkPolicyStatus (te_groups ev) (te_sets ev)
     (st\<lparr>tt_conditions := (tt_conditions st)(''Provisioning'' \<mapsto> (True, ''ProvisioningStarted'')), tt_phase := ''Provisioning''\<rparr>)"

definition activated :: "tenant_env \<Rightarrow> tenant_status \<Rightarrow> tenant_status" where
  "activated ev st = st\<lparr>tt_conditions := (tt_conditions st)(''Ready'' \<mapsto> (True, ''ProvisioningComplete'')), tt_phase := ''Active'',
     tt_last := Some (te_now ev)\<rparr>"

text \<open>One of the four steps: skipped when its flag is set, else done and the flag set; a failing step persists the status and
  requeues after 30 seconds, a panic leaves the stored tenant.\<close>

datatype step_result = Proceed tenant_status cluster | Finish cluster tenant tenant_result

definition tenant_step :: "tenant_env \<Rightarrow> tenant \<Rightarrow> (tenant_status \<Rightarrow> bool) \<Rightarrow> (tenant_status \<Rightarrow> tenant_status)
    \<Rightarrow> (cluster \<Rightarrow> (cluster \<times> string option) option) \<Rightarrow> step_result \<Rightarrow> step_result" where
  "tenant_step ev t flag mark f before = (case before of
       Finish c t' r \<Rightarrow> before
     | Proceed st cl \<Rightarrow>
         (if flag st then Proceed st cl
          else case f cl of
              None \<Rightarrow> Finish cl t TenantPanic
            | Some (c, Some e) \<Rightarrow> (let (t', r) = persist ev t st (30 * 10 ^ 9) in Finish c t' r)
            | Some (c, None) \<Rightarrow> Proceed (mark st) c))"

definition tenant_steps :: "(string \<Rightarrow> bool) \<Rightarrow> tenant_env \<Rightarrow> tenant \<Rightarrow> cluster \<Rightarrow> step_result" where
  "tenant_steps valid_quantity ev t cl =
     tenant_step ev t tt_quotas (\<lambda>st. st\<lparr>tt_quotas := True\<rparr>) (enforceQuotas valid_quantity (te_create ev) t)
     (tenant_step ev t tt_rbac (\<lambda>st. st\<lparr>tt_rbac := True\<rparr>) (\<lambda>c. Some (configureRBAC (te_create ev) t c))
     (tenant_step ev t tt_secrets (\<lambda>st. st\<lparr>tt_secrets := True\<rparr>) (\<lambda>c. Some (provisionSecrets (te_get ev) (te_create ev) t c))
     (tenant_step ev t tt_namespace (\<lambda>st. st\<lparr>tt_namespace := True\<rparr>) (\<lambda>c. Some (createNamespace (te_create ev) t c))
     (Proceed (provisioning ev (tn_status t)) cl))))"

definition tenant_Reconcile :: "(string \<Rightarrow> bool) \<Rightarrow> tenant_env \<Rightarrow> tenant \<Rightarrow> cluster \<Rightarrow> cluster \<times> tenant \<times> tenant_result" where
  "tenant_Reconcile valid_quantity ev t cl =
     (case tenant_steps valid_quantity ev t cl of
        Finish c t' r \<Rightarrow> (c, t', r)
      | Proceed st c \<Rightarrow> (c, persist ev t (activated ev st) (300 * 10 ^ 9)))"

section \<open>What an active tenant has\<close>

text \<open>The four steps, the flag in the status that marks each as done, and the objects it makes.\<close>

datatype prov_step = StepNamespace | StepSecrets | StepRBAC | StepQuotas

fun step_done :: "prov_step \<Rightarrow> tenant_status \<Rightarrow> bool" where
  "step_done StepNamespace st = tt_namespace st"
| "step_done StepSecrets st = tt_secrets st"
| "step_done StepRBAC st = tt_rbac st"
| "step_done StepQuotas st = tt_quotas st"

fun step_keys :: "prov_step \<Rightarrow> tenant \<Rightarrow> obj_key set" where
  "step_keys StepNamespace t = {KNamespace (tp_namespace (tn_spec t))}"
| "step_keys StepSecrets t = (\<lambda>p. KSecret (tp_namespace (tn_spec t)) (secret_name p)) ` set (tp_providers (tn_spec t))"
| "step_keys StepRBAC t = {KServiceAccount (tp_namespace (tn_spec t)) (account_name (tn_name t)),
     KRole (tp_namespace (tn_spec t)) (role_name (tn_name t)), KRoleBinding (tp_namespace (tn_spec t)) (binding_name (tn_name t))}"
| "step_keys StepQuotas t = {KQuota (tp_namespace (tn_spec t)) (quota_name (tn_name t))}"

lemma step_all: "(\<forall>g. P g) \<longleftrightarrow> P StepNamespace \<and> P StepSecrets \<and> P StepRBAC \<and> P StepQuotas"
  by (metis prov_step.exhaust)

definition tenant_keys :: "tenant \<Rightarrow> obj_key set" where
  "tenant_keys t = step_keys StepNamespace t \<union> step_keys StepSecrets t \<union> step_keys StepRBAC t \<union> step_keys StepQuotas t"

text \<open>The objects of the steps that the stored status does not mark as done.\<close>

definition todo :: "tenant \<Rightarrow> obj_key set" where
  "todo t = (\<Union>g\<in>{g. \<not> step_done g (tn_status t)}. step_keys g t)"

text \<open>The objects of a set of steps exist when the steps are marked as done; an Active tenant has all four marked.\<close>

definition flags_hold :: "prov_step set \<Rightarrow> tenant \<Rightarrow> tenant_status \<Rightarrow> cluster \<Rightarrow> bool" where
  "flags_hold F t st cl \<longleftrightarrow> (\<forall>g\<in>F. step_done g st \<longrightarrow> step_keys g t \<subseteq> dom cl)"

definition tenant_ok :: "prov_step set \<Rightarrow> tenant \<Rightarrow> cluster \<Rightarrow> bool" where
  "tenant_ok F t cl \<longleftrightarrow> flags_hold F t (tn_status t) cl
     \<and> (tt_phase (tn_status t) = ''Active'' \<longrightarrow> (\<forall>g. step_done g (tn_status t)))"

lemma flags_mono: "flags_hold F t st cl \<Longrightarrow> dom cl \<subseteq> dom cl' \<Longrightarrow> flags_hold F t st cl'"
  unfolding flags_hold_def by blast

text \<open>A run only adds objects, and only those of its tenant.\<close>

definition adds :: "obj_key set \<Rightarrow> cluster \<Rightarrow> cluster \<Rightarrow> bool" where
  "adds K cl cl' \<longleftrightarrow> cl \<subseteq>\<^sub>m cl' \<and> dom cl' \<subseteq> dom cl \<union> K"

lemma adds_refl [simp]: "adds K cl cl" by (simp add: adds_def)

lemma adds_trans: "adds K a b \<Longrightarrow> adds K b c \<Longrightarrow> adds K a c"
  using map_le_trans by (fastforce simp: adds_def)

lemma adds_dom: "adds K cl cl' \<Longrightarrow> dom cl \<subseteq> dom cl'"
  by (auto simp: adds_def dest: map_le_implies_dom_le)

lemma adds_mono: "adds K cl cl' \<Longrightarrow> K \<subseteq> L \<Longrightarrow> adds L cl cl'"
  by (auto simp: adds_def)

lemma adds_keeps: "adds K cl cl' \<Longrightarrow> cl k \<noteq> None \<Longrightarrow> cl' k = cl k"
  by (metis adds_def domIff map_le_def)

lemma create_new_adds:
  "create_new fault k obj cl = (cl', e) \<Longrightarrow> k \<in> K \<Longrightarrow> adds K cl cl' \<and> (e = None \<longrightarrow> cl' k \<noteq> None)"
  by (auto simp: create_new_def adds_def map_le_def split: option.splits if_splits)

lemma provision_adds:
  assumes "provision gf fault name ns ps cl = (cl', e)" "(\<lambda>p. KSecret ns (secret_name p)) ` set ps \<subseteq> K"
  shows "adds K cl cl' \<and> (e = None \<longrightarrow> (\<forall>p\<in>set ps. cl' (KSecret ns (secret_name p)) \<noteq> None))"
  using assms
proof (induction ps arbitrary: cl)
  case (Cons p ps)
  show ?case
  proof (cases "\<exists>kind data lbl. gf (KSecret ''agentic-system'' (secret_name p)) = None
      \<and> cl (KSecret ''agentic-system'' (secret_name p)) = Some (OSecret kind data lbl)")
    case False
    then have "cl' = cl \<and> e \<noteq> None"
      using Cons.prems(1) by (auto simp: Let_def split: option.splits kobject.splits)
    then show ?thesis by auto
  next
    case True
    then obtain kind data lbl where src: "gf (KSecret ''agentic-system'' (secret_name p)) = None"
      "cl (KSecret ''agentic-system'' (secret_name p)) = Some (OSecret kind data lbl)" by blast
    obtain c1 e1 where c: "create_new fault (KSecret ns (secret_name p)) (OSecret kind data name) cl = (c1, e1)" by (rule prod.exhaust)
    have k: "KSecret ns (secret_name p) \<in> K" using Cons.prems(2) by simp
    note one = create_new_adds [OF c k]
    show ?thesis
    proof (cases e1)
      case None
      then have "provision gf fault name ns ps c1 = (cl', e)" using Cons.prems(1) src c by (simp add: Let_def)
      from Cons.IH [OF this] Cons.prems(2) have r: "adds K c1 cl' \<and> (e = None \<longrightarrow> (\<forall>p\<in>set ps. cl' (KSecret ns (secret_name p)) \<noteq> None))"
        by simp
      then have "cl' (KSecret ns (secret_name p)) \<noteq> None" using adds_keeps [of K c1 cl'] one None by metis
      then show ?thesis using r one adds_trans by auto
    next
      case (Some x)
      then have "cl' = c1" "e \<noteq> None" using Cons.prems(1) src c by (auto simp: Let_def)
      then show ?thesis using one by auto
    qed
  qed
qed simp

lemma configureRBAC_adds:
  assumes "configureRBAC fault t cl = (cl', e)"
    "{KServiceAccount (tp_namespace (tn_spec t)) (account_name (tn_name t)), KRole (tp_namespace (tn_spec t)) (role_name (tn_name t)),
      KRoleBinding (tp_namespace (tn_spec t)) (binding_name (tn_name t))} \<subseteq> K"
  shows "adds K cl cl' \<and> (e = None \<longrightarrow> cl' (KServiceAccount (tp_namespace (tn_spec t)) (account_name (tn_name t))) \<noteq> None
    \<and> cl' (KRole (tp_namespace (tn_spec t)) (role_name (tn_name t))) \<noteq> None
    \<and> cl' (KRoleBinding (tp_namespace (tn_spec t)) (binding_name (tn_name t))) \<noteq> None)"
proof -
  let ?ns = "tp_namespace (tn_spec t)" and ?name = "tn_name t"
  obtain c1 e1 where 1: "create_new fault (KServiceAccount ?ns (account_name ?name)) OServiceAccount cl = (c1, e1)" by (rule prod.exhaust)
  obtain c2 e2 where 2: "create_new fault (KRole ?ns (role_name ?name)) role_object c1 = (c2, e2)" by (rule prod.exhaust)
  obtain c3 e3 where 3: "create_new fault (KRoleBinding ?ns (binding_name ?name)) (ORoleBinding (role_name ?name) (account_name ?name)) c2
    = (c3, e3)" by (rule prod.exhaust)
  have a1: "adds K cl c1" "e1 = None \<longrightarrow> c1 (KServiceAccount ?ns (account_name ?name)) \<noteq> None"
    using create_new_adds [OF 1, of K] assms(2) by auto
  have a2: "adds K c1 c2" "e2 = None \<longrightarrow> c2 (KRole ?ns (role_name ?name)) \<noteq> None"
    using create_new_adds [OF 2, of K] assms(2) by auto
  have a3: "adds K c2 c3" "e3 = None \<longrightarrow> c3 (KRoleBinding ?ns (binding_name ?name)) \<noteq> None"
    using create_new_adds [OF 3, of K] assms(2) by auto
  have "e1 = None \<longrightarrow> c2 (KServiceAccount ?ns (account_name ?name)) \<noteq> None \<and> c3 (KServiceAccount ?ns (account_name ?name)) \<noteq> None"
    using a1(2) adds_keeps [OF a2(1)] adds_keeps [OF a3(1)] by metis
  moreover have "e2 = None \<longrightarrow> c3 (KRole ?ns (role_name ?name)) \<noteq> None" using a2(2) adds_keeps [OF a3(1)] by metis
  moreover have "adds K cl c2" "adds K cl c3" using a1(1) a2(1) a3(1) adds_trans by blast+
  moreover have "(cl', e) = (case e1 of Some x \<Rightarrow> (c1, e1) | None \<Rightarrow> case e2 of Some x \<Rightarrow> (c2, e2) | None \<Rightarrow> (c3, e3))"
    using assms(1) 1 2 3 by (cases e1; cases e2) (auto simp: configureRBAC_def Let_def)
  ultimately show ?thesis using a1(1) a3(2) by (cases e1; cases e2) auto
qed

lemma enforceQuotas_adds:
  assumes "enforceQuotas vq fault t cl = Some (cl', e)" "KQuota (tp_namespace (tn_spec t)) (quota_name (tn_name t)) \<in> K"
  shows "adds K cl cl' \<and> (e = None \<longrightarrow> cl' (KQuota (tp_namespace (tn_spec t)) (quota_name (tn_name t))) \<noteq> None)"
  using assms create_new_adds by (auto simp: enforceQuotas_def split: option.splits)

lemma provisioning_flags [simp]:
  "tt_namespace (provisioning ev st) = tt_namespace st" "tt_secrets (provisioning ev st) = tt_secrets st"
  "tt_rbac (provisioning ev st) = tt_rbac st" "tt_quotas (provisioning ev st) = tt_quotas st"
  "tt_phase (provisioning ev st) = ''Provisioning''"
  by (simp_all add: provisioning_def updateNetworkPolicyStatus_def split: sum.splits prod.splits)

lemma persist_ok:
  assumes "persist ev t st n = (t', r)" "flags_hold F t st cl" "tt_phase st = ''Active'' \<longrightarrow> (\<forall>g. step_done g st)" "tenant_ok F t cl"
  shows "tenant_ok F t' cl \<and> tn_name t' = tn_name t \<and> tn_spec t' = tn_spec t"
proof -
  have "step_keys g (t\<lparr>tn_status := st\<rparr>) = step_keys g t" for g by (cases g) simp_all
  then show ?thesis using assms by (auto simp: persist_def tenant_ok_def flags_hold_def split: option.splits)
qed

text \<open>What holds between the steps of a run that started at cl; Q says which flags are set.\<close>

definition between :: "prov_step set \<Rightarrow> tenant \<Rightarrow> cluster \<Rightarrow> (tenant_status \<Rightarrow> bool) \<Rightarrow> step_result \<Rightarrow> bool" where
  "between F t cl Q res \<longleftrightarrow> (case res of
       Proceed st c \<Rightarrow> adds (todo t) cl c \<and> flags_hold F t st c \<and> tt_phase st = ''Provisioning'' \<and> Q st
         \<and> (\<forall>g. step_done g (tn_status t) \<longrightarrow> step_done g st)
     | Finish c t' r \<Rightarrow> adds (todo t) cl c \<and> tenant_ok F t' c \<and> tn_name t' = tn_name t \<and> tn_spec t' = tn_spec t)"

lemma tenant_step_keeps:
  assumes "between F t cl Q before" "tenant_ok F t cl"
    "\<And>c c' e. f c = Some (c', e) \<Longrightarrow> adds (step_keys g t) c c' \<and> (e = None \<longrightarrow> step_keys g t \<subseteq> dom c')"
    "\<And>st h. step_done h (mark st) \<longleftrightarrow> step_done h st \<or> h = g" "\<And>st. tt_phase (mark st) = tt_phase st"
    "\<And>st. flag st = step_done g st" "\<And>st. Q st \<Longrightarrow> flag st \<Longrightarrow> Q' st" "\<And>st. Q st \<Longrightarrow> Q' (mark st)"
  shows "between F t cl Q' (tenant_step ev t flag mark f before)"
proof (cases before)
  case (Finish c t' r)
  then show ?thesis using assms(1) by (simp add: tenant_step_def between_def)
next
  case (Proceed st c)
  then have b: "adds (todo t) cl c" "flags_hold F t st c" "tt_phase st = ''Provisioning''" "Q st"
      "\<forall>h. step_done h (tn_status t) \<longrightarrow> step_done h st"
    using assms(1) by (simp_all add: between_def)
  have later: "tenant_ok F t x \<and> flags_hold F t st x" if "dom c \<subseteq> dom x" for x
    using assms(2) b(2) that flags_mono adds_dom [OF b(1)] by (auto simp: tenant_ok_def)
  show ?thesis
  proof (cases "flag st")
    case True
    then show ?thesis using Proceed b assms(7) by (simp add: tenant_step_def between_def)
  next
    case False
    then have own: "step_keys g t \<subseteq> todo t" using b(5) assms(6) by (auto simp: todo_def)
    show ?thesis
    proof (cases "f c")
      case None
      then show ?thesis using Proceed False b(1) later [of c] by (simp add: tenant_step_def between_def)
    next
      case (Some x)
      obtain c' e where x: "f c = Some (c', e)" using Some by (cases x) simp
      note st = assms(3) [OF x]
      then have a: "adds (todo t) cl c'" "dom c \<subseteq> dom c'"
        using adds_trans [OF b(1)] adds_mono [OF _ own] adds_dom by blast+
      show ?thesis
      proof (cases e)
        case None
        then have "flags_hold F t (mark st) c'" using st later [OF a(2)] assms(4) by (auto simp: flags_hold_def)
        then show ?thesis using Proceed False x None a(1) assms(4,5,8) b
          by (simp add: tenant_step_def between_def)
      next
        case (Some m)
        obtain t' r where p: "persist ev t st (30 * 10 ^ 9) = (t', r)" by (rule prod.exhaust)
        have "tenant_ok F t' c' \<and> tn_name t' = tn_name t \<and> tn_spec t' = tn_spec t"
          by (rule persist_ok [OF p]) (use later [OF a(2)] b(3) in auto)
        then show ?thesis using Proceed False x Some p a(1) by (simp add: tenant_step_def between_def)
      qed
    qed
  qed
qed

lemma createNamespace_adds:
  "createNamespace fault t cl = (cl', e) \<Longrightarrow> adds (step_keys StepNamespace t) cl cl'
     \<and> (e = None \<longrightarrow> step_keys StepNamespace t \<subseteq> dom cl')"
  unfolding createNamespace_def using create_new_adds by fastforce

lemma provisionSecrets_adds:
  "provisionSecrets gf fault t cl = (cl', e) \<Longrightarrow> adds (step_keys StepSecrets t) cl cl'
     \<and> (e = None \<longrightarrow> step_keys StepSecrets t \<subseteq> dom cl')"
  unfolding provisionSecrets_def using provision_adds [of gf fault _ _ _ cl cl' e "step_keys StepSecrets t"] by fastforce

lemma tenant_steps_between:
  assumes "tenant_ok F t cl"
  shows "between F t cl (\<lambda>st. tt_namespace st \<and> tt_secrets st \<and> tt_rbac st \<and> tt_quotas st) (tenant_steps vq ev t cl)"
proof -
  have start: "step_done g (provisioning ev st) = step_done g st" for g st by (cases g) simp_all
  have 0: "between F t cl (\<lambda>st. True) (Proceed (provisioning ev (tn_status t)) cl)"
    using assms by (simp add: between_def tenant_ok_def flags_hold_def start)
  have 1: "between F t cl tt_namespace (tenant_step ev t tt_namespace (\<lambda>st. st\<lparr>tt_namespace := True\<rparr>)
      (\<lambda>c. Some (createNamespace (te_create ev) t c)) (Proceed (provisioning ev (tn_status t)) cl))"
  proof (rule tenant_step_keeps [where g = StepNamespace, OF 0 assms])
    show "step_done h (st\<lparr>tt_namespace := True\<rparr>) \<longleftrightarrow> step_done h st \<or> h = StepNamespace" for st h by (cases h) simp_all
  qed (use createNamespace_adds in auto)
  have 2: "between F t cl (\<lambda>st. tt_namespace st \<and> tt_secrets st) (tenant_step ev t tt_secrets (\<lambda>st. st\<lparr>tt_secrets := True\<rparr>)
      (\<lambda>c. Some (provisionSecrets (te_get ev) (te_create ev) t c))
      (tenant_step ev t tt_namespace (\<lambda>st. st\<lparr>tt_namespace := True\<rparr>) (\<lambda>c. Some (createNamespace (te_create ev) t c))
        (Proceed (provisioning ev (tn_status t)) cl)))"
  proof (rule tenant_step_keeps [where g = StepSecrets, OF 1 assms])
    show "step_done h (st\<lparr>tt_secrets := True\<rparr>) \<longleftrightarrow> step_done h st \<or> h = StepSecrets" for st h by (cases h) simp_all
  qed (use provisionSecrets_adds in auto)
  have 3: "between F t cl (\<lambda>st. tt_namespace st \<and> tt_secrets st \<and> tt_rbac st) (tenant_step ev t tt_rbac (\<lambda>st. st\<lparr>tt_rbac := True\<rparr>)
      (\<lambda>c. Some (configureRBAC (te_create ev) t c))
      (tenant_step ev t tt_secrets (\<lambda>st. st\<lparr>tt_secrets := True\<rparr>) (\<lambda>c. Some (provisionSecrets (te_get ev) (te_create ev) t c))
      (tenant_step ev t tt_namespace (\<lambda>st. st\<lparr>tt_namespace := True\<rparr>) (\<lambda>c. Some (createNamespace (te_create ev) t c))
        (Proceed (provisioning ev (tn_status t)) cl))))"
  proof (rule tenant_step_keeps [where g = StepRBAC, OF 2 assms])
    show "step_done h (st\<lparr>tt_rbac := True\<rparr>) \<longleftrightarrow> step_done h st \<or> h = StepRBAC" for st h by (cases h) simp_all
    show "adds (step_keys StepRBAC t) c c' \<and> (e = None \<longrightarrow> step_keys StepRBAC t \<subseteq> dom c')"
      if "Some (configureRBAC (te_create ev) t c) = Some (c', e)" for c c' e
      using configureRBAC_adds [of "te_create ev" t c c' e "step_keys StepRBAC t"] that by (auto simp: dom_def)
  qed auto
  show ?thesis unfolding tenant_steps_def
  proof (rule tenant_step_keeps [where g = StepQuotas, OF 3 assms])
    show "step_done h (st\<lparr>tt_quotas := True\<rparr>) \<longleftrightarrow> step_done h st \<or> h = StepQuotas" for st h by (cases h) simp_all
    show "adds (step_keys StepQuotas t) c c' \<and> (e = None \<longrightarrow> step_keys StepQuotas t \<subseteq> dom c')"
      if "enforceQuotas vq (te_create ev) t c = Some (c', e)" for c c' e
      using enforceQuotas_adds [OF that, of "step_keys StepQuotas t"] by (auto simp: dom_def)
  qed auto
qed

lemma reconcile_ok:
  assumes "tenant_Reconcile vq ev t cl = (cl', t', r)" "tenant_ok F t cl"
  shows "adds (todo t) cl cl' \<and> tenant_ok F t' cl' \<and> tn_name t' = tn_name t \<and> tn_spec t' = tn_spec t"
proof (cases "tenant_steps vq ev t cl")
  case (Finish c u x)
  then show ?thesis using tenant_steps_between [OF assms(2), of vq ev] assms(1) by (simp add: tenant_Reconcile_def between_def)
next
  case (Proceed st c)
  then have b: "adds (todo t) cl c" "flags_hold F t st c" "tt_namespace st \<and> tt_secrets st \<and> tt_rbac st \<and> tt_quotas st"
    using tenant_steps_between [OF assms(2), of vq ev] by (simp_all add: between_def)
  have p: "persist ev t (activated ev st) (300 * 10 ^ 9) = (t', r)" "cl' = c"
    using assms(1) Proceed by (simp_all add: tenant_Reconcile_def)
  have "tenant_ok F t c" using assms(2) flags_mono adds_dom [OF b(1)] by (auto simp: tenant_ok_def)
  moreover have d: "step_done g (activated ev st) = step_done g st" for g by (cases g) (simp_all add: activated_def)
  moreover have "flags_hold F t (activated ev st) c" using b(2) by (simp add: flags_hold_def d)
  moreover have "\<forall>g. step_done g st" using b(3) by (simp add: step_all)
  ultimately show ?thesis using persist_ok [OF p(1), of F c] b(1) p(2) by simp
qed

text \<open>
  A tenant in time: the reconciler runs with any answers of the API server, others change the cluster as they like, and the spec
  is edited. The last argument says whether the spec was changed or an object was deleted since the tenant was created.
\<close>

inductive tenant_history :: "(string \<Rightarrow> bool) \<Rightarrow> tenant \<Rightarrow> cluster \<Rightarrow> bool \<Rightarrow> bool" for vq where
  created: "\<not> tt_namespace (tn_status t) \<Longrightarrow> \<not> tt_secrets (tn_status t) \<Longrightarrow> \<not> tt_rbac (tn_status t) \<Longrightarrow> \<not> tt_quotas (tn_status t)
    \<Longrightarrow> tt_phase (tn_status t) \<noteq> ''Active'' \<Longrightarrow> tenant_history vq t cl False"
| reconciled: "tenant_history vq t cl drift \<Longrightarrow> tenant_Reconcile vq ev t cl = (cl', t', r) \<Longrightarrow> tenant_history vq t' cl' drift"
| others: "tenant_history vq t cl drift \<Longrightarrow> tenant_history vq t cl' (drift \<or> \<not> dom cl \<subseteq> dom cl')"
| edited: "tenant_history vq t cl drift \<Longrightarrow> tenant_history vq (t\<lparr>tn_spec := sp\<rparr>) cl (drift \<or> sp \<noteq> tn_spec t)"

lemma history_ok: "tenant_history vq t cl drift \<Longrightarrow> tenant_ok (if drift then {} else UNIV) t cl"
proof (induction rule: tenant_history.induct)
  case (created t cl)
  then show ?case by (auto simp: tenant_ok_def flags_hold_def step_all)
next
  case (reconciled t cl drift ev cl' t' r)
  then show ?case using reconcile_ok by blast
next
  case (others t cl drift cl')
  show ?case
  proof (cases "drift \<or> \<not> dom cl \<subseteq> dom cl'")
    case True
    then show ?thesis using others.IH by (simp add: tenant_ok_def flags_hold_def)
  next
    case False
    then show ?thesis using others.IH flags_mono [of UNIV t "tn_status t" cl cl'] by (simp add: tenant_ok_def)
  qed
next
  case (edited t cl drift sp)
  show ?case
  proof (cases "sp = tn_spec t")
    case True
    then have "t\<lparr>tn_spec := sp\<rparr> = t" by simp
    then show ?thesis using edited.IH True by simp
  next
    case False
    then show ?thesis using edited.IH by (simp add: tenant_ok_def flags_hold_def)
  qed
qed

lemma keys_of_steps: "tenant_keys t = (\<Union>g. step_keys g t)"
proof -
  have "k \<in> step_keys g t \<Longrightarrow> k \<in> tenant_keys t" for k g by (cases g) (auto simp: tenant_keys_def)
  moreover have "step_keys g t \<subseteq> (\<Union>g. step_keys g t)" for g by (rule UN_upper) simp
  then have "tenant_keys t \<subseteq> (\<Union>g. step_keys g t)" by (simp only: tenant_keys_def Un_subset_iff simp_thms)
  ultimately show ?thesis by (intro equalityI subsetI) (auto simp del: step_keys.simps)
qed

text \<open>A run that meets no error of the API server, with every provider's source secret stored and limits that parse.\<close>

definition smooth :: "(string \<Rightarrow> bool) \<Rightarrow> tenant_env \<Rightarrow> tenant \<Rightarrow> cluster \<Rightarrow> bool" where
  "smooth vq ev t cl \<longleftrightarrow> te_persist ev = None \<and> te_get ev = (\<lambda>k. None) \<and> te_create ev = (\<lambda>k. None)
     \<and> hard_limits vq (tp_quotas (tn_spec t)) \<noteq> None
     \<and> (\<forall>p\<in>set (tp_providers (tn_spec t)). \<exists>kind data lbl.
          cl (KSecret ''agentic-system'' (secret_name p)) = Some (OSecret kind data lbl))"

lemma create_new_none [simp]: "create_new (\<lambda>k. None) k obj cl = (if cl k = None then cl(k \<mapsto> obj) else cl, None)"
  by (simp add: create_new_def)

lemma provision_smooth:
  assumes "\<forall>p\<in>set ps. \<exists>kind data lbl. cl (KSecret ''agentic-system'' (secret_name p)) = Some (OSecret kind data lbl)"
  shows "\<exists>c. provision (\<lambda>k. None) (\<lambda>k. None) name ns ps cl = (c, None)"
  using assms
proof (induction ps arbitrary: cl)
  case (Cons p ps)
  then obtain kind data lbl where src: "cl (KSecret ''agentic-system'' (secret_name p)) = Some (OSecret kind data lbl)" by auto
  define c1 where "c1 = (if cl (KSecret ns (secret_name p)) = None then cl(KSecret ns (secret_name p) \<mapsto> OSecret kind data name) else cl)"
  have "\<forall>q\<in>set ps. \<exists>kind data lbl. c1 (KSecret ''agentic-system'' (secret_name q)) = Some (OSecret kind data lbl)"
    using Cons.prems by (auto simp: c1_def)
  from Cons.IH [OF this] obtain c where "provision (\<lambda>k. None) (\<lambda>k. None) name ns ps c1 = (c, None)" by blast
  then show ?case using src by (auto simp: Let_def c1_def)
qed simp

lemma smooth_step:
  assumes "before = Proceed st c" "f c = Some (c', None)"
  shows "\<exists>s x. tenant_step ev t flag mark f before = Proceed s x \<and> (x = c \<or> x = c')"
  using assms by (simp add: tenant_step_def)

lemma smooth_steps:
  assumes "smooth vq ev t cl"
  shows "\<exists>st c. tenant_steps vq ev t cl = Proceed st c"
proof -
  define c1 where "c1 = fst (createNamespace (te_create ev) t cl)"
  have one: "createNamespace (te_create ev) t cl = (c1, None)" using assms by (simp add: c1_def createNamespace_def smooth_def)
  have "\<forall>p\<in>set (tp_providers (tn_spec t)). \<exists>kind data lbl. x (KSecret ''agentic-system'' (secret_name p)) = Some (OSecret kind data lbl)"
    if "x = cl \<or> x = c1" for x
    using assms that by (auto simp: smooth_def c1_def createNamespace_def)
  then have two: "\<exists>c. provisionSecrets (te_get ev) (te_create ev) t x = (c, None)" if "x = cl \<or> x = c1" for x
    using provision_smooth [of "tp_providers (tn_spec t)" x] assms that by (auto simp: smooth_def provisionSecrets_def)
  have three: "\<exists>c. configureRBAC (te_create ev) t x = (c, None)" for x
    using assms by (simp add: configureRBAC_def Let_def smooth_def)
  have four: "\<exists>c. enforceQuotas vq (te_create ev) t x = Some (c, None)" for x
    using assms by (auto simp: enforceQuotas_def smooth_def)
  obtain s1 x1 where 1: "tenant_step ev t tt_namespace (\<lambda>st. st\<lparr>tt_namespace := True\<rparr>) (\<lambda>c. Some (createNamespace (te_create ev) t c))
      (Proceed (provisioning ev (tn_status t)) cl) = Proceed s1 x1" "x1 = cl \<or> x1 = c1"
    using smooth_step [OF refl, of "\<lambda>c. Some (createNamespace (te_create ev) t c)" cl c1] one by metis
  obtain y where y: "provisionSecrets (te_get ev) (te_create ev) t x1 = (y, None)" using two 1(2) by blast
  obtain s2 x2 where 2: "tenant_step ev t tt_secrets (\<lambda>st. st\<lparr>tt_secrets := True\<rparr>)
      (\<lambda>c. Some (provisionSecrets (te_get ev) (te_create ev) t c)) (Proceed s1 x1) = Proceed s2 x2"
    using smooth_step [OF refl, of "\<lambda>c. Some (provisionSecrets (te_get ev) (te_create ev) t c)" x1 y] y by metis
  obtain z where z: "configureRBAC (te_create ev) t x2 = (z, None)" using three by blast
  obtain s3 x3 where 3: "tenant_step ev t tt_rbac (\<lambda>st. st\<lparr>tt_rbac := True\<rparr>) (\<lambda>c. Some (configureRBAC (te_create ev) t c)) (Proceed s2 x2)
      = Proceed s3 x3"
    using smooth_step [OF refl, of "\<lambda>c. Some (configureRBAC (te_create ev) t c)" x2 z] z by metis
  obtain v where v: "enforceQuotas vq (te_create ev) t x3 = Some (v, None)" using four by blast
  show ?thesis unfolding tenant_steps_def 1(1) 2 3 using smooth_step [OF refl, of "enforceQuotas vq (te_create ev) t" x3 v] v by metis
qed

text \<open>C31: Provisioning of a tenant. In every history, with edits of the spec, deletions and additions by others and any errors of
  the API server, a reconcile only adds objects, and only those of its tenant's steps (the namespace; the provider secrets; the
  account, role and binding; the quota) that the stored status does not mark as done. When the stored phase is Active afterwards, all
  four steps are marked, the objects of each step that was not marked before exist, for the spec of now; and all objects of
  the tenant exist if the spec was never changed and nothing was deleted. What was marked before is not looked at again.\<close>

theorem active_tenant_provisioned:
  assumes "tenant_history vq t cl drift" "tenant_Reconcile vq ev t cl = (cl', t', r)"
  shows "cl \<subseteq>\<^sub>m cl' \<and> dom cl' \<subseteq> dom cl \<union> (\<Union>g\<in>{g. \<not> step_done g (tn_status t)}. step_keys g t)
    \<and> (tt_phase (tn_status t') = ''Active'' \<longrightarrow> (\<forall>g. step_done g (tn_status t'))
         \<and> (\<forall>g. \<not> step_done g (tn_status t) \<longrightarrow> step_keys g t \<subseteq> dom cl') \<and> (\<not> drift \<longrightarrow> tenant_keys t \<subseteq> dom cl'))"
proof -
  let ?F = "{g. \<not> step_done g (tn_status t)}"
  have h: "tenant_ok (if drift then {} else UNIV) t cl" by (rule history_ok [OF assms(1)])
  then have "tenant_ok ?F t cl" by (auto simp: tenant_ok_def flags_hold_def)
  note fresh = reconcile_ok [OF assms(2) this] and all = reconcile_ok [OF assms(2) h]
  have same: "step_keys g t' = step_keys g t" for g using fresh by (cases g) simp_all
  have "step_keys g t \<subseteq> dom cl'" if "tt_phase (tn_status t') = ''Active''" "\<not> step_done g (tn_status t) \<or> \<not> drift" for g
    using that fresh all same unfolding tenant_ok_def flags_hold_def by (cases drift) auto
  moreover have "\<forall>g. step_done g (tn_status t')" if "tt_phase (tn_status t') = ''Active''"
    using that fresh by (simp add: tenant_ok_def)
  ultimately show ?thesis using fresh unfolding adds_def todo_def keys_of_steps by blast
qed

text \<open>A tenant becomes active. Whatever failed before, one reconcile that meets no error of the API server, with the source
  secrets stored and limits that parse, stores the phase Active with every step marked, and comes back after five minutes.\<close>

lemma smooth_run_activates:
  assumes "tenant_history vq t cl drift" "smooth vq ev t cl"
  shows "\<exists>cl' t'. tenant_Reconcile vq ev t cl = (cl', t', Requeue (300 * 10 ^ 9)) \<and> tt_phase (tn_status t') = ''Active''
    \<and> (\<forall>g. step_done g (tn_status t')) \<and> (\<not> drift \<longrightarrow> tenant_keys t \<subseteq> dom cl')"
proof -
  obtain st c where p: "tenant_steps vq ev t cl = Proceed st c" using smooth_steps [OF assms(2)] by blast
  define t' where "t' = t\<lparr>tn_status := activated ev st\<rparr>"
  have r: "tenant_Reconcile vq ev t cl = (c, t', Requeue (300 * 10 ^ 9))"
    using p assms(2) by (simp add: tenant_Reconcile_def persist_def smooth_def t'_def)
  have a: "tt_phase (tn_status t') = ''Active''" by (simp add: t'_def activated_def)
  note ok = reconcile_ok [OF r history_ok [OF assms(1)]]
  have d: "\<forall>g. step_done g (tn_status t')" using ok a by (simp add: tenant_ok_def)
  have "step_keys g t' = step_keys g t" for g using ok by (cases g) simp_all
  then have "\<not> drift \<longrightarrow> tenant_keys t \<subseteq> dom c"
    using ok a d unfolding keys_of_steps by (auto simp: tenant_ok_def flags_hold_def)
  then show ?thesis using r a d by blast
qed

definition wit_tenant :: tenant where
  "wit_tenant = \<lparr>tn_name = ''acme'', tn_spec = \<lparr>tp_display = ''Acme'', tp_namespace = ''acme-ns'', tp_providers = [''openai'', ''nvidia''],
     tp_quotas = \<lparr>tq_workloads = 10, tq_concurrent = 2, tq_tokens = 0, tq_cpu = ''4'', tq_memory = ''''\<rparr>, tp_sla = Fin 99, tp_network = True\<rparr>,
     tn_status = \<lparr>tt_phase = ''Pending'', tt_conditions = Map.empty, tt_namespace = False, tt_secrets = False, tt_rbac = False,
       tt_quotas = False, tt_network = False, tt_network_reason = '''', tt_workloads = 0, tt_tokens = 0, tt_last = None\<rparr>\<rparr>"

definition wit_tenant_env :: tenant_env where
  "wit_tenant_env = \<lparr>te_get = \<lambda>k. None, te_create = \<lambda>k. None, te_groups = Some (Inr (Some [''apps'', ''cilium.io''])),
     te_sets = Some (Inr (Some [])), te_persist = None, te_now = 7\<rparr>"

definition wit_cluster :: cluster where
  "wit_cluster = [KSecret ''agentic-system'' ''openai-token'' \<mapsto> OSecret ''Opaque'' [(''token'', ''a'')] '''',
     KSecret ''agentic-system'' ''nvidia-token'' \<mapsto> OSecret ''Opaque'' [(''token'', ''b'')] '''']"

lemma wit_tenant_history: "tenant_history (\<lambda>q. q = ''4'') wit_tenant wit_cluster False"
  by (rule created) (simp_all add: wit_tenant_def)

lemma wit_tenant_smooth: "smooth (\<lambda>q. q = ''4'') wit_tenant_env wit_tenant wit_cluster"
  by (simp add: smooth_def wit_tenant_env_def wit_tenant_def wit_cluster_def hard_limits_def secret_name_def)

lemma smooth_run_activates_witness:
  "\<exists>cl' t'. tenant_Reconcile (\<lambda>q. q = ''4'') wit_tenant_env wit_tenant wit_cluster = (cl', t', Requeue (300 * 10 ^ 9))
    \<and> tt_phase (tn_status t') = ''Active'' \<and> tenant_keys wit_tenant \<subseteq> dom cl'"
  using smooth_run_activates [OF wit_tenant_history wit_tenant_smooth] by blast

text \<open>A source secret is missing: the namespace and one secret exist, the phase stays Provisioning.\<close>

definition wit_partial :: cluster where
  "wit_partial = wit_cluster(KSecret ''agentic-system'' ''nvidia-token'' := None)"

lemma wit_partial_history: "tenant_history (\<lambda>q. q = ''4'') wit_tenant wit_partial False"
  by (rule created) (simp_all add: wit_tenant_def)

lemma active_tenant_provisioned_witness:
  "case tenant_Reconcile (\<lambda>q. q = ''4'') wit_tenant_env wit_tenant wit_partial of (cl', t', r) \<Rightarrow>
     wit_partial \<subseteq>\<^sub>m cl' \<and> dom cl' \<subseteq> dom wit_partial \<union> tenant_keys wit_tenant"
proof -
  obtain cl' t' r where run: "tenant_Reconcile (\<lambda>q. q = ''4'') wit_tenant_env wit_tenant wit_partial = (cl', t', r)"
    by (metis prod_cases3)
  show ?thesis using active_tenant_provisioned [OF wit_partial_history run] unfolding keys_of_steps by (auto simp: run)
qed

end
