(* ===== verification/NetProbe.thy ===== *)
theory NetProbe
  imports TenantControl "HOL-Library.Sublist"
begin

text \<open>
  The active check of network policies: internal/netpolicy/probe.go and the client command of internal/netpolicy/netprobe/runner.go.
  The cluster is a parameter: what it answers to each call, as a function of the calls made before. A wait is given the views of
  the object it polls until the deadline of its context.
\<close>

section \<open>The objects of a probe\<close>

definition probeLabelKey :: string where "probeLabelKey = ''agentic.clawdlinux.org/probe''"
definition probeLabelValue :: string where "probeLabelValue = ''network-policy''"
definition probeRoleLabelKey :: string where "probeRoleLabelKey = ''agentic.clawdlinux.org/probe-role''"
definition probeServerRole :: string where "probeServerRole = ''server''"
definition probeClientRole :: string where "probeClientRole = ''client''"
definition probeServiceName :: string where "probeServiceName = ''probe-target''"
definition probePort :: int where "probePort = 18443"

datatype probe_object =
    ProbePod string "(string \<times> string) list" string "string list"
  | ProbeService string "(string \<times> string) list" int
  | ProbePolicy string "(string \<times> string) list" "(string \<times> string) list" "(string \<times> string) list" "(int \<times> string) list"

definition buildProbePod :: "string \<Rightarrow> string \<Rightarrow> string \<Rightarrow> string list \<Rightarrow> probe_object" where
  "buildProbePod name role img command = ProbePod name [(probeLabelKey, probeLabelValue), (probeRoleLabelKey, role)] img command"

definition buildProbeServerPod :: "string \<Rightarrow> probe_object" where
  "buildProbeServerPod img = buildProbePod ''server'' probeServerRole img [''/manager'', ''netprobe'', ''serve'']"

definition buildProbeClientPod :: "string \<Rightarrow> string \<Rightarrow> probe_object" where
  "buildProbeClientPod name img = buildProbePod name probeClientRole img
     [''/manager'', ''netprobe'', ''dial'', probeServiceName, itoa probePort]"

definition buildProbeService :: probe_object where
  "buildProbeService = ProbeService probeServiceName [(probeLabelKey, probeLabelValue), (probeRoleLabelKey, probeServerRole)] probePort"

text \<open>The name, the selected pods, the peer namespace and pods of the one egress rule, and its ports.\<close>

definition buildProbeDenyEgressPolicy :: probe_object where
  "buildProbeDenyEgressPolicy = ProbePolicy ''agentctl-probe-deny-egress''
     [(probeLabelKey, probeLabelValue), (probeRoleLabelKey, probeClientRole)]
     [(''kubernetes.io/metadata.name'', ''kube-system'')] [(''k8s-app'', ''kube-dns'')] [(53, ''UDP''), (53, ''TCP'')]"

text \<open>The labels of matchLabels all have to be there.\<close>

definition selects :: "(string \<times> string) list \<Rightarrow> (string \<times> string) list \<Rightarrow> bool" where
  "selects sel labels \<longleftrightarrow> list_all (\<lambda>(k, v). map_of labels k = Some v) sel"

fun policy_applies :: "probe_object \<Rightarrow> probe_object \<Rightarrow> bool" where
  "policy_applies (ProbePolicy name sel ns pods ports) (ProbePod pod labels img command) = selects sel labels"
| "policy_applies _ _ = False"

fun allowed_ports :: "probe_object \<Rightarrow> int set" where
  "allowed_ports (ProbePolicy name sel ns pods ports) = fst ` set ports"
| "allowed_ports _ = {}"

section \<open>Waiting\<close>

record pod_view =
  pv_exits :: "int option list"
  pv_phase :: string

fun waitForPodExit :: "pod_view err list \<Rightarrow> int err" where
  "waitForPodExit [] = Inl ''context deadline exceeded''"
| "waitForPodExit (Inl e # views) = Inl e"
| "waitForPodExit (Inr v # views) =
     (case filter (\<lambda>x. x \<noteq> None) (pv_exits v) of
        Some code # _ \<Rightarrow> Inr code
      | _ \<Rightarrow> if pv_phase v = ''Succeeded'' then Inr 0
            else if pv_phase v = ''Failed'' then Inr 1
            else waitForPodExit views)"

fun waitForPodRunning :: "pod_view err list \<Rightarrow> string option" where
  "waitForPodRunning [] = Some ''context deadline exceeded''"
| "waitForPodRunning (Inl e # views) = Some e"
| "waitForPodRunning (Inr v # views) =
     (if pv_phase v = ''Running'' then None
      else if pv_phase v = ''Failed'' \<or> pv_phase v = ''Succeeded''
      then Some (''probe server reached terminal phase '' @ pv_phase v)
      else waitForPodRunning views)"

text \<open>A view of the endpoints: the numbers of addresses and ports of each subset.\<close>

fun waitForServiceEndpoints :: "(nat \<times> nat) list err list \<Rightarrow> string option" where
  "waitForServiceEndpoints [] = Some ''context deadline exceeded''"
| "waitForServiceEndpoints (Inl e # views) = Some e"
| "waitForServiceEndpoints (Inr subsets # views) =
     (if list_ex (\<lambda>(a, p). a > 0 \<and> p > 0) subsets then None else waitForServiceEndpoints views)"

section \<open>The probe\<close>

datatype probe_call = CreateNamespace | CreateObject probe_object | AwaitRunning string | AwaitEndpoints string | AwaitExit string
  | DeleteNamespace string

datatype delete_answer = Deleted | Gone | DeleteFailed string

record probe_env =
  pe_namespace :: "string err"
  pe_create :: "probe_call list \<Rightarrow> probe_object \<Rightarrow> string option"
  pe_pods :: "probe_call list \<Rightarrow> string \<Rightarrow> pod_view err list"
  pe_endpoints :: "probe_call list \<Rightarrow> string \<Rightarrow> (nat \<times> nat) list err list"
  pe_delete :: "probe_call list \<Rightarrow> delete_answer"

record probe_options =
  po_image :: string
  po_timeout :: int
  po_keep :: bool
  po_allow :: bool

record probe_result =
  pr_verdict :: string
  pr_reason :: string
  pr_namespace :: string
  pr_detection :: "(enforcement \<times> string) option"
  pr_control :: int
  pr_test :: int
  pr_cleaned :: bool

type_synonym probe_run = "probe_result \<times> probe_call list"

definition inconclusive :: "probe_result \<Rightarrow> string \<Rightarrow> string \<Rightarrow> probe_result" where
  "inconclusive res action e = res\<lparr>pr_verdict := ''Inconclusive'', pr_reason := action @ '': '' @ e\<rparr>"

definition classifyProbeResult :: "probe_result \<Rightarrow> probe_result" where
  "classifyProbeResult res =
     (if pr_test res = 0
      then res\<lparr>pr_verdict := ''NotEnforcing'', pr_reason := ''test connection succeeded despite deny-egress policy''\<rparr>
      else if pr_test res = 10
      then res\<lparr>pr_verdict := ''Enforcing'', pr_reason := ''test connection was blocked by deny-egress policy''\<rparr>
      else if pr_test res = 20
      then res\<lparr>pr_verdict := ''Inconclusive'', pr_reason := ''test DNS resolution failed''\<rparr>
      else res\<lparr>pr_verdict := ''Inconclusive'', pr_reason := ''test client exited with code '' @ itoa (pr_test res)\<rparr>)"

text \<open>A call, the return of an inconclusive result when it fails, and the rest of the function.\<close>

definition attempt :: "string \<Rightarrow> probe_call \<Rightarrow> (probe_call list \<Rightarrow> string option) \<Rightarrow> probe_run \<Rightarrow> (probe_run \<Rightarrow> probe_run) \<Rightarrow> probe_run" where
  "attempt action call answer run rest = (case answer (snd run) of
       Some e \<Rightarrow> (inconclusive (fst run) action e, snd run @ [call])
     | None \<Rightarrow> rest (fst run, snd run @ [call]))"

definition make :: "probe_env \<Rightarrow> probe_object \<Rightarrow> string \<Rightarrow> probe_run \<Rightarrow> (probe_run \<Rightarrow> probe_run) \<Rightarrow> probe_run" where
  "make ev obj action = attempt action (CreateObject obj) (\<lambda>calls. pe_create ev calls obj)"

definition running :: "probe_env \<Rightarrow> string \<Rightarrow> string \<Rightarrow> probe_run \<Rightarrow> (probe_run \<Rightarrow> probe_run) \<Rightarrow> probe_run" where
  "running ev name action = attempt action (AwaitRunning name) (\<lambda>calls. waitForPodRunning (pe_pods ev calls name))"

definition exit_code :: "probe_env \<Rightarrow> string \<Rightarrow> probe_call list \<Rightarrow> int err" where
  "exit_code ev name calls = waitForPodExit (pe_pods ev calls name)"

definition exited :: "probe_env \<Rightarrow> string \<Rightarrow> string \<Rightarrow> probe_run \<Rightarrow> (int \<Rightarrow> probe_run \<Rightarrow> probe_run) \<Rightarrow> probe_run" where
  "exited ev name action run rest = (case exit_code ev name (snd run) of
       Inl e \<Rightarrow> (inconclusive (fst run) action e, snd run @ [AwaitExit name])
     | Inr code \<Rightarrow> rest code (fst run, snd run @ [AwaitExit name]))"

definition probe_test :: "probe_env \<Rightarrow> string \<Rightarrow> probe_run \<Rightarrow> probe_run" where
  "probe_test ev img run =
     make ev buildProbeDenyEgressPolicy ''create deny-egress policy'' run (\<lambda>run.
     make ev (buildProbeClientPod ''test'' img) ''create test client'' run (\<lambda>run.
     exited ev ''test'' ''wait for test client'' run (\<lambda>code (res, calls).
     running ev ''server'' ''verify probe server'' (res\<lparr>pr_test := code\<rparr>, calls) (\<lambda>(res, calls).
     (classifyProbeResult res, calls)))))"

definition probe_body :: "probe_env \<Rightarrow> string \<Rightarrow> probe_run \<Rightarrow> probe_run" where
  "probe_body ev img run =
     make ev (buildProbeServerPod img) ''create probe server'' run (\<lambda>run.
     make ev buildProbeService ''create probe service'' run (\<lambda>run.
     running ev ''server'' ''wait for probe server'' run (\<lambda>run.
     attempt ''wait for probe service endpoints'' (AwaitEndpoints probeServiceName)
       (\<lambda>calls. waitForServiceEndpoints (pe_endpoints ev calls probeServiceName)) run (\<lambda>run.
     make ev (buildProbeClientPod ''control'' img) ''create control client'' run (\<lambda>run.
     exited ev ''control'' ''wait for control client'' run (\<lambda>code (res, calls).
     if code \<noteq> 0
     then (res\<lparr>pr_control := code, pr_verdict := ''Inconclusive'',
             pr_reason := ''control connection failed with exit code '' @ itoa code\<rparr>, calls)
     else probe_test ev img (res\<lparr>pr_control := code\<rparr>, calls)))))))"

text \<open>The deferred deletion of the namespace.\<close>

definition cleanup :: "probe_env \<Rightarrow> string \<Rightarrow> probe_run \<Rightarrow> probe_result \<times> string option \<times> probe_call list" where
  "cleanup ev ns run = (case run of (res, calls) \<Rightarrow> (case pe_delete ev calls of
       DeleteFailed e \<Rightarrow> (res, Some (''cleanup probe namespace: '' @ e), calls @ [DeleteNamespace ns])
     | _ \<Rightarrow> (res\<lparr>pr_cleaned := True\<rparr>, None, calls @ [DeleteNamespace ns])))"

definition no_result :: probe_result where
  "no_result = \<lparr>pr_verdict = '''', pr_reason = '''', pr_namespace = '''', pr_detection = None, pr_control = 0, pr_test = 0,
     pr_cleaned = False\<rparr>"

text \<open>With a Kubernetes client; the waits are the ones of this file. The maximum of the timeout is 110 seconds; the deadline
  that results is in the views the environment gives.\<close>

definition RunActiveProbe :: "probe_env \<Rightarrow> string list option err option \<Rightarrow> (string \<times> string) list option err option \<Rightarrow> probe_options
    \<Rightarrow> probe_result \<times> string option \<times> probe_call list" where
  "RunActiveProbe ev discovery daemons options =
     (case DetectCNIEnforcement discovery daemons of
        Inl e \<Rightarrow> (no_result, Some (''detect CNI enforcement: '' @ e), [])
      | Inr (en, reason) \<Rightarrow>
          (let res = no_result\<lparr>pr_detection := Some (en, reason)\<rparr> in
           if en = EnforcementKnownNonEnforcing \<and> \<not> po_allow options
           then (res\<lparr>pr_verdict := ''Inconclusive'', pr_reason := reason @ ''; refusing active probe without explicit override''\<rparr>, None, [])
           else if po_image options = '''' then (res, Some ''active NetworkPolicy probe requires --probe-image'', [])
           else if po_timeout options > 110 * 10 ^ 9
           then (res, Some ''active NetworkPolicy probe timeout must not exceed 1m50s'', [])
           else (case pe_namespace ev of
               Inl e \<Rightarrow> (inconclusive res ''create probe namespace'' e, None, [CreateNamespace])
             | Inr ns \<Rightarrow>
                 (let run = probe_body ev (po_image options) (res\<lparr>pr_namespace := ns\<rparr>, [CreateNamespace]) in
                  if po_keep options then (fst run, None, snd run) else cleanup ev ns run))))"

section \<open>The client command\<close>

definition valid_port :: "string \<Rightarrow> bool" where
  "valid_port s \<longleftrightarrow> s \<noteq> [] \<and> list_all is_digit s \<and> parse_nat_acc 0 s < 65536"

text \<open>The server command, the name lookup and the connection are the environment's.\<close>

definition netprobe_Run :: "(string list \<Rightarrow> int) \<Rightarrow> (string \<Rightarrow> bool) \<Rightarrow> (string \<Rightarrow> string \<Rightarrow> bool) \<Rightarrow> string list \<Rightarrow> int" where
  "netprobe_Run serve resolves connects args = (case args of
       [] \<Rightarrow> 30
     | cmd # rest \<Rightarrow>
         if cmd = ''serve'' then serve rest
         else if cmd = ''dial'' then (case rest of
             [host, port] \<Rightarrow> if \<not> valid_port port then 30
               else if \<not> resolves host then 20
               else if \<not> connects host port then 10 else 0
           | _ \<Rightarrow> 30)
         else 30)"

fun pod_command :: "probe_object \<Rightarrow> string list" where
  "pod_command (ProbePod name labels img command) = command"
| "pod_command _ = []"

section \<open>What a verdict rests on\<close>

text \<open>The calls of a complete run, before the deletion of the namespace.\<close>

definition probe_script :: "string \<Rightarrow> probe_call list" where
  "probe_script img = [CreateNamespace, CreateObject (buildProbeServerPod img), CreateObject buildProbeService, AwaitRunning ''server'',
     AwaitEndpoints probeServiceName, CreateObject (buildProbeClientPod ''control'' img), AwaitExit ''control'',
     CreateObject buildProbeDenyEgressPolicy, CreateObject (buildProbeClientPod ''test'' img), AwaitExit ''test'', AwaitRunning ''server'']"

text \<open>What holds of the calls and the verdict of a run, at each of its returns.\<close>

definition controlled :: "probe_env \<Rightarrow> string \<Rightarrow> probe_run \<Rightarrow> bool" where
  "controlled ev img run \<longleftrightarrow> prefix (snd run) (probe_script img)
     \<and> (CreateObject buildProbeDenyEgressPolicy \<in> set (snd run) \<longrightarrow> exit_code ev ''control'' (take 6 (probe_script img)) = Inr 0)
     \<and> (pr_verdict (fst run) \<noteq> ''Inconclusive'' \<longrightarrow> snd run = probe_script img
         \<and> pe_create ev (take 7 (probe_script img)) buildProbeDenyEgressPolicy = None
         \<and> exit_code ev ''test'' (take 9 (probe_script img)) = Inr (pr_test (fst run))
         \<and> waitForPodRunning (pe_pods ev (take 10 (probe_script img)) ''server'') = None
         \<and> (pr_verdict (fst run) = ''Enforcing'' \<and> pr_test (fst run) = 10
            \<or> pr_verdict (fst run) = ''NotEnforcing'' \<and> pr_test (fst run) = 0))"

lemma attempt_controlled:
  assumes "answer (snd run) \<noteq> None \<Longrightarrow> controlled ev img (inconclusive (fst run) action (the (answer (snd run))), snd run @ [call])"
    "answer (snd run) = None \<Longrightarrow> controlled ev img (rest (fst run, snd run @ [call]))"
  shows "controlled ev img (attempt action call answer run rest)"
  using assms by (cases "answer (snd run)") (simp_all add: attempt_def)

lemma exited_controlled:
  assumes "\<And>e. controlled ev img (inconclusive (fst run) action e, snd run @ [AwaitExit name])"
    "\<And>code. exit_code ev name (snd run) = Inr code \<Longrightarrow> controlled ev img (rest code (fst run, snd run @ [AwaitExit name]))"
  shows "controlled ev img (exited ev name action run rest)"
  using assms by (auto simp: exited_def split: sum.splits)

lemma inconclusive_verdict [simp]: "pr_verdict (inconclusive res action e) = ''Inconclusive''"
  by (simp add: inconclusive_def)

lemma policy_no_pod: "buildProbeDenyEgressPolicy \<noteq> buildProbePod name role img command"
  "buildProbeDenyEgressPolicy \<noteq> buildProbeService"
  by (simp_all add: buildProbeDenyEgressPolicy_def buildProbePod_def buildProbeService_def)

lemmas script_simps = probe_script_def policy_no_pod buildProbeServerPod_def buildProbeClientPod_def

lemma test_controlled:
  assumes "exit_code ev ''control'' (take 6 (probe_script img)) = Inr 0"
  shows "controlled ev img (probe_test ev img (res, take 7 (probe_script img)))"
  unfolding probe_test_def make_def running_def
  by (rule attempt_controlled exited_controlled | simp only: split
      | use assms in \<open>simp add: controlled_def script_simps classifyProbeResult_def; fail\<close>)+

lemma body_controlled: "controlled ev img (probe_body ev img (res, [CreateNamespace]))"
  unfolding probe_body_def make_def running_def
  apply (rule attempt_controlled exited_controlled | simp add: controlled_def script_simps; fail)+
  subgoal for code
    using test_controlled [of ev img "res\<lparr>pr_control := code\<rparr>"]
    by (auto simp: controlled_def script_simps)
  done

lemma client_codes:
  "netprobe_Run serve resolves connects (drop 2 (pod_command (buildProbeClientPod name img)))
     = (if \<not> resolves probeServiceName then 20 else if \<not> connects probeServiceName (itoa probePort) then 10 else 0)"
proof -
  have "itoa probePort = nat_str 18443" by (simp add: itoa_def probePort_def)
  moreover have "nat_str 18443 \<noteq> []" by (subst nat_str.simps) simp
  ultimately have "valid_port (itoa probePort)"
    using nat_str_digits by (auto simp: valid_port_def parse_nat_str list_all_iff)
  then show ?thesis by (simp add: netprobe_Run_def buildProbeClientPod_def buildProbePod_def)
qed

lemma policy_selects_clients:
  "policy_applies buildProbeDenyEgressPolicy (buildProbeClientPod name img)"
  "\<not> policy_applies buildProbeDenyEgressPolicy (buildProbeServerPod img)"
  "probePort \<notin> allowed_ports buildProbeDenyEgressPolicy"
  by (simp_all add: buildProbeDenyEgressPolicy_def buildProbeClientPod_def buildProbeServerPod_def buildProbePod_def selects_def
      probeLabelKey_def probeRoleLabelKey_def probeClientRole_def probeServerRole_def probePort_def)

text \<open>A run that got a namespace went through the body.\<close>

lemma run_body:
  assumes "RunActiveProbe ev discovery daemons options = (res, e, calls)" "calls \<noteq> []" "pe_namespace ev = Inr ns"
  obtains r0 body where "body = probe_body ev (po_image options) (r0, [CreateNamespace])"
    "calls = snd body @ (if po_keep options then [] else [DeleteNamespace ns])"
    "pr_verdict res = pr_verdict (fst body)" "pr_test res = pr_test (fst body)"
    "\<exists>en reason. DetectCNIEnforcement discovery daemons = Inr (en, reason) \<and> (en = EnforcementKnownNonEnforcing \<longrightarrow> po_allow options)"
proof -
  obtain en reason where d: "DetectCNIEnforcement discovery daemons = Inr (en, reason)"
    "\<not> (en = EnforcementKnownNonEnforcing \<and> \<not> po_allow options)" "po_image options \<noteq> ''''" "\<not> po_timeout options > 110 * 10 ^ 9"
    using assms(1,2) by (auto simp: RunActiveProbe_def Let_def split: sum.splits prod.splits if_splits)
  define body where "body = probe_body ev (po_image options)
    (no_result\<lparr>pr_detection := Some (en, reason), pr_namespace := ns\<rparr>, [CreateNamespace])"
  have "(res, e, calls) = (if po_keep options then (fst body, None, snd body) else cleanup ev ns body)"
    using assms(1,3) d by (auto simp: RunActiveProbe_def Let_def body_def)
  then have "calls = snd body @ (if po_keep options then [] else [DeleteNamespace ns])"
    "pr_verdict res = pr_verdict (fst body)" "pr_test res = pr_test (fst body)"
    by (auto simp: cleanup_def split: if_splits prod.splits delete_answer.splits)
  then show thesis using that body_def d(1,2) by blast
qed

text \<open>C32: What an active probe concludes. On any cluster, a run that ends with the verdict Enforcing or NotEnforcing has made
  exactly the calls of the script: the control client exited with 0 before the policy existed, the policy was created, the server
  was still running after the test client had exited, with 10 for Enforcing and 0 for NotEnforcing, and a plugin known not to
  enforce was probed on request only. The policy selects the clients and not the server and does not allow the port of the server;
  if the test client is the client command, Enforcing means that the name resolved and the connection failed. Every run that got a
  namespace and is not told to keep it ends with the deletion.\<close>

theorem probe_verdict_controlled:
  assumes "RunActiveProbe ev discovery daemons options = (res, e, calls)" "pe_namespace ev = Inr ns" "calls \<noteq> []"
  defines "script \<equiv> probe_script (po_image options)"
  shows "(pr_verdict res \<noteq> ''Inconclusive'' \<longrightarrow>
      calls = script @ (if po_keep options then [] else [DeleteNamespace ns])
      \<and> exit_code ev ''control'' (take 6 script) = Inr 0
      \<and> pe_create ev (take 7 script) buildProbeDenyEgressPolicy = None
      \<and> waitForPodRunning (pe_pods ev (take 10 script) ''server'') = None
      \<and> exit_code ev ''test'' (take 9 script) = Inr (if pr_verdict res = ''Enforcing'' then 10 else 0)
      \<and> (pr_verdict res = ''Enforcing'' \<or> pr_verdict res = ''NotEnforcing'')
      \<and> (\<exists>en reason. DetectCNIEnforcement discovery daemons = Inr (en, reason)
           \<and> (en = EnforcementKnownNonEnforcing \<longrightarrow> po_allow options))
      \<and> policy_applies buildProbeDenyEgressPolicy (buildProbeClientPod ''test'' (po_image options))
      \<and> \<not> policy_applies buildProbeDenyEgressPolicy (buildProbeServerPod (po_image options))
      \<and> probePort \<notin> allowed_ports buildProbeDenyEgressPolicy
      \<and> (\<forall>serve resolves connects. pr_verdict res = ''Enforcing'' \<and> exit_code ev ''test'' (take 9 script)
             = Inr (netprobe_Run serve resolves connects (drop 2 (pod_command (buildProbeClientPod ''test'' (po_image options)))))
           \<longrightarrow> resolves probeServiceName \<and> \<not> connects probeServiceName (itoa probePort)))
    \<and> (CreateObject buildProbeDenyEgressPolicy \<in> set calls \<longrightarrow> exit_code ev ''control'' (take 6 script) = Inr 0)
    \<and> (\<not> po_keep options \<longrightarrow> last calls = DeleteNamespace ns)"
proof -
  obtain r0 body where b: "body = probe_body ev (po_image options) (r0, [CreateNamespace])"
    "calls = snd body @ (if po_keep options then [] else [DeleteNamespace ns])"
    "pr_verdict res = pr_verdict (fst body)" "pr_test res = pr_test (fst body)"
    and d: "\<exists>en reason. DetectCNIEnforcement discovery daemons = Inr (en, reason) \<and> (en = EnforcementKnownNonEnforcing \<longrightarrow> po_allow options)"
    by (rule run_body [OF assms(1,3,2)])
  have c: "controlled ev (po_image options) body" using body_controlled b(1) by simp
  have p: "CreateObject buildProbeDenyEgressPolicy \<in> set calls \<longrightarrow> exit_code ev ''control'' (take 6 script) = Inr 0"
    using c b(2) by (auto simp: controlled_def script_def split: if_splits)
  have l: "\<not> po_keep options \<longrightarrow> last calls = DeleteNamespace ns" using b(2) by simp
  show ?thesis
  proof (cases "pr_verdict res = ''Inconclusive''")
    case True
    then show ?thesis using p l by blast
  next
    case False
    then have v: "snd body = script" "pe_create ev (take 7 script) buildProbeDenyEgressPolicy = None"
      "exit_code ev ''test'' (take 9 script) = Inr (pr_test res)" "waitForPodRunning (pe_pods ev (take 10 script) ''server'') = None"
      "pr_verdict res = ''Enforcing'' \<and> pr_test res = 10 \<or> pr_verdict res = ''NotEnforcing'' \<and> pr_test res = 0"
      using c b(3,4) by (auto simp: controlled_def script_def)
    have calls: "calls = script @ (if po_keep options then [] else [DeleteNamespace ns])" using b(2) v(1) by simp
    then have "CreateObject buildProbeDenyEgressPolicy \<in> set calls" by (simp add: script_def probe_script_def)
    then have control: "exit_code ev ''control'' (take 6 script) = Inr 0" using p by blast
    have t: "exit_code ev ''test'' (take 9 script) = Inr (if pr_verdict res = ''Enforcing'' then 10 else 0)" using v(3,5) by auto
    have client: "resolves probeServiceName \<and> \<not> connects probeServiceName (itoa probePort)" if "pr_verdict res = ''Enforcing''"
      "exit_code ev ''test'' (take 9 script)
         = Inr (netprobe_Run serve resolves connects (drop 2 (pod_command (buildProbeClientPod ''test'' (po_image options)))))"
      for serve resolves connects
      using t that by (auto simp: client_codes split: if_splits)
    show ?thesis using calls control v(2,4,5) t d policy_selects_clients client p l by blast
  qed
qed

text \<open>A cluster that enforces the policy, in which the server becomes ready at the second poll.\<close>

definition wit_probe_env :: probe_env where
  "wit_probe_env = \<lparr>pe_namespace = Inr ''probe-x1'', pe_create = \<lambda>calls obj. None,
     pe_pods = \<lambda>calls name. if name = ''server'' then [Inr \<lparr>pv_exits = [None], pv_phase = ''Pending''\<rparr>, Inr \<lparr>pv_exits = [None], pv_phase = ''Running''\<rparr>]
       else [Inr \<lparr>pv_exits = [None], pv_phase = ''Running''\<rparr>, Inr \<lparr>pv_exits = [Some (if name = ''control'' then 0 else 10)], pv_phase = ''Running''\<rparr>],
     pe_endpoints = \<lambda>calls name. [Inr [], Inr [(1, 1)]], pe_delete = \<lambda>calls. Deleted\<rparr>"

definition wit_probe_options :: probe_options where
  "wit_probe_options = \<lparr>po_image = ''op:1'', po_timeout = 0, po_keep = False, po_allow = False\<rparr>"

lemma wit_probe_run:
  "let (res, e, calls) = RunActiveProbe wit_probe_env (Some (Inr (Some [''cilium.io'']))) (Some (Inr (Some []))) wit_probe_options in
     pr_verdict res = ''Enforcing'' \<and> calls \<noteq> []"
proof -
  have "DetectCNIEnforcement (Some (Inr (Some [''cilium.io'']))) (Some (Inr (Some [])))
    = Inr (EnforcementEnforcing, ''Cilium API group detected'')" by code_simp
  then show ?thesis
    by (simp add: RunActiveProbe_def wit_probe_env_def wit_probe_options_def probe_body_def probe_test_def make_def running_def exited_def
        exit_code_def attempt_def cleanup_def classifyProbeResult_def)
qed

lemma probe_verdict_controlled_witness:
  "exit_code wit_probe_env ''control'' (take 6 (probe_script ''op:1'')) = Inr 0
    \<and> exit_code wit_probe_env ''test'' (take 9 (probe_script ''op:1'')) = Inr 10"
proof -
  obtain res e calls where run: "RunActiveProbe wit_probe_env (Some (Inr (Some [''cilium.io'']))) (Some (Inr (Some []))) wit_probe_options
    = (res, e, calls)" by (metis prod_cases3)
  have v: "pr_verdict res = ''Enforcing''" "calls \<noteq> []" using wit_probe_run run by simp_all
  have ns: "pe_namespace wit_probe_env = Inr ''probe-x1''" by (simp add: wit_probe_env_def)
  show ?thesis using probe_verdict_controlled [OF run ns v(2)] v(1) by (simp add: wit_probe_options_def)
qed

end
