(* ===== verification/Offline.thy ===== *)
theory Offline
  imports ReceiptExport Scorers
begin

text \<open>
  The offline side of decisions and receipts: pkg/decision/eval (a model against the human labels of the dataset),
  pkg/dataset/features.go, and the verify and eval commands of cmd/agentctl (receipts.go, dataset.go, decision.go). Files are given
  by what reading them returns; numbers are int64, with the wrap-around written out.
\<close>

section \<open>Features of an example\<close>

definition parseDecimal :: "string \<Rightarrow> f64 option" where
  "parseDecimal s = (if s = '''' then None else parse_float s)"

definition FeatureInput :: "example \<Rightarrow> feature_input" where
  "FeatureInput ex = (let f = ex_features ex in
     \<lparr>fi_input = \<lparr>in_declared = zero_declared\<lparr>d_decision_type := ft_decision_type f, d_classes := ft_classes f, d_dests := ft_dests f\<rparr>,
        in_observed = zero_observed\<lparr>o_destination := ft_host f, o_classes := ft_observed f, o_tool := ft_tool f,
          o_prior_actions := ft_prior_actions f, o_prior_denied := ft_prior_denied f\<rparr>,
        in_claimed = zero_claimed\<lparr>cl_confidence := parseDecimal (ft_confidence f), cl_health := parseDecimal (ft_health f)\<rparr>\<rparr>,
      fi_action = ct_name (ex_content ex), fi_packs = ft_packs f, fi_escalated_by = ft_escalated_by f\<rparr>)"

definition Rejected :: "example \<Rightarrow> bool" where
  "Rejected ex \<longleftrightarrow> ex_label ex = ''reject'' \<or> ex_label ex = ''edit''"

section \<open>Evaluation of a model\<close>

definition MinHumanLabels :: int where "MinHumanLabels = 200"
definition Bins :: nat where "Bins = 10"

record bin =
  bn_lower :: int
  bn_upper :: int
  bn_count :: int
  bn_mean :: int
  bn_observed :: int

record eval_result =
  ev_model :: string
  ev_version :: string
  ev_artifact :: string
  ev_threshold :: int
  ev_rejected :: int
  ev_approved :: int
  ev_caught :: int
  ev_extra :: int
  ev_recall :: int
  ev_precision :: int
  ev_extra_rate :: int
  ev_ece :: int
  ev_bins :: "bin list"

record eval_report =
  er_examples :: int
  er_synthetic :: int
  er_human :: int
  er_verified :: bool
  er_warnings :: "string list"
  er_model :: eval_result
  er_baseline :: "eval_result option"

text \<open>The scanner allows lines of 16 MiB; a decoder of one value ignores what follows it.\<close>

fun parse_lines :: "nat \<Rightarrow> string list \<Rightarrow> example list err" where
  "parse_lines line [] = Inr []"
| "parse_lines line (l # ls) =
     (let raw = trim_space l in
      if raw = [] then parse_lines (line + 1) ls
      else case decode_first (decode_example True) raw of
          None \<Rightarrow> Inl (''eval: line '' @ nat_str line @ '': '')
        | Some ex \<Rightarrow>
            if ex_label ex \<in> {''approve'', ''reject'', ''edit''} then bind_err (parse_lines (line + 1) ls) (\<lambda>exs. Inr (ex # exs))
            else Inl (''eval: line '' @ nat_str line @ '': unknown label '' @ quote (ex_label ex)))"

text \<open>The examples come with the error of the scanner, if any.\<close>

definition ParseJSONL :: "string \<Rightarrow> example list err" where
  "ParseJSONL s = bind_err (parse_lines 1 (fst (scan_lines s))) (\<lambda>exs.
     if snd (scan_lines s) then Inr exs else Inl ''bufio.Scanner: token too long'')"

definition ratio :: "int \<Rightarrow> int \<Rightarrow> int" where
  "ratio a b = (if b = 0 then 0 else tdiv (wrap64 (a * MicroScale)) b)"

fun score_all :: "(features \<Rightarrow> score err) \<Rightarrow> example list \<Rightarrow> score list err" where
  "score_all sc [] = Inr []"
| "score_all sc (ex # exs) =
     (case sc (ExtractFeatures (FeatureInput ex)) of
        Inl e \<Rightarrow> Inl (''eval: example '' @ ex_id ex @ '': '' @ e)
      | Inr s \<Rightarrow> bind_err (score_all sc exs) (\<lambda>ss. Inr (s # ss)))"

record counters =
  co_rejected :: int
  co_approved :: int
  co_caught :: int
  co_extra :: int
  co_counts :: "int list"
  co_sums :: "int list"
  co_pos :: "int list"

definition zero_counters :: counters where
  "zero_counters = \<lparr>co_rejected = 0, co_approved = 0, co_caught = 0, co_extra = 0,
     co_counts = replicate Bins 0, co_sums = replicate Bins 0, co_pos = replicate Bins 0\<rparr>"

definition bin_of :: "int \<Rightarrow> nat" where
  "bin_of risk = nat (min (tdiv risk (tdiv MicroScale (int Bins))) (int Bins - 1))"

definition count_label :: "int \<Rightarrow> example \<Rightarrow> int \<Rightarrow> counters \<Rightarrow> counters" where
  "count_label threshold ex risk c =
     (let escalate = threshold \<le> risk in
      if Rejected ex
      then c\<lparr>co_rejected := co_rejected c + 1, co_caught := co_caught c + (if escalate then 1 else 0)\<rparr>
      else c\<lparr>co_approved := co_approved c + 1, co_extra := co_extra c + (if escalate then 1 else 0)\<rparr>)"

definition count_bin :: "example \<Rightarrow> int \<Rightarrow> counters \<Rightarrow> counters" where
  "count_bin ex risk c =
     (let b = bin_of risk in
      c\<lparr>co_counts := (co_counts c)[b := co_counts c ! b + 1], co_sums := (co_sums c)[b := wrap64 (co_sums c ! b + risk)],
        co_pos := (if Rejected ex then (co_pos c)[b := co_pos c ! b + 1] else co_pos c)\<rparr>)"

definition tally :: "int \<Rightarrow> (example \<times> int) list \<Rightarrow> counters" where
  "tally threshold xs = fold (\<lambda>(ex, risk) c. count_bin ex risk (count_label threshold ex risk c)) xs zero_counters"

definition make_bin :: "counters \<Rightarrow> nat \<Rightarrow> bin" where
  "make_bin c b =
     (let n = co_counts c ! b;
          x = \<lparr>bn_lower = tdiv (int b * MicroScale) (int Bins), bn_upper = tdiv ((int b + 1) * MicroScale) (int Bins),
               bn_count = n, bn_mean = 0, bn_observed = 0\<rparr>
      in if n > 0 then x\<lparr>bn_mean := tdiv (co_sums c ! b) n, bn_observed := tdiv (wrap64 (co_pos c ! b * MicroScale)) n\<rparr> else x)"

definition add_error :: "bin \<Rightarrow> int \<Rightarrow> int" where
  "add_error x ece = (if bn_count x > 0 then wrap64 (ece + wrap64 (bn_count x * \<bar>bn_mean x - bn_observed x\<bar>)) else ece)"

definition Evaluate :: "(features \<Rightarrow> score err) \<Rightarrow> example list \<Rightarrow> int option \<Rightarrow> eval_result err" where
  "Evaluate sc exs threshold =
     bind_err (score_all sc exs) (\<lambda>ss.
       let (mid, ver, art, thr) = (case ss of [] \<Rightarrow> ('''', '''', '''', 0)
             | s # _ \<Rightarrow> (s_model_id s, s_version s, s_artifact s, case threshold of None \<Rightarrow> s_threshold s | Some t \<Rightarrow> t));
           c = tally thr (zip exs (map (\<lambda>s. ClampMicro (s_risk s)) ss));
           bins = map (make_bin c) [0..<Bins];
           ece = fold add_error bins 0
       in Inr \<lparr>ev_model = mid, ev_version = ver, ev_artifact = art, ev_threshold = thr,
             ev_rejected = co_rejected c, ev_approved = co_approved c, ev_caught = co_caught c, ev_extra = co_extra c,
             ev_recall = ratio (co_caught c) (co_rejected c), ev_precision = ratio (co_caught c) (co_caught c + co_extra c),
             ev_extra_rate = ratio (co_extra c) (co_approved c),
             ev_ece = (if exs = [] then 0 else tdiv ece (int (length exs))), ev_bins = bins\<rparr>)"

definition eval_warnings :: "int \<Rightarrow> int \<Rightarrow> int \<Rightarrow> bool \<Rightarrow> string list" where
  "eval_warnings examples synthetic human verified =
     (if synthetic > 0 then [itoa synthetic @ '' of '' @ itoa examples
        @ '' examples are synthetic. They are generated from DRAFT scenarios, not human decisions. Numbers below measure fit to our own rules.'']
      else [])
     @ (if human < MinHumanLabels then [''only '' @ itoa human @ '' real human labels; at least '' @ itoa MinHumanLabels
        @ '' are needed before these numbers mean anything.''] else [])
     @ (if verified then [] else [''dataset was not verified against signed receipts.''])"

definition Counts :: "example list \<Rightarrow> bool \<Rightarrow> eval_report \<Rightarrow> eval_report" where
  "Counts exs verified r =
     (let human = er_human r + int (length (filter (\<lambda>ex. ex_source ex = '''') exs));
          synthetic = er_synthetic r + int (length (filter (\<lambda>ex. ex_source ex \<noteq> '''') exs))
      in r\<lparr>er_examples := int (length exs), er_verified := verified, er_human := human, er_synthetic := synthetic,
           er_warnings := eval_warnings (int (length exs)) synthetic human verified\<rparr>)"

section \<open>What an evaluation counts\<close>

definition number :: "('a \<Rightarrow> bool) \<Rightarrow> 'a list \<Rightarrow> int" where
  "number P xs = int (length (filter P xs))"

lemma number_snoc [simp]: "number P (xs @ [x]) = number P xs + (if P x then 1 else 0)"
  by (simp add: number_def)

lemma number_Nil [simp]: "number P [] = 0" by (simp add: number_def)

lemma number_le: "number P xs \<le> int (length xs)" by (simp add: number_def)

lemma number_nonneg [simp]: "0 \<le> number P xs" by (simp add: number_def)

lemma number_mono: "(\<And>x. P x \<Longrightarrow> Q x) \<Longrightarrow> number P xs \<le> number Q xs"
  by (induction xs rule: rev_induct) auto

definition risk_ok :: "int \<Rightarrow> bool" where "risk_ok r \<longleftrightarrow> 0 \<le> r \<and> r \<le> MicroScale"

definition risk_sum :: "nat \<Rightarrow> (example \<times> int) list \<Rightarrow> int" where
  "risk_sum b xs = sum_list (map snd (filter (\<lambda>x. bin_of (snd x) = b) xs))"

lemma bin_of_div: "risk_ok r \<Longrightarrow> bin_of r = nat (min (r div 100000) 9)"
proof -
  have "tdiv MicroScale (int Bins) = 100000" by (simp add: tdiv_def MicroScale_def Bins_def)
  then show "risk_ok r \<Longrightarrow> bin_of r = nat (min (r div 100000) 9)"
    by (simp add: bin_of_def Bins_def risk_ok_def tdiv_nonneg)
qed

lemma bin_of_less: "risk_ok r \<Longrightarrow> bin_of r < Bins"
  by (simp add: bin_of_div Bins_def)

lemma bin_of_range:
  assumes "risk_ok r"
  shows "int (bin_of r) * 100000 \<le> r \<and> r \<le> (int (bin_of r) + 1) * 100000"
proof -
  have "0 \<le> r div 100000" using assms by (simp add: risk_ok_def pos_imp_zdiv_nonneg_iff)
  then have b: "int (bin_of r) = min (r div 100000) 9" using assms by (simp add: bin_of_div)
  have "r = 100000 * (r div 100000) + r mod 100000" "0 \<le> r mod 100000" "r mod 100000 < 100000" by simp_all
  then show ?thesis using b assms by (auto simp: risk_ok_def MicroScale_def min_def)
qed

lemma risk_sum_snoc: "risk_sum b (xs @ [x]) = risk_sum b xs + (if bin_of (snd x) = b then snd x else 0)"
  by (simp add: risk_sum_def)

lemma risk_sum_range:
  assumes "\<forall>x\<in>set xs. risk_ok (snd x)"
  shows "number (\<lambda>x. bin_of (snd x) = b) xs * (int b * 100000) \<le> risk_sum b xs
    \<and> risk_sum b xs \<le> number (\<lambda>x. bin_of (snd x) = b) xs * ((int b + 1) * 100000)
    \<and> 0 \<le> risk_sum b xs \<and> risk_sum b xs \<le> int (length xs) * MicroScale"
  using assms
proof (induction xs rule: rev_induct)
  case Nil
  then show ?case by (simp add: risk_sum_def)
next
  case (snoc x xs)
  have "risk_ok (snd x)" using snoc.prems by simp
  then show ?case using snoc bin_of_range [of "snd x"]
    by (auto simp: risk_sum_snoc algebra_simps risk_ok_def)
qed

lemma tally_snoc: "tally t (xs @ [(ex, r)]) = count_bin ex r (count_label t ex r (tally t xs))"
  by (simp add: tally_def)

lemma tally_spec:
  assumes "\<forall>x\<in>set xs. risk_ok (snd x)" "int (length xs) * MicroScale < 2 ^ 63"
  shows "co_rejected (tally t xs) = number (\<lambda>x. Rejected (fst x)) xs
    \<and> co_approved (tally t xs) = number (\<lambda>x. \<not> Rejected (fst x)) xs
    \<and> co_caught (tally t xs) = number (\<lambda>x. Rejected (fst x) \<and> t \<le> snd x) xs
    \<and> co_extra (tally t xs) = number (\<lambda>x. \<not> Rejected (fst x) \<and> t \<le> snd x) xs
    \<and> co_counts (tally t xs) = map (\<lambda>b. number (\<lambda>x. bin_of (snd x) = b) xs) [0..<Bins]
    \<and> co_sums (tally t xs) = map (\<lambda>b. risk_sum b xs) [0..<Bins]
    \<and> co_pos (tally t xs) = map (\<lambda>b. number (\<lambda>x. bin_of (snd x) = b \<and> Rejected (fst x)) xs) [0..<Bins]"
  using assms
proof (induction xs rule: rev_induct)
  case Nil
  have z: "map (\<lambda>b. 0) [0..<Bins] = replicate Bins (0::int)" by (simp add: map_replicate_const)
  show ?case by (simp add: tally_def zero_counters_def z risk_sum_def)
next
  case (snoc x xs)
  obtain ex r where x: "x = (ex, r)" by (cases x)
  have r: "risk_ok r" "bin_of r < Bins" using snoc.prems(1) x bin_of_less by auto
  have IH: "int (length xs) * MicroScale < 2 ^ 63" using snoc.prems(2) by (simp add: MicroScale_def)
  have small: "wrap64 (risk_sum (bin_of r) xs + r) = risk_sum (bin_of r) xs + r"
    using risk_sum_range [of "xs @ [x]" "bin_of r"] snoc.prems x
    by (intro wrap64_id) (auto simp: risk_sum_snoc in_int64_def)
  have upd: "(map f [0..<Bins])[bin_of r := v] = map (\<lambda>b. if b = bin_of r then v else f b) [0..<Bins]" for f and v :: int
    by (rule nth_equalityI) (auto simp: nth_list_update)
  note ih = snoc.IH [OF _ IH]
  show ?case using ih snoc.prems(1) r small
    by (auto simp: x tally_snoc count_bin_def count_label_def Let_def upd risk_sum_snoc)
qed

lemma counts_sum:
  assumes "\<forall>x\<in>set xs. risk_ok (snd x)"
  shows "sum_list (map (\<lambda>b. number (\<lambda>x. bin_of (snd x) = b) xs) [0..<Bins]) = int (length xs)"
  using assms
proof (induction xs rule: rev_induct)
  case (snoc x xs)
  have "bin_of (snd x) \<in> {0..<Bins}" using snoc.prems bin_of_less by simp
  then have one: "sum_list (map (\<lambda>b. if bin_of (snd x) = b then 1 else 0) [0..<Bins]) = (1::int)"
    by (simp add: interv_sum_list_conv_sum_set_nat sum.delta)
  show ?case using snoc one by (simp add: sum_list_addf)
qed (simp add: sum_list_0)

lemma ratio_range:
  assumes "0 \<le> a" "a \<le> b" "b * MicroScale < 2 ^ 63"
  shows "ratio a b = (if b = 0 then 0 else a * MicroScale div b)" "0 \<le> ratio a b" "ratio a b \<le> MicroScale"
proof -
  have "a * MicroScale \<le> b * MicroScale" using assms(2) by (simp add: MicroScale_def)
  then have w: "wrap64 (a * MicroScale) = a * MicroScale" "0 \<le> a * MicroScale"
    using assms by (auto simp: in_int64_def MicroScale_def intro: wrap64_id)
  show 1: "ratio a b = (if b = 0 then 0 else a * MicroScale div b)"
    using assms(1,2) w by (simp add: ratio_def tdiv_nonneg)
  show "0 \<le> ratio a b" using 1 w assms(1,2) by (simp add: pos_imp_zdiv_nonneg_iff)
  have "a * MicroScale div b \<le> MicroScale" if "b \<noteq> 0"
  proof -
    have "0 < b" using that assms(1,2) by simp
    moreover have "a * MicroScale div b \<le> b * MicroScale div b"
      using \<open>a * MicroScale \<le> b * MicroScale\<close> \<open>0 < b\<close> by (rule zdiv_mono1)
    ultimately show ?thesis by simp
  qed
  then show "ratio a b \<le> MicroScale" unfolding 1 by (simp add: MicroScale_def)
qed

lemma make_bin_tally:
  fixes t :: int
  assumes "\<forall>x\<in>set xs. risk_ok (snd x)" "int (length xs) * MicroScale < 2 ^ 63" "b < Bins"
  defines "x \<equiv> make_bin (tally t xs) b"
  shows "bn_count x = number (\<lambda>x. bin_of (snd x) = b) xs" "bn_lower x = int b * 100000" "bn_upper x = (int b + 1) * 100000"
    "bn_count x > 0 \<longrightarrow> bn_mean x = risk_sum b xs div bn_count x \<and> bn_lower x \<le> bn_mean x \<and> bn_mean x \<le> bn_upper x
       \<and> bn_observed x = number (\<lambda>x. bin_of (snd x) = b \<and> Rejected (fst x)) xs * MicroScale div bn_count x
       \<and> 0 \<le> bn_observed x \<and> bn_observed x \<le> MicroScale"
proof -
  let ?n = "number (\<lambda>x. bin_of (snd x) = b) xs" and ?p = "number (\<lambda>x. bin_of (snd x) = b \<and> Rejected (fst x)) xs"
  note ts = tally_spec [OF assms(1,2), of t]
  have c: "co_counts (tally t xs) ! b = ?n" "co_sums (tally t xs) ! b = risk_sum b xs" "co_pos (tally t xs) ! b = ?p"
    using ts assms(3) by simp_all
  have edge: "tdiv (int k * MicroScale) (int Bins) = int k * 100000" for k
    by (simp add: tdiv_nonneg MicroScale_def Bins_def)
  have edge1: "tdiv ((int k + 1) * MicroScale) (int Bins) = (int k + 1) * 100000" for k
    by (simp add: tdiv_nonneg MicroScale_def Bins_def)
  show "bn_count x = ?n" "bn_lower x = int b * 100000" "bn_upper x = (int b + 1) * 100000"
    unfolding x_def by (simp_all add: make_bin_def c edge edge1 Let_def)
  have "?n * MicroScale \<le> int (length xs) * MicroScale" using number_le by (intro mult_right_mono) (simp_all add: MicroScale_def)
  then have n: "?n * MicroScale < 2 ^ 63" using assms(2) by linarith
  have p: "0 \<le> ?p" "?p \<le> ?n" by (auto intro: number_mono)
  note rg = risk_sum_range [OF assms(1), of b]
  show "bn_count x > 0 \<longrightarrow> bn_mean x = risk_sum b xs div bn_count x \<and> bn_lower x \<le> bn_mean x \<and> bn_mean x \<le> bn_upper x
       \<and> bn_observed x = ?p * MicroScale div bn_count x \<and> 0 \<le> bn_observed x \<and> bn_observed x \<le> MicroScale"
  proof
    assume pos: "bn_count x > 0"
    then have n0: "?n > 0" using \<open>bn_count x = ?n\<close> by simp
    have mean: "bn_mean x = risk_sum b xs div ?n" using n0 rg
      unfolding x_def by (simp add: make_bin_def c Let_def tdiv_nonneg)
    have obs: "bn_observed x = ratio ?p ?n" using n0 unfolding x_def by (simp add: make_bin_def c Let_def ratio_def)
    have "int b * 100000 = ?n * (int b * 100000) div ?n" using n0 by simp
    also have "\<dots> \<le> risk_sum b xs div ?n" using rg n0 by (intro zdiv_mono1) auto
    finally have lo: "int b * 100000 \<le> bn_mean x" unfolding mean .
    have "risk_sum b xs div ?n \<le> ?n * ((int b + 1) * 100000) div ?n" using rg n0 by (intro zdiv_mono1) auto
    also have "\<dots> = (int b + 1) * 100000" using n0 by simp
    finally have hi: "bn_mean x \<le> (int b + 1) * 100000" unfolding mean .
    show "bn_mean x = risk_sum b xs div bn_count x \<and> bn_lower x \<le> bn_mean x \<and> bn_mean x \<le> bn_upper x
       \<and> bn_observed x = ?p * MicroScale div bn_count x \<and> 0 \<le> bn_observed x \<and> bn_observed x \<le> MicroScale"
      using mean lo hi obs ratio_range [OF p n] n0 \<open>bn_count x = ?n\<close> \<open>bn_lower x = int b * 100000\<close>
        \<open>bn_upper x = (int b + 1) * 100000\<close> by simp
  qed
qed

lemma add_error_sum:
  assumes "\<forall>x\<in>set xs. 0 \<le> bn_count x \<and> (bn_count x > 0 \<longrightarrow> \<bar>bn_mean x - bn_observed x\<bar> \<le> MicroScale)"
    "0 \<le> e" "e + sum_list (map bn_count xs) * MicroScale < 2 ^ 63"
  shows "e \<le> fold add_error xs e \<and> fold add_error xs e \<le> e + sum_list (map bn_count xs) * MicroScale"
  using assms
proof (induction xs arbitrary: e)
  case (Cons x xs)
  have rest: "0 \<le> sum_list (map bn_count xs)" using Cons.prems(1) by (intro sum_list_nonneg) auto
  have tot: "e + bn_count x * MicroScale + sum_list (map bn_count xs) * MicroScale < 2 ^ 63"
    using Cons.prems(3) by (simp add: algebra_simps)
  have r0: "0 \<le> sum_list (map bn_count xs) * MicroScale" using rest by (simp add: MicroScale_def)
  have step: "e \<le> add_error x e \<and> add_error x e \<le> e + bn_count x * MicroScale"
  proof (cases "bn_count x > 0")
    case True
    then have "\<bar>bn_mean x - bn_observed x\<bar> \<le> MicroScale" using Cons.prems(1) by simp
    then have m: "0 \<le> bn_count x * \<bar>bn_mean x - bn_observed x\<bar>" "bn_count x * \<bar>bn_mean x - bn_observed x\<bar> \<le> bn_count x * MicroScale"
      using True by (simp_all add: mult_left_mono)
    then have "wrap64 (bn_count x * \<bar>bn_mean x - bn_observed x\<bar>) = bn_count x * \<bar>bn_mean x - bn_observed x\<bar>"
      "wrap64 (e + bn_count x * \<bar>bn_mean x - bn_observed x\<bar>) = e + bn_count x * \<bar>bn_mean x - bn_observed x\<bar>"
      using Cons.prems(2) tot r0 by (auto simp: in_int64_def intro!: wrap64_id)
    then show ?thesis using True m by (simp add: add_error_def)
  next
    case False
    then show ?thesis using Cons.prems(1) by (simp add: add_error_def)
  qed
  have "0 \<le> add_error x e" "add_error x e + sum_list (map bn_count xs) * MicroScale < 2 ^ 63" using step Cons.prems(2) tot by auto
  from Cons.IH [OF _ this] Cons.prems(1) have "add_error x e \<le> fold add_error xs (add_error x e)"
    "fold add_error xs (add_error x e) \<le> add_error x e + sum_list (map bn_count xs) * MicroScale" by auto
  then show ?case using step by (simp add: algebra_simps)
qed simp

lemma score_all_Inr:
  "score_all sc exs = Inr ss \<Longrightarrow> list_all2 (\<lambda>ex s. sc (ExtractFeatures (FeatureInput ex)) = Inr s) exs ss"
proof (induction exs arbitrary: ss)
  case (Cons ex exs)
  then show ?case by (auto simp: bind_err_def split: sum.splits)
qed auto

definition risk_of :: "(features \<Rightarrow> score err) \<Rightarrow> example \<Rightarrow> int" where
  "risk_of sc ex = (case sc (ExtractFeatures (FeatureInput ex)) of Inl e \<Rightarrow> 0 | Inr s \<Rightarrow> ClampMicro (s_risk s))"

lemma risk_of_ok: "risk_ok (risk_of sc ex)"
  by (auto simp: risk_of_def risk_ok_def ClampMicro_def MicroScale_def split: sum.splits)

lemma scored_pairs:
  assumes "score_all sc exs = Inr ss"
  shows "zip exs (map (\<lambda>s. ClampMicro (s_risk s)) ss) = map (\<lambda>ex. (ex, risk_of sc ex)) exs" "length ss = length exs"
  using score_all_Inr [OF assms] by (induction rule: list_all2_induct) (simp_all add: risk_of_def)

lemma number_map: "number P (map f xs) = number (\<lambda>x. P (f x)) xs"
  by (simp add: number_def filter_map comp_def)

text \<open>C33: What an evaluation reports. For a dataset of up to 2^43 examples no number wraps: the counts are those of the rejected or
  edited, the approved, and of each the ones at or over the threshold; every example is in exactly one of the ten bins; the mean
  prediction of a bin lies between its bounds; recall, precision and the extra review rate are the rounded-down quotients of their
  counts, zero without any; and these, the observed rates and the calibration error are between zero and one, in micro-units.\<close>

theorem Evaluate_counts:
  assumes "Evaluate sc exs threshold = Inr res" "length exs \<le> 2 ^ 43"
  defines "hit ex \<equiv> ev_threshold res \<le> risk_of sc ex"
  shows "ev_rejected res = number Rejected exs \<and> ev_approved res = number (\<lambda>ex. \<not> Rejected ex) exs
    \<and> ev_caught res = number (\<lambda>ex. Rejected ex \<and> hit ex) exs \<and> ev_extra res = number (\<lambda>ex. \<not> Rejected ex \<and> hit ex) exs
    \<and> sum_list (map bn_count (ev_bins res)) = int (length exs) \<and> length (ev_bins res) = 10
    \<and> (\<forall>x\<in>set (ev_bins res). bn_count x > 0 \<longrightarrow> bn_lower x \<le> bn_mean x \<and> bn_mean x \<le> bn_upper x
         \<and> 0 \<le> bn_observed x \<and> bn_observed x \<le> MicroScale)
    \<and> ev_recall res = ev_caught res * MicroScale div ev_rejected res
    \<and> ev_precision res = ev_caught res * MicroScale div (ev_caught res + ev_extra res)
    \<and> ev_extra_rate res = ev_extra res * MicroScale div ev_approved res
    \<and> (\<forall>v\<in>{ev_recall res, ev_precision res, ev_extra_rate res, ev_ece res}. 0 \<le> v \<and> v \<le> MicroScale)"
proof -
  obtain ss where ss: "score_all sc exs = Inr ss" using assms(1) by (auto simp: Evaluate_def bind_err_def split: sum.splits)
  define t where "t = ev_threshold res"
  define xs where "xs = map (\<lambda>ex. (ex, risk_of sc ex)) exs"
  define c where "c = tally t xs"
  have pairs: "zip exs (map (\<lambda>s. ClampMicro (s_risk s)) ss) = xs" using scored_pairs [OF ss] by (simp add: xs_def)
  have rd: "\<forall>x\<in>set xs. risk_ok (snd x)" by (auto simp: xs_def risk_of_ok)
  have "int (length exs) \<le> 2 ^ 43" using assms(2) by (simp add: nat_le_iff flip: of_nat_le_iff)
  then have big: "int (length xs) * MicroScale < 2 ^ 63" by (simp add: xs_def MicroScale_def)
  have res: "ev_rejected res = co_rejected c" "ev_approved res = co_approved c" "ev_caught res = co_caught c" "ev_extra res = co_extra c"
    "ev_recall res = ratio (co_caught c) (co_rejected c)" "ev_precision res = ratio (co_caught c) (co_caught c + co_extra c)"
    "ev_extra_rate res = ratio (co_extra c) (co_approved c)" "ev_bins res = map (make_bin c) [0..<Bins]"
    "ev_ece res = (if exs = [] then 0 else tdiv (fold add_error (map (make_bin c) [0..<Bins]) 0) (int (length exs)))"
    using assms(1) unfolding Evaluate_def ss bind_err_def c_def t_def by (auto simp: Let_def pairs split: prod.splits)
  note ts = tally_spec [OF rd big, of t, folded c_def]
  have n: "co_rejected c = number Rejected exs" "co_approved c = number (\<lambda>ex. \<not> Rejected ex) exs"
    "co_caught c = number (\<lambda>ex. Rejected ex \<and> hit ex) exs" "co_extra c = number (\<lambda>ex. \<not> Rejected ex \<and> hit ex) exs"
    using ts by (simp_all add: xs_def number_map hit_def t_def)
  have small: "number P exs * MicroScale < 2 ^ 63" "number P exs + number Q exs \<le> int (length exs) \<Longrightarrow>
      (number P exs + number Q exs) * MicroScale < 2 ^ 63" for P Q
    using big number_le [of P exs] by (simp_all add: xs_def MicroScale_def)
  have split: "number (\<lambda>ex. Rejected ex \<and> hit ex) exs + number (\<lambda>ex. \<not> Rejected ex \<and> hit ex) exs \<le> int (length exs)"
    by (induction exs rule: rev_induct) auto
  have bins: "bn_count (make_bin c b) = number (\<lambda>x. bin_of (snd x) = b) xs" if "b < Bins" for b
    using make_bin_tally(1) [OF rd big that] by (simp add: c_def)
  have total: "sum_list (map bn_count (ev_bins res)) = int (length exs)"
  proof -
    have e: "map (bn_count \<circ> make_bin c) [0..<Bins] = map (\<lambda>b. number (\<lambda>x. bin_of (snd x) = b) xs) [0..<Bins]"
      by (rule map_cong) (use bins in auto)
    have "sum_list (map (\<lambda>b. number (\<lambda>x. bin_of (snd x) = b) xs) [0..<Bins]) = int (length exs)"
      using counts_sum [OF rd] by (simp add: xs_def)
    then show ?thesis unfolding res(8) map_map e .
  qed
  have each: "bn_count x > 0 \<longrightarrow> bn_lower x \<le> bn_mean x \<and> bn_mean x \<le> bn_upper x \<and> 0 \<le> bn_observed x \<and> bn_observed x \<le> MicroScale
      \<and> \<bar>bn_mean x - bn_observed x\<bar> \<le> MicroScale" "0 \<le> bn_count x" if x: "x \<in> set (ev_bins res)" for x
  proof -
    obtain b where b: "b < Bins" "x = make_bin c b" using x by (auto simp: res(8))
    show "0 \<le> bn_count x" using bins [OF b(1)] b(2) by simp
    have "int b \<le> 9" using b(1) by (simp add: Bins_def)
    then have "0 \<le> bn_lower x" "bn_upper x \<le> MicroScale" using make_bin_tally(2,3) [OF rd big b(1), of t] b(2)
      by (simp_all add: c_def MicroScale_def)
    then show "bn_count x > 0 \<longrightarrow> bn_lower x \<le> bn_mean x \<and> bn_mean x \<le> bn_upper x \<and> 0 \<le> bn_observed x \<and> bn_observed x \<le> MicroScale
      \<and> \<bar>bn_mean x - bn_observed x\<bar> \<le> MicroScale"
      using make_bin_tally(4) [OF rd big b(1), of t] unfolding c_def [symmetric] b(2) [symmetric] by auto
  qed
  have "0 \<le> fold add_error (ev_bins res) 0 \<and> fold add_error (ev_bins res) 0 \<le> 0 + sum_list (map bn_count (ev_bins res)) * MicroScale"
    by (rule add_error_sum) (use each total big in \<open>auto simp: xs_def\<close>)
  then have "0 \<le> ev_ece res \<and> ev_ece res \<le> MicroScale" unfolding total res(9) res(8) [symmetric]
    using zdiv_mono1 [of "fold add_error (ev_bins res) 0" "int (length exs) * MicroScale" "int (length exs)"]
    by (auto simp: tdiv_nonneg pos_imp_zdiv_nonneg_iff MicroScale_def)
  moreover have "0 \<le> ev_recall res \<and> ev_recall res \<le> MicroScale" "ev_recall res = ev_caught res * MicroScale div ev_rejected res"
    using ratio_range [OF _ _ small(1), of "number (\<lambda>ex. Rejected ex \<and> hit ex) exs" Rejected] number_mono [of "\<lambda>ex. Rejected ex \<and> hit ex" Rejected]
    by (simp_all add: res n)
  moreover have "0 \<le> ev_precision res \<and> ev_precision res \<le> MicroScale"
      "ev_precision res = ev_caught res * MicroScale div (ev_caught res + ev_extra res)"
    using ratio_range [OF number_nonneg add_increasing2 [OF number_nonneg order_refl] small(2) [OF split]] by (simp_all add: res n)
  moreover have "0 \<le> ev_extra_rate res \<and> ev_extra_rate res \<le> MicroScale"
      "ev_extra_rate res = ev_extra res * MicroScale div ev_approved res"
    using ratio_range [OF _ _ small(1), of "number (\<lambda>ex. \<not> Rejected ex \<and> hit ex) exs" "\<lambda>ex. \<not> Rejected ex"]
      number_mono [of "\<lambda>ex. \<not> Rejected ex \<and> hit ex" "\<lambda>ex. \<not> Rejected ex"] by (simp_all add: res n)
  moreover have "length (ev_bins res) = 10" by (simp add: res(8) Bins_def)
  moreover have "\<forall>x\<in>set (ev_bins res). bn_count x > 0 \<longrightarrow> bn_lower x \<le> bn_mean x \<and> bn_mean x \<le> bn_upper x
      \<and> 0 \<le> bn_observed x \<and> bn_observed x \<le> MicroScale" using each(1) by blast
  ultimately show ?thesis using total by (simp only: res(1-4) n) simp
qed

section \<open>The commands\<close>

text \<open>A missing approvals file is None. The trust file is None when no path is given.\<close>

definition ReadDir :: "export_source \<Rightarrow> string err option \<Rightarrow> (export \<times> string) err" where
  "ReadDir src approvals =
     bind_err (ReadExport src) (\<lambda>e. case approvals of
       None \<Rightarrow> Inl ''dataset: approvals.jsonl missing''
     | Some (Inl err) \<Rightarrow> Inl err
     | Some (Inr data) \<Rightarrow> Inr (e, data))"

definition load_trust :: "'b export_lib \<Rightarrow> string err option \<Rightarrow> trusted_key list err" where
  "load_trust xl trust = (case trust of None \<Rightarrow> Inr [] | Some file \<Rightarrow> bind_err file (xl_keys xl))"

definition errVerifyFailed :: string where "errVerifyFailed = ''receipt verification failed''"

text \<open>The result of a command: None is a pass, an error the exit status.\<close>

definition completenessVerdict :: "bool \<Rightarrow> bool \<Rightarrow> bool \<Rightarrow> string option" where
  "completenessVerdict prefixOK whole allowPrefix =
     (if \<not> prefixOK then Some errVerifyFailed
      else if whole then None
      else if allowPrefix then None
      else Some errVerifyFailed)"

definition receipts_verify :: "(string \<Rightarrow> bool) \<Rightarrow> 'b export_lib \<Rightarrow> string err option \<Rightarrow> export_source \<Rightarrow> bool \<Rightarrow> string option" where
  "receipts_verify is_manifest_error xl trust src allowPrefix =
     (case load_trust xl trust of Inl e \<Rightarrow> Some e
      | Inr trusted \<Rightarrow>
     (case ReadExport src of Inl e \<Rightarrow> Some e
      | Inr ex \<Rightarrow>
     (case VerifyExport xl ex trusted of
        Inl e \<Rightarrow> if is_manifest_error e then Some errVerifyFailed else Some e
      | Inr rpt \<Rightarrow> completenessVerdict (PrefixOK rpt) (Complete rpt) allowPrefix)))"

definition dataset_verify :: "(string \<Rightarrow> bool) \<Rightarrow> 'b export_lib \<Rightarrow> string err option \<Rightarrow> export_source \<Rightarrow> string err option
    \<Rightarrow> bool \<Rightarrow> bool \<Rightarrow> string option" where
  "dataset_verify is_manifest_error xl trust src approvals allowPrefix allowEmbedded =
     (if trust = None \<and> \<not> allowEmbedded then Some ''--trust-root is required''
      else case load_trust xl trust of Inl e \<Rightarrow> Some e
      | Inr trusted \<Rightarrow>
     (case ReadDir src approvals of Inl e \<Rightarrow> Some e
      | Inr (ex, data) \<Rightarrow>
     (case Verify xl ex data trusted of
        Inl e \<Rightarrow> if is_manifest_error e then Some errVerifyFailed else Some e
      | Inr (rpt, Some e) \<Rightarrow> if is_manifest_error e then Some errVerifyFailed else Some e
      | Inr (rpt, None) \<Rightarrow> completenessVerdict (dataset_PrefixOK rpt) (Complete (ds_receipts rpt)) allowPrefix)))"

datatype eval_path = NoPath string | PlainFile "string err" | Directory export_source "string err option"

definition unverified :: "string \<Rightarrow> (example list \<times> bool) err" where
  "unverified data = bind_err (ParseJSONL data) (\<lambda>exs. Inr (exs, False))"

definition loadEvalDataset :: "'b export_lib \<Rightarrow> eval_path \<Rightarrow> string err option \<Rightarrow> (example list \<times> bool) err" where
  "loadEvalDataset xl path trust = (case path of
       NoPath e \<Rightarrow> Inl e
     | PlainFile file \<Rightarrow> bind_err file unverified
     | Directory src approvals \<Rightarrow>
         (case ReadDir src approvals of
            Inl e \<Rightarrow> (case approvals of Some (Inr data) \<Rightarrow> unverified data | _ \<Rightarrow> Inl e)
          | Inr (ex, data) \<Rightarrow>
              bind_err (load_trust xl trust) (\<lambda>trusted.
              bind_err (ParseJSONL data) (\<lambda>exs.
              Inr (exs, trust \<noteq> None \<and> (case Verify xl ex data trusted of
                    Inr (rpt, None) \<Rightarrow> dataset_OK rpt | _ \<Rightarrow> False))))))"

definition zero_result :: eval_result where
  "zero_result = \<lparr>ev_model = '''', ev_version = '''', ev_artifact = '''', ev_threshold = 0, ev_rejected = 0, ev_approved = 0,
     ev_caught = 0, ev_extra = 0, ev_recall = 0, ev_precision = 0, ev_extra_rate = 0, ev_ece = 0, ev_bins = []\<rparr>"

definition zero_report :: eval_report where
  "zero_report = \<lparr>er_examples = 0, er_synthetic = 0, er_human = 0, er_verified = False, er_warnings = [], er_model = zero_result,
     er_baseline = None\<rparr>"

text \<open>The threshold is None when the flag is not given; the model is what loading the artifact returns.\<close>

definition decision_eval :: "'b export_lib \<Rightarrow> eval_path \<Rightarrow> string err option \<Rightarrow> int option \<Rightarrow> bool \<Rightarrow> bool \<Rightarrow> model err
    \<Rightarrow> eval_report err" where
  "decision_eval xl path trust threshold allowUnverified withBaseline loaded =
     (if (case threshold of None \<Rightarrow> False | Some t \<Rightarrow> t < 0 \<or> t > MicroScale)
      then Inl (''--threshold-micro must be 0 to '' @ itoa MicroScale)
      else bind_err (loadEvalDataset xl path trust) (\<lambda>(exs, verified).
        if \<not> verified \<and> \<not> allowUnverified
        then Inl ''dataset is not verified against signed receipts; rerun with --allow-unverified to evaluate anyway''
        else if exs = [] then Inl ''dataset has no examples''
        else bind_err loaded (\<lambda>m.
          let rpt = Counts exs verified zero_report in
          bind_err (Evaluate (learned_Score m) exs threshold) (\<lambda>r.
            if withBaseline
            then bind_err (Evaluate baseline_Score exs None) (\<lambda>b. Inr (rpt\<lparr>er_model := r, er_baseline := Some b\<rparr>))
            else Inr (rpt\<lparr>er_model := r\<rparr>)))))"

section \<open>What a pass of a command means\<close>

lemma parse_lines_read:
  "parse_lines n ls = Inr exs \<Longrightarrow> map (decode_first (decode_example True)) (filter (\<lambda>l. l \<noteq> []) (map trim_space ls)) = map Some exs"
  by (induction n ls arbitrary: exs rule: parse_lines.induct)
    (auto simp: Let_def bind_err_def split: if_splits option.splits sum.splits)

lemma ParseJSONL_read:
  "ParseJSONL s = Inr exs \<Longrightarrow> map (decode_first (decode_example True)) (record_lines s) = map Some exs"
  unfolding record_lines_def using parse_lines_read
  by (auto simp: ParseJSONL_def bind_err_def split: sum.splits if_splits)

lemma belongs_human:
  assumes "Verify xl ex data trusted = Inr (rpt, None)" "dataset_OK rpt" "ParseJSONL data = Inr exs"
  shows "\<exists>b. xl_read xl (xp_receipts ex) = Inr b \<and> distinct (map ex_seq exs)
    \<and> (\<forall>x\<in>set exs. \<exists>r\<in>set (xl_receipts xl b). \<exists>j rec. xl_binds xl r j = None
         \<and> Option.bind j (decode_record False) = Some rec \<and> belongs x r rec)"
proof -
  obtain b exs' where b: "xl_read xl (xp_receipts ex) = Inr b"
    "map (decode_first (decode_example True)) (record_lines data) = map Some exs'" "distinct (map ex_seq exs')"
    "\<forall>x\<in>set exs'. \<exists>r\<in>set (xl_receipts xl b). \<exists>j rec. xl_binds xl r j = None
         \<and> Option.bind j (decode_record False) = Some rec \<and> belongs x r rec"
    using dataset_examples_bound [OF assms(1,2)] by blast
  then have "map Some exs' = map Some exs" using ParseJSONL_read [OF assms(3)] by simp
  then have "exs' = exs" by (rule map_injective) (simp add: inj_def)
  then show ?thesis using b(1,3,4) by blast
qed

text \<open>A verified dataset comes from a directory, and was verified with the keys of the trust file; with keys in it, the chain
  holds under them.\<close>

lemma loaded_verified:
  assumes "loadEvalDataset xl path trust = Inr (exs, True)"
  obtains src data ex keys rpt tf where "path = Directory src (Some (Inr data))" "trust = Some (Inr tf)" "xl_keys xl tf = Inr keys"
    "ReadExport src = Inr ex" "ParseJSONL data = Inr exs" "Verify xl ex data keys = Inr (rpt, None)" "dataset_OK rpt"
proof (cases path)
  case (Directory src approvals)
  then obtain ex data where r: "ReadDir src approvals = Inr (ex, data)"
    using assms by (cases "ReadDir src approvals") (auto simp: loadEvalDataset_def unverified_def bind_err_def split: option.splits sum.splits)
  then have src: "ReadExport src = Inr ex" "approvals = Some (Inr data)"
    by (auto simp: ReadDir_def bind_err_def split: sum.splits option.splits)
  obtain trusted where t: "load_trust xl trust = Inr trusted" "ParseJSONL data = Inr exs" "trust \<noteq> None"
    "case Verify xl ex data trusted of Inr (rpt, None) \<Rightarrow> dataset_OK rpt | _ \<Rightarrow> False"
    using assms r Directory by (auto simp: loadEvalDataset_def bind_err_def split: sum.splits)
  obtain tf where tf: "trust = Some (Inr tf)" "xl_keys xl tf = Inr trusted"
    using t(1,3) by (auto simp: load_trust_def bind_err_def split: option.splits sum.splits)
  obtain rpt where "Verify xl ex data trusted = Inr (rpt, None)" "dataset_OK rpt"
    using t(4) by (auto split: sum.splits prod.splits option.splits)
  then show thesis using that Directory src t(2) tf by blast
qed (use assms in \<open>auto simp: loadEvalDataset_def unverified_def bind_err_def split: sum.splits\<close>)

lemma Verify_chain:
  assumes "Verify xl ex data keys = Inr (rpt, None)" "dataset_OK rpt" "keys \<noteq> []"
  shows "\<exists>b res. xl_read xl (xp_receipts ex) = Inr b \<and> xl_verify xl b keys = Inr res \<and> cr_ok res \<and> cr_complete res"
proof -
  have v: "VerifyExport xl ex keys = Inr (ds_receipts rpt)"
    using assms(1) by (auto simp: Verify_def bind_err_def Let_def split: sum.splits prod.splits if_splits)
  have ok: "cr_ok (rep_chain (ds_receipts rpt))" "cr_complete (rep_chain (ds_receipts rpt))"
    using assms(2) by (simp_all add: dataset_OK_def OK_def PrefixOK_def Complete_def)
  show ?thesis using VerifyExport_Inr [OF v] ok assms(3) by (auto simp: trusted_keys_def)
qed

text \<open>C34: What decision eval reports, when the trust file holds at least one key. When the command reports on a verified dataset,
  the dataset is a directory whose chain and examples verify completely with the keys of the trust file; the reported numbers are
  those of the artifact on exactly these examples, each of which belongs to a distinct receipt and a human record that binds to it.
  Without --allow-unverified it reports on nothing else.\<close>

theorem decision_eval_verified:
  assumes "decision_eval xl path trust threshold allowUnverified withBaseline loaded = Inr rpt"
    "er_verified rpt \<or> \<not> allowUnverified" "\<And>tf. trust = Some (Inr tf) \<Longrightarrow> xl_keys xl tf \<noteq> Inr []"
  shows "\<exists>src data ex keys tf m exs b res chain. path = Directory src (Some (Inr data)) \<and> trust = Some (Inr tf)
    \<and> xl_keys xl tf = Inr keys \<and> keys \<noteq> [] \<and> ReadExport src = Inr ex \<and> Verify xl ex data keys = Inr (res, None) \<and> dataset_OK res
    \<and> xl_read xl (xp_receipts ex) = Inr b \<and> xl_verify xl b keys = Inr chain \<and> cr_ok chain \<and> cr_complete chain
    \<and> loaded = Inr m \<and> Evaluate (learned_Score m) exs threshold = Inr (er_model rpt) \<and> er_examples rpt = int (length exs)
    \<and> exs \<noteq> [] \<and> map (decode_first (decode_example True)) (record_lines data) = map Some exs \<and> distinct (map ex_seq exs)
    \<and> (\<forall>x\<in>set exs. \<exists>r\<in>set (xl_receipts xl b). \<exists>j rec. xl_binds xl r j = None
         \<and> Option.bind j (decode_record False) = Some rec \<and> belongs x r rec)"
proof -
  obtain exs v m where run: "loadEvalDataset xl path trust = Inr (exs, v)" "v \<or> allowUnverified" "exs \<noteq> []" "loaded = Inr m"
    "Evaluate (learned_Score m) exs threshold = Inr (er_model rpt)" "er_verified rpt = v" "er_examples rpt = int (length exs)"
    using assms(1)
    by (auto simp: decision_eval_def bind_err_def Counts_def Let_def split: if_splits sum.splits prod.splits)
  then have load: "loadEvalDataset xl path trust = Inr (exs, True)" using assms(2) by auto
  obtain src data ex keys res tf where l: "path = Directory src (Some (Inr data))" "trust = Some (Inr tf)" "xl_keys xl tf = Inr keys"
    "ReadExport src = Inr ex" "ParseJSONL data = Inr exs" "Verify xl ex data keys = Inr (res, None)" "dataset_OK res"
    by (rule loaded_verified [OF load])
  have keys: "keys \<noteq> []" using assms(3) [OF l(2)] l(3) by simp
  obtain b where b: "xl_read xl (xp_receipts ex) = Inr b" "distinct (map ex_seq exs)"
    "\<forall>x\<in>set exs. \<exists>r\<in>set (xl_receipts xl b). \<exists>j rec. xl_binds xl r j = None
         \<and> Option.bind j (decode_record False) = Some rec \<and> belongs x r rec"
    using belongs_human [OF l(6,7,5)] by blast
  obtain chain where "xl_verify xl b keys = Inr chain" "cr_ok chain" "cr_complete chain"
    using Verify_chain [OF l(6,7) keys] b(1) by auto
  then show ?thesis using run(3-5,7) l b keys ParseJSONL_read [OF l(5)] by blast
qed

text \<open>What dataset verify passes. A pass means that the export and the examples verify under the keys of the trust file, or
  that the embedded keys were explicitly allowed; without --allow-prefix the whole dataset is OK, so its completeness is
  proven.\<close>

lemma dataset_verify_pass:
  assumes "dataset_verify is_manifest_error xl trust src approvals allowPrefix allowEmbedded = None"
  shows "\<exists>ex data keys rpt. ReadExport src = Inr ex \<and> approvals = Some (Inr data) \<and> load_trust xl trust = Inr keys
    \<and> Verify xl ex data keys = Inr (rpt, None) \<and> dataset_PrefixOK rpt
    \<and> (trust = None \<longrightarrow> allowEmbedded) \<and> (\<not> allowPrefix \<longrightarrow> dataset_OK rpt)"
proof -
  obtain keys where k: "load_trust xl trust = Inr keys" "trust = None \<longrightarrow> allowEmbedded"
    using assms by (auto simp: dataset_verify_def split: if_splits sum.splits)
  obtain ex data where r: "ReadDir src approvals = Inr (ex, data)"
    using assms k by (auto simp: dataset_verify_def split: if_splits sum.splits prod.splits)
  obtain rpt where v: "Verify xl ex data keys = Inr (rpt, None)"
    "completenessVerdict (dataset_PrefixOK rpt) (Complete (ds_receipts rpt)) allowPrefix = None"
    using assms k r by (auto simp: dataset_verify_def split: if_splits sum.splits prod.splits option.splits)
  have src: "ReadExport src = Inr ex" "approvals = Some (Inr data)"
    using r by (auto simp: ReadDir_def bind_err_def split: sum.splits option.splits)
  have p: "dataset_PrefixOK rpt" "\<not> allowPrefix \<longrightarrow> Complete (ds_receipts rpt)"
    using v(2) by (auto simp: completenessVerdict_def split: if_splits)
  then have "\<not> allowPrefix \<longrightarrow> dataset_OK rpt" by (simp add: dataset_OK_def dataset_PrefixOK_def OK_def)
  then show ?thesis using k src v(1) p(1) by blast
qed

lemma Evaluate_total:
  assumes "\<And>fi. \<exists>s. sc (ExtractFeatures fi) = Inr s"
  shows "\<exists>res. Evaluate sc exs t = Inr res"
proof -
  have "\<exists>ss. score_all sc exs = Inr ss"
  proof (induction exs)
    case (Cons ex exs)
    obtain s where "sc (ExtractFeatures (FeatureInput ex)) = Inr s" using assms by blast
    then show ?case using Cons.IH by (auto simp: bind_err_def)
  qed simp
  then show ?thesis by (auto simp: Evaluate_def bind_err_def Let_def split: prod.splits)
qed

lemma Evaluate_counts_witness:
  "\<exists>res. Evaluate baseline_Score [Dataset.wit_example, Dataset.wit_example\<lparr>ex_label := ''reject''\<rparr>] (Some 0) = Inr res
     \<and> ev_rejected res = 1 \<and> ev_caught res = 1 \<and> ev_recall res = MicroScale \<and> sum_list (map bn_count (ev_bins res)) = 2"
proof -
  let ?exs = "[Dataset.wit_example, Dataset.wit_example\<lparr>ex_label := ''reject''\<rparr>]"
  have "\<exists>s. baseline_Score (ExtractFeatures fi) = Inr s" for fi by (simp add: baseline_Score_def Let_def)
  then obtain res where r: "Evaluate baseline_Score ?exs (Some 0) = Inr res" using Evaluate_total by blast
  have t: "ev_threshold res = 0"
    using r by (auto simp: Evaluate_def bind_err_def Let_def split: sum.splits prod.splits list.splits)
  have h: "0 \<le> risk_of baseline_Score ex" for ex using risk_of_ok [of baseline_Score ex] by (simp add: risk_ok_def)
  have l: "Rejected (Dataset.wit_example\<lparr>ex_label := ''reject''\<rparr>)" "\<not> Rejected Dataset.wit_example"
    by (simp_all add: Rejected_def Dataset.wit_example_def)
  show ?thesis using Evaluate_counts [OF r] r t h l by (simp add: number_def MicroScale_def)
qed

text \<open>The one example of the dataset, verified with a trust file of one key.\<close>

definition eval_xl :: "(bool \<times> receipt list) export_lib" where
  "eval_xl = data_xl\<lparr>xl_keys := \<lambda>t. Inr [\<lparr>ky_kid = ''k'', ky_public = ''p'', ky_from = 0, ky_until = None\<rparr>]\<rparr>"

definition eval_source :: export_source where
  "eval_source = ExportDir (Inr []) (Inr (xp_records data_export)) (Inr [])"

definition eval_data :: string where "eval_data = ex_line Dataset.wit_example @ [lf]"

lemma eval_read: "ReadExport eval_source = Inr (data_export\<lparr>xp_format := ExportFormat\<rparr>)"
  by (simp add: ReadExport_def eval_source_def bind_err_def data_export_def)

lemma eval_verify:
  "\<exists>rpt. Verify eval_xl (data_export\<lparr>xp_format := ExportFormat\<rparr>) eval_data
     [\<lparr>ky_kid = ''k'', ky_public = ''p'', ky_from = 0, ky_until = None\<rparr>] = Inr (rpt, None) \<and> dataset_OK rpt"
proof -
  have same: "xl_read eval_xl = xl_read data_xl" "xl_manifest eval_xl = xl_manifest data_xl" "xl_receipts eval_xl = xl_receipts data_xl"
    "xl_binds eval_xl = xl_binds data_xl" "xl_verify eval_xl = xl_verify data_xl" by (simp_all add: eval_xl_def)
  have any: "xl_verify data_xl b ks = xl_verify data_xl b []" for b ks by (simp add: data_xl_def wit_xl_def)
  have "trim_space [] = []" by code_simp
  then have trust: "trim_space (xp_trust data_export) = []" by (simp add: data_export_def)
  have "VerifyExport eval_xl (data_export\<lparr>xp_format := ExportFormat\<rparr>) [\<lparr>ky_kid = ''k'', ky_public = ''p'', ky_from = 0, ky_until = None\<rparr>]
    = VerifyExport data_xl data_export []"
    using any [of _ "[\<lparr>ky_kid = ''k'', ky_public = ''p'', ky_from = 0, ky_until = None\<rparr>]"]
    unfolding VerifyExport_def trusted_keys_def same by (simp add: trust bind_err_def)
  then have "Verify eval_xl (data_export\<lparr>xp_format := ExportFormat\<rparr>) eval_data [\<lparr>ky_kid = ''k'', ky_public = ''p'', ky_from = 0, ky_until = None\<rparr>]
    = Verify data_xl data_export eval_data []"
    unfolding Verify_def same by simp
  then show ?thesis using wit_data_verify by (simp add: eval_data_def)
qed

lemma eval_parse: "ParseJSONL eval_data = Inr [Dataset.wit_example]"
proof -
  have "ex_label Dataset.wit_example = ''approve''" by (simp add: Dataset.wit_example_def)
  then have "parse_lines 1 [ex_line Dataset.wit_example] = Inr [Dataset.wit_example]"
    using wit_example_read by (simp add: bind_err_def)
  then show ?thesis using wit_data_scan(2) by (simp add: ParseJSONL_def bind_err_def eval_data_def)
qed

lemma eval_loads:
  "loadEvalDataset eval_xl (Directory eval_source (Some (Inr eval_data))) (Some (Inr ''trust'')) = Inr ([Dataset.wit_example], True)"
  using eval_verify eval_read eval_parse
  by (auto simp: loadEvalDataset_def ReadDir_def bind_err_def load_trust_def eval_xl_def)

lemma decision_eval_verified_witness:
  "\<exists>rpt exs. decision_eval eval_xl (Directory eval_source (Some (Inr eval_data))) (Some (Inr ''trust'')) None False False (Inr wit_model)
      = Inr rpt \<and> er_examples rpt = int (length exs) \<and> exs \<noteq> []
    \<and> Evaluate (learned_Score wit_model) exs None = Inr (er_model rpt)"
proof -
  have "\<exists>s. learned_Score wit_model (ExtractFeatures fi) = Inr s" for fi
    using learned_total [OF wit_model_parse, of fi] by (auto simp: ScoreClaimSafe_def split: sum.splits)
  then obtain res where e: "Evaluate (learned_Score wit_model) [Dataset.wit_example] None = Inr res" using Evaluate_total by blast
  then obtain rpt where run: "decision_eval eval_xl (Directory eval_source (Some (Inr eval_data))) (Some (Inr ''trust'')) None False False
      (Inr wit_model) = Inr rpt"
    using eval_loads by (simp add: decision_eval_def bind_err_def Let_def)
  have keys: "xl_keys eval_xl tf \<noteq> Inr []" for tf by (simp add: eval_xl_def)
  from decision_eval_verified [OF run _ keys] show ?thesis using run by auto
qed

lemma dataset_verify_pass_witness:
  "\<exists>rpt. dataset_verify (\<lambda>e. False) eval_xl (Some (Inr ''trust'')) eval_source (Some (Inr eval_data)) False False = None
     \<and> dataset_OK (rpt :: dataset_report)"
proof -
  have v: "dataset_verify (\<lambda>e. False) eval_xl (Some (Inr ''trust'')) eval_source (Some (Inr eval_data)) False False = None"
    using eval_verify eval_read
    by (auto simp: dataset_verify_def ReadDir_def bind_err_def load_trust_def eval_xl_def completenessVerdict_def dataset_OK_def
        dataset_PrefixOK_def OK_def)
  from dataset_verify_pass [OF v] show ?thesis using v by auto
qed

end
