(* ===== verification/FinOps.thy ===== *)
theory FinOps
  imports GoFloat
begin

text \<open>
  Cost reporting: pkg/finops. The reporter in memory with its prices, usage, budgets and the operations it has recorded, the
  reporter that does nothing, and the interface both implement. Numbers are int64 and float64; the gauges of the metrics are left
  out except that a counter panics on a negative number.
\<close>

record pricing =
  pc_input :: f64
  pc_output :: f64

definition price :: "rat \<Rightarrow> rat \<Rightarrow> pricing" where
  "price a b = \<lparr>pc_input = fround a, pc_output = fround b\<rparr>"

definition defaultPricing :: "(string \<times> pricing) list" where
  "defaultPricing =
     [(''openai/gpt-4o-mini'', price 0.00015 0.0006), (''openai/gpt-4o'', price 0.005 0.015), (''openai/gpt-4-turbo'', price 0.01 0.03),
      (''litellm/clawdlinux-openai'', price 0.00015 0.0006), (''anthropic/claude-sonnet'', price 0.003 0.015),
      (''anthropic/claude-haiku'', price 0.00025 0.00125), (''litellm/clawdlinux-anthropic'', price 0.001 0.005),
      (''ollama/gemma3:1b'', price 0 0), (''ollama/llama3.1:8b'', price 0 0), (''azure/gpt-4o-mini'', price 0.00015 0.0006),
      (''azure/gpt-4o'', price 0.005 0.015), (''default'', price 0.001 0.003)]"

record workload_usage =
  wu_prompt :: int
  wu_completion :: int
  wu_cost :: f64
  wu_by_model :: "string \<Rightarrow> f64"
  wu_requests :: int
  wu_last :: "int option"

record memory_reporter =
  mr_usage :: "string \<rightharpoonup> workload_usage"
  mr_recorded :: "string set"
  mr_pricing :: "string \<rightharpoonup> pricing"
  mr_budget :: "string \<rightharpoonup> f64"

definition NewMemoryCostReporter :: memory_reporter where
  "NewMemoryCostReporter = \<lparr>mr_usage = Map.empty, mr_recorded = {}, mr_pricing = map_of defaultPricing, mr_budget = Map.empty\<rparr>"

definition usage_key :: "string \<Rightarrow> string \<Rightarrow> string" where
  "usage_key name ns = ns @ ''/'' @ name"

text \<open>The absent entries of a Go map of floats read as zero.\<close>

definition new_usage :: workload_usage where
  "new_usage = \<lparr>wu_prompt = 0, wu_completion = 0, wu_cost = Fin 0, wu_by_model = (\<lambda>m. Fin 0), wu_requests = 0, wu_last = None\<rparr>"

definition getOrCreateUsage :: "memory_reporter \<Rightarrow> string \<Rightarrow> workload_usage" where
  "getOrCreateUsage r k = (case mr_usage r k of Some u \<Rightarrow> u | None \<Rightarrow> new_usage)"

definition zero_pricing :: pricing where "zero_pricing = \<lparr>pc_input = Fin 0, pc_output = Fin 0\<rparr>"

definition price_of :: "memory_reporter \<Rightarrow> string \<Rightarrow> pricing" where
  "price_of r model = (case mr_pricing r model of Some p \<Rightarrow> p
     | None \<Rightarrow> (case mr_pricing r ''default'' of Some p \<Rightarrow> p | None \<Rightarrow> zero_pricing))"

definition estimateCost :: "memory_reporter \<Rightarrow> string \<Rightarrow> int \<Rightarrow> int \<Rightarrow> f64" where
  "estimateCost r model prompt completion = (let p = price_of r model in
     fadd (fmul (fdiv (f_of_int prompt) (Fin 1000)) (pc_input p)) (fmul (fdiv (f_of_int completion) (Fin 1000)) (pc_output p)))"

text \<open>A call with its time.\<close>

record usage_call =
  uc_op :: string
  uc_name :: string
  uc_ns :: string
  uc_model :: string
  uc_prompt :: int
  uc_completion :: int
  uc_now :: int

definition add_usage :: "f64 \<Rightarrow> usage_call \<Rightarrow> workload_usage \<Rightarrow> workload_usage" where
  "add_usage cost c u =
     u\<lparr>wu_prompt := wrap64 (wu_prompt u + uc_prompt c), wu_completion := wrap64 (wu_completion u + uc_completion c),
       wu_cost := fadd (wu_cost u) cost, wu_by_model := (wu_by_model u)(uc_model c := fadd (wu_by_model u (uc_model c)) cost),
       wu_requests := wrap64 (wu_requests u + 1), wu_last := Some (uc_now c)\<rparr>"

definition mark :: "usage_call \<Rightarrow> memory_reporter \<Rightarrow> memory_reporter" where
  "mark c r = (if uc_op c = '''' then r else r\<lparr>mr_recorded := insert (uc_op c) (mr_recorded r)\<rparr>)"

definition RecordUsage :: "usage_call \<Rightarrow> memory_reporter \<Rightarrow> memory_reporter" where
  "RecordUsage c r =
     (if uc_op c \<noteq> '''' \<and> uc_op c \<in> mr_recorded r then r
      else let r1 = mark c r; k = usage_key (uc_name c) (uc_ns c)
           in r1\<lparr>mr_usage := (mr_usage r1)(k \<mapsto>
                add_usage (estimateCost r1 (uc_model c) (uc_prompt c) (uc_completion c)) c (getOrCreateUsage r1 k))\<rparr>)"

text \<open>The counter of the tokens refuses a negative number with a panic, after the usage was changed.\<close>

definition RecordUsage_panics :: "usage_call \<Rightarrow> memory_reporter \<Rightarrow> bool" where
  "RecordUsage_panics c r \<longleftrightarrow> \<not> (uc_op c \<noteq> '''' \<and> uc_op c \<in> mr_recorded r) \<and> (uc_prompt c < 0 \<or> uc_completion c < 0)"

definition CheckBudget :: "memory_reporter \<Rightarrow> string \<Rightarrow> string \<Rightarrow> string option" where
  "CheckBudget r name ns =
     (case mr_budget r (usage_key name ns) of None \<Rightarrow> None
      | Some budget \<Rightarrow>
     (case mr_usage r (usage_key name ns) of None \<Rightarrow> None
      | Some u \<Rightarrow>
          if fle budget (wu_cost u)
          then Some (''workload '' @ ns @ ''/'' @ name @ '' exceeded budget: $'' @ fmt_fixed 4 (wu_cost u) @ '' >= $'' @ fmt_fixed 4 budget)
          else None))"

definition WorkloadCostToday :: "memory_reporter \<Rightarrow> string \<Rightarrow> string \<Rightarrow> f64" where
  "WorkloadCostToday r name ns = (case mr_usage r (usage_key name ns) of None \<Rightarrow> Fin 0 | Some u \<Rightarrow> wu_cost u)"

definition SetBudget :: "memory_reporter \<Rightarrow> string \<Rightarrow> string \<Rightarrow> f64 \<Rightarrow> memory_reporter" where
  "SetBudget r name ns budget = r\<lparr>mr_budget := (mr_budget r)(usage_key name ns \<mapsto> budget)\<rparr>"

definition GetUsage :: "memory_reporter \<Rightarrow> string \<Rightarrow> string \<Rightarrow> workload_usage option" where
  "GetUsage r name ns = mr_usage r (usage_key name ns)"

section \<open>The reporter that does nothing\<close>

definition noop_RecordUsage :: "usage_call \<Rightarrow> unit \<Rightarrow> unit" where "noop_RecordUsage c r = ()"
definition noop_CheckBudget :: "unit \<Rightarrow> string \<Rightarrow> string \<Rightarrow> string option" where "noop_CheckBudget r name ns = None"
definition noop_WorkloadCostToday :: "unit \<Rightarrow> string \<Rightarrow> string \<Rightarrow> f64" where "noop_WorkloadCostToday r name ns = Fin 0"

section \<open>The interface\<close>

text \<open>Once an operation is known, a call under it changes nothing; recording makes it known and forgets none.\<close>

locale cost_reporter =
  fixes record_usage :: "usage_call \<Rightarrow> 's \<Rightarrow> 's"
    and known :: "string \<Rightarrow> 's \<Rightarrow> bool"
  assumes replay: "known (uc_op c) s \<Longrightarrow> record_usage c s = s"
    and learns: "uc_op c \<noteq> [] \<Longrightarrow> known (uc_op c) (record_usage c s)"
    and keeps: "known op s \<Longrightarrow> known op (record_usage c s)"
begin

definition after_calls :: "usage_call list \<Rightarrow> 's \<Rightarrow> 's" where
  "after_calls cs s = fold record_usage cs s"

lemma known_after: "known op s \<Longrightarrow> known op (after_calls cs s)"
  unfolding after_calls_def by (induction cs arbitrary: s) (simp_all add: keeps)

lemma drop_known: "known op s \<Longrightarrow> after_calls cs s = after_calls (filter (\<lambda>c. uc_op c \<noteq> op) cs) s"
  unfolding after_calls_def by (induction cs arbitrary: s) (auto simp: keeps replay)

lemma drop_replays:
  assumes "uc_op c \<noteq> []"
  shows "after_calls (cs @ c # ds) s = after_calls (cs @ c # filter (\<lambda>d. uc_op d \<noteq> uc_op c) ds) s"
proof -
  have "known (uc_op c) (record_usage c (fold record_usage cs s))" by (rule learns [OF assms])
  from drop_known [OF this, of ds] show ?thesis by (simp add: after_calls_def)
qed

end

lemma recorded_RecordUsage: "mr_recorded (RecordUsage c r) = mr_recorded r \<union> (if uc_op c = [] then {} else {uc_op c})"
  by (auto simp: RecordUsage_def mark_def Let_def)

interpretation memory: cost_reporter RecordUsage "\<lambda>op r. op \<noteq> [] \<and> op \<in> mr_recorded r"
  by unfold_locales (auto simp: RecordUsage_def mark_def Let_def)

interpretation noop: cost_reporter noop_RecordUsage "\<lambda>op r. True"
  by unfold_locales simp_all

section \<open>What the costs are\<close>

text \<open>The calls that count: all without an operation, and the first of each operation.\<close>

fun counted :: "string set \<Rightarrow> usage_call list \<Rightarrow> usage_call list" where
  "counted seen [] = []"
| "counted seen (c # cs) =
     (if uc_op c \<noteq> [] \<and> uc_op c \<in> seen then counted seen cs else c # counted (insert (uc_op c) seen) cs)"

lemma counted_nil: "counted (insert [] seen) cs = counted seen cs"
  by (induction cs arbitrary: seen) (auto simp: insert_commute)

definition of_workload :: "string \<Rightarrow> string \<Rightarrow> usage_call \<Rightarrow> bool" where
  "of_workload name ns c \<longleftrightarrow> usage_key (uc_name c) (uc_ns c) = usage_key name ns"

definition call_cost :: "usage_call \<Rightarrow> f64" where
  "call_cost c = estimateCost NewMemoryCostReporter (uc_model c) (uc_prompt c) (uc_completion c)"

definition usage_of :: "usage_call list \<Rightarrow> workload_usage" where
  "usage_of cs = fold (\<lambda>c. add_usage (call_cost c) c) cs new_usage"

lemma estimateCost_pricing:
  assumes "mr_pricing r = mr_pricing s"
  shows "estimateCost r m p c = estimateCost s m p c"
  unfolding estimateCost_def price_of_def assms ..

lemma mark_parts [simp]: "mr_pricing (mark c r) = mr_pricing r" "mr_usage (mark c r) = mr_usage r" "mr_budget (mark c r) = mr_budget r"
  by (simp_all add: mark_def)

lemma RecordUsage_pricing [simp]: "mr_pricing (RecordUsage c r) = mr_pricing r" "mr_budget (RecordUsage c r) = mr_budget r"
  by (simp_all add: RecordUsage_def Let_def)

lemma RecordUsage_usage:
  assumes "\<not> (uc_op c \<noteq> [] \<and> uc_op c \<in> mr_recorded r)" "mr_pricing r = mr_pricing NewMemoryCostReporter"
  shows "mr_usage (RecordUsage c r) = (mr_usage r)(usage_key (uc_name c) (uc_ns c) \<mapsto>
      add_usage (call_cost c) c (getOrCreateUsage r (usage_key (uc_name c) (uc_ns c))))"
proof -
  have "estimateCost (mark c r) (uc_model c) (uc_prompt c) (uc_completion c) = call_cost c"
    unfolding call_cost_def using assms(2) by (intro estimateCost_pricing) simp
  then show ?thesis using assms(1) by (auto simp: RecordUsage_def Let_def getOrCreateUsage_def)
qed

text \<open>The usage of a workload is that of the counted calls for it; what was there before is the start.\<close>

lemma fold_calls:
  assumes "mr_pricing r = mr_pricing NewMemoryCostReporter"
  shows "getOrCreateUsage (fold RecordUsage cs r) k
      = fold (\<lambda>c. add_usage (call_cost c) c) (filter (\<lambda>c. usage_key (uc_name c) (uc_ns c) = k) (counted (mr_recorded r) cs))
          (getOrCreateUsage r k)
    \<and> (mr_usage (fold RecordUsage cs r) k = None \<longleftrightarrow>
        mr_usage r k = None \<and> filter (\<lambda>c. usage_key (uc_name c) (uc_ns c) = k) (counted (mr_recorded r) cs) = [])"
  using assms
proof (induction cs arbitrary: r)
  case (Cons c cs)
  have ih: "mr_pricing (RecordUsage c r) = mr_pricing NewMemoryCostReporter" using Cons.prems by simp
  show ?case
  proof (cases "uc_op c \<noteq> [] \<and> uc_op c \<in> mr_recorded r")
    case True
    then have "RecordUsage c r = r" by (rule memory.replay)
    then show ?thesis using True Cons.IH [OF Cons.prems] by simp
  next
    case False
    note u = RecordUsage_usage [OF False Cons.prems]
    have seen: "counted (mr_recorded (RecordUsage c r)) cs = counted (insert (uc_op c) (mr_recorded r)) cs"
      by (cases "uc_op c = []") (simp_all add: recorded_RecordUsage counted_nil)
    have e: "counted (mr_recorded r) (c # cs) = c # counted (insert (uc_op c) (mr_recorded r)) cs" using False by auto
    show ?thesis using Cons.IH [OF ih] u unfolding seen e by (simp add: getOrCreateUsage_def)
  qed
qed simp

lemma usage_key_inject:
  assumes "CHR ''/'' \<notin> set ns" "CHR ''/'' \<notin> set ns'"
  shows "usage_key name ns = usage_key name' ns' \<longleftrightarrow> name = name' \<and> ns = ns'"
proof
  assume e: "usage_key name ns = usage_key name' ns'"
  have t: "takeWhile (\<lambda>c. c \<noteq> CHR ''/'') (a @ ''/'' @ b) = a" if "CHR ''/'' \<notin> set a" for a b
    using that by (induction a) auto
  have "ns = ns'" using t [OF assms(1), of name] t [OF assms(2), of name'] e unfolding usage_key_def by metis
  then show "name = name' \<and> ns = ns'" using e by (simp add: usage_key_def)
qed simp

lemma add_usage_cost:
  "wu_cost (fold (\<lambda>c. add_usage (call_cost c) c) cs u) = fold (\<lambda>c x. fadd x (call_cost c)) cs (wu_cost u)"
  by (induction cs arbitrary: u) (simp_all add: add_usage_def)

lemma add_usage_model:
  "wu_by_model (fold (\<lambda>c. add_usage (call_cost c) c) cs u) m
     = fold (\<lambda>c x. fadd x (call_cost c)) (filter (\<lambda>c. uc_model c = m) cs) (wu_by_model u m)"
  by (induction cs arbitrary: u) (simp_all add: add_usage_def)

lemma counted_set: "uc_op ` set (counted seen cs) - {[]} = uc_op ` set cs - seen - {[]}"
proof (induction cs arbitrary: seen)
  case (Cons c cs)
  show ?case
  proof (cases "uc_op c \<noteq> [] \<and> uc_op c \<in> seen")
    case True
    then show ?thesis using Cons.IH [of seen] by auto
  next
    case False
    let ?X = "counted (insert (uc_op c) seen) cs"
    have "counted seen (c # cs) = c # ?X" using False by auto
    moreover have "uc_op ` set (c # ?X) - {[]} = ({uc_op c} - {[]}) \<union> (uc_op ` set ?X - {[]})" by auto
    ultimately show ?thesis unfolding Cons.IH using False by auto
  qed
qed simp

lemma counted_distinct: "distinct (filter (\<lambda>op. op \<noteq> []) (map uc_op (counted seen cs)))"
proof (induction cs arbitrary: seen)
  case (Cons c cs)
  have "uc_op c \<notin> uc_op ` set (counted (insert (uc_op c) seen) cs)" if "uc_op c \<noteq> []"
    using counted_set [of "insert (uc_op c) seen" cs] that by blast
  then show ?case using Cons.IH by auto
qed simp

lemma counted_subset: "set (counted seen cs) \<subseteq> set cs"
  by (induction seen cs rule: counted.induct) auto

definition utc_day :: "int \<Rightarrow> int" where
  "utc_day t = t div (86400 * 10 ^ 9)"

text \<open>C35: What a workload costs. After any calls on a new reporter, with namespaces without a slash, the usage of a workload, in
  cost and in cost by model, is the rounded sum over its own calls since the reporter started, of each operation the first one only,
  whatever is replayed or recorded for others; the counted operations are exactly those seen, each once. If all calls of the
  workload were made on the UTC day of the query, WorkloadCostToday is the rounded sum over its calls of that day; nothing is
  claimed of it over several days, as no usage is ever reset. Without a budget the check passes; with one it fails exactly when a
  call was counted and the cost since the start has reached the budget.\<close>

theorem costs_counted:
  fixes name :: string
  assumes "CHR ''/'' \<notin> set ns" "\<forall>c\<in>set cs. CHR ''/'' \<notin> set (uc_ns c)"
  defines "r \<equiv> fold RecordUsage cs NewMemoryCostReporter"
    and "mine \<equiv> filter (\<lambda>c. uc_name c = name \<and> uc_ns c = ns) (counted {} cs)"
  shows "(GetUsage r name ns = None \<longleftrightarrow> mine = [])
    \<and> (\<forall>u. GetUsage r name ns = Some u \<longrightarrow> wu_cost u = fold (\<lambda>c x. fadd x (call_cost c)) mine (Fin 0)
         \<and> wu_by_model u m = fold (\<lambda>c x. fadd x (call_cost c)) (filter (\<lambda>c. uc_model c = m) mine) (Fin 0))
    \<and> distinct (filter (\<lambda>op. op \<noteq> []) (map uc_op (counted {} cs)))
    \<and> uc_op ` set (counted {} cs) - {[]} = uc_op ` set cs - {[]}
    \<and> ((\<forall>c\<in>set mine. utc_day (uc_now c) = utc_day now) \<longrightarrow> WorkloadCostToday r name ns
         = fold (\<lambda>c x. fadd x (call_cost c)) (filter (\<lambda>c. utc_day (uc_now c) = utc_day now) mine) (Fin 0))
    \<and> CheckBudget r name ns = None
    \<and> (CheckBudget (SetBudget r name ns b) name ns = None
         \<longleftrightarrow> mine = [] \<or> \<not> fle b (fold (\<lambda>c x. fadd x (call_cost c)) mine (Fin 0)))"
proof -
  let ?k = "usage_key name ns"
  have "mr_budget (fold RecordUsage cs x) = mr_budget x" for x by (induction cs arbitrary: x) simp_all
  then have nb: "mr_budget r = Map.empty" by (simp add: r_def NewMemoryCostReporter_def)
  have "(\<lambda>c. usage_key (uc_name c) (uc_ns c) = ?k) c \<longleftrightarrow> uc_name c = name \<and> uc_ns c = ns" if "c \<in> set (counted {} cs)" for c
  proof -
    have "CHR ''/'' \<notin> set (uc_ns c)" using assms(2) counted_subset [of "{}" cs] that by blast
    then show ?thesis using usage_key_inject [OF _ assms(1)] by simp
  qed
  then have mine: "filter (\<lambda>c. usage_key (uc_name c) (uc_ns c) = ?k) (counted {} cs) = mine"
    unfolding mine_def by (intro filter_cong) simp_all
  have empty: "mr_recorded NewMemoryCostReporter = {}" "mr_usage NewMemoryCostReporter = Map.empty"
    by (simp_all add: NewMemoryCostReporter_def)
  have u: "getOrCreateUsage r ?k = fold (\<lambda>c. add_usage (call_cost c) c) mine new_usage" "mr_usage r ?k = None \<longleftrightarrow> mine = []"
    using fold_calls [OF refl, of cs ?k] unfolding r_def empty mine by (simp_all add: getOrCreateUsage_def empty)
  have cost: "WorkloadCostToday r name ns = wu_cost (getOrCreateUsage r ?k)"
    by (simp add: WorkloadCostToday_def getOrCreateUsage_def new_usage_def split: option.splits)
  have 1: "WorkloadCostToday r name ns = fold (\<lambda>c x. fadd x (call_cost c)) mine (Fin 0)"
    unfolding cost u(1) add_usage_cost by (simp add: new_usage_def)
  have day: "filter (\<lambda>c. utc_day (uc_now c) = utc_day now) mine = mine" if "\<forall>c\<in>set mine. utc_day (uc_now c) = utc_day now"
    using that by simp
  have none: "GetUsage r name ns = None \<longleftrightarrow> mine = []" using u(2) by (simp add: GetUsage_def)
  have 2: "wu_cost v = fold (\<lambda>c x. fadd x (call_cost c)) mine (Fin 0)
      \<and> wu_by_model v m = fold (\<lambda>c x. fadd x (call_cost c)) (filter (\<lambda>c. uc_model c = m) mine) (Fin 0)"
    if "GetUsage r name ns = Some v" for v
  proof -
    have "v = getOrCreateUsage r ?k" using that by (simp add: GetUsage_def getOrCreateUsage_def)
    then show ?thesis unfolding u(1) by (simp only: add_usage_model add_usage_cost) (simp add: new_usage_def)
  qed
  have 3: "CheckBudget (SetBudget r name ns b) name ns = None \<longleftrightarrow> mine = [] \<or> \<not> fle b (WorkloadCostToday r name ns)"
    unfolding u(2) [symmetric] by (auto simp: CheckBudget_def SetBudget_def WorkloadCostToday_def split: option.splits)
  have 4: "CheckBudget r name ns = None" by (simp add: CheckBudget_def nb)
  show ?thesis using 1 2 3 [unfolded 1] 4 none day counted_set [of "{}" cs] counted_distinct [of "{}" cs] by simp
qed

text \<open>A replayed operation and the call of another workload.\<close>

definition wit_usage_call :: usage_call where
  "wit_usage_call = \<lparr>uc_op = ''op1'', uc_name = ''w'', uc_ns = ''a'', uc_model = ''ollama/gemma3:1b'', uc_prompt = 10, uc_completion = 5,
     uc_now = 1\<rparr>"

lemma costs_counted_witness:
  "WorkloadCostToday (fold RecordUsage [wit_usage_call, wit_usage_call\<lparr>uc_name := ''x'', uc_op := ''op2''\<rparr>, wit_usage_call] NewMemoryCostReporter)
     ''w'' ''a'' = fadd (Fin 0) (call_cost wit_usage_call)"
proof -
  let ?cs = "[wit_usage_call, wit_usage_call\<lparr>uc_name := ''x'', uc_op := ''op2''\<rparr>, wit_usage_call]"
  have ns: "CHR ''/'' \<notin> set ''a''" "\<forall>c\<in>set ?cs. CHR ''/'' \<notin> set (uc_ns c)" by (simp_all add: wit_usage_call_def)
  have "filter (\<lambda>c. uc_name c = ''w'' \<and> uc_ns c = ''a'') (counted {} ?cs) = [wit_usage_call]" by (simp add: wit_usage_call_def)
  then show ?thesis using costs_counted [OF ns, of "''w''" _ 5] by (simp add: wit_usage_call_def utc_day_def)
qed

end
