(* ===== verification/McpServer.thy ===== *)
theory McpServer
  imports GoValue
begin

text \<open>
  The tool server for agents: pkg/mcp/server.go with the client functions behind its tools (pkg/agentctl: cost.go, workloads.go and
  helpers.go) and the two transports of cmd/agentctl/mcp_serve.go. The API server, the cost service and the pods are a world of
  answers; a request returns its reply and the change it makes to the cluster. A Go map is an association list.
\<close>

section \<open>Values in maps\<close>

type_synonym fields = "(string \<times> gany) list"

fun NestedString :: "fields \<Rightarrow> string list \<Rightarrow> string option" where
  "NestedString m [] = None"
| "NestedString m [k] = (case map_of m k of Some (GStr s) \<Rightarrow> Some s | _ \<Rightarrow> None)"
| "NestedString m (k # ks) = (case map_of m k of Some (GMap c) \<Rightarrow> NestedString c ks | _ \<Rightarrow> None)"

definition or_empty :: "string option \<Rightarrow> string" where
  "or_empty x = (case x of None \<Rightarrow> '''' | Some s \<Rightarrow> s)"

definition StringFromMap :: "fields \<Rightarrow> string \<Rightarrow> string" where
  "StringFromMap m key = (case map_of m key of Some (GStr s) \<Rightarrow> s | _ \<Rightarrow> '''')"

definition NestedMapString :: "fields \<Rightarrow> string \<Rightarrow> string \<Rightarrow> string" where
  "NestedMapString m parent key = (case map_of m parent of Some (GMap c) \<Rightarrow> StringFromMap c key | _ \<Rightarrow> '''')"

definition SafeText :: "string \<Rightarrow> string \<Rightarrow> string" where
  "SafeText value fallback = (if trim_space value = '''' then fallback else value)"

fun FirstNonEmpty :: "string list \<Rightarrow> string" where
  "FirstNonEmpty [] = ''''"
| "FirstNonEmpty (v # vs) = (if trim_space v \<noteq> '''' then v else FirstNonEmpty vs)"

text \<open>The base is 10; the range is that of int64.\<close>

definition parse_int64 :: "string \<Rightarrow> int option" where
  "parse_int64 s =
     (let neg = has_prefix s ''-''; t = (if has_prefix s ''-'' \<or> has_prefix s ''+'' then tl s else s)
      in if t = '''' \<or> \<not> list_all is_digit t then None
         else let v = (if neg then - int (parse_nat_acc 0 t) else int (parse_nat_acc 0 t))
              in if in_int64 v then Some v else None)"

fun int_of_any :: "gany \<Rightarrow> int option" where
  "int_of_any (GInt i) = Some i"
| "int_of_any (GFloat f) = Some (f_to_int f)"
| "int_of_any (GNumber s) = parse_int64 s"
| "int_of_any (GStr s) = parse_int64 s"
| "int_of_any _ = None"

fun float_of_any :: "gany \<Rightarrow> f64 option" where
  "float_of_any (GFloat f) = Some f"
| "float_of_any (GInt i) = Some (f_of_int i)"
| "float_of_any (GNumber s) = parse_float s"
| "float_of_any (GStr s) = parse_float s"
| "float_of_any _ = None"

definition lookup_all :: "fields \<Rightarrow> string list \<Rightarrow> gany list" where
  "lookup_all m keys = map (\<lambda>k. case map_of m k of None \<Rightarrow> GNil | Some v \<Rightarrow> v) keys"

definition Int64FromAny :: "gany list \<Rightarrow> int" where
  "Int64FromAny vs = (case first_some int_of_any vs of None \<Rightarrow> 0 | Some i \<Rightarrow> i)"

definition Float64FromAny :: "gany list \<Rightarrow> f64" where
  "Float64FromAny vs = (case first_some float_of_any vs of None \<Rightarrow> Fin 0 | Some f \<Rightarrow> f)"

section \<open>The cost summary\<close>

record cost_row =
  cw_workload :: string
  cw_namespace :: string
  cw_model :: string
  cw_tokens :: int
  cw_today :: f64
  cw_mtd :: f64

definition namespaceMatch :: "string \<Rightarrow> string \<Rightarrow> bool" where
  "namespaceMatch record_ns target \<longleftrightarrow> trim_space target = '''' \<or> trim_space record_ns = '''' \<or> record_ns = target"

definition as_map_slice :: "gany \<Rightarrow> fields list" where
  "as_map_slice v = (case v of
       GList xs \<Rightarrow> concat (map (\<lambda>x. case x of GMap m \<Rightarrow> [m] | _ \<Rightarrow> []) xs)
     | _ \<Rightarrow> [])"

fun first_records :: "fields list list \<Rightarrow> fields list" where
  "first_records [] = []"
| "first_records (r # rs) = (if r \<noteq> [] then r else first_records rs)"

definition nested_records :: "gany option \<Rightarrow> fields list list" where
  "nested_records v = (case v of
       Some (GMap m) \<Rightarrow> map (\<lambda>k. case map_of m k of None \<Rightarrow> [] | Some x \<Rightarrow> as_map_slice x) [''records'', ''logs'']
     | Some x \<Rightarrow> [as_map_slice x]
     | None \<Rightarrow> [])"

definition extractRecords :: "gany \<Rightarrow> fields list" where
  "extractRecords payload = (case payload of
       GList xs \<Rightarrow> as_map_slice payload
     | GMap m \<Rightarrow> first_records (concat (map (\<lambda>k. nested_records (map_of m k)) [''data'', ''logs'', ''records'', ''result'']))
     | _ \<Rightarrow> [])"

definition record_workload :: "fields \<Rightarrow> string" where
  "record_workload m = FirstNonEmpty [StringFromMap m ''workload'', StringFromMap m ''agentworkload'',
     NestedMapString m ''metadata'' ''workload'', NestedMapString m ''metadata'' ''agentworkload'',
     NestedMapString m ''custom_metadata'' ''workload'', NestedMapString m ''custom_metadata'' ''agentworkload'',
     NestedMapString m ''request_tags'' ''workload'', NestedMapString m ''request_tags'' ''agentworkload'']"

definition record_namespace :: "fields \<Rightarrow> string" where
  "record_namespace m = FirstNonEmpty [StringFromMap m ''namespace'', NestedMapString m ''metadata'' ''namespace'',
     NestedMapString m ''custom_metadata'' ''namespace'']"

text \<open>The row a record adds.\<close>

definition record_row :: "fields \<Rightarrow> cost_row" where
  "record_row m =
     (let workload = record_workload m;
          tokens = Int64FromAny (lookup_all m [''tokens'', ''total_tokens'']);
          today = Float64FromAny (lookup_all m [''cost'', ''spend'', ''response_cost'']);
          mtd = Float64FromAny (lookup_all m [''cost_mtd'', ''spend_mtd'', ''month_to_date_cost''])
      in \<lparr>cw_workload = (if workload = '''' then ''unknown'' else workload), cw_namespace = record_namespace m,
          cw_model = FirstNonEmpty [StringFromMap m ''model'', NestedMapString m ''metadata'' ''model'', ''unknown''],
          cw_tokens = (if tokens = 0 then wrap64 (Int64FromAny (lookup_all m [''prompt_tokens'']) + Int64FromAny (lookup_all m [''completion_tokens'']))
             else tokens),
          cw_today = today, cw_mtd = (if feq mtd (Fin 0) then today else mtd)\<rparr>)"

definition row_key :: "cost_row \<Rightarrow> string" where
  "row_key r = cw_namespace r @ ''|'' @ cw_workload r @ ''|'' @ cw_model r"

definition add_row :: "cost_row \<Rightarrow> cost_row \<Rightarrow> cost_row" where
  "add_row old r = old\<lparr>cw_tokens := wrap64 (cw_tokens old + cw_tokens r), cw_today := fadd (cw_today old) (cw_today r),
     cw_mtd := fadd (cw_mtd old) (cw_mtd r)\<rparr>"

definition empty_row :: "cost_row \<Rightarrow> cost_row" where
  "empty_row r = r\<lparr>cw_tokens := 0, cw_today := Fin 0, cw_mtd := Fin 0\<rparr>"

fun aggregate :: "cost_row list \<Rightarrow> (string \<times> cost_row) list \<Rightarrow> (string \<times> cost_row) list" where
  "aggregate [] agg = agg"
| "aggregate (r # rs) agg =
     (let old = (case map_of agg (row_key r) of Some x \<Rightarrow> x | None \<Rightarrow> empty_row r)
      in aggregate rs (AList.update (row_key r) (add_row old r) agg))"

text \<open>Rows have distinct keys, so the order in which a Go map is read does not matter to the sort.\<close>

definition CostSummary :: "gany option \<Rightarrow> string \<Rightarrow> bool \<Rightarrow> cost_row list" where
  "CostSummary payload ns allNamespaces = (case payload of
       None \<Rightarrow> []
     | Some p \<Rightarrow>
         (let rows = map record_row (filter (\<lambda>m. allNamespaces \<or> namespaceMatch (record_namespace m) ns) (extractRecords p))
          in sort_key (\<lambda>r. [cw_namespace r, cw_workload r, cw_model r]) (map snd (aggregate rows []))))"

section \<open>The world behind the tools\<close>

record uobject =
  uo_name :: string
  uo_namespace :: string
  uo_uid :: string
  uo_version :: string
  uo_created :: "int option"
  uo_annotations :: "(string \<times> string) list"
  uo_object :: fields

record runtime_pod =
  rp_name :: string
  rp_namespace :: string
  rp_role :: string
  rp_created :: int

datatype create_answer = Created uobject | AlreadyExists string | CreateFailed string
datatype delete_answer = DeleteOk | DeleteNotFound | DeleteFailed string
datatype log_answer = Logs string | NoStream string | NoRead string

record mcp_world =
  mw_create :: "string \<Rightarrow> string \<Rightarrow> fields \<Rightarrow> create_answer"
  mw_get :: "string \<Rightarrow> string \<Rightarrow> uobject err"
  mw_delete :: "string \<Rightarrow> string \<Rightarrow> delete_answer"
  mw_list :: "string \<Rightarrow> string \<Rightarrow> uobject list err"
  mw_workflow :: "string \<Rightarrow> fields err"
  mw_pods :: "string \<Rightarrow> runtime_pod list err"
  mw_logs :: "string \<Rightarrow> string \<Rightarrow> int \<Rightarrow> log_answer"
  mw_probe :: "string \<Rightarrow> string option"
  mw_spend :: "string \<Rightarrow> gany option"
  mw_now :: int

definition ExtractModel :: "fields \<Rightarrow> string" where
  "ExtractModel m =
     (let spec = or_empty (NestedString m [''spec'', ''model'']); status = or_empty (NestedString m [''status'', ''model'']);
          sp = (case map_of m ''spec'' of Some (GMap c) \<Rightarrow> c | _ \<Rightarrow> []);
          provider = (case map_of sp ''providers'' of
              Some (GList (GMap p # _)) \<Rightarrow>
                (let name = StringFromMap p ''name''; kind = StringFromMap p ''type''
                 in if name \<noteq> '''' \<and> kind \<noteq> '''' then Some (name @ ''/'' @ kind) else if name \<noteq> '''' then Some name else None)
            | _ \<Rightarrow> None);
          mapping = (case map_of sp ''modelMapping'' of
              Some (GMap c) \<Rightarrow> if c \<noteq> [] \<and> list_all (\<lambda>(k, v). case v of GStr s \<Rightarrow> True | _ \<Rightarrow> False) c
                 then StringFromMap c (hd (sort (map fst c))) else ''''
            | _ \<Rightarrow> '''')
      in if spec \<noteq> '''' then spec
         else if status \<noteq> '''' then status
         else case provider of Some p \<Rightarrow> p | None \<Rightarrow> mapping)"

text \<open>Durations are nanoseconds; the hours of a day count are a float64.\<close>

definition AgeString :: "int \<Rightarrow> int option \<Rightarrow> string" where
  "AgeString now created = (case created of
       None \<Rightarrow> ''-''
     | Some t \<Rightarrow>
         (let d = now - t;
              hours = fadd (f_of_int (tdiv d (3600 * 10 ^ 9))) (fdiv (f_of_int (tmod d (3600 * 10 ^ 9))) (f_of_int (3600 * 10 ^ 9)))
          in if d < 60 * 10 ^ 9 then itoa (tdiv d (10 ^ 9)) @ ''s''
             else if d < 3600 * 10 ^ 9 then itoa (tdiv d (60 * 10 ^ 9)) @ ''m''
             else if d < 24 * 3600 * 10 ^ 9 then itoa (tdiv d (3600 * 10 ^ 9)) @ ''h''
             else itoa (f_to_int (fdiv hours (Fin 24))) @ ''d''))"

text \<open>A stable insertion by a descending text; steps with the same start keep the order in which the nodes were read.\<close>

fun insert_desc :: "('a \<Rightarrow> string) \<Rightarrow> 'a \<Rightarrow> 'a list \<Rightarrow> 'a list" where
  "insert_desc key x [] = [x]"
| "insert_desc key x (y # ys) = (if key y > key x \<or> key y = key x then y # insert_desc key x ys else x # y # ys)"

record workflow_step =
  ws_name :: string
  ws_phase :: string
  ws_started :: string
  ws_ended :: string

definition step_of :: "fields \<Rightarrow> workflow_step" where
  "step_of node =
     (let shown = StringFromMap node ''displayName'' in
      \<lparr>ws_name = (if shown = '''' then StringFromMap node ''name'' else shown),
       ws_phase = SafeText (StringFromMap node ''phase'') ''unknown'', ws_started = SafeText (StringFromMap node ''startedAt'') ''-'',
       ws_ended = SafeText (StringFromMap node ''finishedAt'') ''-''\<rparr>)"

definition fetchWorkflowSteps :: "mcp_world \<Rightarrow> string \<Rightarrow> workflow_step list" where
  "fetchWorkflowSteps w name = (case mw_workflow w name of
       Inl e \<Rightarrow> []
     | Inr flow \<Rightarrow>
         (case map_of flow ''status'' of
            Some (GMap st) \<Rightarrow>
              (case map_of st ''nodes'' of
                 Some (GMap nodes) \<Rightarrow>
                   take 10 (foldl (\<lambda>acc s. insert_desc ws_started s acc) []
                     (concat (map (\<lambda>(k, v). case v of GMap node \<Rightarrow> [step_of node] | _ \<Rightarrow> []) nodes)))
               | _ \<Rightarrow> [])
          | _ \<Rightarrow> []))"

text \<open>Of pods with one creation time the first in the list is taken.\<close>

definition FindRuntimePod :: "mcp_world \<Rightarrow> string \<Rightarrow> (string \<times> string \<times> string) err" where
  "FindRuntimePod w name =
     (case first_some (\<lambda>selector. case mw_pods w selector of
             Inl e \<Rightarrow> None
           | Inr [] \<Rightarrow> None
           | Inr pods \<Rightarrow> Some (hd (sort_key (\<lambda>p. - rp_created p) pods)))
         [''agentic.io/job-id='' @ name, ''workflows.argoproj.io/workflow='' @ name, ''agentworkload.clawdlinux.io/name='' @ name] of
        Some p \<Rightarrow> Inr (rp_name p, rp_namespace p, rp_role p)
      | None \<Rightarrow> Inl (''could not find runtime pod for workload '' @ quote name))"

section \<open>Arguments\<close>

text \<open>The parameters are None when the request has none.\<close>

definition argument :: "fields option \<Rightarrow> string \<Rightarrow> gany option" where
  "argument params key = (case params of None \<Rightarrow> None | Some m \<Rightarrow> map_of m key)"

definition requireString :: "fields option \<Rightarrow> string \<Rightarrow> string err" where
  "requireString params key = (case argument params key of
       None \<Rightarrow> Inl (''missing required argument '' @ quote key)
     | Some (GStr s) \<Rightarrow> if trim_space s = '''' then Inl (''argument '' @ quote key @ '' must be a non-empty string'') else Inr s
     | _ \<Rightarrow> Inl (''argument '' @ quote key @ '' must be a non-empty string''))"

definition optionalString :: "fields option \<Rightarrow> string \<Rightarrow> string" where
  "optionalString params key = (case argument params key of Some (GStr s) \<Rightarrow> s | _ \<Rightarrow> '''')"

definition optionalStringSlice :: "fields option \<Rightarrow> string \<Rightarrow> string list" where
  "optionalStringSlice params key = (case argument params key of
       Some (GList xs) \<Rightarrow> concat (map (\<lambda>x. case x of GStr s \<Rightarrow> [s] | _ \<Rightarrow> []) xs)
     | _ \<Rightarrow> [])"

definition stringsToInterface :: "string list \<Rightarrow> gany" where
  "stringsToInterface xs = GList (map GStr xs)"

record mcp_config =
  mc_namespace :: string
  mc_url :: string
  mc_token :: string

definition NewServer :: "bool \<Rightarrow> mcp_config \<Rightarrow> mcp_config err" where
  "NewServer has_client cfg =
     (if \<not> has_client then Inl ''mcp.NewServer: ServerConfig.Client is required''
      else Inr (cfg\<lparr>mc_namespace := (if mc_namespace cfg = '''' then ''agentic-system'' else mc_namespace cfg),
        mc_url := (if mc_url cfg = '''' then ''http://litellm.agent-system.svc:4000'' else mc_url cfg)\<rparr>))"

definition namespaceOrDefault :: "mcp_config \<Rightarrow> fields option \<Rightarrow> string" where
  "namespaceOrDefault cfg params =
     (if optionalString params ''namespace'' \<noteq> '''' then optionalString params ''namespace'' else mc_namespace cfg)"

section \<open>The tools\<close>

datatype change = CreateWorkload string string fields | DeleteWorkload string string

type_synonym tool_result = "fields err \<times> change option"

definition set_string :: "fields option \<Rightarrow> string \<Rightarrow> fields \<Rightarrow> fields" where
  "set_string params key spec = (if optionalString params key \<noteq> '''' then AList.update key (GStr (optionalString params key)) spec else spec)"

definition set_strings :: "fields option \<Rightarrow> string \<Rightarrow> fields \<Rightarrow> fields" where
  "set_strings params key spec = (if optionalStringSlice params key \<noteq> []
     then AList.update key (stringsToInterface (optionalStringSlice params key)) spec else spec)"

definition workload_spec_of :: "string \<Rightarrow> string list \<Rightarrow> fields option \<Rightarrow> fields" where
  "workload_spec_of objective agents params =
     (let spec = [(''objective'', GStr objective), (''agents'', stringsToInterface agents),
            (''workloadType'', GStr (if optionalString params ''workloadType'' \<noteq> '''' then optionalString params ''workloadType'' else ''generic''))]
      in set_strings params ''targetUrls'' (set_strings params ''agents''
         (set_string params ''mcpServerEndpoint'' (set_string params ''workflowName'' (set_string params ''opaPolicy''
         (set_string params ''autoApproveThreshold'' spec))))))"

definition identity :: "uobject \<Rightarrow> string \<Rightarrow> fields" where
  "identity o' phase = [(''name'', GStr (uo_name o')), (''namespace'', GStr (uo_namespace o')), (''uid'', GStr (uo_uid o')),
     (''resourceVersion'', GStr (uo_version o')), (''phase'', GStr phase)]"

definition createWorkload :: "mcp_config \<Rightarrow> mcp_world \<Rightarrow> fields option \<Rightarrow> tool_result" where
  "createWorkload cfg w params = (case requireString params ''name'' of
       Inl e \<Rightarrow> (Inl e, None)
     | Inr name \<Rightarrow>
     (case requireString params ''objective'' of
       Inl e \<Rightarrow> (Inl e, None)
     | Inr objective \<Rightarrow>
         (let ns = namespaceOrDefault cfg params; agents = optionalStringSlice params ''agents''; spec = workload_spec_of objective agents params in
          if agents = [] then (Inl (''argument '' @ quote ''agents'' @ '' must contain at least one agent''), None)
          else (case mw_create w ns name spec of
              Created o' \<Rightarrow> (Inr (identity o' ''Pending''), Some (CreateWorkload ns name spec))
            | CreateFailed e \<Rightarrow> (Inl (''create AgentWorkload '' @ ns @ ''/'' @ name @ '': '' @ e), None)
            | AlreadyExists e \<Rightarrow>
                (case mw_get w ns name of
                   Inl g \<Rightarrow> (Inl (''create AgentWorkload '' @ ns @ ''/'' @ name @ '': '' @ e @ '' (and Get failed: '' @ g @ '')''), None)
                 | Inr o' \<Rightarrow>
                     (let phase = or_empty (NestedString (uo_object o') [''status'', ''phase'']) in
                      (Inr (identity o' (if phase \<noteq> '''' then phase else ''Pending'') @ [(''alreadyExisted'', GBool True)]), None)))))))"

definition getWorkloadStatus :: "mcp_config \<Rightarrow> mcp_world \<Rightarrow> fields option \<Rightarrow> tool_result" where
  "getWorkloadStatus cfg w params = (case requireString params ''name'' of
       Inl e \<Rightarrow> (Inl e, None)
     | Inr name \<Rightarrow>
         (let ns = namespaceOrDefault cfg params in
          case mw_get w ns name of
            Inl e \<Rightarrow> (Inl (''get agentworkload '' @ ns @ ''/'' @ name @ '': '' @ e), None)
          | Inr o' \<Rightarrow> (Inr [(''name'', GStr (uo_name o')), (''namespace'', GStr (uo_namespace o')),
               (''phase'', GStr (SafeText (or_empty (NestedString (uo_object o') [''status'', ''phase''])) ''Unknown'')),
               (''steps'', GList (map (\<lambda>s. GMap [(''name'', GStr (ws_name s)), (''phase'', GStr (ws_phase s)),
                   (''startedAt'', GStr (ws_started s)), (''endedAt'', GStr (ws_ended s))]) (fetchWorkflowSteps w name)))], None)))"

definition label_selector :: "string \<Rightarrow> string option" where
  "label_selector selector = (case cut selector ''='' of
       None \<Rightarrow> None
     | Some (key, value) \<Rightarrow>
         if trim_space key = '''' \<or> has_byte selector (CHR '','') \<or> has_byte selector (CHR ''!'') then None
         else Some (key @ ''='' @ value))"

text \<open>The value ParseFloat returns, its error ignored: infinity for a number out of range, zero for a text that is no number.\<close>

definition cost_annotation :: "string \<Rightarrow> f64" where
  "cost_annotation s = (case parse_float s of
       Some f \<Rightarrow> f
     | None \<Rightarrow>
         (let neg = has_prefix s ''-''; t = (if has_prefix s ''-'' \<or> has_prefix s ''+'' then tl s else s);
              (ip, r1) = span_digits t; (fp, r2) = (if has_prefix r1 ''.'' then span_digits (tl r1) else ([], r1))
          in if (ip = [] \<and> fp = []) \<or> parse_exp r2 = None then Fin 0 else if neg then NInf else PInf))"

definition list_item :: "mcp_world \<Rightarrow> uobject \<Rightarrow> gany" where
  "list_item w o' = GMap [(''name'', GStr (uo_name o')), (''namespace'', GStr (uo_namespace o')),
     (''status'', GStr (or_empty (NestedString (uo_object o') [''status'', ''phase'']))), (''model'', GStr (ExtractModel (uo_object o'))),
     (''costToday'', GFloat (cost_annotation (or_empty (map_of (uo_annotations o') ''agentworkload.clawdlinux.io/cost-usd-today'')))),
     (''age'', GStr (AgeString (mw_now w) (uo_created o')))]"

definition listWorkloads :: "mcp_world \<Rightarrow> fields option \<Rightarrow> tool_result" where
  "listWorkloads w params =
     (let selector = optionalString params ''labelSelector'';
          checked = (if selector = '''' then Some '''' else label_selector selector)
      in case checked of
        None \<Rightarrow> (Inl (''argument '' @ quote ''labelSelector'' @ '' must be a single key=value selector, got '' @ quote selector), None)
      | Some s \<Rightarrow>
          (case mw_list w (optionalString params ''namespace'') s of
             Inl e \<Rightarrow> (Inl (''list agentworkloads: '' @ e), None)
           | Inr items \<Rightarrow> (Inr [(''count'', GInt (int (length items))), (''items'', GList (map (list_item w) items))], None)))"

definition getWorkloadLogs :: "mcp_world \<Rightarrow> fields option \<Rightarrow> tool_result" where
  "getWorkloadLogs w params = (case requireString params ''name'' of
       Inl e \<Rightarrow> (Inl e, None)
     | Inr name \<Rightarrow>
         (let tail = (case argument params ''tail'' of
                Some (GFloat f) \<Rightarrow> if flt (Fin 0) f then f_to_int f else 100
              | _ \<Rightarrow> 100)
          in case FindRuntimePod w name of
            Inl e \<Rightarrow> (Inl e, None)
          | Inr (pod, ns, role) \<Rightarrow>
              (case mw_logs w ns pod tail of
                 NoStream e \<Rightarrow> (Inl (''stream logs '' @ ns @ ''/'' @ pod @ '': '' @ e), None)
               | NoRead e \<Rightarrow> (Inl (''read logs '' @ ns @ ''/'' @ pod @ '': '' @ e), None)
               | Logs logs \<Rightarrow> (Inr [(''workload'', GStr name), (''pod'', GStr pod), (''namespace'', GStr ns), (''role'', GStr role),
                   (''tail'', GInt tail), (''logs'', GStr logs)], None))))"

definition probeLiteLLM :: "mcp_world \<Rightarrow> string \<Rightarrow> string option" where
  "probeLiteLLM w url = (if url = '''' then Some ''litellm URL not configured'' else mw_probe w (url @ ''/health''))"

text \<open>The payload is None when the service is not reachable, answers with an error or does not send JSON.\<close>

definition cost_rows :: "mcp_config \<Rightarrow> mcp_world \<Rightarrow> string \<Rightarrow> cost_row list" where
  "cost_rows cfg w ns = CostSummary (mw_spend w (trim_suffix (mc_url cfg) ''/'' @ ''/spend/logs'')) ns (ns = '''')"

definition getWorkloadCost :: "mcp_config \<Rightarrow> mcp_world \<Rightarrow> fields option \<Rightarrow> tool_result" where
  "getWorkloadCost cfg w params = (case requireString params ''name'' of
       Inl e \<Rightarrow> (Inl e, None)
     | Inr name \<Rightarrow>
         (let ns = optionalString params ''namespace'' in
          case probeLiteLLM w (mc_url cfg) of
            Some e \<Rightarrow> (Inl (''cost endpoint unreachable: '' @ e), None)
          | None \<Rightarrow>
              (case filter (\<lambda>r. cw_workload r = name \<and> (ns = '''' \<or> cw_namespace r = ns)) (cost_rows cfg w ns) of
                 r # _ \<Rightarrow> (Inr [(''workload'', GStr (cw_workload r)), (''namespace'', GStr (cw_namespace r)), (''model'', GStr (cw_model r)),
                    (''tokensToday'', GInt (cw_tokens r)), (''costToday'', GFloat (cw_today r)), (''costMtd'', GFloat (cw_mtd r))], None)
               | [] \<Rightarrow> (Inr [(''workload'', GStr name), (''namespace'', GStr ns), (''tokensToday'', GInt 0), (''costToday'', GFloat (Fin 0)),
                    (''costMtd'', GFloat (Fin 0)), (''note'', GStr ''no cost records yet'')], None))))"

definition deleteWorkload :: "mcp_config \<Rightarrow> mcp_world \<Rightarrow> fields option \<Rightarrow> tool_result" where
  "deleteWorkload cfg w params = (case requireString params ''name'' of
       Inl e \<Rightarrow> (Inl e, None)
     | Inr name \<Rightarrow>
         (let ns = namespaceOrDefault cfg params in
          case mw_delete w ns name of
            DeleteOk \<Rightarrow> (Inr [(''name'', GStr name), (''namespace'', GStr ns), (''deleted'', GBool True)], Some (DeleteWorkload ns name))
          | DeleteNotFound \<Rightarrow> (Inr [(''name'', GStr name), (''namespace'', GStr ns), (''deleted'', GBool False),
                (''note'', GStr ''workload not found'')], None)
          | DeleteFailed e \<Rightarrow> (Inl (''delete AgentWorkload '' @ ns @ ''/'' @ name @ '': '' @ e), None)))"

section \<open>Requests\<close>

definition dispatch :: "mcp_config \<Rightarrow> mcp_world \<Rightarrow> string \<Rightarrow> fields option \<Rightarrow> tool_result" where
  "dispatch cfg w tool params =
     (if tool = ''create_workload'' then createWorkload cfg w params
      else if tool = ''get_workload_status'' then getWorkloadStatus cfg w params
      else if tool = ''list_workloads'' then listWorkloads w params
      else if tool = ''get_workload_logs'' then getWorkloadLogs w params
      else if tool = ''get_workload_cost'' then getWorkloadCost cfg w params
      else if tool = ''delete_workload'' then deleteWorkload cfg w params
      else (Inl (''unknown tool '' @ quote tool), None))"

text \<open>The body is what decoding it gives.\<close>

record mcp_request =
  mq_authorization :: string
  mq_path :: string
  mq_method :: string
  mq_body :: "(string \<times> fields option) err"

datatype mcp_reply = McpError int string | ToolList | Health | NotFound | ToolReply string "fields err"

definition handleListTools :: "mcp_request \<Rightarrow> mcp_reply \<times> change option" where
  "handleListTools q = (if mq_method q \<noteq> ''GET'' then (McpError 405 ''method not allowed'', None) else (ToolList, None))"

definition handleCallTool :: "mcp_config \<Rightarrow> mcp_world \<Rightarrow> mcp_request \<Rightarrow> mcp_reply \<times> change option" where
  "handleCallTool cfg w q =
     (if mq_method q \<noteq> ''POST'' then (McpError 405 ''method not allowed'', None)
      else case mq_body q of
          Inl e \<Rightarrow> (McpError 400 (''invalid JSON body: '' @ e), None)
        | Inr (tool, params) \<Rightarrow> (let (result, change) = dispatch cfg w tool params in (ToolReply tool result, change)))"

definition mcp_mux :: "mcp_config \<Rightarrow> mcp_world \<Rightarrow> mcp_request \<Rightarrow> mcp_reply \<times> change option" where
  "mcp_mux cfg w q =
     (if mq_path q = ''/tools'' then handleListTools q
      else if mq_path q = ''/call_tool'' then handleCallTool cfg w q
      else if mq_path q = ''/healthz'' then (Health, None)
      else (NotFound, None))"

definition authMiddleware :: "mcp_config \<Rightarrow> (mcp_request \<Rightarrow> mcp_reply \<times> change option) \<Rightarrow> mcp_request \<Rightarrow> mcp_reply \<times> change option" where
  "authMiddleware cfg rest q =
     (if mc_token cfg \<noteq> '''' \<and> mq_authorization q \<noteq> ''Bearer '' @ mc_token cfg
      then (McpError 401 ''missing or invalid bearer token'', None)
      else rest q)"

definition Handler :: "mcp_config \<Rightarrow> mcp_world \<Rightarrow> mcp_request \<Rightarrow> mcp_reply \<times> change option" where
  "Handler cfg w = authMiddleware cfg (mcp_mux cfg w)"

section \<open>The transports\<close>

definition serve_token :: "string \<Rightarrow> string \<Rightarrow> string" where
  "serve_token flag env = (if flag = '''' then env else flag)"

text \<open>One line of the standard input; None is a line without a reply.\<close>

definition stdio_line :: "mcp_config \<Rightarrow> mcp_world \<Rightarrow> string \<Rightarrow> (string \<times> fields option) err \<Rightarrow> mcp_reply option \<times> change option" where
  "stdio_line cfg w line decoded =
     (if line = '''' then (None, None)
      else case decoded of
          Inl e \<Rightarrow> (Some (McpError 0 (''invalid JSON: '' @ e)), None)
        | Inr (tool, params) \<Rightarrow>
            if tool = ''list_tools'' then (Some ToolList, None)
            else (let (result, change) = dispatch cfg w tool params in (Some (ToolReply tool result), change)))"

record serve_options =
  so_transport :: string
  so_namespace :: string
  so_url :: string
  so_token :: string

datatype transport = HttpTransport | StdioTransport

text \<open>What a started server runs: its transport and the settings of its tools.\<close>

definition runMCPServe :: "bool \<Rightarrow> serve_options \<Rightarrow> string \<Rightarrow> (transport \<times> mcp_config) err" where
  "runMCPServe has_client opts env =
     (if \<not> has_client then Inl ''kubernetes client not initialised; check kubeconfig''
      else case NewServer has_client \<lparr>mc_namespace = so_namespace opts, mc_url = so_url opts, mc_token = serve_token (so_token opts) env\<rparr> of
          Inl e \<Rightarrow> Inl (''init MCP server: '' @ e)
        | Inr cfg \<Rightarrow>
            if so_transport opts = ''http'' then Inr (HttpTransport, cfg)
            else if so_transport opts = ''stdio'' then Inr (StdioTransport, cfg)
            else Inl (''unsupported transport '' @ quote (so_transport opts) @ '' (want http|stdio)''))"

text \<open>What reaches a server: requests over HTTP, or lines of the standard input with what decoding them gives.\<close>

datatype mcp_input = HttpInput mcp_request | StdioInput string "(string \<times> fields option) err"

fun served :: "transport \<Rightarrow> mcp_config \<Rightarrow> mcp_world \<Rightarrow> mcp_input \<Rightarrow> mcp_reply option \<times> change option" where
  "served HttpTransport cfg w (HttpInput q) = (let (reply, change) = Handler cfg w q in (Some reply, change))"
| "served StdioTransport cfg w (StdioInput line decoded) = stdio_line cfg w line decoded"
| "served HttpTransport cfg w (StdioInput line decoded) = (None, None)"
| "served StdioTransport cfg w (HttpInput q) = (None, None)"

section \<open>What a request can change\<close>

text \<open>The fields of the spec that was asked for: the objective, the agents, the type, generic when none is asked, and the optional
  fields exactly when they are asked for.\<close>

definition asked_text :: "fields option \<Rightarrow> string \<Rightarrow> string option" where
  "asked_text params key = (case argument params key of Some (GStr s) \<Rightarrow> (if s = '''' then None else Some s) | _ \<Rightarrow> None)"

definition asked_texts :: "fields option \<Rightarrow> string \<Rightarrow> string list" where
  "asked_texts params key = (case argument params key of Some (GList xs) \<Rightarrow> [s. GStr s \<leftarrow> xs] | _ \<Rightarrow> [])"

definition asked_spec :: "fields option \<Rightarrow> string \<Rightarrow> gany option" where
  "asked_spec params key =
     (if key = ''objective'' then argument params ''objective''
      else if key = ''agents'' then Some (GList (map GStr (asked_texts params ''agents'')))
      else if key = ''workloadType''
        then Some (GStr (case asked_text params ''workloadType'' of None \<Rightarrow> ''generic'' | Some t \<Rightarrow> t))
      else if key \<in> {''autoApproveThreshold'', ''opaPolicy'', ''workflowName'', ''mcpServerEndpoint''}
        then map_option GStr (asked_text params key)
      else if key = ''targetUrls'' \<and> asked_texts params key \<noteq> [] then Some (GList (map GStr (asked_texts params key)))
      else None)"

lemma optionalString_asked: "optionalString params key = (case asked_text params key of None \<Rightarrow> '''' | Some s \<Rightarrow> s)"
  by (auto simp: optionalString_def asked_text_def split: option.splits gany.splits)

lemma asked_text_ne: "asked_text params key = Some s \<Longrightarrow> s \<noteq> ''''"
  by (auto simp: asked_text_def split: option.splits gany.splits if_splits)

lemma optionalStringSlice_asked: "optionalStringSlice params key = asked_texts params key"
  by (simp add: optionalStringSlice_def asked_texts_def)

lemma set_string_asked:
  "map_of (set_string params key spec) k = (if k = key then (case asked_text params key of None \<Rightarrow> map_of spec k | Some s \<Rightarrow> Some (GStr s))
     else map_of spec k)"
  by (auto simp: set_string_def optionalString_asked update_conv dest: asked_text_ne split: option.splits)

lemma set_strings_asked:
  "map_of (set_strings params key spec) k = (if k = key \<and> asked_texts params key \<noteq> [] then Some (GList (map GStr (asked_texts params key)))
     else map_of spec k)"
  by (simp add: set_strings_def optionalStringSlice_asked update_conv stringsToInterface_def)

lemma workload_spec_asked:
  assumes "argument params ''objective'' = Some (GStr objective)" "asked_texts params ''agents'' \<noteq> []"
  shows "map_of (workload_spec_of objective (asked_texts params ''agents'') params) k = asked_spec params k"
proof (cases "k \<in> {''objective'', ''agents'', ''workloadType'', ''autoApproveThreshold'', ''opaPolicy'', ''workflowName'',
    ''mcpServerEndpoint'', ''targetUrls''}")
  case True
  then show ?thesis
    unfolding workload_spec_of_def Let_def set_strings_asked set_string_asked asked_spec_def optionalString_asked
    by (elim insertE emptyE) (use assms in \<open>auto simp: stringsToInterface_def dest: asked_text_ne split: option.split\<close>)
next
  case False
  then show ?thesis
    unfolding workload_spec_of_def Let_def set_strings_asked set_string_asked asked_spec_def by simp
qed

lemma requireString_Inr: "requireString params key = Inr s \<longleftrightarrow> argument params key = Some (GStr s) \<and> trim_space s \<noteq> ''''"
  by (auto simp: requireString_def split: option.splits gany.splits if_splits)

definition sound_change :: "mcp_config \<Rightarrow> mcp_world \<Rightarrow> string \<Rightarrow> fields option \<Rightarrow> change \<Rightarrow> bool" where
  "sound_change cfg w tool params c \<longleftrightarrow> (case c of
       CreateWorkload ns name spec \<Rightarrow> tool = ''create_workload'' \<and> argument params ''name'' = Some (GStr name) \<and> trim_space name \<noteq> ''''
         \<and> ns = namespaceOrDefault cfg params
         \<and> (\<exists>objective. argument params ''objective'' = Some (GStr objective) \<and> trim_space objective \<noteq> '''')
         \<and> asked_texts params ''agents'' \<noteq> [] \<and> map_of spec = asked_spec params
         \<and> (\<exists>o'. mw_create w ns name spec = Created o')
     | DeleteWorkload ns name \<Rightarrow> tool = ''delete_workload'' \<and> argument params ''name'' = Some (GStr name) \<and> trim_space name \<noteq> ''''
         \<and> ns = namespaceOrDefault cfg params \<and> mw_delete w ns name = DeleteOk)"

lemma create_sound:
  assumes "createWorkload cfg w params = (r, Some c)"
  shows "sound_change cfg w ''create_workload'' params c"
proof -
  obtain name objective where n: "requireString params ''name'' = Inr name" "requireString params ''objective'' = Inr objective"
    using assms by (auto simp: createWorkload_def split: sum.splits)
  define agents where "agents = optionalStringSlice params ''agents''"
  define spec where "spec = workload_spec_of objective agents params"
  define ns where "ns = namespaceOrDefault cfg params"
  have c: "agents \<noteq> []" "c = CreateWorkload ns name spec" "\<exists>o'. mw_create w ns name spec = Created o'"
    using assms n by (auto simp: createWorkload_def Let_def agents_def spec_def ns_def split: if_splits create_answer.splits sum.splits)
  show ?thesis
    using c n workload_spec_asked [of params objective] unfolding agents_def ns_def spec_def
    by (auto simp: sound_change_def requireString_Inr optionalStringSlice_asked)
qed

lemma delete_sound: "deleteWorkload cfg w params = (r, Some c) \<Longrightarrow> sound_change cfg w ''delete_workload'' params c"
  by (auto simp: deleteWorkload_def sound_change_def requireString_Inr Let_def split: sum.splits delete_answer.splits)

lemma reads_change_nothing:
  "getWorkloadStatus cfg w params \<noteq> (r, Some c)" "listWorkloads w params \<noteq> (r, Some c)" "getWorkloadLogs w params \<noteq> (r, Some c)"
  "getWorkloadCost cfg w params \<noteq> (r, Some c)"
  by (auto simp: getWorkloadStatus_def listWorkloads_def getWorkloadLogs_def getWorkloadCost_def Let_def
      split: sum.splits option.splits list.splits prod.splits log_answer.splits)

lemma dispatch_sound: "dispatch cfg w tool params = (r, Some c) \<Longrightarrow> sound_change cfg w tool params c"
  using create_sound delete_sound by (auto simp: dispatch_def reads_change_nothing split: if_splits)

lemma served_http: "snd (served HttpTransport cfg w (HttpInput q)) = snd (Handler cfg w q)"
  by (simp add: Let_def case_prod_beta)

lemma call_change:
  assumes "snd (Handler cfg w q) = Some c"
  shows "(mc_token cfg = '''' \<or> mq_authorization q = ''Bearer '' @ mc_token cfg) \<and> mq_method q = ''POST'' \<and> mq_path q = ''/call_tool''
    \<and> (\<exists>tool params. mq_body q = Inr (tool, params) \<and> sound_change cfg w tool params c)"
proof -
  have m: "mc_token cfg = '''' \<or> mq_authorization q = ''Bearer '' @ mc_token cfg" "snd (mcp_mux cfg w q) = Some c"
    using assms by (auto simp: Handler_def authMiddleware_def split: if_splits)
  then have p: "mq_path q = ''/call_tool''" "snd (handleCallTool cfg w q) = Some c"
    by (auto simp: mcp_mux_def handleListTools_def split: if_splits)
  then obtain tool params where t: "mq_method q = ''POST''" "mq_body q = Inr (tool, params)" "snd (dispatch cfg w tool params) = Some c"
    by (auto simp: handleCallTool_def split: if_splits sum.splits prod.splits)
  have "sound_change cfg w tool params c" using t(3) dispatch_sound by (cases "dispatch cfg w tool params") auto
  then show ?thesis using m(1) p(1) t(1,2) by blast
qed

lemma stdio_change:
  assumes "snd (stdio_line cfg w line decoded) = Some c"
  shows "line \<noteq> '''' \<and> (\<exists>tool params. decoded = Inr (tool, params) \<and> sound_change cfg w tool params c)"
proof -
  obtain tool params where t: "line \<noteq> ''''" "decoded = Inr (tool, params)" "snd (dispatch cfg w tool params) = Some c"
    using assms by (auto simp: stdio_line_def split: if_splits sum.splits prod.splits)
  have "sound_change cfg w tool params c" using t(3) dispatch_sound by (cases "dispatch cfg w tool params") auto
  then show ?thesis using t(1,2) by blast
qed

text \<open>C36: What reaches the cluster through the tool server, over either transport. A started server has the token of the flag or
  else of the environment. Over HTTP with a token, a request without exactly that bearer token is answered with 401, the same on
  every world, and changes nothing; with an empty token, and on the standard input, there is no authentication. A change answers a
  POST to /call_tool or a line of the standard input, each of its own transport only: a workload created by create_workload with the
  name asked for, whose spec has exactly the fields asked for, with a non-blank objective, at least one agent and the requested type
  or generic when none is requested, or one deleted by delete_workload, in the namespace asked for or the default one. No other tool,
  path, method or line changes anything.\<close>

theorem mcp_changes_authorised:
  assumes "runMCPServe has_client opts env = Inr (tr, cfg)"
  defines "token \<equiv> if so_token opts = '''' then env else so_token opts"
  shows "(tr = HttpTransport \<and> token \<noteq> '''' \<and> mq_authorization q \<noteq> ''Bearer '' @ token \<longrightarrow>
      (\<forall>w'. served tr cfg w' (HttpInput q) = (Some (McpError 401 ''missing or invalid bearer token''), None)))
    \<and> (\<forall>c. snd (served tr cfg w inp) = Some c \<longrightarrow> (\<exists>tool params. sound_change cfg w tool params c \<and> (case inp of
         HttpInput q \<Rightarrow> tr = HttpTransport \<and> (token = '''' \<or> mq_authorization q = ''Bearer '' @ token) \<and> mq_method q = ''POST''
           \<and> mq_path q = ''/call_tool'' \<and> mq_body q = Inr (tool, params)
       | StdioInput line decoded \<Rightarrow> tr = StdioTransport \<and> line \<noteq> '''' \<and> decoded = Inr (tool, params))))
    \<and> mc_namespace cfg = (if so_namespace opts = '''' then ''agentic-system'' else so_namespace opts)"
proof -
  have cfg: "mc_token cfg = token" "mc_namespace cfg = (if so_namespace opts = '''' then ''agentic-system'' else so_namespace opts)"
    using assms(1) by (auto simp: runMCPServe_def NewServer_def serve_token_def token_def split: if_splits)
  have "\<exists>tool params. sound_change cfg w tool params c \<and> (case inp of
         HttpInput q \<Rightarrow> tr = HttpTransport \<and> (token = '''' \<or> mq_authorization q = ''Bearer '' @ token) \<and> mq_method q = ''POST''
           \<and> mq_path q = ''/call_tool'' \<and> mq_body q = Inr (tool, params)
       | StdioInput line decoded \<Rightarrow> tr = StdioTransport \<and> line \<noteq> '''' \<and> decoded = Inr (tool, params))"
    if "snd (served tr cfg w inp) = Some c" for c
  proof (cases inp)
    case (HttpInput q)
    then have "tr = HttpTransport \<and> snd (Handler cfg w q) = Some c" using that served_http [of cfg w q] by (cases tr) auto
    then show ?thesis using call_change [of cfg w q c] HttpInput unfolding cfg(1) by auto
  next
    case (StdioInput line decoded)
    then have "tr = StdioTransport \<and> snd (stdio_line cfg w line decoded) = Some c" using that by (cases tr) auto
    then show ?thesis using stdio_change [of cfg w line decoded c] StdioInput by auto
  qed
  moreover have "served tr cfg w' (HttpInput q) = (Some (McpError 401 ''missing or invalid bearer token''), None)"
    if "tr = HttpTransport" "token \<noteq> ''''" "mq_authorization q \<noteq> ''Bearer '' @ token" for w'
    using that by (simp add: Handler_def authMiddleware_def cfg(1))
  ultimately show ?thesis using cfg(2) by blast
qed

section \<open>What the cost summary adds up\<close>

definition rows_of :: "string \<Rightarrow> cost_row list \<Rightarrow> cost_row list" where
  "rows_of k rows = filter (\<lambda>r. row_key r = k) rows"

lemma row_key_add [simp]: "row_key (add_row x r) = row_key x" "row_key (empty_row r) = row_key r"
  by (simp_all add: row_key_def add_row_def empty_row_def)

lemma aggregate_spec:
  assumes "distinct (map fst agg)" "\<forall>(k, r)\<in>set agg. row_key r = k"
  shows "distinct (map fst (aggregate rows agg)) \<and> (\<forall>(k, r)\<in>set (aggregate rows agg). row_key r = k)
    \<and> (\<forall>k. map_of (aggregate rows agg) k = (case (map_of agg k, rows_of k rows) of
           (None, []) \<Rightarrow> None
         | (None, r # rs) \<Rightarrow> Some (fold (\<lambda>r x. add_row x r) (r # rs) (empty_row r))
         | (Some x, rs) \<Rightarrow> Some (fold (\<lambda>r x. add_row x r) rs x)))"
  using assms
proof (induction rows arbitrary: agg)
  case Nil
  then show ?case by (auto simp: rows_of_def split: option.splits)
next
  case (Cons r rows)
  define old where "old = (case map_of agg (row_key r) of Some x \<Rightarrow> x | None \<Rightarrow> empty_row r)"
  define agg' where "agg' = AList.update (row_key r) (add_row old r) agg"
  have ok: "row_key old = row_key r" using Cons.prems(2) by (auto simp: old_def dest: map_of_SomeD split: option.splits)
  have a: "distinct (map fst agg')" using Cons.prems(1) by (simp add: agg'_def distinct_update)
  have m: "map_of agg' k = (if k = row_key r then Some (add_row old r) else map_of agg k)" for k
    by (simp add: agg'_def update_conv)
  have keys: "\<forall>(k, x)\<in>set agg'. row_key x = k"
  proof clarify
    fix k x
    assume "(k, x) \<in> set agg'"
    then have "map_of agg' k = Some x" using a by simp
    then show "row_key x = k" using m ok Cons.prems(2) by (auto dest: map_of_SomeD split: if_splits)
  qed
  have step: "aggregate (r # rows) agg = aggregate rows agg'" by (simp add: old_def agg'_def Let_def)
  have "map_of (aggregate rows agg') k = (case (map_of agg k, rows_of k (r # rows)) of
           (None, []) \<Rightarrow> None
         | (None, r # rs) \<Rightarrow> Some (fold (\<lambda>r x. add_row x r) (r # rs) (empty_row r))
         | (Some x, rs) \<Rightarrow> Some (fold (\<lambda>r x. add_row x r) rs x))" for k
    using Cons.IH [OF a keys] m [of k] by (cases "k = row_key r") (auto simp: rows_of_def old_def split: option.splits)
  then show ?case using Cons.IH [OF a keys] unfolding step by blast
qed

text \<open>Every row of a summary is the sum of the records of its key, and every record is in a row.\<close>

lemma CostSummary_rows:
  fixes ns :: string and p :: gany and every :: bool
  defines "recs \<equiv> map record_row (filter (\<lambda>m. every \<or> namespaceMatch (record_namespace m) ns) (extractRecords p))"
  shows "row_key ` set (CostSummary (Some p) ns every) = row_key ` set recs
    \<and> (\<forall>r\<in>set (CostSummary (Some p) ns every). rows_of (row_key r) recs \<noteq> []
         \<and> r = fold (\<lambda>x y. add_row y x) (rows_of (row_key r) recs) (empty_row (hd (rows_of (row_key r) recs))))"
proof -
  define agg where "agg = aggregate recs []"
  have s: "set (CostSummary (Some p) ns every) = snd ` set agg" by (simp add: CostSummary_def Let_def agg_def recs_def)
  have a: "distinct (map fst agg)" "\<forall>(k, r)\<in>set agg. row_key r = k" and m: "map_of agg k = (case rows_of k recs of [] \<Rightarrow> None
      | r # rs \<Rightarrow> Some (fold (\<lambda>r x. add_row x r) (r # rs) (empty_row r)))" for k
    using aggregate_spec [of "[]" recs] by (simp_all add: agg_def)
  have each: "rows_of (row_key r) recs \<noteq> []
         \<and> r = fold (\<lambda>x y. add_row y x) (rows_of (row_key r) recs) (empty_row (hd (rows_of (row_key r) recs)))" if "r \<in> snd ` set agg" for r
  proof -
    obtain k where k: "(k, r) \<in> set agg" using \<open>r \<in> snd ` set agg\<close> by auto
    then have "row_key r = k" "map_of agg k = Some r" using a by auto
    then show ?thesis using m [of k] by (auto split: list.splits)
  qed
  have "row_key ` (snd ` set agg) = fst ` set agg" using a(2) by (force simp: image_iff)
  also have "\<dots> = {k. map_of agg k \<noteq> None}" by (auto simp: map_of_eq_None_iff)
  also have "\<dots> = row_key ` set recs" by (auto simp: m rows_of_def filter_empty_conv split: list.splits)
  finally show ?thesis using each unfolding s by blast
qed

text \<open>A workload created by an authorised request.\<close>

definition wit_mcp_config :: mcp_config where
  "wit_mcp_config = \<lparr>mc_namespace = ''agentic-system'', mc_url = ''u'', mc_token = ''t''\<rparr>"

definition wit_mcp_world :: mcp_world where
  "wit_mcp_world = \<lparr>mw_create = \<lambda>ns name spec. Created \<lparr>uo_name = name, uo_namespace = ns, uo_uid = ''u'', uo_version = ''1'', uo_created = None,
       uo_annotations = [], uo_object = []\<rparr>,
     mw_get = \<lambda>ns name. Inl ''not found'', mw_delete = \<lambda>ns name. DeleteNotFound, mw_list = \<lambda>ns s. Inr [], mw_workflow = \<lambda>n. Inl ''x'',
     mw_pods = \<lambda>s. Inr [], mw_logs = \<lambda>a b c. NoStream ''x'', mw_probe = \<lambda>u. None, mw_spend = \<lambda>u. None, mw_now = 0\<rparr>"

definition wit_mcp_params :: fields where
  "wit_mcp_params = [(''name'', GStr ''w''), (''objective'', GStr ''o''), (''agents'', GList [GStr ''a''])]"

definition wit_mcp_request :: mcp_request where
  "wit_mcp_request = \<lparr>mq_authorization = ''Bearer t'', mq_path = ''/call_tool'', mq_method = ''POST'',
     mq_body = Inr (''create_workload'', Some wit_mcp_params)\<rparr>"

lemma wit_mcp_created: "\<exists>spec. snd (Handler wit_mcp_config wit_mcp_world wit_mcp_request) = Some (CreateWorkload ''agentic-system'' ''w'' spec)"
proof -
  have "trim_space ''w'' = ''w''" "trim_space ''o'' = ''o''" by code_simp+
  then show ?thesis
    by (simp add: Handler_def authMiddleware_def mcp_mux_def handleCallTool_def dispatch_def createWorkload_def requireString_def
        argument_def optionalString_def optionalStringSlice_def namespaceOrDefault_def wit_mcp_config_def wit_mcp_world_def
        wit_mcp_params_def wit_mcp_request_def Let_def)
qed

definition wit_serve :: serve_options where
  "wit_serve = \<lparr>so_transport = ''http'', so_namespace = '''', so_url = ''u'', so_token = ''''\<rparr>"

lemma wit_serve_runs: "runMCPServe True wit_serve ''t'' = Inr (HttpTransport, wit_mcp_config)"
  by (simp add: runMCPServe_def wit_serve_def NewServer_def serve_token_def wit_mcp_config_def)

lemma mcp_changes_authorised_witness:
  "(\<exists>spec. snd (served HttpTransport wit_mcp_config wit_mcp_world (HttpInput wit_mcp_request))
        = Some (CreateWorkload ''agentic-system'' ''w'' spec)
     \<and> map_of spec ''agents'' = Some (GList [GStr ''a'']) \<and> map_of spec ''workloadType'' = Some (GStr ''generic''))
   \<and> snd (served HttpTransport wit_mcp_config wit_mcp_world (HttpInput (wit_mcp_request\<lparr>mq_authorization := ''Bearer x''\<rparr>))) = None"
proof (intro conjI)
  obtain spec where c: "snd (served HttpTransport wit_mcp_config wit_mcp_world (HttpInput wit_mcp_request))
      = Some (CreateWorkload ''agentic-system'' ''w'' spec)"
    using wit_mcp_created unfolding served_http by blast
  have "sound_change wit_mcp_config wit_mcp_world ''create_workload'' (Some wit_mcp_params) (CreateWorkload ''agentic-system'' ''w'' spec)"
    using mcp_changes_authorised [OF wit_serve_runs, of wit_mcp_request wit_mcp_world "HttpInput wit_mcp_request"] c
    by (auto simp: wit_mcp_request_def)
  then have "map_of spec = asked_spec (Some wit_mcp_params)" by (simp add: sound_change_def)
  then show "\<exists>spec. snd (served HttpTransport wit_mcp_config wit_mcp_world (HttpInput wit_mcp_request))
        = Some (CreateWorkload ''agentic-system'' ''w'' spec)
     \<and> map_of spec ''agents'' = Some (GList [GStr ''a'']) \<and> map_of spec ''workloadType'' = Some (GStr ''generic'')"
    using c by (auto simp: asked_spec_def asked_texts_def asked_text_def argument_def wit_mcp_params_def)
  show "snd (served HttpTransport wit_mcp_config wit_mcp_world (HttpInput (wit_mcp_request\<lparr>mq_authorization := ''Bearer x''\<rparr>))) = None"
    using mcp_changes_authorised [OF wit_serve_runs, of "wit_mcp_request\<lparr>mq_authorization := ''Bearer x''\<rparr>" wit_mcp_world
        "HttpInput (wit_mcp_request\<lparr>mq_authorization := ''Bearer x''\<rparr>)"]
    by (simp add: wit_serve_def wit_mcp_request_def)
qed

end
