(* ===== verification/AuditVerify.thy ===== *)
theory AuditVerify
  imports AuditChain ReceiptExport
begin

text \<open>
  cmd/audit-verify/main.go: the command that checks an exported audit ledger. Keys are read from the flags, entries and published
  checkpoints from files of JSON lines, the verifier of AuditChain walks the entries and compares the checkpoints, and the exit
  code is 0, 1 for a ledger that fails and 2 for everything that could not be read. A file is its content or an error.
\<close>

section \<open>Base64\<close>

text \<open>base64.StdEncoding: line ends are skipped, the padding is required, the unused bits of the last digit are not looked at.\<close>

definition b64_val :: "char \<Rightarrow> nat option" where
  "b64_val c =
     (let n = of_char c :: nat in
      if 65 \<le> n \<and> n \<le> 90 then Some (n - 65)
      else if 97 \<le> n \<and> n \<le> 122 then Some (n - 71)
      else if is_digit c then Some (n + 4)
      else if c = CHR ''+'' then Some 62
      else if c = CHR ''/'' then Some 63
      else None)"

definition b64_bytes :: "nat \<Rightarrow> nat \<Rightarrow> nat \<Rightarrow> nat \<Rightarrow> string" where
  "b64_bytes a b c d = [char_of (4 * a + b div 16), char_of (16 * (b mod 16) + c div 4), char_of (64 * (c mod 4) + d)]"

fun b64_groups :: "string \<Rightarrow> string option" where
  "b64_groups [] = Some []"
| "b64_groups (a # b # c # d # s) =
     (if d = CHR ''='' then
        (if s \<noteq> [] then None
         else if c = CHR ''='' then (case (b64_val a, b64_val b) of (Some x, Some y) \<Rightarrow> Some (take 1 (b64_bytes x y 0 0)) | _ \<Rightarrow> None)
         else (case (b64_val a, b64_val b, b64_val c) of (Some x, Some y, Some z) \<Rightarrow> Some (take 2 (b64_bytes x y z 0)) | _ \<Rightarrow> None))
      else (case (b64_val a, b64_val b, b64_val c, b64_val d) of
          (Some x, Some y, Some z, Some t) \<Rightarrow> map_option (\<lambda>r. b64_bytes x y z t @ r) (b64_groups s)
        | _ \<Rightarrow> None))"
| "b64_groups _ = None"

definition base64_decode :: "string \<Rightarrow> string option" where
  "base64_decode s = b64_groups (filter (\<lambda>c. c \<noteq> CHR 0x0A \<and> c \<noteq> CHR 0x0D) s)"

section \<open>The flags\<close>

record verify_flags =
  vf_source :: string
  vf_path :: string
  vf_keys :: "string list"
  vf_checkpoints :: string
  vf_json :: bool

text \<open>One key flag; the text of an error of the decoder is left out.\<close>

definition key_hasher :: "string \<Rightarrow> hasher err" where
  "key_hasher kv = (case cut kv ''='' of
       None \<Rightarrow> Inl (''audit-verify: invalid --key '' @ quote kv @ '' (want kid=base64)'')
     | Some (kid, secret) \<Rightarrow>
         if kid = '''' then Inl (''audit-verify: invalid --key '' @ quote kv @ '' (want kid=base64)'')
         else (case base64_decode secret of
             None \<Rightarrow> Inl (''audit-verify: --key '' @ kid @ '': illegal base64 data'')
           | Some raw \<Rightarrow> (case NewChainHasher kid raw of
                 Inl e \<Rightarrow> Inl (''audit-verify: --key '' @ kid @ '': '' @ e)
               | Inr h \<Rightarrow> Inr h)))"

fun key_hashers :: "string list \<Rightarrow> hasher list err" where
  "key_hashers [] = Inr []"
| "key_hashers (kv # kvs) = bind_err (key_hasher kv) (\<lambda>h. bind_err (key_hashers kvs) (\<lambda>hs. Inr (h # hs)))"

definition flag_verifier :: "string list \<Rightarrow> verifier err" where
  "flag_verifier keys =
     (if keys = [] then Inl ''audit-verify: --key is required (kid=base64(secret))''
      else bind_err (key_hashers keys) (\<lambda>hs. case NewVerifier (map Some hs) of
          Inl e \<Rightarrow> Inl (''audit-verify: '' @ e)
        | Inr v \<Rightarrow> Inr v))"

section \<open>Reading the ledger\<close>

record json_entry =
  je_seq :: int
  je_ts :: int
  je_tenant :: string
  je_workload :: string
  je_actor :: string
  je_action :: int
  je_subject :: string
  je_payload :: string
  je_psha :: string
  je_prev :: string
  je_hash :: string
  je_kid :: string
  je_sig :: string

definition dec_uint8 :: "int decode" where
  "dec_uint8 j v = (case dec_uint j v of None \<Rightarrow> None | Some i \<Rightarrow> if i < 256 then Some i else None)"

definition zero_entry :: json_entry where
  "zero_entry = \<lparr>je_seq = 0, je_ts = 0, je_tenant = '''', je_workload = '''', je_actor = '''', je_action = 0, je_subject = '''',
     je_payload = '''', je_psha = '''', je_prev = '''', je_hash = '''', je_kid = '''', je_sig = ''''\<rparr>"

definition dec_entry :: "json_entry decode" where
  "dec_entry = dec_struct False
     [(''seq'', on_field je_seq je_seq_update dec_uint), (''ts_unix_nano'', on_field je_ts je_ts_update dec_uint),
      (''tenant_id'', on_field je_tenant je_tenant_update dec_string), (''agent_workload'', on_field je_workload je_workload_update dec_string),
      (''actor'', on_field je_actor je_actor_update dec_string), (''action'', on_field je_action je_action_update dec_uint8),
      (''subject_id'', on_field je_subject je_subject_update dec_string),
      (''payload_canonical_b64'', on_field je_payload je_payload_update dec_string),
      (''payload_sha256_hex'', on_field je_psha je_psha_update dec_string), (''prev_hash_hex'', on_field je_prev je_prev_update dec_string),
      (''entry_hash_hex'', on_field je_hash je_hash_update dec_string), (''signer_kid'', on_field je_kid je_kid_update dec_string),
      (''signature_hex'', on_field je_sig je_sig_update dec_string)]"

definition hex32 :: "string \<Rightarrow> string option" where
  "hex32 s = (case unhex_string s of None \<Rightarrow> None | Some b \<Rightarrow> if length b = 32 then Some b else None)"

definition jsonToEntry :: "json_entry \<Rightarrow> entry err" where
  "jsonToEntry je = (case base64_decode (je_payload je) of
       None \<Rightarrow> Inl ''payload_canonical_b64: illegal base64 data''
     | Some payload \<Rightarrow>
     (case hex32 (je_psha je) of None \<Rightarrow> Inl ''payload_sha256_hex: must be 32 bytes hex'' | Some psha \<Rightarrow>
     (case hex32 (je_prev je) of None \<Rightarrow> Inl ''prev_hash_hex: must be 32 bytes hex'' | Some prev \<Rightarrow>
     (case hex32 (je_hash je) of None \<Rightarrow> Inl ''entry_hash_hex: must be 32 bytes hex'' | Some hash \<Rightarrow>
     (case hex32 (je_sig je) of None \<Rightarrow> Inl ''signature_hex: must be 32 bytes hex'' | Some sig \<Rightarrow>
        Inr \<lparr>e_seq = word_of_int (je_seq je), e_ts = word_of_int (je_ts je), e_tenant = je_tenant je, e_workload = je_workload je,
          e_actor = je_actor je, e_action = word_of_int (je_action je), e_subject = je_subject je, e_payload = payload,
          e_psha = psha, e_prev = prev, e_hash = hash, e_kid = je_kid je, e_sig = sig\<rparr>)))))"

definition read_line :: "string \<Rightarrow> entry err" where
  "read_line line = (case Option.bind (parse_json line) (\<lambda>j. dec_entry j zero_entry) of
       None \<Rightarrow> Inl ''invalid JSON''
     | Some je \<Rightarrow> jsonToEntry je)"

text \<open>The number in an error is that of the entry, not of the line.\<close>

fun read_entries :: "string list \<Rightarrow> nat \<Rightarrow> entry list err" where
  "read_entries [] n = Inr []"
| "read_entries (l # ls) n =
     (let line = trim_space l in
      if line = '''' \<or> has_prefix line ''#'' then read_entries ls n
      else case read_line line of
          Inl e \<Rightarrow> Inl (''line '' @ itoa (int (n + 1)) @ '': '' @ e)
        | Inr x \<Rightarrow> bind_err (read_entries ls (n + 1)) (\<lambda>xs. Inr (x # xs)))"

definition readJSONL :: "(string \<Rightarrow> string err) \<Rightarrow> string \<Rightarrow> string \<Rightarrow> entry list err" where
  "readJSONL files stdin path =
     bind_err (if path = ''-'' then Inr stdin else files path) (\<lambda>s.
     bind_err (read_entries (fst (scan_lines s)) 0) (\<lambda>es.
       if snd (scan_lines s) then Inr es else Inl ''bufio.Scanner: token too long''))"

definition readClickHouse :: "entry list err" where
  "readClickHouse = Inl ''clickhouse source not built into this binary; rebuild with -tags clickhouse''"

section \<open>Reading the checkpoints\<close>

record checkpoint_json =
  cj_seq :: int
  cj_hash :: string
  cj_kid :: string
  cj_sig :: string
  cj_published :: string

definition dec_checkpoint :: "checkpoint_json decode" where
  "dec_checkpoint = dec_struct False
     [(''seq'', on_field cj_seq cj_seq_update dec_uint), (''entry_hash_hex'', on_field cj_hash cj_hash_update dec_string),
      (''signer_kid'', on_field cj_kid cj_kid_update dec_string), (''signature_hex'', on_field cj_sig cj_sig_update dec_string),
      (''published_to'', on_field cj_published cj_published_update dec_string)]"

definition read_checkpoint :: "string \<Rightarrow> checkpoint err" where
  "read_checkpoint line =
     (case Option.bind (parse_json line) (\<lambda>j. dec_checkpoint j \<lparr>cj_seq = 0, cj_hash = '''', cj_kid = '''', cj_sig = '''', cj_published = ''''\<rparr>) of
       None \<Rightarrow> Inl ''invalid JSON''
     | Some cj \<Rightarrow>
     (case hex32 (cj_hash cj) of None \<Rightarrow> Inl (''checkpoint seq='' @ itoa (cj_seq cj) @ '': bad entry_hash_hex'') | Some hash \<Rightarrow>
     (case hex32 (cj_sig cj) of None \<Rightarrow> Inl (''checkpoint seq='' @ itoa (cj_seq cj) @ '': bad signature_hex'') | Some sig \<Rightarrow>
        Inr \<lparr>ck_seq = word_of_int (cj_seq cj), ck_hash = hash, ck_kid = cj_kid cj, ck_sig = sig, ck_published = cj_published cj\<rparr>)))"

fun checkpoint_lines :: "string list \<Rightarrow> checkpoint list err" where
  "checkpoint_lines [] = Inr []"
| "checkpoint_lines (l # ls) =
     (let line = trim_space l in
      if line = '''' \<or> has_prefix line ''#'' then checkpoint_lines ls
      else bind_err (read_checkpoint line) (\<lambda>c. bind_err (checkpoint_lines ls) (\<lambda>cs. Inr (c # cs))))"

text \<open>A scanner with the default limit of 64 KiB.\<close>

definition short_lines :: "string \<Rightarrow> string list \<times> bool" where
  "short_lines s =
     (let parts = split_byte lf s;
          ls = (if List.last parts = [] then butlast parts else parts);
          good = takeWhile (\<lambda>l. length l < 2 ^ 16) ls
      in (map drop_cr good, length good = length ls))"

definition readCheckpoints :: "(string \<Rightarrow> string err) \<Rightarrow> string \<Rightarrow> checkpoint list err" where
  "readCheckpoints files path =
     bind_err (files path) (\<lambda>s. bind_err (checkpoint_lines (fst (short_lines s))) (\<lambda>cs.
       if snd (short_lines s) then Inr cs else Inl ''bufio.Scanner: token too long''))"

section \<open>The report and the exit code\<close>

definition report_ok :: "AuditChain.report \<Rightarrow> bool" where
  "report_ok r \<longleftrightarrow> rp_error r = None \<and> rp_cp_bad r = 0"

definition emitJSON :: "AuditChain.report \<Rightarrow> json" where
  "emitJSON r = JObj
     ([(''ok'', JBool (report_ok r)), (''total_entries'', JNum (itoa (int (rp_total r)))), (''ok_entries'', JNum (itoa (int (rp_ok r)))),
       (''head_seq'', JNum (itoa (uint (rp_head_seq r)))), (''head_entry_hash_hex'', JStr (hex (rp_head_hash r))),
       (''head_signer_kid'', JStr (rp_head_kid r)), (''checkpoints_ok'', JNum (itoa (int (rp_cp_ok r)))),
       (''checkpoints_bad'', JNum (itoa (int (rp_cp_bad r))))]
      @ (case rp_error r of None \<Rightarrow> [] | Some e \<Rightarrow>
          (if e = '''' then [] else [(''first_error'', JStr e)])
          @ (if rp_error_seq r = 0 then [] else [(''first_error_seq'', JNum (itoa (uint (rp_error_seq r))))])))"

definition emitHuman :: "AuditChain.report \<Rightarrow> string list" where
  "emitHuman r =
     [''=== Clawdlinux Audit Verification ==='', ''Total entries:   '' @ itoa (int (rp_total r)), ''OK entries:      '' @ itoa (int (rp_ok r)),
      ''Head seq:        '' @ itoa (uint (rp_head_seq r)), ''Head entry_hash: '' @ hex (rp_head_hash r),
      ''Head signer_kid: '' @ rp_head_kid r, ''Checkpoints OK:  '' @ itoa (int (rp_cp_ok r)),
      ''Checkpoints bad: '' @ itoa (int (rp_cp_bad r)), '''']
     @ (case rp_error r of
          Some e \<Rightarrow> [''FAIL at seq='' @ itoa (uint (rp_error_seq r)) @ '': '' @ e]
        | None \<Rightarrow> if rp_cp_bad r > 0 then [''FAIL: one or more checkpoints did not match the chain'']
            else [''PASS '' @ [CHR 0xE2, CHR 0x80, CHR 0x94] @ '' chain is intact and all checkpoints match.''])"

datatype verify_output = Stderr string | JsonReport json | TextReport "string list"

definition verify_source :: "verify_flags \<Rightarrow> (string \<Rightarrow> string err) \<Rightarrow> string \<Rightarrow> entry list err" where
  "verify_source f files stdin =
     (if vf_source f = ''jsonl'' then readJSONL files stdin (vf_path f)
      else if vf_source f = ''clickhouse'' then readClickHouse
      else Inl (''unknown source '' @ quote (vf_source f)))"

definition verify_checkpoints :: "verify_flags \<Rightarrow> (string \<Rightarrow> string err) \<Rightarrow> checkpoint list err" where
  "verify_checkpoints f files = (if vf_checkpoints f = '''' then Inr [] else readCheckpoints files (vf_checkpoints f))"

definition verify_run :: "verify_flags \<Rightarrow> (string \<Rightarrow> string err) \<Rightarrow> string \<Rightarrow> int \<times> verify_output" where
  "verify_run f files stdin = (case flag_verifier (vf_keys f) of
       Inl e \<Rightarrow> (2, Stderr e)
     | Inr v \<Rightarrow>
     (case verify_source f files stdin of
       Inl e \<Rightarrow> (2, Stderr (if vf_source f = ''jsonl'' \<or> vf_source f = ''clickhouse'' then ''audit-verify: read source: '' @ e
          else ''audit-verify: '' @ e))
     | Inr es \<Rightarrow>
     (case verify_checkpoints f files of
       Inl e \<Rightarrow> (2, Stderr (''audit-verify: read checkpoints: '' @ e))
     | Inr cps \<Rightarrow>
         (let r = VerifyCheckpoints es cps (Walk v (\<lambda>_. None) es)
          in (if rp_error r \<noteq> None \<or> rp_cp_bad r > 0 then 1 else 0,
              if vf_json f then JsonReport (emitJSON r) else TextReport (emitHuman r))))))"

section \<open>What the exit code says\<close>

lemma bind_err_is_Inr: "bind_err x f = Inr y \<longleftrightarrow> (\<exists>a. x = Inr a \<and> f a = Inr y)"
  by (cases x) (auto simp: bind_err_def)

lemma chain_numbers: "chain v k p es \<Longrightarrow> i < length es \<Longrightarrow> e_seq (es ! i) = of_nat (k + i + 1)"
proof (induction v k p es arbitrary: i rule: chain.induct)
  case (2 v k p e es)
  then show ?case by (cases i) (auto simp: algebra_simps)
qed simp

text \<open>Among the entries of a chain the one of a number is the one in its place.\<close>

lemma chain_lookup:
  assumes "chain v 0 p es" "length es < 2 ^ 64" "map_of (rev (map (\<lambda>e. (e_seq e, e)) es)) n = Some e"
  shows "\<exists>i < length es. e = es ! i \<and> unat n = i + 1"
proof -
  have "(n, e) \<in> set (map (\<lambda>e. (e_seq e, e)) es)" using map_of_SomeD [OF assms(3)] by simp
  then obtain i where i: "i < length es" "e = es ! i" "n = e_seq (es ! i)" by (auto simp: in_set_conv_nth)
  have "unat (of_nat (i + 1) :: 64 word) = i + 1"
    unfolding unat_of_nat using i(1) assms(2) by simp
  then have "unat n = i + 1" using chain_numbers [OF assms(1) i(1)] i(3) by simp
  then show ?thesis using i by blast
qed

lemma checkpoints_pass:
  "rp_cp_bad (VerifyCheckpoints es cps r) = 0 \<and> rp_error (VerifyCheckpoints es cps r) = None \<longleftrightarrow>
     rp_cp_bad r = 0 \<and> rp_error r = None
     \<and> (\<forall>cp\<in>set cps. \<exists>e. map_of (rev (map (\<lambda>e. (e_seq e, e)) es)) (ck_seq cp) = Some e \<and> e_hash e = ck_hash cp)"
proof -
  let ?m = "map_of (rev (map (\<lambda>e. (e_seq e, e)) es))"
  have step: "rp_cp_bad (check_checkpoint ?m cp r) = 0 \<and> rp_error (check_checkpoint ?m cp r) = None \<longleftrightarrow>
      rp_cp_bad r = 0 \<and> rp_error r = None \<and> (\<exists>e. ?m (ck_seq cp) = Some e \<and> e_hash e = ck_hash cp)" for cp r
    by (auto simp: check_checkpoint_def bad_checkpoint_def Let_def split: option.splits)
  have "rp_cp_bad (fold (check_checkpoint ?m) cps r) = 0 \<and> rp_error (fold (check_checkpoint ?m) cps r) = None \<longleftrightarrow>
      rp_cp_bad r = 0 \<and> rp_error r = None \<and> (\<forall>cp\<in>set cps. \<exists>e. ?m (ck_seq cp) = Some e \<and> e_hash e = ck_hash cp)" for r
  proof (induction cps arbitrary: r)
    case (Cons cp cps)
    show ?case using Cons.IH [of "check_checkpoint ?m cp r"] step [of cp r] by simp blast
  qed simp
  then show ?thesis by (simp add: VerifyCheckpoints_def Let_def)
qed

lemma walk_no_bad: "rp_cp_bad (walk_loop v ctx i p es r) = rp_cp_bad r"
  by (induction es arbitrary: i p r) (auto split: option.splits)

lemma verify_run_zero:
  "fst (verify_run f files stdin) = 0 \<longleftrightarrow>
     (\<exists>v es cps. flag_verifier (vf_keys f) = Inr v \<and> vf_source f = ''jsonl'' \<and> readJSONL files stdin (vf_path f) = Inr es
        \<and> verify_checkpoints f files = Inr cps \<and> chain v 0 zero32 es
        \<and> (\<forall>cp\<in>set cps. \<exists>e. map_of (rev (map (\<lambda>e. (e_seq e, e)) es)) (ck_seq cp) = Some e \<and> e_hash e = ck_hash cp))"
proof -
  have w: "rp_cp_bad (Walk v ctx es) = 0" for v ctx es by (simp add: Walk_def walk_no_bad empty_report_def)
  have c: "rp_error (Walk v (\<lambda>_. None) es) = None \<longleftrightarrow> chain v 0 zero32 es" for v es by (rule Walk_chain(1)) simp
  have s: "verify_source f files stdin = Inr es \<longleftrightarrow> vf_source f = ''jsonl'' \<and> readJSONL files stdin (vf_path f) = Inr es" for es
    by (simp add: verify_source_def readClickHouse_def)
  have "fst (verify_run f files stdin) = 0 \<longleftrightarrow> (\<exists>v es cps. flag_verifier (vf_keys f) = Inr v \<and> verify_source f files stdin = Inr es
      \<and> verify_checkpoints f files = Inr cps \<and> rp_cp_bad (VerifyCheckpoints es cps (Walk v (\<lambda>_. None) es)) = 0
      \<and> rp_error (VerifyCheckpoints es cps (Walk v (\<lambda>_. None) es)) = None)"
    by (auto simp: verify_run_def Let_def split: sum.splits)
  then show ?thesis unfolding checkpoints_pass s w c by auto
qed

lemma prefix_pinned:
  assumes "chain v 0 zero32 es" "length es < 2 ^ 64"
    and "map_of (rev (map (\<lambda>e. (e_seq e, e)) es)) n = Some e" "e_hash e = h"
    and "ledger \<noteq> []" "rp_error (Walk v' (\<lambda>_. None) ledger) = None" "length ledger = unat n"
    and "rp_head_hash (Walk v' (\<lambda>_. None) ledger) = h" "\<forall>e\<in>set es \<union> set ledger. length (e_tenant e) < 2 ^ 32
       \<and> length (e_workload e) < 2 ^ 32 \<and> length (e_actor e) < 2 ^ 32 \<and> length (e_subject e) < 2 ^ 32"
  shows "length ledger \<le> length es \<and> (list_all2 same_content (take (length ledger) es) ledger
     \<or> (\<exists>(a, b)\<in>set (zip (take (length ledger) es) ledger). entry_collision a b))"
proof -
  obtain i where i: "i < length es" "e = es ! i" "unat n = i + 1" using chain_lookup [OF assms(1-3)] by blast
  let ?t = "take (length ledger) es"
  have t: "?t = take i es @ [es ! i]" using i assms(7) by (simp add: take_Suc_conv_app_nth)
  have ct: "chain v 0 zero32 ?t" using assms(1) chain_append [of v 0 zero32 ?t "drop (length ledger) es"] by simp
  have cl: "chain v' 0 zero32 ledger" using assms(6) Walk_chain(1) [of "\<lambda>_. None" v' ledger] by simp
  have "last_hash zero32 ledger = h"
    using Walk_chain(3) [of "\<lambda>_. None" v' ledger] cl assms(5,8) by (simp add: last_hash_def)
  then have "last_hash zero32 ?t = last_hash zero32 ledger" using i assms(4) by (simp add: t)
  moreover have "\<forall>e\<in>set ?t \<union> set ledger. short_entry e"
  proof
    fix e
    assume e: "e \<in> set ?t \<union> set ledger"
    then have "e \<in> set es \<union> set ledger" using set_take_subset by fastforce
    moreover have "length (e_prev e) = 32 \<and> length (e_psha e) = 32"
      using e chain_lengths [OF ct] chain_lengths [OF cl] by (auto simp: zero32_def)
    ultimately show "short_entry e" using assms(9) by (simp add: short_entry_def)
  qed
  moreover have "length ?t = length ledger" using i assms(7) by simp
  ultimately show ?thesis using chains_equal [OF _ ct cl] i assms(7) by auto
qed

text \<open>C37: What a passing run of audit-verify says. With exit code 0 every line was read, the entries are one chain signed under the
  keys of the flags, and whatever ledger was the genuine one when a checkpoint of the file was published - it passed the
  walk under its own keys, with the number and the hash of the checkpoint at its head - the presented entries begin with
  exactly that ledger, entry by entry in every recorded field, or a SHA-256 collision is among them. The keys that sign the
  presented entries do not have to be kept secret for that. (Entries are fewer than 2 to the 64, their texts shorter than
  4 GiB.)\<close>

theorem audit_pass_pins_ledger:
  assumes "fst (verify_run f files stdin) = 0"
  shows "\<exists>v es cps. flag_verifier (vf_keys f) = Inr v \<and> readJSONL files stdin (vf_path f) = Inr es
    \<and> verify_checkpoints f files = Inr cps \<and> chain v 0 zero32 es
    \<and> (\<forall>cp\<in>set cps. \<forall>v' ledger. length es < 2 ^ 64 \<and> ledger \<noteq> [] \<and> rp_error (Walk v' (\<lambda>_. None) ledger) = None
        \<and> length ledger = unat (ck_seq cp) \<and> rp_head_hash (Walk v' (\<lambda>_. None) ledger) = ck_hash cp
        \<and> (\<forall>e\<in>set es \<union> set ledger. length (e_tenant e) < 2 ^ 32 \<and> length (e_workload e) < 2 ^ 32
             \<and> length (e_actor e) < 2 ^ 32 \<and> length (e_subject e) < 2 ^ 32)
        \<longrightarrow> length ledger \<le> length es \<and> (list_all2 same_content (take (length ledger) es) ledger
              \<or> (\<exists>(a, b)\<in>set (zip (take (length ledger) es) ledger). entry_collision a b)))"
proof -
  obtain v es cps where r: "flag_verifier (vf_keys f) = Inr v" "readJSONL files stdin (vf_path f) = Inr es"
    "verify_checkpoints f files = Inr cps" and c: "chain v 0 zero32 es"
    and m: "\<forall>cp\<in>set cps. \<exists>e. map_of (rev (map (\<lambda>e. (e_seq e, e)) es)) (ck_seq cp) = Some e \<and> e_hash e = ck_hash cp"
    using assms unfolding verify_run_zero by blast
  show ?thesis
  proof (intro exI conjI ballI allI impI)
    fix cp v' ledger
    assume "cp \<in> set cps" and h: "length es < 2 ^ 64 \<and> ledger \<noteq> [] \<and> rp_error (Walk v' (\<lambda>_. None) ledger) = None
        \<and> length ledger = unat (ck_seq cp) \<and> rp_head_hash (Walk v' (\<lambda>_. None) ledger) = ck_hash cp
        \<and> (\<forall>e\<in>set es \<union> set ledger. length (e_tenant e) < 2 ^ 32 \<and> length (e_workload e) < 2 ^ 32
             \<and> length (e_actor e) < 2 ^ 32 \<and> length (e_subject e) < 2 ^ 32)"
    then obtain e where "map_of (rev (map (\<lambda>e. (e_seq e, e)) es)) (ck_seq cp) = Some e" "e_hash e = ck_hash cp" using m by blast
    note e = this
    have "length ledger \<le> length es \<and> (list_all2 same_content (take (length ledger) es) ledger
        \<or> (\<exists>(a, b)\<in>set (zip (take (length ledger) es) ledger). entry_collision a b))"
      by (rule prefix_pinned [OF c _ e]) (use h in blast)+
    then show "length ledger \<le> length es" "list_all2 same_content (take (length ledger) es) ledger
        \<or> (\<exists>(a, b)\<in>set (zip (take (length ledger) es) ledger). entry_collision a b)" by blast+
  qed (fact r c)+
qed

section \<open>A written ledger\<close>

definition b64_digit :: "nat \<Rightarrow> char" where
  "b64_digit n = char_of (if n < 26 then n + 65 else if n < 52 then n + 71 else if n < 62 then n - 4 else if n = 62 then 43 else 47 :: nat)"

fun base64_encode :: "string \<Rightarrow> string" where
  "base64_encode [] = []"
| "base64_encode [a] = [b64_digit (byte a div 4), b64_digit (16 * (byte a mod 4)), CHR ''='', CHR ''='']"
| "base64_encode [a, b] = [b64_digit (byte a div 4), b64_digit (16 * (byte a mod 4) + byte b div 16), b64_digit (4 * (byte b mod 16)), CHR ''='']"
| "base64_encode (a # b # c # s) = [b64_digit (byte a div 4), b64_digit (16 * (byte a mod 4) + byte b div 16),
     b64_digit (4 * (byte b mod 16) + byte c div 64), b64_digit (byte c mod 64)] @ base64_encode s"

lemma b64_digit_less:
  assumes "n < 64"
  shows "b64_val (b64_digit n) = Some n \<and> b64_digit n \<noteq> CHR ''='' \<and> b64_digit n \<noteq> CHR 0x0A \<and> b64_digit n \<noteq> CHR 0x0D"
proof -
  have c: "char_of m = (d :: char) \<longleftrightarrow> m mod 256 = byte d" for m :: nat and d
    by (simp add: char_of_eq_iff take_bit_eq_mod)
  show ?thesis using assms by (auto simp: b64_digit_def b64_val_def is_digit_def c of_char_of Let_def)
qed

lemma byte_parts: "byte c div 4 < 64" "byte c div 16 < 16" "byte c div 64 < 4"
  using nat_of_char_less_256 [of c] less_mult_imp_div_less [of "byte c" 64 4] less_mult_imp_div_less [of "byte c" 16 16]
    less_mult_imp_div_less [of "byte c" 4 64] by simp_all

lemma b64_split:
  "byte a div 4 < 64" "16 * (byte a mod 4) < 64" "16 * (byte a mod 4) + byte b div 16 < 64" "4 * (byte b mod 16) < 64"
  "4 * (byte b mod 16) + byte c div 64 < 64" "byte c mod 64 < 64"
proof -
  have "byte a mod 4 < 4" "byte b mod 16 < 16" by simp_all
  then show "byte a div 4 < 64" "16 * (byte a mod 4) < 64" "16 * (byte a mod 4) + byte b div 16 < 64" "4 * (byte b mod 16) < 64"
    "4 * (byte b mod 16) + byte c div 64 < 64" "byte c mod 64 < 64"
    using byte_parts [of a] byte_parts [of b] byte_parts [of c] by linarith+
qed

lemma b64_join:
  "b64_bytes (byte a div 4) (16 * (byte a mod 4) + byte b div 16) (4 * (byte b mod 16) + byte c div 64) (byte c mod 64) = [a, b, c]"
  "take 2 (b64_bytes (byte a div 4) (16 * (byte a mod 4) + byte b div 16) (4 * (byte b mod 16)) 0) = [a, b]"
  "take 1 (b64_bytes (byte a div 4) (16 * (byte a mod 4)) 0 0) = [a]"
proof -
  have d: "byte b div 16 < 16" "byte c div 64 < 4" by (rule byte_parts)+
  have r: "char_of (4 * (byte x div 4) + byte x mod 4) = x" "char_of (16 * (byte x div 16) + byte x mod 16) = x"
    "char_of (64 * (byte x div 64) + byte x mod 64) = x" for x by simp_all
  show "b64_bytes (byte a div 4) (16 * (byte a mod 4) + byte b div 16) (4 * (byte b mod 16) + byte c div 64) (byte c mod 64) = [a, b, c]"
    "take 2 (b64_bytes (byte a div 4) (16 * (byte a mod 4) + byte b div 16) (4 * (byte b mod 16)) 0) = [a, b]"
    "take 1 (b64_bytes (byte a div 4) (16 * (byte a mod 4)) 0 0) = [a]"
    using r d by (simp_all add: b64_bytes_def numeral_2_eq_2)
qed

lemma b64_groups_encode: "b64_groups (base64_encode s) = Some s"
  by (induction s rule: base64_encode.induct) (simp_all add: b64_digit_less b64_split b64_join del: take_Suc_Cons One_nat_def)

lemma base64_clean: "filter (\<lambda>c. c \<noteq> CHR 0x0A \<and> c \<noteq> CHR 0x0D) (base64_encode s) = base64_encode s"
  by (induction s rule: base64_encode.induct) (simp_all add: b64_digit_less b64_split)

lemma base64_roundtrip: "base64_decode (base64_encode s) = Some s"
  by (simp add: base64_decode_def base64_clean b64_groups_encode)

text \<open>One line of an export, in the format the command reads.\<close>

definition entry_json :: "entry \<Rightarrow> json" where
  "entry_json e = JObj [(''seq'', jint (uint (e_seq e))), (''ts_unix_nano'', jint (uint (e_ts e))), (''tenant_id'', JStr (e_tenant e)),
     (''agent_workload'', JStr (e_workload e)), (''actor'', JStr (e_actor e)), (''action'', jint (uint (e_action e))),
     (''subject_id'', JStr (e_subject e)), (''payload_canonical_b64'', JStr (base64_encode (e_payload e))),
     (''payload_sha256_hex'', JStr (hex (e_psha e))), (''prev_hash_hex'', JStr (hex (e_prev e))),
     (''entry_hash_hex'', JStr (hex (e_hash e))), (''signer_kid'', JStr (e_kid e)), (''signature_hex'', JStr (hex (e_sig e)))]"

definition dump_line :: "entry \<Rightarrow> string" where
  "dump_line e = enc_json (entry_json e)"

definition writable :: "entry \<Rightarrow> bool" where
  "writable e \<longleftrightarrow> valid_utf8 (e_tenant e) \<and> valid_utf8 (e_workload e) \<and> valid_utf8 (e_actor e) \<and> valid_utf8 (e_subject e)
     \<and> valid_utf8 (e_kid e) \<and> length (e_psha e) = 32 \<and> length (e_prev e) = 32 \<and> length (e_hash e) = 32 \<and> length (e_sig e) = 32"

lemma valid_hex: "valid_utf8 (hex s)"
  using hex_ascii by (intro valid_utf8_ascii) blast

lemma b64_digit_ascii: "n < 64 \<Longrightarrow> byte (b64_digit n) < 128"
  by (auto simp: b64_digit_def of_char_of)

lemma valid_base64: "valid_utf8 (base64_encode s)"
proof (intro valid_utf8_ascii)
  fix c
  show "c \<in> set (base64_encode s) \<Longrightarrow> byte c < 128"
    by (induction s rule: base64_encode.induct) (auto simp: b64_digit_ascii b64_split)
qed

lemma entry_json_wf: "writable e \<Longrightarrow> wf_json (entry_json e)"
proof -
  have n: "number_text (itoa i)" for i using itoa_shape number_shape_text by blast
  show "writable e \<Longrightarrow> wf_json (entry_json e)"
    by (auto simp: entry_json_def writable_def jint_def n valid_hex valid_base64 intro!: valid_utf8_ascii)
qed

lemma dec_uint_word: "dec_uint (jint (uint (w :: 64 word))) v = Some (uint w)"
  using uint_lt2p [of w] by (intro dec_uint_jint) simp_all

lemma dec_uint8_word: "dec_uint8 (jint (uint (w :: 8 word))) v = Some (uint w)"
proof -
  have "uint w < 256" using uint_lt2p [of w] by simp
  moreover have "dec_uint (jint (uint w)) v = Some (uint w)" using calculation by (intro dec_uint_jint) simp_all
  ultimately show ?thesis by (simp add: dec_uint8_def)
qed

lemma hex32_hex: "length b = 32 \<Longrightarrow> hex32 (hex b) = Some b"
  by (simp add: hex32_def unhex_hex)

lemma decode_entry_dump:
  "dec_entry (entry_json e) zero_entry = Some \<lparr>je_seq = uint (e_seq e), je_ts = uint (e_ts e), je_tenant = e_tenant e,
     je_workload = e_workload e, je_actor = e_actor e, je_action = uint (e_action e), je_subject = e_subject e,
     je_payload = base64_encode (e_payload e), je_psha = hex (e_psha e), je_prev = hex (e_prev e), je_hash = hex (e_hash e),
     je_kid = e_kid e, je_sig = hex (e_sig e)\<rparr>"
  by (simp add: dec_entry_def entry_json_def zero_entry_def dec_members_field dec_uint_word dec_uint8_word)

lemma read_dump_line: "writable e \<Longrightarrow> read_line (dump_line e) = Inr e"
  by (simp add: read_line_def dump_line_def parse_enc_json entry_json_wf decode_entry_dump jsonToEntry_def base64_roundtrip
      hex32_hex writable_def del: enc_json.simps)

lemma dump_line_kept:
  "drop_cr (dump_line e) = dump_line e \<and> trim_space (dump_line e) = dump_line e \<and> dump_line e \<noteq> [] \<and> \<not> has_prefix (dump_line e) ''#''"
proof -
  obtain s where s: "dump_line e = ''{'' @ s @ ''}''" by (metis dump_line_def entry_json_def enc_json_obj)
  show ?thesis unfolding s using trim_braces [of s] by (simp add: drop_cr_def has_prefix_def)
qed

text \<open>The lines of a ledger read back as the ledger.\<close>

lemma read_dump:
  assumes "list_all writable es" "list_all (\<lambda>e. length (dump_line e) < 2 ^ 24) es"
  shows "readJSONL (\<lambda>_. Inr (file_of (map dump_line es) [])) stdin ''l'' = Inr es"
proof -
  have r: "list_all writable es \<Longrightarrow> read_entries (map dump_line es) n = Inr es" for n
    by (induction es arbitrary: n) (simp_all add: dump_line_kept read_dump_line bind_err_def)
  define ls where "ls = map dump_line es"
  have lf: "list_all (\<lambda>l. lf \<notin> set l) ls"
    using assms(1) enc_json_no_lf entry_json_wf by (auto simp: list_all_iff ls_def dump_line_def simp del: enc_json.simps)
  have p: "split_byte lf (file_of ls []) = ls @ [[]]" using split_file [OF lf, of "[]"] by simp
  have t: "takeWhile (\<lambda>l. length l < 2 ^ 24) ls = ls"
    using assms(2) by (subst takeWhile_eq_all_conv) (simp add: list_all_iff ls_def)
  have "map drop_cr ls = ls" by (simp add: ls_def dump_line_kept)
  then have s: "scan_lines (file_of (map dump_line es) []) = (map dump_line es, True)"
    unfolding scan_lines_def Let_def ls_def [symmetric] p by (simp only: last_snoc butlast_snoc if_True simp_thms t)
  show ?thesis by (simp add: readJSONL_def s r [OF assms(1)] bind_err_def)
qed

definition checkpoint_of :: "entry \<Rightarrow> checkpoint" where
  "checkpoint_of e = \<lparr>ck_seq = e_seq e, ck_hash = e_hash e, ck_kid = e_kid e, ck_sig = e_sig e, ck_published = ''configmap''\<rparr>"

definition checkpoint_line :: "entry \<Rightarrow> string" where
  "checkpoint_line e = enc_json (JObj [(''seq'', jint (uint (e_seq e))), (''entry_hash_hex'', JStr (hex (e_hash e))),
     (''signer_kid'', JStr (e_kid e)), (''signature_hex'', JStr (hex (e_sig e))), (''published_to'', JStr ''configmap'')])"

lemma read_checkpoint_line: "writable e \<Longrightarrow> read_checkpoint (checkpoint_line e) = Inr (checkpoint_of e)"
proof -
  assume w: "writable e"
  let ?j = "JObj [(''seq'', jint (uint (e_seq e))), (''entry_hash_hex'', JStr (hex (e_hash e))),
     (''signer_kid'', JStr (e_kid e)), (''signature_hex'', JStr (hex (e_sig e))), (''published_to'', JStr ''configmap'')]"
  have "number_text (itoa i)" for i using itoa_shape number_shape_text by blast
  then have "wf_json ?j" using w by (auto simp: writable_def jint_def valid_hex intro!: valid_utf8_ascii)
  then have "parse_json (checkpoint_line e) = Some ?j" unfolding checkpoint_line_def by (rule parse_enc_json)
  then show ?thesis
    using w by (simp add: read_checkpoint_def dec_checkpoint_def dec_members_field dec_uint_word hex32_hex writable_def checkpoint_of_def)
qed

lemma checkpoint_line_kept:
  "drop_cr (checkpoint_line e) = checkpoint_line e \<and> trim_space (checkpoint_line e) = checkpoint_line e \<and> checkpoint_line e \<noteq> []
     \<and> \<not> has_prefix (checkpoint_line e) ''#''"
proof -
  obtain s where s: "checkpoint_line e = ''{'' @ s @ ''}''" by (metis checkpoint_line_def enc_json_obj)
  show ?thesis unfolding s using trim_braces [of s] by (simp add: drop_cr_def has_prefix_def)
qed

lemma read_one_checkpoint:
  assumes "writable e" "length (checkpoint_line e) < 2 ^ 16" "lf \<notin> set (checkpoint_line e)"
  shows "readCheckpoints (\<lambda>_. Inr (checkpoint_line e @ [lf])) path = Inr [checkpoint_of e]"
proof -
  have "split_byte lf (checkpoint_line e @ [lf]) = [checkpoint_line e, []]" using split_no_lf [OF assms(3), of "[]"] by simp
  then have "short_lines (checkpoint_line e @ [lf]) = ([checkpoint_line e], True)"
    using assms(2) by (simp add: short_lines_def checkpoint_line_kept)
  then show ?thesis by (simp add: readCheckpoints_def bind_err_def checkpoint_line_kept read_checkpoint_line [OF assms(1)])
qed

text \<open>A bound on the length of a line.\<close>

lemma length_enc_chars_le: "length (enc_chars s) \<le> 6 * length s"
proof (induction s rule: enc_chars.induct)
  case (1 s)
  show ?case
  proof (cases s)
    case (Cons c u)
    have esc: "length (escape_ascii c) \<le> 6" "length (u_escape n) = 6" for n by (auto simp: escape_ascii_def u_escape_def)
    have IH: "length (enc_chars u) \<le> 6 * length u" if "byte c < 128 \<or> utf8_len s = 0" using that 1(1,2) [OF Cons] by blast
    have d: "length (enc_chars (drop 3 s)) \<le> 6 * (length s - 3)"
      if "\<not> byte c < 128" "utf8_len s \<noteq> 0" "has_prefix s [CHR 0xE2, CHR 0x80, CHR 0xA8] \<or> has_prefix s [CHR 0xE2, CHR 0x80, CHR 0xA9]"
      using that 1(3,4) [OF Cons] by fastforce
    have u: "length (enc_chars (drop (utf8_len s) s)) \<le> 6 * (length s - utf8_len s)"
      if "\<not> byte c < 128" "utf8_len s \<noteq> 0" "\<not> has_prefix s [CHR 0xE2, CHR 0x80, CHR 0xA8]" "\<not> has_prefix s [CHR 0xE2, CHR 0x80, CHR 0xA9]"
      using that 1(5) [OF Cons] by fastforce
    have three: "has_prefix s [a, b, x] \<Longrightarrow> 3 \<le> length s" for a b x by (auto simp: has_prefix_def dest: arg_cong [of _ _ length])
    show ?thesis
      using IH d u esc three utf8_len_bounds [of s] enc_chars.simps [of s] Cons
      by (auto simp del: utf8_len.simps split: if_splits)
  qed (simp add: enc_chars.simps)
qed

definition scalar_bound :: "json \<Rightarrow> nat" where
  "scalar_bound j = (case j of JStr s \<Rightarrow> 6 * length s + 6 | JNum n \<Rightarrow> length n + 6 | _ \<Rightarrow> 0)"

lemma length_scalar_obj:
  assumes "list_all (\<lambda>p. scalar_bound (snd p) \<noteq> 0) m"
  shows "length (enc_json (JObj m)) \<le> 2 + sum_list (map (\<lambda>p. 6 * length (fst p) + scalar_bound (snd p)) m)"
proof -
  have p: "length (enc_pair p) + 1 \<le> 6 * length (fst p) + scalar_bound (snd p)" if "scalar_bound (snd p) \<noteq> 0" for p
    using that length_enc_chars_le [of "fst p"] length_enc_chars_le [of "case snd p of JStr s \<Rightarrow> s | _ \<Rightarrow> ''''"]
    by (cases "snd p") (auto simp: scalar_bound_def enc_pair_def enc_string_def)
  have "length (join '','' (map enc_pair m)) \<le> sum_list (map (\<lambda>p. 6 * length (fst p) + scalar_bound (snd p)) m)"
    using assms
  proof (induction m rule: induct_list012)
    case (2 q)
    then show ?case using p [of q] by simp
  next
    case (3 q r m)
    then show ?case using p [of q] by simp
  qed simp
  then show ?thesis by (simp only: enc_json_obj length_append list.size)
qed

text \<open>The ledger of one recorded entry, its checkpoint and the key.\<close>

definition wit_recorded :: entry where
  "wit_recorded = next_entry \<lparr>rec_hasher = wit_hasher, rec_seq = 0, rec_hash = zero32\<rparr> 5 wit_entry"

definition wit_key_flag :: string where
  "wit_key_flag = ''k1='' @ concat (replicate 10 ''eHh4'') @ ''eHg=''"

definition wit_flags :: verify_flags where
  "wit_flags = \<lparr>vf_source = ''jsonl'', vf_path = ''l'', vf_keys = [wit_key_flag], vf_checkpoints = ''c'', vf_json = False\<rparr>"

definition wit_files :: "string \<Rightarrow> string err" where
  "wit_files p = Inr (if p = ''l'' then file_of [dump_line wit_recorded] [] else checkpoint_line wit_recorded @ [lf])"

lemma wit_run_recorded: "snd (audit_run wit_hasher [EvAppend 5 wit_entry]) = [wit_recorded]"
  by (simp add: audit_run_def AuditChain.Append_def mem_Append_def Let_def wit_recorded_def next_entry_def hash_entry_def)

lemma wit_recorded_chain: "chain [''k1'' \<mapsto> wit_hasher] 0 zero32 [wit_recorded]"
proof -
  have "memory.linked [''k1'' \<mapsto> wit_hasher] (fst (audit_run wit_hasher [EvAppend 5 wit_entry])) (snd (audit_run wit_hasher [EvAppend 5 wit_entry]))"
    by (rule audit_run_linked) (simp_all add: wit_hasher_def)
  then show ?thesis by (simp add: memory.linked_def wit_run_recorded)
qed

lemma wit_recorded_fields: "e_seq wit_recorded = 1" "e_ts wit_recorded = 5" "e_tenant wit_recorded = ''t''" "e_workload wit_recorded = ''w''"
  "e_actor wit_recorded = ''system''" "e_action wit_recorded = 2" "e_subject wit_recorded = ''s''" "e_payload wit_recorded = ''{}''"
  "e_kid wit_recorded = ''k1''" "length (e_psha wit_recorded) = 32" "length (e_prev wit_recorded) = 32"
  "length (e_hash wit_recorded) = 32" "length (e_sig wit_recorded) = 32"
  by (simp_all add: wit_recorded_def next_entry_def hash_entry_def Let_def wit_entry_def wit_hasher_def ActionToolCall_def
      computeEntryHash_def zero32_def)

lemma wit_writable: "writable wit_recorded"
  by (simp add: writable_def wit_recorded_fields) (auto intro!: valid_utf8_ascii)

lemma wit_lengths: "length (dump_line wit_recorded) < 2 ^ 16" "length (checkpoint_line wit_recorded) < 2 ^ 16"
proof -
  have n: "itoa 1 = ''1''" "itoa 5 = ''5''" "itoa 2 = ''2''" "base64_encode ''{}'' = ''e30=''" by code_simp+
  have "length (dump_line wit_recorded) \<le> 4000"
    unfolding dump_line_def entry_json_def
    by (rule order_trans [OF length_scalar_obj]) (simp_all add: scalar_bound_def jint_def wit_recorded_fields n)
  moreover have "length (checkpoint_line wit_recorded) \<le> 4000"
    unfolding checkpoint_line_def
    by (rule order_trans [OF length_scalar_obj]) (simp_all add: scalar_bound_def jint_def wit_recorded_fields n)
  ultimately show "length (dump_line wit_recorded) < 2 ^ 16" "length (checkpoint_line wit_recorded) < 2 ^ 16" by simp_all
qed

lemma wit_verifier: "flag_verifier [wit_key_flag] = Inr [''k1'' \<mapsto> wit_hasher]"
proof -
  have c: "cut wit_key_flag ''='' = Some (''k1'', concat (replicate 10 ''eHh4'') @ ''eHg='')" by code_simp
  have "base64_decode (concat (replicate 10 ''eHh4'') @ ''eHg='') = Some (replicate 32 CHR ''x'')" by code_simp
  then have "key_hasher wit_key_flag = Inr wit_hasher" by (simp add: key_hasher_def c NewChainHasher_def wit_hasher_def)
  then show ?thesis by (simp add: flag_verifier_def bind_err_def NewVerifier_def wit_hasher_def)
qed

lemma wit_reads:
  "readJSONL wit_files [] ''l'' = Inr [wit_recorded]" "readCheckpoints wit_files ''c'' = Inr [checkpoint_of wit_recorded]"
proof -
  have "readJSONL wit_files [] ''l'' = readJSONL (\<lambda>_. Inr (file_of (map dump_line [wit_recorded]) [])) [] ''l''"
    by (simp add: readJSONL_def wit_files_def)
  also have "\<dots> = Inr [wit_recorded]" using wit_writable wit_lengths(1) by (intro read_dump) simp_all
  finally show "readJSONL wit_files [] ''l'' = Inr [wit_recorded]" .
  have "wf_json (JObj [(''seq'', jint (uint (e_seq wit_recorded))), (''entry_hash_hex'', JStr (hex (e_hash wit_recorded))),
     (''signer_kid'', JStr (e_kid wit_recorded)), (''signature_hex'', JStr (hex (e_sig wit_recorded))), (''published_to'', JStr ''configmap'')])"
    using number_shape_text itoa_shape by (auto simp: jint_def valid_hex wit_recorded_fields intro!: valid_utf8_ascii)
  then have "lf \<notin> set (checkpoint_line wit_recorded)" unfolding checkpoint_line_def by (rule enc_json_no_lf)
  from read_one_checkpoint [OF wit_writable wit_lengths(2) this, of "''c''"]
  show "readCheckpoints wit_files ''c'' = Inr [checkpoint_of wit_recorded]" by (simp add: readCheckpoints_def wit_files_def)
qed

lemma audit_pass_pins_ledger_witness:
  "fst (verify_run wit_flags wit_files []) = 0
   \<and> (\<exists>es. readJSONL wit_files [] ''l'' = Inr es \<and> (list_all2 same_content (take 1 es) [wit_recorded]
        \<or> (\<exists>(a, b)\<in>set (zip (take 1 es) [wit_recorded]). entry_collision a b)))"
proof -
  have run: "fst (verify_run wit_flags wit_files []) = 0"
    unfolding verify_run_zero
    by (simp add: wit_flags_def wit_verifier wit_reads verify_checkpoints_def wit_recorded_chain checkpoint_of_def del: chain.simps)
  have w: "rp_error (Walk [''k1'' \<mapsto> wit_hasher] (\<lambda>_. None) [wit_recorded]) = None"
    "rp_head_hash (Walk [''k1'' \<mapsto> wit_hasher] (\<lambda>_. None) [wit_recorded]) = e_hash wit_recorded"
    using Walk_chain(1,3) [of "\<lambda>_. None" "[''k1'' \<mapsto> wit_hasher]" "[wit_recorded]"] wit_recorded_chain by simp_all
  obtain es cps where e: "readJSONL wit_files [] ''l'' = Inr es" "verify_checkpoints wit_flags wit_files = Inr cps"
    and pins: "\<forall>cp\<in>set cps. \<forall>v' ledger. length es < 2 ^ 64 \<and> ledger \<noteq> [] \<and> rp_error (Walk v' (\<lambda>_. None) ledger) = None
        \<and> length ledger = unat (ck_seq cp) \<and> rp_head_hash (Walk v' (\<lambda>_. None) ledger) = ck_hash cp
        \<and> (\<forall>e\<in>set es \<union> set ledger. length (e_tenant e) < 2 ^ 32 \<and> length (e_workload e) < 2 ^ 32
             \<and> length (e_actor e) < 2 ^ 32 \<and> length (e_subject e) < 2 ^ 32)
        \<longrightarrow> length ledger \<le> length es \<and> (list_all2 same_content (take (length ledger) es) ledger
              \<or> (\<exists>(a, b)\<in>set (zip (take (length ledger) es) ledger). entry_collision a b))"
    using audit_pass_pins_ledger [OF run] by (auto simp: wit_flags_def)
  have "es = [wit_recorded]" "cps = [checkpoint_of wit_recorded]"
    using e by (simp_all add: wit_reads verify_checkpoints_def wit_flags_def)
  then show ?thesis
    using run e(1) pins [rule_format, of "checkpoint_of wit_recorded" "[wit_recorded]" "[''k1'' \<mapsto> wit_hasher]"] w
    by (simp add: checkpoint_of_def wit_recorded_fields)
qed

end
