(* ===== verification/Startup.thy ===== *)
theory Startup
  imports Webhook ReceiptService Tenancy Scorers
begin

text \<open>
  cmd/main.go: what the operator makes of its environment before it serves: the receipt writer, the approval key that the
  controller and the webhook share, the decision model and the tenants. The flags, the manager and its servers are left out.
  A file is its content or an error; the decoder of a model artifact is a parameter.
\<close>

section \<open>The parts\<close>

definition dataset_NewRemote :: "(string \<Rightarrow> string) \<Rightarrow> string \<Rightarrow> bool" where
  "dataset_NewRemote scheme baseURL = (case url_host baseURL of
       None \<Rightarrow> False
     | Some h \<Rightarrow> (scheme baseURL = ''http'' \<or> scheme baseURL = ''https'') \<and> h \<noteq> '''')"

definition MaxArtifactBytes :: nat where "MaxArtifactBytes = 1024 * 1024"

definition learned_Load :: "(string \<Rightarrow> string err) \<Rightarrow> (string \<Rightarrow> model err) \<Rightarrow> string \<Rightarrow> model err" where
  "learned_Load read_file parse path = (case read_file path of
       Inl e \<Rightarrow> Inl e
     | Inr d \<Rightarrow> if length d > MaxArtifactBytes
         then Inl (''learned: invalid artifact: larger than '' @ itoa (int MaxArtifactBytes) @ '' bytes'') else parse d)"

record receipts_wiring =
  wr_enabled :: bool
  wr_required :: bool
  wr_writer :: "remote option"
  wr_dataset :: bool

definition buildReceiptsConfig :: "(string \<Rightarrow> string) \<Rightarrow> receipt_config \<Rightarrow> receipts_wiring" where
  "buildReceiptsConfig scheme c =
     (let out = \<lparr>wr_enabled = rf_enabled c, wr_required = rf_required c, wr_writer = None, wr_dataset = False\<rparr> in
      if \<not> rf_enabled c then out
      else case NewWriter scheme c of
          Inl e \<Rightarrow> out
        | Inr w \<Rightarrow> out\<lparr>wr_writer := w, wr_dataset := dataset_NewRemote scheme (rf_url c)\<rparr>)"

definition buildApprovalStampKey :: "(string \<Rightarrow> string err) \<Rightarrow> string \<Rightarrow> string" where
  "buildApprovalStampKey read_file path =
     (if path = '''' then '''' else case LoadKey read_file path of Inl e \<Rightarrow> '''' | Inr key \<Rightarrow> key)"

text \<open>The scorer, why there is none, and the threshold the webhook is told, 0 for none.\<close>

definition buildDecisionModelConfig :: "(string \<Rightarrow> string err) \<Rightarrow> (string \<Rightarrow> model err) \<Rightarrow> string \<Rightarrow> model option \<times> string option \<times> int" where
  "buildDecisionModelConfig read_file parse path =
     (if path = '''' then (None, None, 0)
      else case learned_Load read_file parse path of
          Inl e \<Rightarrow> (None, Some e, 0)
        | Inr m \<Rightarrow> (Some m, None, ar_threshold (m_art m)))"

section \<open>The operator\<close>

record operator =
  op_receipts :: receipts_wiring
  op_model :: "model option"
  op_unavailable :: "string option"
  op_threshold :: int
  op_key :: string
  op_tenants :: resolver
  op_quota :: quota_manager

record startup_lib =
  sl_duration :: "string \<Rightarrow> int err"
  sl_read :: "string \<Rightarrow> string err"
  sl_keys :: "string \<Rightarrow> trusted_key list err"
  sl_scheme :: "string \<Rightarrow> string"
  sl_parse :: "string \<Rightarrow> model err"

text \<open>An error of the receipts configuration ends the process.\<close>

definition startup :: "startup_lib \<Rightarrow> (string \<Rightarrow> string) \<Rightarrow> instant \<Rightarrow> operator err" where
  "startup lib getenv now =
     bind_err (ConfigFromEnv (sl_duration lib) (sl_read lib) (sl_keys lib) getenv) (\<lambda>c.
       let (scorer, unavailable, threshold) = buildDecisionModelConfig (sl_read lib) (sl_parse lib) (getenv ''DECISION_MODEL_PATH'')
       in Inr \<lparr>op_receipts = buildReceiptsConfig (sl_scheme lib) c, op_model = scorer, op_unavailable = unavailable,
            op_threshold = threshold, op_key = buildApprovalStampKey (sl_read lib) (getenv ''APPROVAL_STAMP_KEY_FILE''),
            op_tenants = Map.empty, op_quota = NewQuotaManager now []\<rparr>)"

text \<open>The configuration of the controller; what is not wired here is as in the argument.\<close>

definition wired :: "operator \<Rightarrow> controller_config \<Rightarrow> controller_config" where
  "wired s base = base\<lparr>cc_enabled := wr_enabled (op_receipts s), cc_required := wr_required (op_receipts s),
     cc_writer := wr_writer (op_receipts s) \<noteq> None, cc_dataset := wr_dataset (op_receipts s),
     cc_scorer := map_option learned_Score (op_model s), cc_unavailable := op_unavailable s, cc_key := op_key s\<rparr>"

section \<open>Failing closed\<close>

lemma required_enabled:
  assumes "ConfigFromEnv duration read_file load getenv = Inr c" "envBool getenv ''RECEIPTS_REQUIRED'' = Inr True"
  shows "rf_enabled c \<and> rf_required c"
  using ConfigFromEnv_Inr [OF assms(1)] assms(2) by auto

lemma built_writer:
  "wr_writer (buildReceiptsConfig scheme c) = Some w \<Longrightarrow> NewWriter scheme c = Inr (Some w)"
  by (auto simp: buildReceiptsConfig_def Let_def split: if_splits sum.splits)

lemma writer_pinned:
  assumes "ConfigFromEnv duration read_file load getenv = Inr c" "NewWriter scheme c = Inr (Some w)"
  shows "(rm_trusted w \<noteq> [] \<and> \<not> rm_insecure w
      \<and> (\<exists>d. read_file (trim_space (getenv ''RECEIPTS_WRITER_TRUST_FILE'')) = Inr d \<and> load d = Inr (rm_trusted w)))
    \<or> (rm_insecure w \<and> envBool getenv ''RECEIPTS_INSECURE_NO_PIN'' = Inr True)"
  using configured_writer_pinned [OF assms] by auto

lemma no_writer_denied:
  assumes "ctx_receipts_required ctx" "\<not> ctx_writer_available ctx"
  shows "r_outcome (Decide (evaluateLayers compile ctx packs i th)) = Deny \<and> humanBlocked (evaluateLayers compile ctx packs i th)"
proof -
  have "Check i ctx \<noteq> []" using assms Check_clear [of i ctx] by auto
  then show ?thesis by (simp add: evaluateLayers_def Decide_outcome humanBlocked_def split: prod.splits)
qed

lemma no_key_refuses: "Read ann p '''' \<noteq> Decided d"
  by (simp add: Read_def Let_def VerifyMAC_def)

lemma no_key_admits_nothing:
  assumes "Admit oldAnn newAnn p username groups '''' = Inr ann'" "get ann' AnnotationDecision \<noteq> []"
  shows "\<forall>k\<in>set protocolKeys. ann' k = oldAnn k"
  using assms by (auto simp: Admit_def Let_def list_ex_iff split: if_splits sum.splits)

lemma ApplyModel_error: "r_outcome (ApplyModel base s (Some e) ModelEscalate) \<noteq> Allow"
  by (simp add: ApplyModel_def Let_def)

lemma unavailable_escalates:
  assumes "cc_unavailable cfg = Some e" "DecisionModelMode sp = ''escalate''"
  shows "r_outcome (fst (applyDecisionModel cfg sp action i base)) \<noteq> Allow"
  using ApplyModel_error by (simp add: applyDecisionModel_def Let_def assms)

lemma no_writer_required:
  assumes "ConfigFromEnv duration read_file load getenv = Inr c" "op_receipts s = buildReceiptsConfig scheme c"
    and "envBool getenv ''RECEIPTS_REQUIRED'' = Inr True \<and> wr_writer (op_receipts s) = None"
  shows "\<exists>ctx. receiptContext (wired s base) = ret ctx \<and> (\<forall>compile packs i th.
     r_outcome (Decide (evaluateLayers compile ctx packs i th)) = Deny \<and> humanBlocked (evaluateLayers compile ctx packs i th))"
proof -
  have "wr_enabled (op_receipts s) \<and> wr_required (op_receipts s)"
    using required_enabled [OF assms(1)] assms(2,3) by (auto simp: buildReceiptsConfig_def Let_def split: sum.splits)
  then have "receiptContext (wired s base) = ret \<lparr>ctx_receipts_required = True, ctx_writer_available = False\<rparr>"
    using assms(3) by (simp add: receiptContext_def wired_def)
  then show ?thesis using no_writer_denied by fastforce
qed

lemma unusable_key:
  assumes "op_key s = buildApprovalStampKey read_file path"
    and "(\<forall>key. LoadKey read_file path \<noteq> Inr key) \<or> path = ''''"
  shows "(\<forall>ann p d. Read ann p (cc_key (wired s base)) \<noteq> Decided d)
    \<and> (\<forall>oldAnn newAnn p user groups ann'. Admit oldAnn newAnn p user groups (op_key s) = Inr ann'
        \<and> get ann' AnnotationDecision \<noteq> '''' \<longrightarrow> (\<forall>k\<in>set protocolKeys. ann' k = oldAnn k))"
proof -
  have "op_key s = ''''" using assms by (auto simp: buildApprovalStampKey_def split: sum.splits)
  then show ?thesis using no_key_refuses no_key_admits_nothing by (auto simp: wired_def)
qed

lemma rejected_model:
  assumes "op_unavailable s = fst (snd (buildDecisionModelConfig read_file parse path))"
    and "path \<noteq> '''' \<and> (\<forall>m. learned_Load read_file parse path \<noteq> Inr m)"
  shows "\<forall>sp action i result. DecisionModelMode sp = ''escalate'' \<longrightarrow>
     r_outcome (fst (applyDecisionModel (wired s base) sp action i result)) \<noteq> Allow"
proof -
  obtain e where "cc_unavailable (wired s base) = Some e"
    using assms by (auto simp: wired_def buildDecisionModelConfig_def split: sum.splits)
  then show ?thesis using unavailable_escalates by blast
qed

text \<open>C39: Startup fails closed. Whatever of its configuration is missing or unreadable, an operator that starts does not allow more.
  A receipt writer it uses is pinned to the keys of the trust file, or RECEIPTS_INSECURE_NO_PIN is true. When
  receipts are required and no writer could be built, every decision of the layers is a denial that no human decision
  overrides. When the approval key is missing or unusable no stored decision is read and the webhook accepts none. When the
  configured model does not load, no action of a workload in the mode escalate is allowed without a human.\<close>

theorem startup_fails_closed:
  assumes "startup lib getenv now = Inr s"
  shows "(\<forall>w. wr_writer (op_receipts s) = Some w \<longrightarrow>
        (rm_trusted w \<noteq> [] \<and> \<not> rm_insecure w
          \<and> (\<exists>d. sl_read lib (trim_space (getenv ''RECEIPTS_WRITER_TRUST_FILE'')) = Inr d \<and> sl_keys lib d = Inr (rm_trusted w)))
        \<or> (rm_insecure w \<and> envBool getenv ''RECEIPTS_INSECURE_NO_PIN'' = Inr True))
    \<and> (envBool getenv ''RECEIPTS_REQUIRED'' = Inr True \<and> wr_writer (op_receipts s) = None \<longrightarrow>
        (\<exists>ctx. receiptContext (wired s base) = ret ctx \<and> (\<forall>compile packs i th.
           r_outcome (Decide (evaluateLayers compile ctx packs i th)) = Deny \<and> humanBlocked (evaluateLayers compile ctx packs i th))))
    \<and> ((\<forall>key. LoadKey (sl_read lib) (getenv ''APPROVAL_STAMP_KEY_FILE'') \<noteq> Inr key) \<or> getenv ''APPROVAL_STAMP_KEY_FILE'' = '''' \<longrightarrow>
        (\<forall>ann p d. Read ann p (cc_key (wired s base)) \<noteq> Decided d)
        \<and> (\<forall>oldAnn newAnn p user groups ann'. Admit oldAnn newAnn p user groups (op_key s) = Inr ann'
             \<and> get ann' AnnotationDecision \<noteq> '''' \<longrightarrow> (\<forall>k\<in>set protocolKeys. ann' k = oldAnn k)))
    \<and> (getenv ''DECISION_MODEL_PATH'' \<noteq> '''' \<and> (\<forall>m. learned_Load (sl_read lib) (sl_parse lib) (getenv ''DECISION_MODEL_PATH'') \<noteq> Inr m) \<longrightarrow>
        (\<forall>sp action i result. DecisionModelMode sp = ''escalate'' \<longrightarrow>
           r_outcome (fst (applyDecisionModel (wired s base) sp action i result)) \<noteq> Allow))"
proof -
  obtain c where c: "ConfigFromEnv (sl_duration lib) (sl_read lib) (sl_keys lib) getenv = Inr c"
    and r: "op_receipts s = buildReceiptsConfig (sl_scheme lib) c"
    and k: "op_key s = buildApprovalStampKey (sl_read lib) (getenv ''APPROVAL_STAMP_KEY_FILE'')"
    and m: "op_unavailable s = fst (snd (buildDecisionModelConfig (sl_read lib) (sl_parse lib) (getenv ''DECISION_MODEL_PATH'')))"
    using assms by (auto simp: startup_def bind_err_def split: sum.splits prod.splits)
  show ?thesis
  proof (intro conjI allI impI)
    fix w
    assume "wr_writer (op_receipts s) = Some w"
    then have "NewWriter (sl_scheme lib) c = Inr (Some w)" by (simp add: r built_writer)
    then show "(rm_trusted w \<noteq> [] \<and> \<not> rm_insecure w
          \<and> (\<exists>d. sl_read lib (trim_space (getenv ''RECEIPTS_WRITER_TRUST_FILE'')) = Inr d \<and> sl_keys lib d = Inr (rm_trusted w)))
        \<or> (rm_insecure w \<and> envBool getenv ''RECEIPTS_INSECURE_NO_PIN'' = Inr True)"
      by (rule writer_pinned [OF c])
  next
    assume "envBool getenv ''RECEIPTS_REQUIRED'' = Inr True \<and> wr_writer (op_receipts s) = None"
    then show "\<exists>ctx. receiptContext (wired s base) = ret ctx \<and> (\<forall>compile packs i th.
           r_outcome (Decide (evaluateLayers compile ctx packs i th)) = Deny \<and> humanBlocked (evaluateLayers compile ctx packs i th))"
      by (rule no_writer_required [OF c r])
  next
    fix ann p d
    assume "(\<forall>key. LoadKey (sl_read lib) (getenv ''APPROVAL_STAMP_KEY_FILE'') \<noteq> Inr key) \<or> getenv ''APPROVAL_STAMP_KEY_FILE'' = ''''"
    then show "Read ann p (cc_key (wired s base)) \<noteq> Decided d" using unusable_key [OF k] by blast
  next
    fix oldAnn newAnn p user groups ann'
    assume "(\<forall>key. LoadKey (sl_read lib) (getenv ''APPROVAL_STAMP_KEY_FILE'') \<noteq> Inr key) \<or> getenv ''APPROVAL_STAMP_KEY_FILE'' = ''''"
      "Admit oldAnn newAnn p user groups (op_key s) = Inr ann' \<and> get ann' AnnotationDecision \<noteq> ''''"
    then show "\<forall>k\<in>set protocolKeys. ann' k = oldAnn k" using unusable_key [OF k] by blast
  next
    fix sp action i result
    assume "getenv ''DECISION_MODEL_PATH'' \<noteq> '''' \<and> (\<forall>m. learned_Load (sl_read lib) (sl_parse lib) (getenv ''DECISION_MODEL_PATH'') \<noteq> Inr m)"
      "DecisionModelMode sp = ''escalate''"
    then show "r_outcome (fst (applyDecisionModel (wired s base) sp action i result)) \<noteq> Allow" using rejected_model [OF m] by blast
  qed
qed

text \<open>No tenant is registered at startup and nothing registers one later: no namespace has a tenant, so the quota check of a
  reconcile never runs, and for a tenant by name it would panic.\<close>

lemma startup_without_tenants:
  assumes "startup lib getenv now = Inr s"
  shows "ExtractFromNamespace (op_tenants s) ns \<noteq> Inr (Some t)" "CheckAndConsume later name cost (op_quota s) = Panics"
proof -
  have "op_tenants s = Map.empty" "op_quota s = Map.empty"
    using assms by (auto simp: startup_def bind_err_def NewQuotaManager_def split: sum.splits prod.splits)
  then show "ExtractFromNamespace (op_tenants s) ns \<noteq> Inr (Some t)" "CheckAndConsume later name cost (op_quota s) = Panics"
    by (auto simp: ExtractFromNamespace_def Let_def CheckAndConsume_None)
qed

text \<open>An operator that requires receipts, without a token for the writer, an approval key or a readable model.\<close>

definition wit_env :: "string \<Rightarrow> string" where
  "wit_env k = (if k = ''RECEIPTS_REQUIRED'' then ''true'' else if k = ''RECEIPTS_WRITER_TRUST_FILE'' then ''/k''
     else if k = ''DECISION_MODEL_PATH'' then ''/m'' else [])"

definition wit_startup_lib :: startup_lib where
  "wit_startup_lib = \<lparr>sl_duration = \<lambda>_. Inl ''e'', sl_read = \<lambda>p. if p = ''/k'' then Inr ''d'' else Inl ''e'', sl_keys = \<lambda>_. Inr [svc_key],
     sl_scheme = \<lambda>_. ''http'', sl_parse = \<lambda>_. Inl ''e''\<rparr>"

lemma wit_trims: "trim_space ''/k'' = ''/k''" "trim_space ''true'' = ''true''" "trim_space [] = []"
  by code_simp+

lemma wit_started: "\<exists>s. startup wit_startup_lib wit_env now = Inr s \<and> wr_writer (op_receipts s) = None \<and> op_key s = ''''"
  by (simp add: startup_def bind_err_def ConfigFromEnv_def envBool_def parse_bool_def wit_env_def wit_startup_lib_def wit_trims Let_def
      buildDecisionModelConfig_def learned_Load_def buildReceiptsConfig_def NewWriter_def buildApprovalStampKey_def)

lemma startup_fails_closed_witness:
  "\<forall>now base compile packs i th ann p d sp action result. \<exists>s. startup wit_startup_lib wit_env now = Inr s
     \<and> (\<exists>ctx. receiptContext (wired s base) = ret ctx \<and> r_outcome (Decide (evaluateLayers compile ctx packs i th)) = Deny)
     \<and> Read ann p (op_key s) \<noteq> Decided d
     \<and> r_outcome (fst (applyDecisionModel (wired s base)
            (sp\<lparr>sp_decision_model := Some \<lparr>dm_mode = ''escalate'', dm_threshold = None\<rparr>\<rparr>) action i result)) \<noteq> Allow"
proof (intro allI)
  fix now base compile packs i th ann p d sp action result
  obtain s where s: "startup wit_startup_lib wit_env now = Inr s" "wr_writer (op_receipts s) = None" using wit_started by blast
  have r: "envBool wit_env ''RECEIPTS_REQUIRED'' = Inr True" by (simp add: envBool_def wit_env_def wit_trims parse_bool_def)
  have m: "wit_env ''DECISION_MODEL_PATH'' \<noteq> '''' \<and> (\<forall>m. learned_Load (sl_read wit_startup_lib) (sl_parse wit_startup_lib)
      (wit_env ''DECISION_MODEL_PATH'') \<noteq> Inr m)" by (simp add: wit_env_def wit_startup_lib_def learned_Load_def)
  have k: "wit_env ''APPROVAL_STAMP_KEY_FILE'' = ''''" by (simp add: wit_env_def)
  note t = startup_fails_closed [OF s(1)]
  have "\<exists>ctx. receiptContext (wired s base) = ret ctx \<and> r_outcome (Decide (evaluateLayers compile ctx packs i th)) = Deny"
    using conjunct1 [OF conjunct2 [OF t]] r s(2) by blast
  moreover have "Read ann p (op_key s) \<noteq> Decided d" using conjunct1 [OF conjunct2 [OF conjunct2 [OF t]]] k by (simp add: wired_def)
  moreover have "DecisionModelMode (sp\<lparr>sp_decision_model := Some \<lparr>dm_mode = ''escalate'', dm_threshold = None\<rparr>\<rparr>) = ''escalate''"
    by (simp add: DecisionModelMode_def)
  then have "r_outcome (fst (applyDecisionModel (wired s base)
            (sp\<lparr>sp_decision_model := Some \<lparr>dm_mode = ''escalate'', dm_threshold = None\<rparr>\<rparr>) action i result)) \<noteq> Allow"
    using conjunct2 [OF conjunct2 [OF conjunct2 [OF t]]] m by blast
  ultimately show "\<exists>s. startup wit_startup_lib wit_env now = Inr s
     \<and> (\<exists>ctx. receiptContext (wired s base) = ret ctx \<and> r_outcome (Decide (evaluateLayers compile ctx packs i th)) = Deny)
     \<and> Read ann p (op_key s) \<noteq> Decided d
     \<and> r_outcome (fst (applyDecisionModel (wired s base)
            (sp\<lparr>sp_decision_model := Some \<lparr>dm_mode = ''escalate'', dm_threshold = None\<rparr>\<rparr>) action i result)) \<noteq> Allow"
    using s(1) by blast
qed

end
