(* ===== verification/AgentCard.thy ===== *)
theory AgentCard
  imports GoFloat
begin

text \<open>
  internal/controller/agentcard_controller.go with its type in api/v1alpha1/agentcard_types.go: the controller that probes the
  health of an agent and keeps the status of its card. The API server and the probed endpoint are answers; times are integers.
\<close>

section \<open>The card\<close>

record health_check =
  hc_path :: "string option"
  hc_interval :: "int option"
  hc_timeout :: "int option"

record agent_endpoint =
  ep_host :: string
  ep_port :: "int option"
  ep_base :: "string option"

record card_spec =
  cs_skills :: "string list"
  cs_endpoint :: agent_endpoint
  cs_health :: "health_check option"

record skill_status =
  ss_name :: string
  ss_available :: bool

record card_condition =
  cd_type :: string
  cd_status :: bool
  cd_reason :: string
  cd_message :: string
  cd_since :: int

record card_status =
  ct_phase :: string
  ct_heartbeat :: "int option"
  ct_skills :: "skill_status list"
  ct_conditions :: "card_condition list"

definition empty_status :: card_status where
  "empty_status = \<lparr>ct_phase = '''', ct_heartbeat = None, ct_skills = [], ct_conditions = []\<rparr>"

section \<open>The probe\<close>

definition or_default :: "'a option \<Rightarrow> 'a \<Rightarrow> 'a" where
  "or_default x d = (case x of None \<Rightarrow> d | Some y \<Rightarrow> y)"

definition probe_url :: "card_spec \<Rightarrow> string" where
  "probe_url sp = ''http://'' @ ep_host (cs_endpoint sp) @ '':'' @ itoa (or_default (ep_port (cs_endpoint sp)) 8080)
     @ or_default (ep_base (cs_endpoint sp)) '''' @ or_default (Option.bind (cs_health sp) hc_path) ''/healthz''"

text \<open>Seconds; used when the controller has no client of its own.\<close>

definition probe_timeout :: "card_spec \<Rightarrow> int" where
  "probe_timeout sp = or_default (Option.bind (cs_health sp) hc_timeout) 5"

datatype probe_answer = NoRequest | NoResponse | Response int

definition probeHealth :: "(string \<Rightarrow> int \<Rightarrow> probe_answer) \<Rightarrow> card_spec \<Rightarrow> bool" where
  "probeHealth net sp = (case net (probe_url sp) (probe_timeout sp) of
       Response status \<Rightarrow> 200 \<le> status \<and> status < 300
     | _ \<Rightarrow> False)"

section \<open>The reconciler\<close>

fun setCondition :: "card_condition list \<Rightarrow> card_condition \<Rightarrow> card_condition list" where
  "setCondition [] c = [c]"
| "setCondition (x # xs) c =
     (if cd_type x = cd_type c then (if cd_status x \<noteq> cd_status c then c # xs else x # xs)
      else x # setCondition xs c)"

definition ready_condition :: "bool \<Rightarrow> int \<Rightarrow> card_condition" where
  "ready_condition healthy now =
     (if healthy then \<lparr>cd_type = ''Ready'', cd_status = True, cd_reason = ''HealthCheckPassed'',
          cd_message = ''Agent health check passed'', cd_since = now\<rparr>
      else \<lparr>cd_type = ''Ready'', cd_status = False, cd_reason = ''HealthCheckFailed'',
          cd_message = ''Agent health check failed or endpoint unreachable'', cd_since = now\<rparr>)"

definition card_update :: "bool \<Rightarrow> int \<Rightarrow> card_spec \<Rightarrow> card_status \<Rightarrow> card_status" where
  "card_update healthy now sp st =
     (let conditions = setCondition (ct_conditions st) (ready_condition healthy now) in
      if healthy then st\<lparr>ct_phase := ''Available'', ct_heartbeat := Some now,
           ct_skills := map (\<lambda>s. \<lparr>ss_name = s, ss_available = True\<rparr>) (cs_skills sp), ct_conditions := conditions\<rparr>
      else st\<lparr>ct_phase := (if ct_phase st = ''Available'' then ''Degraded'' else if ct_phase st = '''' then ''Unavailable'' else ct_phase st),
           ct_conditions := conditions\<rparr>)"

datatype card_answer = CardFound card_spec card_status | CardNotFound | CardError string
datatype card_result = Requeue int | CardDone | CardFailed string

text \<open>The result and the status written to the card.\<close>

definition card_Reconcile :: "card_answer \<Rightarrow> (string \<Rightarrow> int \<Rightarrow> probe_answer) \<Rightarrow> int \<Rightarrow> string option \<Rightarrow> card_result \<times> card_status option" where
  "card_Reconcile fetched net now update_error = (case fetched of
       CardNotFound \<Rightarrow> (CardDone, None)
     | CardError e \<Rightarrow> (CardFailed e, None)
     | CardFound sp st \<Rightarrow>
         (case update_error of
            Some e \<Rightarrow> (CardFailed e, None)
          | None \<Rightarrow> (Requeue 30, Some (card_update (probeHealth net sp) now sp st))))"

section \<open>The life of a card\<close>

record card_tick =
  tc_spec :: card_spec
  tc_net :: "string \<Rightarrow> int \<Rightarrow> probe_answer"
  tc_now :: int
  tc_error :: "string option"

text \<open>The spec may be edited between two reconciles, and a write of the status may fail.\<close>

definition card_step :: "card_tick \<Rightarrow> card_status \<Rightarrow> card_status" where
  "card_step t st = or_default (snd (card_Reconcile (CardFound (tc_spec t) st) (tc_net t) (tc_now t) (tc_error t))) st"

definition card_life :: "card_tick list \<Rightarrow> card_status" where
  "card_life ts = fold card_step ts empty_status"

text \<open>The reconciles whose status was written, as health and time.\<close>

definition probes :: "card_tick list \<Rightarrow> (bool \<times> int) list" where
  "probes ts = map (\<lambda>t. (probeHealth (tc_net t) (tc_spec t), tc_now t)) (filter (\<lambda>t. tc_error t = None) ts)"

text \<open>The time of the first probe of the last streak of equal results.\<close>

definition streak_start :: "(bool \<times> int) list \<Rightarrow> int" where
  "streak_start ps = snd (List.last (takeWhile (\<lambda>p. fst p = fst (List.last ps)) (rev ps)))"

definition life_phase :: "(bool \<times> int) list \<Rightarrow> string" where
  "life_phase ps = (if ps = [] then '''' else if fst (List.last ps) then ''Available''
     else if True \<in> fst ` set ps then ''Degraded'' else ''Unavailable'')"

lemma card_step_probes:
  "tc_error t \<noteq> None \<Longrightarrow> card_step t st = st \<and> probes (ts @ [t]) = probes ts"
  "tc_error t = None \<Longrightarrow> card_step t st = card_update (probeHealth (tc_net t) (tc_spec t)) (tc_now t) (tc_spec t) st
     \<and> probes (ts @ [t]) = probes ts @ [(probeHealth (tc_net t) (tc_spec t), tc_now t)]"
  by (auto simp: card_step_def card_Reconcile_def or_default_def probes_def split: option.splits)

lemma streak_snoc:
  "streak_start (ps @ [(h, n)]) = (if ps \<noteq> [] \<and> fst (List.last ps) = h then streak_start ps else n)"
proof (cases "ps \<noteq> [] \<and> fst (List.last ps) = h")
  case True
  then obtain qs q where p: "ps = qs @ [q]" "fst q = h" by (metis append_butlast_last_id)
  then show ?thesis by (simp add: streak_start_def)
next
  case False
  then have "takeWhile (\<lambda>p. fst p = h) (rev ps) = []" by (cases ps rule: rev_cases) auto
  then show ?thesis using False by (auto simp: streak_start_def)
qed

lemma streak_one: "streak_start [p] = snd p"
  by (simp add: streak_start_def)

text \<open>Whatever probes and failed writes there were: the phase says how the last written probe went and whether one ever
  succeeded; there is one condition, Ready, true exactly when the phase is Available and dated at the first probe of the
  streak; the heartbeat is the time of the last success. No skill is ever reported as not available.\<close>

lemma card_life_status:
  "ct_phase (card_life ts) = life_phase (probes ts)
   \<and> (probes ts = [] \<longrightarrow> card_life ts = empty_status)
   \<and> (probes ts \<noteq> [] \<longrightarrow> ct_conditions (card_life ts)
        = [ready_condition (fst (List.last (probes ts))) (streak_start (probes ts))])
   \<and> ct_heartbeat (card_life ts) = (if True \<in> fst ` set (probes ts) then Some (snd (List.last (filter fst (probes ts)))) else None)
   \<and> (\<forall>s\<in>set (ct_skills (card_life ts)). ss_available s)"
proof (induction ts rule: rev_induct)
  case Nil
  show ?case by (simp add: card_life_def probes_def life_phase_def empty_status_def)
next
  case (snoc t ts)
  have s: "card_life (ts @ [t]) = card_step t (card_life ts)" by (simp add: card_life_def)
  show ?case
  proof (cases "tc_error t = None")
    case False
    then show ?thesis using snoc.IH card_step_probes(1) [OF False] by (simp add: s)
  next
    case True
    define h n where "h = probeHealth (tc_net t) (tc_spec t)" and "n = tc_now t"
    have p: "probes (ts @ [t]) = probes ts @ [(h, n)]" "card_step t (card_life ts) = card_update h n (tc_spec t) (card_life ts)"
      using card_step_probes(2) [OF True] by (simp_all add: h_def n_def)
    have c: "setCondition (ct_conditions (card_life ts)) (ready_condition h n)
        = [ready_condition h (streak_start (probes ts @ [(h, n)]))]"
      using snoc.IH by (cases "probes ts = []") (auto simp: streak_snoc streak_one empty_status_def ready_condition_def)
    have ph: "ct_phase (card_update h n (tc_spec t) (card_life ts)) = life_phase (probes ts @ [(h, n)])"
      using snoc.IH by (auto simp: card_update_def Let_def life_phase_def)
    show ?thesis unfolding s p using ph c snoc.IH by (auto simp: card_update_def Let_def)
  qed
qed

end
