(* ===== verification/Evaluation.thy ===== *)
theory Evaluation
  imports Receipts
begin

text \<open>
  pkg/evaluation: the heuristic scores of an agent's output (scorer.go) and the history with its statistics (evaluator.go).
  Which runes are letters and which are upper case are the tables of package unicode: two arguments on the encoded rune. The
  time of an evaluation is left out, as is the log line of metrics.go.
\<close>

section \<open>Texts\<close>

fun count_text :: "nat \<Rightarrow> string \<Rightarrow> string \<Rightarrow> nat" where
  "count_text 0 s sub = 0"
| "count_text (Suc n) s sub = (case index_of s sub of None \<Rightarrow> 0 | Some i \<Rightarrow> 1 + count_text n (drop (i + length sub) s) sub)"

text \<open>strings.Count of a text that is not empty; an occurrence takes at least one byte.\<close>

definition Count :: "string \<Rightarrow> string \<Rightarrow> nat" where
  "Count s sub = count_text (length s) s sub"

text \<open>The runes of a text as range reads them: an invalid byte is the replacement rune.\<close>

function range_runes :: "string \<Rightarrow> string list" where
  "range_runes s = (if s = [] then []
     else if utf8_len s = 0 then rune_error # range_runes (tl s)
     else take (utf8_len s) s # range_runes (drop (utf8_len s) s))"
  by pat_completeness auto
termination
  by (relation "measure length") (auto simp del: utf8_len.simps)

declare range_runes.simps [simp del]

section \<open>The scores\<close>

record execution_record =
  xr_agent :: string
  xr_category :: string
  xr_output :: string
  xr_status :: string
  xr_cost :: f64
  xr_duration :: int

record quality =
  ql_overall :: int
  ql_relevance :: int
  ql_risk :: int
  ql_completeness :: int
  ql_clarity :: int

definition clamp_score :: "int \<Rightarrow> int \<Rightarrow> int \<Rightarrow> int" where
  "clamp_score v lo hi = (if v < lo then lo else if v > hi then hi else v)"

definition found_words :: "string \<Rightarrow> string list \<Rightarrow> int" where
  "found_words lower ws = int (length (filter (\<lambda>w. contains lower w) ws))"

definition scoreRelevance :: "string \<Rightarrow> string \<Rightarrow> int" where
  "scoreRelevance output category =
     (let lower = to_lower output in
      if output = '''' then 0
      else if category = ''validation'' then
        clamp_score (60 + (if list_ex (\<lambda>w. contains lower w)
          [''valid'', ''invalid'', ''pass'', ''fail'', ''yes'', ''no'', ''correct'', ''incorrect'', ''true'', ''false''] then 10 else 0)) 0 100
      else if category = ''analysis'' then
        clamp_score (60 + 4 * found_words lower
          [''trend'', ''pattern'', ''insight'', ''analysis'', ''data'', ''result'', ''finding'', ''shows'', ''indicates'', ''suggests'']) 0 100
      else if category = ''reasoning'' then
        clamp_score (60 + 4 * found_words lower
          [''therefore'', ''because'', ''conclude'', ''reason'', ''implies'', ''suggests'', ''evidence'', ''thus'', ''hence'']) 0 100
      else 70)"

definition apostrophe :: string where "apostrophe = [CHR 0x27]"

definition detectHallucinationRisk :: "string \<Rightarrow> int" where
  "detectHallucinationRisk output =
     (let lower = to_lower output in
      if output = '''' then 50
      else clamp_score
        (15 * found_words lower [''i don'' @ apostrophe @ ''t have access'', ''i cannot verify'', ''i don'' @ apostrophe @ ''t have information'',
             ''as of my knowledge cutoff'', ''i'' @ apostrophe @ ''m not able to access'', ''i cannot confirm'']
         + (if length output > 1000 \<and> Count lower ''definitely'' > 2 then 20 else 0)
         + (if length output < 20 then 30 else 0)) 0 100)"

definition scoreCompleteness :: "string \<Rightarrow> string \<Rightarrow> int" where
  "scoreCompleteness output category =
     (let n = length output in
      if n = 0 then 0
      else if category = ''validation'' then (if n < 10 then 20 else if n > 500 then 65 else 85)
      else if category = ''analysis'' then (if n < 100 then 40 else if n < 300 then 70 else 90)
      else if category = ''reasoning'' then (if n < 200 then 50 else 85)
      else if n < 50 then 50 else 75)"

definition scoreClarity :: "(string \<Rightarrow> bool) \<Rightarrow> (string \<Rightarrow> bool) \<Rightarrow> string \<Rightarrow> int" where
  "scoreClarity letter capital output =
     (let letters = filter letter (range_runes output); total = length letters; upper = length (filter capital letters);
          lines = (if contains output [CHR 0x0A] then 5 else 0);
          lists = (if Count output ''-'' > 2 \<or> Count output [CHR 0xE2, CHR 0x80, CHR 0xA2] > 1 \<or> Count output ''1.'' > 0 then 10 else 0);
          shouting = (if total > 0 \<and> flt (fround (2 / 5)) (fdiv (f_of_int (int upper)) (f_of_int (int total))) then 15 else 0)
      in if output = '''' then 0 else clamp_score (70 + lines + lists - shouting) 0 100)"

definition Score :: "(string \<Rightarrow> bool) \<Rightarrow> (string \<Rightarrow> bool) \<Rightarrow> execution_record \<Rightarrow> quality" where
  "Score letter capital r =
     (let relevance = scoreRelevance (xr_output r) (xr_category r); risk = detectHallucinationRisk (xr_output r);
          completeness = scoreCompleteness (xr_output r) (xr_category r); clarity = scoreClarity letter capital (xr_output r);
          weighted = fadd (fadd (fadd (fmul (f_of_int relevance) (fround (35 / 100))) (fmul (f_of_int (100 - risk)) (fround (1 / 4))))
            (fmul (f_of_int completeness) (fround (1 / 5)))) (fmul (f_of_int clarity) (fround (1 / 5)))
      in \<lparr>ql_overall = clamp_score (f_to_int weighted) 0 100, ql_relevance = relevance, ql_risk = risk,
          ql_completeness = completeness, ql_clarity = clarity\<rparr>)"

section \<open>The evaluator\<close>

type_synonym evaluation = "execution_record \<times> quality"

definition NewEvaluator :: "evaluation list" where "NewEvaluator = []"

definition Evaluate_record :: "(string \<Rightarrow> bool) \<Rightarrow> (string \<Rightarrow> bool) \<Rightarrow> execution_record \<Rightarrow> evaluation list \<Rightarrow> evaluation \<times> evaluation list" where
  "Evaluate_record letter capital r history = (let e = (r, Score letter capital r) in (e, history @ [e]))"

record agent_stats =
  as_agent :: string
  as_total :: int
  as_success :: int
  as_failed :: int
  as_rate :: f64
  as_quality :: f64
  as_cost :: f64
  as_duration :: f64

definition GetAgentStats :: "evaluation list \<Rightarrow> string \<Rightarrow> agent_stats" where
  "GetAgentStats history agent =
     (let own = filter (\<lambda>e. agent = '''' \<or> xr_agent (fst e) = agent) history;
          count = (\<lambda>s. int (length (filter (\<lambda>e. xr_status (fst e) = s) own)));
          total = int (length own);
          total_of = (\<lambda>f. foldl (\<lambda>a e. fadd a (f e)) (Fin 0) own);
          mean = (\<lambda>x. if total > 0 then fdiv x (f_of_int total) else Fin 0)
      in \<lparr>as_agent = agent, as_total = total, as_success = count ''success'', as_failed = count ''failure'',
          as_rate = (if total > 0 then fmul (fdiv (f_of_int (count ''success'')) (f_of_int total)) (Fin 100) else Fin 0),
          as_quality = mean (total_of (\<lambda>e. f_of_int (ql_overall (snd e)))), as_cost = mean (total_of (\<lambda>e. xr_cost (fst e))),
          as_duration = mean (total_of (\<lambda>e. f_of_int (xr_duration (fst e))))\<rparr>)"

definition GetHistory :: "evaluation list \<Rightarrow> evaluation list" where
  "GetHistory history = history"

section \<open>Bounds\<close>

lemma clamp_score_range: "lo \<le> hi \<Longrightarrow> lo \<le> clamp_score v lo hi \<and> clamp_score v lo hi \<le> hi"
  by (simp add: clamp_score_def)

text \<open>Every score is between 0 and 100; no output scores nothing but an uncertain risk.\<close>

lemma Score_range:
  "list_all (\<lambda>x. 0 \<le> x \<and> x \<le> 100) [ql_overall (Score letter capital r), ql_relevance (Score letter capital r),
     ql_risk (Score letter capital r), ql_completeness (Score letter capital r), ql_clarity (Score letter capital r)]"
  using clamp_score_range [of 0 100]
  by (auto simp: Score_def Let_def scoreRelevance_def detectHallucinationRisk_def scoreCompleteness_def scoreClarity_def)

lemma Score_no_output:
  assumes "xr_output r = ''''"
  shows "ql_relevance (Score letter capital r) = 0 \<and> ql_risk (Score letter capital r) = 50
    \<and> ql_completeness (Score letter capital r) = 0 \<and> ql_clarity (Score letter capital r) = 0"
  by (simp add: assms Score_def Let_def scoreRelevance_def detectHallucinationRisk_def scoreCompleteness_def scoreClarity_def)

text \<open>The counts of the statistics are those of the records evaluated; the records of all agents are those of each together.\<close>

lemma stats_counted:
  assumes "history = snd (fold (\<lambda>r (es, h). (es, snd (Evaluate_record letter capital r h))) rs ((), NewEvaluator))"
  shows "as_total (GetAgentStats history '''') = int (length rs)
    \<and> as_success (GetAgentStats history a) + as_failed (GetAgentStats history a) \<le> as_total (GetAgentStats history a)
    \<and> as_total (GetAgentStats history a) \<le> int (length rs)"
proof -
  have "snd (fold (\<lambda>r (es, h). (es, snd (Evaluate_record letter capital r h))) rs ((), h0)) = h0 @ map (\<lambda>r. (r, Score letter capital r)) rs" for h0
    by (induction rs arbitrary: h0) (simp_all add: Evaluate_record_def Let_def)
  then have h: "history = map (\<lambda>r. (r, Score letter capital r)) rs" using assms by (simp add: NewEvaluator_def)
  have two: "length (filter (\<lambda>e. P e \<and> xr_status (fst e) = ''success'') es) + length (filter (\<lambda>e. P e \<and> xr_status (fst e) = ''failure'') es)
      \<le> length (filter P es)" for P and es :: "evaluation list"
    by (induction es) auto
  have f: "length (filter Q (filter P es)) = length (filter (\<lambda>e. P e \<and> Q e) es)" for P Q and es :: "evaluation list"
    by (induction es) auto
  show ?thesis
    using two [of "\<lambda>e. a = '''' \<or> xr_agent (fst e) = a" history] length_filter_le [of "\<lambda>e. a = '''' \<or> xr_agent (fst e) = a" history]
    by (simp add: GetAgentStats_def Let_def f h)
qed

end
