(* ===== verification/Sanitizer.thy ===== *)
theory Sanitizer
  imports Regexp
begin

text \<open>
  The log sanitizer (pkg/resilience/sanitizer.go): seven expressions, each replaced over
  the whole text, one after the other. The expressions match no empty text, so a search goes on
  behind its match.
\<close>

section \<open>Replacement\<close>

text \<open>\<open>ReplaceAllStringFunc\<close>: b is the character before the text.\<close>

function replace_from :: "re \<Rightarrow> (string \<Rightarrow> string) \<Rightarrow> char option \<Rightarrow> string \<Rightarrow> string" where
  "replace_from r f b [] = []"
| "replace_from r f b (c # s) =
     (case ends r (b, c # s) of
        [] \<Rightarrow> c # replace_from r f (Some c) s
      | (q # _) \<Rightarrow>
          if length (snd q) \<le> length s
          then f (take (length (c # s) - length (snd q)) (c # s)) @ replace_from r f (fst q) (snd q)
          else c # replace_from r f (Some c) s)"
  by pat_completeness auto
termination
  by (relation "measure (\<lambda>(r, f, b, s). length s)") auto

declare replace_from.simps(2) [simp del]

definition replace_all :: "re \<Rightarrow> (string \<Rightarrow> string) \<Rightarrow> string \<Rightarrow> string" where
  "replace_all r f s = replace_from r f None s"

section \<open>The sanitizer\<close>

definition space_class :: "char \<Rightarrow> bool" where
  "space_class c \<longleftrightarrow> c \<in> {CHR 0x09, CHR 0x0A, CHR 0x0C, CHR 0x0D, CHR 0x20}"

definition value_class :: "char \<Rightarrow> bool" where
  "value_class c \<longleftrightarrow> is_alnum c \<or> has_byte ''_-.'' c"

definition token_class :: "char \<Rightarrow> bool" where
  "token_class c \<longleftrightarrow> is_alnum c \<or> has_byte ''_-'' c"

definition sep_class :: "char \<Rightarrow> bool" where
  "sep_class c \<longleftrightarrow> c = CHR 0x22 \<or> space_class c \<or> has_byte '':='' c"

definition alts :: "re \<Rightarrow> re list \<Rightarrow> re" where
  "alts r rs = foldl Alt r rs"

definition bearerKeyRe :: re where
  "bearerKeyRe = Cat (lit_fold ''bearer'') (plus (Cls space_class))"

definition bearerRe :: re where
  "bearerRe = Cat bearerKeyRe (rep_from (class_fold value_class) 20)"

definition keywordRe :: re where
  "keywordRe =
     alts (cats [lit_fold ''api'', opt (Cls (has_byte ''_-'')), lit_fold ''key''])
       [cats [lit_fold ''api'', opt (Cls (has_byte ''_-'')), lit_fold ''token''],
        lit_fold ''secret'', lit_fold ''password'', lit_fold ''credential'']"

definition secretKeyRe :: re where
  "secretKeyRe = Cat keywordRe (plus (Cls sep_class))"

definition secretRe :: re where
  "secretRe = Cat secretKeyRe (rep_from (class_fold value_class) 8)"

definition jwtRe :: re where
  "jwtRe = cats [lit ''eyJ'', plus (Cls token_class), lit ''.eyJ'', plus (Cls token_class),
                 lit ''.'', plus (Cls token_class)]"

definition mailRe :: re where
  "mailRe = cats [plus (Cls (\<lambda>c. is_alnum c \<or> has_byte ''._%+-'' c)), lit ''@'',
                  plus (Cls (\<lambda>c. is_alnum c \<or> has_byte ''.-'' c)), lit ''.'',
                  rep_from (Cls is_alpha) 2]"

definition cardNumberRe :: re where
  "cardNumberRe =
     (let four = power_re digit 4; gap = opt (Cls (\<lambda>c. space_class c \<or> c = CHR ''-''))
      in cats [WordB, four, gap, four, gap, four, gap, four, WordB])"

definition awsKeyRe :: re where
  "awsKeyRe = Cat (lit ''AKIA'') (power_re (Cls (\<lambda>c. is_upper c \<or> is_digit c)) 16)"

definition tokenRe :: re where
  "tokenRe = rep (Cls token_class) 35 45"

definition sanitizer_patterns :: "re list" where
  "sanitizer_patterns = [bearerRe, secretRe, jwtRe, mailRe, cardNumberRe, awsKeyRe, tokenRe]"

text \<open>\<open>strings.IndexAny(match, ":= ")\<close>.\<close>

fun index_any :: "string \<Rightarrow> string \<Rightarrow> nat option" where
  "index_any [] cs = None"
| "index_any (c # s) cs = (if has_byte cs c then Some 0 else map_option Suc (index_any s cs))"

definition redact :: "string \<Rightarrow> string" where
  "redact m =
     (let short = (if 8 < length m then take 4 m @ ''[REDACTED]'' else ''[REDACTED]'')
      in case index_any m '':= '' of
           None \<Rightarrow> short
         | Some i \<Rightarrow> if 0 < i \<and> i < length m - 1 then take (i + 1) m @ ''[REDACTED]'' else short)"

definition Scrub :: "string \<Rightarrow> string" where
  "Scrub s = foldl (\<lambda>t r. replace_all r redact t) s sanitizer_patterns"

definition ScrubMap :: "(string \<rightharpoonup> string) \<Rightarrow> (string \<rightharpoonup> string)" where
  "ScrubMap m = (\<lambda>k. map_option Scrub (m k))"

section \<open>Runs of a class\<close>

text \<open>No n characters of a class stand together.\<close>

fun no_run :: "(char \<Rightarrow> bool) \<Rightarrow> nat \<Rightarrow> string \<Rightarrow> bool" where
  "no_run p n [] = (0 < n)"
| "no_run p n (c # s) = (length (takeWhile p (c # s)) < n \<and> no_run p n s)"


lemma no_run_less: "no_run p n s \<Longrightarrow> length (takeWhile p s) < n"
  by (cases s) auto

lemma no_run_short: "length s < n \<Longrightarrow> no_run p n s"
  by (induction s) (auto simp del: takeWhile.simps intro: le_less_trans [OF length_takeWhile_le])

lemma takeWhile_drop:
  "n \<le> length (takeWhile p s) \<Longrightarrow> takeWhile p (drop n s) = drop n (takeWhile p s)"
proof (induction s arbitrary: n)
  case (Cons c s)
  then show ?case by (cases n) (auto split: if_splits)
qed simp


lemma ends_power_Cls:
  "ends (power_re (Cls p) n) (b, s) =
     (if n \<le> length (takeWhile p s) then [(orElse (last_char (take n s)) b, drop n s)] else [])"
proof (induction n arbitrary: b s)
  case 0
  then show ?case by (simp add: last_char_def)
next
  case (Suc n)
  show ?case
    by (cases s) (auto simp: Suc last_char_def)
qed

lemma ends_upto_Cls:
  "\<exists>b' qs. ends (upto_re (Cls p) k) (b, s) = (b', drop (min k (length (takeWhile p s))) s) # qs"
proof (induction k arbitrary: b s)
  case (Suc k)
  show ?case
  proof (cases s)
    case (Cons c s')
    then show ?thesis using Suc [of "Some c" s'] by auto
  qed simp
qed simp

lemma ends_rep_Cls:
  assumes "lo \<le> hi"
  shows "if lo \<le> length (takeWhile p s)
         then \<exists>b' qs. ends (rep (Cls p) lo hi) (b, s)
                = (b', drop (min hi (length (takeWhile p s))) s) # qs
         else ends (rep (Cls p) lo hi) (b, s) = []"
proof (cases "lo \<le> length (takeWhile p s)")
  case True
  define w where "w = length (takeWhile p s)"
  have w: "length (takeWhile p (drop lo s)) = w - lo"
    using True unfolding w_def by (simp add: takeWhile_drop)
  have "lo + min (hi - lo) (w - lo) = min hi w"
    using assms True unfolding w_def by simp
  then show ?thesis
    using ends_upto_Cls [of p "hi - lo" "orElse (last_char (take lo s)) b" "drop lo s"] True w
    by (simp add: rep_def ends_power_Cls w_def add.commute)
next
  case False
  then show ?thesis by (simp add: rep_def ends_power_Cls)
qed


section \<open>What a replacement leaves\<close>

lemma replace_from_no_match: "\<not> match_from r b s \<Longrightarrow> replace_from r f b s = s"
  by (induction r b s rule: match_from.induct) (auto simp: replace_from.simps(2))


lemma match_rep_Cls:
  assumes "0 < lo" "lo \<le> hi"
  shows "match_from (rep (Cls p) lo hi) b s \<longleftrightarrow> \<not> no_run p lo s"
proof (induction s arbitrary: b)
  case Nil
  show ?case using ends_rep_Cls [OF assms(2), of p "[]" b] assms(1) by simp
next
  case (Cons c s)
  have "ends (rep (Cls p) lo hi) (b, c # s) = [] \<longleftrightarrow> length (takeWhile p (c # s)) < lo"
    using ends_rep_Cls [OF assms(2), of p "c # s" b] by (auto split: if_splits simp del: takeWhile.simps)
  then show ?case
    using Cons by (simp del: takeWhile.simps add: not_less)
qed



lemma has_byte_set: "has_byte cs c \<longleftrightarrow> c \<in> set cs"
  by (simp add: has_byte_def)


lemma index_any_None: "index_any m cs = None \<longleftrightarrow> set m \<inter> set cs = {}"
  by (induction m) (auto simp: has_byte_set)







section \<open>What a replacement shows of a match\<close>











text \<open>A token of more than 45 characters keeps its tail.\<close>

lemma token_tail:
  assumes "list_all token_class x" "45 \<le> length x" "length x < 80"
  shows "replace_all tokenRe redact x = take 4 x @ ''[REDACTED]'' @ drop 45 x"
proof -
  have tw: "takeWhile token_class x = x"
    using assms(1) by (simp add: list_all_iff takeWhile_eq_all_conv)
  obtain b' qs where e: "ends tokenRe (None, x) = (b', drop 45 x) # qs"
    using ends_rep_Cls [of 35 45 token_class x None] assms tw
    by (auto simp: tokenRe_def min_def)
  obtain c t where x: "x = c # t" using assms(2) by (cases x) auto
  have "\<not> match_from tokenRe b' (drop 45 x)"
    using assms(3) by (simp add: tokenRe_def match_rep_Cls no_run_short)
  then have "replace_all tokenRe redact x = redact (take 45 x) @ drop 45 x"
    using e assms(2) unfolding replace_all_def x
    by (simp add: replace_from.simps(2) replace_from_no_match)
  moreover have "redact (take 45 x) = take 4 x @ ''[REDACTED]''"
  proof -
    have "index_any (take 45 x) '':= '' = None"
      using assms(1) unfolding index_any_None list_all_iff
      by (auto simp: token_class_def has_byte_set is_alnum_def is_alpha_def is_upper_def
          is_lower_def is_digit_def dest!: in_set_takeD)
    then show ?thesis
      using assms(2) by (simp add: redact_def min_def)
  qed
  ultimately show ?thesis by simp
qed


section \<open>The property\<close>


definition long_token :: string where
  "long_token = replicate 40 (CHR ''a'') @ ''SECRET-TAIL''"

lemma long_token_tail: "replace_all tokenRe redact long_token = ''aaaa[REDACTED]T-TAIL''"
proof -
  have "list_all token_class long_token" "45 \<le> length long_token" "length long_token < 80" by code_simp+
  note token_tail [OF this]
  moreover have "take 4 long_token @ ''[REDACTED]'' @ drop 45 long_token = ''aaaa[REDACTED]T-TAIL''" by code_simp
  ultimately show ?thesis by simp
qed


end
