(* ===== verification/Spec2Isabelle.thy ===== *)
theory Spec2Isabelle
  imports Scorers AuditChain ReceiptLog Resilience Tenancy Autoscaling ControllerTheorems Webhook
    ReceiptService DecisionView WebGate NetProbe Offline FinOps McpServer AuditVerify Startup
    AgentCard Evaluation Sanitizer
begin

text \<open>
  A verification of the core of the agentic operator: a Kubernetes operator in Go that runs the
  actions of agents under a policy, holds risky ones for a human decision and keeps
  tamper-evident receipts of what it decided.

  Parts and how they interact. The controller (internal/controller) reconciles an AgentWorkload
  (api/v1alpha1). On the direct path it asks the MCP server of the workload for a proposed action
  (pkg/mcp), observes its payload (pkg/decision/observe with pkg/dataclass), decides it in
  layers (pkg/invariants, pkg/rules/engine with pkg/rules/packs, pkg/rules/threshold, then
  a risk model pkg/decision/baseline or pkg/decision/learned), records the decision
  (pkg/receipts), reserves the execution by a status write and executes. A held action is
  decided by annotations the admission webhook stamps (pkg/approval); the controller verifies
  the stamp, decides the layers again, writes the receipt of the human and executes. Workloads
  may instead route a prompt to a model (pkg/routing, pkg/llm) or run on a runtime
  adapter (pkg/runtime). Tenancy, quotas and SLAs (pkg/multitenancy), scaling (pkg/autoscaling),
  breaker and retry (pkg/resilience) and the audit chain (pkg/audit) stand beside it.

  Theories and code.
  GoBase, GoFloat, GoUrl, Regexp, Json, GoValue, Digest: what the source uses of the Go
  standard library: strings and UTF-8, int64 with wrap-around, float64 as exact rationals
  with rounding, their decimal texts, net/url hosts, regular expressions with leftmost-first
  semantics, encoding/json on trees and Go values, SHA-256, HMAC and hexadecimal text.
  DataClass: pkg/dataclass. DecisionInput: pkg/decision/input and observe. Invariants:
  pkg/invariants. Decision: pkg/decision (layers, features, application of a model). Scorers:
  baseline and learned scorer. Policy: pkg/rules and pkg/opa. Crd: the resource.
  Approval: pkg/approval. Receipts: pkg/receipts/record.go. ReceiptLog: pkg/receipts/local.go with
  its files, torn writes and crashes. AuditChain: pkg/audit. Routing: pkg/routing and pkg/llm.
  Resilience, Tenancy, Autoscaling: the packages of those names; Sanitizer: the log sanitizer of
  pkg/resilience over Regexp.
  World: the API server, the receipt writer and the MCP client as effects; Controller,
  ApprovalFlow, DirectPath, Reconcile: the handlers of internal/controller over them. RunLogic and
  ActionLogic: triples over handler runs and locales that carry an invariant through
  every handler; ControllerSafety: two invariants over all reachable worlds;
  ApprovalLiveness: the run that succeeds; ControllerTheorems: the properties of the controller.
  Webhook: defaults, validation and the stamping of decisions of the admission webhook
  (api/v1alpha1). Sandbox: internal/admission, sandbox status, the governed pods, pkg/argo and the
  runtime adapters of pkg/runtime. TenantControl: the tenant controller and the detection
  of the network plugin; NetProbe: internal/netpolicy, the probe as a sequence of calls.
  AgentCard: the agentcard controller. Startup: the wiring of cmd/main.go, from the flags
  to the parts that may start.
  GoStruct, RecordCodec: decoding of JSON into structs and the codec of a receipt record.
  Dataset: pkg/dataset and its store; ReceiptExport: exports, keys, trust roots and their
  verification; ReceiptService: the receipt writer's HTTP service and its client
  (cmd/receipt-writer, pkg/receipts/remote.go, pkg/dataset/remote.go). AuditVerify:
  cmd/audit-verify. Offline: pkg/decision/eval and the offline commands of cmd/agentctl.
  DecisionView: pkg/decisionview and the pages over it; WebGate: the gate and the
  handlers of cmd/agentctl-web; AgentCtl: the decisions of pkg/agentctl.
  FinOps: pkg/finops. McpServer: the tool server for agents (pkg/mcp/server.go), the
  cost summary and the helpers of pkg/agentctl. Evaluation: pkg/evaluation.

  What the lemmas show. The controller: a held action is sent in one call at most whatever fails,
  executions come after the receipts that authorise them, only verified human decisions that no
  layer blocks execute, and an approved action is executed when the environment works.
  The decision: the layers keep the strictest vote, scorers and claims only tighten,
  the scan is complete or says it is not, check digits detect errors, the integer scorers do
  not wrap. Approval: who decided is authenticated, decisions are final and bound to their action;
  the webhook stamps only what its checks admit and freezes a held action.
  Receipts and audit: digests survive storage, each stored receipt has its record across
  crashes, the chain is tamper evident, an export that verifies carries the chain its trust root
  pins, a client accepts only the reply that binds its request, and a ledger that passes the audit
  command is the one its checkpoints pin. The views count what the verified export holds.
  The operator starts only with what it was told to use, an active tenant has the objects of the
  steps just run, and all of them while its spec stays and nothing is deleted,
  a probe removes what it made, an agent's tool call over HTTP reaches the cluster
  only with the token, if there is one. The remaining packages: refinement of the breaker, the retry bound, quota bounds,
  exact SLA counters, spacing of scalings, routing to own providers, costs that count each call once.

  Bounds and fuel. A handler run consumes one tick per effect and stops when none is left, so
  a list of ticks is a bound only on how far a run goes and every theorem holds for all lists. The
  matcher of expressions and the parsers recurse on their input; loops with a counter recurse on
  it with a proved measure. A call is at most three posts, the retries of the client.

  Parameters: the compiler of policy packs and the query results (OPA), the canonical form and
  hash of the receipt format library, Ed25519 and PEM parsing, the answers of HTTP servers and of
  the API server, the clock and its text, the tables of package unicode beyond ASCII.

  Not modelled: spans, logs, metrics and their exporters; generated deep copies; parsing of
  flags, the kubeconfig and the manager; the tables that agentctl prints; templates,
  embedded files and read-only pages of the web client; the license generator; the
  snapshot tools; mock servers and demonstrations; the flock call.
  The manifest lists every component with its status.
\<close>

end
